(* ===== verification/GW_Prelude.thy ===== *)
theory GW_Prelude
  imports Main "HOL-Library.Monad_Syntax"
begin

text \<open>
  Shared vocabulary of the development: the hint collections, the arrays of
  pointers that back every pool of the daemon (a C array whose entries are NULL or point to
  an object is an \<open>'a option list\<close>), the round-robin search for a free entry that the
  job, array and host pools all run, and an interface (a locale) for such pools.

  A function of the model that can read through a NULL pointer or outside an array returns an
  \<open>option\<close>; \<open>None\<close> stands for the undefined behaviour of the C code, and the
  \<open>do\<close> notation of the library sequences such steps.
\<close>

named_theorems gw_defs \<open>definitions that a step of the daemon unfolds to\<close>
named_theorems gw_frame \<open>what an operation leaves unchanged\<close>

section \<open>Arrays of pointers\<close>

type_synonym 'a slots = "'a option list"

text \<open>The guarded read \<open>0 \<le> id \<and> id < n\<close> that every pool's get function performs.\<close>

definition slot_get :: "'a slots \<Rightarrow> int \<Rightarrow> 'a option" where
  "slot_get p i = (if 0 \<le> i \<and> i < int (length p) then p ! nat i else None)"

definition slot_put :: "'a slots \<Rightarrow> int \<Rightarrow> 'a option \<Rightarrow> 'a slots" where
  "slot_put p i x = p[nat i := x]"

definition occupied :: "'a slots \<Rightarrow> nat" where
  "occupied p = length (filter (\<lambda>x. x \<noteq> None) p)"

lemma slot_get_Some_range: "slot_get p i = Some x \<Longrightarrow> 0 \<le> i \<and> nat i < length p"
  by (auto simp: slot_get_def split: if_splits)

lemma slot_put_length [simp]: "length (slot_put p i x) = length p"
  by (simp add: slot_put_def)

lemma slot_get_put_same:
  "0 \<le> i \<Longrightarrow> i < int (length p) \<Longrightarrow> slot_get (slot_put p i x) i = x"
  by (simp add: slot_get_def slot_put_def nat_less_iff)

lemma slot_get_put_other [simp]:
  "i \<noteq> k \<Longrightarrow> 0 \<le> i \<Longrightarrow> slot_get (slot_put p i x) k = slot_get p k"
  by (auto simp: slot_get_def slot_put_def nth_list_update nat_eq_iff)

lemma slot_get_put_Some [simp]:
  "slot_get p i = Some y \<Longrightarrow>
     slot_get (slot_put p i x) k = (if k = i then x else slot_get p k)"
  by (auto simp: slot_get_def slot_put_def nth_list_update nat_eq_iff split: if_splits)

lemma occupied_le: "occupied p \<le> length p"
  by (simp add: occupied_def)

lemma occupied_full: "occupied p = length p \<longleftrightarrow> None \<notin> set p"
proof -
  have "occupied p = length p \<longleftrightarrow> filter (\<lambda>x. x \<noteq> None) p = p"
    unfolding occupied_def by (metis length_filter_less less_irrefl filter_id_conv)
  also have "\<dots> \<longleftrightarrow> (\<forall>x\<in>set p. x \<noteq> None)"
    by (rule filter_id_conv)
  also have "\<dots> \<longleftrightarrow> None \<notin> set p"
    by metis
  finally show ?thesis .
qed

lemma occupied_fill:
  "k < length p \<Longrightarrow> p ! k = None \<Longrightarrow> occupied (p[k := Some y]) = Suc (occupied p)"
proof (induction p arbitrary: k)
  case Nil
  then show ?case by simp
next
  case (Cons a p)
  then show ?case by (cases k) (auto simp: occupied_def)
qed

lemma occupied_clear:
  "k < length p \<Longrightarrow> p ! k = Some y \<Longrightarrow> Suc (occupied (p[k := None])) = occupied p"
proof (induction p arbitrary: k)
  case Nil
  then show ?case by simp
next
  case (Cons a p)
  then show ?case by (cases k) (auto simp: occupied_def)
qed

section \<open>The round-robin search for a free entry\<close>

text \<open>
  The loop \<open>while (!found && tries < n)\<close> of \<open>gw_job_pool_allocate\<close>,
  \<open>gw_array_pool_array_allocate\<close> and \<open>gw_host_pool_host_allocate\<close>: at most \<open>n\<close> entries are
  inspected, starting at the one after the last identifier handed out. The first argument
  is the number of tries left.
\<close>

fun scan_free :: "nat \<Rightarrow> 'a slots \<Rightarrow> nat \<Rightarrow> nat option" where
  "scan_free 0 p i = None"
| "scan_free (Suc k) p i =
     (if p ! i = None then Some i else scan_free k p ((i + 1) mod length p))"

text \<open>
  The whole search. The outer option is the division by zero of \<open>(last + 1) % n\<close> when the
  configuration gives a pool of size 0, the inner one the answer -1 of a full pool.
\<close>

definition find_slot :: "int \<Rightarrow> 'a slots \<Rightarrow> nat option option" where
  "find_slot lst p =
     (if p = [] then None
      else Some (scan_free (length p) p (nat ((lst + 1) mod int (length p)))))"

lemma scan_free_Some:
  "scan_free k p i = Some j \<Longrightarrow> i < length p \<Longrightarrow> j < length p \<and> p ! j = None"
proof (induction k arbitrary: i)
  case 0
  then show ?case by simp
next
  case (Suc k)
  have "(i + 1) mod length p < length p"
    by (rule mod_less_divisor) (use Suc.prems(2) in linarith)
  then show ?case using Suc by (auto split: if_splits)
qed

lemma scan_free_None:
  "scan_free k p i = None \<Longrightarrow> i < length p \<Longrightarrow> d < k \<Longrightarrow> p ! ((i + d) mod length p) \<noteq> None"
proof (induction k arbitrary: i d)
  case 0
  then show ?case by simp
next
  case (Suc k)
  have lt: "(i + 1) mod length p < length p"
    by (rule mod_less_divisor) (use Suc.prems(2) in linarith)
  show ?case
  proof (cases d)
    case 0
    then show ?thesis using Suc.prems by (auto split: if_splits)
  next
    case (Suc d')
    have "p ! (((i + 1) mod length p + d') mod length p) \<noteq> None"
      using Suc.IH [OF _ lt, of d'] Suc.prems \<open>d = Suc d'\<close> by (auto split: if_splits)
    then show ?thesis by (simp add: \<open>d = Suc d'\<close> mod_add_left_eq)
  qed
qed

lemma find_slot_Some:
  assumes "find_slot lst p = Some (Some j)"
  shows "j < length p" and "p ! j = None"
proof -
  have ne: "p \<noteq> []" using assms by (auto simp: find_slot_def split: if_splits)
  then have "nat ((lst + 1) mod int (length p)) < length p"
    by (simp add: nat_less_iff)
  with assms ne show "j < length p" and "p ! j = None"
    using scan_free_Some by (auto simp: find_slot_def)
qed

text \<open>The search fails only when every entry is taken: \<open>n\<close> tries visit all of them.\<close>

lemma find_slot_full:
  assumes "p \<noteq> []"
  shows "find_slot lst p = Some None \<longleftrightarrow> None \<notin> set p"
proof
  let ?i = "nat ((lst + 1) mod int (length p))"
  have i: "?i < length p" using assms by (simp add: nat_less_iff)
  assume "find_slot lst p = Some None"
  then have none: "scan_free (length p) p ?i = None"
    using assms by (simp add: find_slot_def)
  show "None \<notin> set p"
  proof
    assume "None \<in> set p"
    then obtain k where k: "k < length p" "p ! k = None" by (auto simp: in_set_conv_nth)
    define d where "d = (k + length p - ?i) mod length p"
    have "d < length p" using assms by (simp add: d_def)
    moreover have "(?i + d) mod length p = k"
      using i k by (simp add: d_def mod_add_right_eq)
    ultimately show False using scan_free_None [OF none i] k(2) by metis
  qed
next
  let ?i = "nat ((lst + 1) mod int (length p))"
  have i: "?i < length p" using assms by (simp add: nat_less_iff)
  assume full: "None \<notin> set p"
  have "scan_free (length p) p ?i = None"
  proof (cases "scan_free (length p) p ?i")
    case (Some j)
    with scan_free_Some [OF Some i] full show ?thesis by (metis nth_mem)
  qed
  then show "find_slot lst p = Some None" using assms by (simp add: find_slot_def)
qed

section \<open>The interface of a pool\<close>

text \<open>
  What a client relies on: an allocation takes a free entry and fills it with a fresh
  object, it answers -1 (here \<open>None\<close>) exactly when the pool is full, a release empties the
  entry, and the counter moves with both.
\<close>

locale slot_pool =
  fixes slots :: "'p \<Rightarrow> 'a slots"
    and count :: "'p \<Rightarrow> int"
    and alloc :: "'p \<Rightarrow> (int \<times> 'p) option"
    and release :: "int \<Rightarrow> 'p \<Rightarrow> 'p"
    and fresh :: "int \<Rightarrow> 'a"
  assumes alloc_Some: "alloc p = Some (i, p') \<Longrightarrow>
        0 \<le> i \<and> i < int (length (slots p)) \<and> slots p ! nat i = None \<and>
        slots p' = (slots p)[nat i := Some (fresh i)] \<and> count p' = count p + 1"
    and alloc_None: "slots p \<noteq> [] \<Longrightarrow> alloc p = None \<longleftrightarrow> None \<notin> set (slots p)"
    and release_slots: "slots (release i p) =
        (if slot_get (slots p) i = None then slots p else (slots p)[nat i := None])"
    and release_count: "count (release i p) =
        (if slot_get (slots p) i = None then count p else count p - 1)"
begin

definition consistent :: "'p \<Rightarrow> bool" where
  "consistent p \<longleftrightarrow> count p = int (occupied (slots p))"

lemma alloc_consistent:
  assumes "consistent p" and "alloc p = Some (i, p')"
  shows "consistent p'"
  using alloc_Some [OF assms(2)] assms(1)
  by (simp add: consistent_def occupied_fill nat_less_iff)

lemma release_consistent:
  assumes "consistent p"
  shows "consistent (release i p)"
proof (cases "slot_get (slots p) i")
  case None
  then show ?thesis using assms by (simp add: consistent_def release_slots release_count)
next
  case (Some y)
  then have r: "nat i < length (slots p)" "slots p ! nat i = Some y"
    by (auto simp: slot_get_def split: if_splits)
  show ?thesis using assms occupied_clear [OF r] Some
    by (simp add: consistent_def release_slots release_count)
qed

lemma alloc_get:
  assumes "alloc p = Some (i, p')"
  shows "slot_get (slots p) i = None" and "slot_get (slots p') i = Some (fresh i)"
    and "k \<noteq> i \<Longrightarrow> slot_get (slots p') k = slot_get (slots p) k"
  using alloc_Some [OF assms]
  by (auto simp: slot_get_def nat_less_iff nth_list_update nat_eq_iff)

lemma alloc_succeeds:
  assumes "consistent p" and "count p < int (length (slots p))"
  shows "\<exists>i p'. alloc p = Some (i, p')"
proof -
  have "occupied (slots p) \<noteq> length (slots p)" using assms by (simp add: consistent_def)
  then have "None \<in> set (slots p)" by (simp add: occupied_full)
  moreover then have "slots p \<noteq> []" by auto
  ultimately have "alloc p \<noteq> None" by (simp add: alloc_None)
  then show ?thesis by auto
qed

lemma release_alloc:
  assumes "alloc p = Some (i, p')"
  shows "slots (release i p') = slots p" and "count (release i p') = count p"
  using alloc_Some [OF assms] alloc_get(2) [OF assms]
  by (auto simp: release_slots release_count list_update_same_conv nat_less_iff)

end

end
