(* ===== verification/GW_Text.thy ===== *)
theory GW_Text
  imports GW_Prelude
begin

text \<open>
  The text handling the dispatch manager depends on: the decimal numbers that
  \<open>sprintf\<close> writes and \<open>atoi\<close> reads, \<open>strcasecmp\<close>, and the parser of
  \<open>src/common/gw_file_parser.c\<close> that extracts the value of a key from the output of the job
  wrapper. A string carries no terminator, and the fixed sizes of the buffers that the code
  formats URLs into are not modelled; the 254-character chunks in which \<open>fgets\<close> reads a line
  are.
\<close>

section \<open>Decimal numbers\<close>

definition digit_char :: "nat \<Rightarrow> char" where
  "digit_char d = char_of (48 + d)"

fun dec_nat :: "nat \<Rightarrow> string" where
  "dec_nat n = (if n < 10 then [digit_char n] else dec_nat (n div 10) @ [digit_char (n mod 10)])"

declare dec_nat.simps [simp del]

definition dec :: "int \<Rightarrow> string" where
  "dec i = (if i < 0 then CHR ''-'' # dec_nat (nat (- i)) else dec_nat (nat i))"

definition is_digit :: "char \<Rightarrow> bool" where
  "is_digit c \<longleftrightarrow> 48 \<le> (of_char c :: nat) \<and> (of_char c :: nat) \<le> 57"

definition digit_val :: "char \<Rightarrow> nat" where
  "digit_val c = of_char c - 48"

definition is_blank :: "char \<Rightarrow> bool" where
  "is_blank c \<longleftrightarrow> c = CHR '' '' \<or> (9 \<le> (of_char c :: nat) \<and> (of_char c :: nat) \<le> 13)"

fun atoi_digits :: "string \<Rightarrow> nat \<Rightarrow> nat" where
  "atoi_digits [] acc = acc"
| "atoi_digits (c # cs) acc = (if is_digit c then atoi_digits cs (10 * acc + digit_val c) else acc)"

definition atoi :: "string \<Rightarrow> int" where
  "atoi s =
     (case dropWhile is_blank s of
        [] \<Rightarrow> 0
      | c # cs \<Rightarrow>
          (if c = CHR ''-'' then - int (atoi_digits cs 0)
           else if c = CHR ''+'' then int (atoi_digits cs 0)
           else int (atoi_digits (c # cs) 0)))"

section \<open>The file parser\<close>

definition GW_FIELD_DELIMITERS :: string where
  "GW_FIELD_DELIMITERS = [CHR '' '', CHR ''='', CHR 0x09, CHR 0x0A]"

definition NL :: char where
  "NL = CHR 0x0A"

definition tolower :: "char \<Rightarrow> char" where
  "tolower c = (if 65 \<le> (of_char c :: nat) \<and> (of_char c :: nat) \<le> 90
                then char_of ((of_char c :: nat) + 32) else c)"

definition strcasecmp_eq :: "string \<Rightarrow> string \<Rightarrow> bool" where
  "strcasecmp_eq s t \<longleftrightarrow> map tolower s = map tolower t"

definition strtok_first :: "string \<Rightarrow> string \<Rightarrow> string option" where
  "strtok_first delims s =
     (case takeWhile (\<lambda>c. c \<notin> set delims) (dropWhile (\<lambda>c. c \<in> set delims) s) of
        [] \<Rightarrow> None | t \<Rightarrow> Some t)"

fun strchr_after :: "char \<Rightarrow> string \<Rightarrow> string option" where
  "strchr_after c [] = None"
| "strchr_after c (d # ds) = (if d = c then Some ds else strchr_after c ds)"

definition gw_parse_line :: "string \<Rightarrow> string \<Rightarrow> bool \<times> string option" where
  "gw_parse_line line pattern =
     (case strtok_first GW_FIELD_DELIMITERS line of
        None \<Rightarrow> (False, None)
      | Some token \<Rightarrow>
          (if strcasecmp_eq pattern token then (True, strchr_after (CHR ''='') line)
           else (False, None)))"

text \<open>\<open>fgets\<close> with room for \<open>n\<close> characters: it stops after a newline.\<close>

fun fgets :: "nat \<Rightarrow> string \<Rightarrow> string \<times> string" where
  "fgets 0 cs = ([], cs)"
| "fgets (Suc n) [] = ([], [])"
| "fgets (Suc n) (c # cs) =
     (if c = NL then ([c], cs) else (case fgets n cs of (a, b) \<Rightarrow> (c # a, b)))"

lemma fgets_append: "fst (fgets n cs) @ snd (fgets n cs) = cs"
  by (induction n cs rule: fgets.induct) (auto split: prod.splits)

lemma fgets_progress:
  assumes "cs \<noteq> []" and "0 < n"
  shows "length (snd (fgets n cs)) < length cs"
proof -
  obtain c cs' where cs: "cs = c # cs'" using assms(1) by (cases cs) auto
  obtain m where n: "n = Suc m" using assms(2) by (cases n) auto
  have "length (snd (fgets m cs')) \<le> length cs'"
    using fgets_append [of m cs'] by (metis length_append le_add2)
  then show ?thesis by (auto simp: cs n split: prod.splits)
qed

function parse_chunks :: "string \<Rightarrow> string \<Rightarrow> bool \<times> string option" where
  "parse_chunks cs pattern =
     (if cs = [] then (False, None)
      else case gw_parse_line (takeWhile (\<lambda>c. c \<noteq> NL) (fst (fgets 254 cs))) pattern of
             (True, v) \<Rightarrow> (True, v)
           | (False, v) \<Rightarrow> parse_chunks (snd (fgets 254 cs)) pattern)"
  by pat_completeness auto
termination
  by (relation "measure (\<lambda>(cs, p). length cs)") (auto simp: fgets_progress)

declare parse_chunks.simps [simp del]

text \<open>The file is its contents, or \<open>None\<close> when it cannot be opened.\<close>

definition gw_parse_file :: "string option \<Rightarrow> string \<Rightarrow> int \<times> string option" where
  "gw_parse_file file pattern =
     (case file of
        None \<Rightarrow> (-1, None)
      | Some cs \<Rightarrow> (case parse_chunks cs pattern of (found, v) \<Rightarrow> (of_bool found, v)))"

section \<open>Numbers survive the round trip\<close>

lemma of_char_digit: "d < 10 \<Longrightarrow> (of_char (digit_char d) :: nat) = 48 + d"
  by (simp add: digit_char_def)

lemma digit_char_val [simp]: "d < 10 \<Longrightarrow> is_digit (digit_char d)" "d < 10 \<Longrightarrow> digit_val (digit_char d) = d"
  by (auto simp: is_digit_def digit_val_def of_char_digit)

lemma digit_not_special:
  assumes "is_digit c"
  shows "\<not> is_blank c" "c \<noteq> CHR ''-''" "c \<noteq> CHR ''+''" "c \<noteq> CHR ''S''" "c \<noteq> CHR ''P''" "c \<noteq> NL"
proof -
  have ge: "48 \<le> (of_char c :: nat)" and le: "(of_char c :: nat) \<le> 57"
    using assms by (auto simp: is_digit_def)
  show "c \<noteq> CHR ''-''" "c \<noteq> CHR ''+''" "c \<noteq> CHR ''S''" "c \<noteq> CHR ''P''" "c \<noteq> NL"
    using ge le by (auto simp: NL_def)
  have "c \<noteq> CHR '' ''" using ge by auto
  then show "\<not> is_blank c" using ge by (auto simp: is_blank_def)
qed

lemma dec_nat_digits: "c \<in> set (dec_nat n) \<Longrightarrow> is_digit c"
proof (induction n rule: dec_nat.induct)
  case (1 n)
  then show ?case by (auto simp: dec_nat.simps [of n] split: if_splits)
qed

lemma dec_nat_not_Nil [simp]: "dec_nat n \<noteq> []"
  by (simp add: dec_nat.simps [of n])

lemma atoi_digits_append:
  "(\<And>c. c \<in> set xs \<Longrightarrow> is_digit c) \<Longrightarrow> atoi_digits (xs @ ys) acc = atoi_digits ys (atoi_digits xs acc)"
  by (induction xs arbitrary: acc) auto

lemma atoi_digits_dec: "atoi_digits (dec_nat n) 0 = n"
proof (induction n rule: dec_nat.induct)
  case (1 n)
  show ?case
  proof (cases "n < 10")
    case True
    then show ?thesis by (simp add: dec_nat.simps [of n])
  next
    case False
    then have "dec_nat n = dec_nat (n div 10) @ [digit_char (n mod 10)]"
      by (simp add: dec_nat.simps [of n])
    then show ?thesis using False 1 dec_nat_digits by (simp add: atoi_digits_append)
  qed
qed

lemma atoi_dec_nat: "atoi (dec_nat n) = int n"
proof -
  obtain c cs where d: "dec_nat n = c # cs" by (cases "dec_nat n") auto
  then have "is_digit c" using dec_nat_digits [of c n] by simp
  with d show ?thesis using atoi_digits_dec [of n] digit_not_special [of c]
    by (simp add: atoi_def)
qed

lemma atoi_dec: "atoi (dec i) = i"
proof (cases "i < 0")
  case True
  then show ?thesis using atoi_digits_dec [of "nat (- i)"]
    by (simp add: dec_def atoi_def is_blank_def)
next
  case False
  then show ?thesis using atoi_dec_nat [of "nat i"] by (simp add: dec_def)
qed

lemma dec_inject: "dec i = dec k \<longleftrightarrow> i = k"
  by (metis atoi_dec)

lemma dec_hd: "\<exists>c cs. dec i = c # cs \<and> c \<noteq> CHR ''S'' \<and> c \<noteq> CHR ''P''"
proof -
  obtain c cs where d: "dec_nat (nat i) = c # cs" by (cases "dec_nat (nat i)") auto
  then have "is_digit c" using dec_nat_digits [of c "nat i"] by simp
  with d digit_not_special [of c] show ?thesis by (auto simp: dec_def)
qed

lemma dec_no_NL: "NL \<notin> set (dec i)"
proof -
  have "NL \<notin> set (dec_nat n)" for n using dec_nat_digits [of NL n] digit_not_special(6) by blast
  then show ?thesis by (simp add: dec_def NL_def)
qed

section \<open>The parser on a file of short lines\<close>

definition unlines :: "string list \<Rightarrow> string" where
  "unlines ls = concat (map (\<lambda>l. l @ [NL]) ls)"

lemma fgets_line:
  "length l < n \<Longrightarrow> NL \<notin> set l \<Longrightarrow> fgets n (l @ NL # cs) = (l @ [NL], cs)"
proof (induction l arbitrary: n)
  case Nil
  then show ?case by (cases n) auto
next
  case (Cons c l)
  then obtain m where "n = Suc m" by (cases n) auto
  with Cons show ?case by auto
qed

lemma takeWhile_line: "NL \<notin> set l \<Longrightarrow> takeWhile (\<lambda>c. c \<noteq> NL) (l @ NL # cs) = l"
  by (induction l) auto

lemma parse_chunks_unlines:
  "\<forall>l\<in>set ls. NL \<notin> set l \<and> length l < 254 \<Longrightarrow>
   parse_chunks (unlines ls @ rest) p =
     (case find (\<lambda>l. fst (gw_parse_line l p)) ls of
        None \<Rightarrow> parse_chunks rest p | Some l \<Rightarrow> gw_parse_line l p)"
proof (induction ls)
  case Nil
  then show ?case by (simp add: unlines_def)
next
  case (Cons l ls)
  have u: "unlines (l # ls) @ rest = l @ NL # (unlines ls @ rest)" by (simp add: unlines_def)
  have f: "fgets 254 (l @ NL # (unlines ls @ rest)) = (l @ [NL], unlines ls @ rest)"
    using Cons.prems by (simp add: fgets_line)
  have t: "takeWhile (\<lambda>c. c \<noteq> NL) (l @ [NL]) = l"
    using Cons.prems by (simp add: takeWhile_line)
  show ?case
    unfolding u parse_chunks.simps [of "l @ NL # (unlines ls @ rest)"] f
    using Cons by (auto simp: t split: prod.splits bool.splits)
qed

lemma exit_status_line:
  "gw_parse_line (''EXIT_STATUS='' @ v) ''EXIT_STATUS'' = (True, Some v)"
  by (simp add: gw_parse_line_def strtok_first_def GW_FIELD_DELIMITERS_def strcasecmp_eq_def)

text \<open>
  C36: the exit code that a wrapper writes to its standard output as \<open>EXIT_STATUS=n\<close> is the
  one the daemon reads back, whatever the application printed around it, as long as the
  lines before it do not themselves start with the key and each fits in one read.
\<close>

theorem exit_status_roundtrip:
  assumes "\<And>l. l \<in> set ls \<Longrightarrow> NL \<notin> set l \<and> length l < 254 \<and> \<not> fst (gw_parse_line l ''EXIT_STATUS'')"
    and "length (dec n) < 200"
  shows "\<exists>v. gw_parse_file (Some (unlines (ls @ [''EXIT_STATUS='' @ dec n]) @ rest)) ''EXIT_STATUS''
             = (1, Some v) \<and> atoi v = n"
proof -
  let ?l = "''EXIT_STATUS='' @ dec n"
  have "find (\<lambda>l. fst (gw_parse_line l ''EXIT_STATUS'')) (ls @ [?l]) = Some ?l"
    using assms(1) exit_status_line [of "dec n"] by (induction ls) auto
  moreover have "\<forall>l\<in>set (ls @ [?l]). NL \<notin> set l \<and> length l < 254"
    using assms dec_no_NL [of n] by (auto simp: NL_def)
  ultimately have "parse_chunks (unlines (ls @ [?l]) @ rest) ''EXIT_STATUS'' = (True, Some (dec n))"
    by (simp only: parse_chunks_unlines option.case exit_status_line)
  then show ?thesis by (simp add: gw_parse_file_def atoi_dec)
qed

theorem exit_status_roundtrip_witness:
  "\<exists>v. gw_parse_file (Some (unlines ([''hello world'', ''NEW_RANK=3''] @ [''EXIT_STATUS='' @ dec 137])
         @ ''tail'')) ''EXIT_STATUS'' = (1, Some v) \<and> atoi v = 137"
  by (rule exit_status_roundtrip)
     (auto simp: NL_def gw_parse_line_def strtok_first_def GW_FIELD_DELIMITERS_def
        strcasecmp_eq_def tolower_def dec_def dec_nat.simps)

end
