(* ===== verification/GW_Template.thy ===== *)
theory GW_Template
  imports GW_Text
begin

text \<open>
  Job templates: the fixed-size structure of a submission message
  (\<open>include/gw_template.h\<close>) and the structure of pointers that a job keeps
  (\<open>include/gw_job_template.h\<close>, \<open>src/job/gw_job_template.c\<close>). An empty string of the message
  becomes a NULL pointer, here \<open>None\<close>. The arrays and their \<open>num_\<close> counters are lists. A
  dependency array ends at its first -1, and is the list of the entries before it.
\<close>

record gw_template =
  ct_name :: string
  ct_file :: string
  ct_job_home :: string
  ct_user_home :: string
  ct_executable :: string
  ct_arguments :: string
  ct_pre_wrapper :: string
  ct_pre_wrapper_arguments :: string
  ct_input_files :: "(string \<times> string) list"
  ct_output_files :: "(string \<times> string) list"
  ct_restart_files :: "string list"
  ct_environment :: "(string \<times> string) list"
  ct_stdin_file :: string
  ct_stdout_file :: string
  ct_stderr_file :: string
  ct_requirements :: string
  ct_rank :: string
  ct_rescheduling_interval :: int
  ct_rescheduling_threshold :: int
  ct_checkpoint_interval :: int
  ct_checkpoint_url :: string
  ct_suspension_timeout :: int
  ct_cpuload_threshold :: int
  ct_reschedule_on_failure :: bool
  ct_number_of_retries :: int
  ct_wrapper :: string
  ct_monitor :: string
  ct_job_deps :: "int list"
  ct_type :: int
  ct_np :: int
  ct_deadline :: int

record gw_job_template =
  jt_name :: "string option"
  jt_file :: "string option"
  job_home :: "string option"
  user_home :: "string option"
  executable :: "string option"
  arguments :: "string option"
  pre_wrapper :: "string option"
  pre_wrapper_arguments :: "string option"
  input_files :: "(string option \<times> string option) list"
  output_files :: "(string option \<times> string option) list"
  restart_files :: "string option list"
  environment :: "(string option \<times> string option) list"
  stdin_file :: "string option"
  stdout_file :: "string option"
  stderr_file :: "string option"
  requirements :: "string option"
  jt_rank :: "string option"
  rescheduling_interval :: int
  rescheduling_threshold :: int
  checkpoint_interval :: int
  checkpoint_url :: "string option"
  suspension_timeout :: int
  cpuload_threshold :: int
  reschedule_on_failure :: bool
  number_of_retries :: int
  wrapper :: "string option"
  monitor :: "string option"
  jt_job_deps :: "int list option"
  jt_type :: int
  np :: int
  deadline :: int

definition gw_job_template_set_str :: "string \<Rightarrow> string option" where
  "gw_job_template_set_str src = (if src = [] then None else Some src)"

definition gw_job_pool_dep_cp :: "int list option \<Rightarrow> int list option" where
  "gw_job_pool_dep_cp src =
     (case src of None \<Rightarrow> None | Some d \<Rightarrow> (if d = [] then None else Some d))"

definition set_pair :: "string \<times> string \<Rightarrow> string option \<times> string option" where
  "set_pair p = (gw_job_template_set_str (fst p), gw_job_template_set_str (snd p))"

definition gw_job_template_init :: "gw_template \<Rightarrow> gw_job_template" where
  "gw_job_template_init ct =
     \<lparr>jt_name = gw_job_template_set_str (ct_name ct),
      jt_file = gw_job_template_set_str (ct_file ct),
      job_home = gw_job_template_set_str (ct_job_home ct),
      user_home = gw_job_template_set_str (ct_user_home ct),
      executable = gw_job_template_set_str (ct_executable ct),
      arguments = gw_job_template_set_str (ct_arguments ct),
      pre_wrapper = gw_job_template_set_str (ct_pre_wrapper ct),
      pre_wrapper_arguments = gw_job_template_set_str (ct_pre_wrapper_arguments ct),
      input_files = map set_pair (ct_input_files ct),
      output_files = map set_pair (ct_output_files ct),
      restart_files = map gw_job_template_set_str (ct_restart_files ct),
      environment = map set_pair (ct_environment ct),
      stdin_file = gw_job_template_set_str (ct_stdin_file ct),
      stdout_file = gw_job_template_set_str (ct_stdout_file ct),
      stderr_file = gw_job_template_set_str (ct_stderr_file ct),
      requirements = gw_job_template_set_str (ct_requirements ct),
      jt_rank = gw_job_template_set_str (ct_rank ct),
      rescheduling_interval = ct_rescheduling_interval ct,
      rescheduling_threshold = ct_rescheduling_threshold ct,
      checkpoint_interval = ct_checkpoint_interval ct,
      checkpoint_url = gw_job_template_set_str (ct_checkpoint_url ct),
      suspension_timeout = ct_suspension_timeout ct,
      cpuload_threshold = ct_cpuload_threshold ct,
      reschedule_on_failure = ct_reschedule_on_failure ct,
      number_of_retries = ct_number_of_retries ct,
      wrapper = gw_job_template_set_str (ct_wrapper ct),
      monitor = gw_job_template_set_str (ct_monitor ct),
      jt_job_deps = gw_job_pool_dep_cp (Some (ct_job_deps ct)),
      jt_type = ct_type ct,
      np = ct_np ct,
      deadline = ct_deadline ct\<rparr>"

text \<open>The template of a job that was allocated and not filled yet: \<open>memset\<close> to 0.\<close>

definition zero_template :: gw_job_template where
  "zero_template =
     \<lparr>jt_name = None, jt_file = None, job_home = None, user_home = None, executable = None,
      arguments = None, pre_wrapper = None, pre_wrapper_arguments = None, input_files = [],
      output_files = [], restart_files = [], environment = [], stdin_file = None,
      stdout_file = None, stderr_file = None, requirements = None, jt_rank = None,
      rescheduling_interval = 0, rescheduling_threshold = 0, checkpoint_interval = 0,
      checkpoint_url = None, suspension_timeout = 0, cpuload_threshold = 0,
      reschedule_on_failure = False, number_of_retries = 0, wrapper = None, monitor = None,
      jt_job_deps = None, jt_type = 0, np = 0, deadline = 0\<rparr>"

text \<open>
  What \<open>printf\<close> writes for a pointer that may be NULL (the C library the daemon is built on
  prints \<open>(null)\<close>, and the recovery of the history file relies on it).
\<close>

definition cstr :: "string option \<Rightarrow> string" where
  "cstr s = (case s of None \<Rightarrow> ''(null)'' | Some t \<Rightarrow> t)"

end
