(* ===== verification/GW_Types.thy ===== *)
theory GW_Types
  imports GW_Prelude
begin

text \<open>
  The enumerations of \<open>include/gw_job.h\<close> and \<open>include/gw_history.h\<close> and the two
  translations between a job state and its name in \<open>src/job/gw_job.c\<close>: the daemon appends
  the name to \<open>job.state\<close> on every transition and the recovery code reads it back.
\<close>

section \<open>States of a job\<close>

datatype gw_em_state =
    GW_EM_STATE_INIT | GW_EM_STATE_PENDING | GW_EM_STATE_SUSPENDED | GW_EM_STATE_ACTIVE
  | GW_EM_STATE_FAILED | GW_EM_STATE_DONE | GW_EM_STATE_HARD_KILL | GW_EM_STATE_LIMIT

datatype gw_tm_state =
    GW_TM_STATE_INIT | GW_TM_STATE_PROLOG | GW_TM_STATE_PROLOG_FAILED | GW_TM_STATE_EPILOG
  | GW_TM_STATE_EPILOG_FAILED | GW_TM_STATE_CHECKPOINT | GW_TM_STATE_CHECKPOINT_CANCEL
  | GW_TM_STATE_HARD_KILL | GW_TM_STATE_LIMIT

datatype gw_job_state =
    GW_JOB_STATE_INIT | GW_JOB_STATE_PENDING | GW_JOB_STATE_HOLD | GW_JOB_STATE_PROLOG
  | GW_JOB_STATE_PRE_WRAPPER | GW_JOB_STATE_WRAPPER | GW_JOB_STATE_EPILOG
  | GW_JOB_STATE_EPILOG_STD | GW_JOB_STATE_EPILOG_RESTART | GW_JOB_STATE_EPILOG_FAIL
  | GW_JOB_STATE_STOP_CANCEL | GW_JOB_STATE_STOP_EPILOG | GW_JOB_STATE_STOPPED
  | GW_JOB_STATE_KILL_CANCEL | GW_JOB_STATE_KILL_EPILOG | GW_JOB_STATE_MIGR_CANCEL
  | GW_JOB_STATE_MIGR_PROLOG | GW_JOB_STATE_MIGR_EPILOG | GW_JOB_STATE_ZOMBIE
  | GW_JOB_STATE_FAILED | GW_JOB_STATE_LIMIT

datatype gw_migration_reason =
    GW_REASON_NONE | GW_REASON_USER_REQUESTED | GW_REASON_SUSPENSION_TIME
  | GW_REASON_RESCHEDULING_TIMEOUT | GW_REASON_SELF_MIGRATION | GW_REASON_PERFORMANCE
  | GW_REASON_STOP_RESUME | GW_REASON_EXECUTION_ERROR | GW_REASON_KILL | GW_REASON_LIMIT

text \<open>The indices of the array \<open>stats\<close> of a history record.\<close>

datatype gw_stat =
    START_TIME | EXIT_TIME | SUSPENSION_TIME | LAST_SUSPENSION_TIME | ACTIVE_TIME
  | LAST_ACTIVE_TIME | PROLOG_START_TIME | PROLOG_EXIT_TIME | WRAPPER_START_TIME
  | WRAPPER_EXIT_TIME | PRE_WRAPPER_START_TIME | PRE_WRAPPER_EXIT_TIME | EPILOG_START_TIME
  | EPILOG_EXIT_TIME | MIGRATION_START_TIME | MIGRATION_EXIT_TIME

text \<open>The job states of the GRAM protocol that the log for the event generator uses.\<close>

datatype gram_state =
    GLOBUS_GRAM_PROTOCOL_JOB_STATE_PENDING | GLOBUS_GRAM_PROTOCOL_JOB_STATE_ACTIVE
  | GLOBUS_GRAM_PROTOCOL_JOB_STATE_FAILED | GLOBUS_GRAM_PROTOCOL_JOB_STATE_DONE
  | GLOBUS_GRAM_PROTOCOL_JOB_STATE_SUSPENDED | GLOBUS_GRAM_PROTOCOL_JOB_STATE_UNSUBMITTED
  | GLOBUS_GRAM_PROTOCOL_JOB_STATE_STAGE_IN | GLOBUS_GRAM_PROTOCOL_JOB_STATE_STAGE_OUT
  | GLOBUS_GRAM_PROTOCOL_JOB_STATE_ALL

fun gram_state_value :: "gram_state \<Rightarrow> int" where
  "gram_state_value GLOBUS_GRAM_PROTOCOL_JOB_STATE_PENDING = 1"
| "gram_state_value GLOBUS_GRAM_PROTOCOL_JOB_STATE_ACTIVE = 2"
| "gram_state_value GLOBUS_GRAM_PROTOCOL_JOB_STATE_FAILED = 4"
| "gram_state_value GLOBUS_GRAM_PROTOCOL_JOB_STATE_DONE = 8"
| "gram_state_value GLOBUS_GRAM_PROTOCOL_JOB_STATE_SUSPENDED = 16"
| "gram_state_value GLOBUS_GRAM_PROTOCOL_JOB_STATE_UNSUBMITTED = 32"
| "gram_state_value GLOBUS_GRAM_PROTOCOL_JOB_STATE_STAGE_IN = 64"
| "gram_state_value GLOBUS_GRAM_PROTOCOL_JOB_STATE_STAGE_OUT = 128"
| "gram_state_value GLOBUS_GRAM_PROTOCOL_JOB_STATE_ALL = 1048575"

section \<open>Names and codes of the job states\<close>

text \<open>An enumerator is its position in the declaration; the tables are indexed by it.\<close>

fun job_state_index :: "gw_job_state \<Rightarrow> nat" where
  "job_state_index GW_JOB_STATE_INIT = 0"
| "job_state_index GW_JOB_STATE_PENDING = 1"
| "job_state_index GW_JOB_STATE_HOLD = 2"
| "job_state_index GW_JOB_STATE_PROLOG = 3"
| "job_state_index GW_JOB_STATE_PRE_WRAPPER = 4"
| "job_state_index GW_JOB_STATE_WRAPPER = 5"
| "job_state_index GW_JOB_STATE_EPILOG = 6"
| "job_state_index GW_JOB_STATE_EPILOG_STD = 7"
| "job_state_index GW_JOB_STATE_EPILOG_RESTART = 8"
| "job_state_index GW_JOB_STATE_EPILOG_FAIL = 9"
| "job_state_index GW_JOB_STATE_STOP_CANCEL = 10"
| "job_state_index GW_JOB_STATE_STOP_EPILOG = 11"
| "job_state_index GW_JOB_STATE_STOPPED = 12"
| "job_state_index GW_JOB_STATE_KILL_CANCEL = 13"
| "job_state_index GW_JOB_STATE_KILL_EPILOG = 14"
| "job_state_index GW_JOB_STATE_MIGR_CANCEL = 15"
| "job_state_index GW_JOB_STATE_MIGR_PROLOG = 16"
| "job_state_index GW_JOB_STATE_MIGR_EPILOG = 17"
| "job_state_index GW_JOB_STATE_ZOMBIE = 18"
| "job_state_index GW_JOB_STATE_FAILED = 19"
| "job_state_index GW_JOB_STATE_LIMIT = 20"

definition gw_job_state_names :: "string list" where
  "gw_job_state_names =
     [''INIT'', ''PENDING'', ''HOLD'', ''PROLOG'', ''PRE_WRAPPER'', ''WRAPPER'', ''EPILOG'',
      ''EPILOG_STD'', ''EPILOG_RESTART'', ''EPILOG_FAIL'', ''STOP_CANCEL'', ''STOP_EPILOG'',
      ''STOPPED'', ''KILL_CANCEL'', ''KILL_EPILOG'', ''MIGR_CANCEL'', ''MIGR_PROLOG'',
      ''MIGR_EPILOG'', ''DONE'', ''FAILED'', ''----'']"

definition gw_job_get_state_name :: "gw_job_state \<Rightarrow> string" where
  "gw_job_get_state_name st =
     (if job_state_index st < job_state_index GW_JOB_STATE_LIMIT
      then gw_job_state_names ! job_state_index st
      else gw_job_state_names ! job_state_index GW_JOB_STATE_LIMIT)"

definition gw_job_state_mapping :: "gram_state list" where
  "gw_job_state_mapping =
     [GLOBUS_GRAM_PROTOCOL_JOB_STATE_PENDING, GLOBUS_GRAM_PROTOCOL_JOB_STATE_PENDING,
      GLOBUS_GRAM_PROTOCOL_JOB_STATE_SUSPENDED, GLOBUS_GRAM_PROTOCOL_JOB_STATE_ACTIVE,
      GLOBUS_GRAM_PROTOCOL_JOB_STATE_ACTIVE, GLOBUS_GRAM_PROTOCOL_JOB_STATE_ACTIVE,
      GLOBUS_GRAM_PROTOCOL_JOB_STATE_ACTIVE, GLOBUS_GRAM_PROTOCOL_JOB_STATE_ACTIVE,
      GLOBUS_GRAM_PROTOCOL_JOB_STATE_ACTIVE, GLOBUS_GRAM_PROTOCOL_JOB_STATE_ACTIVE,
      GLOBUS_GRAM_PROTOCOL_JOB_STATE_ACTIVE, GLOBUS_GRAM_PROTOCOL_JOB_STATE_ACTIVE,
      GLOBUS_GRAM_PROTOCOL_JOB_STATE_SUSPENDED, GLOBUS_GRAM_PROTOCOL_JOB_STATE_ACTIVE,
      GLOBUS_GRAM_PROTOCOL_JOB_STATE_ACTIVE, GLOBUS_GRAM_PROTOCOL_JOB_STATE_ACTIVE,
      GLOBUS_GRAM_PROTOCOL_JOB_STATE_ACTIVE, GLOBUS_GRAM_PROTOCOL_JOB_STATE_ACTIVE,
      GLOBUS_GRAM_PROTOCOL_JOB_STATE_DONE, GLOBUS_GRAM_PROTOCOL_JOB_STATE_FAILED,
      GLOBUS_GRAM_PROTOCOL_JOB_STATE_PENDING]"

definition gw_job_get_gram_state :: "gw_job_state \<Rightarrow> gram_state" where
  "gw_job_get_gram_state st =
     (if job_state_index st < job_state_index GW_JOB_STATE_LIMIT
      then gw_job_state_mapping ! job_state_index st
      else gw_job_state_mapping ! job_state_index GW_JOB_STATE_LIMIT)"

text \<open>
  The inverse translation switches on the first character (the terminating NUL of an empty
  string matches no case) and compares the whole name within the case.
\<close>

definition gw_job_get_state_code :: "string \<Rightarrow> gw_job_state" where
  "gw_job_get_state_code s =
     (case s of [] \<Rightarrow> GW_JOB_STATE_LIMIT
      | c # _ \<Rightarrow>
        if c = CHR ''D'' then
          (if s = ''DONE'' then GW_JOB_STATE_ZOMBIE else GW_JOB_STATE_LIMIT)
        else if c = CHR ''E'' then
          (if s = ''EPILOG'' then GW_JOB_STATE_EPILOG
           else if s = ''EPILOG_STD'' then GW_JOB_STATE_EPILOG_STD
           else if s = ''EPILOG_RESTART'' then GW_JOB_STATE_EPILOG_RESTART
           else if s = ''EPILOG_FAIL'' then GW_JOB_STATE_EPILOG_FAIL
           else GW_JOB_STATE_LIMIT)
        else if c = CHR ''F'' then
          (if s = ''FAILED'' then GW_JOB_STATE_FAILED else GW_JOB_STATE_LIMIT)
        else if c = CHR ''H'' then
          (if s = ''HOLD'' then GW_JOB_STATE_HOLD else GW_JOB_STATE_LIMIT)
        else if c = CHR ''K'' then
          (if s = ''KILL_CANCEL'' then GW_JOB_STATE_KILL_CANCEL
           else if s = ''KILL_EPILOG'' then GW_JOB_STATE_KILL_EPILOG
           else GW_JOB_STATE_LIMIT)
        else if c = CHR ''M'' then
          (if s = ''MIGR_CANCEL'' then GW_JOB_STATE_MIGR_CANCEL
           else if s = ''MIGR_PROLOG'' then GW_JOB_STATE_MIGR_PROLOG
           else if s = ''MIGR_EPILOG'' then GW_JOB_STATE_MIGR_EPILOG
           else GW_JOB_STATE_LIMIT)
        else if c = CHR ''P'' then
          (if s = ''PENDING'' then GW_JOB_STATE_PENDING
           else if s = ''PROLOG'' then GW_JOB_STATE_PROLOG
           else if s = ''PRE_WRAPPER'' then GW_JOB_STATE_PRE_WRAPPER
           else GW_JOB_STATE_LIMIT)
        else if c = CHR ''S'' then
          (if s = ''STOP_CANCEL'' then GW_JOB_STATE_STOP_CANCEL
           else if s = ''STOP_EPILOG'' then GW_JOB_STATE_STOP_EPILOG
           else if s = ''STOPPED'' then GW_JOB_STATE_STOPPED
           else GW_JOB_STATE_LIMIT)
        else if c = CHR ''W'' then
          (if s = ''WRAPPER'' then GW_JOB_STATE_WRAPPER else GW_JOB_STATE_LIMIT)
        else GW_JOB_STATE_LIMIT)"

text \<open>
  Every transition the daemon writes to \<open>job.state\<close> is read back as the state it was,
  with one exception: a job in its initial state, which has the name INIT but no code.
\<close>

lemma state_name_code_roundtrip:
  "gw_job_get_state_code (gw_job_get_state_name st) =
     (if st = GW_JOB_STATE_INIT then GW_JOB_STATE_LIMIT else st)"
  by (cases st)
    (simp_all add: gw_job_get_state_name_def gw_job_state_names_def gw_job_get_state_code_def)

text \<open>Conversely a name that has a code is the name of that state: no alias is accepted.\<close>

lemma state_name_table:
  "gw_job_get_state_name GW_JOB_STATE_INIT = ''INIT''"
  "gw_job_get_state_name GW_JOB_STATE_PENDING = ''PENDING''"
  "gw_job_get_state_name GW_JOB_STATE_HOLD = ''HOLD''"
  "gw_job_get_state_name GW_JOB_STATE_PROLOG = ''PROLOG''"
  "gw_job_get_state_name GW_JOB_STATE_PRE_WRAPPER = ''PRE_WRAPPER''"
  "gw_job_get_state_name GW_JOB_STATE_WRAPPER = ''WRAPPER''"
  "gw_job_get_state_name GW_JOB_STATE_EPILOG = ''EPILOG''"
  "gw_job_get_state_name GW_JOB_STATE_EPILOG_STD = ''EPILOG_STD''"
  "gw_job_get_state_name GW_JOB_STATE_EPILOG_RESTART = ''EPILOG_RESTART''"
  "gw_job_get_state_name GW_JOB_STATE_EPILOG_FAIL = ''EPILOG_FAIL''"
  "gw_job_get_state_name GW_JOB_STATE_STOP_CANCEL = ''STOP_CANCEL''"
  "gw_job_get_state_name GW_JOB_STATE_STOP_EPILOG = ''STOP_EPILOG''"
  "gw_job_get_state_name GW_JOB_STATE_STOPPED = ''STOPPED''"
  "gw_job_get_state_name GW_JOB_STATE_KILL_CANCEL = ''KILL_CANCEL''"
  "gw_job_get_state_name GW_JOB_STATE_KILL_EPILOG = ''KILL_EPILOG''"
  "gw_job_get_state_name GW_JOB_STATE_MIGR_CANCEL = ''MIGR_CANCEL''"
  "gw_job_get_state_name GW_JOB_STATE_MIGR_PROLOG = ''MIGR_PROLOG''"
  "gw_job_get_state_name GW_JOB_STATE_MIGR_EPILOG = ''MIGR_EPILOG''"
  "gw_job_get_state_name GW_JOB_STATE_ZOMBIE = ''DONE''"
  "gw_job_get_state_name GW_JOB_STATE_FAILED = ''FAILED''"
  "gw_job_get_state_name GW_JOB_STATE_LIMIT = ''----''"
  by (simp_all add: gw_job_get_state_name_def gw_job_state_names_def)

lemma state_code_name:
  "gw_job_get_state_code s = GW_JOB_STATE_LIMIT \<or>
     s = gw_job_get_state_name (gw_job_get_state_code s)"
proof (cases s)
  case Nil
  then show ?thesis by (simp add: gw_job_get_state_code_def)
next
  case (Cons c cs)
  have branch: "\<And>b x y. (b \<Longrightarrow> x = GW_JOB_STATE_LIMIT \<or> s = gw_job_get_state_name x) \<Longrightarrow>
     (y = GW_JOB_STATE_LIMIT \<or> s = gw_job_get_state_name y) \<Longrightarrow>
     (if b then x else y) = GW_JOB_STATE_LIMIT \<or> s = gw_job_get_state_name (if b then x else y)"
    by simp
  show ?thesis
    unfolding gw_job_get_state_code_def unfolding Cons list.case unfolding Cons [symmetric]
    by (intro branch; (rule disjI1, rule refl)?; (simp only: state_name_table simp_thms)?)
qed

section \<open>Scheduler-visible groups of states\<close>

text \<open>The GRAM state is final exactly for the two states in which a waiting client is served.\<close>

lemma gram_final_iff:
  "gw_job_get_gram_state st \<in> {GLOBUS_GRAM_PROTOCOL_JOB_STATE_DONE,
       GLOBUS_GRAM_PROTOCOL_JOB_STATE_FAILED} \<longleftrightarrow>
     st \<in> {GW_JOB_STATE_ZOMBIE, GW_JOB_STATE_FAILED}"
  by (cases st) (simp_all add: gw_job_get_gram_state_def gw_job_state_mapping_def)

end
