(* ===== verification/GW_Sched_Msg.thy ===== *)
theory GW_Sched_Msg
  imports GW_Types
begin

text \<open>
  The messages the dispatch manager writes to the scheduler process
  (\<open>src/dm/gw_dm_mad.c\<close>), one constructor per \<open>gw_dm_mad_*\<close> function, and the fixed
  priorities of the scheduler configuration (\<open>src/gwd/gw_sch_conf.c\<close>) that the daemon
  itself consults when it registers a host. A message is kept as data: the pipe between the
  two processes carries its fields as text. The float arguments of \<open>JOB_SUCCESS\<close> are
  differences of times, so they are integers here.
\<close>

datatype sched_msg =
    SCHEDULE
  | HOST_MONITOR int int int string
  | USER_ADD int int int string
  | USER_DEL int
  | JOB_DEL int
  | JOB_FAILED int int gw_migration_reason
  | JOB_SUCCESS int int int int int
  | JOB_SCHEDULE int int int gw_migration_reason

section \<open>Configured priorities and shares\<close>

type_synonym conf_array = "(string \<times> int) list"

record gw_sch_prio =
  ufixed :: conf_array
  gfixed :: conf_array
  ufixed_default :: int
  hfixed :: conf_array
  ifixed :: conf_array
  rfixed_default :: int

text \<open>The loops over the configured arrays return the value of the first matching name.\<close>

fun conf_lookup :: "conf_array \<Rightarrow> string \<Rightarrow> int option" where
  "conf_lookup [] n = None"
| "conf_lookup ((m, v) # xs) n = (if n = m then Some v else conf_lookup xs n)"

definition gw_sch_get_user_priority :: "'a gw_sch_prio_scheme \<Rightarrow> string \<Rightarrow> string \<Rightarrow> int" where
  "gw_sch_get_user_priority c user grp =
     (case conf_lookup (ufixed c) user of
        Some v \<Rightarrow> v
      | None \<Rightarrow> (case conf_lookup (gfixed c) grp of
            Some v \<Rightarrow> v | None \<Rightarrow> ufixed_default c))"

definition gw_sch_get_host_priority :: "'a gw_sch_prio_scheme \<Rightarrow> string \<Rightarrow> string \<Rightarrow> int" where
  "gw_sch_get_host_priority c host im =
     (case conf_lookup (hfixed c) host of
        Some v \<Rightarrow> v
      | None \<Rightarrow> (case conf_lookup (ifixed c) im of
            Some v \<Rightarrow> v | None \<Rightarrow> rfixed_default c))"

lemma conf_lookup_map_of: "conf_lookup xs n = map_of xs n"
  by (induction xs n rule: conf_lookup.induct) auto

end
