(* ===== verification/GW_Host.thy ===== *)
theory GW_Host
  imports GW_Sched_Msg
begin

text \<open>
  Hosts (\<open>include/gw_host.h\<close>, \<open>src/host/gw_host.c\<close>) and the host pool
  (\<open>src/host/gw_host_pool.c\<close>). Every change of the counters \<open>used_slots\<close> and
  \<open>running_jobs\<close> is reported to the scheduler, so the counter operations return the host
  together with the message they write.
\<close>

definition GW_HOST_MAX_QUEUES :: nat where
  "GW_HOST_MAX_QUEUES = 67"

datatype gw_host_state =
    GW_HOST_STATE_INIT | GW_HOST_STATE_UNKNOWN | GW_HOST_STATE_DISCOVERED
  | GW_HOST_STATE_MONITORING | GW_HOST_STATE_MONITORED | GW_HOST_STATE_LIMIT

record gw_queue =
  queue_name :: "string option"
  queue_status :: "string option"
  queue_dispatchtype :: "string option"
  queue_priority :: "string option"
  queue_nodecount :: int
  queue_freenodecount :: int
  queue_maxtime :: int
  queue_maxcputime :: int
  queue_maxcount :: int
  queue_maxrunningjobs :: int
  queue_maxjobsinqueue :: int

text \<open>The tables of generic variables; an entry without a name is free.\<close>

definition GW_HOST_MAX_GENVARS :: nat where
  "GW_HOST_MAX_GENVARS = 134"

record gw_genvar_int =
  gi_name :: "string option"
  gi_value :: int

record gw_genvar_str =
  gs_name :: "string option"
  gs_value :: "string option"

record gw_host =
  host_em_mad :: string
  host_tm_mad :: string
  host_im_mad :: string
  used_slots :: int
  running_jobs :: int
  host_id :: int
  host_fixed_priority :: int
  hostname :: string
  arch :: "string option"
  os_name :: "string option"
  os_version :: "string option"
  cpu_model :: "string option"
  cpu_mhz :: int
  cpu_free :: int
  cpu_smp :: int
  nodecount :: int
  size_mem_mb :: int
  free_mem_mb :: int
  size_disk_mb :: int
  free_disk_mb :: int
  fork_name :: "string option"
  lrms_name :: "string option"
  lrms_type :: "string option"
  queues :: "gw_queue list"
  genvar_int :: "gw_genvar_int list"
  genvar_str :: "gw_genvar_str list"
  host_state :: gw_host_state
  last_monitoring_time :: int

definition empty_queue :: gw_queue where
  "empty_queue = \<lparr>queue_name = None, queue_status = None, queue_dispatchtype = None,
     queue_priority = None, queue_nodecount = 0, queue_freenodecount = 0, queue_maxtime = 0,
     queue_maxcputime = 0, queue_maxcount = 0, queue_maxrunningjobs = 0,
     queue_maxjobsinqueue = 0\<rparr>"

definition gw_host_init ::
  "string \<Rightarrow> int \<Rightarrow> int \<Rightarrow> string \<Rightarrow> string \<Rightarrow> string \<Rightarrow> gw_host" where
  "gw_host_init name hid prio em tm im =
     \<lparr>host_em_mad = em, host_tm_mad = tm, host_im_mad = im, used_slots = 0, running_jobs = 0,
      host_id = hid, host_fixed_priority = prio, hostname = name, arch = None, os_name = None,
      os_version = None, cpu_model = None, cpu_mhz = 0, cpu_free = 0, cpu_smp = 0,
      nodecount = 0, size_mem_mb = 0, free_mem_mb = 0, size_disk_mb = 0, free_disk_mb = 0,
      fork_name = None, lrms_name = None, lrms_type = None,
      queues = replicate GW_HOST_MAX_QUEUES empty_queue,
      genvar_int = replicate GW_HOST_MAX_GENVARS \<lparr>gi_name = None, gi_value = 0\<rparr>,
      genvar_str = replicate GW_HOST_MAX_GENVARS \<lparr>gs_name = None, gs_value = None\<rparr>,
      host_state = GW_HOST_STATE_DISCOVERED, last_monitoring_time = 0\<rparr>"

section \<open>The counters\<close>

definition host_monitor_msg :: "gw_host \<Rightarrow> sched_msg" where
  "host_monitor_msg h = HOST_MONITOR (host_id h) (used_slots h) (running_jobs h) (hostname h)"

definition gw_host_dec_rjobs :: "gw_host \<Rightarrow> gw_host \<times> sched_msg" where
  "gw_host_dec_rjobs h =
     (let h' = h\<lparr>running_jobs := running_jobs h - 1\<rparr> in (h', host_monitor_msg h'))"

definition gw_host_dec_uslots :: "int \<Rightarrow> gw_host \<Rightarrow> gw_host \<times> sched_msg" where
  "gw_host_dec_uslots n h =
     (let h' = h\<lparr>used_slots := used_slots h - n\<rparr> in (h', host_monitor_msg h'))"

definition gw_host_dec_slots :: "int \<Rightarrow> gw_host \<Rightarrow> gw_host \<times> sched_msg" where
  "gw_host_dec_slots n h =
     (let h' = h\<lparr>used_slots := used_slots h - n, running_jobs := running_jobs h - 1\<rparr>
      in (h', host_monitor_msg h'))"

definition gw_host_inc_rjobs :: "gw_host \<Rightarrow> gw_host \<times> sched_msg" where
  "gw_host_inc_rjobs h =
     (let h' = h\<lparr>running_jobs := running_jobs h + 1\<rparr> in (h', host_monitor_msg h'))"

definition gw_host_inc_uslots :: "int \<Rightarrow> gw_host \<Rightarrow> gw_host \<times> sched_msg" where
  "gw_host_inc_uslots n h =
     (let h' = h\<lparr>used_slots := used_slots h + n\<rparr> in (h', host_monitor_msg h'))"

definition gw_host_inc_slots :: "int \<Rightarrow> gw_host \<Rightarrow> gw_host \<times> sched_msg" where
  "gw_host_inc_slots n h =
     (let h' = h\<lparr>used_slots := used_slots h + n, running_jobs := running_jobs h + 1\<rparr>
      in (h', host_monitor_msg h'))"

text \<open>The variants without locking are the same updates.\<close>

definition gw_host_inc_slots_nb :: "int \<Rightarrow> gw_host \<Rightarrow> gw_host \<times> sched_msg" where
  "gw_host_inc_slots_nb n h =
     (let h' = h\<lparr>used_slots := used_slots h + n, running_jobs := running_jobs h + 1\<rparr>
      in (h', host_monitor_msg h'))"

definition gw_host_inc_rjobs_nb :: "gw_host \<Rightarrow> gw_host \<times> sched_msg" where
  "gw_host_inc_rjobs_nb h =
     (let h' = h\<lparr>running_jobs := running_jobs h + 1\<rparr> in (h', host_monitor_msg h'))"

lemmas host_counter_defs [gw_defs] =
  gw_host_dec_rjobs_def gw_host_dec_uslots_def gw_host_dec_slots_def gw_host_inc_rjobs_def
  gw_host_inc_uslots_def gw_host_inc_slots_def gw_host_inc_slots_nb_def
  gw_host_inc_rjobs_nb_def host_monitor_msg_def Let_def

definition gw_host_clear_dynamic_info :: "gw_host \<Rightarrow> gw_host \<times> sched_msg" where
  "gw_host_clear_dynamic_info h =
     (let h' = h\<lparr>cpu_free := 0, nodecount := 0, free_mem_mb := 0, size_mem_mb := 0,
                free_disk_mb := 0, size_disk_mb := 0,
                queues := map (\<lambda>q. q\<lparr>queue_status := None, queue_freenodecount := 0\<rparr>) (queues h),
                host_state := GW_HOST_STATE_UNKNOWN, last_monitoring_time := 0\<rparr>
      in (h', host_monitor_msg h'))"

section \<open>The pool\<close>

record host_pool =
  hosts :: "gw_host slots"
  number_of_hosts :: int
  last_host_id :: int

definition gw_host_pool_init :: "nat \<Rightarrow> host_pool" where
  "gw_host_pool_init n = \<lparr>hosts = replicate n None, number_of_hosts = 0, last_host_id = -1\<rparr>"

definition gw_host_pool_host_allocate ::
  "string \<Rightarrow> int \<Rightarrow> string \<Rightarrow> string \<Rightarrow> string \<Rightarrow> host_pool \<Rightarrow> (host_pool \<times> int) option" where
  "gw_host_pool_host_allocate name prio em tm im hp = do {
     found \<leftarrow> find_slot (last_host_id hp) (hosts hp);
     (case found of
        None \<Rightarrow> Some (hp, -1)
      | Some i \<Rightarrow>
          Some (hp\<lparr>hosts := (hosts hp)[i := Some (gw_host_init name (int i) prio em tm im)],
                   last_host_id := int i,
                   number_of_hosts := number_of_hosts hp + 1\<rparr>, int i))
   }"

definition gw_host_pool_host_free :: "int \<Rightarrow> host_pool \<Rightarrow> host_pool" where
  "gw_host_pool_host_free i hp =
     (if slot_get (hosts hp) i \<noteq> None
      then hp\<lparr>number_of_hosts := number_of_hosts hp - 1, hosts := slot_put (hosts hp) i None\<rparr>
      else hp)"

definition gw_host_pool_get_host :: "host_pool \<Rightarrow> int \<Rightarrow> gw_host option" where
  "gw_host_pool_get_host hp i = slot_get (hosts hp) i"

text \<open>The search returns the entry with the least index that holds the name.\<close>

fun search_host :: "gw_host slots \<Rightarrow> string \<Rightarrow> nat \<Rightarrow> int option" where
  "search_host [] n i = None"
| "search_host (Some h # hs) n i =
     (if hostname h = n then Some (int i) else search_host hs n (Suc i))"
| "search_host (None # hs) n i = search_host hs n (Suc i)"

definition gw_host_pool_search :: "host_pool \<Rightarrow> string \<Rightarrow> int option" where
  "gw_host_pool_search hp n = search_host (hosts hp) n 0"

text \<open>
  The list of host names a discovery returns, split at the blanks as \<open>strtok_r\<close> does (no
  empty token).
\<close>

fun split_blanks :: "string \<Rightarrow> string \<Rightarrow> string list" where
  "split_blanks [] acc = (if acc = [] then [] else [rev acc])"
| "split_blanks (c # cs) acc =
     (if c = CHR '' '' then (if acc = [] then [] else [rev acc]) @ split_blanks cs []
      else split_blanks cs (c # acc))"

definition host_pool_update_one ::
  "gw_sch_prio \<Rightarrow> string \<Rightarrow> string \<Rightarrow> string \<Rightarrow> string \<Rightarrow> host_pool \<Rightarrow> host_pool option" where
  "host_pool_update_one conf em tm im name hp =
     (case gw_host_pool_search hp name of
        None \<Rightarrow> do {
          (hp', hid) \<leftarrow> gw_host_pool_host_allocate name
                          (gw_sch_get_host_priority conf name im) em tm im hp;
          (case gw_host_pool_get_host hp' hid of
             None \<Rightarrow> Some hp'
           | Some h \<Rightarrow> Some (hp'\<lparr>hosts := slot_put (hosts hp') hid
                                       (Some (h\<lparr>last_monitoring_time := 0\<rparr>))\<rparr>))
        }
      | Some hid \<Rightarrow>
          (case gw_host_pool_get_host hp hid of
             None \<Rightarrow> None
           | Some h \<Rightarrow>
               (if host_state h = GW_HOST_STATE_UNKNOWN
                then Some (hp\<lparr>hosts := slot_put (hosts hp) hid
                                (Some (h\<lparr>host_state := GW_HOST_STATE_DISCOVERED\<rparr>))\<rparr>)
                else Some hp)))"

fun host_pool_update_list ::
  "gw_sch_prio \<Rightarrow> string \<Rightarrow> string \<Rightarrow> string \<Rightarrow> string list \<Rightarrow> host_pool \<Rightarrow> host_pool option" where
  "host_pool_update_list conf em tm im [] hp = Some hp"
| "host_pool_update_list conf em tm im (n # ns) hp =
     do { hp' \<leftarrow> host_pool_update_one conf em tm im n hp;
          host_pool_update_list conf em tm im ns hp' }"

definition gw_host_pool_update ::
  "gw_sch_prio \<Rightarrow> string \<Rightarrow> string \<Rightarrow> string \<Rightarrow> string \<Rightarrow> host_pool \<Rightarrow> host_pool option" where
  "gw_host_pool_update conf hostnames em tm im hp =
     host_pool_update_list conf em tm im (split_blanks hostnames []) hp"

definition gw_host_pool_dm_recover :: "host_pool \<Rightarrow> sched_msg list" where
  "gw_host_pool_dm_recover hp = map host_monitor_msg (List.map_filter id (hosts hp))"

section \<open>The host pool implements the pool interface\<close>

definition host_alloc ::
  "string \<Rightarrow> int \<Rightarrow> string \<Rightarrow> string \<Rightarrow> string \<Rightarrow> host_pool \<Rightarrow> (int \<times> host_pool) option" where
  "host_alloc name prio em tm im hp =
     (case gw_host_pool_host_allocate name prio em tm im hp of
        None \<Rightarrow> None
      | Some (hp', i) \<Rightarrow> (if i = -1 then None else Some (i, hp')))"

lemma host_allocate_cases:
  assumes "hosts hp \<noteq> []"
  shows "(None \<notin> set (hosts hp) \<and> gw_host_pool_host_allocate n pr em tm im hp = Some (hp, -1)) \<or>
    (\<exists>i. i < length (hosts hp) \<and> hosts hp ! i = None \<and>
       gw_host_pool_host_allocate n pr em tm im hp =
         Some (hp\<lparr>hosts := (hosts hp)[i := Some (gw_host_init n (int i) pr em tm im)],
                  last_host_id := int i, number_of_hosts := number_of_hosts hp + 1\<rparr>, int i))"
proof (cases "find_slot (last_host_id hp) (hosts hp)")
  case None
  with assms show ?thesis by (simp add: find_slot_def)
next
  case (Some r)
  show ?thesis
  proof (cases r)
    case None
    with Some assms find_slot_full [of "hosts hp" "last_host_id hp"]
    show ?thesis by (simp add: gw_host_pool_host_allocate_def)
  next
    case (Some i)
    with \<open>find_slot (last_host_id hp) (hosts hp) = Some r\<close>
      find_slot_Some [of "last_host_id hp" "hosts hp" i]
    show ?thesis by (simp add: gw_host_pool_host_allocate_def)
  qed
qed

lemma host_allocate_empty: "hosts hp = [] \<Longrightarrow> gw_host_pool_host_allocate n pr em tm im hp = None"
  by (simp add: gw_host_pool_host_allocate_def find_slot_def)

interpretation hostp: slot_pool hosts number_of_hosts "host_alloc n pr em tm im"
    gw_host_pool_host_free "\<lambda>i. gw_host_init n i pr em tm im" for n pr em tm im
proof (unfold_locales, goal_cases)
  case (1 p i p')
  then have "hosts p \<noteq> []" by (auto simp: host_alloc_def host_allocate_empty)
  from host_allocate_cases [OF this, of n pr em tm im] 1
  show ?case by (auto simp: host_alloc_def)
next
  case (2 p)
  from host_allocate_cases [OF 2, of n pr em tm im] show ?case
    by (force simp: host_alloc_def set_conv_nth)
next
  case (3 i p)
  show ?case by (simp add: gw_host_pool_host_free_def slot_put_def)
next
  case (4 i p)
  show ?case by (simp add: gw_host_pool_host_free_def)
qed

end
