(* ===== verification/GW_User.thy ===== *)
theory GW_User
  imports GW_Sched_Msg
begin

text \<open>
  Users (\<open>src/um/gw_user.c\<close>) and the user pool (\<open>src/um/gw_user_pool.c\<close>), with the
  periodic check of the user manager (\<open>src/um/gw_um.c\<close>). Starting a middleware access
  driver (MAD) is a process creation: whether the driver with a given name starts is the
  function \<open>em_starts\<close> or \<open>tm_starts\<close> of the environment, and the distinguished name that the
  proxy command prints is \<open>proxy_dn\<close>. The two pipes that wake up the listeners are a count
  of the bytes written.
\<close>

definition GW_MAX_MADS :: nat where
  "GW_MAX_MADS = 5"

definition GW_MAX_IDLE_TIME :: int where
  "GW_MAX_IDLE_TIME = 360"

record gw_user =
  user_name :: string
  proxy_path :: string
  user_dn :: string
  user_active_jobs :: int
  user_running_jobs :: int
  user_idle :: int
  em_mads :: "string list"
  tm_mads :: "string list"

record user_env =
  conf_em_mads :: "string list"
  conf_tm_mads :: "string list"
  em_starts :: "string \<Rightarrow> bool"
  tm_starts :: "string \<Rightarrow> bool"
  proxy_dn :: string

section \<open>Registering the drivers of a user\<close>

definition gw_em_register_mad :: "user_env \<Rightarrow> string \<Rightarrow> gw_user \<Rightarrow> gw_user \<times> int" where
  "gw_em_register_mad e name u =
     (if length (em_mads u) = GW_MAX_MADS then (u, -1)
      else if name \<in> set (em_mads u) then (u, 0)
      else if em_starts e name then (u\<lparr>em_mads := em_mads u @ [name]\<rparr>, 0) else (u, -1))"

definition gw_tm_register_mad :: "user_env \<Rightarrow> string \<Rightarrow> gw_user \<Rightarrow> gw_user \<times> int" where
  "gw_tm_register_mad e name u =
     (if length (tm_mads u) = GW_MAX_MADS then (u, -1)
      else if name \<in> set (tm_mads u) then (u, 0)
      else if tm_starts e name then (u\<lparr>tm_mads := tm_mads u @ [name]\<rparr>, 0) else (u, -1))"

fun register_all ::
  "(string \<Rightarrow> gw_user \<Rightarrow> gw_user \<times> int) \<Rightarrow> string list \<Rightarrow> gw_user \<Rightarrow> gw_user \<times> int" where
  "register_all reg [] u = (u, 0)"
| "register_all reg (n # ns) u =
     (case reg n u of (u', rc) \<Rightarrow> if rc \<noteq> 0 then (u', -1) else register_all reg ns u')"

text \<open>
  The loops read at most \<open>GW_MAX_MADS\<close> configured drivers. On a failure the drivers already
  started are shut down and the user is discarded by the caller.
\<close>

definition gw_user_init :: "user_env \<Rightarrow> string \<Rightarrow> string \<Rightarrow> gw_user \<times> int" where
  "gw_user_init e name proxy =
     (let u0 = \<lparr>user_name = name, proxy_path = proxy, user_dn = proxy_dn e,
                user_active_jobs = 0, user_running_jobs = 0, user_idle = 0,
                em_mads = [], tm_mads = []\<rparr>
      in case register_all (gw_em_register_mad e) (take GW_MAX_MADS (conf_em_mads e)) u0 of
           (u1, rc1) \<Rightarrow>
             if rc1 \<noteq> 0 then (u1, -1)
             else case register_all (gw_tm_register_mad e) (take GW_MAX_MADS (conf_tm_mads e)) u1 of
                    (u2, rc2) \<Rightarrow> if rc2 \<noteq> 0 then (u2, -1) else (u2, 0))"

definition gw_em_get_mad :: "gw_user option \<Rightarrow> string \<Rightarrow> string option" where
  "gw_em_get_mad u name =
     (case u of None \<Rightarrow> None
      | Some u \<Rightarrow> if name \<in> set (em_mads u) then Some name else None)"

definition gw_tm_get_mad :: "gw_user option \<Rightarrow> string \<Rightarrow> string option" where
  "gw_tm_get_mad u name =
     (case u of None \<Rightarrow> None
      | Some u \<Rightarrow> if name \<in> set (tm_mads u) then Some name else None)"

section \<open>The pool\<close>

record user_pool =
  users :: "gw_user slots"
  number_of_users :: int
  em_pipe_bytes :: "char list"
  tm_pipe_bytes :: "char list"

definition gw_user_pool_init :: "nat \<Rightarrow> user_pool" where
  "gw_user_pool_init n =
     \<lparr>users = replicate n None, number_of_users = 0, em_pipe_bytes = [], tm_pipe_bytes = []\<rparr>"

definition user_add_msg :: "int \<Rightarrow> gw_user \<Rightarrow> sched_msg" where
  "user_add_msg i u = USER_ADD i (user_active_jobs u) (user_running_jobs u) (user_name u)"

text \<open>
  The search for a free entry runs to the end of the array when there is none; the code then
  stores the new user one entry past the end. That is the outer \<open>None\<close>. The counter
  \<open>number_of_users\<close> that the first test reads is never incremented here.
\<close>

fun first_free :: "'a slots \<Rightarrow> nat" where
  "first_free [] = 0"
| "first_free (None # xs) = 0"
| "first_free (Some x # xs) = Suc (first_free xs)"

definition gw_user_pool_user_allocate ::
  "user_env \<Rightarrow> string \<Rightarrow> string \<Rightarrow> user_pool \<Rightarrow> (user_pool \<times> sched_msg list \<times> int \<times> int) option"
where
  "gw_user_pool_user_allocate e name proxy up =
     (if number_of_users up = int (length (users up)) then Some (up, [], -1, -1)
      else let i = first_free (users up) in
        if i \<ge> length (users up) then None
        else case gw_user_init e name proxy of
          (u, rc) \<Rightarrow>
            if rc = 0 then
              (let u' = u\<lparr>user_active_jobs := 1\<rparr> in
               Some (up\<lparr>users := (users up)[i := Some u'],
                        em_pipe_bytes := em_pipe_bytes up @ [CHR ''A''],
                        tm_pipe_bytes := tm_pipe_bytes up @ [CHR ''A'']\<rparr>,
                     [user_add_msg (int i) u'], 0, int i))
            else Some (up\<lparr>users := (users up)[i := None]\<rparr>, [], rc, -1))"

definition gw_user_pool_user_free :: "int \<Rightarrow> user_pool \<Rightarrow> user_pool" where
  "gw_user_pool_user_free i up =
     (if slot_get (users up) i \<noteq> None
      then up\<lparr>users := slot_put (users up) i None,
              number_of_users := number_of_users up - 1,
              em_pipe_bytes := em_pipe_bytes up @ [CHR ''R''],
              tm_pipe_bytes := tm_pipe_bytes up @ [CHR ''R'']\<rparr>
      else up)"

definition gw_user_pool_get_em_mad :: "user_pool \<Rightarrow> int \<Rightarrow> string \<Rightarrow> string option" where
  "gw_user_pool_get_em_mad up i name = gw_em_get_mad (slot_get (users up) i) name"

definition gw_user_pool_get_tm_mad :: "user_pool \<Rightarrow> int \<Rightarrow> string \<Rightarrow> string option" where
  "gw_user_pool_get_tm_mad up i name = gw_tm_get_mad (slot_get (users up) i) name"

fun find_user :: "gw_user slots \<Rightarrow> string \<Rightarrow> string \<Rightarrow> nat \<Rightarrow> int option" where
  "find_user [] n p i = None"
| "find_user (Some u # us) n p i =
     (if user_name u = n \<and> proxy_path u = p then Some (int i) else find_user us n p (Suc i))"
| "find_user (None # us) n p i = find_user us n p (Suc i)"

definition gw_user_pool_exists :: "user_pool \<Rightarrow> string \<Rightarrow> string \<Rightarrow> bool \<times> int" where
  "gw_user_pool_exists up n p =
     (case find_user (users up) n p 0 of None \<Rightarrow> (False, -1) | Some i \<Rightarrow> (True, i))"

text \<open>The four counter updates: an identifier without a user is ignored.\<close>

definition user_update ::
  "int \<Rightarrow> (gw_user \<Rightarrow> gw_user) \<Rightarrow> user_pool \<Rightarrow> user_pool \<times> sched_msg list" where
  "user_update i f up =
     (case slot_get (users up) i of
        None \<Rightarrow> (up, [])
      | Some u \<Rightarrow> (up\<lparr>users := slot_put (users up) i (Some (f u))\<rparr>, [user_add_msg i (f u)]))"

definition gw_user_pool_inc_jobs :: "int \<Rightarrow> int \<Rightarrow> user_pool \<Rightarrow> user_pool \<times> sched_msg list" where
  "gw_user_pool_inc_jobs i n =
     user_update i (\<lambda>u. u\<lparr>user_idle := 0, user_active_jobs := user_active_jobs u + n\<rparr>)"

definition gw_user_pool_dec_jobs :: "int \<Rightarrow> user_pool \<Rightarrow> user_pool \<times> sched_msg list" where
  "gw_user_pool_dec_jobs i =
     user_update i (\<lambda>u. u\<lparr>user_idle := 0, user_active_jobs := user_active_jobs u - 1\<rparr>)"

definition gw_user_pool_inc_running_jobs ::
  "int \<Rightarrow> int \<Rightarrow> user_pool \<Rightarrow> user_pool \<times> sched_msg list" where
  "gw_user_pool_inc_running_jobs i n =
     user_update i (\<lambda>u. u\<lparr>user_running_jobs := user_running_jobs u + n\<rparr>)"

definition gw_user_pool_dec_running_jobs :: "int \<Rightarrow> user_pool \<Rightarrow> user_pool \<times> sched_msg list" where
  "gw_user_pool_dec_running_jobs i =
     user_update i (\<lambda>u. u\<lparr>user_running_jobs := user_running_jobs u - 1\<rparr>)"

text \<open>
  The periodic check of the user manager: a user without jobs ages by the period, and one
  that has been idle for \<open>GW_MAX_IDLE_TIME\<close> is removed.
\<close>

definition check_user :: "int \<Rightarrow> gw_user \<Rightarrow> gw_user option" where
  "check_user period u =
     (if user_active_jobs u = 0
      then let u' = u\<lparr>user_idle := user_idle u + period\<rparr> in
           if user_idle u' \<ge> GW_MAX_IDLE_TIME then None else Some u'
      else Some u)"

fun check_users :: "int \<Rightarrow> gw_user slots \<Rightarrow> nat \<Rightarrow> gw_user slots \<times> nat list" where
  "check_users period [] i = ([], [])"
| "check_users period (None # us) i =
     (case check_users period us (Suc i) of (us', del) \<Rightarrow> (None # us', del))"
| "check_users period (Some u # us) i =
     (case check_users period us (Suc i) of (us', del) \<Rightarrow>
        (case check_user period u of
           None \<Rightarrow> (None # us', i # del) | Some u' \<Rightarrow> (Some u' # us', del)))"

definition gw_user_pool_check_users :: "int \<Rightarrow> user_pool \<Rightarrow> user_pool \<times> sched_msg list" where
  "gw_user_pool_check_users period up =
     (case check_users period (users up) 0 of (us', del) \<Rightarrow>
        (up\<lparr>users := us', number_of_users := number_of_users up - int (length del)\<rparr>,
         map (\<lambda>i. USER_DEL (int i)) del))"

definition gw_um_timer :: "user_pool \<Rightarrow> user_pool \<times> sched_msg list" where
  "gw_um_timer up = gw_user_pool_check_users 180 up"

fun dm_recover_users :: "gw_user slots \<Rightarrow> nat \<Rightarrow> sched_msg list" where
  "dm_recover_users [] i = []"
| "dm_recover_users (None # us) i = dm_recover_users us (Suc i)"
| "dm_recover_users (Some u # us) i = user_add_msg (int i) u # dm_recover_users us (Suc i)"

definition gw_user_pool_dm_recover :: "user_pool \<Rightarrow> sched_msg list" where
  "gw_user_pool_dm_recover up = dm_recover_users (users up) 0"

section \<open>Properties\<close>

lemma first_free_eq: "first_free p = length p \<longleftrightarrow> None \<notin> set p"
  by (induction p rule: first_free.induct) auto

lemma first_free_le: "first_free p \<le> length p"
  by (induction p rule: first_free.induct) auto

text \<open>
  The pool never notices that it is full. The test at the start of the allocation compares
  a counter that only the release functions move, so in a pool that was filled by
  allocations alone the search for a free entry fails and the new user is stored past the end
  of the array.
\<close>

lemma user_allocate_full_undefined:
  assumes "None \<notin> set (users up)" and "number_of_users up \<noteq> int (length (users up))"
  shows "gw_user_pool_user_allocate e name proxy up = None"
  using assms by (simp add: gw_user_pool_user_allocate_def Let_def first_free_eq [THEN iffD2])

lemma find_user_update:
  "p ! k = None \<Longrightarrow> k < length p \<Longrightarrow> find_user p n q i = None \<Longrightarrow>
     user_name u = n \<Longrightarrow> proxy_path u = q \<Longrightarrow> find_user (p[k := Some u]) n q i = Some (int (i + k))"
proof (induction p arbitrary: k i)
  case Nil
  then show ?case by simp
next
  case (Cons a p)
  show ?case
  proof (cases k)
    case 0
    with Cons.prems show ?thesis by simp
  next
    case (Suc k')
    then have "find_user (p[k' := Some u]) n q (Suc i) = Some (int (Suc i + k'))"
      using Cons.prems by (intro Cons.IH) (cases a; auto split: if_splits)+
    with Suc Cons.prems show ?thesis by (cases a) (auto split: if_splits)
  qed
qed

lemma register_all_keeps:
  assumes "\<And>n u. sel (fst (reg n u)) = sel u"
  shows "sel (fst (register_all reg ns u)) = sel u"
proof (induction ns arbitrary: u)
  case Nil
  then show ?case by simp
next
  case (Cons n ns)
  then show ?case using assms [of n u] by (auto split: prod.splits)
qed

lemma user_init_name:
  "user_name (fst (gw_user_init e n p)) = n \<and> proxy_path (fst (gw_user_init e n p)) = p"
proof -
  have em: "\<And>ns u. user_name (fst (register_all (gw_em_register_mad e) ns u)) = user_name u"
    "\<And>ns u. proxy_path (fst (register_all (gw_em_register_mad e) ns u)) = proxy_path u"
    by (rule register_all_keeps; simp add: gw_em_register_mad_def)+
  have tm: "\<And>ns u. user_name (fst (register_all (gw_tm_register_mad e) ns u)) = user_name u"
    "\<And>ns u. proxy_path (fst (register_all (gw_tm_register_mad e) ns u)) = proxy_path u"
    by (rule register_all_keeps; simp add: gw_tm_register_mad_def)+
  show ?thesis
    unfolding gw_user_init_def Let_def
    by (auto split: prod.splits) (metis em tm fst_conv gw_user.select_convs(1,2))+
qed

lemma first_free_None: "first_free p < length p \<Longrightarrow> p ! first_free p = None"
  by (induction p rule: first_free.induct) auto

text \<open>
  After a successful allocation the user is registered, and it is found again under the
  same name and proxy (the lowest entry that has them).
\<close>

lemma user_allocate_exists:
  assumes "gw_user_pool_user_allocate e n p up = Some (up', msgs, 0, i)"
    and "gw_user_pool_exists up n p = (False, -1)"
  shows "gw_user_pool_exists up' n p = (True, i)"
proof -
  obtain u where u: "gw_user_init e n p = (u, 0)"
    and up': "users up' = (users up)[first_free (users up) := Some (u\<lparr>user_active_jobs := 1\<rparr>)]"
    and i: "i = int (first_free (users up))" and lt: "first_free (users up) < length (users up)"
    using assms(1)
    by (auto simp: gw_user_pool_user_allocate_def Let_def split: if_splits prod.splits)
  have "find_user (users up) n p 0 = None"
    using assms(2) by (auto simp: gw_user_pool_exists_def split: option.splits)
  then have "find_user (users up') n p 0 = Some (int (0 + first_free (users up)))"
    unfolding up' using user_init_name [of e n p] lt u
    by (intro find_user_update) (auto simp: first_free_None)
  then show ?thesis by (simp add: gw_user_pool_exists_def i)
qed

end
