(* ===== verification/GW_History.thy ===== *)
theory GW_History
  imports GW_Template GW_Host GW_User
begin

text \<open>
  The transfer lists of \<open>src/job/gw_xfr_files.c\<close> and the history of a job in
  \<open>src/job/gw_history.c\<close>. The history is a linked list whose head is the most recent execution
  host; here it is a list, and \<open>history->next\<close> is its second element. A record points to a host
  of the host pool, which is the index of that host here, and to the drivers of the user,
  which are their names. A store outside the array of transfers is undefined behaviour, the
  result \<open>None\<close>.
\<close>

section \<open>Transfers\<close>

record gw_xfr =
  xfr_tries :: int
  src_url :: "string option"
  dst_url :: "string option"
  alt_src_url :: "string option"
  xfr_mode :: "char option"
  xfr_done :: bool
  xfr_success :: bool
  xfr_counter :: int

record gw_xfrs =
  failure_limit :: int
  xfr_list :: "gw_xfr list"

text \<open>\<open>gw_xfr_init\<close> leaves the mode uninitialised, which is \<open>None\<close>.\<close>

definition xfr_blank :: "int \<Rightarrow> gw_xfr" where
  "xfr_blank t = \<lparr>xfr_tries = t, src_url = None, dst_url = None, alt_src_url = None,
     xfr_mode = None, xfr_done = False, xfr_success = False, xfr_counter = -1\<rparr>"

definition gw_xfr_init :: "nat \<Rightarrow> int \<Rightarrow> gw_xfrs" where
  "gw_xfr_init n t = \<lparr>failure_limit = 0, xfr_list = replicate n (xfr_blank t)\<rparr>"

definition gw_xfr_destroy :: "gw_xfrs \<Rightarrow> gw_xfrs" where
  "gw_xfr_destroy x = \<lparr>failure_limit = 0, xfr_list = []\<rparr>"

definition gw_xfr_pending :: "gw_xfrs \<Rightarrow> nat" where
  "gw_xfr_pending x =
     length (filter (\<lambda>f. src_url f \<noteq> None \<and> \<not> xfr_done f) (xfr_list x))"

definition xfr_write :: "nat \<Rightarrow> (gw_xfr \<Rightarrow> gw_xfr) \<Rightarrow> gw_xfrs \<Rightarrow> gw_xfrs option" where
  "xfr_write i f x =
     (if i < length (xfr_list x)
      then Some (x\<lparr>xfr_list := (xfr_list x)[i := f (xfr_list x ! i)]\<rparr>) else None)"

section \<open>History records\<close>

record gw_history =
  h_host :: "int option"
  h_rank :: int
  stats :: "gw_stat \<Rightarrow> int"
  h_tm_mad :: string
  rdir :: string
  h_em_mad :: string
  em_rc :: string
  em_fork_rc :: string
  h_queue :: "string option"
  h_tries :: int
  failed_polls :: int
  cancel_tries :: int
  h_counter :: int
  reason :: gw_migration_reason

definition gw_job_history_init :: "gw_history list" where
  "gw_job_history_init = []"

text \<open>
  The parameters of \<open>gw_job_history_add\<close> that come from outside the modelled state: the generic
  variable \<open>SE_HOSTNAME\<close> of a host, and whether the history file can be opened.
\<close>

record hist_env =
  se_hostname :: "gw_host \<Rightarrow> string option"
  history_file_opens :: bool

definition history_rdir :: "hist_env \<Rightarrow> gw_host \<Rightarrow> string option \<Rightarrow> int \<Rightarrow> string" where
  "history_rdir e h owner jid =
     ''gsiftp://'' @
     (case se_hostname e h of None \<Rightarrow> hostname h | Some s \<Rightarrow> (if s = [] then hostname h else s)) @
     ''/~/.gw_'' @ cstr owner @ ''_'' @ dec jid @ ''/''"

definition history_record ::
  "hist_env \<Rightarrow> int \<Rightarrow> gw_host \<Rightarrow> int \<Rightarrow> string option \<Rightarrow> string option \<Rightarrow> int \<Rightarrow>
   string \<Rightarrow> string \<Rightarrow> gw_history" where
  "history_record e hid h rank queue owner jid tm em =
     \<lparr>h_host = Some hid, h_rank = rank, stats = (\<lambda>_. 0), h_tm_mad = tm,
      rdir = history_rdir e h owner jid, h_em_mad = em,
      em_rc = (case lrms_name h of None \<Rightarrow> hostname h | Some l \<Rightarrow> hostname h @ ''/'' @ l),
      em_fork_rc = (case fork_name h of None \<Rightarrow> hostname h | Some f \<Rightarrow> hostname h @ ''/'' @ f),
      h_queue = queue, h_tries = 0, failed_polls = 0, cancel_tries = 0, h_counter = -1,
      reason = GW_REASON_NONE\<rparr>"

text \<open>
  A driver that the user does not have makes the addition fail before the history changes.
  When the history file cannot be opened the function fails too, but the record is already in
  the list.
\<close>

definition gw_job_history_add ::
  "hist_env \<Rightarrow> user_pool \<Rightarrow> gw_history list \<Rightarrow> int \<Rightarrow> gw_host \<Rightarrow> int \<Rightarrow> string option \<Rightarrow>
   string option \<Rightarrow> int \<Rightarrow> int \<Rightarrow> bool \<Rightarrow> gw_history list \<times> int" where
  "gw_job_history_add e up hist hid h rank queue owner jid uid recover =
     (case gw_user_pool_get_tm_mad up uid (host_tm_mad h) of
        None \<Rightarrow> (hist, -1)
      | Some tm \<Rightarrow>
          (case gw_user_pool_get_em_mad up uid (host_em_mad h) of
             None \<Rightarrow> (hist, -1)
           | Some em \<Rightarrow>
               (history_record e hid h rank queue owner jid tm em # hist,
                if \<not> recover \<and> \<not> history_file_opens e then -1 else 0)))"

definition gw_job_history_number_of_records :: "gw_history list \<Rightarrow> nat" where
  "gw_job_history_number_of_records hist = length hist"

fun gw_job_history_is_in_records :: "host_pool \<Rightarrow> gw_history list \<Rightarrow> string \<Rightarrow> bool option" where
  "gw_job_history_is_in_records hp [] n = Some False"
| "gw_job_history_is_in_records hp (r # rs) n =
     (case h_host r of
        None \<Rightarrow> gw_job_history_is_in_records hp rs n
      | Some hid \<Rightarrow>
          (case slot_get (hosts hp) hid of
             None \<Rightarrow> None
           | Some h \<Rightarrow> (if hostname h = n then Some True
                        else gw_job_history_is_in_records hp rs n)))"

section \<open>Times\<close>

text \<open>The five functions differ in the two statistics they read.\<close>

definition elapsed :: "gw_stat \<Rightarrow> gw_stat \<Rightarrow> int \<Rightarrow> gw_history list \<Rightarrow> int" where
  "elapsed start exit now hist =
     (case hist of
        [] \<Rightarrow> -1
      | h # _ \<Rightarrow> (if stats h start \<noteq> 0 \<and> stats h exit = 0 then now - stats h start
                  else stats h exit - stats h start))"

definition gw_job_history_get_prolog_time :: "int \<Rightarrow> gw_history list \<Rightarrow> int" where
  "gw_job_history_get_prolog_time = elapsed PROLOG_START_TIME PROLOG_EXIT_TIME"

definition gw_job_history_get_wrapper_time :: "int \<Rightarrow> gw_history list \<Rightarrow> int" where
  "gw_job_history_get_wrapper_time = elapsed WRAPPER_START_TIME WRAPPER_EXIT_TIME"

definition gw_job_history_get_pre_wrapper_time :: "int \<Rightarrow> gw_history list \<Rightarrow> int" where
  "gw_job_history_get_pre_wrapper_time = elapsed PRE_WRAPPER_START_TIME PRE_WRAPPER_EXIT_TIME"

definition gw_job_history_get_epilog_time :: "int \<Rightarrow> gw_history list \<Rightarrow> int" where
  "gw_job_history_get_epilog_time = elapsed EPILOG_START_TIME EPILOG_EXIT_TIME"

definition gw_job_history_get_migration_time :: "int \<Rightarrow> gw_history list \<Rightarrow> int" where
  "gw_job_history_get_migration_time = elapsed MIGRATION_START_TIME MIGRATION_EXIT_TIME"

section \<open>Lemmas\<close>

lemma gw_xfr_init_pending [simp]: "gw_xfr_pending (gw_xfr_init n t) = 0"
  by (simp add: gw_xfr_pending_def gw_xfr_init_def xfr_blank_def)

lemma xfr_write_length: "xfr_write i f x = Some x' \<Longrightarrow> length (xfr_list x') = length (xfr_list x)"
  by (auto simp: xfr_write_def split: if_splits)

lemma xfr_write_limit: "xfr_write i f x = Some x' \<Longrightarrow> failure_limit x' = failure_limit x"
  by (auto simp: xfr_write_def split: if_splits)

lemma history_add_cases:
  assumes "gw_job_history_add e up hist hid h rank queue owner jid uid recover = (hist', rc)"
  shows "(hist' = hist \<and> rc = -1) \<or>
     (\<exists>tm em. hist' = history_record e hid h rank queue owner jid tm em # hist \<and> (rc = 0 \<or> rc = -1))"
  using assms by (auto simp: gw_job_history_add_def split: option.splits if_splits)

text \<open>
  The addition of a history record succeeds exactly when the user has both drivers of the
  host and the history file can be written; it then puts one fresh record with that host in
  front of the unchanged history. A missing driver leaves the history as it was.
\<close>

lemma history_add_outcome:
  "gw_job_history_add e up hist hid h rank queue owner jid uid recover = (hist', rc) \<Longrightarrow>
     (rc = 0 \<longleftrightarrow>
        gw_user_pool_get_tm_mad up uid (host_tm_mad h) \<noteq> None \<and>
        gw_user_pool_get_em_mad up uid (host_em_mad h) \<noteq> None \<and>
        (recover \<or> history_file_opens e)) \<and>
     (rc \<noteq> 0 \<longrightarrow> rc = -1) \<and>
     (rc = 0 \<longrightarrow> (\<exists>r. hist' = r # hist \<and> h_host r = Some hid \<and> stats r = (\<lambda>_. 0) \<and>
                       reason r = GW_REASON_NONE \<and> h_tries r = 0)) \<and>
     (rc = -1 \<and> history_file_opens e \<longrightarrow> hist' = hist)"
  by (auto simp: gw_job_history_add_def history_record_def split: option.splits if_splits)

text \<open>The time of a phase is the elapsed time while it runs, and fixed once its exit is stamped.\<close>

lemma phase_time:
  assumes "0 < t0" and "t0 \<le> t1" and "t1 \<le> t2" and "start \<noteq> exit"
    and "stats h start = 0" and "stats h exit = 0"
  shows "elapsed start exit t1 (h\<lparr>stats := (stats h)(start := t0)\<rparr> # hs) = t1 - t0 \<and>
         elapsed start exit t2 (h\<lparr>stats := (stats h)(start := t0, exit := t1)\<rparr> # hs) = t1 - t0"
  using assms by (auto simp: elapsed_def)

end
