(* ===== verification/GW_Job.thy ===== *)
theory GW_Job
  imports GW_History
begin

text \<open>
  Jobs (\<open>include/gw_job.h\<close>, \<open>src/job/gw_job.c\<close>) and the job pool with its dependency matrix
  (\<open>src/job/gw_job_pool.c\<close>). The limits on time and memory that only the job description
  generators read, and the mutex, are not part of the record. The operations of the pool that
  also write to the scheduler or to other pools are in \<open>GW_Sys\<close>; here are the parts that touch
  the pool and the matrix alone.
\<close>

definition GW_VAR_DIR :: string where
  "GW_VAR_DIR = ''var/gridway''"

definition GW_JOB_MIN_PRIORITY :: int where
  "GW_JOB_MIN_PRIORITY = 0"

record gw_job =
  owner :: "string option"
  directory :: string
  log_file :: string
  env_file :: string
  user_id :: int
  template :: gw_job_template
  job_id :: int
  array_id :: int
  task_id :: int
  total_tasks :: int
  pstart :: int
  pinc :: int
  fixed_priority :: int
  em_state :: gw_em_state
  tm_state :: gw_tm_state
  job_state :: gw_job_state
  start_time :: int
  exit_time :: int
  next_poll_time :: int
  last_rescheduling_time :: int
  last_checkpoint_time :: int
  exit_code :: int
  restarted :: int
  client_waiting :: int
  xfrs :: gw_xfrs
  chk_xfrs :: gw_xfrs
  history :: "gw_history list"
  reschedule :: bool

definition no_xfrs :: gw_xfrs where
  "no_xfrs = \<lparr>failure_limit = 0, xfr_list = []\<rparr>"

definition gw_job_init :: "int \<Rightarrow> int \<Rightarrow> gw_job" where
  "gw_job_init now jid =
     (let dir = GW_VAR_DIR @ ''/'' @ dec jid in
      \<lparr>owner = None, directory = dir, log_file = dir @ ''/job.log'', env_file = dir @ ''/job.env'',
       user_id = -1, template = zero_template, job_id = jid, array_id = -1, task_id = 0,
       total_tasks = 0, pstart = 0, pinc = 0, fixed_priority = GW_JOB_MIN_PRIORITY,
       em_state = GW_EM_STATE_INIT, tm_state = GW_TM_STATE_INIT, job_state = GW_JOB_STATE_INIT,
       start_time = now, exit_time = 0, next_poll_time = 0, last_rescheduling_time = 0,
       last_checkpoint_time = 0, exit_code = 0, restarted = 0, client_waiting = 0,
       xfrs = no_xfrs, chk_xfrs = no_xfrs, history = gw_job_history_init, reschedule = False\<rparr>)"

text \<open>
  Filling a job from a submission. The results of the two shell commands that recreate the
  directory and whether the configuration file opens come from outside; on their failure the
  function answers -1, in the last case after the job has been filled.
\<close>

record fill_env =
  rm_rc :: int
  mkdir_rc :: int
  conf_file_opens :: bool

definition gw_job_fill :: "fill_env \<Rightarrow> string \<Rightarrow> gw_template \<Rightarrow> gw_job \<Rightarrow> gw_job \<times> int" where
  "gw_job_fill e msg_owner jt job =
     (if rm_rc e \<noteq> 0 then (job, -1)
      else if mkdir_rc e \<noteq> 0 then (job, -1)
      else let t = gw_job_template_init jt;
               t' = (if checkpoint_url t = None
                     then t\<lparr>checkpoint_url :=
                            Some (''file://'' @ GW_VAR_DIR @ ''/'' @ dec (job_id job) @ ''/'')\<rparr>
                     else t)
           in (job\<lparr>owner := Some msg_owner, template := t'\<rparr>,
               if conf_file_opens e then 0 else -1))"

text \<open>
  A job is executed through the wrapper script unless the host of its current history record
  is itself a GridWay server.
\<close>

definition gw_job_is_wrapper_based :: "host_pool \<Rightarrow> gw_job \<Rightarrow> bool option" where
  "gw_job_is_wrapper_based hp job = do {
     isgw \<leftarrow> (case history job of
                 [] \<Rightarrow> Some False
               | h # _ \<Rightarrow>
                   (case h_host h of
                      None \<Rightarrow> Some False
                    | Some hid \<Rightarrow>
                        (case slot_get (hosts hp) hid of
                           None \<Rightarrow> None
                         | Some ho \<Rightarrow>
                             (case lrms_type ho of
                                None \<Rightarrow> Some False
                              | Some l \<Rightarrow> Some (strcasecmp_eq l ''gw'')))));
     Some (\<not> isgw \<and> wrapper (template job) \<noteq> None)
   }"

section \<open>Access to the history through the pointers of a job\<close>

text \<open>\<open>job->history->...\<close> and \<open>job->history->next->...\<close>; a NULL pointer is undefined.\<close>

definition hist_top :: "gw_job \<Rightarrow> gw_history option" where
  "hist_top job = (case history job of [] \<Rightarrow> None | h # _ \<Rightarrow> Some h)"

definition hist_next :: "gw_job \<Rightarrow> gw_history option" where
  "hist_next job = (case history job of _ # h # _ \<Rightarrow> Some h | _ \<Rightarrow> None)"

definition upd_top :: "(gw_history \<Rightarrow> gw_history) \<Rightarrow> gw_job \<Rightarrow> gw_job option" where
  "upd_top f job =
     (case history job of [] \<Rightarrow> None | h # hs \<Rightarrow> Some (job\<lparr>history := f h # hs\<rparr>))"

definition upd_next :: "(gw_history \<Rightarrow> gw_history) \<Rightarrow> gw_job \<Rightarrow> gw_job option" where
  "upd_next f job =
     (case history job of h1 # h2 # hs \<Rightarrow> Some (job\<lparr>history := h1 # f h2 # hs\<rparr>) | _ \<Rightarrow> None)"

definition set_stat :: "gw_stat \<Rightarrow> int \<Rightarrow> gw_history \<Rightarrow> gw_history" where
  "set_stat k v h = h\<lparr>stats := (stats h)(k := v)\<rparr>"

definition set_reason :: "gw_migration_reason \<Rightarrow> gw_history \<Rightarrow> gw_history" where
  "set_reason r h = h\<lparr>reason := r\<rparr>"

section \<open>The job pool\<close>

record job_pool =
  pool :: "gw_job slots"
  number_of_jobs :: int
  last_job_id :: int

definition gw_job_pool_init :: "nat \<Rightarrow> job_pool" where
  "gw_job_pool_init n = \<lparr>pool = replicate n None, number_of_jobs = 0, last_job_id = -1\<rparr>"

definition gw_job_pool_allocate :: "int \<Rightarrow> job_pool \<Rightarrow> (job_pool \<times> int) option" where
  "gw_job_pool_allocate now jp = do {
     r \<leftarrow> find_slot (last_job_id jp) (pool jp);
     (case r of
        None \<Rightarrow> Some (jp, -1)
      | Some i \<Rightarrow>
          Some (jp\<lparr>pool := (pool jp)[i := Some (gw_job_init now (int i))],
                   last_job_id := int i,
                   number_of_jobs := number_of_jobs jp + 1\<rparr>, int i))
   }"

definition gw_job_pool_allocate_by_id :: "int \<Rightarrow> int \<Rightarrow> job_pool \<Rightarrow> job_pool \<times> int" where
  "gw_job_pool_allocate_by_id now jid jp =
     (if jid < 0 \<or> jid \<ge> int (length (pool jp)) then (jp, -1)
      else if pool jp ! nat jid \<noteq> None then (jp, -1)
      else (jp\<lparr>pool := (pool jp)[nat jid := Some (gw_job_init now jid)],
               number_of_jobs := number_of_jobs jp + 1\<rparr>, jid))"

definition gw_job_pool_get :: "job_pool \<Rightarrow> int \<Rightarrow> gw_job option" where
  "gw_job_pool_get jp jid = slot_get (pool jp) jid"

definition gw_job_pool_get_num_jobs :: "job_pool \<Rightarrow> int" where
  "gw_job_pool_get_num_jobs jp = number_of_jobs jp"

text \<open>The part of \<open>gw_job_pool_free\<close> that empties the entry.\<close>

definition job_pool_release :: "int \<Rightarrow> job_pool \<Rightarrow> job_pool" where
  "job_pool_release jid jp =
     (if slot_get (pool jp) jid = None then jp
      else jp\<lparr>number_of_jobs := number_of_jobs jp - 1, pool := slot_put (pool jp) jid None\<rparr>)"

definition put_job :: "int \<Rightarrow> gw_job \<Rightarrow> job_pool \<Rightarrow> job_pool" where
  "put_job jid job jp = jp\<lparr>pool := slot_put (pool jp) jid (Some job)\<rparr>"

section \<open>The dependency matrix\<close>

text \<open>
  One row per job identifier: NULL, or the identifiers the job waits for. An entry becomes
  -2 when it is satisfied.
\<close>

type_synonym dep_matrix = "int list option list"

definition gw_job_dep_init :: "nat \<Rightarrow> dep_matrix" where
  "gw_job_dep_init n = replicate n None"

definition gw_job_pool_dep_set :: "int \<Rightarrow> int list \<Rightarrow> dep_matrix \<Rightarrow> dep_matrix" where
  "gw_job_pool_dep_set jid ds m =
     (if 0 \<le> jid \<and> jid < int (length m) then m[nat jid := gw_job_pool_dep_cp (Some ds)] else m)"

definition dep_clear :: "int \<Rightarrow> dep_matrix \<Rightarrow> dep_matrix" where
  "dep_clear jid m = m[nat jid := None]"

text \<open>The inner loop of \<open>gw_job_pool_dep_check\<close>: the new row and the flag \<open>all_done\<close>.\<close>

fun dep_satisfy :: "int \<Rightarrow> int list \<Rightarrow> int list \<times> bool" where
  "dep_satisfy jid [] = ([], True)"
| "dep_satisfy jid (d # ds) =
     (case dep_satisfy jid ds of (ds', ok) \<Rightarrow>
        if d = jid then (-2 # ds', ok) else if d \<noteq> -2 then (d # ds', False) else (d # ds', ok))"

text \<open>The inner loop of \<open>gw_job_pool_dep_consistency\<close>.\<close>

fun dep_settle :: "job_pool \<Rightarrow> int list \<Rightarrow> int list \<times> bool" where
  "dep_settle jp [] = ([], True)"
| "dep_settle jp (d # ds) =
     (case dep_settle jp ds of (ds', ok) \<Rightarrow>
        if 0 \<le> d \<and> d < int (length (pool jp))
        then (case pool jp ! nat d of
                None \<Rightarrow> (-2 # ds', ok)
              | Some j \<Rightarrow> (if job_state j = GW_JOB_STATE_ZOMBIE then (-2 # ds', ok)
                          else (d # ds', False)))
        else (-2 # ds', ok))"

section \<open>The job pool implements the pool interface\<close>

definition job_alloc :: "int \<Rightarrow> job_pool \<Rightarrow> (int \<times> job_pool) option" where
  "job_alloc now jp =
     (case gw_job_pool_allocate now jp of
        None \<Rightarrow> None | Some (jp', i) \<Rightarrow> (if i = -1 then None else Some (i, jp')))"

lemma job_allocate_cases:
  assumes "pool jp \<noteq> []"
  shows "(None \<notin> set (pool jp) \<and> gw_job_pool_allocate now jp = Some (jp, -1)) \<or>
    (\<exists>i. i < length (pool jp) \<and> pool jp ! i = None \<and>
       gw_job_pool_allocate now jp =
         Some (jp\<lparr>pool := (pool jp)[i := Some (gw_job_init now (int i))],
                  last_job_id := int i, number_of_jobs := number_of_jobs jp + 1\<rparr>, int i))"
proof (cases "find_slot (last_job_id jp) (pool jp)")
  case None
  with assms show ?thesis by (simp add: find_slot_def)
next
  case (Some r)
  show ?thesis
  proof (cases r)
    case None
    with Some assms find_slot_full [of "pool jp" "last_job_id jp"]
    show ?thesis by (simp add: gw_job_pool_allocate_def)
  next
    case (Some i)
    with \<open>find_slot (last_job_id jp) (pool jp) = Some r\<close>
      find_slot_Some [of "last_job_id jp" "pool jp" i]
    show ?thesis by (simp add: gw_job_pool_allocate_def)
  qed
qed

lemma job_allocate_empty: "pool jp = [] \<Longrightarrow> gw_job_pool_allocate now jp = None"
  by (simp add: gw_job_pool_allocate_def find_slot_def)

interpretation jobp: slot_pool pool number_of_jobs "job_alloc now" job_pool_release
    "gw_job_init now" for now
proof (unfold_locales, goal_cases)
  case (1 p i p')
  then have "pool p \<noteq> []" by (auto simp: job_alloc_def job_allocate_empty)
  from job_allocate_cases [OF this, of now] 1 show ?case by (auto simp: job_alloc_def)
next
  case (2 p)
  from job_allocate_cases [OF 2, of now] show ?case
    by (force simp: job_alloc_def set_conv_nth)
next
  case (3 i p)
  show ?case by (simp add: job_pool_release_def slot_put_def)
next
  case (4 i p)
  show ?case by (simp add: job_pool_release_def)
qed

lemma gw_job_init_id [simp]: "job_id (gw_job_init now i) = i"
  "history (gw_job_init now i) = []" "job_state (gw_job_init now i) = GW_JOB_STATE_INIT"
  by (simp_all add: gw_job_init_def gw_job_history_init_def Let_def)

section \<open>Properties\<close>

text \<open>
  Allocating a job in a pool whose counter is right answers a free identifier whenever
  fewer jobs than the size of the pool exist, the new job has that identifier and no history,
  every other job is untouched, and releasing the identifier gives back the pool's entries
  and counter.
\<close>

lemma job_pool_allocate_sound:
  assumes "number_of_jobs jp = int (occupied (pool jp))"
    and "number_of_jobs jp < int (length (pool jp))"
  shows "\<exists>i jp'. gw_job_pool_allocate now jp = Some (jp', i) \<and>
      gw_job_pool_get jp i = None \<and> gw_job_pool_get jp' i = Some (gw_job_init now i) \<and>
      (\<forall>k. k \<noteq> i \<longrightarrow> gw_job_pool_get jp' k = gw_job_pool_get jp k) \<and>
      number_of_jobs jp' = int (occupied (pool jp')) \<and>
      pool (job_pool_release i jp') = pool jp \<and>
      number_of_jobs (job_pool_release i jp') = number_of_jobs jp"
proof -
  have c: "jobp.consistent jp" using assms(1) by (simp add: jobp.consistent_def)
  then obtain i jp' where a: "job_alloc now jp = Some (i, jp')"
    using jobp.alloc_succeeds [of jp now] assms(2) by blast
  then have "gw_job_pool_allocate now jp = Some (jp', i)"
    by (auto simp: job_alloc_def split: option.splits if_splits)
  with jobp.alloc_get [OF a] jobp.alloc_consistent [OF c a] jobp.release_alloc [OF a]
  show ?thesis unfolding gw_job_pool_get_def jobp.consistent_def by blast
qed

lemma dep_satisfy_map: "fst (dep_satisfy jid ds) = map (\<lambda>d. if d = jid then -2 else d) ds"
  by (induction ds) (auto split: prod.splits)

lemma dep_satisfy_done: "snd (dep_satisfy jid ds) \<longleftrightarrow> (\<forall>d\<in>set ds. d = jid \<or> d = -2)"
  by (induction ds) (auto split: prod.splits)

lemma dep_settle_spec:
  "snd (dep_settle jp ds) \<longleftrightarrow>
     (\<forall>d\<in>set ds. \<forall>j. slot_get (pool jp) d = Some j \<longrightarrow> job_state j = GW_JOB_STATE_ZOMBIE)"
proof (induction ds)
  case Nil
  then show ?case by simp
next
  case (Cons d ds)
  show ?case
    by (cases "dep_settle jp ds"; cases "0 \<le> d \<and> d < int (length (pool jp))")
       (use Cons in \<open>auto simp: slot_get_def split: option.splits if_splits\<close>)
qed

text \<open>
  A dependency row is reported as satisfied when, and only when, every identifier of it
  has been checked off; checking off several finished jobs, in whatever order, reports the row
  done after the last one exactly when all its members are among them.
\<close>

lemma dep_satisfy_all:
  "set ds \<subseteq> {0..} \<Longrightarrow> js \<noteq> [] \<Longrightarrow> \<forall>j\<in>set js. 0 \<le> j \<Longrightarrow>
   snd (dep_satisfy (hd js) (foldr (\<lambda>j r. fst (dep_satisfy j r)) (tl js) ds)) \<longleftrightarrow> set ds \<subseteq> set js"
proof -
  assume ds: "set ds \<subseteq> {0..}" and ne: "js \<noteq> []" and js: "\<forall>j\<in>set js. 0 \<le> j"
  have fold: "\<forall>j\<in>set ks. 0 \<le> j \<Longrightarrow> foldr (\<lambda>j r. fst (dep_satisfy j r)) ks ds =
      map (\<lambda>d. if d \<in> set ks then -2 else d) ds" for ks
    by (induction ks) (auto simp: dep_satisfy_map)
  show ?thesis
    using ds ne js by (cases js) (auto simp: fold dep_satisfy_done)
qed

end
