(* ===== verification/GW_Int.thy ===== *)
theory GW_Int
  imports GW_Prelude
begin

text \<open>
  The 32-bit \<open>int\<close> of the C code where its range matters: the range itself, arithmetic whose overflow is undefined, and the
  reading of a number by \<open>atoi\<close>, which on the platforms of the daemon is \<open>strtol\<close>, bounded by the range of
  \<open>long\<close>, cut to its low 32 bits.
\<close>

definition in_int :: "int \<Rightarrow> bool" where
  "in_int v \<longleftrightarrow> - (2 ^ 31) \<le> v \<and> v < 2 ^ 31"

text \<open>The result of an operation on \<open>int\<close>; a result outside the range is undefined.\<close>

definition checked :: "int \<Rightarrow> int option" where
  "checked v = (if in_int v then Some v else None)"

definition c_int :: "int \<Rightarrow> int" where
  "c_int v = signed_take_bit 31 v"

definition clamp_long :: "int \<Rightarrow> int" where
  "clamp_long v = max (- (2 ^ 63)) (min (2 ^ 63 - 1) v)"

definition int_literal :: "int \<Rightarrow> int" where
  "int_literal v = c_int (clamp_long v)"

lemma c_int_range: "in_int (c_int v)"
  using signed_take_bit_int_greater_eq_minus_exp [of 31 v] signed_take_bit_int_less_exp [of 31 v]
  by (simp add: in_int_def c_int_def)

lemma c_int_same: "in_int v \<Longrightarrow> c_int v = v"
  by (simp add: in_int_def c_int_def signed_take_bit_int_eq_self)

lemma int_literal_same: "in_int v \<Longrightarrow> int_literal v = v"
proof -
  assume v: "in_int v"
  then have "clamp_long v = v" by (simp add: in_int_def clamp_long_def)
  then show ?thesis using c_int_same [OF v] by (simp add: int_literal_def)
qed

lemma int_literal_range: "in_int (int_literal v)"
  by (simp add: int_literal_def c_int_range)

lemma checked_Some [simp]: "checked v = Some w \<longleftrightarrow> in_int v \<and> w = v"
  by (auto simp: checked_def)

lemma checked_None [simp]: "checked v = None \<longleftrightarrow> \<not> in_int v"
  by (simp add: checked_def)

text \<open>A number just beyond the range becomes negative.\<close>

lemma int_literal_example: "int_literal 2147483648 = -2147483648" "int_literal 4294967296 = 0"
  by (simp_all add: int_literal_def clamp_long_def c_int_def)

end
