(* ===== verification/GW_Array.thy ===== *)
theory GW_Array
  imports GW_Job GW_Int
begin

text \<open>
  Array jobs: \<open>src/array/gw_array.c\<close> and the array pool \<open>src/array/gw_array_pool.c\<close>, whose
  allocation takes the jobs of the array from the job pool. \<open>malloc\<close> fails for a negative
  number of tasks only. The mutexes are not modelled.
\<close>

record gw_array =
  a_array_id :: int
  last_task_id :: int
  number_of_tasks :: int
  freed_tasks :: int
  job_ids :: "int list"

definition gw_array_init :: "int \<Rightarrow> int \<Rightarrow> gw_array \<times> int" where
  "gw_array_init n aid =
     (\<lparr>a_array_id = aid, last_task_id = -1, number_of_tasks = n, freed_tasks = 0,
       job_ids = replicate (nat n) (-1)\<rparr>, if n < 0 then -1 else 0)"

text \<open>
  The guard compares the last identifier handed out, not the one about to be used, so it is
  one too late: the store of the task after the last is outside \<open>job_ids\<close> (\<open>None\<close>).
\<close>

definition gw_array_add_task :: "int \<Rightarrow> gw_array \<Rightarrow> (gw_array \<times> int) option" where
  "gw_array_add_task jid a =
     (if last_task_id a \<ge> number_of_tasks a then Some (a, -1)
      else let t = last_task_id a + 1 in
        if 0 \<le> t \<and> t < int (length (job_ids a))
        then Some (a\<lparr>job_ids := (job_ids a)[nat t := jid], last_task_id := t\<rparr>, t)
        else None)"

definition gw_array_del_task :: "int \<Rightarrow> gw_array \<Rightarrow> gw_array \<times> int" where
  "gw_array_del_task t a =
     (let a' = (if 0 \<le> t \<and> t < number_of_tasks a \<and> job_ids a ! nat t \<noteq> -1
                then a\<lparr>job_ids := (job_ids a)[nat t := -1], freed_tasks := freed_tasks a + 1\<rparr>
                else a)
      in (a', number_of_tasks a' - freed_tasks a'))"

record array_pool =
  arrays :: "gw_array slots"
  number_of_arrays :: int
  last_array_id :: int

definition gw_array_pool_init :: "nat \<Rightarrow> array_pool" where
  "gw_array_pool_init n = \<lparr>arrays = replicate n None, number_of_arrays = 0, last_array_id = -1\<rparr>"

definition gw_array_pool_array_free :: "int \<Rightarrow> array_pool \<Rightarrow> array_pool" where
  "gw_array_pool_array_free i ap =
     (if slot_get (arrays ap) i \<noteq> None
      then ap\<lparr>number_of_arrays := number_of_arrays ap - 1, arrays := slot_put (arrays ap) i None\<rparr>
      else ap)"

definition gw_array_pool_get_array :: "array_pool \<Rightarrow> int \<Rightarrow> gw_array option" where
  "gw_array_pool_get_array ap i = slot_get (arrays ap) i"

definition gw_array_pool_get_number_tasks :: "array_pool \<Rightarrow> int \<Rightarrow> int" where
  "gw_array_pool_get_number_tasks ap i =
     (case slot_get (arrays ap) i of None \<Rightarrow> 1 | Some a \<Rightarrow> number_of_tasks a)"

definition gw_array_pool_get_num_arrays :: "array_pool \<Rightarrow> int" where
  "gw_array_pool_get_num_arrays ap = number_of_arrays ap"

text \<open>
  The loop that fills a new array: the result of \<open>gw_job_pool_get\<close> is used without a test, so
  an allocation that answered -1 is a NULL dereference.
\<close>

fun array_fill ::
  "int \<Rightarrow> int \<Rightarrow> int \<Rightarrow> nat \<Rightarrow> gw_array \<Rightarrow> job_pool \<Rightarrow> (gw_array \<times> job_pool) option" where
  "array_fill now aid n 0 a jp = Some (a, jp)"
| "array_fill now aid n (Suc k) a jp = do {
     (jp1, jid) \<leftarrow> gw_job_pool_allocate now jp;
     (a1, tid) \<leftarrow> gw_array_add_task jid a;
     job \<leftarrow> gw_job_pool_get jp1 jid;
     array_fill now aid n k a1
       (put_job jid (job\<lparr>task_id := tid, array_id := aid, total_tasks := n\<rparr>) jp1)
   }"

text \<open>
  The result is the two pools, the return code and the identifier. The number of tasks comes from the client; a sum
  with the number of jobs that does not fit an \<open>int\<close> is undefined.
\<close>

definition gw_array_pool_array_allocate ::
  "int \<Rightarrow> int \<Rightarrow> array_pool \<Rightarrow> job_pool \<Rightarrow> (array_pool \<times> job_pool \<times> int \<times> int) option" where
  "gw_array_pool_array_allocate now n ap jp =
     (if \<not> in_int (n + gw_job_pool_get_num_jobs jp) then None
      else if n + gw_job_pool_get_num_jobs jp > int (length (pool jp)) then Some (ap, jp, -1, -1)
      else do {
        r \<leftarrow> find_slot (last_array_id ap) (arrays ap);
        (case r of
           None \<Rightarrow> Some (ap, jp, -1, -1)
         | Some i \<Rightarrow>
             (case gw_array_init n (int i) of
                (a, rc) \<Rightarrow>
                  if rc \<noteq> 0
                  then Some (ap\<lparr>last_array_id := int i, arrays := (arrays ap)[i := Some a]\<rparr>,
                             jp, -1, int i)
                  else do {
                    (a', jp') \<leftarrow> array_fill now (int i) n (nat n) a jp;
                    Some (ap\<lparr>last_array_id := int i, arrays := (arrays ap)[i := Some a'],
                             number_of_arrays := number_of_arrays ap + 1\<rparr>, jp', 0, int i)
                  }))
      })"

section \<open>Filling never leaves the array or the pool\<close>

definition array_wf :: "gw_array \<Rightarrow> bool" where
  "array_wf a \<longleftrightarrow> 0 \<le> number_of_tasks a \<and> int (length (job_ids a)) = number_of_tasks a \<and>
     -1 \<le> last_task_id a \<and> last_task_id a < number_of_tasks a \<and>
     freed_tasks a \<le> number_of_tasks a"

lemma array_init_wf: "0 \<le> n \<Longrightarrow> array_wf (fst (gw_array_init n i))"
  by (simp add: array_wf_def gw_array_init_def)

lemma array_add_task_ok:
  assumes "array_wf a" and "last_task_id a + 1 < number_of_tasks a"
  shows "gw_array_add_task jid a =
     Some (a\<lparr>job_ids := (job_ids a)[nat (last_task_id a + 1) := jid],
             last_task_id := last_task_id a + 1\<rparr>, last_task_id a + 1)"
    and "array_wf (fst (the (gw_array_add_task jid a)))"
  using assms by (auto simp: array_wf_def gw_array_add_task_def Let_def)

lemma array_del_task_wf:
  "array_wf a \<Longrightarrow> array_wf (fst (gw_array_del_task t a)) \<or> freed_tasks a = number_of_tasks a"
  by (auto simp: array_wf_def gw_array_del_task_def Let_def)

lemma job_pool_put_consistent:
  assumes "slot_get (pool jp) i = Some j"
  shows "occupied (pool (put_job i j' jp)) = occupied (pool jp)"
    and "number_of_jobs (put_job i j' jp) = number_of_jobs jp"
    and "length (pool (put_job i j' jp)) = length (pool jp)"
proof -
  have r: "nat i < length (pool jp)" "pool jp ! nat i = Some j"
    using assms by (auto simp: slot_get_def split: if_splits)
  have "Suc (occupied ((pool jp)[nat i := None])) = occupied (pool jp)"
    using r by (rule occupied_clear)
  moreover have "occupied ((pool jp)[nat i := None, nat i := Some j']) =
      Suc (occupied ((pool jp)[nat i := None]))"
    by (rule occupied_fill) (use r in auto)
  ultimately show "occupied (pool (put_job i j' jp)) = occupied (pool jp)"
    by (simp add: put_job_def slot_put_def)
qed (simp_all add: put_job_def)

definition task_of :: "job_pool \<Rightarrow> int \<Rightarrow> int \<Rightarrow> int \<Rightarrow> int \<Rightarrow> bool" where
  "task_of jp jid aid t n \<longleftrightarrow> (\<exists>j. gw_job_pool_get jp jid = Some j \<and>
     array_id j = aid \<and> task_id j = t \<and> total_tasks j = n)"

lemma array_fill_ok:
  assumes "number_of_jobs jp = int (occupied (pool jp))"
    and "number_of_jobs jp + int k \<le> int (length (pool jp))"
    and "array_wf a" and "last_task_id a + int k < number_of_tasks a"
  shows "\<exists>a' jp'. array_fill now aid n k a jp = Some (a', jp') \<and> array_wf a' \<and>
     last_task_id a' = last_task_id a + int k \<and> number_of_tasks a' = number_of_tasks a \<and>
     freed_tasks a' = freed_tasks a \<and>
     number_of_jobs jp' = number_of_jobs jp + int k \<and>
     number_of_jobs jp' = int (occupied (pool jp')) \<and> length (pool jp') = length (pool jp) \<and>
     (\<forall>i j. gw_job_pool_get jp i = Some j \<longrightarrow> gw_job_pool_get jp' i = Some j) \<and>
     (\<forall>t. t \<le> last_task_id a \<longrightarrow> 0 \<le> t \<longrightarrow> job_ids a' ! nat t = job_ids a ! nat t) \<and>
     (\<forall>t. last_task_id a < t \<longrightarrow> t \<le> last_task_id a + int k \<longrightarrow>
        gw_job_pool_get jp (job_ids a' ! nat t) = None \<and>
        task_of jp' (job_ids a' ! nat t) aid t n)"
  using assms
proof (induction k arbitrary: a jp)
  case 0
  then show ?case by simp
next
  case (Suc k)
  obtain jid jp1 where al: "gw_job_pool_allocate now jp = Some (jp1, jid)"
    and free: "gw_job_pool_get jp jid = None"
    and got: "gw_job_pool_get jp1 jid = Some (gw_job_init now jid)"
    and oth: "\<And>i. i \<noteq> jid \<Longrightarrow> gw_job_pool_get jp1 i = gw_job_pool_get jp i"
    and cons1: "number_of_jobs jp1 = int (occupied (pool jp1))"
    and cnt1: "number_of_jobs jp1 = number_of_jobs jp + 1" "length (pool jp1) = length (pool jp)"
  proof -
    have c: "jobp.consistent jp" using Suc.prems(1) by (simp add: jobp.consistent_def)
    moreover have "number_of_jobs jp < int (length (pool jp))" using Suc.prems(2) by simp
    ultimately obtain i p where a: "job_alloc now jp = Some (i, p)"
      using jobp.alloc_succeeds [of jp now] by blast
    then have "gw_job_pool_allocate now jp = Some (p, i)"
      by (auto simp: job_alloc_def split: option.splits if_splits)
    moreover have "number_of_jobs p = number_of_jobs jp + 1" "length (pool p) = length (pool jp)"
      using jobp.alloc_Some [OF a] by auto
    ultimately show thesis using that [of p i] jobp.alloc_get [OF a] jobp.alloc_consistent [OF c a]
      unfolding gw_job_pool_get_def jobp.consistent_def by blast
  qed
  let ?t = "last_task_id a + 1"
  let ?a1 = "a\<lparr>job_ids := (job_ids a)[nat ?t := jid], last_task_id := ?t\<rparr>"
  let ?j = "(gw_job_init now jid)\<lparr>task_id := ?t, array_id := aid, total_tasks := n\<rparr>"
  let ?jp2 = "put_job jid ?j jp1"
  have lt: "?t < number_of_tasks a" using Suc.prems(4) by simp
  have ad: "gw_array_add_task jid a = Some (?a1, ?t)" and wf1: "array_wf ?a1"
    using array_add_task_ok [OF Suc.prems(3) lt, of jid] by auto
  have got': "slot_get (pool jp1) jid = Some (gw_job_init now jid)"
    using got by (simp add: gw_job_pool_get_def)
  note put = job_pool_put_consistent [OF got', of ?j]
  have get2: "gw_job_pool_get ?jp2 i = (if i = jid then Some ?j else gw_job_pool_get jp i)" for i
    using oth [of i] got' by (simp add: gw_job_pool_get_def put_job_def)
  have "\<exists>a' jp'. array_fill now aid n k ?a1 ?jp2 = Some (a', jp') \<and> array_wf a' \<and>
     last_task_id a' = last_task_id ?a1 + int k \<and> number_of_tasks a' = number_of_tasks ?a1 \<and>
     freed_tasks a' = freed_tasks ?a1 \<and>
     number_of_jobs jp' = number_of_jobs ?jp2 + int k \<and>
     number_of_jobs jp' = int (occupied (pool jp')) \<and> length (pool jp') = length (pool ?jp2) \<and>
     (\<forall>i j. gw_job_pool_get ?jp2 i = Some j \<longrightarrow> gw_job_pool_get jp' i = Some j) \<and>
     (\<forall>t. t \<le> last_task_id ?a1 \<longrightarrow> 0 \<le> t \<longrightarrow> job_ids a' ! nat t = job_ids ?a1 ! nat t) \<and>
     (\<forall>t. last_task_id ?a1 < t \<longrightarrow> t \<le> last_task_id ?a1 + int k \<longrightarrow>
        gw_job_pool_get ?jp2 (job_ids a' ! nat t) = None \<and>
        task_of jp' (job_ids a' ! nat t) aid t n)"
    by (rule Suc.IH) (use Suc.prems cons1 cnt1 put wf1 in auto)
  then obtain a' jp' where
    fill: "array_fill now aid n k ?a1 ?jp2 = Some (a', jp')"
    and r: "array_wf a'" "last_task_id a' = ?t + int k" "number_of_tasks a' = number_of_tasks a"
      "freed_tasks a' = freed_tasks a"
      "number_of_jobs jp' = number_of_jobs ?jp2 + int k" "number_of_jobs jp' = int (occupied (pool jp'))"
      "length (pool jp') = length (pool ?jp2)"
    and keep: "\<And>i j. gw_job_pool_get ?jp2 i = Some j \<Longrightarrow> gw_job_pool_get jp' i = Some j"
    and low: "\<And>t. t \<le> ?t \<Longrightarrow> 0 \<le> t \<Longrightarrow> job_ids a' ! nat t = job_ids ?a1 ! nat t"
    and high: "\<And>t. ?t < t \<Longrightarrow> t \<le> ?t + int k \<Longrightarrow>
        gw_job_pool_get ?jp2 (job_ids a' ! nat t) = None \<and> task_of jp' (job_ids a' ! nat t) aid t n"
    by auto
  have t0: "0 \<le> ?t" "nat ?t < length (job_ids a)" using Suc.prems(3) lt by (auto simp: array_wf_def)
  have idt: "job_ids a' ! nat ?t = jid" using low [of ?t] t0 by simp
  have tk: "task_of jp' jid aid ?t n"
    using keep [of jid ?j] get2 [of jid] by (simp add: task_of_def)
  have "array_fill now aid n (Suc k) a jp = Some (a', jp')"
    using al ad got fill by simp
  moreover have "gw_job_pool_get jp' i = Some j" if "gw_job_pool_get jp i = Some j" for i j
    using that keep [of i j] get2 [of i] free by (cases "i = jid") auto
  moreover have "job_ids a' ! nat t = job_ids a ! nat t" if "t \<le> last_task_id a" "0 \<le> t" for t
    using low [of t] that by (simp add: nth_list_update)
  moreover have "gw_job_pool_get jp (job_ids a' ! nat t) = None \<and>
        task_of jp' (job_ids a' ! nat t) aid t n"
    if "last_task_id a < t" "t \<le> last_task_id a + int (Suc k)" for t
  proof (cases "t = ?t")
    case True
    then show ?thesis using idt tk free by simp
  next
    case False
    then have h: "gw_job_pool_get ?jp2 (job_ids a' ! nat t) = None"
      "task_of jp' (job_ids a' ! nat t) aid t n" using high [of t] that by auto
    then show ?thesis using get2 [of "job_ids a' ! nat t"] by (auto split: if_splits)
  qed
  ultimately show ?case using r put cnt1 by auto
qed

section \<open>Properties\<close>

text \<open>
  C35: with a correct job counter, and a number of tasks whose sum with the number of jobs fits an \<open>int\<close>, the
  allocation of an array never leaves its arrays and never dereferences a missing job: it is refused with -1 and no change of the job pool when there
  is no room for all its tasks or no free array identifier, and otherwise it creates exactly
  \<open>n\<close> new jobs whose task numbers are 0 to n-1 and whose identifiers the array records.
\<close>

theorem array_allocate_sound:
  assumes "number_of_jobs jp = int (occupied (pool jp))" and "arrays ap \<noteq> []" and "0 \<le> n"
    and "n + number_of_jobs jp < 2 ^ 31"
  shows "\<exists>ap' jp' rc i. gw_array_pool_array_allocate now n ap jp = Some (ap', jp', rc, i) \<and>
     (rc = 0 \<longleftrightarrow> number_of_jobs jp + n \<le> int (length (pool jp)) \<and> None \<in> set (arrays ap)) \<and>
     (rc \<noteq> 0 \<longrightarrow> rc = -1 \<and> ap' = ap \<and> jp' = jp) \<and>
     (rc = 0 \<longrightarrow> number_of_jobs jp' = number_of_jobs jp + n \<and>
        number_of_jobs jp' = int (occupied (pool jp')) \<and>
        gw_array_pool_get_array ap i = None \<and>
        (\<exists>a. gw_array_pool_get_array ap' i = Some a \<and> array_wf a \<and> number_of_tasks a = n \<and>
           freed_tasks a = 0 \<and>
           (\<forall>t. 0 \<le> t \<and> t < n \<longrightarrow> gw_job_pool_get jp (job_ids a ! nat t) = None \<and>
                                    task_of jp' (job_ids a ! nat t) i t n)))"
proof -
  obtain r where fs: "find_slot (last_array_id ap) (arrays ap) = Some r"
    using assms(2) by (auto simp: find_slot_def)
  have sum: "in_int (n + gw_job_pool_get_num_jobs jp)"
    using assms(1,3,4) by (simp add: in_int_def gw_job_pool_get_num_jobs_def)
  have full: "r = None \<longleftrightarrow> None \<notin> set (arrays ap)"
    using find_slot_full [OF assms(2), of "last_array_id ap"] fs by simp
  show ?thesis
  proof (cases "n + number_of_jobs jp > int (length (pool jp)) \<or> r = None")
    case True
    then show ?thesis using fs full sum
      by (auto simp: gw_array_pool_array_allocate_def gw_job_pool_get_num_jobs_def)
  next
    case False
    then obtain i where r: "r = Some i" by auto
    have i: "i < length (arrays ap)" "arrays ap ! i = None"
      using find_slot_Some [OF fs [unfolded r]] by auto
    obtain a where a: "gw_array_init n (int i) = (a, 0)" and wf: "array_wf a"
      and la: "last_task_id a = -1" "number_of_tasks a = n" "freed_tasks a = 0"
      using assms(3) by (auto simp: gw_array_init_def array_wf_def)
    have "number_of_jobs jp + int (nat n) \<le> int (length (pool jp))" using False assms(3) by simp
    moreover have "last_task_id a + int (nat n) < number_of_tasks a" using la assms(3) by simp
    ultimately obtain a' jp' where f: "array_fill now (int i) n (nat n) a jp = Some (a', jp')"
      and res: "array_wf a'" "number_of_tasks a' = n" "freed_tasks a' = 0"
        "number_of_jobs jp' = number_of_jobs jp + n" "number_of_jobs jp' = int (occupied (pool jp'))"
        "\<forall>t. -1 < t \<longrightarrow> t \<le> -1 + n \<longrightarrow> gw_job_pool_get jp (job_ids a' ! nat t) = None \<and>
                task_of jp' (job_ids a' ! nat t) (int i) t n"
      using array_fill_ok [OF assms(1) _ wf, of "nat n" now "int i" n] la assms(3) by auto
    have "None \<in> set (arrays ap)" using i by (metis nth_mem)
    then show ?thesis using False fs r a f res i sum
      by (auto simp: gw_array_pool_array_allocate_def gw_job_pool_get_num_jobs_def
          gw_array_pool_get_array_def slot_get_def)
  qed
qed

theorem array_allocate_sound_witness:
  "\<exists>ap' jp' i. gw_array_pool_array_allocate 9 2 (gw_array_pool_init 1) (gw_job_pool_init 3)
      = Some (ap', jp', 0, i) \<and> number_of_jobs jp' = 2"
proof -
  let ?ap = "gw_array_pool_init 1" and ?jp = "gw_job_pool_init 3"
  have "number_of_jobs ?jp = int (occupied (pool ?jp))" "arrays ?ap \<noteq> []"
    "number_of_jobs ?jp + 2 \<le> int (length (pool ?jp))" "None \<in> set (arrays ?ap)"
    "number_of_jobs ?jp = 0"
    by (simp_all add: gw_job_pool_init_def gw_array_pool_init_def occupied_def)
  with array_allocate_sound [of ?jp ?ap 2 9] show ?thesis by force
qed

text \<open>
  A client that asks for so many tasks that the sum overflows is not refused: what the guard does is undefined, and
  when the sum wraps around to a negative number the loop goes on until a job is missing.
\<close>

lemma array_count_overflow:
  assumes "2 ^ 31 \<le> n + number_of_jobs jp"
  shows "gw_array_pool_array_allocate now n ap jp = None"
  using assms by (simp add: gw_array_pool_array_allocate_def gw_job_pool_get_num_jobs_def in_int_def)

text \<open>
  The guard of \<open>gw_array_add_task\<close> does not protect the array: on an array all of whose
  tasks have been added, one more addition is not refused but stores outside \<open>job_ids\<close>. Only
  the count in \<open>gw_array_pool_array_allocate\<close> keeps the daemon from doing it.
\<close>

lemma array_add_task_overrun:
  assumes "array_wf a" and "last_task_id a = number_of_tasks a - 1"
  shows "gw_array_add_task jid a = None"
  using assms by (auto simp: array_wf_def gw_array_add_task_def Let_def)

end
