(* ===== verification/GW_Sys.thy ===== *)
theory GW_Sys
  imports GW_Array
begin

text \<open>
  The state of the daemon that the dispatch manager works on, and the operations through
  which its handlers change it. The pools are those of the previous theories. The action
  managers of the dispatch, transfer, execution and request managers appear as the lists of
  actions that were triggered on them and not yet run (theory \<open>DM_Init\<close> relates the list of the
  dispatch manager to the table-driven \<open>gw_am\<close> structure). What the daemon writes is kept: the
  messages to the scheduler process, the requests to the drivers, the lines appended to the
  \<open>job.state\<close> files and the accounting records.

  Every handler gets an environment with the values it takes from outside: the clock, read once
  per handler, the configuration, the return code of \<open>gw_job_environment\<close>, and the contents of
  the files it reads.
\<close>

datatype gw_msg_type =
    GW_MSG_SUBMIT | GW_MSG_SUBMIT_ARRAY | GW_MSG_WAIT | GW_MSG_KILL | GW_MSG_KILL_ASYNC
  | GW_MSG_KILL_HARD | GW_MSG_STOP | GW_MSG_STOP_ASYNC | GW_MSG_RESUME | GW_MSG_HOLD
  | GW_MSG_RELEASE | GW_MSG_RESCHEDULE | GW_MSG_JOB_STATUS | GW_MSG_JOB_POOL_STATUS
  | GW_MSG_JOB_HISTORY | GW_MSG_HOST_STATUS | GW_MSG_HOST_POOL_STATUS | GW_MSG_JOB_MATCH
  | GW_MSG_END_JOB | GW_MSG_END | GW_MSG_DISENGAGE | GW_MSG_USERS

datatype gw_msg_wait_type = GW_MSG_WAIT_JOB | GW_MSG_WAIT_ANY | GW_MSG_WAIT_ANY_FIRST

text \<open>A message of a client, with the template that follows it on the socket when it submits.\<close>

record submit_msg =
  sm_msg_type :: gw_msg_type
  sm_client_socket :: int
  sm_wait_type :: gw_msg_wait_type
  sm_owner :: string
  sm_group :: string
  sm_proxy_path :: string
  sm_init_state :: gw_job_state
  sm_job_id :: int
  sm_array_id :: int
  sm_number_of_tasks :: int
  sm_pstart :: int
  sm_pinc :: int
  sm_fixed_priority :: int
  sm_rc :: int
  sm_jt :: gw_template

datatype dm_action =
    DM_FINALIZE | DM_ALLOCATE_JOB | DM_ALLOCATE_ARRAY | DM_HOLD | DM_RELEASE | DM_STOP
  | DM_RESUME | DM_KILL | DM_KILL_HARD | DM_WAIT | DM_RESCHEDULE
  | DM_PROLOG_DONE | DM_PROLOG_FAILED | DM_EPILOG_DONE | DM_EPILOG_FAILED
  | DM_WRAPPER_DONE | DM_WRAPPER_FAILED
  | DM_STATE_PROLOG | DM_STATE_MIGR_PROLOG | DM_STATE_PRE_WRAPPER | DM_STATE_WRAPPER
  | DM_STATE_EPILOG | DM_STATE_EPILOG_STD | DM_STATE_MIGR_EPILOG | DM_STATE_STOP_EPILOG
  | DM_STATE_KILL_EPILOG | DM_STATE_EPILOG_FAIL | DM_STATE_EPILOG_RESTART
  | DM_STATE_MIGR_CANCEL | DM_STATE_PENDING | DM_STATE_ZOMBIE | DM_STATE_FAILED
  | DM_STATE_STOPPED | DM_TIMER

datatype tm_action = TM_PROLOG | TM_EPILOG

datatype em_action =
    EM_SUBMIT | EM_CANCEL
  | EM_STATE_PENDING | EM_STATE_ACTIVE | EM_STATE_SUSPENDED | EM_STATE_DONE | EM_STATE_FAILED

datatype rm_action =
    RM_SUBMIT | RM_HOLD_SUCCESS | RM_HOLD_FAILED | RM_RELEASE_SUCCESS | RM_RELEASE_FAILED
  | RM_STOP_SUCCESS | RM_STOP_FAILED | RM_RESUME_SUCCESS | RM_RESUME_FAILED
  | RM_KILL_SUCCESS | RM_KILL_FAILED | RM_WAIT_SUCCESS | RM_WAIT_FAILED
  | RM_RESCHEDULE_SUCCESS | RM_RESCHEDULE_FAILED

text \<open>The pointer an action carries: NULL, a job identifier, or a submission.\<close>

datatype am_arg = ARG_NULL | ARG_ID int | ARG_MSG submit_msg

text \<open>
  A line written to a driver, with the name of the driver. The mode of a copy is the character of
  the file, \<open>None\<close> when it was never set.
\<close>

datatype mad_request =
    TM_MAD_START string int | TM_MAD_END string int
  | TM_MAD_MKDIR string int string | TM_MAD_RMDIR string int string
  | TM_MAD_CP string int int "char option" string string
  | EM_MAD_SUBMIT string int string string | EM_MAD_POLL string int
  | EM_MAD_CANCEL string int | EM_MAD_RECOVER string int string

record state_line =
  line_time :: int
  line_job :: int
  line_state :: gw_job_state
  line_exit_code :: int

record gwd =
  gd_jobs :: job_pool
  gd_deps :: dep_matrix
  gd_arrays :: array_pool
  gd_users :: user_pool
  gd_hosts :: host_pool
  dm_am :: "(dm_action \<times> am_arg) list"
  tm_am :: "(tm_action \<times> int) list"
  em_am :: "(em_action \<times> int) list"
  rm_am :: "(rm_action \<times> am_arg) list"
  sched_out :: "sched_msg list"
  mad_out :: "mad_request list"
  state_log :: "state_line list"
  acct_out :: "gw_job list"
  scheduling :: bool
  mark :: int

record dm_env =
  now :: int
  environment_rc :: int
  wrapper_stdout :: "string option"
  env_hist :: hist_env
  env_user :: user_env
  env_fill :: fill_env
  scheduling_interval :: int
  dispose :: bool

section \<open>Primitive operations\<close>

definition get_job :: "gwd \<Rightarrow> int \<Rightarrow> gw_job option" where
  "get_job s jid = gw_job_pool_get (gd_jobs s) jid"

definition get_host :: "gwd \<Rightarrow> int \<Rightarrow> gw_host option" where
  "get_host s hid = gw_host_pool_get_host (gd_hosts s) hid"

text \<open>Writing a job back through its pointer.\<close>

definition put :: "int \<Rightarrow> gw_job \<Rightarrow> gwd \<Rightarrow> gwd" where
  "put jid job s = s\<lparr>gd_jobs := put_job jid job (gd_jobs s)\<rparr>"

definition send :: "sched_msg \<Rightarrow> gwd \<Rightarrow> gwd" where
  "send m s = s\<lparr>sched_out := sched_out s @ [m]\<rparr>"

definition sends :: "sched_msg list \<Rightarrow> gwd \<Rightarrow> gwd" where
  "sends ms s = s\<lparr>sched_out := sched_out s @ ms\<rparr>"

text \<open>\<open>gw_am_trigger\<close> on the dispatch manager drops what follows a finalisation.\<close>

definition trigger_dm :: "dm_action \<Rightarrow> am_arg \<Rightarrow> gwd \<Rightarrow> gwd" where
  "trigger_dm a arg s =
     (if dm_am s \<noteq> [] \<and> fst (hd (dm_am s)) = DM_FINALIZE then s
      else s\<lparr>dm_am := dm_am s @ [(a, arg)]\<rparr>)"

definition trigger_tm :: "tm_action \<Rightarrow> int \<Rightarrow> gwd \<Rightarrow> gwd" where
  "trigger_tm a jid s = s\<lparr>tm_am := tm_am s @ [(a, jid)]\<rparr>"

definition trigger_em :: "em_action \<Rightarrow> int \<Rightarrow> gwd \<Rightarrow> gwd" where
  "trigger_em a jid s = s\<lparr>em_am := em_am s @ [(a, jid)]\<rparr>"

definition trigger_rm :: "rm_action \<Rightarrow> am_arg \<Rightarrow> gwd \<Rightarrow> gwd" where
  "trigger_rm a arg s = s\<lparr>rm_am := rm_am s @ [(a, arg)]\<rparr>"

definition to_mad :: "mad_request \<Rightarrow> gwd \<Rightarrow> gwd" where
  "to_mad r s = s\<lparr>mad_out := mad_out s @ [r]\<rparr>"

text \<open>
  \<open>gw_job_set_state\<close> sets the state and appends a line to \<open>job.state\<close> and to the log of the
  event generator (both files are assumed to open).
\<close>

definition set_state :: "gw_job_state \<Rightarrow> gw_job \<Rightarrow> gw_job" where
  "set_state st job = job\<lparr>job_state := st\<rparr>"

definition log_state :: "dm_env \<Rightarrow> gw_job \<Rightarrow> gwd \<Rightarrow> gwd" where
  "log_state e job s = s\<lparr>state_log := state_log s
     @ [\<lparr>line_time = now e, line_job = job_id job, line_state = job_state job,
         line_exit_code = exit_code job\<rparr>]\<rparr>"

definition gw_job_set_state :: "dm_env \<Rightarrow> gw_job_state \<Rightarrow> gw_job \<Rightarrow> gwd \<Rightarrow> gw_job \<times> gwd" where
  "gw_job_set_state e st job s = (set_state st job, log_state e (set_state st job) s)"

text \<open>The counters of the host that a history record points to.\<close>

definition host_op ::
  "(gw_host \<Rightarrow> gw_host \<times> sched_msg) \<Rightarrow> int option \<Rightarrow> gwd \<Rightarrow> gwd option" where
  "host_op f p s = do {
     hid \<leftarrow> p;
     h \<leftarrow> get_host s hid;
     Some (send (snd (f h))
       (s\<lparr>gd_hosts := (gd_hosts s)\<lparr>hosts := slot_put (hosts (gd_hosts s)) hid (Some (fst (f h)))\<rparr>\<rparr>))
   }"

definition user_op :: "(user_pool \<Rightarrow> user_pool \<times> sched_msg list) \<Rightarrow> gwd \<Rightarrow> gwd" where
  "user_op f s = sends (snd (f (gd_users s))) (s\<lparr>gd_users := fst (f (gd_users s))\<rparr>)"

text \<open>
  The beginning of every handler: without an argument nothing happens; the job is looked up,
  and a missing job is handled by \<open>missing\<close>.
\<close>

definition with_job ::
  "(int \<Rightarrow> gwd \<Rightarrow> gwd) \<Rightarrow> (int \<Rightarrow> gw_job \<Rightarrow> gwd \<Rightarrow> gwd option) \<Rightarrow> int option \<Rightarrow> gwd \<Rightarrow> gwd option"
where
  "with_job missing body arg s =
     (case arg of
        None \<Rightarrow> Some s
      | Some jid \<Rightarrow>
          (case get_job s jid of None \<Rightarrow> Some (missing jid s) | Some job \<Rightarrow> body jid job s))"

definition no_job :: "int \<Rightarrow> gwd \<Rightarrow> gwd" where
  "no_job jid s = s"

text \<open>\<open>job->history->host->host_id\<close>\<close>

definition hist_host_id :: "gw_history \<Rightarrow> gwd \<Rightarrow> int option" where
  "hist_host_id h s = do { hid \<leftarrow> h_host h; ho \<leftarrow> get_host s hid; Some (host_id ho) }"

section \<open>Operations of the job pool that reach other components\<close>

definition free_exit_times :: "dm_env \<Rightarrow> gw_job \<Rightarrow> gw_job" where
  "free_exit_times e job =
     (if exit_time job = 0
      then job\<lparr>exit_time := now e,
               history := (case history job of
                             [] \<Rightarrow> []
                           | h # hs \<Rightarrow> (if stats h EXIT_TIME = 0 then set_stat EXIT_TIME (now e) h else h)
                                       # hs)\<rparr>
      else job)"

definition gw_job_pool_free :: "dm_env \<Rightarrow> int \<Rightarrow> gwd \<Rightarrow> gwd" where
  "gw_job_pool_free e jid s =
     (if 0 \<le> jid \<and> jid < int (length (pool (gd_jobs s)))
      then let
        s1 = (case get_job s jid of
                None \<Rightarrow> s
              | Some job \<Rightarrow>
                  (let s' = (if job_state job = GW_JOB_STATE_PENDING
                               \<or> (job_state job = GW_JOB_STATE_WRAPPER \<and> reschedule job)
                             then send (JOB_DEL (job_id job)) s else s);
                       s'' = user_op (gw_user_pool_dec_jobs (user_id job))
                               (s'\<lparr>acct_out := acct_out s' @ [free_exit_times e job]\<rparr>)
                   in s''\<lparr>gd_jobs := job_pool_release jid (gd_jobs s'')\<rparr>))
        in s1\<lparr>gd_deps := dep_clear jid (gd_deps s1)\<rparr>
      else s)"

definition job_schedule_msg :: "gw_job \<Rightarrow> gw_migration_reason \<Rightarrow> sched_msg" where
  "job_schedule_msg job r = JOB_SCHEDULE (job_id job) (array_id job) (user_id job) r"

text \<open>Releasing the job whose dependencies are satisfied, if it is held.\<close>

definition dep_release :: "dm_env \<Rightarrow> int \<Rightarrow> gwd \<Rightarrow> gwd" where
  "dep_release e i s =
     (case get_job s i of
        None \<Rightarrow> s
      | Some job \<Rightarrow>
          (if job_state job = GW_JOB_STATE_HOLD
           then case gw_job_set_state e GW_JOB_STATE_PENDING job s of
                  (job', s') \<Rightarrow> send (job_schedule_msg job' GW_REASON_NONE) (put i job' s')
           else s))"

definition dep_check_row :: "dm_env \<Rightarrow> int \<Rightarrow> nat \<Rightarrow> gwd \<Rightarrow> gwd" where
  "dep_check_row e jid i s =
     (case gd_deps s ! i of
        None \<Rightarrow> s
      | Some ds \<Rightarrow>
          (case dep_satisfy jid ds of
             (ds', all_done) \<Rightarrow>
               let s' = s\<lparr>gd_deps := (gd_deps s)[i := Some ds']\<rparr>
               in if all_done then dep_release e (int i) s' else s'))"

definition gw_job_pool_dep_check :: "dm_env \<Rightarrow> int \<Rightarrow> gwd \<Rightarrow> gwd" where
  "gw_job_pool_dep_check e jid s = fold (dep_check_row e jid) [0..<length (gd_deps s)] s"

definition dep_consistency_row :: "dm_env \<Rightarrow> nat \<Rightarrow> gwd \<Rightarrow> gwd" where
  "dep_consistency_row e i s =
     (case gd_deps s ! i of
        None \<Rightarrow> s
      | Some ds \<Rightarrow>
          (case dep_settle (gd_jobs s) ds of
             (ds', all_done) \<Rightarrow>
               let s' = s\<lparr>gd_deps := (gd_deps s)[i := Some ds']\<rparr>
               in if all_done then dep_release e (int i) s' else s'))"

definition gw_job_pool_dep_consistency :: "dm_env \<Rightarrow> gwd \<Rightarrow> gwd" where
  "gw_job_pool_dep_consistency e s = fold (dep_consistency_row e) [0..<length (gd_deps s)] s"

text \<open>After the reload of a scheduler: the pending jobs are announced again.\<close>

definition gw_job_pool_dm_recover :: "job_pool \<Rightarrow> sched_msg list" where
  "gw_job_pool_dm_recover jp =
     map (\<lambda>job. job_schedule_msg job GW_REASON_NONE)
       (filter (\<lambda>job. job_state job = GW_JOB_STATE_PENDING) (List.map_filter id (pool jp)))"

text \<open>
  After the reload of a transfer driver: every job restarts the transfer of its state. The
  transfer state of every job is reset, whatever it is doing.
\<close>

definition tm_recover_action :: "gw_job_state \<Rightarrow> dm_action option" where
  "tm_recover_action st =
     (case st of
        GW_JOB_STATE_PROLOG \<Rightarrow> Some DM_STATE_PROLOG
      | GW_JOB_STATE_EPILOG \<Rightarrow> Some DM_STATE_EPILOG
      | GW_JOB_STATE_EPILOG_STD \<Rightarrow> Some DM_STATE_EPILOG_STD
      | GW_JOB_STATE_MIGR_EPILOG \<Rightarrow> Some DM_STATE_MIGR_EPILOG
      | GW_JOB_STATE_EPILOG_RESTART \<Rightarrow> Some DM_STATE_EPILOG_RESTART
      | GW_JOB_STATE_EPILOG_FAIL \<Rightarrow> Some DM_STATE_EPILOG_FAIL
      | GW_JOB_STATE_KILL_EPILOG \<Rightarrow> Some DM_STATE_KILL_EPILOG
      | GW_JOB_STATE_STOP_EPILOG \<Rightarrow> Some DM_STATE_STOP_EPILOG
      | _ \<Rightarrow> None)"

definition tm_recover_job :: "nat \<Rightarrow> gwd \<Rightarrow> gwd" where
  "tm_recover_job i s =
     (case get_job s (int i) of
        None \<Rightarrow> s
      | Some job \<Rightarrow>
          (let s' = put (int i) (job\<lparr>tm_state := GW_TM_STATE_INIT\<rparr>) s
           in case tm_recover_action (job_state job) of
                None \<Rightarrow> s' | Some a \<Rightarrow> trigger_dm a (ARG_ID (job_id job)) s'))"

definition gw_job_pool_tm_recover :: "gwd \<Rightarrow> gwd" where
  "gw_job_pool_tm_recover s = fold tm_recover_job [0..<length (pool (gd_jobs s))] s"

text \<open>
  After the reload of an execution driver: the jobs it was executing are recovered by their
  contact (a parameter here: \<open>gw_job_recover_get_contact\<close> reads it from a file), or reported as
  failed when there is none. A driver is one of a user, so it is a user and a name.
\<close>

definition em_recover_job ::
  "int \<Rightarrow> string \<Rightarrow> (gw_job \<Rightarrow> string option) \<Rightarrow> nat \<Rightarrow> gwd \<Rightarrow> gwd" where
  "em_recover_job uid em contact i s =
     (case get_job s (int i) of
        None \<Rightarrow> s
      | Some job \<Rightarrow>
          (case history job of
             [] \<Rightarrow> s
           | h # _ \<Rightarrow>
               (if user_id job = uid \<and> h_em_mad h = em \<and> job_state job = GW_JOB_STATE_WRAPPER
                then case contact job of
                       Some c \<Rightarrow> to_mad (EM_MAD_RECOVER em (job_id job) c) s
                     | None \<Rightarrow> trigger_em EM_STATE_FAILED (job_id job) s
                else s)))"

definition gw_job_pool_em_recover ::
  "int \<Rightarrow> string \<Rightarrow> (gw_job \<Rightarrow> string option) \<Rightarrow> gwd \<Rightarrow> gwd" where
  "gw_job_pool_em_recover uid em contact s =
     fold (em_recover_job uid em contact) [0..<length (pool (gd_jobs s))] s"

section \<open>Removing a task from its array\<close>

text \<open>
  The end of the kill handlers and of the zombie handler: the task is deleted from its array,
  and the array is freed with its last task.
\<close>

definition drop_task :: "int \<Rightarrow> int \<Rightarrow> gwd \<Rightarrow> gwd" where
  "drop_task aid tid s =
     (if aid = -1 then s
      else case gw_array_pool_get_array (gd_arrays s) aid of
             None \<Rightarrow> s
           | Some a \<Rightarrow>
               (case gw_array_del_task tid a of
                  (a', rt) \<Rightarrow>
                    let ap = (gd_arrays s)\<lparr>arrays := slot_put (arrays (gd_arrays s)) aid (Some a')\<rparr>
                    in if rt = 0 then s\<lparr>gd_arrays := gw_array_pool_array_free aid ap\<rparr>
                       else s\<lparr>gd_arrays := ap\<rparr>))"

end
