(* ===== verification/DM_States.thy ===== *)
theory DM_States
  imports GW_Sys
begin

text \<open>
  The handlers that end an execution: \<open>src/dm/gw_dm_state_pending.c\<close>,
  \<open>src/dm/gw_dm_state_failed.c\<close>, \<open>src/dm/gw_dm_state_stopped.c\<close> and
  \<open>src/dm/gw_dm_state_zombie.c\<close>. The usage report of \<open>gw_job_send_usage\<close> is output only.
\<close>

definition user_dec_running :: "int \<Rightarrow> gwd \<Rightarrow> gwd" where
  "user_dec_running uid s = user_op (gw_user_pool_dec_running_jobs uid) s"

definition failure_reason :: "gw_history \<Rightarrow> bool" where
  "failure_reason h \<longleftrightarrow> reason h = GW_REASON_EXECUTION_ERROR \<or> reason h = GW_REASON_PERFORMANCE"

text \<open>The report of a failed execution to the scheduler.\<close>

definition report_failed :: "gw_job \<Rightarrow> gw_history \<Rightarrow> gwd \<Rightarrow> gwd option" where
  "report_failed job h s =
     (if failure_reason h
      then do { hid \<leftarrow> hist_host_id h s; Some (send (JOB_FAILED hid (user_id job) (reason h)) s) }
      else Some s)"

definition gw_dm_failed :: "dm_env \<Rightarrow> int option \<Rightarrow> gwd \<Rightarrow> gwd option" where
  "gw_dm_failed e = with_job no_job (\<lambda>jid job s.
     case gw_job_set_state e GW_JOB_STATE_FAILED job s of
       (job, s) \<Rightarrow> do {
         let job = job\<lparr>exit_time := now e\<rparr>;
         let s = put jid job s;
         let s = (if client_waiting job > 0 then trigger_rm RM_WAIT_SUCCESS (ARG_ID jid) s else s);
         let s = user_dec_running (user_id job) s;
         h \<leftarrow> hist_top job;
         s \<leftarrow> host_op gw_host_dec_rjobs (h_host h) s;
         report_failed job h s
       })"

text \<open>
  The history is dereferenced (to give back the host) before it is tested for NULL, so the
  other branch of that test is never taken.
\<close>

definition gw_dm_pending :: "dm_env \<Rightarrow> int option \<Rightarrow> gwd \<Rightarrow> gwd option" where
  "gw_dm_pending e = with_job no_job (\<lambda>jid job s.
     case gw_job_set_state e GW_JOB_STATE_PENDING job s of
       (job, s) \<Rightarrow> do {
         let s = user_dec_running (user_id job) s;
         h \<leftarrow> hist_top job;
         s \<leftarrow> host_op gw_host_dec_rjobs (h_host h) s;
         let job = job\<lparr>restarted := restarted job + 1\<rparr>;
         s \<leftarrow> report_failed job h (put jid job s);
         Some (send (JOB_SCHEDULE jid (array_id job) (user_id job) GW_REASON_NONE) s)
       })"

definition gw_dm_stopped :: "dm_env \<Rightarrow> int option \<Rightarrow> gwd \<Rightarrow> gwd option" where
  "gw_dm_stopped e = with_job no_job (\<lambda>jid job s.
     case gw_job_set_state e GW_JOB_STATE_STOPPED job s of
       (job, s) \<Rightarrow> do {
         let s = user_dec_running (user_id job) (put jid job s);
         h \<leftarrow> hist_top job;
         s \<leftarrow> host_op gw_host_dec_rjobs (h_host h) s;
         Some (trigger_rm RM_STOP_SUCCESS (ARG_ID jid) s)
       })"

definition zombie_success_msg :: "dm_env \<Rightarrow> gw_job \<Rightarrow> gw_history \<Rightarrow> int \<Rightarrow> sched_msg" where
  "zombie_success_msg e job h hid =
     JOB_SUCCESS hid (user_id job)
       (gw_job_history_get_prolog_time (now e) (history job)
        + gw_job_history_get_epilog_time (now e) (history job))
       (stats h SUSPENSION_TIME) (stats h ACTIVE_TIME)"

definition gw_dm_zombie :: "dm_env \<Rightarrow> int option \<Rightarrow> gwd \<Rightarrow> gwd option" where
  "gw_dm_zombie e = with_job no_job (\<lambda>jid job s.
     case job_state job of
       GW_JOB_STATE_EPILOG \<Rightarrow>
         (case gw_job_set_state e GW_JOB_STATE_ZOMBIE job s of
            (job, s) \<Rightarrow> do {
              job \<leftarrow> upd_top (set_reason GW_REASON_NONE) job;
              let job = job\<lparr>exit_time := now e\<rparr>;
              let s = put jid job s;
              let s = (if client_waiting job > 0 then trigger_rm RM_WAIT_SUCCESS (ARG_ID jid) s
                       else if dispose e then trigger_dm DM_KILL (ARG_ID jid) s else s);
              let s = user_dec_running (user_id job) s;
              h \<leftarrow> hist_top job;
              s \<leftarrow> host_op gw_host_dec_rjobs (h_host h) s;
              hid \<leftarrow> hist_host_id h s;
              let s = send (zombie_success_msg e job h hid) s;
              Some (gw_job_pool_dep_check e jid s)
            })
     | GW_JOB_STATE_KILL_EPILOG \<Rightarrow>
         (case gw_job_set_state e GW_JOB_STATE_ZOMBIE job s of
            (job, s) \<Rightarrow> do {
              let job = job\<lparr>exit_time := now e\<rparr>;
              let s = user_dec_running (user_id job) (put jid job s);
              h \<leftarrow> hist_top job;
              s \<leftarrow> host_op gw_host_dec_rjobs (h_host h) s;
              let s = drop_task (array_id job) (task_id job) (gw_job_pool_free e jid s);
              Some (trigger_rm RM_KILL_SUCCESS (ARG_ID jid) s)
            })
     | _ \<Rightarrow> Some s)"

end
