(* ===== verification/DM_Wrapper.thy ===== *)
theory DM_Wrapper
  imports GW_Sys
begin

text \<open>
  The wrapper handlers of \<open>src/dm/gw_dm_state_wrappers.c\<close> and the migration handler of
  \<open>src/dm/gw_dm_state_migrate.c\<close>.
\<close>

definition gw_dm_pre_wrapper :: "dm_env \<Rightarrow> int option \<Rightarrow> gwd \<Rightarrow> gwd option" where
  "gw_dm_pre_wrapper e = with_job no_job (\<lambda>jid job s. do {
     job \<leftarrow> upd_top (set_stat PRE_WRAPPER_START_TIME (now e)) job;
     (case gw_job_set_state e GW_JOB_STATE_PRE_WRAPPER job s of
        (job, s) \<Rightarrow>
          Some (trigger_em EM_SUBMIT jid (put jid (job\<lparr>em_state := GW_EM_STATE_INIT\<rparr>) s)))
   })"

definition gw_dm_wrapper :: "dm_env \<Rightarrow> int option \<Rightarrow> gwd \<Rightarrow> gwd option" where
  "gw_dm_wrapper e = with_job no_job (\<lambda>jid job s. do {
     job \<leftarrow> upd_top (set_stat WRAPPER_START_TIME (now e)) job;
     (case gw_job_set_state e GW_JOB_STATE_WRAPPER job s of
        (job, s) \<Rightarrow>
          Some (trigger_em EM_SUBMIT jid (put jid (job\<lparr>em_state := GW_EM_STATE_INIT\<rparr>) s)))
   })"

text \<open>
  A pending request for rescheduling is withdrawn (also in the stop and kill handlers).
\<close>

definition withdraw_reschedule :: "gw_job \<Rightarrow> gwd \<Rightarrow> gw_job \<times> gwd" where
  "withdraw_reschedule job s =
     (if reschedule job then (job\<lparr>reschedule := False\<rparr>, send (JOB_DEL (job_id job)) s)
      else (job, s))"

text \<open>
  The end of a wrapper on the current host, common to three of the cases: the exit is stamped
  and the slots are given back.
\<close>

definition wrapper_leave_host :: "dm_env \<Rightarrow> gw_job \<Rightarrow> gwd \<Rightarrow> (gw_job \<times> gwd) option" where
  "wrapper_leave_host e job s = do {
     job \<leftarrow> upd_top (set_stat WRAPPER_EXIT_TIME (now e)) job;
     h \<leftarrow> hist_top job;
     s \<leftarrow> host_op (gw_host_dec_uslots (np (template job))) (h_host h) s;
     Some (job, s)
   }"

definition gw_dm_wrapper_done_cb :: "dm_env \<Rightarrow> int option \<Rightarrow> gwd \<Rightarrow> gwd option" where
  "gw_dm_wrapper_done_cb e = with_job no_job (\<lambda>jid job0 s.
     let job = job0\<lparr>em_state := GW_EM_STATE_INIT\<rparr> in
     (case job_state job of
        GW_JOB_STATE_PRE_WRAPPER \<Rightarrow> do {
          job \<leftarrow> upd_top (set_stat PRE_WRAPPER_EXIT_TIME (now e)) job;
          Some (trigger_dm DM_STATE_WRAPPER (ARG_ID jid) (put jid job s)) }
      | GW_JOB_STATE_WRAPPER \<Rightarrow> do {
          (job, s) \<leftarrow> wrapper_leave_host e job s;
          (case withdraw_reschedule job s of
             (job, s) \<Rightarrow> do {
               wbe \<leftarrow> gw_job_is_wrapper_based (gd_hosts s) job;
               Some (trigger_dm (if wbe then DM_STATE_EPILOG_STD else DM_STATE_EPILOG)
                       (ARG_ID jid) (put jid job s)) }) }
      | GW_JOB_STATE_STOP_CANCEL \<Rightarrow> do {
          (job, s) \<leftarrow> wrapper_leave_host e job s;
          Some (trigger_dm DM_STATE_STOP_EPILOG (ARG_ID jid) (put jid job s)) }
      | GW_JOB_STATE_KILL_CANCEL \<Rightarrow> do {
          (job, s) \<leftarrow> wrapper_leave_host e job s;
          Some (trigger_dm DM_STATE_KILL_EPILOG (ARG_ID jid) (put jid job s)) }
      | GW_JOB_STATE_MIGR_CANCEL \<Rightarrow> do {
          job \<leftarrow> upd_next (set_stat WRAPPER_EXIT_TIME (now e)) job;
          h \<leftarrow> hist_next job;
          s \<leftarrow> host_op (gw_host_dec_uslots (np (template job))) (h_host h) s;
          Some (trigger_dm DM_STATE_MIGR_PROLOG (ARG_ID jid) (put jid job s)) }
      | _ \<Rightarrow> Some (put jid job s)))"

text \<open>
  The failure callback: an unexpected state is only logged, and the slots of the current host
  are given back whatever the state was.
\<close>

definition gw_dm_wrapper_failed_cb :: "dm_env \<Rightarrow> int option \<Rightarrow> gwd \<Rightarrow> gwd option" where
  "gw_dm_wrapper_failed_cb e = with_job no_job (\<lambda>jid job0 s.
     let job = job0\<lparr>em_state := GW_EM_STATE_INIT\<rparr> in do {
       (job, s) \<leftarrow> (case job_state job of
          GW_JOB_STATE_PRE_WRAPPER \<Rightarrow> do {
            job \<leftarrow> upd_top (set_stat PRE_WRAPPER_EXIT_TIME (now e)) job;
            Some (job, s) }
        | GW_JOB_STATE_WRAPPER \<Rightarrow> do {
            job \<leftarrow> upd_top (set_stat WRAPPER_EXIT_TIME (now e)) job;
            Some (withdraw_reschedule job s) }
        | _ \<Rightarrow> Some (job, s));
       (job, s) \<leftarrow> (case history job of
          [] \<Rightarrow> Some (job, s)
        | h # _ \<Rightarrow> do {
            job \<leftarrow> upd_top (set_reason GW_REASON_EXECUTION_ERROR) job;
            s \<leftarrow> host_op (gw_host_dec_uslots (np (template job))) (h_host h) s;
            Some (job, s) });
       Some (trigger_dm DM_STATE_EPILOG_FAIL (ARG_ID jid) (put jid job s))
     })"

definition gw_dm_migr_cancel :: "dm_env \<Rightarrow> int option \<Rightarrow> gwd \<Rightarrow> gwd option" where
  "gw_dm_migr_cancel e = with_job no_job (\<lambda>jid job s.
     if job_state job = GW_JOB_STATE_WRAPPER \<and> em_state job \<noteq> GW_EM_STATE_DONE
     then do {
       job \<leftarrow> upd_top (set_stat MIGRATION_START_TIME (now e)) job;
       (case gw_job_set_state e GW_JOB_STATE_MIGR_CANCEL job s of
          (job, s) \<Rightarrow> Some (trigger_em EM_CANCEL jid (put jid job s)))
     }
     else Some s)"

end
