(* ===== verification/DM_Actions.thy ===== *)
theory DM_Actions
  imports DM_Wrapper
begin

text \<open>
  The actions that clients request through the request manager:
  \<open>src/dm/gw_dm_action_kill.c\<close>, \<open>gw_dm_action_hold_release.c\<close>, \<open>gw_dm_action_stop_resume.c\<close>,
  \<open>gw_dm_action_reschedule.c\<close>, \<open>gw_dm_action_wait.c\<close> and \<open>gw_dm_action_allocate.c\<close>. A request
  for a job that does not exist is answered with a failure.
\<close>

definition refuse :: "rm_action \<Rightarrow> int \<Rightarrow> gwd \<Rightarrow> gwd" where
  "refuse a jid s = trigger_rm a (ARG_ID jid) s"

section \<open>Hold and release\<close>

definition gw_dm_hold :: "dm_env \<Rightarrow> int option \<Rightarrow> gwd \<Rightarrow> gwd option" where
  "gw_dm_hold e = with_job (refuse RM_HOLD_FAILED) (\<lambda>jid job s.
     case job_state job of
       GW_JOB_STATE_PENDING \<Rightarrow>
         (case gw_job_set_state e GW_JOB_STATE_HOLD job s of
            (job, s) \<Rightarrow>
              Some (send (JOB_DEL (job_id job))
                (trigger_rm RM_HOLD_SUCCESS (ARG_ID jid) (put jid job s))))
     | _ \<Rightarrow> Some (refuse RM_HOLD_FAILED jid s))"

definition gw_dm_release :: "dm_env \<Rightarrow> int option \<Rightarrow> gwd \<Rightarrow> gwd option" where
  "gw_dm_release e = with_job (refuse RM_RELEASE_FAILED) (\<lambda>jid job s.
     case job_state job of
       GW_JOB_STATE_HOLD \<Rightarrow>
         (case gw_job_set_state e GW_JOB_STATE_PENDING job s of
            (job, s) \<Rightarrow>
              Some (send (JOB_SCHEDULE jid (array_id job) (user_id job) GW_REASON_NONE)
                (trigger_rm RM_RELEASE_SUCCESS (ARG_ID jid) (put jid job s))))
     | _ \<Rightarrow> Some (refuse RM_RELEASE_FAILED jid s))"

section \<open>Stop and resume\<close>

text \<open>\<open>if (job->history != NULL) job->history->reason = ...\<close>\<close>

definition note_reason :: "gw_migration_reason \<Rightarrow> gw_job \<Rightarrow> gw_job" where
  "note_reason r job =
     job\<lparr>history := (case history job of [] \<Rightarrow> [] | h # hs \<Rightarrow> set_reason r h # hs)\<rparr>"

text \<open>Cancelling the execution of a job in \<open>WRAPPER\<close>, by a stop or a kill.\<close>

definition cancel_wrapper ::
  "dm_env \<Rightarrow> gw_migration_reason \<Rightarrow> gw_job_state \<Rightarrow> int \<Rightarrow> gw_job \<Rightarrow> gwd \<Rightarrow> gwd" where
  "cancel_wrapper e r st jid job s =
     (case gw_job_set_state e st (note_reason r job) s of
        (job, s) \<Rightarrow>
          (case withdraw_reschedule job s of
             (job, s) \<Rightarrow> trigger_em EM_CANCEL jid (put jid job s)))"

definition gw_dm_stop :: "dm_env \<Rightarrow> int option \<Rightarrow> gwd \<Rightarrow> gwd option" where
  "gw_dm_stop e = with_job (refuse RM_STOP_FAILED) (\<lambda>jid job s.
     case job_state job of
       GW_JOB_STATE_STOPPED \<Rightarrow> Some (refuse RM_STOP_FAILED jid s)
     | GW_JOB_STATE_WRAPPER \<Rightarrow>
         Some (cancel_wrapper e GW_REASON_STOP_RESUME GW_JOB_STATE_STOP_CANCEL jid job s)
     | _ \<Rightarrow> Some (refuse RM_STOP_FAILED jid s))"

definition gw_dm_resume :: "dm_env \<Rightarrow> int option \<Rightarrow> gwd \<Rightarrow> gwd option" where
  "gw_dm_resume e = with_job (refuse RM_RESUME_FAILED) (\<lambda>jid job s.
     case job_state job of
       GW_JOB_STATE_STOPPED \<Rightarrow>
         (case gw_job_set_state e GW_JOB_STATE_PENDING (job\<lparr>restarted := restarted job + 1\<rparr>) s of
            (job, s) \<Rightarrow>
              (let job = job\<lparr>tm_state := GW_TM_STATE_INIT, em_state := GW_EM_STATE_INIT\<rparr> in
               Some (send (JOB_SCHEDULE jid (array_id job) (user_id job) GW_REASON_NONE)
                 (trigger_rm RM_RESUME_SUCCESS (ARG_ID jid) (put jid job s)))))
     | _ \<Rightarrow> Some (refuse RM_RESUME_FAILED jid s))"

section \<open>Kill\<close>

definition killable_now :: "gw_job_state \<Rightarrow> bool" where
  "killable_now st \<longleftrightarrow> st \<in> {GW_JOB_STATE_INIT, GW_JOB_STATE_PENDING, GW_JOB_STATE_HOLD,
     GW_JOB_STATE_STOPPED, GW_JOB_STATE_FAILED, GW_JOB_STATE_ZOMBIE}"

text \<open>The end of both kills: the job and its task are removed.\<close>

definition kill_free :: "dm_env \<Rightarrow> int \<Rightarrow> gw_job \<Rightarrow> gwd \<Rightarrow> gwd" where
  "kill_free e jid job s =
     trigger_rm RM_KILL_SUCCESS (ARG_ID jid)
       (drop_task (array_id job) (task_id job) (gw_job_pool_free e jid (put jid job s)))"

text \<open>The exit time is not stamped again for a job that had failed or ended.\<close>

definition idle_exit_time :: "dm_env \<Rightarrow> gw_job \<Rightarrow> gw_job" where
  "idle_exit_time e job =
     (if job_state job = GW_JOB_STATE_FAILED \<or> job_state job = GW_JOB_STATE_ZOMBIE then job
      else job\<lparr>exit_time := now e\<rparr>)"

definition gw_dm_kill :: "dm_env \<Rightarrow> int option \<Rightarrow> gwd \<Rightarrow> gwd option" where
  "gw_dm_kill e = with_job (refuse RM_KILL_FAILED) (\<lambda>jid job s.
     if killable_now (job_state job)
     then Some (kill_free e jid (idle_exit_time e job) s)
     else if job_state job = GW_JOB_STATE_WRAPPER
     then Some (cancel_wrapper e GW_REASON_KILL GW_JOB_STATE_KILL_CANCEL jid job s)
     else Some (refuse RM_KILL_FAILED jid s))"

text \<open>
  The hard kill gives the counters of the hosts back according to the state, falling through
  the cases of its switch. \<open>kill_hard_end\<close> is the common end of the transfer states and
  \<open>kill_hard_em\<close> that of the cancel states.
\<close>

definition kill_hard_end :: "dm_env \<Rightarrow> gw_job \<Rightarrow> gwd \<Rightarrow> (gw_job \<times> gwd) option" where
  "kill_hard_end e job s = do {
     h \<leftarrow> hist_top job;
     s \<leftarrow> host_op gw_host_dec_rjobs (h_host h) s;
     job \<leftarrow> upd_top (set_stat EXIT_TIME (now e)) (job\<lparr>exit_time := now e\<rparr>);
     Some (job\<lparr>tm_state := GW_TM_STATE_HARD_KILL\<rparr>,
           to_mad (TM_MAD_END (h_tm_mad h) (job_id job)) s)
   }"

definition kill_hard_reason :: "dm_env \<Rightarrow> gw_job \<Rightarrow> gwd \<Rightarrow> (gw_job \<times> gwd) option" where
  "kill_hard_reason e job s = do {
     job \<leftarrow> upd_top (set_reason GW_REASON_KILL) job;
     kill_hard_end e job s
   }"

definition kill_hard_prolog :: "dm_env \<Rightarrow> gw_job \<Rightarrow> gwd \<Rightarrow> (gw_job \<times> gwd) option" where
  "kill_hard_prolog e job s = do {
     h \<leftarrow> hist_top job;
     s \<leftarrow> host_op (gw_host_dec_uslots (np (template job))) (h_host h) s;
     kill_hard_reason e job s
   }"

definition kill_hard_migr :: "dm_env \<Rightarrow> gw_job \<Rightarrow> gwd \<Rightarrow> (gw_job \<times> gwd) option" where
  "kill_hard_migr e job s = do {
     h \<leftarrow> hist_next job;
     s \<leftarrow> host_op gw_host_dec_rjobs (h_host h) s;
     job \<leftarrow> upd_next (set_stat EXIT_TIME (now e)) job;
     kill_hard_prolog e job s
   }"

definition kill_hard_em :: "dm_env \<Rightarrow> gw_job \<Rightarrow> gwd \<Rightarrow> (gw_job \<times> gwd) option" where
  "kill_hard_em e job s = do {
     h \<leftarrow> hist_top job;
     s \<leftarrow> host_op (gw_host_dec_slots (np (template job))) (h_host h) s;
     job \<leftarrow> upd_top (set_stat EXIT_TIME (now e)) (job\<lparr>exit_time := now e\<rparr>);
     Some (job\<lparr>em_state := GW_EM_STATE_HARD_KILL\<rparr>, s)
   }"

definition kill_hard_wrapper :: "dm_env \<Rightarrow> gw_job \<Rightarrow> gwd \<Rightarrow> (gw_job \<times> gwd) option" where
  "kill_hard_wrapper e job s = do {
     job \<leftarrow> upd_top (set_reason GW_REASON_KILL) job;
     h \<leftarrow> hist_top job;
     (job, s) \<leftarrow> kill_hard_em e job s;
     Some (job, to_mad (EM_MAD_CANCEL (h_em_mad h) (job_id job)) s)
   }"

definition kill_hard_migr_cancel :: "dm_env \<Rightarrow> gw_job \<Rightarrow> gwd \<Rightarrow> (gw_job \<times> gwd) option" where
  "kill_hard_migr_cancel e job s = do {
     h \<leftarrow> hist_next job;
     s \<leftarrow> host_op (gw_host_dec_slots (np (template job))) (h_host h) s;
     job \<leftarrow> upd_next (set_stat EXIT_TIME (now e)) job;
     job \<leftarrow> upd_top (set_reason GW_REASON_KILL) job;
     kill_hard_em e job s
   }"

definition gw_dm_kill_hard :: "dm_env \<Rightarrow> int option \<Rightarrow> gwd \<Rightarrow> gwd option" where
  "gw_dm_kill_hard e = with_job (refuse RM_KILL_FAILED) (\<lambda>jid job s.
     case job_state job of
       GW_JOB_STATE_LIMIT \<Rightarrow> Some (refuse RM_KILL_FAILED jid s)
     | st \<Rightarrow> do {
         (job, s) \<leftarrow>
           (if st = GW_JOB_STATE_MIGR_PROLOG \<or> st = GW_JOB_STATE_MIGR_EPILOG
            then kill_hard_migr e job s
            else if st = GW_JOB_STATE_PROLOG then kill_hard_prolog e job s
            else if st = GW_JOB_STATE_EPILOG \<or> st = GW_JOB_STATE_EPILOG_STD
                    \<or> st = GW_JOB_STATE_EPILOG_RESTART \<or> st = GW_JOB_STATE_EPILOG_FAIL
            then kill_hard_reason e job s
            else if st = GW_JOB_STATE_STOP_EPILOG \<or> st = GW_JOB_STATE_KILL_EPILOG
            then kill_hard_end e job s
            else if st = GW_JOB_STATE_PRE_WRAPPER \<or> st = GW_JOB_STATE_WRAPPER
            then kill_hard_wrapper e job s
            else if st = GW_JOB_STATE_MIGR_CANCEL then kill_hard_migr_cancel e job s
            else if st = GW_JOB_STATE_STOP_CANCEL \<or> st = GW_JOB_STATE_KILL_CANCEL
            then kill_hard_em e job s
            else Some (idle_exit_time e job, s));
         Some (kill_free e jid job s)
       })"

section \<open>Reschedule and wait\<close>

definition gw_dm_reschedule :: "dm_env \<Rightarrow> int option \<Rightarrow> gwd \<Rightarrow> gwd option" where
  "gw_dm_reschedule e = with_job (refuse RM_RESCHEDULE_FAILED) (\<lambda>jid job s.
     case job_state job of
       GW_JOB_STATE_WRAPPER \<Rightarrow> do {
         job \<leftarrow> upd_top (set_reason GW_REASON_USER_REQUESTED) (job\<lparr>reschedule := True\<rparr>);
         Some (send (JOB_SCHEDULE jid (array_id job) (user_id job) GW_REASON_USER_REQUESTED)
           (trigger_rm RM_RESCHEDULE_SUCCESS (ARG_ID jid) (put jid job s))) }
     | GW_JOB_STATE_FAILED \<Rightarrow>
         (case gw_job_set_state e GW_JOB_STATE_PENDING job s of
            (job, s) \<Rightarrow> do {
              job \<leftarrow> upd_top (set_reason GW_REASON_USER_REQUESTED)
                       (job\<lparr>tm_state := GW_TM_STATE_INIT, em_state := GW_EM_STATE_INIT\<rparr>);
              let job = job\<lparr>restarted := restarted job + 1\<rparr>;
              Some (send (JOB_SCHEDULE jid (array_id job) (user_id job) GW_REASON_NONE)
                (trigger_rm RM_RESCHEDULE_SUCCESS (ARG_ID jid) (put jid job s))) })
     | _ \<Rightarrow> Some (refuse RM_RESCHEDULE_FAILED jid s))"

definition gw_dm_wait :: "dm_env \<Rightarrow> int option \<Rightarrow> gwd \<Rightarrow> gwd option" where
  "gw_dm_wait e = with_job (refuse RM_WAIT_FAILED) (\<lambda>jid job s.
     let job = job\<lparr>client_waiting := client_waiting job + 1\<rparr>;
         s = put jid job s
     in if job_state job = GW_JOB_STATE_ZOMBIE \<or> job_state job = GW_JOB_STATE_FAILED
        then Some (trigger_rm RM_WAIT_SUCCESS (ARG_ID jid) s)
        else Some s)"

section \<open>Allocation of jobs and arrays\<close>

definition GW_RC_SUCCESS :: int where "GW_RC_SUCCESS = 0"
definition GW_RC_FAILED :: int where "GW_RC_FAILED = 1"
definition GW_RC_FAILED_BAD_JOB_ID :: int where "GW_RC_FAILED_BAD_JOB_ID = 3"
definition GW_RC_FAILED_BAD_ARRAY_ID :: int where "GW_RC_FAILED_BAD_ARRAY_ID = 4"
definition GW_RC_FAILED_NO_MEMORY :: int where "GW_RC_FAILED_NO_MEMORY = 7"
definition GW_RC_FAILED_USER :: int where "GW_RC_FAILED_USER = 12"

definition answer_submit :: "submit_msg \<Rightarrow> int \<Rightarrow> gwd \<Rightarrow> gwd" where
  "answer_submit m rc s = trigger_rm RM_SUBMIT (ARG_MSG (m\<lparr>sm_rc := rc\<rparr>)) s"

text \<open>
  The registration of the user: whether one was added, and either its identifier (\<open>Inr\<close>) or
  the refusal (\<open>Inl\<close>).
\<close>

definition submit_user ::
  "dm_env \<Rightarrow> submit_msg \<Rightarrow> gwd \<Rightarrow> (gwd + gwd \<times> bool \<times> int) option" where
  "submit_user e m s =
     (case gw_user_pool_exists (gd_users s) (sm_owner m) (sm_proxy_path m) of
        (True, uid) \<Rightarrow> Some (Inr (s, False, uid))
      | (False, _) \<Rightarrow> do {
          (up, msgs, rc, uid) \<leftarrow> gw_user_pool_user_allocate (env_user e) (sm_owner m)
                                   (sm_proxy_path m) (gd_users s);
          let s = sends msgs (s\<lparr>gd_users := up\<rparr>);
          Some (if rc \<noteq> 0 then Inl (answer_submit m GW_RC_FAILED_USER s)
                else Inr (s, True, uid)) })"

definition submit_fill :: "dm_env \<Rightarrow> submit_msg \<Rightarrow> gw_job \<Rightarrow> gw_job \<times> int" where
  "submit_fill e m job = gw_job_fill (env_fill e) (sm_owner m) (sm_jt m) job"

text \<open>The initial state and the attributes that the submission sets.\<close>

definition submit_state :: "submit_msg \<Rightarrow> gw_job_state" where
  "submit_state m =
     (if sm_init_state m = GW_JOB_STATE_PENDING then GW_JOB_STATE_PENDING
      else GW_JOB_STATE_HOLD)"

definition submit_attrs :: "submit_msg \<Rightarrow> int \<Rightarrow> gw_job \<Rightarrow> gw_job" where
  "submit_attrs m uid job =
     job\<lparr>tm_state := GW_TM_STATE_INIT, em_state := GW_EM_STATE_INIT, user_id := uid,
         fixed_priority := sm_fixed_priority m\<rparr>"

definition submit_deps :: "submit_msg \<Rightarrow> int \<Rightarrow> gwd \<Rightarrow> gwd" where
  "submit_deps m jid s =
     (if ct_job_deps (sm_jt m) \<noteq> []
      then s\<lparr>gd_deps := gw_job_pool_dep_set jid (ct_job_deps (sm_jt m)) (gd_deps s)\<rparr> else s)"

definition gw_dm_jalloc :: "dm_env \<Rightarrow> submit_msg \<Rightarrow> gwd \<Rightarrow> gwd option" where
  "gw_dm_jalloc e m s = do {
     u \<leftarrow> submit_user e m s;
     (case u of
        Inl s \<Rightarrow> Some s
      | Inr (s, useradd, uid) \<Rightarrow> do {
          (jp, jid) \<leftarrow> gw_job_pool_allocate (now e) (gd_jobs s);
          let s = s\<lparr>gd_jobs := jp\<rparr>;
          (if jid = -1 then Some (answer_submit m GW_RC_FAILED_NO_MEMORY s)
           else case get_job s jid of
             None \<Rightarrow> Some (answer_submit m GW_RC_FAILED_BAD_JOB_ID s)
           | Some job \<Rightarrow>
               (case submit_fill e m job of
                  (job, rc) \<Rightarrow>
                    (if rc = -1
                     then Some (answer_submit m GW_RC_FAILED
                                 (gw_job_pool_free e jid (put jid job s)))
                     else case gw_job_set_state e (submit_state m) job s of
                       (job, s) \<Rightarrow>
                         (let s = submit_deps m jid (put jid (submit_attrs m uid job) s);
                              s = (if useradd then s else user_op (gw_user_pool_inc_jobs uid 1) s);
                              s = answer_submit (m\<lparr>sm_array_id := -1, sm_job_id := jid\<rparr>)
                                    GW_RC_SUCCESS s
                          in Some (if sm_init_state m = GW_JOB_STATE_PENDING
                                   then send (JOB_SCHEDULE jid (-1) uid GW_REASON_NONE) s
                                   else s))))) })
   }"

text \<open>
  The tasks of an array. The job is filled before the test for NULL, so a missing job is
  undefined behaviour and the branch of that test is never taken; the result of the filling is
  ignored.
\<close>

fun aalloc_tasks :: "dm_env \<Rightarrow> submit_msg \<Rightarrow> int \<Rightarrow> int \<Rightarrow> int list \<Rightarrow> gwd \<Rightarrow> gwd option" where
  "aalloc_tasks e m aid uid [] s = Some s"
| "aalloc_tasks e m aid uid (jid # jids) s = do {
     job \<leftarrow> get_job s jid;
     (case gw_job_set_state e (submit_state m) (fst (submit_fill e m job)) s of
        (job, s) \<Rightarrow> do {
          let job = (submit_attrs m uid job)\<lparr>pstart := sm_pstart m, pinc := sm_pinc m\<rparr>;
          let s = put jid job s;
          let s = (if sm_init_state m = GW_JOB_STATE_PENDING
                   then send (JOB_SCHEDULE jid aid uid GW_REASON_NONE) s else s);
          aalloc_tasks e m aid uid jids (submit_deps m jid s) })
   }"

definition gw_dm_aalloc :: "dm_env \<Rightarrow> submit_msg \<Rightarrow> gwd \<Rightarrow> gwd option" where
  "gw_dm_aalloc e m s = do {
     u \<leftarrow> submit_user e m s;
     (case u of
        Inl s \<Rightarrow> Some s
      | Inr (s, useradd, uid) \<Rightarrow> do {
          (ap, jp, rc, aid) \<leftarrow> gw_array_pool_array_allocate (now e) (sm_number_of_tasks m)
                                 (gd_arrays s) (gd_jobs s);
          let s = s\<lparr>gd_arrays := ap, gd_jobs := jp\<rparr>;
          (if rc \<noteq> 0 then Some (answer_submit m GW_RC_FAILED_NO_MEMORY s)
           else case gw_array_pool_get_array (gd_arrays s) aid of
             None \<Rightarrow> Some (answer_submit m GW_RC_FAILED_BAD_ARRAY_ID s)
           | Some a \<Rightarrow> do {
               s \<leftarrow> aalloc_tasks e m aid uid (take (nat (sm_number_of_tasks m)) (job_ids a)) s;
               let s = user_op (gw_user_pool_inc_jobs uid
                         (sm_number_of_tasks m - (if useradd then 1 else 0))) s;
               Some (answer_submit (m\<lparr>sm_array_id := aid\<rparr>) GW_RC_SUCCESS s) }) })
   }"

end
