(* ===== verification/DM_Prolog.thy ===== *)
theory DM_Prolog
  imports GW_Sys
begin

text \<open>
  The prolog handlers of \<open>src/dm/gw_dm_state_prologs.c\<close>: entering the states \<open>PROLOG\<close> and
  \<open>MIGR_PROLOG\<close>, the two callbacks of the transfer manager, and the list of files to stage in.
  The URLs go through buffers of 512 characters, so they are cut at 511.
\<close>

definition url512 :: "string \<Rightarrow> string" where
  "url512 u = take 511 u"

section \<open>The files of a prolog\<close>

definition xfr_set ::
  "string \<Rightarrow> string option \<Rightarrow> string option \<Rightarrow> char \<Rightarrow> gw_xfr \<Rightarrow> gw_xfr" where
  "xfr_set src dst alt m r =
     r\<lparr>src_url := Some src, dst_url := dst, alt_src_url := alt, xfr_mode := Some m\<rparr>"

text \<open>One optional file at the next index.\<close>

definition add_file ::
  "bool \<Rightarrow> string \<Rightarrow> string option \<Rightarrow> char \<Rightarrow> nat \<times> gw_xfrs \<Rightarrow> (nat \<times> gw_xfrs) option" where
  "add_file c src dst m = (\<lambda>(i, x).
     if c then do { x' \<leftarrow> xfr_write i (xfr_set src dst None m) x; Some (Suc i, x') }
     else Some (i, x))"

text \<open>The source of an input file is copied without a test: NULL is undefined behaviour.\<close>

fun write_inputs ::
  "(string option \<times> string option) list \<Rightarrow> nat \<times> gw_xfrs \<Rightarrow> (nat \<times> gw_xfrs) option" where
  "write_inputs [] ix = Some ix"
| "write_inputs (f # fs) ix = do {
     src \<leftarrow> fst f;
     ix' \<leftarrow> add_file True src (snd f) (CHR ''-'') ix;
     write_inputs fs ix'
   }"

fun write_restarts ::
  "bool \<Rightarrow> string \<Rightarrow> string option \<Rightarrow> string option list \<Rightarrow> nat \<times> gw_xfrs \<Rightarrow> (nat \<times> gw_xfrs) option"
where
  "write_restarts migr rd chk [] ix = Some ix"
| "write_restarts migr rd chk (f # fs) (i, x) =
     (let url = url512 (rd @ cstr f);
          alt_url = url512 (cstr chk @ cstr f)
      in do {
        x' \<leftarrow> xfr_write i
               (xfr_set (if migr then url else alt_url) None (if migr then Some alt_url else None)
                 (CHR ''-'')) x;
        write_restarts migr rd chk fs (Suc i, x')
      })"

definition prolog_num_xfrs :: "bool \<Rightarrow> gw_job \<Rightarrow> nat" where
  "prolog_num_xfrs wbe job =
     (let t = template job in
      (if wbe
       then length (input_files t) + 1 + of_bool (executable t \<noteq> None)
            + of_bool (stdin_file t \<noteq> None) + of_bool (pre_wrapper t \<noteq> None)
            + of_bool (wrapper t \<noteq> None) + of_bool (monitor t \<noteq> None)
       else length (input_files t) + of_bool (executable t \<noteq> None)
            + of_bool (stdin_file t \<noteq> None) + of_bool (pre_wrapper t \<noteq> None))
      + (if restarted job \<noteq> 0 \<and> length (restart_files t) > 0
         then length (restart_files t) else 0))"

definition gw_dm_prolog_set_files :: "host_pool \<Rightarrow> gw_job \<Rightarrow> gw_job option" where
  "gw_dm_prolog_set_files hp job = do {
     wbe \<leftarrow> gw_job_is_wrapper_based hp job;
     let t = template job;
     let x0 = gw_xfr_init (prolog_num_xfrs wbe job) (number_of_retries t);
     ix \<leftarrow> write_inputs (input_files t) (0, x0);
     ix \<leftarrow> add_file wbe (url512 (''file://'' @ directory job @ ''/job.env'')) None (CHR ''-'') ix;
     ix \<leftarrow> add_file (executable t \<noteq> None) (cstr (executable t)) None (CHR ''X'') ix;
     ix \<leftarrow> add_file (stdin_file t \<noteq> None) (cstr (stdin_file t)) (Some ''stdin.execution'')
             (CHR ''-'') ix;
     ix \<leftarrow> add_file (pre_wrapper t \<noteq> None) (cstr (pre_wrapper t)) None (CHR ''X'') ix;
     ix \<leftarrow> add_file wbe (url512 (''file://'' @ cstr (wrapper t))) (Some ''.wrapper'')
             (CHR ''X'') ix;
     (i, x) \<leftarrow> add_file (wbe \<and> monitor t \<noteq> None) (url512 (''file://'' @ cstr (monitor t)))
                 (Some ''.monitor'') (CHR ''X'') ix;
     let x = x\<lparr>failure_limit := int i\<rparr>;
     (i, x) \<leftarrow> (if restarted job \<noteq> 0 \<and> length (restart_files t) > 0
                then do {
                  h \<leftarrow> hist_next job;
                  write_restarts (job_state job = GW_JOB_STATE_MIGR_PROLOG) (rdir h)
                    (checkpoint_url t) (restart_files t) (i, x) }
                else Some (i, x));
     Some (job\<lparr>xfrs := x\<rparr>)
   }"

section \<open>The handlers\<close>

definition prolog_start :: "dm_env \<Rightarrow> gw_job \<Rightarrow> gw_job option" where
  "prolog_start e job =
     upd_top (set_stat PROLOG_START_TIME (now e) \<circ> set_stat START_TIME (now e)) job"

text \<open>The second step of both handlers.\<close>

definition prolog_signal :: "dm_env \<Rightarrow> int \<Rightarrow> gw_job \<Rightarrow> gwd \<Rightarrow> gwd option" where
  "prolog_signal e jid job s =
     (if environment_rc e = 0
      then do {
        job \<leftarrow> gw_dm_prolog_set_files (gd_hosts s) job;
        Some (trigger_tm TM_PROLOG jid (put jid job s))
      }
      else Some (trigger_dm DM_PROLOG_FAILED (ARG_ID jid) (put jid job s)))"

definition gw_dm_prolog :: "dm_env \<Rightarrow> int option \<Rightarrow> gwd \<Rightarrow> gwd option" where
  "gw_dm_prolog e = with_job no_job (\<lambda>jid job s.
     if job_state job \<noteq> GW_JOB_STATE_PROLOG
     then case gw_job_set_state e GW_JOB_STATE_PROLOG job s of
            (job, s) \<Rightarrow> do {
              job \<leftarrow> prolog_start e job;
              prolog_signal e jid job s
            }
     else prolog_signal e jid job s)"

definition gw_dm_migr_prolog :: "dm_env \<Rightarrow> int option \<Rightarrow> gwd \<Rightarrow> gwd option" where
  "gw_dm_migr_prolog e = with_job no_job (\<lambda>jid job s.
     case gw_job_set_state e GW_JOB_STATE_MIGR_PROLOG job s of
       (job, s) \<Rightarrow> do {
         job \<leftarrow> prolog_start e job;
         prolog_signal e jid job s
       })"

definition gw_dm_prolog_done_cb :: "dm_env \<Rightarrow> int option \<Rightarrow> gwd \<Rightarrow> gwd option" where
  "gw_dm_prolog_done_cb e = with_job no_job (\<lambda>jid job s. do {
     job \<leftarrow> upd_top (set_stat PROLOG_EXIT_TIME (now e)) job;
     let s = put jid job s;
     Some (case job_state job of
             GW_JOB_STATE_PROLOG \<Rightarrow>
               (if pre_wrapper (template job) \<noteq> None
                then trigger_dm DM_STATE_PRE_WRAPPER (ARG_ID jid) s
                else trigger_dm DM_STATE_WRAPPER (ARG_ID jid) s)
           | GW_JOB_STATE_MIGR_PROLOG \<Rightarrow> trigger_dm DM_STATE_MIGR_EPILOG (ARG_ID jid) s
           | _ \<Rightarrow> s)
   })"

text \<open>
  The failure callback. The history is dereferenced before the test for NULL further down, so
  that test never fails.
\<close>

definition gw_dm_prolog_failed_cb :: "dm_env \<Rightarrow> int option \<Rightarrow> gwd \<Rightarrow> gwd option" where
  "gw_dm_prolog_failed_cb e = with_job no_job (\<lambda>jid job s. do {
     job \<leftarrow> upd_top (set_stat EXIT_TIME (now e) \<circ> set_stat PROLOG_EXIT_TIME (now e)) job;
     (job, s) \<leftarrow> (if job_state job = GW_JOB_STATE_MIGR_PROLOG
                  then do {
                    job \<leftarrow> upd_top (set_stat MIGRATION_EXIT_TIME (now e)) job;
                    (case hist_next job of
                       None \<Rightarrow> Some (job, s)
                     | Some h \<Rightarrow> do {
                         job \<leftarrow> upd_next (set_stat EXIT_TIME (now e)) job;
                         s \<leftarrow> host_op gw_host_dec_rjobs (h_host h) s;
                         Some (job, s) }) }
                  else Some (job, s));
     job \<leftarrow> upd_top (set_reason GW_REASON_EXECUTION_ERROR) job;
     h \<leftarrow> hist_top job;
     s \<leftarrow> host_op (gw_host_dec_uslots (np (template job))) (h_host h) s;
     let s = put jid job s;
     Some (if reschedule_on_failure (template job)
           then trigger_dm DM_STATE_PENDING (ARG_ID jid) s
           else trigger_dm DM_STATE_FAILED (ARG_ID jid) s)
   })"

section \<open>The list of files is the one the template describes\<close>

type_synonym xfr_desc = "string \<times> string option \<times> string option \<times> char"

definition desc_xfr :: "int \<Rightarrow> xfr_desc \<Rightarrow> gw_xfr" where
  "desc_xfr t = (\<lambda>(src, dst, alt, m). xfr_set src dst alt m (xfr_blank t))"

text \<open>The reference: what has to be copied in, in order, and what a restart adds.\<close>

definition prolog_required :: "bool \<Rightarrow> gw_job \<Rightarrow> xfr_desc list" where
  "prolog_required wbe job =
     (let t = template job in
      map (\<lambda>f. (the (fst f), snd f, None, CHR ''-'')) (input_files t)
      @ (if wbe then [(url512 (''file://'' @ directory job @ ''/job.env''), None, None, CHR ''-'')]
         else [])
      @ (case executable t of None \<Rightarrow> [] | Some x \<Rightarrow> [(x, None, None, CHR ''X'')])
      @ (case stdin_file t of None \<Rightarrow> []
         | Some x \<Rightarrow> [(x, Some ''stdin.execution'', None, CHR ''-'')])
      @ (case pre_wrapper t of None \<Rightarrow> [] | Some x \<Rightarrow> [(x, None, None, CHR ''X'')])
      @ (if wbe
         then [(url512 (''file://'' @ cstr (wrapper t)), Some ''.wrapper'', None, CHR ''X'')]
         else [])
      @ (case monitor t of None \<Rightarrow> []
         | Some x \<Rightarrow> (if wbe then [(url512 (''file://'' @ x), Some ''.monitor'', None, CHR ''X'')]
                     else [])))"

definition restart_desc :: "bool \<Rightarrow> string \<Rightarrow> string option \<Rightarrow> string option \<Rightarrow> xfr_desc" where
  "restart_desc migr rd chk f =
     (if migr then url512 (rd @ cstr f) else url512 (cstr chk @ cstr f), None,
      if migr then Some (url512 (cstr chk @ cstr f)) else None, CHR ''-'')"

definition prolog_restart :: "gw_job \<Rightarrow> xfr_desc list" where
  "prolog_restart job =
     (if restarted job = 0 then []
      else let t = template job; rd = rdir (the (hist_next job)) in
        map (restart_desc (job_state job = GW_JOB_STATE_MIGR_PROLOG) rd (checkpoint_url t))
          (restart_files t))"

text \<open>A list of transfers whose first entries are written and whose \<open>m\<close> last are blank.\<close>

definition filled :: "int \<Rightarrow> int \<Rightarrow> xfr_desc list \<Rightarrow> nat \<Rightarrow> nat \<times> gw_xfrs" where
  "filled t l ds m = (length ds,
     \<lparr>failure_limit = l, xfr_list = map (desc_xfr t) ds @ replicate m (xfr_blank t)\<rparr>)"

lemma filled_write:
  "xfr_write (length ds) f (snd (filled t l ds (Suc m))) =
     Some \<lparr>failure_limit = l,
           xfr_list = map (desc_xfr t) ds @ f (xfr_blank t) # replicate m (xfr_blank t)\<rparr>"
  by (simp add: xfr_write_def filled_def nth_append list_update_append)

lemma add_file_filled:
  "add_file c src dst md (filled t l ds (of_bool c + m)) =
     Some (filled t l (ds @ (if c then [(src, dst, None, md)] else [])) m)"
proof (cases c)
  case True
  then show ?thesis
    using filled_write [of ds "xfr_set src dst None md" t l m]
    by (simp add: add_file_def filled_def desc_xfr_def)
next
  case False
  then show ?thesis by (simp add: add_file_def filled_def)
qed

lemma write_inputs_filled:
  "\<forall>f\<in>set fs. fst f \<noteq> None \<Longrightarrow>
   write_inputs fs (filled t l ds (length fs + m)) =
     Some (filled t l (ds @ map (\<lambda>f. (the (fst f), snd f, None, CHR ''-'')) fs) m)"
proof (induction fs arbitrary: ds)
  case Nil
  then show ?case by simp
next
  case (Cons f fs)
  then obtain src where "fst f = Some src" by auto
  with Cons show ?case
    using add_file_filled [of True src "snd f" "CHR ''-''" t l ds "length fs + m"] by simp
qed

lemma write_restarts_filled:
  "write_restarts migr rd chk fs (filled t l ds (length fs + m)) =
     Some (filled t l (ds @ map (restart_desc migr rd chk) fs) m)"
proof (induction fs arbitrary: ds)
  case Nil
  then show ?case by simp
next
  case (Cons f fs)
  have "write_restarts migr rd chk (f # fs) (filled t l ds (length (f # fs) + m)) =
      write_restarts migr rd chk fs (filled t l (ds @ [restart_desc migr rd chk f]) (length fs + m))"
    using filled_write [of ds _ t l "length fs + m"]
    by (simp add: filled_def Let_def restart_desc_def desc_xfr_def)
  then show ?case by (simp add: Cons.IH)
qed

lemma write_restarts_filled0:
  "write_restarts migr rd chk fs (filled t l ds (length fs)) =
     Some (filled t l (ds @ map (restart_desc migr rd chk) fs) 0)"
  using write_restarts_filled [of migr rd chk fs t l ds 0] by simp

lemma wrapper_based_wrapper: "gw_job_is_wrapper_based hp job = Some True \<Longrightarrow> wrapper (template job) \<noteq> None"
  by (auto simp: gw_job_is_wrapper_based_def bind_eq_Some_conv)

lemma prolog_set_files_spec:
  assumes "gw_job_is_wrapper_based hp job = Some wbe"
    and "\<forall>f\<in>set (input_files (template job)). fst f \<noteq> None"
    and "restarted job = 0 \<or> hist_next job \<noteq> None"
  shows "gw_dm_prolog_set_files hp job = Some (job\<lparr>xfrs :=
     \<lparr>failure_limit = int (length (prolog_required wbe job)),
      xfr_list = map (desc_xfr (number_of_retries (template job)))
                   (prolog_required wbe job @ prolog_restart job)\<rparr>\<rparr>)"
proof -
  let ?t = "template job"
  let ?r = "number_of_retries ?t"
  let ?m6 = "length (prolog_restart job)"
  let ?m5 = "of_bool (wbe \<and> monitor ?t \<noteq> None) + ?m6"
  let ?m4 = "of_bool wbe + ?m5"
  let ?m3 = "of_bool (pre_wrapper ?t \<noteq> None) + ?m4"
  let ?m2 = "of_bool (stdin_file ?t \<noteq> None) + ?m3"
  let ?m1 = "of_bool (executable ?t \<noteq> None) + ?m2"
  let ?m0 = "of_bool wbe + ?m1"
  have "wbe \<Longrightarrow> wrapper ?t \<noteq> None" using assms(1) wrapper_based_wrapper [of hp job] by simp
  then have n: "prolog_num_xfrs wbe job = length (input_files ?t) + ?m0"
    by (cases wbe) (simp_all add: prolog_num_xfrs_def prolog_restart_def Let_def)
  have x0: "(0, gw_xfr_init (length (input_files ?t) + ?m0) ?r) =
      filled ?r 0 [] (length (input_files ?t) + ?m0)"
    by (simp add: gw_xfr_init_def filled_def)
  have req: "gw_dm_prolog_set_files hp job =
     (case filled ?r 0 (prolog_required wbe job) ?m6 of (i, x) \<Rightarrow> do {
        (i, x) \<leftarrow> (if restarted job \<noteq> 0 \<and> length (restart_files ?t) > 0
                then do {
                  h \<leftarrow> hist_next job;
                  write_restarts (job_state job = GW_JOB_STATE_MIGR_PROLOG) (rdir h)
                    (checkpoint_url ?t) (restart_files ?t) (i, x\<lparr>failure_limit := int i\<rparr>) }
                else Some (i, x\<lparr>failure_limit := int i\<rparr>));
        Some (job\<lparr>xfrs := x\<rparr>) })"
    unfolding gw_dm_prolog_set_files_def
    by (simp only: assms(1) n x0 Let_def Option.bind.bind_lunit write_inputs_filled [OF assms(2)]
          add_file_filled)
       (simp add: prolog_required_def Let_def cstr_def split: option.split)
  have lim: "filled ?r 0 (prolog_required wbe job) ?m6 = (i, x) \<Longrightarrow>
      (i, x\<lparr>failure_limit := int i\<rparr>) =
      filled ?r (int (length (prolog_required wbe job))) (prolog_required wbe job) ?m6" for i x
    by (auto simp: filled_def)
  show ?thesis
  proof (cases "restarted job = 0 \<or> restart_files ?t = []")
    case True
    then have "prolog_restart job = []" by (auto simp: prolog_restart_def Let_def)
    with True show ?thesis by (auto simp: req filled_def)
  next
    case False
    then obtain h where h: "hist_next job = Some h" using assms(3) by auto
    have rs: "prolog_restart job = map (restart_desc (job_state job = GW_JOB_STATE_MIGR_PROLOG)
        (rdir h) (checkpoint_url ?t)) (restart_files ?t)"
      using False h by (simp add: prolog_restart_def Let_def)
    obtain i x where ix: "filled ?r 0 (prolog_required wbe job) ?m6 = (i, x)" by fastforce
    have "write_restarts (job_state job = GW_JOB_STATE_MIGR_PROLOG) (rdir h) (checkpoint_url ?t)
        (restart_files ?t) (i, x\<lparr>failure_limit := int i\<rparr>) =
        Some (filled ?r (int (length (prolog_required wbe job)))
               (prolog_required wbe job @ prolog_restart job) 0)"
      unfolding lim [OF ix] rs by (simp add: write_restarts_filled0)
    then show ?thesis
      unfolding req ix using False h by (simp add: filled_def)
  qed
qed

text \<open>
  C33: the staging list of a prolog never writes outside the array it allocates, fills every
  entry of it, and is exactly the list the template describes: the input files, the job
  environment, the executable, the standard input, the pre-wrapper, the wrapper and the
  monitor, in this order, and on a restart the restart files from the previous host or from
  the checkpoint server; only the restart files lie beyond the failure limit.
\<close>

theorem prolog_set_files_exact:
  assumes "gw_job_is_wrapper_based hp job = Some wbe"
    and "\<forall>f\<in>set (input_files (template job)). fst f \<noteq> None"
    and "restarted job = 0 \<or> hist_next job \<noteq> None"
  shows "gw_dm_prolog_set_files hp job = Some (job\<lparr>xfrs :=
     \<lparr>failure_limit = int (length (prolog_required wbe job)),
      xfr_list = map (desc_xfr (number_of_retries (template job)))
                   (prolog_required wbe job @ prolog_restart job)\<rparr>\<rparr>)"
  using assms by (rule prolog_set_files_spec)

theorem prolog_set_files_exact_witness:
  "gw_dm_prolog_set_files \<lparr>hosts = [], number_of_hosts = 0, last_host_id = -1\<rparr>
     ((gw_job_init 0 3)\<lparr>template := zero_template\<lparr>input_files := [(Some ''in.dat'', None)],
        executable := Some ''/bin/ls'', wrapper := Some ''w.sh''\<rparr>\<rparr>) = Some
     ((gw_job_init 0 3)\<lparr>template := zero_template\<lparr>input_files := [(Some ''in.dat'', None)],
        executable := Some ''/bin/ls'', wrapper := Some ''w.sh''\<rparr>,
        xfrs := \<lparr>failure_limit = 4, xfr_list = map (desc_xfr 0)
          [(''in.dat'', None, None, CHR ''-''),
           (url512 (''file://'' @ directory (gw_job_init 0 3) @ ''/job.env''), None, None, CHR ''-''),
           (''/bin/ls'', None, None, CHR ''X''),
           (url512 ''file://w.sh'', Some ''.wrapper'', None, CHR ''X'')]\<rparr>\<rparr>)"
proof -
  let ?hp = "\<lparr>hosts = [], number_of_hosts = 0, last_host_id = -1\<rparr> :: host_pool"
  let ?job = "(gw_job_init 0 3)\<lparr>template := zero_template\<lparr>input_files := [(Some ''in.dat'', None)],
        executable := Some ''/bin/ls'', wrapper := Some ''w.sh''\<rparr>\<rparr>"
  have w: "gw_job_is_wrapper_based ?hp ?job = Some True"
    by (simp add: gw_job_is_wrapper_based_def)
  have r: "restarted ?job = 0" by (simp add: gw_job_init_def Let_def)
  show ?thesis
    using prolog_set_files_exact [OF w] r
    by (simp add: prolog_required_def prolog_restart_def Let_def zero_template_def cstr_def)
qed

end
