(* ===== verification/DM_Epilog.thy ===== *)
theory DM_Epilog
  imports DM_Prolog
begin

text \<open>
  The epilog handlers of \<open>src/dm/gw_dm_state_epilogs.c\<close>: the seven epilog states, the two
  callbacks of the transfer manager, the lists of files to stage out, and the analysis of the
  wrapper's standard output.
\<close>

section \<open>The files of an epilog\<close>

text \<open>The epilog lists leave the mode of a transfer as it is.\<close>

definition xfr_out :: "string \<Rightarrow> string option \<Rightarrow> gw_xfr \<Rightarrow> gw_xfr" where
  "xfr_out src dst r = r\<lparr>src_url := Some src, dst_url := dst, alt_src_url := None\<rparr>"

definition put_file :: "string \<Rightarrow> string option \<Rightarrow> nat \<times> gw_xfrs \<Rightarrow> (nat \<times> gw_xfrs) option" where
  "put_file src dst = (\<lambda>(i, x). do { x' \<leftarrow> xfr_write i (xfr_out src dst) x; Some (Suc i, x') })"

definition mark_limit :: "nat \<times> gw_xfrs \<Rightarrow> nat \<times> gw_xfrs" where
  "mark_limit = (\<lambda>(i, x). (i, x\<lparr>failure_limit := int i\<rparr>))"

definition job_file :: "gw_job \<Rightarrow> string \<Rightarrow> string" where
  "job_file job name = url512 (''file://'' @ directory job @ ''/'' @ name @ ''.'' @ dec (restarted job))"

definition gw_dm_epilog_std_wrapper_files ::
  "gw_job \<Rightarrow> nat \<times> gw_xfrs \<Rightarrow> (nat \<times> gw_xfrs) option" where
  "gw_dm_epilog_std_wrapper_files job ix = do {
     ix \<leftarrow> put_file ''stdout.wrapper'' (Some (job_file job ''stdout.wrapper'')) (mark_limit ix);
     put_file ''stderr.wrapper'' (Some (job_file job ''stderr.wrapper'')) ix
   }"

definition gw_dm_epilog_std_files :: "gw_job \<Rightarrow> nat \<times> gw_xfrs \<Rightarrow> (nat \<times> gw_xfrs) option" where
  "gw_dm_epilog_std_files job ix = do {
     ix \<leftarrow> (case stdout_file (template job) of
              None \<Rightarrow> Some ix
            | Some f \<Rightarrow> put_file ''stdout.execution'' (Some f) (mark_limit ix));
     ix \<leftarrow> (case stderr_file (template job) of
              None \<Rightarrow> Some ix
            | Some f \<Rightarrow> put_file ''stderr.execution'' (Some f) (mark_limit ix));
     ix \<leftarrow> (if pre_wrapper (template job) = None then Some ix
            else do {
              ix \<leftarrow> put_file ''stdout.pre_wrapper'' (Some (job_file job ''stdout.pre_wrapper'')) ix;
              put_file ''stderr.pre_wrapper'' (Some (job_file job ''stderr.pre_wrapper'')) ix });
     (if monitor (template job) = None then Some ix
      else do {
        ix \<leftarrow> put_file ''stdout.monitor'' (Some (job_file job ''stdout.monitor'')) ix;
        put_file ''stderr.monitor'' (Some (job_file job ''stderr.monitor'')) ix })
   }"

fun put_outputs ::
  "(string option \<times> string option) list \<Rightarrow> nat \<times> gw_xfrs \<Rightarrow> (nat \<times> gw_xfrs) option" where
  "put_outputs [] ix = Some ix"
| "put_outputs (f # fs) ix = do {
     src \<leftarrow> fst f; ix' \<leftarrow> put_file src (snd f) ix; put_outputs fs ix' }"

definition gw_dm_epilog_output_files :: "gw_job \<Rightarrow> nat \<times> gw_xfrs \<Rightarrow> (nat \<times> gw_xfrs) option" where
  "gw_dm_epilog_output_files job ix = do {
     (i, x) \<leftarrow> put_outputs (output_files (template job)) ix;
     Some (i, x\<lparr>failure_limit := int (length (output_files (template job))) - 1\<rparr>)
   }"

fun put_restarts ::
  "string option \<Rightarrow> string option list \<Rightarrow> nat \<times> gw_xfrs \<Rightarrow> (nat \<times> gw_xfrs) option" where
  "put_restarts chk [] ix = Some ix"
| "put_restarts chk (f # fs) ix = do {
     src \<leftarrow> f;
     ix' \<leftarrow> put_file src (Some (url512 (cstr chk @ ''/'' @ src))) ix;
     put_restarts chk fs ix' }"

definition gw_dm_epilog_restart_files :: "gw_job \<Rightarrow> nat \<times> gw_xfrs \<Rightarrow> (nat \<times> gw_xfrs) option" where
  "gw_dm_epilog_restart_files job ix =
     put_restarts (checkpoint_url (template job)) (restart_files (template job)) ix"

definition std_xfrs :: "gw_job \<Rightarrow> nat" where
  "std_xfrs job =
     (let t = template job in
      of_bool (stdout_file t \<noteq> None) + of_bool (stderr_file t \<noteq> None)
      + 2 * of_bool (pre_wrapper t \<noteq> None) + 2 * of_bool (monitor t \<noteq> None))"

text \<open>A fresh list of \<open>n\<close> transfers with the failure limit -1, ready for index 0.\<close>

definition epilog_xfrs :: "nat \<Rightarrow> gw_job \<Rightarrow> nat \<times> gw_xfrs" where
  "epilog_xfrs n job =
     (0, (gw_xfr_init n (number_of_retries (template job)))\<lparr>failure_limit := -1\<rparr>)"

section \<open>Entering an epilog state\<close>

definition enter_epilog ::
  "dm_env \<Rightarrow> gw_job_state \<Rightarrow> gw_job \<Rightarrow> gwd \<Rightarrow> (gw_job \<times> gwd) option" where
  "enter_epilog e st job s =
     (if job_state job \<noteq> st
      then case gw_job_set_state e st job s of
             (job, s) \<Rightarrow> do {
               job \<leftarrow> upd_top (set_stat EPILOG_START_TIME (now e)) job;
               Some (job, s) }
      else Some (job, s))"

text \<open>Storing the list in the job and starting the transfers.\<close>

definition epilog_signal :: "int \<Rightarrow> gw_job \<Rightarrow> gw_xfrs \<Rightarrow> gwd \<Rightarrow> gwd" where
  "epilog_signal jid job x s = trigger_tm TM_EPILOG jid (put jid (job\<lparr>xfrs := x\<rparr>) s)"

definition gw_dm_epilog_std :: "dm_env \<Rightarrow> int option \<Rightarrow> gwd \<Rightarrow> gwd option" where
  "gw_dm_epilog_std e = with_job no_job (\<lambda>jid job s. do {
     (job, s) \<leftarrow> enter_epilog e GW_JOB_STATE_EPILOG_STD job s;
     (i, x) \<leftarrow> gw_dm_epilog_std_wrapper_files job (epilog_xfrs 2 job);
     Some (epilog_signal jid job x s)
   })"

definition gw_dm_migr_epilog :: "dm_env \<Rightarrow> int option \<Rightarrow> gwd \<Rightarrow> gwd option" where
  "gw_dm_migr_epilog e = with_job no_job (\<lambda>jid job s. do {
     (job, s) \<leftarrow> (if job_state job \<noteq> GW_JOB_STATE_MIGR_EPILOG
        then case gw_job_set_state e GW_JOB_STATE_MIGR_EPILOG job s of
               (job, s) \<Rightarrow> do {
                 job \<leftarrow> upd_next (set_stat EPILOG_START_TIME (now e)) job;
                 Some (job, s) }
        else Some (job, s));
     (i, x) \<leftarrow> gw_dm_epilog_std_files job (epilog_xfrs (std_xfrs job) job);
     Some (epilog_signal jid job x s)
   })"

definition gw_dm_stop_epilog :: "dm_env \<Rightarrow> int option \<Rightarrow> gwd \<Rightarrow> gwd option" where
  "gw_dm_stop_epilog e = with_job no_job (\<lambda>jid job s. do {
     (job, s) \<leftarrow> enter_epilog e GW_JOB_STATE_STOP_EPILOG job s;
     let chk = (tm_state job = GW_TM_STATE_CHECKPOINT);
     let n = std_xfrs job + (if chk then 0 else length (restart_files (template job)));
     ix \<leftarrow> gw_dm_epilog_std_files job (epilog_xfrs n job);
     (i, x) \<leftarrow> (if chk then Some ix else gw_dm_epilog_restart_files job ix);
     Some (epilog_signal jid job x s)
   })"

text \<open>
  The epilogs after a kill and after a failure only fetch the output of the wrapper; without a
  wrapper the destroyed list stays empty.
\<close>

definition wrapper_output_xfrs :: "gwd \<Rightarrow> gw_job \<Rightarrow> gw_xfrs option" where
  "wrapper_output_xfrs s job = do {
     wbe \<leftarrow> gw_job_is_wrapper_based (gd_hosts s) job;
     (if wbe
      then do {
        (i, x) \<leftarrow> gw_dm_epilog_std_wrapper_files job (epilog_xfrs 2 job);
        Some x }
      else Some (gw_xfr_destroy (xfrs job)))
   }"

definition gw_dm_kill_epilog :: "dm_env \<Rightarrow> int option \<Rightarrow> gwd \<Rightarrow> gwd option" where
  "gw_dm_kill_epilog e = with_job no_job (\<lambda>jid job s. do {
     (job, s) \<leftarrow> enter_epilog e GW_JOB_STATE_KILL_EPILOG job s;
     x \<leftarrow> wrapper_output_xfrs s job;
     Some (epilog_signal jid job x s)
   })"

definition gw_dm_epilog_fail :: "dm_env \<Rightarrow> int option \<Rightarrow> gwd \<Rightarrow> gwd option" where
  "gw_dm_epilog_fail e = with_job no_job (\<lambda>jid job s. do {
     (job, s) \<leftarrow> enter_epilog e GW_JOB_STATE_EPILOG_FAIL job s;
     x \<leftarrow> wrapper_output_xfrs s job;
     Some (epilog_signal jid job x s)
   })"

text \<open>The start of the epilog is stamped before the state changes, and not after \<open>EPILOG_STD\<close>.\<close>

definition gw_dm_epilog :: "dm_env \<Rightarrow> int option \<Rightarrow> gwd \<Rightarrow> gwd option" where
  "gw_dm_epilog e = with_job no_job (\<lambda>jid job s. do {
     job \<leftarrow> (if job_state job \<noteq> GW_JOB_STATE_EPILOG_STD \<and> job_state job \<noteq> GW_JOB_STATE_EPILOG
             then upd_top (set_stat EPILOG_START_TIME (now e)) job else Some job);
     (case (if job_state job \<noteq> GW_JOB_STATE_EPILOG
            then gw_job_set_state e GW_JOB_STATE_EPILOG job s else (job, s)) of
        (job, s) \<Rightarrow> do {
          let n = std_xfrs job + length (output_files (template job));
          ix \<leftarrow> gw_dm_epilog_output_files job (epilog_xfrs n job);
          (i, x) \<leftarrow> gw_dm_epilog_std_files job ix;
          Some (epilog_signal jid job x s) })
   })"

text \<open>Everything a restart needs, unless the checkpoint already has the restart files.\<close>

definition epilog_restart_xfrs :: "gw_job \<Rightarrow> (nat \<times> gw_xfrs) option" where
  "epilog_restart_xfrs job = do {
     let chk = (tm_state job = GW_TM_STATE_CHECKPOINT);
     let n = std_xfrs job + length (output_files (template job))
             + (if chk then 0 else length (restart_files (template job)));
     ix \<leftarrow> gw_dm_epilog_output_files job (epilog_xfrs n job);
     ix \<leftarrow> gw_dm_epilog_std_files job ix;
     (if chk then Some ix else gw_dm_epilog_restart_files job ix)
   }"

definition gw_dm_epilog_restart :: "dm_env \<Rightarrow> int option \<Rightarrow> gwd \<Rightarrow> gwd option" where
  "gw_dm_epilog_restart e = with_job no_job (\<lambda>jid job s.
     case (if job_state job \<noteq> GW_JOB_STATE_EPILOG_RESTART
           then gw_job_set_state e GW_JOB_STATE_EPILOG_RESTART job s else (job, s)) of
       (job, s) \<Rightarrow> do {
         (i, x) \<leftarrow> epilog_restart_xfrs job;
         Some (epilog_signal jid job x s) })"

section \<open>The output of the wrapper\<close>

definition nul :: char where
  "nul = CHR 0x00"

text \<open>The result is the updated job and the code 0, 1 or -1.\<close>

definition gw_dm_epilog_parse_wrapper_std :: "dm_env \<Rightarrow> gw_job \<Rightarrow> (gw_job \<times> int) option" where
  "gw_dm_epilog_parse_wrapper_std e job =
     (case gw_parse_file (wrapper_stdout e) ''EXIT_STATUS'' of
        (rc, code) \<Rightarrow>
          (case (if rc \<noteq> -1 then code else None) of
             Some ec \<Rightarrow>
               (let c = (if ec = [] then nul else hd ec) in
                if c = CHR ''S'' then do {
                  let job = (case snd (gw_parse_file (wrapper_stdout e) ''NEW_REQS'') of
                               None \<Rightarrow> job
                             | Some r \<Rightarrow> job\<lparr>template := (template job)\<lparr>requirements := Some r\<rparr>\<rparr>);
                  let job = (case snd (gw_parse_file (wrapper_stdout e) ''NEW_RANK'') of
                               None \<Rightarrow> job
                             | Some r \<Rightarrow> job\<lparr>template := (template job)\<lparr>jt_rank := Some r\<rparr>\<rparr>);
                  job \<leftarrow> upd_top (set_reason GW_REASON_SELF_MIGRATION) job;
                  Some (job, 1) }
                else if c = CHR ''P'' then do {
                  job \<leftarrow> upd_top (set_reason GW_REASON_PERFORMANCE) job;
                  Some (job, 1) }
                else Some (job\<lparr>exit_code := atoi ec\<rparr>, 0))
           | None \<Rightarrow> do {
               job \<leftarrow> upd_top (set_reason GW_REASON_EXECUTION_ERROR) job;
               Some (job, -1) }))"

section \<open>The callbacks\<close>

text \<open>The states in which a callback stamps the exit of the epilog and of the execution.\<close>

definition plain_epilog :: "gw_job_state \<Rightarrow> bool" where
  "plain_epilog st \<longleftrightarrow> st \<in> {GW_JOB_STATE_EPILOG, GW_JOB_STATE_EPILOG_FAIL,
     GW_JOB_STATE_EPILOG_RESTART, GW_JOB_STATE_STOP_EPILOG, GW_JOB_STATE_KILL_EPILOG}"

definition epilog_exit :: "dm_env \<Rightarrow> gw_job \<Rightarrow> gw_job option" where
  "epilog_exit e job =
     (if plain_epilog (job_state job)
      then upd_top (set_stat EXIT_TIME (now e) \<circ> set_stat EPILOG_EXIT_TIME (now e)) job
      else if job_state job = GW_JOB_STATE_MIGR_EPILOG
      then do {
        job \<leftarrow> upd_next (set_stat EXIT_TIME (now e) \<circ> set_stat EPILOG_EXIT_TIME (now e)) job;
        upd_top (set_stat MIGRATION_EXIT_TIME (now e)) job }
      else Some job)"

definition pending_or_failed :: "gw_job \<Rightarrow> dm_action" where
  "pending_or_failed job =
     (if reschedule_on_failure (template job) then DM_STATE_PENDING else DM_STATE_FAILED)"

text \<open>Where a job goes after \<open>EPILOG_RESTART\<close>, in both callbacks.\<close>

definition after_restart_epilog :: "gw_job \<Rightarrow> dm_action option" where
  "after_restart_epilog job = do {
     h \<leftarrow> hist_top job;
     Some (if reason h = GW_REASON_PERFORMANCE \<or> reason h = GW_REASON_SELF_MIGRATION
           then DM_STATE_PENDING else pending_or_failed job)
   }"

text \<open>The end of a migration: the job returns to the wrapper and leaves the previous host.\<close>

definition migr_finish :: "int \<Rightarrow> gw_job \<Rightarrow> gwd \<Rightarrow> gwd option" where
  "migr_finish jid job s = do {
     let s = trigger_dm DM_STATE_WRAPPER (ARG_ID jid) s;
     h \<leftarrow> hist_next job;
     host_op gw_host_dec_rjobs (h_host h) s
   }"

definition gw_dm_epilog_done_cb :: "dm_env \<Rightarrow> int option \<Rightarrow> gwd \<Rightarrow> gwd option" where
  "gw_dm_epilog_done_cb e = with_job no_job (\<lambda>jid job s.
     if \<not> (plain_epilog (job_state job) \<or> job_state job = GW_JOB_STATE_MIGR_EPILOG
            \<or> job_state job = GW_JOB_STATE_EPILOG_STD)
     then Some s
     else do {
       job \<leftarrow> epilog_exit e job;
       let s = put jid job s;
       (case job_state job of
          GW_JOB_STATE_EPILOG \<Rightarrow> Some (trigger_dm DM_STATE_ZOMBIE (ARG_ID jid) s)
        | GW_JOB_STATE_KILL_EPILOG \<Rightarrow> Some (trigger_dm DM_STATE_ZOMBIE (ARG_ID jid) s)
        | GW_JOB_STATE_MIGR_EPILOG \<Rightarrow> migr_finish jid job s
        | GW_JOB_STATE_STOP_EPILOG \<Rightarrow> Some (trigger_dm DM_STATE_STOPPED (ARG_ID jid) s)
        | GW_JOB_STATE_EPILOG_FAIL \<Rightarrow>
            Some (trigger_dm (pending_or_failed job) (ARG_ID jid) s)
        | GW_JOB_STATE_EPILOG_RESTART \<Rightarrow> do {
            a \<leftarrow> after_restart_epilog job;
            Some (trigger_dm a (ARG_ID jid) s) }
        | GW_JOB_STATE_EPILOG_STD \<Rightarrow> do {
            (job, rt) \<leftarrow> gw_dm_epilog_parse_wrapper_std e job;
            Some (trigger_dm (if rt = 0 then DM_STATE_EPILOG else DM_STATE_EPILOG_RESTART)
                    (ARG_ID jid) (put jid job s)) }
        | _ \<Rightarrow> Some s)
     })"

definition gw_dm_epilog_failed_cb :: "dm_env \<Rightarrow> int option \<Rightarrow> gwd \<Rightarrow> gwd option" where
  "gw_dm_epilog_failed_cb e = with_job no_job (\<lambda>jid job s.
     if \<not> (plain_epilog (job_state job) \<or> job_state job = GW_JOB_STATE_MIGR_EPILOG
            \<or> job_state job = GW_JOB_STATE_EPILOG_STD)
     then Some s
     else do {
       job \<leftarrow> epilog_exit e job;
       let s = put jid job s;
       (if job_state job = GW_JOB_STATE_EPILOG \<or> job_state job = GW_JOB_STATE_EPILOG_FAIL
        then do {
          job \<leftarrow> upd_top (set_reason GW_REASON_EXECUTION_ERROR) job;
          Some (trigger_dm (pending_or_failed job) (ARG_ID jid) (put jid job s)) }
        else case job_state job of
          GW_JOB_STATE_KILL_EPILOG \<Rightarrow> Some (trigger_dm DM_STATE_ZOMBIE (ARG_ID jid) s)
        | GW_JOB_STATE_MIGR_EPILOG \<Rightarrow> migr_finish jid job s
        | GW_JOB_STATE_STOP_EPILOG \<Rightarrow> Some (trigger_dm DM_STATE_STOPPED (ARG_ID jid) s)
        | GW_JOB_STATE_EPILOG_RESTART \<Rightarrow> do {
            a \<leftarrow> after_restart_epilog job;
            Some (trigger_dm a (ARG_ID jid) s) }
        | GW_JOB_STATE_EPILOG_STD \<Rightarrow> do {
            job \<leftarrow> upd_top (set_reason GW_REASON_EXECUTION_ERROR) job;
            Some (trigger_dm DM_STATE_EPILOG_RESTART (ARG_ID jid) (put jid job s)) }
        | _ \<Rightarrow> Some s)
     })"

section \<open>The lists of files are filled exactly\<close>

type_synonym out_desc = "string \<times> string option"

definition desc_out :: "int \<Rightarrow> out_desc \<Rightarrow> gw_xfr" where
  "desc_out t d = xfr_out (fst d) (snd d) (xfr_blank t)"

definition out_filled :: "int \<Rightarrow> int \<Rightarrow> out_desc list \<Rightarrow> nat \<Rightarrow> nat \<times> gw_xfrs" where
  "out_filled t l ds m = (length ds,
     \<lparr>failure_limit = l, xfr_list = map (desc_out t) ds @ replicate m (xfr_blank t)\<rparr>)"

lemma put_file_filled:
  "put_file src dst (out_filled t l ds (Suc m)) = Some (out_filled t l (ds @ [(src, dst)]) m)"
  by (simp add: put_file_def out_filled_def xfr_write_def desc_out_def nth_append list_update_append)

lemma mark_limit_filled: "mark_limit (out_filled t l ds m) = out_filled t (int (length ds)) ds m"
  by (simp add: mark_limit_def out_filled_def)

lemma epilog_xfrs_filled:
  "epilog_xfrs n job = out_filled (number_of_retries (template job)) (-1) [] n"
  by (simp add: epilog_xfrs_def out_filled_def gw_xfr_init_def)

lemma put_outputs_filled:
  "\<forall>f\<in>set fs. fst f \<noteq> None \<Longrightarrow>
   put_outputs fs (out_filled t l ds (length fs + m)) =
     Some (out_filled t l (ds @ map (\<lambda>f. (the (fst f), snd f)) fs) m)"
proof (induction fs arbitrary: ds)
  case Nil
  then show ?case by simp
next
  case (Cons f fs)
  then obtain src where "fst f = Some src" by auto
  with Cons show ?case by (simp add: put_file_filled)
qed

lemma put_restarts_filled:
  "None \<notin> set fs \<Longrightarrow>
   put_restarts chk fs (out_filled t l ds (length fs + m)) =
     Some (out_filled t l
       (ds @ map (\<lambda>f. (the f, Some (url512 (cstr chk @ ''/'' @ the f)))) fs) m)"
proof (induction fs arbitrary: ds)
  case Nil
  then show ?case by simp
next
  case (Cons f fs)
  then obtain src where "f = Some src" by (cases f) auto
  with Cons show ?case by (simp add: put_file_filled)
qed

text \<open>The reference lists.\<close>

definition wrapper_list :: "gw_job \<Rightarrow> out_desc list" where
  "wrapper_list job =
     [(''stdout.wrapper'', Some (job_file job ''stdout.wrapper'')),
      (''stderr.wrapper'', Some (job_file job ''stderr.wrapper''))]"

definition std_list :: "gw_job \<Rightarrow> out_desc list" where
  "std_list job =
     (let t = template job in
      (case stdout_file t of None \<Rightarrow> [] | Some f \<Rightarrow> [(''stdout.execution'', Some f)])
      @ (case stderr_file t of None \<Rightarrow> [] | Some f \<Rightarrow> [(''stderr.execution'', Some f)])
      @ (if pre_wrapper t = None then []
         else [(''stdout.pre_wrapper'', Some (job_file job ''stdout.pre_wrapper'')),
               (''stderr.pre_wrapper'', Some (job_file job ''stderr.pre_wrapper''))])
      @ (if monitor t = None then []
         else [(''stdout.monitor'', Some (job_file job ''stdout.monitor'')),
               (''stderr.monitor'', Some (job_file job ''stderr.monitor''))]))"

text \<open>The limit of the failures that count: the last of the standard streams, or \<open>l\<close>.\<close>

definition std_limit :: "gw_job \<Rightarrow> int \<Rightarrow> nat \<Rightarrow> int" where
  "std_limit job l n =
     (let t = template job;
          k = of_bool (stdout_file t \<noteq> None) + of_bool (stderr_file t \<noteq> None)
      in if k = 0 then l else int n + k - 1)"

definition output_list :: "gw_job \<Rightarrow> out_desc list" where
  "output_list job = map (\<lambda>f. (the (fst f), snd f)) (output_files (template job))"

definition restart_list :: "gw_job \<Rightarrow> out_desc list" where
  "restart_list job =
     map (\<lambda>f. (the f, Some (url512 (cstr (checkpoint_url (template job)) @ ''/'' @ the f))))
       (restart_files (template job))"

lemma std_list_length: "length (std_list job) = std_xfrs job"
  by (simp add: std_list_def std_xfrs_def Let_def split: option.split)

lemma std_files_filled:
  "gw_dm_epilog_std_files job (out_filled t l ds (std_xfrs job + m)) =
     Some (out_filled t (std_limit job l (length ds)) (ds @ std_list job) m)"
  by (cases "stdout_file (template job)"; cases "stderr_file (template job)";
      cases "pre_wrapper (template job)"; cases "monitor (template job)")
    (simp_all add: gw_dm_epilog_std_files_def std_xfrs_def std_limit_def std_list_def Let_def
      put_file_filled mark_limit_filled numeral_2_eq_2)

lemma std_files_filled0:
  "gw_dm_epilog_std_files job (out_filled t l ds (std_xfrs job)) =
     Some (out_filled t (std_limit job l (length ds)) (ds @ std_list job) 0)"
  using std_files_filled [of job t l ds 0] by simp

lemma wrapper_files_filled:
  "gw_dm_epilog_std_wrapper_files job (epilog_xfrs 2 job) =
     Some (out_filled (number_of_retries (template job)) 0 (wrapper_list job) 0)"
  by (simp add: gw_dm_epilog_std_wrapper_files_def epilog_xfrs_filled mark_limit_filled
      put_file_filled numeral_2_eq_2 wrapper_list_def)

lemma output_files_filled:
  assumes "\<forall>f\<in>set (output_files (template job)). fst f \<noteq> None"
  shows "gw_dm_epilog_output_files job
           (epilog_xfrs (length (output_files (template job)) + m) job) =
     Some (out_filled (number_of_retries (template job))
       (int (length (output_files (template job))) - 1) (output_list job) m)"
  using put_outputs_filled [OF assms, of "number_of_retries (template job)" "-1" "[]" m]
  by (simp add: gw_dm_epilog_output_files_def epilog_xfrs_filled output_list_def out_filled_def)

lemma restart_files_filled:
  "None \<notin> set (restart_files (template job)) \<Longrightarrow>
   gw_dm_epilog_restart_files job (out_filled t l ds (length (restart_files (template job)))) =
     Some (out_filled t l (ds @ restart_list job) 0)"
  using put_restarts_filled [of "restart_files (template job)" "checkpoint_url (template job)" t l ds 0]
  by (simp add: gw_dm_epilog_restart_files_def restart_list_def)

lemma epilog_restart_spec:
  assumes "\<forall>f\<in>set (output_files (template job)). fst f \<noteq> None"
    and "None \<notin> set (restart_files (template job))"
  shows "epilog_restart_xfrs job =
    (let ds = output_list job @ std_list job
              @ (if tm_state job = GW_TM_STATE_CHECKPOINT then [] else restart_list job)
     in Some (length ds,
      \<lparr>failure_limit = std_limit job (int (length (output_list job)) - 1) (length (output_list job)),
       xfr_list = map (desc_out (number_of_retries (template job))) ds\<rparr>))"
proof -
  let ?t = "template job"
  have n: "std_xfrs job + length (output_files ?t) + k =
      length (output_files ?t) + (std_xfrs job + k)" for k by simp
  show ?thesis
  proof (cases "tm_state job = GW_TM_STATE_CHECKPOINT")
    case True
    then show ?thesis
      unfolding epilog_restart_xfrs_def Let_def n output_files_filled [OF assms(1)]
      by (simp add: std_files_filled0) (simp add: out_filled_def output_list_def)
  next
    case False
    then show ?thesis
      unfolding epilog_restart_xfrs_def Let_def n output_files_filled [OF assms(1)]
      by (simp add: std_files_filled restart_files_filled assms(2))
         (simp add: out_filled_def output_list_def)
  qed
qed

end
