(* ===== verification/DM_Schedule.thy ===== *)
theory DM_Schedule
  imports DM_States DM_Actions DM_Epilog
begin

text \<open>
  The interaction with the scheduler process: the periodic check of the running jobs
  (\<open>src/dm/gw_dm_action_schedule.c\<close>), the dispatch of a job that the scheduler chose a host for
  (\<open>src/dm/gw_dm_action_dispatch.c\<close>), and the lines the listener thread reads
  (\<open>src/dm/gw_dm_listener.c\<close>).
\<close>

section \<open>The periodic check\<close>

definition gw_dm_check_job_suspension :: "dm_env \<Rightarrow> gw_job \<Rightarrow> gwd \<Rightarrow> (gw_job \<times> gwd) option" where
  "gw_dm_check_job_suspension e job s =
     (if suspension_timeout (template job) > 0
        \<and> (em_state job = GW_EM_STATE_PENDING \<or> em_state job = GW_EM_STATE_SUSPENDED)
      then do {
        h \<leftarrow> hist_top job;
        (if stats h SUSPENSION_TIME + now e - stats h LAST_SUSPENSION_TIME
              > suspension_timeout (template job)
         then do {
           job \<leftarrow> upd_top (set_reason GW_REASON_SUSPENSION_TIME) (job\<lparr>reschedule := True\<rparr>);
           hid \<leftarrow> hist_host_id h s;
           Some (job, send (job_schedule_msg job GW_REASON_SUSPENSION_TIME)
                       (send (JOB_FAILED hid (user_id job) GW_REASON_SUSPENSION_TIME) s)) }
         else Some (job, s)) }
      else Some (job, s))"

definition gw_dm_check_job_rescheduling ::
  "dm_env \<Rightarrow> gw_job \<Rightarrow> gwd \<Rightarrow> (gw_job \<times> gwd) option" where
  "gw_dm_check_job_rescheduling e job s =
     (if rescheduling_interval (template job) > 0
      then if last_rescheduling_time job = 0
        then Some (job\<lparr>last_rescheduling_time := now e - scheduling_interval e\<rparr>, s)
        else if now e - last_rescheduling_time job > rescheduling_interval (template job)
        then do {
          (job, s) \<leftarrow>
            (if gw_job_history_get_wrapper_time (now e) (history job)
                  < rescheduling_threshold (template job)
             then do {
               job \<leftarrow> upd_top (set_reason GW_REASON_RESCHEDULING_TIMEOUT)
                        (job\<lparr>reschedule := True\<rparr>);
               Some (job, send (job_schedule_msg job GW_REASON_RESCHEDULING_TIMEOUT) s) }
             else Some (job, s));
          Some (job\<lparr>last_rescheduling_time := now e\<rparr>, s) }
        else Some (job, s)
      else Some (job, s))"

definition gw_dm_check_job :: "dm_env \<Rightarrow> gw_job \<Rightarrow> gwd \<Rightarrow> (gw_job \<times> gwd) option" where
  "gw_dm_check_job e job s =
     (let r = (case history job of [] \<Rightarrow> GW_REASON_NONE | h # _ \<Rightarrow> reason h) in
      if job_state job = GW_JOB_STATE_WRAPPER \<and> r = GW_REASON_NONE
      then do {
        (job, s) \<leftarrow> gw_dm_check_job_suspension e job s;
        gw_dm_check_job_rescheduling e job s }
      else Some (job, s))"

fun check_jobs :: "dm_env \<Rightarrow> nat list \<Rightarrow> gwd \<Rightarrow> gwd option" where
  "check_jobs e [] s = Some s"
| "check_jobs e (i # is) s =
     (case get_job s (int i) of
        None \<Rightarrow> check_jobs e is s
      | Some job \<Rightarrow> do {
          (job', s') \<leftarrow> gw_dm_check_job e job s;
          check_jobs e is (put (int i) job' s') })"

text \<open>
  The timer action. \<open>mark\<close> is the static counter of the log message; a scheduling round that is
  still in progress is not restarted.
\<close>

definition gw_dm_schedule :: "dm_env \<Rightarrow> gwd \<Rightarrow> gwd option" where
  "gw_dm_schedule e s =
     (let m = mark s + scheduling_interval e;
          s = s\<lparr>mark := (if m \<ge> 300 then 0 else m)\<rparr>
      in if scheduling s then Some s
         else do {
           s \<leftarrow> check_jobs e [0..<length (pool (gd_jobs s))] (s\<lparr>scheduling := True\<rparr>);
           Some (send SCHEDULE s) })"

definition gw_dm_uncheck_job :: "int \<Rightarrow> gwd \<Rightarrow> gwd" where
  "gw_dm_uncheck_job jid s =
     (case get_job s jid of
        None \<Rightarrow> s
      | Some job \<Rightarrow>
          (if history job \<noteq> [] \<and> job_state job \<noteq> GW_JOB_STATE_PENDING
           then send (JOB_DEL (job_id job))
                  (put jid (note_reason GW_REASON_NONE (job\<lparr>reschedule := False\<rparr>)) s)
           else s))"

section \<open>Dispatch\<close>

definition dispatch_history ::
  "dm_env \<Rightarrow> int \<Rightarrow> gw_host \<Rightarrow> string option \<Rightarrow> int \<Rightarrow> gw_job \<Rightarrow> gwd \<Rightarrow> gw_job \<times> int" where
  "dispatch_history e hid h queue rank job s =
     (case gw_job_history_add (env_hist e) (gd_users s) (history job) hid h rank queue
             (owner job) (job_id job) (user_id job) False of
        (hist, rc) \<Rightarrow> (job\<lparr>history := hist\<rparr>, rc))"

definition host_inc_slots :: "int \<Rightarrow> int \<Rightarrow> gwd \<Rightarrow> gwd option" where
  "host_inc_slots hid n s = host_op (gw_host_inc_slots_nb n) (Some hid) s"

text \<open>
  The two uses of a dispatch: starting a pending job, and migrating a job that is running. The
  record that could not be completed because of the history file stays in the history.
\<close>

definition gw_dm_dispatch_job ::
  "dm_env \<Rightarrow> int \<Rightarrow> int \<Rightarrow> string option \<Rightarrow> int \<Rightarrow> gwd \<Rightarrow> (gwd \<times> int) option" where
  "gw_dm_dispatch_job e jid hid queue rank s =
     (case get_job s jid of
        None \<Rightarrow> Some (s, -1)
      | Some job \<Rightarrow>
          (case get_host s hid of
             None \<Rightarrow> Some (s, -1)
           | Some h \<Rightarrow>
               (if job_state job = GW_JOB_STATE_PENDING
                then case dispatch_history e hid h queue rank job s of
                  (job, rc) \<Rightarrow>
                    (if rc = -1 then Some (put jid job s, -1)
                     else do {
                       s \<leftarrow> host_inc_slots hid (np (template job)) (put jid job s);
                       let s = user_op (gw_user_pool_inc_running_jobs (user_id job) 1) s;
                       Some (trigger_dm DM_STATE_PROLOG (ARG_ID (job_id job)) s, 0) })
                else if job_state job = GW_JOB_STATE_WRAPPER
                then if history job \<noteq> [] \<and> reason (hd (history job)) = GW_REASON_SUSPENSION_TIME
                        \<and> em_state job = GW_EM_STATE_ACTIVE
                  then Some (gw_dm_uncheck_job (job_id job) s, -1)
                  else case dispatch_history e hid h queue rank job s of
                    (job, rc) \<Rightarrow>
                      (if rc = -1 then Some (put jid job s, -1)
                       else do {
                         let job = job\<lparr>restarted := restarted job + 1, reschedule := False\<rparr>;
                         s \<leftarrow> host_inc_slots hid (np (template job)) (put jid job s);
                         Some (trigger_dm DM_STATE_MIGR_CANCEL (ARG_ID (job_id job)) s, 0) })
                else Some (s, -1))))"

section \<open>The listener\<close>

text \<open>A line from the scheduler, split as \<open>sscanf\<close> does; and the end of the pipe.\<close>

datatype sched_line =
    LINE string string string string
  | PIPE_ERROR bool

definition split_colon :: "string \<Rightarrow> string \<times> string option" where
  "split_colon s =
     (let t = dropWhile (\<lambda>c. c = CHR '':'') s;
          a = takeWhile (\<lambda>c. c \<noteq> CHR '':'') t;
          r = dropWhile (\<lambda>c. c \<noteq> CHR '':'') t
      in (a, case r of [] \<Rightarrow> None | _ # r' \<Rightarrow> Some r'))"

text \<open>
  \<open>host:queue:rank\<close>. The first two tokens must not be empty; the rank is what follows the
  second one.
\<close>

definition parse_resource :: "string \<Rightarrow> (int \<times> string \<times> int) option" where
  "parse_resource info =
     (case split_colon info of
        (a, r) \<Rightarrow>
          (if a = [] then None
           else case r of
             None \<Rightarrow> None
           | Some r \<Rightarrow>
               (case split_colon r of
                  (q, k) \<Rightarrow>
                    (if q = [] then None
                     else Some (atoi a, q, atoi (case k of None \<Rightarrow> [] | Some k \<Rightarrow> k))))))"

text \<open>
  The reload after a pipe error either succeeds, and the scheduler is told the state of the
  users, hosts and jobs again, or fails; in both cases scheduling is enabled afterwards.
\<close>

definition dm_recover_msgs :: "gwd \<Rightarrow> sched_msg list" where
  "dm_recover_msgs s =
     gw_user_pool_dm_recover (gd_users s) @ gw_host_pool_dm_recover (gd_hosts s)
     @ gw_job_pool_dm_recover (gd_jobs s)"

definition gw_dm_listener_line :: "dm_env \<Rightarrow> sched_line \<Rightarrow> gwd \<Rightarrow> gwd option" where
  "gw_dm_listener_line e l s =
     (case l of
        PIPE_ERROR reloaded \<Rightarrow>
          Some ((if reloaded then sends (dm_recover_msgs s) s else s)\<lparr>scheduling := False\<rparr>)
      | LINE act s_id result info \<Rightarrow>
          (if act = ''SCHEDULE_JOB''
           then if result = ''SUCCESS''
             then case parse_resource info of
                    None \<Rightarrow> Some s
                  | Some (hid, queue, rank) \<Rightarrow>
                      map_option fst (gw_dm_dispatch_job e (atoi s_id) hid (Some queue) rank s)
             else Some (gw_dm_uncheck_job (atoi s_id) s)
           else if act = ''SCHEDULE_END'' then Some (s\<lparr>scheduling := False\<rparr>)
           else Some s))"

section \<open>Running one action of the dispatch manager\<close>

definition arg_id :: "am_arg \<Rightarrow> int option" where
  "arg_id a = (case a of ARG_ID i \<Rightarrow> Some i | _ \<Rightarrow> None)"

text \<open>
  The table of \<open>gw_dm_init\<close>: the handler of every action. The finalisation ends the manager and
  has no effect on the modelled state; an allocation without its message is undefined.
\<close>

definition dm_handler :: "dm_env \<Rightarrow> dm_action \<Rightarrow> am_arg \<Rightarrow> gwd \<Rightarrow> gwd option" where
  "dm_handler e a arg s =
     (case a of
        DM_FINALIZE \<Rightarrow> Some s
      | DM_ALLOCATE_JOB \<Rightarrow> (case arg of ARG_MSG m \<Rightarrow> gw_dm_jalloc e m s | _ \<Rightarrow> None)
      | DM_ALLOCATE_ARRAY \<Rightarrow> (case arg of ARG_MSG m \<Rightarrow> gw_dm_aalloc e m s | _ \<Rightarrow> None)
      | DM_HOLD \<Rightarrow> gw_dm_hold e (arg_id arg) s
      | DM_RELEASE \<Rightarrow> gw_dm_release e (arg_id arg) s
      | DM_STOP \<Rightarrow> gw_dm_stop e (arg_id arg) s
      | DM_RESUME \<Rightarrow> gw_dm_resume e (arg_id arg) s
      | DM_KILL \<Rightarrow> gw_dm_kill e (arg_id arg) s
      | DM_KILL_HARD \<Rightarrow> gw_dm_kill_hard e (arg_id arg) s
      | DM_WAIT \<Rightarrow> gw_dm_wait e (arg_id arg) s
      | DM_RESCHEDULE \<Rightarrow> gw_dm_reschedule e (arg_id arg) s
      | DM_PROLOG_DONE \<Rightarrow> gw_dm_prolog_done_cb e (arg_id arg) s
      | DM_PROLOG_FAILED \<Rightarrow> gw_dm_prolog_failed_cb e (arg_id arg) s
      | DM_EPILOG_DONE \<Rightarrow> gw_dm_epilog_done_cb e (arg_id arg) s
      | DM_EPILOG_FAILED \<Rightarrow> gw_dm_epilog_failed_cb e (arg_id arg) s
      | DM_WRAPPER_DONE \<Rightarrow> gw_dm_wrapper_done_cb e (arg_id arg) s
      | DM_WRAPPER_FAILED \<Rightarrow> gw_dm_wrapper_failed_cb e (arg_id arg) s
      | DM_STATE_PROLOG \<Rightarrow> gw_dm_prolog e (arg_id arg) s
      | DM_STATE_MIGR_PROLOG \<Rightarrow> gw_dm_migr_prolog e (arg_id arg) s
      | DM_STATE_PRE_WRAPPER \<Rightarrow> gw_dm_pre_wrapper e (arg_id arg) s
      | DM_STATE_WRAPPER \<Rightarrow> gw_dm_wrapper e (arg_id arg) s
      | DM_STATE_EPILOG \<Rightarrow> gw_dm_epilog e (arg_id arg) s
      | DM_STATE_EPILOG_STD \<Rightarrow> gw_dm_epilog_std e (arg_id arg) s
      | DM_STATE_MIGR_EPILOG \<Rightarrow> gw_dm_migr_epilog e (arg_id arg) s
      | DM_STATE_STOP_EPILOG \<Rightarrow> gw_dm_stop_epilog e (arg_id arg) s
      | DM_STATE_KILL_EPILOG \<Rightarrow> gw_dm_kill_epilog e (arg_id arg) s
      | DM_STATE_EPILOG_FAIL \<Rightarrow> gw_dm_epilog_fail e (arg_id arg) s
      | DM_STATE_EPILOG_RESTART \<Rightarrow> gw_dm_epilog_restart e (arg_id arg) s
      | DM_STATE_MIGR_CANCEL \<Rightarrow> gw_dm_migr_cancel e (arg_id arg) s
      | DM_STATE_PENDING \<Rightarrow> gw_dm_pending e (arg_id arg) s
      | DM_STATE_ZOMBIE \<Rightarrow> gw_dm_zombie e (arg_id arg) s
      | DM_STATE_FAILED \<Rightarrow> gw_dm_failed e (arg_id arg) s
      | DM_STATE_STOPPED \<Rightarrow> gw_dm_stopped e (arg_id arg) s
      | DM_TIMER \<Rightarrow> gw_dm_schedule e s)"

definition dm_step :: "dm_env \<Rightarrow> gwd \<Rightarrow> gwd option" where
  "dm_step e s =
     (case dm_am s of
        [] \<Rightarrow> Some s
      | (a, arg) # rest \<Rightarrow> dm_handler e a arg (s\<lparr>dm_am := rest\<rparr>))"

end
