(* ===== verification/GW_Action.thy ===== *)
theory GW_Action
  imports GW_Prelude
begin

text \<open>
  The action manager of \<open>src/common/gw_action.c\<close>: a table of registered actions (the first
  \<open>registered_actions\<close> entries of the array \<open>action_rgs\<close>) and a FIFO list of the actions that
  were triggered. A handler is whatever the client registers, so its type is a parameter. The
  lock and the condition variable only serialise the operations and are not modelled.
\<close>

definition GW_ACTION_NUMBER :: nat where
  "GW_ACTION_NUMBER = 40"

definition GW_ACTION_FINALIZE :: string where
  "GW_ACTION_FINALIZE = ''GW_ACTION_FINALIZE''"

definition GW_ACTION_TIMER :: string where
  "GW_ACTION_TIMER = ''GW_ACTION_TIMER''"

datatype gw_threaded = GW_ACTION_THREADED | GW_ACTION_SEQUENTIAL

record 'h gw_action =
  threaded :: gw_threaded
  action_id :: string
  action_handler :: 'h

record ('h, 'a) gw_am =
  pending_actions :: int
  action_list :: "(nat \<times> 'a) list"
  action_rgs :: "'h gw_action list"

section \<open>Operations\<close>

fun gw_action_list_add :: "(nat \<times> 'a) list \<Rightarrow> nat \<Rightarrow> 'a \<Rightarrow> (nat \<times> 'a) list" where
  "gw_action_list_add [] idx arg = [(idx, arg)]"
| "gw_action_list_add (x # xs) idx arg = x # gw_action_list_add xs idx arg"

fun gw_action_list_del :: "(nat \<times> 'a) list \<Rightarrow> (nat \<times> 'a) list" where
  "gw_action_list_del [] = []"
| "gw_action_list_del (x # xs) = xs"

definition gw_am_init :: "('h, 'a) gw_am" where
  "gw_am_init = \<lparr>pending_actions = 0, action_list = [], action_rgs = []\<rparr>"

text \<open>
  The search stops at the last registered entry; with nothing registered it would compare
  entry 0 of an empty table for ever (\<open>idx\<close> never equals -1), which the code avoids by
  registering its actions before it triggers any: \<open>None\<close> is that undefined case.
\<close>

fun find_action :: "'h gw_action list \<Rightarrow> string \<Rightarrow> nat \<Rightarrow> int" where
  "find_action [] s i = -1"
| "find_action (r # rs) s i =
     (if action_id r = s then int i else find_action rs s (Suc i))"

definition gw_am_is_registered :: "('h, 'a) gw_am \<Rightarrow> string \<Rightarrow> int option" where
  "gw_am_is_registered am s =
     (if action_rgs am = [] then None else Some (find_action (action_rgs am) s 0))"

definition gw_am_post_action :: "('h, 'a) gw_am \<Rightarrow> nat \<Rightarrow> 'a \<Rightarrow> ('h, 'a) gw_am" where
  "gw_am_post_action am idx arg =
     am\<lparr>action_list := gw_action_list_add (action_list am) idx arg,
        pending_actions := pending_actions am + 1\<rparr>"

definition gw_am_pop_action :: "('h, 'a) gw_am \<Rightarrow> ('h, 'a) gw_am" where
  "gw_am_pop_action am =
     am\<lparr>action_list := gw_action_list_del (action_list am),
        pending_actions := pending_actions am - 1\<rparr>"

definition gw_am_register ::
  "string \<Rightarrow> gw_threaded \<Rightarrow> 'h \<Rightarrow> ('h, 'a) gw_am \<Rightarrow> ('h, 'a) gw_am \<times> int" where
  "gw_am_register s t h am =
     (if GW_ACTION_NUMBER \<le> length (action_rgs am) then (am, -1)
      else (am\<lparr>action_rgs := action_rgs am
                 @ [\<lparr>threaded = t, action_id = s, action_handler = h\<rparr>]\<rparr>, 0))"

text \<open>
  Once the action at the head of the list is the finalisation, nothing more is accepted
  (the trigger still answers 0).
\<close>

definition gw_am_trigger ::
  "('h, 'a) gw_am \<Rightarrow> string \<Rightarrow> 'a \<Rightarrow> (('h, 'a) gw_am \<times> int) option" where
  "gw_am_trigger am s arg = do {
     idx \<leftarrow> gw_am_is_registered am s;
     if idx = -1 then Some (am, -1)
     else do {
       fin \<leftarrow> gw_am_is_registered am GW_ACTION_FINALIZE;
       (if fin \<noteq> -1 \<and> action_list am \<noteq> [] \<and> int (fst (hd (action_list am))) = fin
        then Some (am, 0)
        else Some (gw_am_post_action am (nat idx) arg, 0))
     }
   }"

text \<open>
  One round of \<open>gw_am_loop\<close>. When nothing is pending the loop waits; \<open>Inl\<close> is the expiry of
  its timeout, on which the timer action is posted if it is registered. Otherwise the first
  action is popped and its handler, argument and kind are handed to the caller to run
  (\<open>Inr\<close>); the loop ends after the finalisation action.
\<close>

definition gw_am_next ::
  "('h, 'a) gw_am \<Rightarrow> 'a \<Rightarrow> (('h, 'a) gw_am + ('h, 'a) gw_am \<times> 'h gw_action \<times> 'a) option" where
  "gw_am_next am timer_args =
     (if pending_actions am = 0 then do {
        idx \<leftarrow> gw_am_is_registered am GW_ACTION_TIMER;
        Some (Inl (if idx \<noteq> -1 then gw_am_post_action am (nat idx) timer_args else am))
      }
      else (case action_list am of
          [] \<Rightarrow> None
        | (idx, arg) # _ \<Rightarrow>
            (if idx < length (action_rgs am)
             then Some (Inr (gw_am_pop_action am, action_rgs am ! idx, arg)) else None)))"

definition gw_am_finalizes :: "'h gw_action \<Rightarrow> bool" where
  "gw_am_finalizes r \<longleftrightarrow> action_id r = GW_ACTION_FINALIZE"

section \<open>The list is a queue and the counter is its length\<close>

lemma gw_action_list_add_append [simp]: "gw_action_list_add xs idx arg = xs @ [(idx, arg)]"
  by (induction xs) auto

lemma gw_action_list_del_tl [simp]: "gw_action_list_del xs = tl xs"
  by (cases xs) auto

definition am_wf :: "('h, 'a) gw_am \<Rightarrow> bool" where
  "am_wf am \<longleftrightarrow> pending_actions am = int (length (action_list am)) \<and>
     (\<forall>x\<in>set (action_list am). fst x < length (action_rgs am)) \<and>
     length (action_rgs am) \<le> GW_ACTION_NUMBER"

lemma find_action_bounds:
  "find_action rs s i = -1 \<or>
     (int i \<le> find_action rs s i \<and> find_action rs s i < int i + int (length rs))"
proof (induction rs arbitrary: i)
  case Nil
  then show ?case by simp
next
  case (Cons r rs)
  from Cons [of "Suc i"] show ?case by auto
qed

lemma find_action_id:
  "find_action rs s i = int (i + k) \<Longrightarrow> k < length rs \<and> action_id (rs ! k) = s"
proof (induction rs arbitrary: i k)
  case Nil
  then show ?case by simp
next
  case (Cons r rs)
  show ?case
  proof (cases k)
    case 0
    then show ?thesis using Cons.prems find_action_bounds [of rs s "Suc i"]
      by (auto split: if_splits)
  next
    case (Suc k')
    then show ?thesis using Cons.IH [of "Suc i" k'] Cons.prems by (auto split: if_splits)
  qed
qed

lemma is_registered_id:
  assumes "gw_am_is_registered am s = Some idx" and "idx \<noteq> -1"
  shows "nat idx < length (action_rgs am)" and "action_id (action_rgs am ! nat idx) = s"
    and "0 \<le> idx"
proof -
  have f: "find_action (action_rgs am) s 0 = idx"
    using assms(1) by (simp add: gw_am_is_registered_def split: if_splits)
  then show pos: "0 \<le> idx" using find_action_bounds [of "action_rgs am" s 0] assms(2) by auto
  have "find_action (action_rgs am) s 0 = int (0 + nat idx)" using f pos by simp
  from find_action_id [OF this]
  show "nat idx < length (action_rgs am)" and "action_id (action_rgs am ! nat idx) = s"
    by auto
qed

lemma am_wf_init: "am_wf gw_am_init"
  by (simp add: am_wf_def gw_am_init_def)

lemma am_wf_register: "am_wf am \<Longrightarrow> am_wf (fst (gw_am_register s t h am))"
  by (auto simp: am_wf_def gw_am_register_def)

lemma am_wf_post: "am_wf am \<Longrightarrow> idx < length (action_rgs am) \<Longrightarrow> am_wf (gw_am_post_action am idx arg)"
  by (auto simp: am_wf_def gw_am_post_action_def)

lemma am_wf_trigger:
  assumes "am_wf am" and "gw_am_trigger am s arg = Some (am', rc)"
  shows "am_wf am'"
  using assms is_registered_id(1) [of am s]
  by (auto simp: gw_am_trigger_def bind_eq_Some_conv intro: am_wf_post split: if_splits)

lemma am_wf_next_Inr:
  assumes "am_wf am" and "gw_am_next am targ = Some (Inr (am', r, arg))"
  shows "am_wf am'"
  using assms
  by (force simp: gw_am_next_def am_wf_def gw_am_pop_action_def bind_eq_Some_conv
      split: if_splits list.splits)

text \<open>
  In a well-formed manager the loop never reads a missing list element or table entry,
  and it runs the actions in the order in which they were triggered, each with the handler
  that was registered under its name: triggering on an idle manager and running one round
  yields that very action.
\<close>

lemma action_fifo:
  assumes wf: "am_wf am"
    and reg: "gw_am_is_registered am s = Some idx" "idx \<noteq> -1"
    and idle: "action_list am = []"
  shows "\<exists>am1 am2 r. gw_am_trigger am s arg = Some (am1, 0) \<and>
     gw_am_next am1 targ = Some (Inr (am2, r, arg)) \<and> action_id r = s \<and>
     r = action_rgs am ! nat idx \<and> action_list am2 = [] \<and> am_wf am1 \<and> am_wf am2"
proof -
  let ?am1 = "gw_am_post_action am (nat idx) arg"
  have lt: "nat idx < length (action_rgs am)" and id: "action_id (action_rgs am ! nat idx) = s"
    using is_registered_id [OF reg] by auto
  have "\<exists>fin. gw_am_is_registered am GW_ACTION_FINALIZE = Some fin"
    using reg(1) by (auto simp: gw_am_is_registered_def split: if_splits)
  then have t: "gw_am_trigger am s arg = Some (?am1, 0)"
    using reg idle by (auto simp: gw_am_trigger_def)
  have n: "gw_am_next ?am1 targ =
      Some (Inr (gw_am_pop_action ?am1, action_rgs am ! nat idx, arg))"
    using wf idle lt by (simp add: gw_am_next_def gw_am_post_action_def am_wf_def)
  have "am_wf ?am1" using wf lt by (rule am_wf_post)
  moreover have "am_wf (gw_am_pop_action ?am1)"
    using am_wf_next_Inr [OF \<open>am_wf ?am1\<close> n] .
  moreover have "action_list (gw_am_pop_action ?am1) = []"
    using idle by (simp add: gw_am_pop_action_def gw_am_post_action_def)
  ultimately show ?thesis using t n id by blast
qed

end
