(* ===== verification/DM_Init.thy ===== *)
theory DM_Init
  imports DM_Schedule GW_Action
begin

text \<open>
  The action table of \<open>gw_dm_init\<close> (\<open>src/dm/gw_dm.c\<close>) and the scheduler drivers registered with
  the dispatch manager. The daemon triggers actions by name; the handlers of the previous
  theories trigger them as values of \<open>dm_action\<close> on a plain list. The theorems here show that the
  second is what the first does: every name is registered with its handler, and the
  table-driven manager implements the list.
\<close>

section \<open>The table\<close>

fun dm_action_name :: "dm_action \<Rightarrow> string" where
  "dm_action_name DM_FINALIZE = GW_ACTION_FINALIZE"
| "dm_action_name DM_ALLOCATE_JOB = ''GW_DM_ALLOCATE_JOB''"
| "dm_action_name DM_ALLOCATE_ARRAY = ''GW_DM_ALLOCATE_ARRAY''"
| "dm_action_name DM_HOLD = ''GW_DM_HOLD''"
| "dm_action_name DM_RELEASE = ''GW_DM_RELEASE''"
| "dm_action_name DM_STOP = ''GW_DM_STOP''"
| "dm_action_name DM_RESUME = ''GW_DM_RESUME''"
| "dm_action_name DM_KILL = ''GW_DM_KILL''"
| "dm_action_name DM_KILL_HARD = ''GW_DM_KILL_HARD''"
| "dm_action_name DM_WAIT = ''GW_DM_WAIT''"
| "dm_action_name DM_RESCHEDULE = ''GW_DM_RESCHEDULE''"
| "dm_action_name DM_PROLOG_DONE = ''GW_DM_PROLOG_DONE''"
| "dm_action_name DM_PROLOG_FAILED = ''GW_DM_PROLOG_FAILED''"
| "dm_action_name DM_EPILOG_DONE = ''GW_DM_EPILOG_DONE''"
| "dm_action_name DM_EPILOG_FAILED = ''GW_DM_EPILOG_FAILED''"
| "dm_action_name DM_WRAPPER_DONE = ''GW_DM_WRAPPER_DONE''"
| "dm_action_name DM_WRAPPER_FAILED = ''GW_DM_WRAPPER_FAILED''"
| "dm_action_name DM_STATE_PROLOG = ''GW_DM_STATE_PROLOG''"
| "dm_action_name DM_STATE_MIGR_PROLOG = ''GW_DM_STATE_MIGR_PROLOG''"
| "dm_action_name DM_STATE_PRE_WRAPPER = ''GW_DM_STATE_PRE_WRAPPER''"
| "dm_action_name DM_STATE_WRAPPER = ''GW_DM_STATE_WRAPPER''"
| "dm_action_name DM_STATE_EPILOG = ''GW_DM_STATE_EPILOG''"
| "dm_action_name DM_STATE_EPILOG_STD = ''GW_DM_STATE_EPILOG_STD''"
| "dm_action_name DM_STATE_MIGR_EPILOG = ''GW_DM_STATE_MIGR_EPILOG''"
| "dm_action_name DM_STATE_STOP_EPILOG = ''GW_DM_STATE_STOP_EPILOG''"
| "dm_action_name DM_STATE_KILL_EPILOG = ''GW_DM_STATE_KILL_EPILOG''"
| "dm_action_name DM_STATE_EPILOG_FAIL = ''GW_DM_STATE_EPILOG_FAIL''"
| "dm_action_name DM_STATE_EPILOG_RESTART = ''GW_DM_STATE_EPILOG_RESTART''"
| "dm_action_name DM_STATE_MIGR_CANCEL = ''GW_DM_STATE_MIGR_CANCEL''"
| "dm_action_name DM_STATE_PENDING = ''GW_DM_STATE_PENDING''"
| "dm_action_name DM_STATE_ZOMBIE = ''GW_DM_STATE_ZOMBIE''"
| "dm_action_name DM_STATE_FAILED = ''GW_DM_STATE_FAILED''"
| "dm_action_name DM_STATE_STOPPED = ''GW_DM_STATE_STOPPED''"
| "dm_action_name DM_TIMER = GW_ACTION_TIMER"

text \<open>The registrations in the order of the code; the handler is named by its action.\<close>

definition dm_registrations :: "dm_action list" where
  "dm_registrations =
     [DM_FINALIZE, DM_ALLOCATE_JOB, DM_ALLOCATE_ARRAY, DM_HOLD, DM_RELEASE, DM_STOP, DM_RESUME,
      DM_KILL, DM_KILL_HARD, DM_WAIT, DM_RESCHEDULE, DM_PROLOG_DONE, DM_PROLOG_FAILED,
      DM_EPILOG_DONE, DM_EPILOG_FAILED, DM_WRAPPER_DONE, DM_WRAPPER_FAILED, DM_STATE_PROLOG,
      DM_STATE_MIGR_PROLOG, DM_STATE_PRE_WRAPPER, DM_STATE_WRAPPER, DM_STATE_EPILOG,
      DM_STATE_EPILOG_STD, DM_STATE_MIGR_EPILOG, DM_STATE_STOP_EPILOG, DM_STATE_KILL_EPILOG,
      DM_STATE_EPILOG_FAIL, DM_STATE_EPILOG_RESTART, DM_STATE_MIGR_CANCEL, DM_STATE_PENDING,
      DM_STATE_ZOMBIE, DM_STATE_FAILED, DM_STATE_STOPPED, DM_TIMER]"

definition dm_threaded :: "dm_action \<Rightarrow> gw_threaded" where
  "dm_threaded a = (if a = DM_TIMER then GW_ACTION_THREADED else GW_ACTION_SEQUENTIAL)"

definition dm_register :: "dm_action \<Rightarrow> (dm_action, am_arg) gw_am \<Rightarrow> (dm_action, am_arg) gw_am" where
  "dm_register a am = fst (gw_am_register (dm_action_name a) (dm_threaded a) a am)"

definition gw_dm_init_am :: "(dm_action, am_arg) gw_am" where
  "gw_dm_init_am = fold dm_register dm_registrations gw_am_init"

section \<open>The scheduler drivers\<close>

text \<open>A driver that starts is its name and the descriptor of its pipe.\<close>

record gw_dm_mad =
  mad_name :: string
  mad_dm_pipe :: int

text \<open>
  \<open>gw_dm_register_mad\<close> on the array of drivers; \<open>started\<close> is the result of starting the process.
\<close>

definition gw_dm_register_mad ::
  "gw_dm_mad option \<Rightarrow> gw_dm_mad list \<Rightarrow> gw_dm_mad list \<times> int" where
  "gw_dm_register_mad started mads =
     (if length mads = GW_MAX_MADS then (mads, -1)
      else case started of Some m \<Rightarrow> (mads @ [m], 0) | None \<Rightarrow> (mads, -1))"

definition gw_dm_get_mad :: "string \<Rightarrow> gw_dm_mad list \<Rightarrow> gw_dm_mad option" where
  "gw_dm_get_mad name mads = find (\<lambda>m. name = mad_name m) mads"

definition gw_dm_get_mad_by_fd :: "int \<Rightarrow> gw_dm_mad list \<Rightarrow> gw_dm_mad option" where
  "gw_dm_get_mad_by_fd fd mads = find (\<lambda>m. fd = mad_dm_pipe m) mads"

text \<open>The descriptors to wait on, the greatest of them, and the number of drivers.\<close>

definition gw_dm_set_pipes :: "gw_dm_mad list \<Rightarrow> int list \<times> int \<times> int" where
  "gw_dm_set_pipes mads =
     (let fds = filter (\<lambda>fd. fd \<noteq> -1) (map mad_dm_pipe mads)
      in (fds, fold max fds 0, int (length mads)))"

section \<open>Every action is found under its name\<close>

definition dm_rgs :: "dm_action gw_action list" where
  "dm_rgs = map (\<lambda>a. \<lparr>threaded = dm_threaded a, action_id = dm_action_name a, action_handler = a\<rparr>)
              dm_registrations"

lemma dm_registrations_length: "length dm_registrations = 34"
  by (simp add: dm_registrations_def)

lemma register_fold:
  "length (action_rgs am) + length as \<le> GW_ACTION_NUMBER \<Longrightarrow>
   fold dm_register as am =
     am\<lparr>action_rgs := action_rgs am @
        map (\<lambda>a. \<lparr>threaded = dm_threaded a, action_id = dm_action_name a, action_handler = a\<rparr>) as\<rparr>"
  by (induction as arbitrary: am) (auto simp: dm_register_def gw_am_register_def)

lemma gw_dm_init_rgs:
  "gw_dm_init_am = \<lparr>pending_actions = 0, action_list = [], action_rgs = dm_rgs\<rparr>"
  unfolding gw_dm_init_am_def
  by (subst register_fold)
     (simp_all add: gw_am_init_def dm_registrations_length GW_ACTION_NUMBER_def dm_rgs_def)

lemma dm_registrations_all: "a \<in> set dm_registrations"
  by (cases a) (simp_all add: dm_registrations_def)

lemma distinct_registrations: "distinct dm_registrations"
  by (simp add: dm_registrations_def)

lemma dm_action_name_inject: "dm_action_name a = dm_action_name b \<longleftrightarrow> a = b"
proof -
  have "distinct (map dm_action_name dm_registrations)"
    by (simp add: dm_registrations_def GW_ACTION_FINALIZE_def GW_ACTION_TIMER_def)
  then have "inj_on dm_action_name (set dm_registrations)" by (simp add: distinct_map)
  then show ?thesis using dm_registrations_all by (auto dest: inj_onD)
qed

lemma find_action_nth:
  "k < length rs \<Longrightarrow> (\<And>j. j < length rs \<Longrightarrow> action_id (rs ! j) = s \<Longrightarrow> j = k) \<Longrightarrow>
   action_id (rs ! k) = s \<Longrightarrow> find_action rs s i = int (i + k)"
proof (induction rs arbitrary: k i)
  case Nil
  then show ?case by simp
next
  case (Cons r rs)
  show ?case
  proof (cases k)
    case 0
    then show ?thesis using Cons.prems by simp
  next
    case (Suc k')
    have "action_id r \<noteq> s" using Cons.prems(2) [of 0] Suc by auto
    moreover have "find_action rs s (Suc i) = int (Suc i + k')"
    proof (rule Cons.IH)
      show "k' < length rs" "action_id (rs ! k') = s" using Cons.prems Suc by auto
      show "j = k'" if "j < length rs" "action_id (rs ! j) = s" for j
        using Cons.prems(2) [of "Suc j"] that Suc by simp
    qed
    ultimately show ?thesis using Suc by simp
  qed
qed

lemma dm_action_index:
  obtains k where "k < length dm_rgs" "action_handler (dm_rgs ! k) = a"
    "find_action dm_rgs (dm_action_name a) 0 = int k" "threaded (dm_rgs ! k) = dm_threaded a"
proof -
  obtain k where k: "k < length dm_registrations" "dm_registrations ! k = a"
    using dm_registrations_all [of a] by (auto simp: in_set_conv_nth)
  have "find_action dm_rgs (dm_action_name a) 0 = int (0 + k)"
  proof (rule find_action_nth)
    show "k < length dm_rgs" "action_id (dm_rgs ! k) = dm_action_name a"
      using k by (simp_all add: dm_rgs_def)
    show "j = k" if "j < length dm_rgs" "action_id (dm_rgs ! j) = dm_action_name a" for j
      using that k distinct_registrations
      by (auto simp: dm_rgs_def dm_action_name_inject nth_eq_iff_index_eq)
  qed
  with k show thesis by (intro that [of k]) (simp_all add: dm_rgs_def)
qed

section \<open>The manager implements the list of the model\<close>

definition abs_queue :: "(dm_action, 'a) gw_am \<Rightarrow> (dm_action \<times> 'a) list" where
  "abs_queue am = map (\<lambda>(i, a). (action_handler (action_rgs am ! i), a)) (action_list am)"

definition q_trigger :: "dm_action \<Rightarrow> 'a \<Rightarrow> (dm_action \<times> 'a) list \<Rightarrow> (dm_action \<times> 'a) list" where
  "q_trigger a arg q = (if q \<noteq> [] \<and> fst (hd q) = DM_FINALIZE then q else q @ [(a, arg)])"

lemma trigger_dm_queue: "dm_am (trigger_dm a arg s) = q_trigger a arg (dm_am s)"
  by (simp add: trigger_dm_def q_trigger_def)

lemma dm_registered:
  assumes "action_rgs am = dm_rgs"
  obtains k where "gw_am_is_registered am (dm_action_name a) = Some (int k)"
    "k < length dm_rgs" "action_handler (dm_rgs ! k) = a"
proof -
  obtain k where "k < length dm_rgs" "action_handler (dm_rgs ! k) = a"
    "find_action dm_rgs (dm_action_name a) 0 = int k"
    using dm_action_index by metis
  moreover then have "dm_rgs \<noteq> []" by auto
  ultimately show thesis using that [of k] assms by (simp add: gw_am_is_registered_def)
qed

lemma handler_index:
  assumes "i < length dm_rgs" and "k < length dm_rgs"
    and "action_handler (dm_rgs ! i) = action_handler (dm_rgs ! k)"
  shows "i = k"
  using assms distinct_registrations
  by (auto simp: dm_rgs_def nth_eq_iff_index_eq)

text \<open>
  The table of the dispatch manager holds its 34 actions, and triggering an action by its
  name on the table-driven manager, whatever is pending there, never fails to find it and has
  exactly the effect of the model's \<open>trigger_dm\<close> on the list of pending actions, including the
  rule that nothing is accepted once the finalisation is at its head.
\<close>

lemma dm_trigger_refines:
  assumes "action_rgs am = dm_rgs" and "am_wf am"
  shows "\<exists>am'. gw_am_trigger am (dm_action_name a) arg = Some (am', 0) \<and>
     abs_queue am' = q_trigger a arg (abs_queue am) \<and> action_rgs am' = dm_rgs \<and> am_wf am'"
proof -
  obtain k where k: "gw_am_is_registered am (dm_action_name a) = Some (int k)"
    "k < length dm_rgs" "action_handler (dm_rgs ! k) = a"
    using dm_registered [OF assms(1)] by metis
  obtain f where f: "gw_am_is_registered am GW_ACTION_FINALIZE = Some (int f)"
    "f < length dm_rgs" "action_handler (dm_rgs ! f) = DM_FINALIZE"
    using dm_registered [OF assms(1), of DM_FINALIZE] by auto
  have hd_fin: "fst (hd (action_list am)) = f \<longleftrightarrow> fst (hd (abs_queue am)) = DM_FINALIZE"
    if "action_list am \<noteq> []"
  proof -
    obtain i b q where l: "action_list am = (i, b) # q"
      using \<open>action_list am \<noteq> []\<close> by (metis neq_Nil_conv surj_pair)
    then have "i < length dm_rgs" using assms by (auto simp: am_wf_def)
    then show ?thesis using l f handler_index [of i f] assms(1) by (auto simp: abs_queue_def)
  qed
  have ne: "action_list am \<noteq> [] \<longleftrightarrow> abs_queue am \<noteq> []" by (simp add: abs_queue_def)
  show ?thesis
  proof (cases "action_list am \<noteq> [] \<and> fst (hd (action_list am)) = f")
    case True
    then have "gw_am_trigger am (dm_action_name a) arg = Some (am, 0)"
      using k f by (simp add: gw_am_trigger_def)
    moreover have "abs_queue am = q_trigger a arg (abs_queue am)"
      using True hd_fin ne by (simp add: q_trigger_def)
    ultimately show ?thesis using assms by blast
  next
    case False
    then have t: "gw_am_trigger am (dm_action_name a) arg = Some (gw_am_post_action am k arg, 0)"
      using k f by (auto simp: gw_am_trigger_def)
    moreover have "abs_queue (gw_am_post_action am k arg) = q_trigger a arg (abs_queue am)"
    proof -
      have "q_trigger a arg (abs_queue am) = abs_queue am @ [(a, arg)]"
        using False hd_fin ne unfolding q_trigger_def by metis
      then show ?thesis using k assms(1) by (simp add: abs_queue_def gw_am_post_action_def)
    qed
    moreover have "am_wf (gw_am_post_action am k arg)"
      using k assms by (intro am_wf_post) auto
    ultimately show ?thesis using assms(1) by (simp add: gw_am_post_action_def)
  qed
qed

text \<open>
  A round of the loop takes the action at the head of the list: the handler that the
  table gives for it is the one of the model's \<open>dm_step\<close>, and what remains is the rest of the
  list.
\<close>

lemma dm_next_refines:
  assumes "action_rgs am = dm_rgs" and "am_wf am" and "abs_queue am = (a, arg) # rest"
  shows "\<exists>am' r. gw_am_next am targ = Some (Inr (am', r, arg)) \<and> action_handler r = a \<and>
     abs_queue am' = rest \<and> action_rgs am' = dm_rgs \<and> am_wf am' \<and>
     (gw_am_finalizes r \<longleftrightarrow> a = DM_FINALIZE)"
proof -
  obtain i q where l: "action_list am = (i, arg) # q"
    and a: "action_handler (dm_rgs ! i) = a"
    and rest: "rest = map (\<lambda>(i, a). (action_handler (action_rgs am ! i), a)) q"
    using assms(1,3) by (cases "action_list am") (auto simp: abs_queue_def)
  have i: "i < length dm_rgs" using assms(1,2) l by (auto simp: am_wf_def)
  have p: "pending_actions am \<noteq> 0" using assms(2) l by (simp add: am_wf_def)
  have n: "gw_am_next am targ = Some (Inr (gw_am_pop_action am, dm_rgs ! i, arg))"
    using p l i assms(1) by (simp add: gw_am_next_def)
  have "gw_am_finalizes (dm_rgs ! i) \<longleftrightarrow> dm_action_name a = dm_action_name DM_FINALIZE"
    using a i by (auto simp: gw_am_finalizes_def dm_rgs_def)
  then have "gw_am_finalizes (dm_rgs ! i) \<longleftrightarrow> a = DM_FINALIZE"
    by (simp only: dm_action_name_inject)
  moreover have "am_wf (gw_am_pop_action am)" using am_wf_next_Inr [OF assms(2) n] .
  ultimately show ?thesis
    using n a l rest assms(1)
    by (intro exI [of _ "gw_am_pop_action am"] exI [of _ "dm_rgs ! i"])
       (simp add: gw_am_pop_action_def abs_queue_def)
qed

end
