(* ===== verification/EM_State.thy ===== *)
theory EM_State
  imports GW_Sys
begin

text \<open>
  The execution states of \<open>src/em/gw_em_state.c\<close>: the callbacks that the listener of the
  execution drivers triggers for a job. While a cancellation is in progress every callback
  tries it again. The other parts of the execution manager (submission, polling, the drivers)
  are not modelled.
\<close>

definition cancelling :: "gw_job_state \<Rightarrow> bool" where
  "cancelling st \<longleftrightarrow>
     st \<in> {GW_JOB_STATE_MIGR_CANCEL, GW_JOB_STATE_STOP_CANCEL, GW_JOB_STATE_KILL_CANCEL}"

definition retry_cancel :: "int \<Rightarrow> gw_job \<Rightarrow> gwd \<Rightarrow> gwd" where
  "retry_cancel jid job s =
     (if cancelling (job_state job) then trigger_em EM_CANCEL jid s else s)"

definition add_stat :: "gw_stat \<Rightarrow> int \<Rightarrow> gw_history \<Rightarrow> gw_history" where
  "add_stat k v h = set_stat k (stats h k + v) h"

text \<open>\<open>stats[total] += time(NULL) - stats[last]\<close>\<close>

definition add_since :: "gw_stat \<Rightarrow> gw_stat \<Rightarrow> int \<Rightarrow> gw_history \<Rightarrow> gw_history" where
  "add_since k lst t h = add_stat k (t - stats h lst) h"

definition gw_em_pending :: "dm_env \<Rightarrow> int option \<Rightarrow> gwd \<Rightarrow> gwd option" where
  "gw_em_pending e = with_job no_job (\<lambda>jid job s.
     let s = retry_cancel jid job s in
     if em_state job = GW_EM_STATE_PENDING then Some s
     else Some (put jid (job\<lparr>em_state := GW_EM_STATE_PENDING\<rparr>) s))"

definition gw_em_active :: "dm_env \<Rightarrow> int option \<Rightarrow> gwd \<Rightarrow> gwd option" where
  "gw_em_active e = with_job no_job (\<lambda>jid job s.
     let s = retry_cancel jid job s in
     if em_state job = GW_EM_STATE_ACTIVE then Some s
     else do {
       job \<leftarrow> upd_top (set_stat LAST_ACTIVE_TIME (now e)
                \<circ> add_since SUSPENSION_TIME LAST_SUSPENSION_TIME (now e)) job;
       let job = job\<lparr>em_state := GW_EM_STATE_ACTIVE\<rparr>;
       let job = (if last_checkpoint_time job = 0 then job\<lparr>last_checkpoint_time := now e\<rparr>
                  else job);
       Some (put jid job s)
     })"

definition gw_em_suspended :: "dm_env \<Rightarrow> int option \<Rightarrow> gwd \<Rightarrow> gwd option" where
  "gw_em_suspended e = with_job no_job (\<lambda>jid job s.
     let s = retry_cancel jid job s; st = em_state job in
     if st = GW_EM_STATE_SUSPENDED then Some s
     else do {
       job \<leftarrow> (if st = GW_EM_STATE_ACTIVE
               then upd_top (add_since ACTIVE_TIME LAST_ACTIVE_TIME (now e)) job else Some job);
       job \<leftarrow> (if st \<noteq> GW_EM_STATE_PENDING
               then upd_top (set_stat LAST_SUSPENSION_TIME (now e)) job else Some job);
       Some (put jid (job\<lparr>em_state := GW_EM_STATE_SUSPENDED\<rparr>) s)
     })"

text \<open>
  The end of the execution. The time since the last change of state is added to the record of
  the host that was executing the job, which during a migration is the previous one.
\<close>

definition gw_em_done :: "dm_env \<Rightarrow> int option \<Rightarrow> gwd \<Rightarrow> gwd option" where
  "gw_em_done e = with_job no_job (\<lambda>jid job s.
     if em_state job = GW_EM_STATE_DONE then Some s
     else do {
       let f = (if em_state job = GW_EM_STATE_ACTIVE
                then add_since ACTIVE_TIME LAST_ACTIVE_TIME (now e)
                else add_since SUSPENSION_TIME LAST_SUSPENSION_TIME (now e));
       job \<leftarrow> (if job_state job = GW_JOB_STATE_MIGR_CANCEL then upd_next f job else upd_top f job);
       Some (trigger_dm DM_WRAPPER_DONE (ARG_ID jid)
              (put jid (job\<lparr>em_state := GW_EM_STATE_DONE\<rparr>) s))
     })"

definition gw_em_failed :: "dm_env \<Rightarrow> int option \<Rightarrow> gwd \<Rightarrow> gwd option" where
  "gw_em_failed e = with_job no_job (\<lambda>jid job s. do {
     job \<leftarrow> (if em_state job = GW_EM_STATE_SUSPENDED \<or> em_state job = GW_EM_STATE_PENDING
             then upd_top (add_since SUSPENSION_TIME LAST_SUSPENSION_TIME (now e)) job
             else Some job);
     job \<leftarrow> (if em_state job = GW_EM_STATE_ACTIVE
             then upd_top (add_since ACTIVE_TIME LAST_ACTIVE_TIME (now e)) job else Some job);
     let job = job\<lparr>em_state := GW_EM_STATE_FAILED\<rparr>;
     h \<leftarrow> hist_top job;
     (if h_tries h \<ge> number_of_retries (template job)
      then do {
        job \<leftarrow> upd_top (\<lambda>h. h\<lparr>h_counter := -1\<rparr>) job;
        Some (trigger_dm DM_WRAPPER_FAILED (ARG_ID jid) (put jid job s)) }
      else do {
        job \<leftarrow> upd_top (\<lambda>h. h\<lparr>h_counter := h_tries h\<rparr>) job;
        Some (put jid job s) })
   })"

end
