(* ===== verification/DM_Account.thy ===== *)
theory DM_Account
  imports DM_Schedule EM_State
begin

text \<open>
  The accounting specification of the daemon. A job is, at every moment, controlled by one
  pending item: an action of the dispatch manager, a request to the transfer manager, or a
  submission to the execution manager. From that item and the state of the job follows its
  phase, and from the phase what it holds of the counters \<open>running_jobs\<close> and \<open>used_slots\<close> of
  its hosts and \<open>running_jobs\<close> of its user. This theory defines these notions, the invariant
  that every counter is the sum of what the jobs hold, and the effect of the primitive
  operations on them.
\<close>

section \<open>What controls a job\<close>

datatype ctl = C_dm dm_action | C_tm tm_action | C_em

definition is_ctl :: "dm_action \<Rightarrow> bool" where
  "is_ctl a \<longleftrightarrow> a \<notin> {DM_FINALIZE, DM_ALLOCATE_JOB, DM_ALLOCATE_ARRAY, DM_HOLD, DM_RELEASE,
     DM_STOP, DM_RESUME, DM_KILL, DM_KILL_HARD, DM_WAIT, DM_RESCHEDULE, DM_TIMER}"

definition dm_ctl :: "(dm_action \<times> am_arg) list \<Rightarrow> int \<Rightarrow> ctl list" where
  "dm_ctl q i = map (C_dm \<circ> fst) (filter (\<lambda>x. is_ctl (fst x) \<and> snd x = ARG_ID i) q)"

definition tm_ctl :: "(tm_action \<times> int) list \<Rightarrow> int \<Rightarrow> ctl list" where
  "tm_ctl q i = map (C_tm \<circ> fst) (filter (\<lambda>x. snd x = i) q)"

definition em_ctl :: "(em_action \<times> int) list \<Rightarrow> int \<Rightarrow> ctl list" where
  "em_ctl q i = map (\<lambda>_. C_em) (filter (\<lambda>x. x = (EM_SUBMIT, i)) q)"

definition ctl_of :: "gwd \<Rightarrow> int \<Rightarrow> ctl list" where
  "ctl_of s i = dm_ctl (dm_am s) i @ tm_ctl (tm_am s) i @ em_ctl (em_am s) i"

section \<open>Phases\<close>

text \<open>
  \<open>P_idle\<close>: nothing is held. \<open>P_run\<close>: a running job and its slots on the current host.
  \<open>P_end\<close>: the slots have been given back. \<open>P_mig_run\<close>: the current and the previous host both
  with slots; \<open>P_mig_move\<close>: the previous host without slots.
\<close>

datatype phase = P_idle | P_run | P_end | P_mig_run | P_mig_move

definition idle_state :: "gw_job_state \<Rightarrow> bool" where
  "idle_state st \<longleftrightarrow> st \<in> {GW_JOB_STATE_INIT, GW_JOB_STATE_PENDING, GW_JOB_STATE_HOLD,
     GW_JOB_STATE_STOPPED, GW_JOB_STATE_FAILED, GW_JOB_STATE_ZOMBIE}"

definition exec_state :: "gw_job_state \<Rightarrow> bool" where
  "exec_state st \<longleftrightarrow> st \<in> {GW_JOB_STATE_PRE_WRAPPER, GW_JOB_STATE_WRAPPER,
     GW_JOB_STATE_STOP_CANCEL, GW_JOB_STATE_KILL_CANCEL}"

definition end_state :: "gw_job_state \<Rightarrow> bool" where
  "end_state st \<longleftrightarrow> st \<in> {GW_JOB_STATE_EPILOG, GW_JOB_STATE_EPILOG_STD,
     GW_JOB_STATE_EPILOG_FAIL, GW_JOB_STATE_EPILOG_RESTART, GW_JOB_STATE_STOP_EPILOG,
     GW_JOB_STATE_KILL_EPILOG}"

text \<open>The states from which the wrapper's end may still be followed by a cancelled wrapper.\<close>

definition left_state :: "gw_job_state \<Rightarrow> bool" where
  "left_state st \<longleftrightarrow>
     st \<in> {GW_JOB_STATE_WRAPPER, GW_JOB_STATE_STOP_CANCEL, GW_JOB_STATE_KILL_CANCEL}"

definition prolog_phase :: "gw_job_state \<Rightarrow> phase option" where
  "prolog_phase st =
     (if st = GW_JOB_STATE_PROLOG then Some P_run
      else if st = GW_JOB_STATE_MIGR_PROLOG then Some P_mig_move else None)"

definition exec_phase :: "gw_job_state \<Rightarrow> phase option" where
  "exec_phase st =
     (if exec_state st then Some P_run
      else if st = GW_JOB_STATE_MIGR_CANCEL then Some P_mig_run else None)"

definition epilog_phase :: "gw_job_state \<Rightarrow> phase option" where
  "epilog_phase st =
     (if end_state st then Some P_end
      else if st = GW_JOB_STATE_MIGR_EPILOG then Some P_mig_move else None)"

definition when_in :: "bool \<Rightarrow> phase \<Rightarrow> phase option" where
  "when_in b p = (if b then Some p else None)"

fun action_phase :: "dm_action \<Rightarrow> gw_job_state \<Rightarrow> phase option" where
  "action_phase DM_STATE_PROLOG st =
     when_in (st = GW_JOB_STATE_PENDING \<or> st = GW_JOB_STATE_HOLD \<or> st = GW_JOB_STATE_PROLOG) P_run"
| "action_phase DM_PROLOG_DONE st = prolog_phase st"
| "action_phase DM_PROLOG_FAILED st = prolog_phase st"
| "action_phase DM_STATE_PRE_WRAPPER st = when_in (st = GW_JOB_STATE_PROLOG) P_run"
| "action_phase DM_STATE_WRAPPER st =
     when_in (st = GW_JOB_STATE_PROLOG \<or> st = GW_JOB_STATE_PRE_WRAPPER
              \<or> st = GW_JOB_STATE_MIGR_EPILOG) P_run"
| "action_phase DM_WRAPPER_DONE st = exec_phase st"
| "action_phase DM_WRAPPER_FAILED st = when_in (exec_state st) P_run"
| "action_phase DM_STATE_MIGR_PROLOG st = when_in (st = GW_JOB_STATE_MIGR_CANCEL) P_mig_move"
| "action_phase DM_STATE_MIGR_EPILOG st = when_in (st = GW_JOB_STATE_MIGR_PROLOG) P_mig_move"
| "action_phase DM_STATE_EPILOG_STD st = when_in (left_state st) P_end"
| "action_phase DM_STATE_EPILOG st =
     when_in (left_state st \<or> st = GW_JOB_STATE_EPILOG_STD) P_end"
| "action_phase DM_STATE_STOP_EPILOG st = when_in (st = GW_JOB_STATE_STOP_CANCEL) P_end"
| "action_phase DM_STATE_KILL_EPILOG st = when_in (st = GW_JOB_STATE_KILL_CANCEL) P_end"
| "action_phase DM_STATE_EPILOG_FAIL st = when_in (exec_state st) P_end"
| "action_phase DM_STATE_EPILOG_RESTART st = when_in (st = GW_JOB_STATE_EPILOG_STD) P_end"
| "action_phase DM_EPILOG_DONE st = epilog_phase st"
| "action_phase DM_EPILOG_FAILED st = epilog_phase st"
| "action_phase DM_STATE_PENDING st =
     when_in (st \<in> {GW_JOB_STATE_PROLOG, GW_JOB_STATE_MIGR_PROLOG} \<or> end_state st) P_end"
| "action_phase DM_STATE_FAILED st =
     when_in (st \<in> {GW_JOB_STATE_PROLOG, GW_JOB_STATE_MIGR_PROLOG} \<or> end_state st) P_end"
| "action_phase DM_STATE_ZOMBIE st =
     when_in (st = GW_JOB_STATE_EPILOG \<or> st = GW_JOB_STATE_KILL_EPILOG) P_end"
| "action_phase DM_STATE_STOPPED st = when_in (st = GW_JOB_STATE_STOP_EPILOG) P_end"
| "action_phase _ st = None"

definition phase_of :: "ctl list \<Rightarrow> gw_job_state \<Rightarrow> phase option" where
  "phase_of cs st =
     (if cs = [] then when_in (idle_state st) P_idle
      else if cs = [C_dm DM_STATE_MIGR_CANCEL, C_em]
      then when_in (st = GW_JOB_STATE_WRAPPER) P_mig_run
      else case cs of
        [C_dm a] \<Rightarrow> action_phase a st
      | [C_tm TM_PROLOG] \<Rightarrow> prolog_phase st
      | [C_tm TM_EPILOG] \<Rightarrow> epilog_phase st
      | [C_em] \<Rightarrow> exec_phase st
      | _ \<Rightarrow> None)"

section \<open>What a job holds\<close>

definition host_of :: "gw_job \<Rightarrow> nat \<Rightarrow> int option" where
  "host_of j k = (if k < length (history j) then h_host (history j ! k) else None)"

definition on_host :: "gw_job \<Rightarrow> nat \<Rightarrow> int \<Rightarrow> int" where
  "on_host j k hid = (if host_of j k = Some hid then 1 else 0)"

fun r_claim :: "phase \<Rightarrow> gw_job \<Rightarrow> int \<Rightarrow> int" where
  "r_claim P_idle j hid = 0"
| "r_claim P_run j hid = on_host j 0 hid"
| "r_claim P_end j hid = on_host j 0 hid"
| "r_claim P_mig_run j hid = on_host j 0 hid + on_host j 1 hid"
| "r_claim P_mig_move j hid = on_host j 0 hid + on_host j 1 hid"

fun u_claim :: "phase \<Rightarrow> gw_job \<Rightarrow> int \<Rightarrow> int" where
  "u_claim P_idle j hid = 0"
| "u_claim P_run j hid = np (template j) * on_host j 0 hid"
| "u_claim P_end j hid = 0"
| "u_claim P_mig_run j hid = np (template j) * (on_host j 0 hid + on_host j 1 hid)"
| "u_claim P_mig_move j hid = np (template j) * on_host j 0 hid"

definition n_claim :: "phase \<Rightarrow> gw_job \<Rightarrow> int \<Rightarrow> int" where
  "n_claim p j uid = (if p \<noteq> P_idle \<and> user_id j = uid then 1 else 0)"

definition job_phase :: "gwd \<Rightarrow> int \<Rightarrow> gw_job \<Rightarrow> phase" where
  "job_phase s i j = (case phase_of (ctl_of s i) (job_state j) of Some p \<Rightarrow> p | None \<Rightarrow> P_idle)"

definition claim :: "(phase \<Rightarrow> gw_job \<Rightarrow> int \<Rightarrow> int) \<Rightarrow> gwd \<Rightarrow> int \<Rightarrow> int \<Rightarrow> int" where
  "claim f s i x = (case get_job s i of None \<Rightarrow> 0 | Some j \<Rightarrow> f (job_phase s i j) j x)"

definition total :: "(phase \<Rightarrow> gw_job \<Rightarrow> int \<Rightarrow> int) \<Rightarrow> gwd \<Rightarrow> int \<Rightarrow> int" where
  "total f s x = (\<Sum>i<length (pool (gd_jobs s)). claim f s (int i) x)"

text \<open>The counters themselves.\<close>

definition get_user :: "gwd \<Rightarrow> int \<Rightarrow> gw_user option" where
  "get_user s uid = slot_get (users (gd_users s)) uid"

definition rjobs :: "gwd \<Rightarrow> int \<Rightarrow> int" where
  "rjobs s hid = (case get_host s hid of None \<Rightarrow> 0 | Some h \<Rightarrow> running_jobs h)"

definition uslots :: "gwd \<Rightarrow> int \<Rightarrow> int" where
  "uslots s hid = (case get_host s hid of None \<Rightarrow> 0 | Some h \<Rightarrow> used_slots h)"

definition urun :: "gwd \<Rightarrow> int \<Rightarrow> int" where
  "urun s uid = (case get_user s uid of None \<Rightarrow> 0 | Some u \<Rightarrow> user_running_jobs u)"

section \<open>The invariant\<close>

definition template_ok :: "gw_job_template \<Rightarrow> bool" where
  "template_ok t \<longleftrightarrow> (\<forall>f\<in>set (input_files t). fst f \<noteq> None) \<and>
     (\<forall>f\<in>set (output_files t). fst f \<noteq> None) \<and> None \<notin> set (restart_files t)"

text \<open>The records the phase needs: their hosts are in the pool.\<close>

definition hosted :: "gwd \<Rightarrow> gw_job \<Rightarrow> nat \<Rightarrow> bool" where
  "hosted s j k \<longleftrightarrow> (\<exists>hid. host_of j k = Some hid \<and> get_host s hid \<noteq> None)"

definition hist_ok :: "gwd \<Rightarrow> phase \<Rightarrow> gw_job \<Rightarrow> bool" where
  "hist_ok s p j \<longleftrightarrow>
     (p \<noteq> P_idle \<longrightarrow> hosted s j 0 \<and> get_user s (user_id j) \<noteq> None \<and>
        (restarted j \<noteq> 0 \<longrightarrow> 2 \<le> length (history j))) \<and>
     (p = P_mig_run \<or> p = P_mig_move \<longrightarrow> hosted s j 1) \<and>
     (restarted j \<noteq> 0 \<longrightarrow> history j \<noteq> []) \<and>
     (job_state j \<in> {GW_JOB_STATE_FAILED, GW_JOB_STATE_STOPPED} \<longrightarrow> history j \<noteq> [])"

definition job_ok :: "gwd \<Rightarrow> int \<Rightarrow> gw_job \<Rightarrow> bool" where
  "job_ok s i j \<longleftrightarrow> (\<exists>p. phase_of (ctl_of s i) (job_state j) = Some p \<and> hist_ok s p j) \<and>
     template_ok (template j) \<and> job_id j = i \<and> 0 \<le> restarted j"

definition local_ok :: "gwd \<Rightarrow> int \<Rightarrow> bool" where
  "local_ok s i = (case get_job s i of None \<Rightarrow> ctl_of s i = [] | Some j \<Rightarrow> job_ok s i j)"

definition balanced :: "gwd \<Rightarrow> bool" where
  "balanced s \<longleftrightarrow>
     (\<forall>hid. get_host s hid \<noteq> None \<longrightarrow> rjobs s hid = total r_claim s hid
        \<and> uslots s hid = total u_claim s hid) \<and>
     (\<forall>uid. get_user s uid \<noteq> None \<longrightarrow> urun s uid = total n_claim s uid)"

definition no_finalize :: "gwd \<Rightarrow> bool" where
  "no_finalize s \<longleftrightarrow> DM_FINALIZE \<notin> fst ` set (dm_am s)"

definition gwd_inv :: "gwd \<Rightarrow> bool" where
  "gwd_inv s \<longleftrightarrow> (\<forall>i. local_ok s i) \<and> balanced s \<and> no_finalize s"

section \<open>Changing one job\<close>

lemma get_job_range: "get_job s i = Some j \<Longrightarrow> 0 \<le> i \<and> nat i < length (pool (gd_jobs s))"
  using slot_get_Some_range by (fastforce simp: get_job_def gw_job_pool_get_def)

definition same_pool :: "gwd \<Rightarrow> gwd \<Rightarrow> bool" where
  "same_pool s s' \<longleftrightarrow> length (pool (gd_jobs s')) = length (pool (gd_jobs s)) \<and>
     (\<forall>h. (get_host s' h = None) = (get_host s h = None)) \<and>
     (\<forall>u. (get_user s' u = None) = (get_user s u = None))"

definition same_elsewhere :: "gwd \<Rightarrow> gwd \<Rightarrow> int \<Rightarrow> bool" where
  "same_elsewhere s s' i \<longleftrightarrow>
     (\<forall>k. k \<noteq> i \<longrightarrow> get_job s' k = get_job s k \<and> ctl_of s' k = ctl_of s k)"

lemma claim_same:
  "same_elsewhere s s' i \<Longrightarrow> k \<noteq> i \<Longrightarrow> claim f s' k x = claim f s k x"
  by (auto simp: claim_def same_elsewhere_def job_phase_def split: option.split)

lemma claim_outside:
  "\<not> (0 \<le> i \<and> nat i < length (pool (gd_jobs s))) \<Longrightarrow> claim f s i x = 0"
  using get_job_range [of s i] by (auto simp: claim_def split: option.split)

lemma total_change:
  assumes "same_pool s s'" and "same_elsewhere s s' i"
  shows "total f s' x - total f s x = claim f s' i x - claim f s i x"
proof -
  let ?n = "length (pool (gd_jobs s))"
  have n: "length (pool (gd_jobs s')) = ?n" using assms(1) by (simp add: same_pool_def)
  show ?thesis
  proof (cases "0 \<le> i \<and> nat i < ?n")
    case True
    have "total f s' x - total f s x = (\<Sum>k<?n. claim f s' (int k) x - claim f s (int k) x)"
      by (simp add: total_def n sum_subtractf)
    also have "\<dots> = (\<Sum>k\<in>{nat i}. claim f s' (int k) x - claim f s (int k) x)"
    proof (rule sum.mono_neutral_right)
      show "\<forall>k\<in>{..<?n} - {nat i}. claim f s' (int k) x - claim f s (int k) x = 0"
      proof
        fix k
        assume "k \<in> {..<?n} - {nat i}"
        then have "int k \<noteq> i" by auto
        then show "claim f s' (int k) x - claim f s (int k) x = 0"
          using claim_same [OF assms(2)] by simp
      qed
    qed (use True in auto)
    finally show ?thesis using True by simp
  next
    case False
    then have "claim f s' i x = 0" "claim f s i x = 0"
      using claim_outside [of i s'] claim_outside [of i s] n by auto
    moreover have "total f s' x = total f s x"
      unfolding total_def n
      by (rule sum.cong) (use claim_same [OF assms(2)] False in auto)
    ultimately show ?thesis by simp
  qed
qed

lemma hist_ok_same:
  "same_pool s s' \<Longrightarrow> hist_ok s' p j = hist_ok s p j"
  by (auto simp: same_pool_def hist_ok_def hosted_def)

text \<open>
  The proof rule of every step: only job \<open>i\<close> changes, it is well-formed afterwards, and the
  counters move by the difference of what it holds.
\<close>

lemma inv_change:
  assumes inv: "gwd_inv s" and pool: "same_pool s s'" and els: "same_elsewhere s s' i"
    and ok: "local_ok s' i" and fin: "no_finalize s'"
    and r: "\<And>h. get_host s h \<noteq> None \<Longrightarrow> rjobs s' h - rjobs s h = claim r_claim s' i h - claim r_claim s i h"
    and u: "\<And>h. get_host s h \<noteq> None \<Longrightarrow> uslots s' h - uslots s h = claim u_claim s' i h - claim u_claim s i h"
    and n: "\<And>w. get_user s w \<noteq> None \<Longrightarrow> urun s' w - urun s w = claim n_claim s' i w - claim n_claim s i w"
  shows "gwd_inv s'"
proof -
  have "local_ok s' k" for k
  proof (cases "k = i")
    case True
    then show ?thesis using ok by simp
  next
    case False
    then have "local_ok s k" "get_job s' k = get_job s k" "ctl_of s' k = ctl_of s k"
      using inv els by (auto simp: gwd_inv_def same_elsewhere_def)
    then show ?thesis using hist_ok_same [OF pool]
      by (auto simp: local_ok_def job_ok_def split: option.splits)
  qed
  moreover have "balanced s'"
  proof -
    have b: "balanced s" using inv by (simp add: gwd_inv_def)
    have "rjobs s' h = total r_claim s' h \<and> uslots s' h = total u_claim s' h"
      if "get_host s' h \<noteq> None" for h
    proof -
      have g: "get_host s h \<noteq> None" using that pool unfolding same_pool_def by metis
      have "rjobs s h = total r_claim s h" "uslots s h = total u_claim s h"
        using b g by (auto simp: balanced_def)
      then show ?thesis
        using r [OF g] u [OF g] total_change [OF pool els, of r_claim h]
          total_change [OF pool els, of u_claim h] by linarith
    qed
    moreover have "urun s' w = total n_claim s' w" if "get_user s' w \<noteq> None" for w
    proof -
      have g: "get_user s w \<noteq> None" using that pool unfolding same_pool_def by metis
      have "urun s w = total n_claim s w" using b g by (auto simp: balanced_def)
      then show ?thesis using n [OF g] total_change [OF pool els, of n_claim w] by linarith
    qed
    ultimately show ?thesis by (auto simp: balanced_def)
  qed
  ultimately show ?thesis using fin by (simp add: gwd_inv_def)
qed

end
