(* ===== verification/DM_Prims.thy ===== *)
theory DM_Prims
  imports DM_Account
begin

text \<open>
  How the primitive operations of \<open>GW_Sys\<close> act on what the accounting invariant looks at: the
  jobs, the control items, the counters. These facts are the simplification rules of the
  collection \<open>gw_frame\<close>; a handler is executed symbolically with them.
\<close>

section \<open>Counters of a host\<close>

definition host_upd :: "(gw_host \<Rightarrow> gw_host \<times> sched_msg) \<Rightarrow> int \<Rightarrow> gwd \<Rightarrow> gwd" where
  "host_upd f hid s = the (host_op f (Some hid) s)"

lemma host_op_upd:
  "get_host s hid \<noteq> None \<Longrightarrow> host_op f (Some hid) s = Some (host_upd f hid s)"
  by (auto simp: host_upd_def host_op_def)

lemma host_upd_other:
  assumes "get_host s hid \<noteq> None"
  shows "gd_jobs (host_upd f hid s) = gd_jobs s" "gd_users (host_upd f hid s) = gd_users s"
    "dm_am (host_upd f hid s) = dm_am s" "tm_am (host_upd f hid s) = tm_am s"
    "em_am (host_upd f hid s) = em_am s" "gd_deps (host_upd f hid s) = gd_deps s"
    "gd_arrays (host_upd f hid s) = gd_arrays s" "rm_am (host_upd f hid s) = rm_am s"
  using assms by (auto simp: host_upd_def host_op_def send_def)

lemma host_upd_get:
  assumes "get_host s hid = Some h"
  shows "get_host (host_upd f hid s) k = (if k = hid then Some (fst (f h)) else get_host s k)"
  using assms
  by (auto simp: host_upd_def host_op_def send_def get_host_def gw_host_pool_get_host_def)

lemma host_upd_none:
  assumes "get_host s hid \<noteq> None"
  shows "(get_host (host_upd f hid s) k = None) = (get_host s k = None)"
  using assms host_upd_get by (auto split: if_splits)

lemma host_counters:
  assumes "get_host s hid \<noteq> None"
  shows "rjobs (host_upd gw_host_dec_rjobs hid s) k = rjobs s k - (if k = hid then 1 else 0)"
    "uslots (host_upd gw_host_dec_rjobs hid s) k = uslots s k"
    "rjobs (host_upd (gw_host_dec_uslots n) hid s) k = rjobs s k"
    "uslots (host_upd (gw_host_dec_uslots n) hid s) k = uslots s k - (if k = hid then n else 0)"
    "rjobs (host_upd (gw_host_inc_slots_nb n) hid s) k = rjobs s k + (if k = hid then 1 else 0)"
    "uslots (host_upd (gw_host_inc_slots_nb n) hid s) k = uslots s k + (if k = hid then n else 0)"
  using assms
  by (auto simp: rjobs_def uslots_def host_upd_get gw_host_dec_rjobs_def gw_host_dec_uslots_def
      gw_host_inc_slots_nb_def Let_def split: option.splits if_splits)

lemmas view_defs = get_job_def ctl_of_def get_host_def rjobs_def uslots_def urun_def get_user_def

section \<open>The components each primitive leaves alone\<close>

lemma put_comp [simp]:
  "gd_users (put i j s) = gd_users s" "gd_hosts (put i j s) = gd_hosts s"
  "dm_am (put i j s) = dm_am s" "tm_am (put i j s) = tm_am s" "em_am (put i j s) = em_am s"
  "gd_deps (put i j s) = gd_deps s" "gd_arrays (put i j s) = gd_arrays s"
  "length (pool (gd_jobs (put i j s))) = length (pool (gd_jobs s))"
  by (simp_all add: put_def put_job_def)

lemma send_comp [simp]:
  "gd_jobs (send m s) = gd_jobs s" "gd_users (send m s) = gd_users s"
  "gd_hosts (send m s) = gd_hosts s" "dm_am (send m s) = dm_am s" "tm_am (send m s) = tm_am s"
  "em_am (send m s) = em_am s" "gd_deps (send m s) = gd_deps s" "gd_arrays (send m s) = gd_arrays s"
  by (simp_all add: send_def)

lemma sends_comp [simp]:
  "gd_jobs (sends m s) = gd_jobs s" "gd_users (sends m s) = gd_users s"
  "gd_hosts (sends m s) = gd_hosts s" "dm_am (sends m s) = dm_am s" "tm_am (sends m s) = tm_am s"
  "em_am (sends m s) = em_am s" "gd_deps (sends m s) = gd_deps s" "gd_arrays (sends m s) = gd_arrays s"
  by (simp_all add: sends_def)

lemma log_comp [simp]:
  "gd_jobs (log_state e j s) = gd_jobs s" "gd_users (log_state e j s) = gd_users s"
  "gd_hosts (log_state e j s) = gd_hosts s" "dm_am (log_state e j s) = dm_am s"
  "tm_am (log_state e j s) = tm_am s" "em_am (log_state e j s) = em_am s"
  "gd_deps (log_state e j s) = gd_deps s" "gd_arrays (log_state e j s) = gd_arrays s"
  by (simp_all add: log_state_def)

lemma trigger_comp [simp]:
  "gd_jobs (trigger_dm a x s) = gd_jobs s" "gd_users (trigger_dm a x s) = gd_users s"
  "gd_hosts (trigger_dm a x s) = gd_hosts s" "tm_am (trigger_dm a x s) = tm_am s"
  "em_am (trigger_dm a x s) = em_am s" "gd_deps (trigger_dm a x s) = gd_deps s"
  "gd_arrays (trigger_dm a x s) = gd_arrays s"
  by (simp_all add: trigger_dm_def)

lemma trigger_tm_comp [simp]:
  "gd_jobs (trigger_tm b i s) = gd_jobs s" "gd_users (trigger_tm b i s) = gd_users s"
  "gd_hosts (trigger_tm b i s) = gd_hosts s" "dm_am (trigger_tm b i s) = dm_am s"
  "em_am (trigger_tm b i s) = em_am s"
  by (simp_all add: trigger_tm_def)

lemma trigger_em_comp [simp]:
  "gd_jobs (trigger_em b i s) = gd_jobs s" "gd_users (trigger_em b i s) = gd_users s"
  "gd_hosts (trigger_em b i s) = gd_hosts s" "dm_am (trigger_em b i s) = dm_am s"
  "tm_am (trigger_em b i s) = tm_am s"
  by (simp_all add: trigger_em_def)

lemma trigger_rm_comp [simp]:
  "gd_jobs (trigger_rm b i s) = gd_jobs s" "gd_users (trigger_rm b i s) = gd_users s"
  "gd_hosts (trigger_rm b i s) = gd_hosts s" "dm_am (trigger_rm b i s) = dm_am s"
  "tm_am (trigger_rm b i s) = tm_am s" "em_am (trigger_rm b i s) = em_am s"
  "gd_deps (trigger_rm b i s) = gd_deps s" "gd_arrays (trigger_rm b i s) = gd_arrays s"
  by (simp_all add: trigger_rm_def)

lemma user_op_comp [simp]:
  "gd_jobs (user_op f s) = gd_jobs s" "gd_hosts (user_op f s) = gd_hosts s"
  "dm_am (user_op f s) = dm_am s" "tm_am (user_op f s) = tm_am s" "em_am (user_op f s) = em_am s"
  "gd_deps (user_op f s) = gd_deps s" "gd_arrays (user_op f s) = gd_arrays s"
  by (simp_all add: user_op_def)

section \<open>The view of the invariant\<close>

lemma view_put [gw_frame]:
  "get_job s i = Some j0 \<Longrightarrow> get_job (put i j s) k = (if k = i then Some j else get_job s k)"
  "ctl_of (put i j s) k = ctl_of s k" "get_host (put i j s) h = get_host s h"
  "rjobs (put i j s) h = rjobs s h" "uslots (put i j s) h = uslots s h"
  "urun (put i j s) w = urun s w" "get_user (put i j s) w = get_user s w"
  by (simp_all add: view_defs)
     (simp add: gw_job_pool_get_def put_def put_job_def)

lemma view_send [gw_frame]:
  "get_job (send m s) k = get_job s k" "ctl_of (send m s) k = ctl_of s k"
  "get_host (send m s) h = get_host s h" "rjobs (send m s) h = rjobs s h"
  "uslots (send m s) h = uslots s h" "urun (send m s) w = urun s w"
  "get_user (send m s) w = get_user s w"
  by (simp_all add: view_defs)

lemma view_sends [gw_frame]:
  "get_job (sends m s) k = get_job s k" "ctl_of (sends m s) k = ctl_of s k"
  "get_host (sends m s) h = get_host s h" "rjobs (sends m s) h = rjobs s h"
  "uslots (sends m s) h = uslots s h" "urun (sends m s) w = urun s w"
  "get_user (sends m s) w = get_user s w"
  by (simp_all add: view_defs)

lemma view_log [gw_frame]:
  "get_job (log_state e j s) k = get_job s k" "ctl_of (log_state e j s) k = ctl_of s k"
  "get_host (log_state e j s) h = get_host s h" "rjobs (log_state e j s) h = rjobs s h"
  "uslots (log_state e j s) h = uslots s h" "urun (log_state e j s) w = urun s w"
  "get_user (log_state e j s) w = get_user s w"
  by (simp_all add: view_defs)

lemma view_rm [gw_frame]:
  "get_job (trigger_rm b x s) k = get_job s k" "ctl_of (trigger_rm b x s) k = ctl_of s k"
  "get_host (trigger_rm b x s) h = get_host s h" "rjobs (trigger_rm b x s) h = rjobs s h"
  "uslots (trigger_rm b x s) h = uslots s h" "urun (trigger_rm b x s) w = urun s w"
  "get_user (trigger_rm b x s) w = get_user s w"
  by (simp_all add: view_defs)

lemma view_trigger [gw_frame]:
  "get_job (trigger_dm a x s) k = get_job s k" "get_host (trigger_dm a x s) h = get_host s h"
  "rjobs (trigger_dm a x s) h = rjobs s h" "uslots (trigger_dm a x s) h = uslots s h"
  "urun (trigger_dm a x s) w = urun s w" "get_user (trigger_dm a x s) w = get_user s w"
  by (simp_all add: view_defs)

lemma view_tm [gw_frame]:
  "get_job (trigger_tm b i s) k = get_job s k" "get_host (trigger_tm b i s) h = get_host s h"
  "rjobs (trigger_tm b i s) h = rjobs s h" "uslots (trigger_tm b i s) h = uslots s h"
  "urun (trigger_tm b i s) w = urun s w" "get_user (trigger_tm b i s) w = get_user s w"
  by (simp_all add: view_defs)

lemma view_em [gw_frame]:
  "get_job (trigger_em b i s) k = get_job s k" "get_host (trigger_em b i s) h = get_host s h"
  "rjobs (trigger_em b i s) h = rjobs s h" "uslots (trigger_em b i s) h = uslots s h"
  "urun (trigger_em b i s) w = urun s w" "get_user (trigger_em b i s) w = get_user s w"
  by (simp_all add: view_defs)

lemma view_host [gw_frame]:
  assumes "get_host s hid \<noteq> None"
  shows "get_job (host_upd f hid s) k = get_job s k" "ctl_of (host_upd f hid s) k = ctl_of s k"
    "urun (host_upd f hid s) w = urun s w" "get_user (host_upd f hid s) w = get_user s w"
  using host_upd_other [OF assms, of f] by (simp_all add: view_defs)

lemma ctl_trigger_dm:
  assumes "no_finalize s" and "is_ctl a"
  shows "ctl_of (trigger_dm a (ARG_ID i) s) k =
     dm_ctl (dm_am s) k @ (if k = i then [C_dm a] else []) @ tm_ctl (tm_am s) k @ em_ctl (em_am s) k"
  using assms
  by (cases "dm_am s") (auto simp: ctl_of_def trigger_dm_def dm_ctl_def no_finalize_def)

lemma ctl_empty_parts:
  "ctl_of s i = [] \<Longrightarrow> dm_ctl (dm_am s) i = [] \<and> tm_ctl (tm_am s) i = [] \<and> em_ctl (em_am s) i = []"
  by (simp add: ctl_of_def)

text \<open>The three ways to hand a job without a control item over.\<close>

lemma ctl_hand_dm [gw_frame]:
  assumes "no_finalize s" and "is_ctl a" and "ctl_of s i = []"
  shows "ctl_of (trigger_dm a (ARG_ID i) s) k = (if k = i then [C_dm a] else ctl_of s k)"
  using ctl_trigger_dm [OF assms(1,2)] ctl_empty_parts [OF assms(3)] by (auto simp: ctl_of_def)

lemma ctl_hand_tm [gw_frame]:
  assumes "ctl_of s i = []"
  shows "ctl_of (trigger_tm b i s) k = (if k = i then [C_tm b] else ctl_of s k)"
  using ctl_empty_parts [OF assms] by (auto simp: ctl_of_def trigger_tm_def tm_ctl_def)

lemma ctl_hand_em [gw_frame]:
  assumes "ctl_of s i = []"
  shows "ctl_of (trigger_em EM_SUBMIT i s) k = (if k = i then [C_em] else ctl_of s k)"
  using ctl_empty_parts [OF assms] by (auto simp: ctl_of_def trigger_em_def em_ctl_def)

lemma ctl_cancel [gw_frame]: "ctl_of (trigger_em EM_CANCEL i s) k = ctl_of s k"
  by (simp add: ctl_of_def trigger_em_def em_ctl_def)

lemma ctl_request [gw_frame]:
  "\<not> is_ctl a \<Longrightarrow> ctl_of (trigger_dm a x s) k = ctl_of s k"
  by (auto simp: ctl_of_def trigger_dm_def dm_ctl_def)

section \<open>Users\<close>

lemma user_op_update:
  "gd_users (user_op (user_update i f) s) = fst (user_update i f (gd_users s))"
  by (simp add: user_op_def)

lemma user_update_get:
  "slot_get (users (fst (user_update i f up))) k =
     (if k = i then map_option f (slot_get (users up) k) else slot_get (users up) k)"
  by (auto simp: user_update_def split: option.split)

lemma view_user_dec [gw_frame]:
  "get_job (user_dec_running i s) k = get_job s k" "ctl_of (user_dec_running i s) k = ctl_of s k"
  "get_host (user_dec_running i s) h = get_host s h" "rjobs (user_dec_running i s) h = rjobs s h"
  "uslots (user_dec_running i s) h = uslots s h"
  "(get_user (user_dec_running i s) w = None) = (get_user s w = None)"
  "get_user s w \<noteq> None \<Longrightarrow>
     urun (user_dec_running i s) w = urun s w - (if w = i then 1 else 0)"
  by (auto simp: user_dec_running_def gw_user_pool_dec_running_jobs_def view_defs
      user_op_update user_update_get split: option.split)

lemma view_user_inc [gw_frame]:
  "get_job (user_op (gw_user_pool_inc_running_jobs i 1) s) k = get_job s k"
  "ctl_of (user_op (gw_user_pool_inc_running_jobs i 1) s) k = ctl_of s k"
  "get_host (user_op (gw_user_pool_inc_running_jobs i 1) s) h = get_host s h"
  "rjobs (user_op (gw_user_pool_inc_running_jobs i 1) s) h = rjobs s h"
  "uslots (user_op (gw_user_pool_inc_running_jobs i 1) s) h = uslots s h"
  "(get_user (user_op (gw_user_pool_inc_running_jobs i 1) s) w = None) = (get_user s w = None)"
  "get_user s w \<noteq> None \<Longrightarrow> urun (user_op (gw_user_pool_inc_running_jobs i 1) s) w =
     urun s w + (if w = i then 1 else 0)"
  by (auto simp: gw_user_pool_inc_running_jobs_def view_defs user_op_update user_update_get split: option.split)

lemma view_user_jobs [gw_frame]:
  "get_job (user_op (gw_user_pool_dec_jobs i) s) k = get_job s k"
  "ctl_of (user_op (gw_user_pool_dec_jobs i) s) k = ctl_of s k"
  "get_host (user_op (gw_user_pool_dec_jobs i) s) h = get_host s h"
  "rjobs (user_op (gw_user_pool_dec_jobs i) s) h = rjobs s h"
  "uslots (user_op (gw_user_pool_dec_jobs i) s) h = uslots s h"
  "(get_user (user_op (gw_user_pool_dec_jobs i) s) w = None) = (get_user s w = None)"
  "urun (user_op (gw_user_pool_dec_jobs i) s) w = urun s w"
  by (auto simp: gw_user_pool_dec_jobs_def view_defs user_op_update user_update_get split: option.split)

lemma view_user_inc_jobs [gw_frame]:
  "get_job (user_op (gw_user_pool_inc_jobs i n) s) k = get_job s k"
  "ctl_of (user_op (gw_user_pool_inc_jobs i n) s) k = ctl_of s k"
  "get_host (user_op (gw_user_pool_inc_jobs i n) s) h = get_host s h"
  "rjobs (user_op (gw_user_pool_inc_jobs i n) s) h = rjobs s h"
  "uslots (user_op (gw_user_pool_inc_jobs i n) s) h = uslots s h"
  "(get_user (user_op (gw_user_pool_inc_jobs i n) s) w = None) = (get_user s w = None)"
  "urun (user_op (gw_user_pool_inc_jobs i n) s) w = urun s w"
  by (auto simp: gw_user_pool_inc_jobs_def view_defs user_op_update user_update_get split: option.split)

end
