(* ===== verification/DM_Moves.thy ===== *)
theory DM_Moves
  imports DM_Prims
begin

text \<open>
  What each handler of a control action does to the job it is for: one lemma per handler, all
  of the same form. From the phase of the job before the action follows that the handler never
  reads through a missing history record or host, which phase the job is in afterwards, and
  that the counters moved by the difference of what it holds.
\<close>

definition settled :: "gwd \<Rightarrow> int \<Rightarrow> phase \<Rightarrow> gw_job \<Rightarrow> gwd \<Rightarrow> phase \<Rightarrow> gw_job \<Rightarrow> bool" where
  "settled s i p j s' p' j' \<longleftrightarrow>
     same_pool s s' \<and> same_elsewhere s s' i \<and> no_finalize s' \<and>
     hist_ok s p' j' \<and> template_ok (template j') \<and> job_id j' = job_id j \<and> 0 \<le> restarted j' \<and>
     (\<forall>h. get_host s h \<noteq> None \<longrightarrow> rjobs s' h - rjobs s h = r_claim p' j' h - r_claim p j h) \<and>
     (\<forall>h. get_host s h \<noteq> None \<longrightarrow> uslots s' h - uslots s h = u_claim p' j' h - u_claim p j h) \<and>
     (\<forall>w. get_user s w \<noteq> None \<longrightarrow> urun s' w - urun s w = n_claim p' j' w - n_claim p j w)"

text \<open>The result of the handler is defined, the job is still there, and it is in some phase.\<close>

definition moved :: "gwd \<Rightarrow> int \<Rightarrow> phase \<Rightarrow> gw_job \<Rightarrow> gwd option \<Rightarrow> bool" where
  "moved s i p j r \<longleftrightarrow>
     (case r of None \<Rightarrow> False
      | Some s' \<Rightarrow> (case get_job s' i of None \<Rightarrow> False
         | Some j' \<Rightarrow> (case phase_of (ctl_of s' i) (job_state j') of None \<Rightarrow> False
            | Some p' \<Rightarrow> settled s i p j s' p' j')))"

text \<open>The situation a handler of a control action starts in.\<close>

definition ready :: "gwd \<Rightarrow> int \<Rightarrow> phase \<Rightarrow> gw_job \<Rightarrow> bool" where
  "ready s i p j \<longleftrightarrow> get_job s i = Some j \<and> ctl_of s i = [] \<and> no_finalize s \<and> hist_ok s p j \<and>
     template_ok (template j) \<and> job_id j = i \<and> 0 \<le> restarted j"

named_theorems gw_job_simps \<open>what the updates of a job leave unchanged\<close>

section \<open>Symbolic execution\<close>

lemma no_finalize_frame [gw_frame]:
  "no_finalize (put i j s) = no_finalize s" "no_finalize (send m s) = no_finalize s"
  "no_finalize (log_state e j s) = no_finalize s" "no_finalize (trigger_rm b x s) = no_finalize s"
  "no_finalize (trigger_tm c k s) = no_finalize s" "no_finalize (trigger_em d k s) = no_finalize s"
  "no_finalize (user_op f s) = no_finalize s" "no_finalize (user_dec_running k s) = no_finalize s"
  by (simp_all add: no_finalize_def user_dec_running_def)

lemma no_finalize_host [gw_frame]:
  "get_host s h \<noteq> None \<Longrightarrow> no_finalize (host_upd f h s) = no_finalize s"
  using host_upd_other [of s h f] by (simp add: no_finalize_def)

lemma no_finalize_trigger [gw_frame]:
  "no_finalize s \<Longrightarrow> a \<noteq> DM_FINALIZE \<Longrightarrow> no_finalize (trigger_dm a x s)"
  by (auto simp: no_finalize_def trigger_dm_def)

lemma pool_frame [gw_frame]:
  "length (pool (gd_jobs (user_dec_running k s))) = length (pool (gd_jobs s))"
  "get_host s h \<noteq> None \<Longrightarrow> length (pool (gd_jobs (host_upd f h s))) = length (pool (gd_jobs s))"
  using host_upd_other(1) [of s h f] by (simp_all add: user_dec_running_def)

lemma ctl_consts [gw_frame]:
  "is_ctl DM_PROLOG_DONE" "is_ctl DM_PROLOG_FAILED" "is_ctl DM_EPILOG_DONE"
  "is_ctl DM_EPILOG_FAILED" "is_ctl DM_WRAPPER_DONE" "is_ctl DM_WRAPPER_FAILED"
  "is_ctl DM_STATE_PROLOG" "is_ctl DM_STATE_MIGR_PROLOG" "is_ctl DM_STATE_PRE_WRAPPER"
  "is_ctl DM_STATE_WRAPPER" "is_ctl DM_STATE_EPILOG" "is_ctl DM_STATE_EPILOG_STD"
  "is_ctl DM_STATE_MIGR_EPILOG" "is_ctl DM_STATE_STOP_EPILOG" "is_ctl DM_STATE_KILL_EPILOG"
  "is_ctl DM_STATE_EPILOG_FAIL" "is_ctl DM_STATE_EPILOG_RESTART" "is_ctl DM_STATE_MIGR_CANCEL"
  "is_ctl DM_STATE_PENDING" "is_ctl DM_STATE_ZOMBIE" "is_ctl DM_STATE_FAILED"
  "is_ctl DM_STATE_STOPPED" "\<not> is_ctl DM_KILL"
  by (simp_all add: is_ctl_def)

lemma stat_h_host [simp]:
  "h_host (set_stat k v h) = h_host h" "h_host (set_reason r h) = h_host h"
  "reason (set_stat k v h) = reason h" "reason (set_reason r h) = r"
  "rdir (set_stat k v h) = rdir h" "rdir (set_reason r h) = rdir h"
  by (simp_all add: set_stat_def set_reason_def)

lemma set_state_simps [simp]:
  "job_state (set_state st j) = st" "history (set_state st j) = history j"
  "template (set_state st j) = template j" "job_id (set_state st j) = job_id j"
  "user_id (set_state st j) = user_id j" "restarted (set_state st j) = restarted j"
  "em_state (set_state st j) = em_state j" "tm_state (set_state st j) = tm_state j"
  "array_id (set_state st j) = array_id j" "task_id (set_state st j) = task_id j"
  "client_waiting (set_state st j) = client_waiting j" "reschedule (set_state st j) = reschedule j"
  by (simp_all add: set_state_def)

lemma phase_simps [simp]:
  "phase_of [C_dm a] st = action_phase a st" "phase_of [C_tm TM_PROLOG] st = prolog_phase st"
  "phase_of [C_tm TM_EPILOG] st = epilog_phase st" "phase_of [C_em] st = exec_phase st"
  "phase_of [] st = when_in (idle_state st) P_idle"
  by (simp_all add: phase_of_def)

lemma when_in_Some [simp]: "when_in b p = Some q \<longleftrightarrow> b \<and> q = p"
  by (auto simp: when_in_def)

lemma when_in_True [simp]: "when_in True p = Some p" "when_in False p = None"
  by (simp_all add: when_in_def)

lemma hosted_cases:
  assumes "hosted s j 0"
  obtains h hs hid where "history j = h # hs" "h_host h = Some hid" "get_host s hid \<noteq> None"
  using assms by (cases "history j") (auto simp: hosted_def host_of_def)

lemma hosted_cases2:
  assumes "hosted s j 0" and "hosted s j 1"
  obtains h g hs hid gid where "history j = h # g # hs" "h_host h = Some hid" "h_host g = Some gid"
    "get_host s hid \<noteq> None" "get_host s gid \<noteq> None"
proof -
  obtain h t hid where "history j = h # t" "h_host h = Some hid" "get_host s hid \<noteq> None"
    using hosted_cases [OF assms(1)] .
  then show thesis using assms(2) that by (cases t) (auto simp: hosted_def host_of_def)
qed

lemmas state_phase_defs = prolog_phase_def exec_phase_def epilog_phase_def exec_state_def
  end_state_def left_state_def idle_state_def

lemma on_host_flip: "on_host j k x = (if Some x = host_of j k then 1 else 0)"
  by (auto simp: on_host_def)

lemma mult_indicator: "(x :: int) * (if b then 1 else 0) = (if b then x else 0)"
  by simp

lemmas move_defs = moved_def settled_def same_pool_def same_elsewhere_def hist_ok_def hosted_def host_of_def
  on_host_flip mult_indicator n_claim_def

lemma ready_run:
  assumes "ready s i p j" and "p \<noteq> P_idle"
  obtains h hs hid where "get_job s i = Some j" "ctl_of s i = []" "no_finalize s"
    "template_ok (template j)" "job_id j = i" "0 \<le> restarted j"
    "get_user s (user_id j) \<noteq> None" "restarted j \<noteq> 0 \<longrightarrow> 2 \<le> length (history j)"
    "history j = h # hs" "h_host h = Some hid" "get_host s hid \<noteq> None"
proof -
  have "hosted s j 0" using assms by (auto simp: ready_def hist_ok_def)
  then obtain h hs hid where "history j = h # hs" "h_host h = Some hid" "get_host s hid \<noteq> None"
    by (rule hosted_cases)
  then show thesis using assms that by (auto simp: ready_def hist_ok_def)
qed

lemma ready_host:
  assumes "ready s i p j" and "p \<noteq> P_idle"
  obtains h hs hid where "get_job s i = Some j" "ctl_of s i = []" "no_finalize s"
    "template_ok (template j)" "history j = h # hs" "h_host h = Some hid" "get_host s hid \<noteq> None"
  using ready_run [OF assms] that by metis

lemma ready_mig:
  assumes "ready s i p j" and "p = P_mig_run \<or> p = P_mig_move"
  obtains h g hs hid gid where "get_job s i = Some j" "ctl_of s i = []" "no_finalize s"
    "template_ok (template j)" "job_id j = i" "0 \<le> restarted j"
    "get_user s (user_id j) \<noteq> None"
    "history j = h # g # hs" "h_host h = Some hid" "get_host s hid \<noteq> None"
    "h_host g = Some gid" "get_host s gid \<noteq> None"
proof -
  have "hosted s j 0" "hosted s j 1" using assms by (auto simp: ready_def hist_ok_def)
  then obtain h g hs hid gid where "history j = h # g # hs" "h_host h = Some hid"
      "h_host g = Some gid" "get_host s hid \<noteq> None" "get_host s gid \<noteq> None"
    by (rule hosted_cases2)
  then show thesis using assms that by (auto simp: ready_def hist_ok_def)
qed

lemmas run_defs = with_job_def no_job_def upd_top_def upd_next_def hist_top_def hist_next_def
  gw_job_set_state_def host_op_upd host_counters Let_def

section \<open>Prologs\<close>

lemma wrapper_based_some:
  assumes "history j = h # hs" and "h_host h = Some hid" and "get_host s hid \<noteq> None"
  obtains b where "gw_job_is_wrapper_based (gd_hosts s) j = Some b"
proof -
  obtain ho where "slot_get (hosts (gd_hosts s)) hid = Some ho"
    using assms(3) by (auto simp: get_host_def gw_host_pool_get_host_def)
  then show thesis using assms that
    by (cases "lrms_type ho") (auto simp: gw_job_is_wrapper_based_def)
qed

lemma set_files_some:
  assumes "history j = h # hs" and "h_host h = Some hid" and "get_host s hid \<noteq> None"
    and "template_ok (template j)" and "restarted j \<noteq> 0 \<longrightarrow> 2 \<le> length (history j)"
  obtains x where "gw_dm_prolog_set_files (gd_hosts s) j = Some (j\<lparr>xfrs := x\<rparr>)"
proof -
  obtain b where b: "gw_job_is_wrapper_based (gd_hosts s) j = Some b"
    using wrapper_based_some [OF assms(1-3)] .
  have i: "\<forall>f\<in>set (input_files (template j)). fst f \<noteq> None"
    using assms(4) by (simp add: template_ok_def)
  have "restarted j = 0 \<or> hist_next j \<noteq> None"
    using assms(1,5) by (cases hs) (auto simp: hist_next_def)
  from prolog_set_files_spec [OF b i this] show thesis using that by blast
qed

lemma move_prolog:
  assumes r: "ready s i p j" and a: "action_phase DM_STATE_PROLOG (job_state j) = Some p"
  shows "moved s i p j (gw_dm_prolog e (Some i) s)"
proof -
  have p: "p = P_run" and st: "job_state j = GW_JOB_STATE_PENDING \<or> job_state j = GW_JOB_STATE_HOLD
      \<or> job_state j = GW_JOB_STATE_PROLOG"
    using a by auto
  obtain h hs hid where j: "get_job s i = Some j" "ctl_of s i = []" "no_finalize s"
    "template_ok (template j)" "job_id j = i" "0 \<le> restarted j"
    "get_user s (user_id j) \<noteq> None" "restarted j \<noteq> 0 \<longrightarrow> 2 \<le> length (history j)"
    "history j = h # hs" "h_host h = Some hid" "get_host s hid \<noteq> None"
    using ready_run [OF r] p by blast
  let ?h = "set_stat PROLOG_START_TIME (now e) (set_stat START_TIME (now e) h)"
  let ?j1 = "if job_state j = GW_JOB_STATE_PROLOG then j
             else (set_state GW_JOB_STATE_PROLOG j)\<lparr>history := ?h # hs\<rparr>"
  obtain x where x: "gw_dm_prolog_set_files (gd_hosts s) ?j1 = Some (?j1\<lparr>xfrs := x\<rparr>)"
    by (rule set_files_some [of ?j1 "if job_state j = GW_JOB_STATE_PROLOG then h else ?h" hs hid s])
       (use j in auto)
  show ?thesis
    using st x j p
    by (cases "environment_rc e = 0")
       (auto simp: gw_dm_prolog_def prolog_signal_def prolog_start_def run_defs gw_frame
          move_defs state_phase_defs)
qed

lemma move_migr_prolog:
  assumes r: "ready s i p j" and a: "action_phase DM_STATE_MIGR_PROLOG (job_state j) = Some p"
  shows "moved s i p j (gw_dm_migr_prolog e (Some i) s)"
proof -
  have p: "p = P_mig_move" using a by auto
  obtain h g hs hid gid where j: "get_job s i = Some j" "ctl_of s i = []" "no_finalize s"
    "template_ok (template j)" "job_id j = i" "0 \<le> restarted j" "get_user s (user_id j) \<noteq> None"
    "history j = h # g # hs" "h_host h = Some hid" "get_host s hid \<noteq> None"
    "h_host g = Some gid" "get_host s gid \<noteq> None"
    using ready_mig [OF r] p by blast
  let ?h = "set_stat PROLOG_START_TIME (now e) (set_stat START_TIME (now e) h)"
  let ?j1 = "(set_state GW_JOB_STATE_MIGR_PROLOG j)\<lparr>history := ?h # g # hs\<rparr>"
  obtain x where x: "gw_dm_prolog_set_files (gd_hosts s) ?j1 = Some (?j1\<lparr>xfrs := x\<rparr>)"
    by (rule set_files_some [of ?j1 ?h "g # hs" hid s]) (use j in auto)
  show ?thesis
    using x j p
    by (cases "environment_rc e = 0")
       (auto simp: gw_dm_migr_prolog_def prolog_signal_def prolog_start_def run_defs gw_frame
          move_defs state_phase_defs)
qed

lemma move_prolog_done:
  assumes r: "ready s i p j" and a: "prolog_phase (job_state j) = Some p"
  shows "moved s i p j (gw_dm_prolog_done_cb e (Some i) s)"
proof (cases "job_state j = GW_JOB_STATE_PROLOG")
  case True
  then have p: "p = P_run" using a by (simp add: prolog_phase_def)
  show ?thesis
    by (rule ready_run [OF r])
       (use True p in \<open>auto simp: gw_dm_prolog_done_cb_def run_defs gw_frame move_defs\<close>)
next
  case False
  then have st: "job_state j = GW_JOB_STATE_MIGR_PROLOG" and p: "p = P_mig_move"
    using a by (auto simp: prolog_phase_def split: if_splits)
  show ?thesis
    by (rule ready_mig [OF r])
       (use st p in \<open>auto simp: gw_dm_prolog_done_cb_def run_defs gw_frame move_defs\<close>)
qed

lemma move_prolog_failed:
  assumes r: "ready s i p j" and a: "prolog_phase (job_state j) = Some p"
  shows "moved s i p j (gw_dm_prolog_failed_cb e (Some i) s)"
proof (cases "job_state j = GW_JOB_STATE_PROLOG")
  case True
  then have p: "p = P_run" using a by (simp add: prolog_phase_def)
  show ?thesis
    by (rule ready_run [OF r])
       (use True p in \<open>auto simp: gw_dm_prolog_failed_cb_def run_defs gw_frame move_defs host_upd_none\<close>)
next
  case False
  then have st: "job_state j = GW_JOB_STATE_MIGR_PROLOG" and p: "p = P_mig_move"
    using a by (auto simp: prolog_phase_def split: if_splits)
  show ?thesis
    by (rule ready_mig [OF r])
       (use st p in \<open>auto simp: gw_dm_prolog_failed_cb_def run_defs gw_frame move_defs host_upd_none\<close>)
qed

section \<open>Wrappers\<close>

lemma move_pre_wrapper:
  assumes r: "ready s i p j" and a: "action_phase DM_STATE_PRE_WRAPPER (job_state j) = Some p"
  shows "moved s i p j (gw_dm_pre_wrapper e (Some i) s)"
proof -
  have p: "p = P_run" using a by auto
  show ?thesis
    by (rule ready_run [OF r])
       (use p in \<open>auto simp: gw_dm_pre_wrapper_def run_defs gw_frame move_defs state_phase_defs\<close>)
qed

lemma move_wrapper:
  assumes r: "ready s i p j" and a: "action_phase DM_STATE_WRAPPER (job_state j) = Some p"
  shows "moved s i p j (gw_dm_wrapper e (Some i) s)"
proof -
  have p: "p = P_run" using a by auto
  show ?thesis
    by (rule ready_run [OF r])
       (use p in \<open>auto simp: gw_dm_wrapper_def run_defs gw_frame move_defs state_phase_defs\<close>)
qed

lemma wrapper_based_host_upd:
  assumes "get_host s hid \<noteq> None" and "\<And>x. lrms_type (fst (f x)) = lrms_type x"
  shows "gw_job_is_wrapper_based (gd_hosts (host_upd f hid s)) j = gw_job_is_wrapper_based (gd_hosts s) j"
proof -
  have g: "slot_get (hosts (gd_hosts t)) k = get_host t k" for t k
    by (simp add: get_host_def gw_host_pool_get_host_def)
  obtain ho where h: "get_host s hid = Some ho" using assms(1) by auto
  show ?thesis
    unfolding gw_job_is_wrapper_based_def g
    using host_upd_get [OF h, of f] h assms(2) [of ho]
    by (auto split: list.split option.split)
qed

lemma move_wrapper_done:
  assumes r: "ready s i p j" and a: "exec_phase (job_state j) = Some p"
  shows "moved s i p j (gw_dm_wrapper_done_cb e (Some i) s)"
proof (cases "exec_state (job_state j)")
  case True
  then have p: "p = P_run" using a by (simp add: exec_phase_def)
  obtain h hs hid where j: "get_job s i = Some j" "ctl_of s i = []" "no_finalize s"
    "template_ok (template j)" "job_id j = i" "0 \<le> restarted j"
    "get_user s (user_id j) \<noteq> None" "restarted j \<noteq> 0 \<longrightarrow> 2 \<le> length (history j)"
    "history j = h # hs" "h_host h = Some hid" "get_host s hid \<noteq> None"
    using ready_run [OF r] p by blast
  let ?s1 = "host_upd (gw_host_dec_uslots (np (template j))) hid s"
  let ?h1 = "set_stat WRAPPER_EXIT_TIME (now e) h"
  let ?j1 = "j\<lparr>em_state := GW_EM_STATE_INIT, history := ?h1 # hs\<rparr>"
  let ?j2 = "if reschedule j then ?j1\<lparr>reschedule := False\<rparr> else ?j1"
  have g1: "get_host ?s1 hid \<noteq> None" using j(11) by (simp add: host_upd_none)
  obtain b where b: "gw_job_is_wrapper_based (gd_hosts ?s1) ?j2 = Some b"
    by (rule wrapper_based_some [of ?j2 ?h1 hs hid ?s1]) (use j(10) g1 in auto)
  show ?thesis
    using True p j b
    by (cases "reschedule j"; cases b)
       (auto simp: gw_dm_wrapper_done_cb_def wrapper_leave_host_def withdraw_reschedule_def
          run_defs gw_frame move_defs state_phase_defs host_upd_none)
next
  case False
  then have st: "job_state j = GW_JOB_STATE_MIGR_CANCEL" and p: "p = P_mig_run"
    using a by (auto simp: exec_phase_def split: if_splits)
  show ?thesis
    by (rule ready_mig [OF r])
       (use st p in \<open>auto simp: gw_dm_wrapper_done_cb_def run_defs gw_frame move_defs
          state_phase_defs host_upd_none algebra_simps\<close>)
qed

lemma move_wrapper_failed:
  assumes r: "ready s i p j" and a: "action_phase DM_WRAPPER_FAILED (job_state j) = Some p"
  shows "moved s i p j (gw_dm_wrapper_failed_cb e (Some i) s)"
proof -
  have p: "p = P_run" and st: "exec_state (job_state j)" using a by auto
  obtain h hs hid where j: "get_job s i = Some j" "ctl_of s i = []" "no_finalize s"
    "template_ok (template j)" "job_id j = i" "0 \<le> restarted j"
    "get_user s (user_id j) \<noteq> None" "restarted j \<noteq> 0 \<longrightarrow> 2 \<le> length (history j)"
    "history j = h # hs" "h_host h = Some hid" "get_host s hid \<noteq> None"
    using ready_run [OF r] p by blast
  show ?thesis
    using st p j
    by (cases "reschedule j"; cases "job_state j")
       (auto simp: gw_dm_wrapper_failed_cb_def withdraw_reschedule_def run_defs gw_frame
          move_defs state_phase_defs host_upd_none)
qed

section \<open>Epilogs\<close>

text \<open>The lists of files are always filled when the files of the template have names.\<close>

lemma std_files_some:
  obtains ix where "gw_dm_epilog_std_files j (epilog_xfrs (std_xfrs j) j) = Some ix"
  using std_files_filled0 [of j] by (auto simp: epilog_xfrs_filled)

lemma stop_files_some:
  assumes "template_ok (template j)"
  obtains ix k where
    "gw_dm_epilog_std_files j (epilog_xfrs (std_xfrs j + length (restart_files (template j))) j) = Some ix"
    "gw_dm_epilog_restart_files j ix = Some k"
  using std_files_filled [of j] restart_files_filled [of j] assms
  by (auto simp: epilog_xfrs_filled template_ok_def)

lemma epilog_files_some:
  assumes "template_ok (template j)"
  obtains ix k where
    "gw_dm_epilog_output_files j
       (epilog_xfrs (std_xfrs j + length (output_files (template j))) j) = Some ix"
    "gw_dm_epilog_std_files j ix = Some k"
  using output_files_filled [of j "std_xfrs j"] std_files_filled0 [of j] assms
  by (auto simp: add.commute [of "std_xfrs j"] template_ok_def)

lemma restart_files_some:
  assumes "template_ok (template j)"
  obtains k where "epilog_restart_xfrs j = Some k"
  using epilog_restart_spec [of j] assms by (auto simp: template_ok_def Let_def)

lemma wrapper_output_some:
  assumes "history j = h # hs" and "h_host h = Some hid" and "get_host s hid \<noteq> None"
  obtains x where "wrapper_output_xfrs s j = Some x"
proof -
  obtain b where "gw_job_is_wrapper_based (gd_hosts s) j = Some b"
    using wrapper_based_some [OF assms] .
  then show thesis using that
    by (cases b) (simp_all add: wrapper_output_xfrs_def wrapper_files_filled out_filled_def)
qed

lemmas epilog_defs = enter_epilog_def epilog_signal_def

lemma move_epilog_std:
  assumes r: "ready s i p j" and a: "action_phase DM_STATE_EPILOG_STD (job_state j) = Some p"
  shows "moved s i p j (gw_dm_epilog_std e (Some i) s)"
proof -
  have p: "p = P_end" and st: "left_state (job_state j)" using a by auto
  show ?thesis
    by (rule ready_run [OF r])
       (use p st in \<open>auto simp: gw_dm_epilog_std_def epilog_defs wrapper_files_filled out_filled_def
          run_defs gw_frame move_defs state_phase_defs\<close>)
qed

lemma move_migr_epilog:
  assumes r: "ready s i p j" and a: "action_phase DM_STATE_MIGR_EPILOG (job_state j) = Some p"
  shows "moved s i p j (gw_dm_migr_epilog e (Some i) s)"
proof -
  have p: "p = P_mig_move" and st: "job_state j = GW_JOB_STATE_MIGR_PROLOG" using a by auto
  obtain h g hs hid gid where j: "get_job s i = Some j" "ctl_of s i = []" "no_finalize s"
    "template_ok (template j)" "job_id j = i" "0 \<le> restarted j" "get_user s (user_id j) \<noteq> None"
    "history j = h # g # hs" "h_host h = Some hid" "get_host s hid \<noteq> None"
    "h_host g = Some gid" "get_host s gid \<noteq> None"
    using ready_mig [OF r] p by blast
  let ?g = "set_stat EPILOG_START_TIME (now e) g"
  let ?j1 = "(set_state GW_JOB_STATE_MIGR_EPILOG j)\<lparr>history := h # ?g # hs\<rparr>"
  obtain k x where x: "gw_dm_epilog_std_files ?j1 (epilog_xfrs (std_xfrs ?j1) ?j1) = Some (k, x)"
    using std_files_some by (metis surj_pair)
  show ?thesis
    using x j p st
    by (auto simp: gw_dm_migr_epilog_def epilog_signal_def run_defs gw_frame move_defs state_phase_defs)
qed

text \<open>The job after \<open>enter_epilog\<close> from another state.\<close>

definition in_epilog :: "dm_env \<Rightarrow> gw_job_state \<Rightarrow> gw_job \<Rightarrow> gw_job" where
  "in_epilog e st j = (set_state st j)\<lparr>history :=
     set_stat EPILOG_START_TIME (now e) (hd (history j)) # tl (history j)\<rparr>"

lemma in_epilog_simps [simp]:
  "history (in_epilog e st j) = set_stat EPILOG_START_TIME (now e) (hd (history j)) # tl (history j)"
  "job_state (in_epilog e st j) = st" "template (in_epilog e st j) = template j"
  "job_id (in_epilog e st j) = job_id j" "user_id (in_epilog e st j) = user_id j"
  "restarted (in_epilog e st j) = restarted j" "tm_state (in_epilog e st j) = tm_state j"
  by (simp_all add: in_epilog_def)

lemma enter_epilog_run:
  "job_state j \<noteq> st \<Longrightarrow> history j \<noteq> [] \<Longrightarrow>
   enter_epilog e st j s = Some (in_epilog e st j, log_state e (set_state st j) s)"
  by (cases "history j") (auto simp: enter_epilog_def in_epilog_def run_defs)

text \<open>What every epilog handler does in the end: the job is stored and the transfers start.\<close>

lemma move_to_epilog:
  assumes r: "ready s i P_end j"
    and s1: "get_job s1 i = get_job s i" "same_pool s s1" "same_elsewhere s s1 i" "no_finalize s1"
      "ctl_of s1 i = []" "\<And>h. rjobs s1 h = rjobs s h" "\<And>h. uslots s1 h = uslots s h"
      "\<And>w. urun s1 w = urun s w"
    and j1: "end_state (job_state j1)" "template j1 = template j" "job_id j1 = job_id j"
      "user_id j1 = user_id j" "restarted j1 = restarted j"
      "map h_host (history j1) = map h_host (history j)"
  shows "moved s i P_end j (Some (epilog_signal i j1 x s1))"
proof -
  have l: "length (history j1) = length (history j)" using j1(6) by (metis length_map)
  have h: "host_of (j1\<lparr>xfrs := x\<rparr>) k = host_of j k" for k
    using j1(6) l by (simp add: host_of_def) (metis nth_map)
  let ?s = "epilog_signal i j1 x s1" and ?j = "j1\<lparr>xfrs := x\<rparr>"
  have g: "get_job s i = Some j" using r by (simp add: ready_def)
  have v: "get_job ?s k = (if k = i then Some ?j else get_job s1 k)"
    "ctl_of ?s k = (if k = i then [C_tm TM_EPILOG] else ctl_of s1 k)" for k
    using g s1 by (simp_all add: epilog_signal_def gw_frame)
  have p: "same_pool s ?s" "same_elsewhere s ?s i" "no_finalize ?s"
    using s1 v by (simp_all add: epilog_signal_def gw_frame same_pool_def same_elsewhere_def)
  have c: "rjobs ?s x = rjobs s x" "uslots ?s x = uslots s x" "urun ?s x = urun s x" for x
    using s1 by (simp_all add: epilog_signal_def gw_frame)
  have q: "on_host ?j k x = on_host j k x" "hosted ?s ?j k = hosted s j k" for k x
    using h p(1) by (simp_all add: on_host_def hosted_def same_pool_def)
  have "hist_ok s P_end j" "template_ok (template j)" "job_id j = i" "0 \<le> restarted j"
    using r by (simp_all add: ready_def)
  moreover have "get_user ?s (user_id j) = None \<longleftrightarrow> get_user s (user_id j) = None"
    using p(1) by (simp add: same_pool_def)
  moreover have "job_state j1 \<notin> {GW_JOB_STATE_FAILED, GW_JOB_STATE_STOPPED}"
    using j1(1) by (auto simp: end_state_def)
  ultimately have "hist_ok ?s P_end ?j"
    using j1(2-5) l q(2) by (auto simp: hist_ok_def)
  then have "hist_ok s P_end ?j" using hist_ok_same [OF p(1)] by simp
  then have "settled s i P_end j ?s P_end ?j"
    using p(1) p(2) p(3) c q(1) j1(2-5) \<open>template_ok (template j)\<close> \<open>0 \<le> restarted j\<close>
    unfolding settled_def by (simp add: n_claim_def)
  moreover have "phase_of (ctl_of ?s i) (job_state ?j) = Some P_end"
    using v j1(1) by (simp add: epilog_phase_def)
  ultimately show ?thesis using v by (simp add: moved_def)
qed

lemma log_same [simp]:
  "same_pool s (log_state e j s)" "same_elsewhere s (log_state e j s) i"
  "same_pool s s" "same_elsewhere s s i"
  by (simp_all add: same_pool_def same_elsewhere_def gw_frame)

lemma wrapper_output_cong:
  "gd_hosts s' = gd_hosts s \<Longrightarrow> wrapper_output_xfrs s' j = wrapper_output_xfrs s j"
  by (simp add: wrapper_output_xfrs_def)

text \<open>The situation in which an epilog starts, with the job after the change of state.\<close>

lemma in_epilog_hosts:
  "history j \<noteq> [] \<Longrightarrow> map h_host (history (in_epilog e st j)) = map h_host (history j)"
  by (cases "history j") (auto simp: in_epilog_def)

lemma move_stop_epilog:
  assumes r: "ready s i p j" and a: "action_phase DM_STATE_STOP_EPILOG (job_state j) = Some p"
  shows "moved s i p j (gw_dm_stop_epilog e (Some i) s)"
proof -
  have p: "p = P_end" and st: "job_state j = GW_JOB_STATE_STOP_CANCEL" using a by auto
  obtain h hs where j: "get_job s i = Some j" "ctl_of s i = []" "no_finalize s"
    "template_ok (template j)" "history j = h # hs"
    using ready_run [OF r] p by blast
  let ?j = "in_epilog e GW_JOB_STATE_STOP_EPILOG j"
  let ?s = "log_state e (set_state GW_JOB_STATE_STOP_EPILOG j) s"
  have en: "enter_epilog e GW_JOB_STATE_STOP_EPILOG j s = Some (?j, ?s)"
    using st j by (simp add: enter_epilog_run)
  have "\<exists>x. gw_dm_stop_epilog e (Some i) s = Some (epilog_signal i ?j x ?s)"
  proof (cases "tm_state ?j = GW_TM_STATE_CHECKPOINT")
    case True
    obtain k x where "gw_dm_epilog_std_files ?j (epilog_xfrs (std_xfrs ?j) ?j) = Some (k, x)"
      using std_files_some by (metis surj_pair)
    then show ?thesis using True j en by (auto simp: gw_dm_stop_epilog_def with_job_def Let_def)
  next
    case False
    have t: "template_ok (template ?j)" using j by simp
    obtain ix k x where
      "gw_dm_epilog_std_files ?j (epilog_xfrs (std_xfrs ?j + length (restart_files (template ?j))) ?j) = Some ix"
      "gw_dm_epilog_restart_files ?j ix = Some (k, x)"
      by (rule stop_files_some [OF t]) (metis surj_pair)
    then show ?thesis using False j en by (auto simp: gw_dm_stop_epilog_def with_job_def Let_def)
  qed
  then obtain x where e: "gw_dm_stop_epilog e (Some i) s = Some (epilog_signal i ?j x ?s)" by blast
  show ?thesis
    unfolding p e
    by (rule move_to_epilog) (use r p j in \<open>simp_all add: gw_frame end_state_def in_epilog_hosts\<close>)
qed

lemma move_kill_epilog:
  assumes r: "ready s i p j" and a: "action_phase DM_STATE_KILL_EPILOG (job_state j) = Some p"
  shows "moved s i p j (gw_dm_kill_epilog e (Some i) s)"
proof -
  have p: "p = P_end" and st: "job_state j = GW_JOB_STATE_KILL_CANCEL" using a by auto
  obtain h hs hid where j: "get_job s i = Some j" "ctl_of s i = []" "no_finalize s"
    "template_ok (template j)" "history j = h # hs" "h_host h = Some hid" "get_host s hid \<noteq> None"
    by (rule ready_host [OF r]) (simp_all add: p)
  let ?j = "in_epilog e GW_JOB_STATE_KILL_EPILOG j"
  let ?s = "log_state e (set_state GW_JOB_STATE_KILL_EPILOG j) s"
  obtain x where x: "wrapper_output_xfrs s ?j = Some x"
    by (rule wrapper_output_some [of ?j "set_stat EPILOG_START_TIME (now e) h" hs hid s]) (use j in auto)
  have e: "gw_dm_kill_epilog e (Some i) s = Some (epilog_signal i ?j x ?s)"
    using st j x wrapper_output_cong [of ?s s ?j]
    by (simp add: gw_dm_kill_epilog_def with_job_def enter_epilog_run)
  show ?thesis
    unfolding p e
    by (rule move_to_epilog) (use r p j in \<open>simp_all add: gw_frame end_state_def in_epilog_hosts\<close>)
qed

lemma move_epilog_fail:
  assumes r: "ready s i p j" and a: "action_phase DM_STATE_EPILOG_FAIL (job_state j) = Some p"
  shows "moved s i p j (gw_dm_epilog_fail e (Some i) s)"
proof -
  have p: "p = P_end" and st: "exec_state (job_state j)" using a by auto
  obtain h hs hid where j: "get_job s i = Some j" "ctl_of s i = []" "no_finalize s"
    "template_ok (template j)" "history j = h # hs" "h_host h = Some hid" "get_host s hid \<noteq> None"
    by (rule ready_host [OF r]) (simp_all add: p)
  let ?j = "in_epilog e GW_JOB_STATE_EPILOG_FAIL j"
  let ?s = "log_state e (set_state GW_JOB_STATE_EPILOG_FAIL j) s"
  obtain x where x: "wrapper_output_xfrs s ?j = Some x"
    by (rule wrapper_output_some [of ?j "set_stat EPILOG_START_TIME (now e) h" hs hid s]) (use j in auto)
  have "job_state j \<noteq> GW_JOB_STATE_EPILOG_FAIL" using st by (auto simp: exec_state_def)
  then have e: "gw_dm_epilog_fail e (Some i) s = Some (epilog_signal i ?j x ?s)"
    using j x wrapper_output_cong [of ?s s ?j]
    by (simp add: gw_dm_epilog_fail_def with_job_def enter_epilog_run)
  show ?thesis
    unfolding p e
    by (rule move_to_epilog) (use r p j in \<open>simp_all add: gw_frame end_state_def in_epilog_hosts\<close>)
qed

lemma move_epilog:
  assumes r: "ready s i p j" and a: "action_phase DM_STATE_EPILOG (job_state j) = Some p"
  shows "moved s i p j (gw_dm_epilog e (Some i) s)"
proof -
  have p: "p = P_end" and st: "job_state j \<noteq> GW_JOB_STATE_EPILOG"
    using a by (auto simp: left_state_def)
  obtain h hs hid where j: "get_job s i = Some j" "ctl_of s i = []" "no_finalize s"
    "template_ok (template j)" "history j = h # hs" "h_host h = Some hid" "get_host s hid \<noteq> None"
    by (rule ready_host [OF r]) (simp_all add: p)
  let ?k = "if job_state j = GW_JOB_STATE_EPILOG_STD then j
            else j\<lparr>history := set_stat EPILOG_START_TIME (now e) h # hs\<rparr>"
  let ?j = "set_state GW_JOB_STATE_EPILOG ?k"
  let ?s = "log_state e ?j s"
  have t: "template_ok (template ?j)" using j by simp
  obtain ix k x where
    f: "gw_dm_epilog_output_files ?j
       (epilog_xfrs (std_xfrs ?j + length (output_files (template ?j))) ?j) = Some ix"
    "gw_dm_epilog_std_files ?j ix = Some (k, x)"
    by (rule epilog_files_some [OF t]) (metis surj_pair)
  have e: "gw_dm_epilog e (Some i) s = Some (epilog_signal i ?j x ?s)"
    using st j f by (simp add: gw_dm_epilog_def run_defs split: if_splits)
  show ?thesis
    unfolding p e
    by (rule move_to_epilog) (use r p j in \<open>simp_all add: gw_frame end_state_def in_epilog_hosts\<close>)
qed

lemma move_epilog_restart:
  assumes r: "ready s i p j" and a: "action_phase DM_STATE_EPILOG_RESTART (job_state j) = Some p"
  shows "moved s i p j (gw_dm_epilog_restart e (Some i) s)"
proof -
  have p: "p = P_end" and st: "job_state j \<noteq> GW_JOB_STATE_EPILOG_RESTART" using a by auto
  obtain h hs hid where j: "get_job s i = Some j" "ctl_of s i = []" "no_finalize s"
    "template_ok (template j)" "history j = h # hs" "h_host h = Some hid" "get_host s hid \<noteq> None"
    by (rule ready_host [OF r]) (simp_all add: p)
  let ?j = "set_state GW_JOB_STATE_EPILOG_RESTART j"
  have "template_ok (template ?j)" using j by simp
  then obtain k x where f: "epilog_restart_xfrs ?j = Some (k, x)"
    using restart_files_some by (metis surj_pair)
  have e: "gw_dm_epilog_restart e (Some i) s = Some (epilog_signal i ?j x (log_state e ?j s))"
    using st j f by (simp add: gw_dm_epilog_restart_def with_job_def gw_job_set_state_def)
  show ?thesis
    unfolding p e
    by (rule move_to_epilog) (use r p j in \<open>simp_all add: gw_frame end_state_def\<close>)
qed

text \<open>The analysis of the wrapper's output is defined, and leaves alone what a job holds.\<close>

lemma parse_wrapper_some:
  assumes "history j = h # hs"
  obtains k rt where "gw_dm_epilog_parse_wrapper_std e j = Some (k, rt)"
    "job_state k = job_state j" "job_id k = job_id j" "user_id k = user_id j"
    "restarted k = restarted j" "np (template k) = np (template j)"
    "template_ok (template k) = template_ok (template j)"
    "map h_host (history k) = map h_host (history j)"
proof -
  define rc code where "rc = fst (gw_parse_file (wrapper_stdout e) ''EXIT_STATUS'')"
    and "code = snd (gw_parse_file (wrapper_stdout e) ''EXIT_STATUS'')"
  have f: "gw_parse_file (wrapper_stdout e) ''EXIT_STATUS'' = (rc, code)"
    by (simp add: rc_def code_def)
  show thesis
  proof (cases "if rc \<noteq> -1 then code else None")
    case None
    then show thesis using that assms f
      by (simp add: gw_dm_epilog_parse_wrapper_std_def upd_top_def)
  next
    case (Some ec)
    define c where "c = (if ec = [] then nul else hd ec)"
    consider "c = CHR ''S''" | "c = CHR ''P''" | "c \<noteq> CHR ''S''" "c \<noteq> CHR ''P''" by blast
    then show thesis
    proof cases
      case 1
      then show thesis using that Some assms f
        by (cases "snd (gw_parse_file (wrapper_stdout e) ''NEW_REQS'')";
            cases "snd (gw_parse_file (wrapper_stdout e) ''NEW_RANK'')")
           (simp_all add: gw_dm_epilog_parse_wrapper_std_def upd_top_def c_def Let_def template_ok_def)
    next
      case 2
      then show thesis using that Some assms f
        by (simp add: gw_dm_epilog_parse_wrapper_std_def upd_top_def c_def)
    next
      case 3
      then show thesis using that Some assms f
        by (simp add: gw_dm_epilog_parse_wrapper_std_def c_def Let_def)
    qed
  qed
qed

text \<open>
  A callback of the transfer manager: a job in a final phase keeps what it holds while the
  next action is triggered.
\<close>

lemma move_end_trigger:
  assumes r: "ready s i P_end j"
    and j1: "job_id j1 = job_id j" "user_id j1 = user_id j" "restarted j1 = restarted j"
      "np (template j1) = np (template j)" "template_ok (template j1)"
      "map h_host (history j1) = map h_host (history j)"
      "job_state j1 = job_state j" "end_state (job_state j)"
    and a: "is_ctl a" "action_phase a (job_state j1) = Some P_end" "a \<noteq> DM_STATE_MIGR_CANCEL"
  shows "moved s i P_end j (Some (trigger_dm a (ARG_ID i) (put i j1 s)))"
proof -
  let ?s = "trigger_dm a (ARG_ID i) (put i j1 s)"
  have l: "length (history j1) = length (history j)" using j1(6) by (metis length_map)
  have h: "host_of j1 k = host_of j k" for k
    using j1(6) l by (simp add: host_of_def) (metis nth_map)
  have g: "get_job s i = Some j" "no_finalize s" "ctl_of s i = []" using r by (simp_all add: ready_def)
  have v: "get_job ?s k = (if k = i then Some j1 else get_job s k)"
    "ctl_of ?s k = (if k = i then [C_dm a] else ctl_of s k)" for k
    using g a by (simp_all add: gw_frame)
  have f: "a \<noteq> DM_FINALIZE" using a(1) by (auto simp: is_ctl_def)
  have p: "same_pool s ?s" "same_elsewhere s ?s i" "no_finalize ?s"
    using g v f by (simp_all add: gw_frame same_pool_def same_elsewhere_def)
  have c: "rjobs ?s x = rjobs s x" "uslots ?s x = uslots s x" "urun ?s x = urun s x" for x
    by (simp_all add: gw_frame)
  have q: "on_host j1 k x = on_host j k x" "hosted s j1 k = hosted s j k" for k x
    using h by (simp_all add: on_host_def hosted_def)
  have o: "hist_ok s P_end j" "job_id j = i" "0 \<le> restarted j"
    using r by (simp_all add: ready_def)
  have "job_state j1 \<notin> {GW_JOB_STATE_FAILED, GW_JOB_STATE_STOPPED}"
    using j1(7,8) by (auto simp: end_state_def)
  then have "hist_ok s P_end j1"
    using o(1) j1(2,3) l q(2) by (auto simp: hist_ok_def)
  then have "settled s i P_end j ?s P_end j1"
    using p c q(1) j1(1-5) o(3) unfolding settled_def by (simp add: n_claim_def)
  moreover have "phase_of (ctl_of ?s i) (job_state j1) = Some P_end"
    using v a by (simp add: phase_of_def)
  ultimately show ?thesis using v by (simp add: moved_def)
qed

text \<open>The end of a migration gives the previous host back.\<close>

lemma move_migr_done:
  assumes r: "ready s i p j" and p: "p = P_mig_move" and st: "job_state j = GW_JOB_STATE_MIGR_EPILOG"
  shows "moved s i p j (gw_dm_epilog_done_cb e (Some i) s)"
    and "moved s i p j (gw_dm_epilog_failed_cb e (Some i) s)"
  by (rule ready_mig [OF r], use p st in \<open>auto simp: gw_dm_epilog_done_cb_def epilog_exit_def
        plain_epilog_def migr_finish_def run_defs gw_frame move_defs host_upd_none\<close>)
     (rule ready_mig [OF r], use p st in \<open>auto simp: gw_dm_epilog_failed_cb_def epilog_exit_def
        plain_epilog_def migr_finish_def run_defs gw_frame move_defs host_upd_none\<close>)

lemma pending_or_failed_cases:
  "pending_or_failed j = DM_STATE_PENDING \<or> pending_or_failed j = DM_STATE_FAILED"
  by (simp add: pending_or_failed_def)

lemma pending_or_failed_ctl [simp]:
  "is_ctl (pending_or_failed j)" "pending_or_failed j \<noteq> DM_STATE_MIGR_CANCEL"
  "end_state st \<Longrightarrow> action_phase (pending_or_failed j) st = Some P_end"
  by (simp_all add: pending_or_failed_def gw_frame)

lemma put_put: "put i b (put i a s) = put i b s"
  by (simp add: put_def put_job_def slot_put_def)

lemma move_epilog_done:
  assumes r: "ready s i p j" and a: "epilog_phase (job_state j) = Some p"
  shows "moved s i p j (gw_dm_epilog_done_cb e (Some i) s)"
proof (cases "end_state (job_state j)")
  case True
  then have p: "p = P_end" using a by (simp add: epilog_phase_def)
  have r': "ready s i P_end j" using r p by simp
  obtain h hs hid where j: "get_job s i = Some j" "ctl_of s i = []" "no_finalize s"
    "template_ok (template j)" "history j = h # hs" "h_host h = Some hid" "get_host s hid \<noteq> None"
    by (rule ready_host [OF r]) (simp_all add: p)
  note t = move_end_trigger [OF r']
  have l: "is_ctl DM_STATE_ZOMBIE" "is_ctl DM_STATE_STOPPED" "is_ctl DM_STATE_EPILOG"
    "is_ctl DM_STATE_EPILOG_RESTART" "is_ctl DM_STATE_PENDING"
    by (simp_all add: is_ctl_def)
  obtain k rt where k: "gw_dm_epilog_parse_wrapper_std e j = Some (k, rt)"
    "job_state k = job_state j" "job_id k = job_id j" "user_id k = user_id j"
    "restarted k = restarted j" "np (template k) = np (template j)"
    "template_ok (template k) = template_ok (template j)"
    "map h_host (history k) = map h_host (history j)"
    using parse_wrapper_some [OF j(5)] .
  show ?thesis
    unfolding p
    using True j k l
    by (cases "job_state j")
       (auto simp: end_state_def gw_dm_epilog_done_cb_def epilog_exit_def plain_epilog_def
          after_restart_epilog_def with_job_def upd_top_def hist_top_def Let_def put_put
          intro!: t)
next
  case False
  then have "job_state j = GW_JOB_STATE_MIGR_EPILOG" "p = P_mig_move"
    using a by (auto simp: epilog_phase_def split: if_splits)
  then show ?thesis using move_migr_done [OF r] by simp
qed

lemma move_epilog_failed:
  assumes r: "ready s i p j" and a: "epilog_phase (job_state j) = Some p"
  shows "moved s i p j (gw_dm_epilog_failed_cb e (Some i) s)"
proof (cases "end_state (job_state j)")
  case True
  then have p: "p = P_end" using a by (simp add: epilog_phase_def)
  have r': "ready s i P_end j" using r p by simp
  obtain h hs hid where j: "get_job s i = Some j" "ctl_of s i = []" "no_finalize s"
    "template_ok (template j)" "history j = h # hs" "h_host h = Some hid" "get_host s hid \<noteq> None"
    by (rule ready_host [OF r]) (simp_all add: p)
  note t = move_end_trigger [OF r']
  have l: "is_ctl DM_STATE_ZOMBIE" "is_ctl DM_STATE_STOPPED"
    "is_ctl DM_STATE_EPILOG_RESTART" "is_ctl DM_STATE_PENDING"
    by (simp_all add: is_ctl_def)
  show ?thesis
    unfolding p
    using True j l
    by (cases "job_state j")
       (auto simp: end_state_def gw_dm_epilog_failed_cb_def epilog_exit_def plain_epilog_def
          after_restart_epilog_def with_job_def upd_top_def hist_top_def Let_def put_put
          intro!: t)
next
  case False
  then have "job_state j = GW_JOB_STATE_MIGR_EPILOG" "p = P_mig_move"
    using a by (auto simp: epilog_phase_def split: if_splits)
  then show ?thesis using move_migr_done [OF r] by simp
qed

section \<open>Leaving the hosts\<close>

lemma report_failed_run:
  assumes "h_host h = Some hid" and "get_host s hid \<noteq> None"
  shows "report_failed j h s = Some (sends (if failure_reason h
    then [JOB_FAILED (host_id (the (get_host s hid))) (user_id j) (reason h)] else []) s)"
  using assms by (auto simp: report_failed_def hist_host_id_def send_def sends_def)

lemma no_finalize_sends [gw_frame]: "no_finalize (sends m s) = no_finalize s"
  by (simp add: no_finalize_def)

lemma sends_length [gw_frame]: "length (pool (gd_jobs (sends m s))) = length (pool (gd_jobs s))"
  by simp

lemma move_failed:
  assumes r: "ready s i p j" and a: "action_phase DM_STATE_FAILED (job_state j) = Some p"
  shows "moved s i p j (gw_dm_failed e (Some i) s)"
proof -
  have p: "p = P_end" using a by auto
  show ?thesis
    by (rule ready_run [OF r])
       (use p in \<open>auto simp: gw_dm_failed_def run_defs gw_frame move_defs host_upd_none
          report_failed_run state_phase_defs\<close>)
qed

lemma move_pending:
  assumes r: "ready s i p j" and a: "action_phase DM_STATE_PENDING (job_state j) = Some p"
  shows "moved s i p j (gw_dm_pending e (Some i) s)"
proof -
  have p: "p = P_end" using a by auto
  show ?thesis
    by (rule ready_run [OF r])
       (use p in \<open>auto simp: gw_dm_pending_def run_defs gw_frame move_defs host_upd_none
          report_failed_run state_phase_defs\<close>)
qed

lemma move_stopped:
  assumes r: "ready s i p j" and a: "action_phase DM_STATE_STOPPED (job_state j) = Some p"
  shows "moved s i p j (gw_dm_stopped e (Some i) s)"
proof -
  have p: "p = P_end" using a by auto
  show ?thesis
    by (rule ready_run [OF r])
       (use p in \<open>auto simp: gw_dm_stopped_def run_defs gw_frame move_defs host_upd_none
          report_failed_run state_phase_defs\<close>)
qed

text \<open>
  A job that succeeded is in an idle phase before its dependents are released; a killed job is
  in an idle phase before it is freed.
\<close>

lemma move_zombie_done:
  assumes r: "ready s i p j" and a: "job_state j = GW_JOB_STATE_EPILOG" and p: "p = P_end"
  obtains t where "gw_dm_zombie e (Some i) s = Some (gw_job_pool_dep_check e i t)"
    "moved s i p j (Some t)"
proof -
  obtain h hs hid where j: "get_job s i = Some j" "ctl_of s i = []" "no_finalize s"
    "template_ok (template j)" "job_id j = i" "0 \<le> restarted j"
    "get_user s (user_id j) \<noteq> None" "restarted j \<noteq> 0 \<longrightarrow> 2 \<le> length (history j)"
    "history j = h # hs" "h_host h = Some hid" "get_host s hid \<noteq> None"
    using ready_run [OF r] p by blast
  let ?j = "(set_state GW_JOB_STATE_ZOMBIE j)\<lparr>history := set_reason GW_REASON_NONE h # hs, exit_time := now e\<rparr>"
  let ?t = "put i ?j (log_state e (set_state GW_JOB_STATE_ZOMBIE j) s)"
  let ?u = "if 0 < client_waiting j then trigger_rm RM_WAIT_SUCCESS (ARG_ID i) ?t
            else if dispose e then trigger_dm DM_KILL (ARG_ID i) ?t else ?t"
  let ?v = "host_upd gw_host_dec_rjobs hid (user_dec_running (user_id j) ?u)"
  obtain ho where ho: "get_host s hid = Some ho" using j(11) by auto
  have g: "get_host ?u h = get_host s h" for h by (simp add: gw_frame)
  obtain m where "hist_host_id (hd (history ?j)) ?v = Some m"
    using ho j(10) g by (auto simp: hist_host_id_def gw_frame host_upd_get)
  then have "gw_dm_zombie e (Some i) s =
      Some (gw_job_pool_dep_check e i (send (zombie_success_msg e ?j (hd (history ?j)) m) ?v))"
    using a j g by (simp add: gw_dm_zombie_def run_defs gw_frame)
  moreover have "moved s i p j (Some (send (zombie_success_msg e ?j (hd (history ?j)) m) ?v))"
    using p j
    by (auto simp: run_defs gw_frame move_defs host_upd_none state_phase_defs)
  ultimately show thesis using that by blast
qed

lemma move_zombie_kill:
  assumes r: "ready s i p j" and a: "job_state j = GW_JOB_STATE_KILL_EPILOG" and p: "p = P_end"
  obtains t where "gw_dm_zombie e (Some i) s =
      Some (trigger_rm RM_KILL_SUCCESS (ARG_ID i)
        (drop_task (array_id j) (task_id j) (gw_job_pool_free e i t)))"
    "moved s i p j (Some t)" "map_option job_state (get_job t i) = Some GW_JOB_STATE_ZOMBIE" "ctl_of t i = []"
proof -
  obtain h hs hid where j: "get_job s i = Some j" "ctl_of s i = []" "no_finalize s"
    "template_ok (template j)" "job_id j = i" "0 \<le> restarted j"
    "get_user s (user_id j) \<noteq> None" "restarted j \<noteq> 0 \<longrightarrow> 2 \<le> length (history j)"
    "history j = h # hs" "h_host h = Some hid" "get_host s hid \<noteq> None"
    using ready_run [OF r] p by blast
  let ?j = "(set_state GW_JOB_STATE_ZOMBIE j)\<lparr>exit_time := now e\<rparr>"
  let ?t = "host_upd gw_host_dec_rjobs hid (user_dec_running (user_id j)
              (put i ?j (log_state e (set_state GW_JOB_STATE_ZOMBIE j) s)))"
  have "gw_dm_zombie e (Some i) s =
      Some (trigger_rm RM_KILL_SUCCESS (ARG_ID i)
        (drop_task (array_id j) (task_id j) (gw_job_pool_free e i ?t)))"
    using a j by (simp add: gw_dm_zombie_def run_defs gw_frame)
  moreover have "moved s i p j (Some ?t)"
    using p j by (auto simp: run_defs gw_frame move_defs host_upd_none state_phase_defs)
  moreover have "map_option job_state (get_job ?t i) = Some GW_JOB_STATE_ZOMBIE" "ctl_of ?t i = []"
    using j by (simp_all add: gw_frame)
  ultimately show thesis using that by blast
qed

end
