(* ===== verification/DM_Requests.thy ===== *)
theory DM_Requests
  imports DM_Moves
begin

text \<open>
  What the requests of the clients, the dispatch of a job by the scheduler, the callbacks of the
  execution manager and the releases of jobs do to the accounting of a job: the job they are for
  may be under the control of another action, which they leave in place.
\<close>

text \<open>The situation a request starts in: a job of the invariant, in some phase.\<close>

definition held :: "gwd \<Rightarrow> int \<Rightarrow> phase \<Rightarrow> gw_job \<Rightarrow> bool" where
  "held s i p j \<longleftrightarrow> get_job s i = Some j \<and> phase_of (ctl_of s i) (job_state j) = Some p \<and>
     no_finalize s \<and> hist_ok s p j \<and> template_ok (template j) \<and> job_id j = i \<and> 0 \<le> restarted j"

lemma inv_held:
  assumes "gwd_inv s" and "get_job s i = Some j"
  obtains p where "held s i p j"
proof -
  have "local_ok s i" "no_finalize s" using assms(1) by (simp_all add: gwd_inv_def)
  then show thesis using assms(2) that by (auto simp: local_ok_def job_ok_def held_def)
qed

section \<open>How the phase depends on the state\<close>

lemma phase_ctl_cases:
  assumes "phase_of cs st = Some p"
  obtains "cs = []" | "cs = [C_dm DM_STATE_MIGR_CANCEL, C_em]" | a where "cs = [C_dm a]"
    | "cs = [C_tm TM_PROLOG]" | "cs = [C_tm TM_EPILOG]" | "cs = [C_em]"
proof -
  have "cs = [] \<or> cs = [C_dm DM_STATE_MIGR_CANCEL, C_em] \<or> (\<exists>a. cs = [C_dm a])
      \<or> cs = [C_tm TM_PROLOG] \<or> cs = [C_tm TM_EPILOG] \<or> cs = [C_em]"
    using assms by (auto simp: phase_of_def split: if_splits list.splits ctl.splits tm_action.splits)
  then show thesis using that by blast
qed

lemma phase_hold: "phase_of cs GW_JOB_STATE_HOLD = phase_of cs GW_JOB_STATE_PENDING"
proof -
  have "phase_of cs GW_JOB_STATE_HOLD = Some p \<longleftrightarrow> phase_of cs GW_JOB_STATE_PENDING = Some p" for p
  proof
    assume h: "phase_of cs GW_JOB_STATE_HOLD = Some p"
    from phase_ctl_cases [OF this] show "phase_of cs GW_JOB_STATE_PENDING = Some p"
    proof cases
      case (3 a)
      then show ?thesis using h by (cases a) (auto simp: state_phase_defs)
    qed (use h in \<open>auto simp: state_phase_defs phase_of_def\<close>)
  next
    assume h: "phase_of cs GW_JOB_STATE_PENDING = Some p"
    from phase_ctl_cases [OF this] show "phase_of cs GW_JOB_STATE_HOLD = Some p"
    proof cases
      case (3 a)
      then show ?thesis using h by (cases a) (auto simp: state_phase_defs)
    qed (use h in \<open>auto simp: state_phase_defs phase_of_def\<close>)
  qed
  then show ?thesis by (metis not_None_eq)
qed

lemma phase_rest:
  assumes "phase_of cs st = Some p"
    and "st \<in> {GW_JOB_STATE_STOPPED, GW_JOB_STATE_FAILED, GW_JOB_STATE_ZOMBIE, GW_JOB_STATE_INIT}"
  shows "cs = [] \<and> p = P_idle"
  using phase_ctl_cases [OF assms(1)]
proof cases
  case (3 a)
  then show ?thesis using assms by (cases a) (auto simp: state_phase_defs)
qed (use assms in \<open>auto simp: state_phase_defs phase_of_def\<close>)

lemma phase_cancel:
  assumes "phase_of cs GW_JOB_STATE_WRAPPER = Some p" and "cs \<noteq> [C_dm DM_STATE_MIGR_CANCEL, C_em]"
  shows "phase_of cs GW_JOB_STATE_STOP_CANCEL = Some p" "phase_of cs GW_JOB_STATE_KILL_CANCEL = Some p"
    "p \<noteq> P_idle"
proof -
  have "phase_of cs GW_JOB_STATE_STOP_CANCEL = Some p \<and> phase_of cs GW_JOB_STATE_KILL_CANCEL = Some p
    \<and> p \<noteq> P_idle"
    using phase_ctl_cases [OF assms(1)]
  proof cases
    case (3 a)
    then show ?thesis using assms by (cases a) (auto simp: state_phase_defs)
  qed (use assms in \<open>auto simp: state_phase_defs phase_of_def\<close>)
  then show "phase_of cs GW_JOB_STATE_STOP_CANCEL = Some p"
    "phase_of cs GW_JOB_STATE_KILL_CANCEL = Some p" "p \<noteq> P_idle" by simp_all
qed

lemma phase_wrapper_busy: "phase_of cs GW_JOB_STATE_WRAPPER = Some p \<Longrightarrow> p \<noteq> P_idle"
  using phase_cancel(3) [of cs p] by (cases "cs = [C_dm DM_STATE_MIGR_CANCEL, C_em]") (auto simp: phase_of_def)

section \<open>Changes that leave the claims alone\<close>

lemma move_keep:
  assumes h: "held s i p j" and get: "get_job s' i = Some j'"
    and view: "same_pool s s'" "same_elsewhere s s' i" "no_finalize s'" "ctl_of s' i = ctl_of s i"
    and cnt: "\<And>h. rjobs s' h = rjobs s h" "\<And>h. uslots s' h = uslots s h" "\<And>w. urun s' w = urun s w"
    and ph: "phase_of (ctl_of s i) (job_state j') = Some p"
    and j': "user_id j' = user_id j" "np (template j') = np (template j)" "job_id j' = job_id j"
      "template_ok (template j')" "map h_host (history j') = map h_host (history j)"
    and re: "0 \<le> restarted j'"
      "restarted j' = restarted j \<or> p = P_idle \<and> history j \<noteq> []"
      "job_state j' \<in> {GW_JOB_STATE_FAILED, GW_JOB_STATE_STOPPED} \<longrightarrow> history j \<noteq> []"
  shows "moved s i p j (Some s')"
proof -
  have l: "length (history j') = length (history j)" using j'(5) by (metis length_map)
  have o: "host_of j' k = host_of j k" for k
    using j'(5) l by (simp add: host_of_def) (metis nth_map)
  have q: "on_host j' k x = on_host j k x" "hosted s j' k = hosted s j k" for k x
    using o by (simp_all add: on_host_def hosted_def)
  have "hist_ok s p j" using h by (simp add: held_def)
  moreover have "history j' = [] \<longleftrightarrow> history j = []" using l by (metis length_0_conv)
  ultimately have "hist_ok s p j'"
    using re(2,3) by (cases "restarted j' = restarted j") (simp_all add: hist_ok_def q(2) l j'(1))
  moreover have "r_claim p j' x = r_claim p j x" "u_claim p j' x = u_claim p j x" for x
    using q(1) j'(2) by (cases p; simp)+
  ultimately have "settled s i p j s' p j'"
    using view cnt j'(1-4) re(1) by (simp add: settled_def n_claim_def)
  then show ?thesis using get view(4) ph by (simp add: moved_def)
qed

text \<open>The usual case: the job is stored, and requests and messages go out.\<close>

definition quiet :: "gwd \<Rightarrow> gwd \<Rightarrow> bool" where
  "quiet s s' \<longleftrightarrow> (\<forall>k. get_job s' k = get_job s k \<and> ctl_of s' k = ctl_of s k) \<and> same_pool s s' \<and>
     (\<forall>x. rjobs s' x = rjobs s x \<and> uslots s' x = uslots s x \<and> urun s' x = urun s x) \<and>
     (no_finalize s \<longrightarrow> no_finalize s')"

lemma quiet_refl [simp]: "quiet s s"
  by (simp add: quiet_def)

lemma quiet_trans: "quiet s t \<Longrightarrow> quiet t u \<Longrightarrow> quiet s u"
  by (auto simp: quiet_def same_pool_def)

lemma quiet_basic:
  "quiet s t \<Longrightarrow> quiet s (send m t)" "quiet s t \<Longrightarrow> quiet s (sends ms t)"
  "quiet s t \<Longrightarrow> quiet s (log_state e j t)" "quiet s t \<Longrightarrow> quiet s (trigger_rm b x t)"
  "quiet s t \<Longrightarrow> quiet s (trigger_em EM_CANCEL k t)"
  "quiet s t \<Longrightarrow> quiet s (user_op (gw_user_pool_dec_jobs u) t)"
  "quiet s t \<Longrightarrow> quiet s (user_op (gw_user_pool_inc_jobs u n) t)"
  by (auto simp: quiet_def gw_frame same_pool_def)

lemma quiet_fields:
  assumes "gd_jobs s' = gd_jobs s" "gd_users s' = gd_users s" "gd_hosts s' = gd_hosts s"
    "dm_am s' = dm_am s" "tm_am s' = tm_am s" "em_am s' = em_am s"
  shows "quiet s s'"
  using assms by (simp add: quiet_def view_defs same_pool_def no_finalize_def)

lemma move_put:
  assumes h: "held s i p j" and q: "quiet (put i j' s) s'"
    and ph: "phase_of (ctl_of s i) (job_state j') = Some p"
    and j': "user_id j' = user_id j" "np (template j') = np (template j)" "job_id j' = job_id j"
      "template_ok (template j')" "map h_host (history j') = map h_host (history j)"
      "0 \<le> restarted j'" "restarted j' = restarted j \<or> p = P_idle \<and> history j \<noteq> []"
      "job_state j' \<in> {GW_JOB_STATE_FAILED, GW_JOB_STATE_STOPPED} \<longrightarrow> history j \<noteq> []"
  shows "moved s i p j (Some s')"
proof (rule move_keep [OF h _ _ _ _ _ _ _ _ ph j'])
  have g: "get_job s i = Some j" "no_finalize s" using h by (simp_all add: held_def)
  show "get_job s' i = Some j'" "ctl_of s' i = ctl_of s i" "no_finalize s'"
    "rjobs s' x = rjobs s x" "uslots s' x = uslots s x" "urun s' x = urun s x" for x
    using q g by (simp_all add: quiet_def gw_frame)
  show "same_pool s s'" "same_elsewhere s s' i"
    using q g by (auto simp: quiet_def gw_frame same_pool_def same_elsewhere_def)
qed

lemma quiet_moved:
  assumes h: "held s i p j" and q: "quiet s s'"
  shows "moved s i p j (Some s')"
proof (rule move_keep [OF h])
  show "get_job s' i = Some j" "ctl_of s' i = ctl_of s i" "no_finalize s'" "same_pool s s'"
    "rjobs s' x = rjobs s x" "uslots s' x = uslots s x" "urun s' x = urun s x" for x
    using q h by (simp_all add: quiet_def held_def)
  show "same_elsewhere s s' i" using q by (auto simp: quiet_def same_elsewhere_def)
  show "job_state j \<in> {GW_JOB_STATE_FAILED, GW_JOB_STATE_STOPPED} \<longrightarrow> history j \<noteq> []"
    using h by (auto simp: held_def hist_ok_def)
qed (use h in \<open>simp_all add: held_def\<close>)

text \<open>An idle job may change its user, its template and its history.\<close>

lemma move_idle:
  assumes h: "held s i p j" and c: "ctl_of s i = []" and q: "quiet (put i j' s) s'"
    and j': "idle_state (job_state j')" "template_ok (template j')" "job_id j' = job_id j"
      "restarted j' = restarted j" "history j' = [] \<longrightarrow> history j = []"
      "job_state j' \<notin> {GW_JOB_STATE_FAILED, GW_JOB_STATE_STOPPED}"
  shows "moved s i p j (Some s')"
proof -
  have f: "get_job s i = Some j" "phase_of (ctl_of s i) (job_state j) = Some p" "hist_ok s p j"
    "0 \<le> restarted j" using h by (simp_all add: held_def)
  have p: "p = P_idle" using f(2) c by simp
  have g: "get_job s' i = Some j'" "ctl_of s' i = []" "no_finalize s'" "same_pool s s'"
    "same_elsewhere s s' i"
    "rjobs s' x = rjobs s x" "uslots s' x = uslots s x" "urun s' x = urun s x" for x
    using q f(1) c h by (auto simp: quiet_def gw_frame same_pool_def same_elsewhere_def held_def)
  have "hist_ok s P_idle j'" using f(3) j' p by (auto simp: hist_ok_def)
  then show ?thesis using g j' f(4) p by (simp add: moved_def settled_def n_claim_def)
qed

section \<open>The requests\<close>

lemma held_simps:
  assumes "held s i p j"
  shows "get_job s i = Some j" "phase_of (ctl_of s i) (job_state j) = Some p" "hist_ok s p j"
    "template_ok (template j)" "job_id j = i" "0 \<le> restarted j"
  using assms by (simp_all add: held_def)

lemmas request_defs = with_job_def refuse_def gw_job_set_state_def

lemma put_log [simp]: "put i j (log_state e k s) = log_state e k (put i j s)"
  "put i j (send m s) = send m (put i j s)"
  by (simp_all add: put_def log_state_def send_def)

lemma move_hold:
  assumes h: "held s i p j"
  shows "moved s i p j (gw_dm_hold e (Some i) s)"
proof (cases "job_state j = GW_JOB_STATE_PENDING")
  case True
  then have ph: "phase_of (ctl_of s i) GW_JOB_STATE_HOLD = Some p"
    using held_simps(2) [OF h] phase_hold by simp
  let ?j = "set_state GW_JOB_STATE_HOLD j"
  have e: "gw_dm_hold e (Some i) s = Some (send (JOB_DEL (job_id j))
      (trigger_rm RM_HOLD_SUCCESS (ARG_ID i) (log_state e ?j (put i ?j s))))"
    using True held_simps(1) [OF h] by (simp add: gw_dm_hold_def request_defs)
  show ?thesis
    unfolding e
    by (rule move_put [OF h, of ?j]) (use held_simps [OF h] ph in \<open>simp_all add: quiet_basic\<close>)
next
  case False
  then have "gw_dm_hold e (Some i) s = Some (refuse RM_HOLD_FAILED i s)"
    using held_simps(1) [OF h] by (cases "job_state j") (simp_all add: gw_dm_hold_def with_job_def)
  then show ?thesis by (auto simp: refuse_def intro!: quiet_moved [OF h] quiet_basic)
qed

lemma move_release:
  assumes h: "held s i p j"
  shows "moved s i p j (gw_dm_release e (Some i) s)"
proof (cases "job_state j = GW_JOB_STATE_HOLD")
  case True
  then have ph: "phase_of (ctl_of s i) GW_JOB_STATE_PENDING = Some p"
    using held_simps(2) [OF h] phase_hold by simp
  let ?j = "set_state GW_JOB_STATE_PENDING j"
  have e: "gw_dm_release e (Some i) s =
      Some (send (JOB_SCHEDULE i (array_id j) (user_id j) GW_REASON_NONE)
        (trigger_rm RM_RELEASE_SUCCESS (ARG_ID i) (log_state e ?j (put i ?j s))))"
    using True held_simps(1) [OF h] by (simp add: gw_dm_release_def request_defs)
  show ?thesis
    unfolding e
    by (rule move_put [OF h, of ?j]) (use held_simps [OF h] ph in \<open>simp_all add: quiet_basic\<close>)
next
  case False
  then have "gw_dm_release e (Some i) s = Some (refuse RM_RELEASE_FAILED i s)"
    using held_simps(1) [OF h] by (cases "job_state j") (simp_all add: gw_dm_release_def with_job_def)
  then show ?thesis by (auto simp: refuse_def intro!: quiet_moved [OF h] quiet_basic)
qed

lemma note_reason_simps [simp]:
  "job_state (note_reason r j) = job_state j" "user_id (note_reason r j) = user_id j"
  "template (note_reason r j) = template j" "job_id (note_reason r j) = job_id j"
  "restarted (note_reason r j) = restarted j" "reschedule (note_reason r j) = reschedule j"
  "map h_host (history (note_reason r j)) = map h_host (history j)"
  by (simp_all add: note_reason_def split: list.split)

lemma move_cancel_wrapper:
  assumes h: "held s i p j" and ph: "phase_of (ctl_of s i) st = Some p"
    and st: "st = GW_JOB_STATE_STOP_CANCEL \<or> st = GW_JOB_STATE_KILL_CANCEL"
  shows "moved s i p j (Some (cancel_wrapper e r st i j s))"
  by (rule move_put [OF h, of "fst (withdraw_reschedule (set_state st (note_reason r j)) s)"])
     (use st held_simps [OF h] ph in \<open>auto simp: cancel_wrapper_def withdraw_reschedule_def
        gw_job_set_state_def quiet_basic\<close>)

lemma move_stop:
  assumes h: "held s i p j" and m: "ctl_of s i \<noteq> [C_dm DM_STATE_MIGR_CANCEL, C_em]"
  shows "moved s i p j (gw_dm_stop e (Some i) s)"
proof (cases "job_state j = GW_JOB_STATE_WRAPPER")
  case True
  then have "phase_of (ctl_of s i) GW_JOB_STATE_STOP_CANCEL = Some p"
    using phase_cancel held_simps(2) [OF h] m by simp
  moreover have "gw_dm_stop e (Some i) s =
      Some (cancel_wrapper e GW_REASON_STOP_RESUME GW_JOB_STATE_STOP_CANCEL i j s)"
    using True held_simps(1) [OF h] by (simp add: gw_dm_stop_def with_job_def)
  ultimately show ?thesis using move_cancel_wrapper [OF h] by simp
next
  case False
  then have "gw_dm_stop e (Some i) s = Some (refuse RM_STOP_FAILED i s)"
    using held_simps(1) [OF h] by (cases "job_state j") (simp_all add: gw_dm_stop_def with_job_def)
  then show ?thesis by (auto simp: refuse_def intro!: quiet_moved [OF h] quiet_basic)
qed

lemma move_resume:
  assumes h: "held s i p j"
  shows "moved s i p j (gw_dm_resume e (Some i) s)"
proof (cases "job_state j = GW_JOB_STATE_STOPPED")
  case True
  then have r: "ctl_of s i = []" "p = P_idle" using phase_rest held_simps(2) [OF h] by auto
  have "history j \<noteq> []" using True held_simps(3) [OF h] by (simp add: hist_ok_def)
  let ?k = "set_state GW_JOB_STATE_PENDING (j\<lparr>restarted := restarted j + 1\<rparr>)"
  let ?j = "?k\<lparr>tm_state := GW_TM_STATE_INIT, em_state := GW_EM_STATE_INIT\<rparr>"
  have e: "gw_dm_resume e (Some i) s =
      Some (send (JOB_SCHEDULE i (array_id j) (user_id j) GW_REASON_NONE)
        (trigger_rm RM_RESUME_SUCCESS (ARG_ID i) (log_state e ?k (put i ?j s))))"
    using True held_simps(1) [OF h] by (simp add: gw_dm_resume_def request_defs Let_def)
  show ?thesis
    unfolding e
    by (rule move_put [OF h, of ?j])
       (use held_simps [OF h] r \<open>history j \<noteq> []\<close> in \<open>simp_all add: quiet_basic idle_state_def\<close>)
next
  case False
  then have "gw_dm_resume e (Some i) s = Some (refuse RM_RESUME_FAILED i s)"
    using held_simps(1) [OF h] by (cases "job_state j") (simp_all add: gw_dm_resume_def with_job_def)
  then show ?thesis by (auto simp: refuse_def intro!: quiet_moved [OF h] quiet_basic)
qed

lemma move_reschedule:
  assumes h: "held s i p j"
  shows "moved s i p j (gw_dm_reschedule e (Some i) s)"
proof -
  note f = held_simps [OF h]
  consider "job_state j = GW_JOB_STATE_WRAPPER" | "job_state j = GW_JOB_STATE_FAILED"
    | "job_state j \<noteq> GW_JOB_STATE_WRAPPER" "job_state j \<noteq> GW_JOB_STATE_FAILED" by blast
  then show ?thesis
  proof cases
    case 1
    then have "p \<noteq> P_idle" using f(2) phase_wrapper_busy by simp
    then obtain r rs where hist: "history j = r # rs"
      using f(3) by (cases "history j") (auto simp: hist_ok_def hosted_def host_of_def)
    let ?j = "j\<lparr>reschedule := True, history := set_reason GW_REASON_USER_REQUESTED r # rs\<rparr>"
    have e: "gw_dm_reschedule e (Some i) s =
        Some (send (JOB_SCHEDULE i (array_id j) (user_id j) GW_REASON_USER_REQUESTED)
          (trigger_rm RM_RESCHEDULE_SUCCESS (ARG_ID i) (put i ?j s)))"
      using 1 f(1) hist by (simp add: gw_dm_reschedule_def with_job_def upd_top_def)
    show ?thesis
      unfolding e
      by (rule move_put [OF h, of ?j]) (use f 1 hist in \<open>simp_all add: quiet_basic\<close>)
  next
    case 2
    then have r: "ctl_of s i = []" "p = P_idle" using phase_rest f(2) by auto
    obtain x xs where hist: "history j = x # xs"
      using 2 f(3) by (cases "history j") (auto simp: hist_ok_def)
    let ?k = "set_state GW_JOB_STATE_PENDING j"
    let ?j = "?k\<lparr>tm_state := GW_TM_STATE_INIT, em_state := GW_EM_STATE_INIT,
                history := set_reason GW_REASON_USER_REQUESTED x # xs, restarted := restarted j + 1\<rparr>"
    have e: "gw_dm_reschedule e (Some i) s =
        Some (send (JOB_SCHEDULE i (array_id j) (user_id j) GW_REASON_NONE)
          (trigger_rm RM_RESCHEDULE_SUCCESS (ARG_ID i) (log_state e ?k (put i ?j s))))"
      using 2 f(1) hist by (simp add: gw_dm_reschedule_def request_defs upd_top_def)
    show ?thesis
      unfolding e
      by (rule move_put [OF h, of ?j]) (use f r hist in \<open>simp_all add: quiet_basic idle_state_def\<close>)
  next
    case 3
    then have "gw_dm_reschedule e (Some i) s = Some (refuse RM_RESCHEDULE_FAILED i s)"
      using f(1) by (cases "job_state j") (simp_all add: gw_dm_reschedule_def with_job_def)
    then show ?thesis by (auto simp: refuse_def intro!: quiet_moved [OF h] quiet_basic)
  qed
qed

lemma held_failed_history:
  "held s i p j \<Longrightarrow> job_state j \<in> {GW_JOB_STATE_FAILED, GW_JOB_STATE_STOPPED} \<Longrightarrow> history j \<noteq> []"
  by (auto simp: held_def hist_ok_def)

lemma move_wait:
  assumes h: "held s i p j"
  shows "moved s i p j (gw_dm_wait e (Some i) s)"
proof -
  note f = held_simps [OF h]
  let ?j = "j\<lparr>client_waiting := client_waiting j + 1\<rparr>"
  have e: "gw_dm_wait e (Some i) s = Some (
      if job_state j = GW_JOB_STATE_ZOMBIE \<or> job_state j = GW_JOB_STATE_FAILED
      then trigger_rm RM_WAIT_SUCCESS (ARG_ID i) (put i ?j s) else put i ?j s)"
    using f(1) by (simp add: gw_dm_wait_def with_job_def Let_def)
  show ?thesis
    unfolding e
    by (rule move_put [OF h, of ?j])
       (use f held_failed_history [OF h] in \<open>simp_all add: quiet_basic\<close>)
qed

text \<open>A kill cancels the execution, or refuses; an idle job is freed, which is treated below.\<close>

lemma move_kill:
  assumes h: "held s i p j" and m: "ctl_of s i \<noteq> [C_dm DM_STATE_MIGR_CANCEL, C_em]"
    and k: "\<not> killable_now (job_state j)"
  shows "moved s i p j (gw_dm_kill e (Some i) s)"
proof (cases "job_state j = GW_JOB_STATE_WRAPPER")
  case True
  then have "phase_of (ctl_of s i) GW_JOB_STATE_KILL_CANCEL = Some p"
    using phase_cancel held_simps(2) [OF h] m by simp
  moreover have "gw_dm_kill e (Some i) s =
      Some (cancel_wrapper e GW_REASON_KILL GW_JOB_STATE_KILL_CANCEL i j s)"
    using True k held_simps(1) [OF h] by (simp add: gw_dm_kill_def with_job_def)
  ultimately show ?thesis using move_cancel_wrapper [OF h] by simp
next
  case False
  then have "gw_dm_kill e (Some i) s = Some (refuse RM_KILL_FAILED i s)"
    using k held_simps(1) [OF h] by (simp add: gw_dm_kill_def with_job_def)
  then show ?thesis by (auto simp: refuse_def intro!: quiet_moved [OF h] quiet_basic)
qed

section \<open>The execution manager\<close>

text \<open>What a callback may change of a job.\<close>

definition same_shape :: "gw_job \<Rightarrow> gw_job \<Rightarrow> bool" where
  "same_shape j j' \<longleftrightarrow> job_state j' = job_state j \<and> user_id j' = user_id j \<and> template j' = template j \<and>
     job_id j' = job_id j \<and> restarted j' = restarted j \<and>
     map h_host (history j') = map h_host (history j)"

lemma shape_refl [simp]: "same_shape j j"
  by (simp add: same_shape_def)

lemma add_since_host [simp]: "h_host (add_since k l t h) = h_host h" "h_host (add_stat k v h) = h_host h"
  by (simp_all add: add_since_def add_stat_def)

lemma shape_updates:
  "same_shape j j' \<Longrightarrow> same_shape j (j'\<lparr>em_state := x\<rparr>)"
  "same_shape j j' \<Longrightarrow> same_shape j (j'\<lparr>reschedule := b\<rparr>)"
  "same_shape j j' \<Longrightarrow> same_shape j (j'\<lparr>last_checkpoint_time := t\<rparr>)"
  "same_shape j j' \<Longrightarrow> same_shape j (j'\<lparr>last_rescheduling_time := t\<rparr>)"
  by (simp_all add: same_shape_def)

lemma shape_upd_top:
  assumes "same_shape j j'" and "history j \<noteq> []" and "\<And>h. h_host (f h) = h_host h"
  obtains k where "upd_top f j' = Some k" "same_shape j k"
proof -
  obtain h hs where "history j' = h # hs"
    using assms(1,2) by (cases "history j'") (auto simp: same_shape_def)
  then show thesis using that assms by (simp add: upd_top_def same_shape_def)
qed

lemma move_shape:
  assumes h: "held s i p j" and k: "same_shape j k" and q: "quiet (put i k s) s'"
  shows "moved s i p j (Some s')"
proof -
  note f = held_simps [OF h]
  have st: "job_state j \<in> {GW_JOB_STATE_FAILED, GW_JOB_STATE_STOPPED} \<longrightarrow> history j \<noteq> []"
    using held_failed_history [OF h] by blast
  show ?thesis
    by (rule move_put [OF h q]) (use k f st in \<open>simp_all add: same_shape_def\<close>)
qed

lemma held_history:
  assumes "held s i p j" and "p \<noteq> P_idle"
  shows "history j \<noteq> []"
  using assms by (auto simp: held_def hist_ok_def hosted_def host_of_def)

lemma quiet_retry: "quiet s t \<Longrightarrow> quiet s (retry_cancel i j t)"
  by (simp add: retry_cancel_def quiet_basic)

lemma put_retry [simp]: "put i k (retry_cancel i j s) = retry_cancel i j (put i k s)"
  by (simp add: put_def retry_cancel_def trigger_em_def)

lemma move_em_pending:
  assumes h: "held s i p j"
  shows "moved s i p j (gw_em_pending e (Some i) s)"
proof (cases "em_state j = GW_EM_STATE_PENDING")
  case True
  then have "gw_em_pending e (Some i) s = Some (retry_cancel i j s)"
    using held_simps(1) [OF h] by (simp add: gw_em_pending_def with_job_def)
  then show ?thesis using quiet_moved [OF h] by (simp add: quiet_retry)
next
  case False
  let ?j = "j\<lparr>em_state := GW_EM_STATE_PENDING\<rparr>"
  have e: "gw_em_pending e (Some i) s = Some (retry_cancel i j (put i ?j s))"
    using False held_simps(1) [OF h] by (simp add: gw_em_pending_def with_job_def)
  show ?thesis unfolding e by (rule move_shape [OF h, of ?j]) (simp_all add: shape_updates quiet_retry)
qed

lemma move_em_active:
  assumes h: "held s i p j" and b: "p \<noteq> P_idle"
  shows "moved s i p j (gw_em_active e (Some i) s)"
proof (cases "em_state j = GW_EM_STATE_ACTIVE")
  case True
  then have "gw_em_active e (Some i) s = Some (retry_cancel i j s)"
    using held_simps(1) [OF h] by (simp add: gw_em_active_def with_job_def)
  then show ?thesis using quiet_moved [OF h] by (simp add: quiet_retry)
next
  case False
  obtain k where k: "upd_top (set_stat LAST_ACTIVE_TIME (now e)
      \<circ> add_since SUSPENSION_TIME LAST_SUSPENSION_TIME (now e)) j = Some k" "same_shape j k"
    by (rule shape_upd_top [where f = "set_stat LAST_ACTIVE_TIME (now e)
          \<circ> add_since SUSPENSION_TIME LAST_SUSPENSION_TIME (now e)",
        OF shape_refl held_history [OF h b]]) auto
  let ?k = "k\<lparr>em_state := GW_EM_STATE_ACTIVE\<rparr>"
  let ?j = "if last_checkpoint_time ?k = 0 then ?k\<lparr>last_checkpoint_time := now e\<rparr> else ?k"
  have e: "gw_em_active e (Some i) s = Some (retry_cancel i j (put i ?j s))"
    using False held_simps(1) [OF h] k(1) by (simp add: gw_em_active_def with_job_def Let_def)
  show ?thesis unfolding e
    by (rule move_shape [OF h, of ?j]) (use k(2) in \<open>simp_all add: shape_updates quiet_retry\<close>)
qed

lemma move_em_suspended:
  assumes h: "held s i p j" and b: "p \<noteq> P_idle"
  shows "moved s i p j (gw_em_suspended e (Some i) s)"
proof (cases "em_state j = GW_EM_STATE_SUSPENDED")
  case True
  then have "gw_em_suspended e (Some i) s = Some (retry_cancel i j s)"
    using held_simps(1) [OF h] by (simp add: gw_em_suspended_def with_job_def Let_def)
  then show ?thesis using quiet_moved [OF h] by (simp add: quiet_retry)
next
  case False
  note hist = held_history [OF h b]
  obtain k where k: "(if em_state j = GW_EM_STATE_ACTIVE
      then upd_top (add_since ACTIVE_TIME LAST_ACTIVE_TIME (now e)) j else Some j) = Some k" "same_shape j k"
  proof (cases "em_state j = GW_EM_STATE_ACTIVE")
    case True
    show thesis
      by (rule shape_upd_top [where f = "add_since ACTIVE_TIME LAST_ACTIVE_TIME (now e)",
            OF shape_refl hist]) (use True that in auto)
  qed (use that in auto)
  obtain l where l: "(if em_state j \<noteq> GW_EM_STATE_PENDING
      then upd_top (set_stat LAST_SUSPENSION_TIME (now e)) k else Some k) = Some l" "same_shape j l"
  proof (cases "em_state j = GW_EM_STATE_PENDING")
    case False
    show thesis
      by (rule shape_upd_top [where f = "set_stat LAST_SUSPENSION_TIME (now e)", OF k(2) hist])
         (use False that in auto)
  qed (use that k(2) in auto)
  let ?j = "l\<lparr>em_state := GW_EM_STATE_SUSPENDED\<rparr>"
  have e: "gw_em_suspended e (Some i) s = Some (retry_cancel i j (put i ?j s))"
    using False held_simps(1) [OF h] k(1) l(1) by (simp add: gw_em_suspended_def with_job_def Let_def)
  show ?thesis unfolding e
    by (rule move_shape [OF h, of ?j]) (use l(2) in \<open>simp_all add: shape_updates quiet_retry\<close>)
qed

text \<open>The end of the execution hands the job back to the dispatch manager.\<close>

lemma move_em_done:
  assumes r: "ready s i p j" and a: "exec_phase (job_state j) = Some p"
    and d: "em_state j \<noteq> GW_EM_STATE_DONE"
  shows "moved s i p j (gw_em_done e (Some i) s)"
proof (cases "exec_state (job_state j)")
  case True
  then have p: "p = P_run" using a by (simp add: exec_phase_def)
  have m: "job_state j \<noteq> GW_JOB_STATE_MIGR_CANCEL" using True by (auto simp: exec_state_def)
  show ?thesis
    by (rule ready_run [OF r])
       (use True p m a d in \<open>auto simp: gw_em_done_def run_defs gw_frame move_defs exec_state_def\<close>)
next
  case False
  then have st: "job_state j = GW_JOB_STATE_MIGR_CANCEL" and p: "p = P_mig_run"
    using a by (auto simp: exec_phase_def split: if_splits)
  show ?thesis
    by (rule ready_mig [OF r])
       (use st p a d in \<open>auto simp: gw_em_done_def run_defs gw_frame move_defs\<close>)
qed

text \<open>A failure is final when the tries of the record are used up.\<close>

definition final_failure :: "gw_job \<Rightarrow> bool" where
  "final_failure j \<longleftrightarrow>
     (case history j of [] \<Rightarrow> False | h # _ \<Rightarrow> h_tries h \<ge> number_of_retries (template j))"

definition fail_stats :: "dm_env \<Rightarrow> gw_job \<Rightarrow> gw_job option" where
  "fail_stats e job = do {
     job \<leftarrow> (if em_state job = GW_EM_STATE_SUSPENDED \<or> em_state job = GW_EM_STATE_PENDING
             then upd_top (add_since SUSPENSION_TIME LAST_SUSPENSION_TIME (now e)) job
             else Some job);
     (if em_state job = GW_EM_STATE_ACTIVE
      then upd_top (add_since ACTIVE_TIME LAST_ACTIVE_TIME (now e)) job else Some job) }"

lemma fail_stats_shape:
  assumes "history j \<noteq> []"
  obtains k where "fail_stats e j = Some k" "same_shape j k"
    "history k \<noteq> []" "h_tries (hd (history k)) = h_tries (hd (history j))"
  using assms by (cases "history j"; cases "em_state j")
    (auto simp: fail_stats_def upd_top_def same_shape_def add_since_def add_stat_def set_stat_def)

text \<open>The handler of a failure, over \<open>fail_stats\<close>.\<close>

lemma gw_em_failed_stats:
  "gw_em_failed e = with_job no_job (\<lambda>jid job s. do {
     job \<leftarrow> fail_stats e job;
     let job = job\<lparr>em_state := GW_EM_STATE_FAILED\<rparr>;
     h \<leftarrow> hist_top job;
     (if h_tries h \<ge> number_of_retries (template job)
      then do {
        job \<leftarrow> upd_top (\<lambda>h. h\<lparr>h_counter := -1\<rparr>) job;
        Some (trigger_dm DM_WRAPPER_FAILED (ARG_ID jid) (put jid job s)) }
      else do {
        job \<leftarrow> upd_top (\<lambda>h. h\<lparr>h_counter := h_tries h\<rparr>) job;
        Some (put jid job s) })
   })"
  unfolding gw_em_failed_def fail_stats_def
  by (intro arg_cong [where f = "with_job no_job"] ext) (simp add: bind_assoc)

lemma em_failed_job:
  assumes "get_job s i = Some j" and "history j \<noteq> []"
  obtains k where "same_shape j k"
    "gw_em_failed e (Some i) s =
       Some (if final_failure j then trigger_dm DM_WRAPPER_FAILED (ARG_ID i) (put i k s) else put i k s)"
proof -
  obtain k where k: "fail_stats e j = Some k" "same_shape j k" "history k \<noteq> []"
    "h_tries (hd (history k)) = h_tries (hd (history j))"
    using fail_stats_shape [OF assms(2)] .
  obtain h hs where hist: "history k = h # hs" using k(3) by (cases "history k") auto
  have ff: "final_failure j \<longleftrightarrow> number_of_retries (template j) \<le> h_tries h"
    using k(4) hist assms(2) by (cases "history j") (auto simp: final_failure_def)
  have tm: "template k = template j" using k(2) by (simp add: same_shape_def)
  let ?c = "if final_failure j then -1 else h_tries h"
  let ?k = "k\<lparr>em_state := GW_EM_STATE_FAILED, history := h\<lparr>h_counter := ?c\<rparr> # hs\<rparr>"
  have "gw_em_failed e (Some i) s =
      Some (if final_failure j then trigger_dm DM_WRAPPER_FAILED (ARG_ID i) (put i ?k s) else put i ?k s)"
    using assms(1) k(1) hist ff tm
    by (simp add: gw_em_failed_stats with_job_def Let_def hist_top_def upd_top_def)
  moreover have "same_shape j ?k" using k(2) hist by (simp add: same_shape_def)
  ultimately show thesis using that by blast
qed

lemma move_em_failed:
  assumes h: "held s i p j" and b: "p \<noteq> P_idle" and f: "\<not> final_failure j"
  shows "moved s i p j (gw_em_failed e (Some i) s)"
proof -
  obtain k where k: "same_shape j k" "gw_em_failed e (Some i) s = Some (put i k s)"
    using em_failed_job [OF held_simps(1) [OF h] held_history [OF h b], of e] f by auto
  show ?thesis unfolding k(2) by (rule move_shape [OF h k(1)]) simp
qed

text \<open>Handing a job without a control item to the dispatch manager, with the phase unchanged.\<close>

lemma move_hand:
  assumes r: "ready s i p j" and k: "same_shape j k" and a: "is_ctl a" "a \<noteq> DM_STATE_MIGR_CANCEL"
    and ph: "action_phase a (job_state j) = Some p"
  shows "moved s i p j (Some (trigger_dm a (ARG_ID i) (put i k s)))"
proof -
  let ?s = "trigger_dm a (ARG_ID i) (put i k s)"
  have g: "get_job s i = Some j" "no_finalize s" "ctl_of s i = []" using r by (simp_all add: ready_def)
  have v: "get_job ?s x = (if x = i then Some k else get_job s x)"
    "ctl_of ?s x = (if x = i then [C_dm a] else ctl_of s x)" for x
    using g a by (simp_all add: gw_frame)
  have f: "a \<noteq> DM_FINALIZE" using a(1) by (auto simp: is_ctl_def)
  have pool: "same_pool s ?s" "same_elsewhere s ?s i" "no_finalize ?s"
    using g v f by (simp_all add: gw_frame same_pool_def same_elsewhere_def)
  have l: "length (history k) = length (history j)" using k by (metis same_shape_def length_map)
  have o: "host_of k n = host_of j n" for n
    using k l by (simp add: host_of_def same_shape_def) (metis nth_map)
  have q: "on_host k n x = on_host j n x" "hosted s k n = hosted s j n" for n x
    using o by (simp_all add: on_host_def hosted_def)
  have e: "history k = [] \<longleftrightarrow> history j = []" using l by (metis length_0_conv)
  have c: "job_state k = job_state j" "user_id k = user_id j" "template k = template j"
    "job_id k = job_id j" "restarted k = restarted j"
    using k by (simp_all add: same_shape_def)
  have "hist_ok s p j" "template_ok (template j)" "0 \<le> restarted j" using r by (simp_all add: ready_def)
  moreover from this(1) have "hist_ok s p k" by (simp add: hist_ok_def q(2) l e c)
  moreover have "r_claim p k x = r_claim p j x" "u_claim p k x = u_claim p j x" for x
    using q(1) c(3) by (cases p; simp)+
  ultimately have "settled s i p j ?s p k"
    using pool c by (simp add: settled_def n_claim_def gw_frame)
  then show ?thesis using v a ph c(1) by (simp add: moved_def phase_of_def)
qed

lemma move_em_final:
  assumes r: "ready s i P_run j" and a: "exec_state (job_state j)" and f: "final_failure j"
  shows "moved s i P_run j (gw_em_failed e (Some i) s)"
proof -
  have "get_job s i = Some j" "history j \<noteq> []"
    using r by (auto simp: ready_def hist_ok_def hosted_def host_of_def)
  then obtain k where k: "same_shape j k"
    "gw_em_failed e (Some i) s = Some (trigger_dm DM_WRAPPER_FAILED (ARG_ID i) (put i k s))"
    using em_failed_job [of s i j e] f by auto
  show ?thesis unfolding k(2)
    by (rule move_hand [OF r k(1)]) (use a in \<open>simp_all add: gw_frame\<close>)
qed

section \<open>The transfer manager\<close>

lemma move_tm_hand:
  assumes r: "ready s i p j" and k: "same_shape j k"
    and a: "b = TM_PROLOG \<and> (a = DM_PROLOG_DONE \<or> a = DM_PROLOG_FAILED) \<and> prolog_phase (job_state j) = Some p
      \<or> b = TM_EPILOG \<and> (a = DM_EPILOG_DONE \<or> a = DM_EPILOG_FAILED) \<and> epilog_phase (job_state j) = Some p"
  shows "moved s i p j (Some (trigger_dm a (ARG_ID i) (put i k s)))"
  by (rule move_hand [OF r k]) (use a in \<open>auto simp: gw_frame\<close>)

end
