(* ===== verification/DM_Release.thy ===== *)
theory DM_Release
  imports DM_Requests
begin

text \<open>
  The accounting invariant under a single change: a job that moved (the lemmas of \<open>DM_Moves\<close> and
  \<open>DM_Requests\<close>), a job that is freed, the release of the jobs that depended on another one, and
  the submission of a job.
\<close>

section \<open>A job that moved\<close>

text \<open>
  \<open>s\<close> is \<open>s0\<close> with the control item of job \<open>i\<close> possibly taken away, as it is when the handler of
  that item runs.
\<close>

definition loosed :: "gwd \<Rightarrow> gwd \<Rightarrow> int \<Rightarrow> bool" where
  "loosed s0 s i \<longleftrightarrow> same_pool s0 s \<and> same_elsewhere s0 s i \<and> get_job s i = get_job s0 i \<and>
     (\<forall>x. rjobs s x = rjobs s0 x \<and> uslots s x = uslots s0 x \<and> urun s x = urun s0 x) \<and> no_finalize s"

lemma loosed_refl: "no_finalize s \<Longrightarrow> loosed s s i"
  by (simp add: loosed_def)

lemma inv_moved:
  assumes inv: "gwd_inv s0" and l: "loosed s0 s i" and h: "held s0 i p j"
    and m: "moved s i p j (Some s')"
  shows "gwd_inv s'"
proof -
  obtain j' p' where g: "get_job s' i = Some j'" "phase_of (ctl_of s' i) (job_state j') = Some p'"
    "settled s i p j s' p' j'"
    using m by (auto simp: moved_def split: option.splits)
  have g0: "get_job s0 i = Some j" "phase_of (ctl_of s0 i) (job_state j) = Some p"
    using held_simps [OF h] by simp_all
  have c: "claim f s0 i x = f p j x" "claim f s' i x = f p' j' x" for f x
    using g g0 by (simp_all add: claim_def job_phase_def)
  have sp: "same_pool s0 s'" using l g(3) by (auto simp: loosed_def settled_def same_pool_def)
  have se: "same_elsewhere s0 s' i"
    using l g(3) by (auto simp: loosed_def settled_def same_elsewhere_def)
  have up: "same_pool s s'" and li: "same_pool s0 s" using l g(3) by (simp_all add: loosed_def settled_def)
  have hs: "get_host s h \<noteq> None" if "get_host s0 h \<noteq> None" for h
    using that li by (simp add: same_pool_def)
  have us: "get_user s w \<noteq> None" if "get_user s0 w \<noteq> None" for w
    using that li by (simp add: same_pool_def)
  show ?thesis
  proof (rule inv_change [OF inv sp se])
    have "hist_ok s' p' j'" using g(3) hist_ok_same [OF up] by (simp add: settled_def)
    then show "local_ok s' i"
      using g held_simps(5) [OF h] by (simp add: local_ok_def job_ok_def settled_def)
    show "no_finalize s'" using g(3) by (simp add: settled_def)
    show "rjobs s' h - rjobs s0 h = claim r_claim s' i h - claim r_claim s0 i h"
      if "get_host s0 h \<noteq> None" for h
      using g(3) l hs [OF that] by (simp add: settled_def loosed_def c)
    show "uslots s' h - uslots s0 h = claim u_claim s' i h - claim u_claim s0 i h"
      if "get_host s0 h \<noteq> None" for h
      using g(3) l hs [OF that] by (simp add: settled_def loosed_def c)
    show "urun s' w - urun s0 w = claim n_claim s' i w - claim n_claim s0 i w"
      if "get_user s0 w \<noteq> None" for w
      using g(3) l us [OF that] by (simp add: settled_def loosed_def c)
  qed
qed

lemma inv_no_finalize: "gwd_inv s \<Longrightarrow> no_finalize s"
  by (simp add: gwd_inv_def)

lemma inv_request:
  assumes "gwd_inv s" and "held s i p j" and "moved s i p j (Some s')"
  shows "gwd_inv s'"
  using inv_moved [OF assms(1) loosed_refl assms(2,3)] inv_no_finalize [OF assms(1)] by simp

lemma inv_quiet:
  assumes inv: "gwd_inv s" and q: "quiet s s'"
  shows "gwd_inv s'"
proof -
  have "same_pool s s'" "same_elsewhere s s' 0" using q by (auto simp: quiet_def same_elsewhere_def)
  moreover have cl: "claim f s' 0 x = claim f s 0 x" for f x
    using q by (auto simp: claim_def job_phase_def quiet_def split: option.split)
  moreover have "local_ok s' 0"
  proof -
    have "local_ok s 0" using inv by (simp add: gwd_inv_def)
    then show ?thesis using q hist_ok_same [OF \<open>same_pool s s'\<close>]
      by (auto simp: local_ok_def job_ok_def quiet_def split: option.splits)
  qed
  moreover have "no_finalize s'" using q inv_no_finalize [OF inv] by (simp add: quiet_def)
  ultimately show ?thesis
    using q by (intro inv_change [OF inv]) (auto simp: quiet_def)
qed

section \<open>Releasing the dependents\<close>

lemma inv_dep_release:
  assumes inv: "gwd_inv s"
  shows "gwd_inv (dep_release e i s)"
proof (cases "get_job s i")
  case None
  then show ?thesis using inv by (simp add: dep_release_def)
next
  case (Some j)
  show ?thesis
  proof (cases "job_state j = GW_JOB_STATE_HOLD")
    case True
    obtain p where h: "held s i p j" using inv_held [OF inv Some] .
    let ?j = "set_state GW_JOB_STATE_PENDING j"
    have e: "dep_release e i s =
        send (job_schedule_msg ?j GW_REASON_NONE) (log_state e ?j (put i ?j s))"
      using True Some by (simp add: dep_release_def gw_job_set_state_def)
    have "moved s i p j (Some (dep_release e i s))"
      unfolding e
      by (rule move_put [OF h, of ?j])
         (use held_simps [OF h] True phase_hold in \<open>simp_all add: quiet_basic\<close>)
    then show ?thesis using inv_request [OF inv h] by simp
  next
    case False
    then show ?thesis using inv Some by (simp add: dep_release_def)
  qed
qed

lemma inv_deps: "gwd_inv s \<Longrightarrow> gwd_inv (s\<lparr>gd_deps := d\<rparr>)"
  by (rule inv_quiet, assumption, rule quiet_fields) simp_all

lemma inv_dep_check: "gwd_inv s \<Longrightarrow> gwd_inv (gw_job_pool_dep_check e i s)"
proof -
  have "gwd_inv s \<Longrightarrow> gwd_inv (fold (dep_check_row e i) xs s)" for xs
    by (induction xs arbitrary: s)
       (auto simp: dep_check_row_def Let_def inv_deps inv_dep_release
          split: option.split prod.split)
  then show "gwd_inv s \<Longrightarrow> gwd_inv (gw_job_pool_dep_check e i s)"
    by (simp add: gw_job_pool_dep_check_def)
qed

lemma inv_dep_consistency: "gwd_inv s \<Longrightarrow> gwd_inv (gw_job_pool_dep_consistency e s)"
proof -
  have "gwd_inv s \<Longrightarrow> gwd_inv (fold (dep_consistency_row e) xs s)" for xs
    by (induction xs arbitrary: s)
       (auto simp: dep_consistency_row_def Let_def inv_deps inv_dep_release
          split: option.split prod.split)
  then show "gwd_inv s \<Longrightarrow> gwd_inv (gw_job_pool_dep_consistency e s)"
    by (simp add: gw_job_pool_dep_consistency_def)
qed

section \<open>Freeing a job\<close>

lemma quiet_drop_task: "quiet s (drop_task aid tid s)"
  by (rule quiet_fields) (simp_all add: drop_task_def Let_def split: option.split prod.split)

lemma inv_free:
  assumes inv: "gwd_inv s" and c: "ctl_of s i = []"
  shows "gwd_inv (gw_job_pool_free e i s)"
proof (cases "get_job s i")
  case None
  then show ?thesis using inv by (simp add: gw_job_pool_free_def inv_deps)
next
  case (Some j)
  have rng: "0 \<le> i \<and> i < int (length (pool (gd_jobs s)))" using get_job_range [OF Some] by auto
  let ?s = "gw_job_pool_free e i s"
  have f: "gd_jobs ?s = job_pool_release i (gd_jobs s)" "gd_hosts ?s = gd_hosts s" "dm_am ?s = dm_am s"
    "tm_am ?s = tm_am s" "em_am ?s = em_am s"
    "gd_users ?s = fst (gw_user_pool_dec_jobs (user_id j) (gd_users s))"
    using Some rng by (auto simp: gw_job_pool_free_def Let_def user_op_def)
  have g: "get_job ?s k = (if k = i then None else get_job s k)" for k
    using rng Some by (auto simp: get_job_def f gw_job_pool_get_def job_pool_release_def)
  have u: "(get_user ?s w = None) = (get_user s w = None)" "urun ?s w = urun s w" for w
    by (auto simp: get_user_def urun_def f gw_user_pool_dec_jobs_def user_update_get split: option.split)
  have l: "length (pool (gd_jobs ?s)) = length (pool (gd_jobs s))"
    by (simp add: f job_pool_release_def)
  have v: "ctl_of ?s k = ctl_of s k" "get_host ?s h = get_host s h" "rjobs ?s h = rjobs s h"
    "uslots ?s h = uslots s h" "no_finalize ?s = no_finalize s" for k h
    using f by (simp_all add: view_defs no_finalize_def)
  have "local_ok s i" using inv by (simp add: gwd_inv_def)
  then have ph: "job_phase s i j = P_idle"
    using Some c by (auto simp: local_ok_def job_ok_def job_phase_def)
  then have z: "claim r_claim s i x = 0" "claim u_claim s i x = 0" "claim n_claim s i x = 0"
    "claim w ?s i x = 0" for x w
    using Some g by (simp_all add: claim_def n_claim_def)
  show ?thesis
  proof (rule inv_change [OF inv, of ?s i])
    show "same_pool s ?s" using l v u by (simp add: same_pool_def)
    show "same_elsewhere s ?s i" using g v by (simp add: same_elsewhere_def)
    show "local_ok ?s i" using g v c by (simp add: local_ok_def)
    show "no_finalize ?s" using v inv_no_finalize [OF inv] by simp
  qed (simp_all add: v u z)
qed

lemma inv_trigger_rm: "gwd_inv s \<Longrightarrow> gwd_inv (trigger_rm a x s)"
  by (rule inv_quiet, assumption) (simp add: quiet_basic)

lemma inv_kill_end:
  assumes "gwd_inv s" and "ctl_of s i = []"
  shows "gwd_inv (trigger_rm a x (drop_task aid tid (gw_job_pool_free e i s)))"
  using assms by (intro inv_trigger_rm inv_quiet [OF inv_free quiet_drop_task])

end
