(* ===== verification/DM_Submit.thy ===== *)
theory DM_Submit
  imports DM_Release
begin

text \<open>
  The submission of a job and of an array preserve the accounting invariant: a new user has no
  running jobs, and a new job holds nothing.
\<close>

section \<open>New users and new jobs\<close>

lemma hist_ok_mono:
  assumes "hist_ok s p j" and "\<And>h. get_host s' h = get_host s h"
    and "\<And>w. get_user s w \<noteq> None \<Longrightarrow> get_user s' w \<noteq> None"
  shows "hist_ok s' p j"
proof -
  have "hosted s' j k = hosted s j k" for k using assms(2) by (simp add: hosted_def)
  then show ?thesis using assms(1,3) by (simp add: hist_ok_def)
qed

text \<open>
  A change of the users and of the jobs that only adds: the users that were there keep their
  counter, new ones have none; the jobs that were there stay, new ones are idle.
\<close>

definition new_idle :: "int \<Rightarrow> gw_job \<Rightarrow> bool" where
  "new_idle i j \<longleftrightarrow> idle_state (job_state j) \<and> template_ok (template j) \<and> job_id j = i \<and>
     restarted j = 0 \<and> job_state j \<notin> {GW_JOB_STATE_FAILED, GW_JOB_STATE_STOPPED} \<and>
     tm_state j = GW_TM_STATE_INIT"

definition only_adds :: "gwd \<Rightarrow> gwd \<Rightarrow> bool" where
  "only_adds s s' \<longleftrightarrow> gd_hosts s' = gd_hosts s \<and> dm_am s' = dm_am s \<and> tm_am s' = tm_am s \<and>
     em_am s' = em_am s \<and> length (pool (gd_jobs s')) = length (pool (gd_jobs s)) \<and>
     (\<forall>w. get_user s w \<noteq> None \<longrightarrow> get_user s' w \<noteq> None \<and> urun s' w = urun s w) \<and>
     (\<forall>w. get_user s w = None \<longrightarrow> urun s' w = 0) \<and>
     (\<forall>i. get_job s' i = get_job s i
        \<or> get_job s i = None \<and> (\<exists>j. get_job s' i = Some j \<and> new_idle i j))"

lemma hist_ok_new: "new_idle i j \<Longrightarrow> hist_ok s P_idle j"
  by (auto simp: new_idle_def hist_ok_def)

lemma inv_only_adds:
  assumes inv: "gwd_inv s" and a: "only_adds s s'"
  shows "gwd_inv s'"
proof -
  have ctl: "ctl_of s' i = ctl_of s i" for i using a by (simp add: only_adds_def ctl_of_def)
  have host: "get_host s' h = get_host s h" "rjobs s' h = rjobs s h" "uslots s' h = uslots s h" for h
    using a by (simp_all add: only_adds_def get_host_def rjobs_def uslots_def)
  have user: "get_user s w \<noteq> None \<Longrightarrow> get_user s' w \<noteq> None \<and> urun s' w = urun s w"
    "get_user s w = None \<Longrightarrow> urun s' w = 0" for w
    using a by (auto simp: only_adds_def)
  have job: "get_job s' i = get_job s i
      \<or> get_job s i = None \<and> (\<exists>j. get_job s' i = Some j \<and> new_idle i j)" for i
    using a by (simp add: only_adds_def)
  have ok: "local_ok s i" for i using inv by (simp add: gwd_inv_def)
  have claim: "claim f s' i x = claim f s i x"
    if "\<And>j x. f P_idle j x = 0" for f i x
    using job [of i]
  proof
    assume "get_job s' i = get_job s i"
    then show ?thesis by (auto simp: claim_def job_phase_def ctl split: option.split)
  next
    assume n: "get_job s i = None \<and> (\<exists>j. get_job s' i = Some j \<and> new_idle i j)"
    then obtain j where "get_job s' i = Some j" "new_idle i j" by blast
    moreover have "ctl_of s i = []" using ok [of i] n by (simp add: local_ok_def)
    ultimately show ?thesis
      using n that by (simp add: claim_def job_phase_def ctl new_idle_def when_in_def)
  qed
  have tot: "total f s' x = total f s x" if "\<And>j x. f P_idle j x = 0" for f x
    using a claim [of f] that by (simp add: total_def only_adds_def)
  have lok: "local_ok s' i" for i
    using job [of i]
  proof
    assume "get_job s' i = get_job s i"
    then show ?thesis
      using ok [of i] hist_ok_mono [of s _ _ s', OF _ host(1)] user(1)
      unfolding local_ok_def job_ok_def ctl by (auto split: option.splits)
  next
    assume n: "get_job s i = None \<and> (\<exists>j. get_job s' i = Some j \<and> new_idle i j)"
    then obtain j where g: "get_job s' i = Some j" "new_idle i j" by blast
    have "ctl_of s i = []" using ok [of i] n by (simp add: local_ok_def)
    then show ?thesis
      using g hist_ok_new [OF g(2)]
      by (simp add: local_ok_def job_ok_def ctl new_idle_def when_in_def)
  qed
  have none: "total n_claim s w = 0" if "get_user s w = None" for w
  proof -
    have "claim n_claim s i w = 0" for i
      using ok [of i] that
      by (auto simp: claim_def n_claim_def local_ok_def job_ok_def job_phase_def hist_ok_def
          split: option.split)
    then show ?thesis by (simp add: total_def)
  qed
  have b: "balanced s" using inv by (simp add: gwd_inv_def)
  have t0: "r_claim P_idle j x = 0" "u_claim P_idle j x = 0" "n_claim P_idle j x = 0" for j x
    by (simp_all add: n_claim_def)
  have "urun s' w = total n_claim s' w" for w
  proof (cases "get_user s w = None")
    case True
    then show ?thesis using user(2) none tot t0 by simp
  next
    case False
    then show ?thesis using user(1) b tot t0 by (auto simp: balanced_def)
  qed
  then have "balanced s'" using b tot t0 host by (simp add: balanced_def)
  moreover have "no_finalize s'" using inv_no_finalize [OF inv] a by (simp add: no_finalize_def only_adds_def)
  ultimately show ?thesis using lok by (simp add: gwd_inv_def)
qed

section \<open>The user of a submission\<close>

lemma user_init_running: "user_running_jobs (fst (gw_user_init e n p)) = 0"
proof -
  have em: "user_running_jobs (fst (register_all (gw_em_register_mad e) ns u)) = user_running_jobs u" for ns u
    by (rule register_all_keeps) (simp add: gw_em_register_mad_def)
  have tm: "user_running_jobs (fst (register_all (gw_tm_register_mad e) ns u)) = user_running_jobs u" for ns u
    by (rule register_all_keeps) (simp add: gw_tm_register_mad_def)
  show ?thesis
    unfolding gw_user_init_def Let_def
    by (auto split: prod.splits) (metis em tm fst_conv gw_user.select_convs)+
qed

lemma user_allocate_adds:
  assumes "gw_user_pool_user_allocate e n p up = Some (up', msgs, rc, uid)"
  shows "slot_get (users up') w = slot_get (users up) w
    \<or> slot_get (users up) w = None \<and> (\<exists>u. slot_get (users up') w = Some u \<and> user_running_jobs u = 0)"
proof -
  let ?i = "first_free (users up)"
  obtain u r where u: "gw_user_init e n p = (u, r)" by (metis surj_pair)
  have run: "user_running_jobs u = 0" using user_init_running [of e n p] u by simp
  have free: "?i < length (users up) \<Longrightarrow> users up ! ?i = None" using first_free_None .
  show ?thesis
    using assms u run free
    by (auto simp: gw_user_pool_user_allocate_def Let_def slot_get_def nth_list_update split: if_splits)
qed

lemma submit_user_adds:
  assumes "submit_user e m s = Some r"
  obtains s1 where "only_adds s s1" "gd_jobs s1 = gd_jobs s" "gd_arrays s1 = gd_arrays s"
    "r = Inl (answer_submit m GW_RC_FAILED_USER s1) \<or> (\<exists>x. r = Inr (s1, x))"
proof (cases "gw_user_pool_exists (gd_users s) (sm_owner m) (sm_proxy_path m)")
  case (Pair b uid)
  show ?thesis
  proof (cases b)
    case True
    have "only_adds s s" by (auto simp: only_adds_def urun_def)
    then show ?thesis using Pair True assms that [of s] by (auto simp: submit_user_def)
  next
    case False
    then obtain up msgs rc uid' where
      al: "gw_user_pool_user_allocate (env_user e) (sm_owner m) (sm_proxy_path m) (gd_users s)
        = Some (up, msgs, rc, uid')"
      using Pair assms by (auto simp: submit_user_def bind_eq_Some_conv)
    let ?s = "sends msgs (s\<lparr>gd_users := up\<rparr>)"
    have v: "get_user ?s w = slot_get (users up) w" for w by (simp add: get_user_def)
    have u: "get_user ?s w = get_user s w
      \<or> get_user s w = None \<and> (\<exists>u. get_user ?s w = Some u \<and> user_running_jobs u = 0)" for w
      unfolding v unfolding get_user_def by (rule user_allocate_adds [OF al])
    have "get_user s w \<noteq> None \<longrightarrow> get_user ?s w \<noteq> None \<and> urun ?s w = urun s w"
      "get_user s w = None \<longrightarrow> urun ?s w = 0" for w
      using u [of w] by (auto simp: urun_def)
    then have "only_adds s ?s"
      by (simp add: only_adds_def get_job_def)
    moreover have "r = Inl (answer_submit m GW_RC_FAILED_USER ?s) \<or> (\<exists>x. r = Inr (?s, x))"
    proof -
      have "r = (if rc \<noteq> 0 then Inl (answer_submit m GW_RC_FAILED_USER ?s) else Inr (?s, True, uid'))"
        using Pair False al assms by (simp add: submit_user_def Let_def split: if_splits)
      then show ?thesis by metis
    qed
    ultimately show ?thesis using that by simp
  qed
qed

section \<open>The jobs of a submission\<close>

text \<open>A submission whose files have names (the client's parser refuses a template without).\<close>

definition submit_ok :: "submit_msg \<Rightarrow> bool" where
  "submit_ok m \<longleftrightarrow> (\<forall>f\<in>set (ct_input_files (sm_jt m)). fst f \<noteq> []) \<and>
     (\<forall>f\<in>set (ct_output_files (sm_jt m)). fst f \<noteq> []) \<and> [] \<notin> set (ct_restart_files (sm_jt m))"

lemma submit_template_ok:
  assumes "submit_ok m" and "template_ok (template j)"
  shows "template_ok (template (fst (submit_fill e m j)))"
proof -
  have "template_ok (gw_job_template_init (sm_jt m))"
    using assms(1)
    by (auto simp: submit_ok_def template_ok_def gw_job_template_init_def set_pair_def
        gw_job_template_set_str_def)
  then show ?thesis
    using assms(2)
    by (simp add: submit_fill_def gw_job_fill_def Let_def) (simp add: template_ok_def)
qed

lemma submit_fill_keeps [simp]:
  "job_id (fst (submit_fill e m j)) = job_id j" "restarted (fst (submit_fill e m j)) = restarted j"
  "job_state (fst (submit_fill e m j)) = job_state j" "tm_state (fst (submit_fill e m j)) = tm_state j"
  by (simp_all add: submit_fill_def gw_job_fill_def Let_def)

lemma zero_template_ok: "template_ok zero_template"
  by (simp add: template_ok_def zero_template_def)

lemma new_idle_init: "new_idle i (gw_job_init t i)"
  by (simp add: new_idle_def gw_job_init_def Let_def idle_state_def zero_template_ok)

lemma job_allocate_new:
  assumes "gw_job_pool_allocate t jp = Some (jp', i)"
  shows "i = -1 \<and> jp' = jp \<or>
    gw_job_pool_get jp i = None \<and> length (pool jp') = length (pool jp) \<and>
    (\<forall>k. gw_job_pool_get jp' k = (if k = i then Some (gw_job_init t i) else gw_job_pool_get jp k))"
proof -
  have "pool jp \<noteq> []" using assms job_allocate_empty by fastforce
  from job_allocate_cases [OF this, of t] assms show ?thesis
    by (auto simp: gw_job_pool_get_def slot_get_def nth_list_update)
qed

text \<open>A job that was just allocated, with the attributes of the submission.\<close>

definition submitted :: "dm_env \<Rightarrow> submit_msg \<Rightarrow> int \<Rightarrow> gw_job \<Rightarrow> gw_job" where
  "submitted e m uid j = submit_attrs m uid (set_state (submit_state m) (fst (submit_fill e m j)))"

lemma new_idle_submitted:
  assumes "submit_ok m" and "template_ok (template j)" and "job_id j = i" and "restarted j = 0"
  shows "new_idle i (submitted e m uid j)"
  using submit_template_ok [OF assms(1,2), of e] assms(3,4)
  by (simp add: submitted_def submit_attrs_def new_idle_def submit_state_def idle_state_def)

lemma inv_fields:
  assumes "gwd_inv s" and "gd_jobs s' = gd_jobs s" "gd_users s' = gd_users s"
    "gd_hosts s' = gd_hosts s" "dm_am s' = dm_am s" "tm_am s' = tm_am s" "em_am s' = em_am s"
  shows "gwd_inv s'"
  using inv_quiet [OF assms(1) quiet_fields] assms(2-) by blast

lemma answer_comp [simp]:
  "gd_jobs (answer_submit m rc s) = gd_jobs s" "gd_users (answer_submit m rc s) = gd_users s"
  "gd_hosts (answer_submit m rc s) = gd_hosts s" "dm_am (answer_submit m rc s) = dm_am s"
  "tm_am (answer_submit m rc s) = tm_am s" "em_am (answer_submit m rc s) = em_am s"
  by (simp_all add: answer_submit_def)

lemma deps_comp [simp]:
  "gd_jobs (submit_deps m i s) = gd_jobs s" "gd_users (submit_deps m i s) = gd_users s"
  "gd_hosts (submit_deps m i s) = gd_hosts s" "dm_am (submit_deps m i s) = dm_am s"
  "tm_am (submit_deps m i s) = tm_am s" "em_am (submit_deps m i s) = em_am s"
  by (simp_all add: submit_deps_def)

text \<open>Adding one job to the state.\<close>

lemma only_adds_new:
  assumes al: "gw_job_pool_allocate t (gd_jobs s) = Some (jp, i)" and i: "i \<noteq> -1"
    and j: "new_idle i j"
  shows "only_adds s (put i j (s\<lparr>gd_jobs := jp\<rparr>))" "get_job s i = None"
proof -
  have n: "get_job s i = None" "length (pool jp) = length (pool (gd_jobs s))"
    "\<And>k. gw_job_pool_get jp k = (if k = i then Some (gw_job_init t i) else get_job s k)"
    using job_allocate_new [OF al] i by (auto simp: get_job_def)
  have "get_job (put i j (s\<lparr>gd_jobs := jp\<rparr>)) k = (if k = i then Some j else get_job s k)" for k
    using n(3) [of k] n(3) [of i]
    by (simp add: get_job_def put_def put_job_def gw_job_pool_get_def)
  then show "only_adds s (put i j (s\<lparr>gd_jobs := jp\<rparr>))"
    using n j by (simp add: only_adds_def urun_def get_user_def)
  show "get_job s i = None" using n(1) .
qed

lemma inv_no_job: "gwd_inv s \<Longrightarrow> get_job s i = None \<Longrightarrow> ctl_of s i = []"
  by (simp add: gwd_inv_def local_ok_def) (metis option.simps(4))

section \<open>A job\<close>

lemma inv_jalloc:
  assumes inv: "gwd_inv s" and ok: "submit_ok m" and r: "gw_dm_jalloc e m s = Some s'"
  shows "gwd_inv s'"
proof -
  obtain u where u: "submit_user e m s = Some u" using r by (auto simp: gw_dm_jalloc_def bind_eq_Some_conv)
  obtain s1 where s1: "only_adds s s1"
    "u = Inl (answer_submit m GW_RC_FAILED_USER s1) \<or> (\<exists>x. u = Inr (s1, x))"
    by (rule submit_user_adds [OF u]) auto
  have inv1: "gwd_inv s1" using inv_only_adds [OF inv s1(1)] .
  show ?thesis
  proof (cases u)
    case (Inl t)
    then have "s' = answer_submit m GW_RC_FAILED_USER s1"
      using r u s1(2) by (simp add: gw_dm_jalloc_def)
    then show ?thesis using inv_fields [OF inv1] by simp
  next
    case (Inr t)
    then obtain b uid where ub: "u = Inr (s1, b, uid)" using s1(2) by auto
    obtain jp jid where al: "gw_job_pool_allocate (now e) (gd_jobs s1) = Some (jp, jid)"
      using r u ub by (auto simp: gw_dm_jalloc_def bind_eq_Some_conv)
    let ?s = "s1\<lparr>gd_jobs := jp\<rparr>"
    show ?thesis
    proof (cases "get_job ?s jid")
      case None
      then have "s' = answer_submit m (if jid = -1 then GW_RC_FAILED_NO_MEMORY
          else GW_RC_FAILED_BAD_JOB_ID) ?s"
        using r u ub al None by (simp add: gw_dm_jalloc_def Let_def split: if_splits)
      moreover have "jp = gd_jobs s1"
        using job_allocate_new [OF al] None by (auto simp: get_job_def)
      ultimately show ?thesis using inv_fields [OF inv1] by simp
    next
      case (Some job)
      then have jid: "jid \<noteq> -1"
        using slot_get_Some_range by (fastforce simp: get_job_def gw_job_pool_get_def)
      have job: "job = gw_job_init (now e) jid"
        using job_allocate_new [OF al] Some jid by (auto simp: get_job_def)
      obtain j1 rc where fill: "submit_fill e m job = (j1, rc)" by (metis surj_pair)
      have j0: "template_ok (template job)" "job_id job = jid" "restarted job = 0"
        "job_state job = GW_JOB_STATE_INIT" "tm_state job = GW_TM_STATE_INIT"
        using job by (simp_all add: gw_job_init_def Let_def zero_template_ok)
      have j1: "template_ok (template j1)" "job_id j1 = jid" "restarted j1 = 0"
        "job_state j1 = GW_JOB_STATE_INIT" "tm_state j1 = GW_TM_STATE_INIT"
        using submit_template_ok [OF ok j0(1), of e] submit_fill_keeps [of e m job, unfolded fill fst_conv]
          fill j0 by simp_all
      show ?thesis
      proof (cases "rc = -1")
        case True
        then have s': "s' = answer_submit m GW_RC_FAILED (gw_job_pool_free e jid (put jid j1 ?s))"
          using r u ub al jid Some fill True by (simp add: gw_dm_jalloc_def Let_def)
        have "new_idle jid j1" using j1 by (simp add: new_idle_def idle_state_def)
        note ad = only_adds_new [OF al jid this]
        have "ctl_of (put jid j1 ?s) jid = []"
          using inv_no_job [OF inv1 ad(2)] by (simp add: ctl_of_def)
        then have "gwd_inv (gw_job_pool_free e jid (put jid j1 ?s))"
          using inv_free [OF inv_only_adds [OF inv1 ad(1)]] by simp
        then show ?thesis unfolding s' by (rule inv_fields) simp_all
      next
        case False
        let ?j = "submit_attrs m uid (set_state (submit_state m) j1)"
        have "?j = submitted e m uid job" using fill by (simp add: submitted_def)
        then have "new_idle jid ?j" using new_idle_submitted [OF ok j0(1-3)] by simp
        from inv_only_adds [OF inv1 only_adds_new(1) [OF al jid this]]
        have "gwd_inv (put jid ?j ?s)" .
        moreover have "quiet (put jid ?j ?s) s'"
        proof -
          have q: "quiet (put jid ?j ?s) (submit_deps m jid (put jid ?j (log_state e
              (set_state (submit_state m) j1) ?s)))" by (rule quiet_fields) simp_all
          have a: "quiet t (answer_submit m' x t')" if "quiet t t'" for t t' m' x
            using that by (simp add: answer_submit_def quiet_basic)
          show ?thesis
            using r u ub al jid Some fill False q
            by (auto simp: gw_dm_jalloc_def gw_job_set_state_def Let_def
                intro!: quiet_basic a split: if_splits)
        qed
        ultimately show ?thesis by (rule inv_quiet)
      qed
    qed
  qed
qed

section \<open>An array\<close>

lemma array_fill_new:
  assumes "array_fill t aid n k a jp = Some (a', jp')"
  shows "length (pool jp') = length (pool jp)"
    and "gw_job_pool_get jp' i = gw_job_pool_get jp i
      \<or> gw_job_pool_get jp i = None \<and> (\<exists>j. gw_job_pool_get jp' i = Some j \<and> new_idle i j)"
    and "x \<in> set (job_ids a') \<Longrightarrow> x \<in> set (job_ids a) \<or> gw_job_pool_get jp x = None"
proof -
  have "length (pool jp') = length (pool jp) \<and>
    (\<forall>i. gw_job_pool_get jp' i = gw_job_pool_get jp i
      \<or> gw_job_pool_get jp i = None \<and> (\<exists>j. gw_job_pool_get jp' i = Some j \<and> new_idle i j)) \<and>
    (\<forall>x\<in>set (job_ids a'). x \<in> set (job_ids a) \<or> gw_job_pool_get jp x = None)"
    using assms
  proof (induction k arbitrary: a jp)
    case 0
    then show ?case by simp
  next
    case (Suc k)
    then obtain jp1 jid a1 tid job where st: "gw_job_pool_allocate t jp = Some (jp1, jid)"
      "gw_array_add_task jid a = Some (a1, tid)" "gw_job_pool_get jp1 jid = Some job"
      "array_fill t aid n k a1 (put_job jid (job\<lparr>task_id := tid, array_id := aid, total_tasks := n\<rparr>) jp1)
         = Some (a', jp')"
      by (auto simp: bind_eq_Some_conv)
    let ?j = "job\<lparr>task_id := tid, array_id := aid, total_tasks := n\<rparr>"
    let ?jp = "put_job jid ?j jp1"
    have "jid \<noteq> -1" using st(3) slot_get_Some_range by (fastforce simp: gw_job_pool_get_def)
    then have new: "gw_job_pool_get jp jid = None" "length (pool jp1) = length (pool jp)"
      "\<And>k. gw_job_pool_get jp1 k = (if k = jid then Some (gw_job_init t jid) else gw_job_pool_get jp k)"
      using job_allocate_new [OF st(1)] by auto
    have get: "gw_job_pool_get ?jp k = (if k = jid then Some ?j else gw_job_pool_get jp k)" for k
      using new(3) [of k] new(3) [of jid] by (simp add: put_job_def gw_job_pool_get_def)
    have ni: "new_idle jid ?j"
      using new(3) [of jid] st(3) new_idle_init [of jid t] by (simp add: new_idle_def)
    have ids: "x \<in> set (job_ids a1) \<Longrightarrow> x \<in> set (job_ids a) \<or> x = jid" for x
      using st(2) subsetD [OF set_update_subset_insert, of x "job_ids a" _ jid]
      by (auto simp: gw_array_add_task_def Let_def split: if_splits)
    have len: "length (pool ?jp) = length (pool jp)" using new(2) by (simp add: put_job_def)
    note ih = Suc.IH [OF st(4)]
    have "gw_job_pool_get jp' i = gw_job_pool_get jp i
      \<or> gw_job_pool_get jp i = None \<and> (\<exists>j. gw_job_pool_get jp' i = Some j \<and> new_idle i j)" for i
      using ih [THEN conjunct2, THEN conjunct1, THEN spec, of i] get [of i] new(1) ni
      by (cases "i = jid") auto
    moreover have "x \<in> set (job_ids a) \<or> gw_job_pool_get jp x = None" if "x \<in> set (job_ids a')" for x
      using ih [THEN conjunct2, THEN conjunct2, THEN bspec, OF that] ids [of x] get [of x] new(1)
      by (cases "x = jid") auto
    ultimately show ?case using ih len by simp
  qed
  then show "length (pool jp') = length (pool jp)"
    "gw_job_pool_get jp' i = gw_job_pool_get jp i
      \<or> gw_job_pool_get jp i = None \<and> (\<exists>j. gw_job_pool_get jp' i = Some j \<and> new_idle i j)"
    "x \<in> set (job_ids a') \<Longrightarrow> x \<in> set (job_ids a) \<or> gw_job_pool_get jp x = None"
    by auto
qed

lemma submit_fill_history [simp]: "history (fst (submit_fill e m j)) = history j"
  by (simp add: submit_fill_def gw_job_fill_def Let_def)

lemma inv_aalloc_tasks:
  assumes "gwd_inv s" and "submit_ok m" and "\<forall>i\<in>set ids. ctl_of s i = []"
    and "aalloc_tasks e m aid uid ids s = Some s'"
  shows "gwd_inv s'"
  using assms
proof (induction ids arbitrary: s)
  case Nil
  then show ?case by simp
next
  case (Cons i ids)
  then obtain j where j: "get_job s i = Some j" by (auto simp: bind_eq_Some_conv)
  obtain p where h: "held s i p j" using inv_held [OF Cons.prems(1) j] .
  let ?k = "set_state (submit_state m) (fst (submit_fill e m j))"
  let ?j = "(submit_attrs m uid ?k)\<lparr>pstart := sm_pstart m, pinc := sm_pinc m\<rparr>"
  let ?t = "put i ?j (log_state e ?k s)"
  let ?u = "submit_deps m i (if sm_init_state m = GW_JOB_STATE_PENDING
              then send (JOB_SCHEDULE i aid uid GW_REASON_NONE) ?t else ?t)"
  have r: "aalloc_tasks e m aid uid ids ?u = Some s'"
    using Cons.prems(4) j by (simp add: gw_job_set_state_def Let_def split: prod.splits if_splits)
  have q: "quiet (put i ?j s) ?u" by (rule quiet_fields) (simp_all add: put_def)
  have "moved s i p j (Some ?u)"
  proof (rule move_idle [OF h _ q])
    show "template_ok (template ?j)"
      using submit_template_ok [OF Cons.prems(2), of j e] held_simps(4) [OF h]
      by (simp add: submit_attrs_def)
    show "idle_state (job_state ?j)" "job_state ?j \<notin> {GW_JOB_STATE_FAILED, GW_JOB_STATE_STOPPED}"
      by (simp_all add: submit_attrs_def submit_state_def idle_state_def)
  qed (use Cons.prems(3) in \<open>simp_all add: submit_attrs_def\<close>)
  then have "gwd_inv ?u" using inv_request [OF Cons.prems(1) h] by simp
  moreover have "ctl_of ?u x = ctl_of s x" for x by (simp add: ctl_of_def)
  ultimately show ?case using Cons.IH [OF _ Cons.prems(2) _ r] Cons.prems(3) by simp
qed

lemma array_allocate_new:
  assumes "gw_array_pool_array_allocate t n ap jp = Some (ap', jp', rc, aid)"
  shows "length (pool jp') = length (pool jp)"
    and "gw_job_pool_get jp' i = gw_job_pool_get jp i
      \<or> gw_job_pool_get jp i = None \<and> (\<exists>j. gw_job_pool_get jp' i = Some j \<and> new_idle i j)"
    and "rc = 0 \<Longrightarrow> gw_array_pool_get_array ap' aid = Some a \<Longrightarrow> x \<in> set (job_ids a) \<Longrightarrow>
      gw_job_pool_get jp x = None"
proof -
  have D: "jp' = jp \<and> rc \<noteq> 0 \<or>
    (\<exists>k a'. arrays ap' = (arrays ap)[k := Some a'] \<and> aid = int k \<and>
      array_fill t (int k) n (nat n) (fst (gw_array_init n (int k))) jp = Some (a', jp'))"
    using assms
    by (auto simp: gw_array_pool_array_allocate_def gw_array_init_def bind_eq_Some_conv
        split: if_splits option.splits)
  then show "length (pool jp') = length (pool jp)" using array_fill_new(1) by blast
  show "gw_job_pool_get jp' i = gw_job_pool_get jp i
      \<or> gw_job_pool_get jp i = None \<and> (\<exists>j. gw_job_pool_get jp' i = Some j \<and> new_idle i j)"
    using D array_fill_new(2) by blast
  assume a: "rc = 0" "gw_array_pool_get_array ap' aid = Some a" "x \<in> set (job_ids a)"
  then obtain k a' where h: "arrays ap' = (arrays ap)[k := Some a']" "aid = int k"
      "array_fill t (int k) n (nat n) (fst (gw_array_init n (int k))) jp = Some (a', jp')"
    using D by blast
  have "a = a'"
    using h(1,2) a(2) by (auto simp: gw_array_pool_get_array_def slot_get_def split: if_splits)
  then have "x = -1 \<or> gw_job_pool_get jp x = None"
    using array_fill_new(3) [OF h(3), of x] a(3) by (auto simp: gw_array_init_def split: if_splits)
  then show "gw_job_pool_get jp x = None" by (auto simp: gw_job_pool_get_def slot_get_def)
qed

lemma inv_aalloc:
  assumes inv: "gwd_inv s" and ok: "submit_ok m" and r: "gw_dm_aalloc e m s = Some s'"
  shows "gwd_inv s'"
proof -
  obtain u where u: "submit_user e m s = Some u" using r by (auto simp: gw_dm_aalloc_def bind_eq_Some_conv)
  obtain s1 where s1: "only_adds s s1"
    "u = Inl (answer_submit m GW_RC_FAILED_USER s1) \<or> (\<exists>x. u = Inr (s1, x))"
    by (rule submit_user_adds [OF u]) auto
  have inv1: "gwd_inv s1" using inv_only_adds [OF inv s1(1)] .
  show ?thesis
  proof (cases u)
    case (Inl t)
    then have "s' = answer_submit m GW_RC_FAILED_USER s1"
      using r u s1(2) by (simp add: gw_dm_aalloc_def)
    then show ?thesis using inv_fields [OF inv1] by simp
  next
    case (Inr t)
    then obtain b uid where ub: "u = Inr (s1, b, uid)" using s1(2) by auto
    obtain ap jp rc aid where al: "gw_array_pool_array_allocate (now e) (sm_number_of_tasks m)
        (gd_arrays s1) (gd_jobs s1) = Some (ap, jp, rc, aid)"
      using r u ub by (auto simp: gw_dm_aalloc_def bind_eq_Some_conv)
    let ?s = "s1\<lparr>gd_arrays := ap, gd_jobs := jp\<rparr>"
    have "only_adds s1 ?s"
      using array_allocate_new(1,2) [OF al] by (simp add: only_adds_def get_job_def urun_def get_user_def)
    then have inv2: "gwd_inv ?s" by (rule inv_only_adds [OF inv1])
    show ?thesis
    proof (cases "rc = 0 \<and> gw_array_pool_get_array ap aid \<noteq> None")
      case False
      then have "s' = answer_submit m (if rc \<noteq> 0 then GW_RC_FAILED_NO_MEMORY
          else GW_RC_FAILED_BAD_ARRAY_ID) ?s"
        using r u ub al by (auto simp: gw_dm_aalloc_def Let_def split: if_splits)
      then show ?thesis using inv_fields [OF inv2] by simp
    next
      case True
      then obtain a where a: "rc = 0" "gw_array_pool_get_array ap aid = Some a" by auto
      let ?ids = "take (nat (sm_number_of_tasks m)) (job_ids a)"
      obtain t where t: "aalloc_tasks e m aid uid ?ids ?s = Some t"
        "s' = answer_submit (m\<lparr>sm_array_id := aid\<rparr>) GW_RC_SUCCESS
           (user_op (gw_user_pool_inc_jobs uid (sm_number_of_tasks m - (if b then 1 else 0))) t)"
        using r u ub al a by (auto simp: gw_dm_aalloc_def Let_def bind_eq_Some_conv)
      have "ctl_of ?s i = []" if "i \<in> set ?ids" for i
      proof -
        have "i \<in> set (job_ids a)" using that by (rule in_set_takeD)
        then have "get_job s1 i = None" using array_allocate_new(3) [OF al a] by (simp add: get_job_def)
        then show ?thesis using inv_no_job [OF inv1] by (simp add: ctl_of_def)
      qed
      then have "gwd_inv t" using inv_aalloc_tasks [OF inv2 ok _ t(1)] by blast
      then show ?thesis
        unfolding t(2) by (rule inv_quiet) (simp add: answer_submit_def quiet_basic)
    qed
  qed
qed

end
