(* ===== verification/DM_Dispatch.thy ===== *)
theory DM_Dispatch
  imports DM_Submit
begin

text \<open>
  The scheduler's side of the accounting: a dispatch takes the counters of the chosen host, in
  the two uses it has, and the periodic check and the cancelled requests leave them alone.
\<close>

section \<open>The record that a dispatch adds\<close>

lemma dispatch_history_cases:
  assumes "dispatch_history e hid h queue rank job s = (job', rc)"
  shows "rc = -1 \<and> job' = job \<or>
    (\<exists>r. h_host r = Some hid \<and> job' = job\<lparr>history := r # history job\<rparr> \<and>
       get_user s (user_id job) \<noteq> None \<and> rc = (if history_file_opens (env_hist e) then 0 else -1))"
proof (cases "gw_user_pool_get_tm_mad (gd_users s) (user_id job) (host_tm_mad h)")
  case None
  then show ?thesis using assms by (simp add: dispatch_history_def gw_job_history_add_def)
next
  case tm: (Some tm)
  then have u: "get_user s (user_id job) \<noteq> None"
    by (auto simp: gw_user_pool_get_tm_mad_def gw_tm_get_mad_def get_user_def split: option.splits)
  show ?thesis
  proof (cases "gw_user_pool_get_em_mad (gd_users s) (user_id job) (host_em_mad h)")
    case None
    then show ?thesis using assms tm by (simp add: dispatch_history_def gw_job_history_add_def)
  next
    case (Some em)
    let ?r = "history_record (env_hist e) hid h rank queue (owner job) (job_id job) tm em"
    have "h_host ?r = Some hid" by (simp add: history_record_def)
    moreover have "job' = job\<lparr>history := ?r # history job\<rparr>"
      "rc = (if history_file_opens (env_hist e) then 0 else -1)"
      using assms tm Some by (auto simp: dispatch_history_def gw_job_history_add_def)
    ultimately show ?thesis using u by metis
  qed
qed

text \<open>What the accounting excludes of a dispatch; the properties show what would be lost.\<close>

definition dispatch_ok :: "dm_env \<Rightarrow> int \<Rightarrow> int \<Rightarrow> string option \<Rightarrow> int \<Rightarrow> gwd \<Rightarrow> bool" where
  "dispatch_ok e jid hid queue rank s \<longleftrightarrow>
     (case (get_job s jid, get_host s hid) of
        (Some job, Some h) \<Rightarrow>
          (job_state job = GW_JOB_STATE_PENDING \<longrightarrow> ctl_of s jid = []) \<and>
          (job_state job = GW_JOB_STATE_WRAPPER \<longrightarrow> ctl_of s jid = [C_em] \<and>
             history_file_opens (env_hist e))
      | _ \<Rightarrow> True)"

text \<open>The start of a pending job.\<close>

lemma move_dispatch_pending:
  assumes h: "held s i p j" and c: "ctl_of s i = []" and st: "job_state j = GW_JOB_STATE_PENDING"
    and ho: "get_host s hid = Some ho"
  shows "moved s i p j (map_option fst (gw_dm_dispatch_job e i hid queue rank s))"
proof -
  note f = held_simps [OF h]
  have p: "p = P_idle" using f(2) c by simp
  obtain k rc where d: "dispatch_history e hid ho queue rank j s = (k, rc)" by (metis surj_pair)
  show ?thesis
  proof (cases "rc = -1")
    case True
    then have e: "gw_dm_dispatch_job e i hid queue rank s = Some (put i k s, -1)"
      using f(1) st ho d by (simp add: gw_dm_dispatch_job_def)
    have k: "k = j \<or> (\<exists>r. k = j\<lparr>history := r # history j\<rparr>)" using dispatch_history_cases [OF d] by auto
    have "moved s i p j (Some (put i k s))"
      by (rule move_idle [OF h c quiet_refl]) (use k f st in \<open>auto simp: idle_state_def\<close>)
    then show ?thesis using e by simp
  next
    case False
    then obtain r where r: "h_host r = Some hid" "k = j\<lparr>history := r # history j\<rparr>"
      "get_user s (user_id j) \<noteq> None"
      using dispatch_history_cases [OF d] by auto
    have g: "get_host (put i k s) hid \<noteq> None" using ho by (simp add: gw_frame)
    let ?s = "trigger_dm DM_STATE_PROLOG (ARG_ID i) (user_op (gw_user_pool_inc_running_jobs (user_id j) 1)
                (host_upd (gw_host_inc_slots_nb (np (template j))) hid (put i k s)))"
    have e: "gw_dm_dispatch_job e i hid queue rank s = Some (?s, 0)"
      using f(1,5) st ho d False r(2) g
      by (simp add: gw_dm_dispatch_job_def host_inc_slots_def host_op_upd)
    have nf: "no_finalize s" using h by (simp add: held_def)
    have hist: "history j = [] \<longrightarrow> restarted j = 0" using f(3) by (auto simp: hist_ok_def)
    have len: "restarted j \<noteq> 0 \<longrightarrow> 2 \<le> length (history k)"
      using hist r(2) by (cases "history j") auto
    show ?thesis
      using f(1,4-6) c p r g nf ho len st hist unfolding e
      by (auto simp: gw_frame move_defs host_upd_none host_counters)
  qed
qed

lemma ctl_em_parts:
  assumes "ctl_of s i = [C_em]"
  shows "dm_ctl (dm_am s) i = []" "tm_ctl (tm_am s) i = []" "em_ctl (em_am s) i = [C_em]"
  using assms
  by (auto simp: ctl_of_def append_eq_Cons_conv dm_ctl_def tm_ctl_def map_eq_Cons_conv)

lemma ctl_migrate:
  assumes "no_finalize s" and "ctl_of s i = [C_em]"
  shows "ctl_of (trigger_dm DM_STATE_MIGR_CANCEL (ARG_ID i) s) k =
    (if k = i then [C_dm DM_STATE_MIGR_CANCEL, C_em] else ctl_of s k)"
proof -
  have "is_ctl DM_STATE_MIGR_CANCEL" by (simp add: gw_frame)
  from ctl_trigger_dm [OF assms(1) this, of i k] show ?thesis
    using ctl_em_parts [OF assms(2)] by (auto simp: ctl_of_def)
qed

text \<open>The start of a migration.\<close>

lemma move_dispatch_wrapper:
  assumes h: "held s i p j" and c: "ctl_of s i = [C_em]" and st: "job_state j = GW_JOB_STATE_WRAPPER"
    and ho: "get_host s hid = Some ho" and hf: "history_file_opens (env_hist e)"
  shows "moved s i p j (map_option fst (gw_dm_dispatch_job e i hid queue rank s))"
proof -
  note f = held_simps [OF h]
  have p: "p = P_run" using f(2) c st by (simp add: exec_phase_def exec_state_def)
  obtain k rc where d: "dispatch_history e hid ho queue rank j s = (k, rc)" by (metis surj_pair)
  obtain x xs where hist: "history j = x # xs"
    using held_history [OF h] p by (cases "history j") auto
  obtain xid where x: "h_host x = Some xid" "get_host s xid \<noteq> None" "get_user s (user_id j) \<noteq> None"
    using f(3) p hist by (auto simp: hist_ok_def hosted_def host_of_def)
  consider "reason x = GW_REASON_SUSPENSION_TIME \<and> em_state j = GW_EM_STATE_ACTIVE"
    | "\<not> (reason x = GW_REASON_SUSPENSION_TIME \<and> em_state j = GW_EM_STATE_ACTIVE)" "rc = -1"
    | "\<not> (reason x = GW_REASON_SUSPENSION_TIME \<and> em_state j = GW_EM_STATE_ACTIVE)" "rc \<noteq> -1"
    by blast
  then show ?thesis
  proof cases
    case 1
    let ?k = "note_reason GW_REASON_NONE (j\<lparr>reschedule := False\<rparr>)"
    have e: "gw_dm_dispatch_job e i hid queue rank s = Some (send (JOB_DEL i) (put i ?k s), -1)"
      using 1 f(1,5) st ho hist by (simp add: gw_dm_dispatch_job_def gw_dm_uncheck_job_def)
    show ?thesis unfolding e option.map fst_conv
      by (rule move_shape [OF h, of ?k])
         (simp_all add: same_shape_def note_reason_def hist quiet_basic)
  next
    case 2
    then have "k = j" using dispatch_history_cases [OF d] hf by auto
    then have e: "gw_dm_dispatch_job e i hid queue rank s = Some (put i j s, -1)"
      using 2 f(1) st ho hist d by (auto simp: gw_dm_dispatch_job_def)
    show ?thesis unfolding e option.map fst_conv by (rule move_shape [OF h shape_refl]) simp
  next
    case 3
    then obtain r where r: "h_host r = Some hid" "k = j\<lparr>history := r # history j\<rparr>"
      using dispatch_history_cases [OF d] hf by auto
    define l where "l = k\<lparr>restarted := restarted k + 1, reschedule := False\<rparr>"
    have l: "history l = r # x # xs" "user_id l = user_id j" "template l = template j"
      "job_id l = i" "restarted l = restarted j + 1" "job_state l = GW_JOB_STATE_WRAPPER"
      using r(2) hist st f(5) by (simp_all add: l_def)
    have g: "get_host (put i l s) hid \<noteq> None" using ho by (simp add: gw_frame)
    define u where "u = host_upd (gw_host_inc_slots_nb (np (template j))) hid (put i l s)"
    have e: "gw_dm_dispatch_job e i hid queue rank s =
        Some (trigger_dm DM_STATE_MIGR_CANCEL (ARG_ID i) u, 0)"
      using f(1,5) st ho d 3 r(2) g hist
      by (simp add: gw_dm_dispatch_job_def host_inc_slots_def host_op_upd u_def l_def)
    have nf: "no_finalize s" using h by (simp add: held_def)
    have v: "no_finalize u" "ctl_of u n = ctl_of s n" "get_job u n = (if n = i then Some l else get_job s n)"
      "same_pool s u" "rjobs u n = rjobs s n + (if n = hid then 1 else 0)"
      "uslots u n = uslots s n + (if n = hid then np (template j) else 0)" "urun u n = urun s n" for n
      using nf g f(1) by (simp_all add: u_def gw_frame host_counters same_pool_def host_upd_none)
    have ct: "ctl_of (trigger_dm DM_STATE_MIGR_CANCEL (ARG_ID i) u) n =
        (if n = i then [C_dm DM_STATE_MIGR_CANCEL, C_em] else ctl_of s n)" for n
      using ctl_migrate [OF v(1)] v(2) c by simp
    have ph: "phase_of [C_dm DM_STATE_MIGR_CANCEL, C_em] GW_JOB_STATE_WRAPPER = Some P_mig_run"
      by (simp add: phase_of_def)
    have ok: "hist_ok s P_mig_run l"
      using l r(1) x ho f(6) by (auto simp: hist_ok_def hosted_def host_of_def)
    have cl: "r_claim P_mig_run l n - r_claim P_run j n = (if n = hid then 1 else 0)"
      "u_claim P_mig_run l n - u_claim P_run j n = (if n = hid then np (template j) else 0)"
      "n_claim P_mig_run l n = n_claim P_run j n" for n
      using l hist r(1) x(1) by (auto simp: on_host_def host_of_def n_claim_def algebra_simps)
    have "settled s i P_run j (trigger_dm DM_STATE_MIGR_CANCEL (ARG_ID i) u) P_mig_run l"
      using v ct ok cl l f(4,5,6) by (auto simp: settled_def gw_frame same_pool_def same_elsewhere_def)
    then show ?thesis
      unfolding e p by (simp add: moved_def gw_frame v ct ph l(6))
  qed
qed

lemma inv_dispatch:
  assumes inv: "gwd_inv s" and ok: "dispatch_ok e i hid queue rank s"
    and r: "gw_dm_dispatch_job e i hid queue rank s = Some (s', rc)"
  shows "gwd_inv s'"
proof (cases "get_job s i")
  case None
  then show ?thesis using r inv by (simp add: gw_dm_dispatch_job_def)
next
  case (Some j)
  obtain p where h: "held s i p j" using inv_held [OF inv Some] .
  show ?thesis
  proof (cases "get_host s hid")
    case None
    then show ?thesis using r inv Some by (simp add: gw_dm_dispatch_job_def)
  next
    case ho: (Some ho)
    consider "job_state j = GW_JOB_STATE_PENDING" | "job_state j = GW_JOB_STATE_WRAPPER"
      | "job_state j \<noteq> GW_JOB_STATE_PENDING" "job_state j \<noteq> GW_JOB_STATE_WRAPPER" by blast
    then show ?thesis
    proof cases
      case 1
      then have "moved s i p j (map_option fst (gw_dm_dispatch_job e i hid queue rank s))"
        using ok Some ho by (intro move_dispatch_pending [OF h _ _ ho]) (auto simp: dispatch_ok_def)
      then show ?thesis using inv_request [OF inv h] r by simp
    next
      case 2
      then have "moved s i p j (map_option fst (gw_dm_dispatch_job e i hid queue rank s))"
        using ok Some ho by (intro move_dispatch_wrapper [OF h _ _ ho]) (auto simp: dispatch_ok_def)
      then show ?thesis using inv_request [OF inv h] r by simp
    next
      case 3
      then show ?thesis using r inv Some ho by (simp add: gw_dm_dispatch_job_def)
    qed
  qed
qed

section \<open>Cancelled requests and the periodic check\<close>

lemma inv_uncheck:
  assumes inv: "gwd_inv s"
  shows "gwd_inv (gw_dm_uncheck_job i s)"
proof (cases "get_job s i")
  case None
  then show ?thesis using inv by (simp add: gw_dm_uncheck_job_def)
next
  case (Some j)
  obtain p where h: "held s i p j" using inv_held [OF inv Some] .
  let ?k = "note_reason GW_REASON_NONE (j\<lparr>reschedule := False\<rparr>)"
  show ?thesis
  proof (cases "history j \<noteq> [] \<and> job_state j \<noteq> GW_JOB_STATE_PENDING")
    case True
    then have e: "gw_dm_uncheck_job i s = send (JOB_DEL (job_id j)) (put i ?k s)"
      using Some by (simp add: gw_dm_uncheck_job_def)
    have "moved s i p j (Some (gw_dm_uncheck_job i s))"
      unfolding e by (rule move_shape [OF h, of ?k]) (simp_all add: same_shape_def quiet_basic)
    then show ?thesis by (rule inv_request [OF inv h])
  next
    case False
    then show ?thesis using inv Some by (auto simp: gw_dm_uncheck_job_def)
  qed
qed

lemma same_shape_trans: "same_shape j k \<Longrightarrow> same_shape k l \<Longrightarrow> same_shape j l"
  by (simp add: same_shape_def)

text \<open>The check is defined for a job of the invariant, and keeps its shape.\<close>

lemma check_suspension:
  assumes "history j = h # hs" and "h_host h = Some hid" and "get_host s hid \<noteq> None"
  obtains k m where "gw_dm_check_job_suspension e j s = Some (k, sends m s)" "same_shape j k"
proof -
  obtain ho where ho: "get_host s hid = Some ho" using assms(3) by auto
  have q: "sends [] s = s" by (simp add: sends_def)
  show thesis
  proof (cases "suspension_timeout (template j) > 0
        \<and> (em_state j = GW_EM_STATE_PENDING \<or> em_state j = GW_EM_STATE_SUSPENDED)
        \<and> stats h SUSPENSION_TIME + now e - stats h LAST_SUSPENSION_TIME > suspension_timeout (template j)")
    case True
    let ?k = "j\<lparr>reschedule := True, history := set_reason GW_REASON_SUSPENSION_TIME h # hs\<rparr>"
    have "gw_dm_check_job_suspension e j s = Some (?k, sends
        [JOB_FAILED (host_id ho) (user_id j) GW_REASON_SUSPENSION_TIME,
         job_schedule_msg ?k GW_REASON_SUSPENSION_TIME] s)"
      using True assms(1,2) ho
      by (simp add: gw_dm_check_job_suspension_def hist_top_def upd_top_def hist_host_id_def
          send_def sends_def job_schedule_msg_def)
    moreover have "same_shape j ?k" using assms(1) by (simp add: same_shape_def)
    ultimately show thesis using that by blast
  next
    case False
    then have "gw_dm_check_job_suspension e j s = Some (j, sends [] s)"
      using assms(1) q by (auto simp: gw_dm_check_job_suspension_def hist_top_def)
    then show thesis using that by simp
  qed
qed

lemma check_rescheduling:
  assumes "history j = h # hs"
  obtains k m where "gw_dm_check_job_rescheduling e j s = Some (k, sends m s)" "same_shape j k"
proof -
  have q: "sends [] s = s" by (simp add: sends_def)
  consider "\<not> rescheduling_interval (template j) > 0" | "rescheduling_interval (template j) > 0"
      "last_rescheduling_time j = 0"
    | "rescheduling_interval (template j) > 0" "last_rescheduling_time j \<noteq> 0"
      "\<not> now e - last_rescheduling_time j > rescheduling_interval (template j)"
    | "rescheduling_interval (template j) > 0" "last_rescheduling_time j \<noteq> 0"
      "now e - last_rescheduling_time j > rescheduling_interval (template j)"
      "\<not> gw_job_history_get_wrapper_time (now e) (history j) < rescheduling_threshold (template j)"
    | "rescheduling_interval (template j) > 0" "last_rescheduling_time j \<noteq> 0"
      "now e - last_rescheduling_time j > rescheduling_interval (template j)"
      "gw_job_history_get_wrapper_time (now e) (history j) < rescheduling_threshold (template j)"
    by blast
  then show thesis
  proof cases
    case 2
    then have "gw_dm_check_job_rescheduling e j s =
        Some (j\<lparr>last_rescheduling_time := now e - scheduling_interval e\<rparr>, sends [] s)"
      by (simp add: gw_dm_check_job_rescheduling_def q)
    then show thesis using that shape_updates [OF shape_refl] by blast
  next
    case 4
    then have "gw_dm_check_job_rescheduling e j s =
        Some (j\<lparr>last_rescheduling_time := now e\<rparr>, sends [] s)"
      by (simp add: gw_dm_check_job_rescheduling_def q)
    then show thesis using that shape_updates [OF shape_refl] by blast
  next
    case 5
    let ?k = "j\<lparr>reschedule := True, history := set_reason GW_REASON_RESCHEDULING_TIMEOUT h # hs\<rparr>"
    have "gw_dm_check_job_rescheduling e j s = Some (?k\<lparr>last_rescheduling_time := now e\<rparr>,
        sends [job_schedule_msg ?k GW_REASON_RESCHEDULING_TIMEOUT] s)"
      using 5 assms by (simp add: gw_dm_check_job_rescheduling_def upd_top_def send_def sends_def)
    moreover have "same_shape j (?k\<lparr>last_rescheduling_time := now e\<rparr>)"
      using assms by (simp add: same_shape_def)
    ultimately show thesis using that by blast
  qed (use that [of j "[]"] q in \<open>simp_all add: gw_dm_check_job_rescheduling_def\<close>)
qed

lemma check_job_shape:
  assumes h: "held s i p j"
  obtains k m where "gw_dm_check_job e j s = Some (k, sends m s)" "same_shape j k"
proof (cases "job_state j = GW_JOB_STATE_WRAPPER
    \<and> (case history j of [] \<Rightarrow> GW_REASON_NONE | h # _ \<Rightarrow> reason h) = GW_REASON_NONE")
  case True
  then have p: "p \<noteq> P_idle" using held_simps(2) [OF h] phase_wrapper_busy by simp
  obtain x xs where hist: "history j = x # xs"
    using held_history [OF h p] by (cases "history j") auto
  obtain hid where x: "h_host x = Some hid" "get_host s hid \<noteq> None"
    using held_simps(3) [OF h] p hist by (auto simp: hist_ok_def hosted_def host_of_def)
  obtain k m where k: "gw_dm_check_job_suspension e j s = Some (k, sends m s)" "same_shape j k"
    using check_suspension [OF hist x] .
  obtain y ys where hk: "history k = y # ys"
    using k(2) hist by (cases "history k") (auto simp: same_shape_def)
  obtain l n where l: "gw_dm_check_job_rescheduling e k (sends m s) = Some (l, sends n (sends m s))"
    "same_shape k l" using check_rescheduling [OF hk] .
  have "gw_dm_check_job e j s = Some (l, sends (m @ n) s)"
    using True k(1) l(1) by (simp add: gw_dm_check_job_def sends_def)
  then show thesis using that same_shape_trans [OF k(2) l(2)] by blast
next
  case False
  then have "gw_dm_check_job e j s = Some (j, sends [] s)" by (auto simp: gw_dm_check_job_def sends_def)
  then show thesis using that by simp
qed

lemma put_sends: "put i j (sends m s) = sends m (put i j s)"
  by (simp add: put_def sends_def)

lemma inv_check_jobs:
  assumes "gwd_inv s"
  obtains s' where "check_jobs e ids s = Some s'" "gwd_inv s'"
proof -
  have "\<exists>s'. check_jobs e ids s = Some s' \<and> gwd_inv s'"
    using assms
  proof (induction ids arbitrary: s)
    case Nil
    then show ?case by simp
  next
    case (Cons i ids)
    show ?case
    proof (cases "get_job s (int i)")
      case None
      then show ?thesis using Cons by simp
    next
      case (Some j)
      obtain p where h: "held s (int i) p j" using inv_held [OF Cons.prems Some] .
      obtain k m where k: "gw_dm_check_job e j s = Some (k, sends m s)" "same_shape j k"
        using check_job_shape [OF h] .
      have "moved s (int i) p j (Some (put (int i) k (sends m s)))"
        unfolding put_sends by (rule move_shape [OF h k(2)]) (simp add: quiet_basic)
      then have "gwd_inv (put (int i) k (sends m s))" by (rule inv_request [OF Cons.prems h])
      then show ?thesis using Cons.IH Some k(1) by simp
    qed
  qed
  then show thesis using that by blast
qed

lemma inv_schedule:
  assumes "gwd_inv s"
  obtains s' where "gw_dm_schedule e s = Some s'" "gwd_inv s'"
proof -
  let ?m = "if mark s + scheduling_interval e \<ge> 300 then 0 else mark s + scheduling_interval e"
  let ?t = "s\<lparr>mark := ?m\<rparr>"
  have i: "gwd_inv ?t" by (rule inv_fields [OF assms]) simp_all
  show thesis
  proof (cases "scheduling s")
    case True
    then show thesis using i that by (simp add: gw_dm_schedule_def Let_def)
  next
    case False
    have "gwd_inv (?t\<lparr>scheduling := True\<rparr>)" by (rule inv_fields [OF i]) simp_all
    then obtain s' where s': "check_jobs e [0..<length (pool (gd_jobs s))] (?t\<lparr>scheduling := True\<rparr>) = Some s'"
      "gwd_inv s'" using inv_check_jobs by blast
    have "gwd_inv (send SCHEDULE s')" by (rule inv_fields [OF s'(2)]) simp_all
    then show thesis using that s'(1) False by (simp add: gw_dm_schedule_def Let_def)
  qed
qed

text \<open>A line of the scheduler is within the accounting when the dispatch it asks for is.\<close>

definition line_ok :: "dm_env \<Rightarrow> sched_line \<Rightarrow> gwd \<Rightarrow> bool" where
  "line_ok e l s \<longleftrightarrow>
     (case l of
        PIPE_ERROR _ \<Rightarrow> True
      | LINE act s_id result info \<Rightarrow>
          (case parse_resource info of
             None \<Rightarrow> True
           | Some (hid, queue, rank) \<Rightarrow> dispatch_ok e (atoi s_id) hid (Some queue) rank s))"

lemma inv_listener:
  assumes inv: "gwd_inv s" and ok: "line_ok e l s" and r: "gw_dm_listener_line e l s = Some s'"
  shows "gwd_inv s'"
proof (cases l)
  case (PIPE_ERROR b)
  then have s': "s' = (if b then sends (dm_recover_msgs s) s else s)\<lparr>scheduling := False\<rparr>"
    using r by (simp add: gw_dm_listener_line_def)
  show ?thesis unfolding s' by (rule inv_fields [OF inv]) simp_all
next
  case (LINE act s_id result info)
  have e: "gwd_inv (s\<lparr>scheduling := False\<rparr>)" by (rule inv_fields [OF inv]) simp_all
  show ?thesis
  proof (cases "act = ''SCHEDULE_JOB'' \<and> result = ''SUCCESS'' \<and> parse_resource info \<noteq> None")
    case True
    then obtain hid queue rank where p: "parse_resource info = Some (hid, queue, rank)"
      by (metis not_None_eq surj_pair)
    then obtain rc where "gw_dm_dispatch_job e (atoi s_id) hid (Some queue) rank s = Some (s', rc)"
      using r LINE True by (auto simp: gw_dm_listener_line_def)
    then show ?thesis using inv_dispatch [OF inv] ok p LINE by (simp add: line_ok_def)
  next
    case False
    then show ?thesis using r LINE inv e inv_uncheck [OF inv]
      by (auto simp: gw_dm_listener_line_def split: if_splits option.splits)
  qed
qed

section \<open>The start of a migration\<close>

lemma move_migr_cancel:
  assumes g: "get_job s i = Some j" "ctl_of s i = [C_em]" "no_finalize s" "hist_ok s P_mig_run j"
      "template_ok (template j)" "job_id j = i" "0 \<le> restarted j"
    and st: "job_state j = GW_JOB_STATE_WRAPPER" "em_state j \<noteq> GW_EM_STATE_DONE"
  shows "moved s i P_mig_run j (gw_dm_migr_cancel e (Some i) s)"
proof -
  have "hosted s j 0" "hosted s j 1" using g(4) by (simp_all add: hist_ok_def)
  then obtain x y ys where "history j = x # y # ys" using hosted_cases2 by metis
  then obtain xs where hist: "history j = x # xs" "xs = y # ys" by simp
  let ?x = "set_stat MIGRATION_START_TIME (now e) x"
  let ?j = "set_state GW_JOB_STATE_MIGR_CANCEL (j\<lparr>history := ?x # xs\<rparr>)"
  have e: "gw_dm_migr_cancel e (Some i) s =
      Some (trigger_em EM_CANCEL i (log_state e ?j (put i ?j s)))"
    using g(1) st hist by (simp add: gw_dm_migr_cancel_def with_job_def upd_top_def gw_job_set_state_def)
  have ok: "hist_ok s P_mig_run ?j"
    using g(4) hist by (simp add: hist_ok_def hosted_def host_of_def nth_Cons')
  have cl: "r_claim P_mig_run ?j n = r_claim P_mig_run j n"
    "u_claim P_mig_run ?j n = u_claim P_mig_run j n" "n_claim P_mig_run ?j n = n_claim P_mig_run j n" for n
    using hist by (simp_all add: on_host_def host_of_def n_claim_def nth_Cons')
  have "settled s i P_mig_run j (trigger_em EM_CANCEL i (log_state e ?j (put i ?j s))) P_mig_run ?j"
    using g ok cl by (simp add: settled_def gw_frame same_pool_def same_elsewhere_def del: r_claim.simps u_claim.simps)
  then show ?thesis using g st(1) unfolding e by (simp add: moved_def gw_frame exec_phase_def exec_state_def)
qed

end
