(* ===== verification/DM_Flow.thy ===== *)
theory DM_Flow
  imports DM_Dispatch
begin

text \<open>
  The daemon as a transition system: the loop of the dispatch manager, the requests of the
  clients, the answers of the transfer and execution managers and the lines of the scheduler, in
  any order. Every reachable state satisfies the accounting invariant. The guards exclude the
  situations in which the code loses counters; each is the subject of a theorem of \<open>DM_Leaks\<close>.
\<close>

section \<open>One action of the dispatch manager\<close>

definition migrating :: "gwd \<Rightarrow> int \<Rightarrow> bool" where
  "migrating s i \<longleftrightarrow> ctl_of s i = [C_dm DM_STATE_MIGR_CANCEL, C_em]"

definition kill_ok :: "gwd \<Rightarrow> int \<Rightarrow> bool" where
  "kill_ok s i \<longleftrightarrow>
     (case get_job s i of
        None \<Rightarrow> True
      | Some j \<Rightarrow> if killable_now (job_state j) then ctl_of s i = [] else \<not> migrating s i)"

definition not_done :: "gwd \<Rightarrow> int \<Rightarrow> bool" where
  "not_done s i \<longleftrightarrow>
     (case get_job s i of None \<Rightarrow> True | Some j \<Rightarrow> em_state j \<noteq> GW_EM_STATE_DONE)"

definition on_job :: "(gwd \<Rightarrow> int \<Rightarrow> bool) \<Rightarrow> am_arg \<Rightarrow> gwd \<Rightarrow> bool" where
  "on_job P arg s \<longleftrightarrow> (case arg of ARG_ID i \<Rightarrow> P s i | _ \<Rightarrow> True)"

definition action_ok :: "dm_action \<Rightarrow> am_arg \<Rightarrow> gwd \<Rightarrow> bool" where
  "action_ok a arg s \<longleftrightarrow>
     (case a of
        DM_FINALIZE \<Rightarrow> False
      | DM_KILL_HARD \<Rightarrow> False
      | DM_ALLOCATE_JOB \<Rightarrow> (case arg of ARG_MSG m \<Rightarrow> submit_ok m | _ \<Rightarrow> False)
      | DM_ALLOCATE_ARRAY \<Rightarrow> (case arg of ARG_MSG m \<Rightarrow> submit_ok m | _ \<Rightarrow> False)
      | DM_STOP \<Rightarrow> on_job (\<lambda>s i. \<not> migrating s i) arg s
      | DM_KILL \<Rightarrow> on_job kill_ok arg s
      | DM_STATE_MIGR_CANCEL \<Rightarrow> on_job not_done arg s
      | _ \<Rightarrow> True)"

lemma control_moves:
  assumes "ready s i p j" and "action_phase a (job_state j) = Some p"
    and "a \<noteq> DM_STATE_ZOMBIE"
  shows "moved s i p j (dm_handler e a (ARG_ID i) s)"
proof -
  have pre: "action_phase DM_PROLOG_DONE st = Some p \<Longrightarrow> prolog_phase st = Some p"
    "action_phase DM_PROLOG_FAILED st = Some p \<Longrightarrow> prolog_phase st = Some p"
    "action_phase DM_WRAPPER_DONE st = Some p \<Longrightarrow> exec_phase st = Some p"
    "action_phase DM_EPILOG_DONE st = Some p \<Longrightarrow> epilog_phase st = Some p"
    "action_phase DM_EPILOG_FAILED st = Some p \<Longrightarrow> epilog_phase st = Some p" for st
    by simp_all
  note moves = move_prolog move_migr_prolog move_prolog_done [OF _ pre(1)]
    move_prolog_failed [OF _ pre(2)] move_pre_wrapper move_wrapper move_wrapper_done [OF _ pre(3)]
    move_wrapper_failed move_epilog_std move_migr_epilog move_stop_epilog move_kill_epilog
    move_epilog_fail move_epilog move_epilog_restart move_epilog_done [OF _ pre(4)]
    move_epilog_failed [OF _ pre(5)] move_failed move_pending move_stopped
  have none: "action_phase b st = None" if "\<not> is_ctl b \<or> b = DM_STATE_MIGR_CANCEL" for b st
    using that by (cases b) (simp_all add: is_ctl_def)
  show ?thesis
  proof (cases "is_ctl a \<and> a \<noteq> DM_STATE_MIGR_CANCEL")
    case True
    then show ?thesis
      using assms
      by (cases a) (simp_all only: dm_handler_def arg_id_def dm_action.case am_arg.case moves
          is_ctl_def, simp_all)
  next
    case False
    then show ?thesis using none [of a] assms(2) by auto
  qed
qed

lemma pop_views:
  assumes "dm_am s0 = (a, arg) # rest" and "no_finalize s0"
  defines "s \<equiv> s0\<lparr>dm_am := rest\<rparr>"
  shows "get_job s k = get_job s0 k" "get_host s h = get_host s0 h" "get_user s w = get_user s0 w"
    "rjobs s h = rjobs s0 h" "uslots s h = uslots s0 h" "urun s w = urun s0 w" "no_finalize s"
    "length (pool (gd_jobs s)) = length (pool (gd_jobs s0))"
    "ctl_of s0 k = (if is_ctl a \<and> arg = ARG_ID k then [C_dm a] else []) @ ctl_of s k"
  using assms(1,2) by (simp_all add: s_def view_defs no_finalize_def dm_ctl_def)

lemma pop_quiet:
  assumes "dm_am s0 = (a, arg) # rest" and "no_finalize s0" and "\<not> is_ctl a \<or> (\<forall>i. arg \<noteq> ARG_ID i)"
  shows "quiet s0 (s0\<lparr>dm_am := rest\<rparr>)"
  using pop_views [OF assms(1,2)] assms(3) by (simp add: quiet_def same_pool_def)

lemma pop_loosed:
  assumes "dm_am s0 = (a, ARG_ID i) # rest" and "no_finalize s0"
  shows "loosed s0 (s0\<lparr>dm_am := rest\<rparr>) i"
  using pop_views [OF assms] by (auto simp: loosed_def same_pool_def same_elsewhere_def)

lemma inv_control:
  assumes inv: "gwd_inv s0" and q: "dm_am s0 = (a, ARG_ID i) # rest" and a: "is_ctl a"
    and ok: "action_ok a (ARG_ID i) s0"
  obtains s' where "dm_handler e a (ARG_ID i) (s0\<lparr>dm_am := rest\<rparr>) = Some s'" "gwd_inv s'"
proof -
  let ?s = "s0\<lparr>dm_am := rest\<rparr>"
  note v = pop_views [OF q inv_no_finalize [OF inv]]
  note lo = pop_loosed [OF q inv_no_finalize [OF inv]]
  have c: "ctl_of s0 i = C_dm a # ctl_of ?s i" using v(9) a by simp
  then obtain j where g: "get_job s0 i = Some j" using inv_no_job [OF inv] by (metis list.distinct(1) not_None_eq)
  obtain p where h: "held s0 i p j" using inv_held [OF inv g] .
  have sp: "same_pool s0 ?s" using v by (simp add: same_pool_def)
  have ok': "hist_ok ?s p j" "template_ok (template j)" "job_id j = i" "0 \<le> restarted j" "no_finalize ?s"
    using held_simps [OF h] hist_ok_same [OF sp] v by simp_all
  have fin: thesis if "moved ?s i p j (dm_handler e a (ARG_ID i) ?s)"
  proof -
    obtain s' where s': "dm_handler e a (ARG_ID i) ?s = Some s'"
      using \<open>moved ?s i p j (dm_handler e a (ARG_ID i) ?s)\<close> by (auto simp: moved_def split: option.splits)
    then have "gwd_inv s'"
      using inv_moved [OF inv lo h] \<open>moved ?s i p j (dm_handler e a (ARG_ID i) ?s)\<close> by simp
    then show thesis using \<open>\<And>s'. dm_handler e a (ARG_ID i) ?s = Some s' \<Longrightarrow> gwd_inv s' \<Longrightarrow> thesis\<close> s' by blast
  qed
  have ph: "phase_of (C_dm a # ctl_of ?s i) (job_state j) = Some p" using held_simps(2) [OF h] c by simp
  show thesis
  proof (cases "ctl_of ?s i = []")
    case True
    then have ap: "a \<noteq> DM_STATE_MIGR_CANCEL" "action_phase a (job_state j) = Some p"
      using ph by (auto simp: phase_of_def)
    have r: "ready ?s i p j" using True ok' g v by (simp add: ready_def)
    show thesis
    proof (cases "a = DM_STATE_ZOMBIE")
      case False
      then show thesis using fin control_moves [OF r ap(2)] by blast
    next
      case z: True
      then have p: "p = P_end" and st: "job_state j = GW_JOB_STATE_EPILOG \<or> job_state j = GW_JOB_STATE_KILL_EPILOG"
        using ap(2) by auto
      have hd: "dm_handler e a (ARG_ID i) ?s = gw_dm_zombie e (Some i) ?s"
        using z by (simp add: dm_handler_def arg_id_def)
      from st show thesis
      proof
        assume "job_state j = GW_JOB_STATE_EPILOG"
        then obtain t where t: "gw_dm_zombie e (Some i) ?s = Some (gw_job_pool_dep_check e i t)"
          "moved ?s i p j (Some t)" using move_zombie_done [OF r _ p] by blast
        have "gwd_inv t" using inv_moved [OF inv lo h t(2)] .
        then show thesis using that hd t(1) inv_dep_check by simp
      next
        assume "job_state j = GW_JOB_STATE_KILL_EPILOG"
        then obtain t where t: "gw_dm_zombie e (Some i) ?s =
            Some (trigger_rm RM_KILL_SUCCESS (ARG_ID i)
              (drop_task (array_id j) (task_id j) (gw_job_pool_free e i t)))"
          "moved ?s i p j (Some t)" "ctl_of t i = []" using move_zombie_kill [OF r _ p] by blast
        have "gwd_inv t" using inv_moved [OF inv lo h t(2)] .
        then show thesis using that hd t(1) inv_kill_end [OF _ t(3)] by simp
      qed
    qed
  next
    case False
    then have m: "a = DM_STATE_MIGR_CANCEL" "ctl_of ?s i = [C_em]" "job_state j = GW_JOB_STATE_WRAPPER"
        "p = P_mig_run"
      using ph by (auto simp: phase_of_def split: if_splits list.splits)
    have "em_state j \<noteq> GW_EM_STATE_DONE"
      using ok m(1) g by (simp add: action_ok_def on_job_def not_done_def)
    then have "moved ?s i P_mig_run j (gw_dm_migr_cancel e (Some i) ?s)"
      using m ok' g v by (intro move_migr_cancel) simp_all
    then show thesis using fin m by (simp add: dm_handler_def arg_id_def)
  qed
qed

text \<open>A request: the job may be missing, or none may be given.\<close>

lemma quiet_refuse: "quiet s (refuse a i s)"
  by (simp add: refuse_def quiet_basic)

lemma inv_with_job:
  assumes inv: "gwd_inv s" and f: "f = with_job (refuse a) body"
    and m: "\<And>i p j. arg = Some i \<Longrightarrow> held s i p j \<Longrightarrow> moved s i p j (f (Some i) s)"
  obtains s' where "f arg s = Some s'" "gwd_inv s'"
proof (cases arg)
  case None
  then show thesis using that inv f by (simp add: with_job_def)
next
  case (Some i)
  show thesis
  proof (cases "get_job s i")
    case None
    then have "f arg s = Some (refuse a i s)" using Some f by (simp add: with_job_def)
    then show thesis using that inv_quiet [OF inv quiet_refuse] by blast
  next
    case job: (Some j)
    obtain p where h: "held s i p j" using inv_held [OF inv job] .
    obtain s' where "f (Some i) s = Some s'"
      using m [OF Some h] by (auto simp: moved_def split: option.splits)
    then show thesis using that Some inv_request [OF inv h] m [OF Some h] by simp
  qed
qed

lemma inv_kill:
  assumes inv: "gwd_inv s" and ok: "\<And>i. arg = Some i \<Longrightarrow> kill_ok s i"
  obtains s' where "gw_dm_kill e arg s = Some s'" "gwd_inv s'"
proof (cases "\<exists>i j. arg = Some i \<and> get_job s i = Some j \<and> killable_now (job_state j)")
  case True
  then obtain i j where g: "arg = Some i" "get_job s i = Some j" "killable_now (job_state j)" by blast
  have c: "ctl_of s i = []" using ok [OF g(1)] g by (simp add: kill_ok_def)
  obtain p where h: "held s i p j" using inv_held [OF inv g(2)] .
  let ?k = "idle_exit_time e j"
  have e: "gw_dm_kill e arg s = Some (kill_free e i ?k s)"
    using g by (simp add: gw_dm_kill_def with_job_def)
  have sh: "same_shape j ?k" by (simp add: same_shape_def idle_exit_time_def)
  have "gwd_inv (put i ?k s)"
    using inv_request [OF inv h] move_shape [OF h sh quiet_refl] by simp
  moreover have "ctl_of (put i ?k s) i = []" using c by (simp add: gw_frame)
  ultimately show thesis using that e inv_kill_end by (simp add: kill_free_def)
next
  case False
  show thesis
  proof (rule inv_with_job [OF inv gw_dm_kill_def _ that])
    fix i p j
    assume a: "arg = Some i" and h: "held s i p j"
    then have "\<not> killable_now (job_state j)" using False held_simps(1) by blast
    then show "moved s i p j (gw_dm_kill e (Some i) s)"
      using ok [OF a] held_simps(1) [OF h]
      by (intro move_kill [OF h]) (auto simp: kill_ok_def migrating_def)
  qed
qed

text \<open>
  The handler of every admissible action is defined, and keeps the invariant. (A submission may
  be undefined, when the pool of users is full.)
\<close>

lemma inv_plain_request:
  assumes inv: "gwd_inv s" and a: "a \<in> {DM_HOLD, DM_RELEASE, DM_RESUME, DM_RESCHEDULE, DM_WAIT}"
  obtains s' where "dm_handler e a arg s = Some s'" "gwd_inv s'"
proof -
  consider "a = DM_HOLD" | "a = DM_RELEASE" | "a = DM_RESUME" | "a = DM_RESCHEDULE" | "a = DM_WAIT"
    using a by blast
  then show thesis
  proof cases
    case 1
    show thesis
      by (rule inv_with_job [OF inv gw_dm_hold_def, of "arg_id arg" e])
         (use 1 that move_hold in \<open>auto simp: dm_handler_def\<close>)
  next
    case 2
    show thesis
      by (rule inv_with_job [OF inv gw_dm_release_def, of "arg_id arg" e])
         (use 2 that move_release in \<open>auto simp: dm_handler_def\<close>)
  next
    case 3
    show thesis
      by (rule inv_with_job [OF inv gw_dm_resume_def, of "arg_id arg" e])
         (use 3 that move_resume in \<open>auto simp: dm_handler_def\<close>)
  next
    case 4
    show thesis
      by (rule inv_with_job [OF inv gw_dm_reschedule_def, of "arg_id arg" e])
         (use 4 that move_reschedule in \<open>auto simp: dm_handler_def\<close>)
  next
    case 5
    show thesis
      by (rule inv_with_job [OF inv gw_dm_wait_def, of "arg_id arg" e])
         (use 5 that move_wait in \<open>auto simp: dm_handler_def\<close>)
  qed
qed

lemma inv_stop:
  assumes inv: "gwd_inv s" and ok: "\<And>i. arg = Some i \<Longrightarrow> \<not> migrating s i"
  obtains s' where "gw_dm_stop e arg s = Some s'" "gwd_inv s'"
  by (rule inv_with_job [OF inv gw_dm_stop_def _ that])
     (use ok in \<open>auto simp: migrating_def intro!: move_stop\<close>)

lemma arg_id_Some: "arg_id arg = Some i \<longleftrightarrow> arg = ARG_ID i"
  by (cases arg) (simp_all add: arg_id_def)

lemma control_no_job:
  assumes "is_ctl a" and "\<forall>i. arg \<noteq> ARG_ID i"
  shows "dm_handler e a arg s = Some s"
proof -
  have n: "arg_id arg = None" using assms(2) by (cases arg) (simp_all add: arg_id_def)
  have w: "with_job m b None t = Some t" for m b t by (simp add: with_job_def)
  show ?thesis
    using assms(1)
    by (cases a) (simp_all only: dm_handler_def dm_action.case n is_ctl_def gw_dm_prolog_def
        gw_dm_migr_prolog_def gw_dm_prolog_done_cb_def gw_dm_prolog_failed_cb_def gw_dm_pre_wrapper_def
        gw_dm_wrapper_def gw_dm_wrapper_done_cb_def gw_dm_wrapper_failed_cb_def gw_dm_epilog_std_def
        gw_dm_migr_epilog_def gw_dm_stop_epilog_def gw_dm_kill_epilog_def gw_dm_epilog_fail_def
        gw_dm_epilog_def gw_dm_epilog_restart_def gw_dm_epilog_done_cb_def gw_dm_epilog_failed_cb_def
        gw_dm_failed_def gw_dm_pending_def gw_dm_stopped_def gw_dm_zombie_def gw_dm_migr_cancel_def w,
        simp_all)
qed

lemma inv_action:
  assumes inv: "gwd_inv s0" and q: "dm_am s0 = (a, arg) # rest" and ok: "action_ok a arg s0"
    and alloc: "a \<notin> {DM_ALLOCATE_JOB, DM_ALLOCATE_ARRAY}"
  obtains s' where "dm_handler e a arg (s0\<lparr>dm_am := rest\<rparr>) = Some s'" "gwd_inv s'"
proof (cases "is_ctl a \<and> (\<exists>i. arg = ARG_ID i)")
  case True
  then show thesis using inv_control [OF inv _ _ _] q ok that by blast
next
  case False
  let ?s = "s0\<lparr>dm_am := rest\<rparr>"
  have qt: "quiet s0 ?s" using pop_quiet [OF q inv_no_finalize [OF inv]] False by blast
  have inv1: "gwd_inv ?s" using inv_quiet [OF inv qt] .
  have same: "get_job ?s i = get_job s0 i" "ctl_of ?s i = ctl_of s0 i" for i using qt by (simp_all add: quiet_def)
  show thesis
  proof (cases "is_ctl a")
    case True
    then have "dm_handler e a arg ?s = Some ?s" using False control_no_job by blast
    then show thesis using that inv1 by blast
  next
    case nc: False
    consider "a \<in> {DM_HOLD, DM_RELEASE, DM_RESUME, DM_RESCHEDULE, DM_WAIT}" | "a = DM_STOP" | "a = DM_KILL"
      | "a = DM_TIMER"
      using nc alloc ok by (cases a) (auto simp: is_ctl_def action_ok_def)
    then show thesis
    proof cases
      case 1
      then show thesis using inv_plain_request [OF inv1 1] that by blast
    next
      case 2
      then have "arg_id arg = Some i \<Longrightarrow> \<not> migrating ?s i" for i
        using ok same by (auto simp: action_ok_def on_job_def arg_id_Some migrating_def)
      then obtain s' where "gw_dm_stop e (arg_id arg) ?s = Some s'" "gwd_inv s'"
        using inv_stop [OF inv1] by blast
      then show thesis using that 2 by (simp add: dm_handler_def)
    next
      case 3
      then have "arg_id arg = Some i \<Longrightarrow> kill_ok ?s i" for i
        using ok same by (auto simp: action_ok_def on_job_def arg_id_Some kill_ok_def migrating_def
            split: option.splits)
      then obtain s' where "gw_dm_kill e (arg_id arg) ?s = Some s'" "gwd_inv s'"
        using inv_kill [OF inv1] by blast
      then show thesis using that 3 by (simp add: dm_handler_def)
    next
      case 4
      obtain s' where "gw_dm_schedule e ?s = Some s'" "gwd_inv s'" using inv_schedule [OF inv1] .
      then show thesis using that 4 by (simp add: dm_handler_def)
    qed
  qed
qed

lemma inv_handler:
  assumes inv: "gwd_inv s0" and q: "dm_am s0 = (a, arg) # rest" and ok: "action_ok a arg s0"
    and r: "dm_handler e a arg (s0\<lparr>dm_am := rest\<rparr>) = Some s'"
  shows "gwd_inv s'"
proof (cases "a \<in> {DM_ALLOCATE_JOB, DM_ALLOCATE_ARRAY}")
  case True
  have "gwd_inv (s0\<lparr>dm_am := rest\<rparr>)"
    using inv_quiet [OF inv pop_quiet [OF q inv_no_finalize [OF inv]]] True by (auto simp: is_ctl_def)
  with True ok r show ?thesis
    by (auto simp: action_ok_def dm_handler_def intro: inv_jalloc inv_aalloc split: am_arg.splits)
next
  case False
  then show ?thesis using inv_action [OF inv q ok False, of e] r by auto
qed

section \<open>The transition system\<close>

text \<open>
  The answers of the transfer manager end a transfer with success or failure; it may have
  changed anything of the job but its shape. The execution manager reports for a job that was
  submitted to it.
\<close>

definition tm_answer :: "tm_action \<Rightarrow> bool \<Rightarrow> dm_action" where
  "tm_answer b ok =
     (case b of TM_PROLOG \<Rightarrow> if ok then DM_PROLOG_DONE else DM_PROLOG_FAILED
      | TM_EPILOG \<Rightarrow> if ok then DM_EPILOG_DONE else DM_EPILOG_FAILED)"

datatype em_report = EM_PENDING | EM_ACTIVE | EM_SUSPENDED

definition em_callback :: "em_report \<Rightarrow> dm_env \<Rightarrow> int option \<Rightarrow> gwd \<Rightarrow> gwd option" where
  "em_callback r =
     (case r of EM_PENDING \<Rightarrow> gw_em_pending | EM_ACTIVE \<Rightarrow> gw_em_active
      | EM_SUSPENDED \<Rightarrow> gw_em_suspended)"

definition em_release :: "int \<Rightarrow> gwd \<Rightarrow> gwd" where
  "em_release i s = s\<lparr>em_am := remove1 (EM_SUBMIT, i) (em_am s)\<rparr>"

inductive gw_core :: "gwd \<Rightarrow> gwd \<Rightarrow> bool" where
  action: "dm_am s = (a, arg) # rest \<Longrightarrow> action_ok a arg s \<Longrightarrow> dm_step e s = Some s' \<Longrightarrow> gw_core s s'"
| request: "\<not> is_ctl a \<Longrightarrow> a \<noteq> DM_FINALIZE \<Longrightarrow> gw_core s (trigger_dm a arg s)"
| report: "(EM_SUBMIT, i) \<in> set (em_am s) \<Longrightarrow> em_callback r e (Some i) s = Some s' \<Longrightarrow> gw_core s s'"
| executed: "(EM_SUBMIT, i) \<in> set (em_am s) \<Longrightarrow> \<not> migrating s i \<Longrightarrow> not_done s i \<Longrightarrow>
    gw_em_done e (Some i) (em_release i s) = Some s' \<Longrightarrow> gw_core s s'"
| retried: "(EM_SUBMIT, i) \<in> set (em_am s) \<Longrightarrow> get_job s i = Some j \<Longrightarrow> \<not> final_failure j \<Longrightarrow>
    gw_em_failed e (Some i) s = Some s' \<Longrightarrow> gw_core s s'"
| failed: "(EM_SUBMIT, i) \<in> set (em_am s) \<Longrightarrow> \<not> migrating s i \<Longrightarrow> get_job s i = Some j \<Longrightarrow>
    final_failure j \<Longrightarrow> job_state j \<noteq> GW_JOB_STATE_MIGR_CANCEL \<Longrightarrow>
    gw_em_failed e (Some i) (em_release i s) = Some s' \<Longrightarrow> gw_core s s'"
| cancelled: "x \<noteq> EM_SUBMIT \<Longrightarrow> gw_core s (s\<lparr>em_am := remove1 (x, i) (em_am s)\<rparr>)"
| scheduler: "line_ok e l s \<Longrightarrow> gw_dm_listener_line e l s = Some s' \<Longrightarrow> gw_core s s'"
| outputs: "gw_core s (s\<lparr>rm_am := r, sched_out := q, mad_out := m\<rparr>)"

text \<open>
  The transfer and execution managers work on a job as long as it keeps its shape, answer for the
  transfers and executions that were asked for, and ask the execution manager for anything but a submission.
\<close>

inductive gw_step :: "gwd \<Rightarrow> gwd \<Rightarrow> bool" where
  core: "gw_core s s' \<Longrightarrow> gw_step s s'"
| transfer: "(b, i) \<in> set (tm_am s) \<Longrightarrow> get_job s i = Some j \<Longrightarrow> same_shape j k \<Longrightarrow>
    gw_step s (trigger_dm (tm_answer b ok) (ARG_ID i)
      (put i k (s\<lparr>tm_am := remove1 (b, i) (tm_am s)\<rparr>)))"
| working: "get_job s i = Some j \<Longrightarrow> same_shape j k \<Longrightarrow> gw_step s (put i k s)"
| execution: "(EM_SUBMIT, i) \<in> set (em_am s) \<Longrightarrow> \<not> migrating s i \<Longrightarrow> get_job s i = Some j \<Longrightarrow> same_shape j k \<Longrightarrow>
    ok \<or> job_state j \<noteq> GW_JOB_STATE_MIGR_CANCEL \<Longrightarrow>
    gw_step s (trigger_dm (if ok then DM_WRAPPER_DONE else DM_WRAPPER_FAILED) (ARG_ID i) (put i k (em_release i s)))"
| events: "filter (\<lambda>x. fst x = EM_SUBMIT) em = filter (\<lambda>x. fst x = EM_SUBMIT) (em_am s) \<Longrightarrow>
    gw_step s (s\<lparr>em_am := em\<rparr>)"

text \<open>The start: hosts that run nothing, no users, no jobs, nothing to do.\<close>

definition gwd_start :: "gwd \<Rightarrow> bool" where
  "gwd_start s \<longleftrightarrow> (\<forall>i. get_job s i = None) \<and> (\<forall>w. get_user s w = None) \<and>
     (\<forall>h. rjobs s h = 0 \<and> uslots s h = 0) \<and> dm_am s = [] \<and> tm_am s = [] \<and> em_am s = []"

definition gw_reachable :: "gwd \<Rightarrow> bool" where
  "gw_reachable s \<longleftrightarrow> (\<exists>s0. gwd_start s0 \<and> gw_step\<^sup>*\<^sup>* s0 s)"

inductive_cases gw_stepE: "gw_step s s'"

inductive_cases gw_coreE: "gw_core s s'"

section \<open>Every step keeps the invariant\<close>

lemma tm_parts:
  assumes inv: "gwd_inv s" and m: "(b, i) \<in> set (tm_am s)" and g: "get_job s i = Some j"
  obtains p where "ready (s\<lparr>tm_am := remove1 (b, i) (tm_am s)\<rparr>) i p j"
    "loosed s (s\<lparr>tm_am := remove1 (b, i) (tm_am s)\<rparr>) i" "held s i p j"
    "b = TM_PROLOG \<and> prolog_phase (job_state j) = Some p
      \<or> b = TM_EPILOG \<and> epilog_phase (job_state j) = Some p"
proof -
  let ?s = "s\<lparr>tm_am := remove1 (b, i) (tm_am s)\<rparr>"
  obtain p where h: "held s i p j" using inv_held [OF inv g] .
  have tc: "C_tm b \<in> set (tm_ctl (tm_am s) i)" using m by (force simp: tm_ctl_def)
  then have c: "C_tm b \<in> set (ctl_of s i)" by (simp add: ctl_of_def)
  from phase_ctl_cases [OF held_simps(2) [OF h]]
  have cs: "ctl_of s i = [C_tm b]" using c by cases auto
  then have parts: "dm_ctl (dm_am s) i = []" "em_ctl (em_am s) i = []" "tm_ctl (tm_am s) i = [C_tm b]"
    using tc by (auto simp: ctl_of_def append_eq_Cons_conv)
  have one: "filter (\<lambda>x. snd x = i) (tm_am s) = [(b, i)]"
  proof -
    have "length (filter (\<lambda>x. snd x = i) (tm_am s)) = 1"
      using parts(3) unfolding tm_ctl_def by (metis length_map length_Cons list.size(3) One_nat_def)
    then obtain y where y: "filter (\<lambda>x. snd x = i) (tm_am s) = [y]" by (metis One_nat_def length_0_conv length_Suc_conv)
    have "(b, i) \<in> set (filter (\<lambda>x. snd x = i) (tm_am s))" using m by simp
    then show ?thesis using y by simp
  qed
  have f: "filter (\<lambda>x. snd x = k) (remove1 (b, i) xs) =
      (if k = i then remove1 (b, i) (filter (\<lambda>x. snd x = i) xs) else filter (\<lambda>x. snd x = k) xs)" for k xs
    by (induction xs) auto
  have ct: "ctl_of ?s k = (if k = i then [] else ctl_of s k)" for k
    using parts one by (simp add: ctl_of_def tm_ctl_def f)
  have v: "get_job ?s k = get_job s k" "get_host ?s x = get_host s x" "get_user ?s x = get_user s x"
    "rjobs ?s x = rjobs s x" "uslots ?s x = uslots s x" "urun ?s x = urun s x"
    "no_finalize ?s = no_finalize s" "same_pool s ?s" for k x
    by (simp_all add: view_defs no_finalize_def same_pool_def)
  have nf: "no_finalize s" using inv_no_finalize [OF inv] .
  have "ready ?s i p j"
    using held_simps [OF h] ct v nf hist_ok_same [OF v(8)] by (simp add: ready_def)
  moreover have "loosed s ?s i" using ct v nf by (simp add: loosed_def same_elsewhere_def)
  moreover have "b = TM_PROLOG \<and> prolog_phase (job_state j) = Some p
      \<or> b = TM_EPILOG \<and> epilog_phase (job_state j) = Some p"
    using held_simps(2) [OF h] cs by (cases b) simp_all
  ultimately show thesis using that h by blast
qed

lemma em_parts:
  assumes inv: "gwd_inv s" and m: "(EM_SUBMIT, i) \<in> set (em_am s)"
  obtains p j where "held s i p j" "p \<noteq> P_idle" "C_em \<in> set (ctl_of s i)"
proof -
  have c: "C_em \<in> set (ctl_of s i)" using m by (force simp: ctl_of_def em_ctl_def)
  then obtain j where g: "get_job s i = Some j" using inv_no_job [OF inv] by (metis list.set(1) empty_iff not_None_eq)
  obtain p where h: "held s i p j" using inv_held [OF inv g] .
  from phase_ctl_cases [OF held_simps(2) [OF h]] have "p \<noteq> P_idle"
    using c held_simps(2) [OF h]
    by cases (auto simp: phase_of_def exec_phase_def split: if_splits)
  then show thesis using that h c by blast
qed

lemma em_release_parts:
  assumes inv: "gwd_inv s" and m: "(EM_SUBMIT, i) \<in> set (em_am s)" and n: "\<not> migrating s i"
    and g: "get_job s i = Some j"
  obtains p where "ready (em_release i s) i p j" "loosed s (em_release i s) i" "held s i p j"
    "exec_phase (job_state j) = Some p"
proof -
  let ?s = "em_release i s"
  obtain p where h: "held s i p j" using inv_held [OF inv g] .
  have c: "C_em \<in> set (ctl_of s i)" using m by (force simp: ctl_of_def em_ctl_def)
  from phase_ctl_cases [OF held_simps(2) [OF h]]
  have cs: "ctl_of s i = [C_em]" using c n by cases (auto simp: migrating_def)
  note parts = ctl_em_parts [OF cs]
  have one: "filter (\<lambda>x. x = (EM_SUBMIT, i)) (em_am s) = [(EM_SUBMIT, i)]"
  proof -
    have "length (filter (\<lambda>x. x = (EM_SUBMIT, i)) (em_am s)) = 1"
      using parts(3) unfolding em_ctl_def by (metis length_map length_Cons list.size(3) One_nat_def)
    then obtain y where y: "filter (\<lambda>x. x = (EM_SUBMIT, i)) (em_am s) = [y]"
      by (metis One_nat_def length_0_conv length_Suc_conv)
    have "(EM_SUBMIT, i) \<in> set (filter (\<lambda>x. x = (EM_SUBMIT, i)) (em_am s))" using m by simp
    then show ?thesis using y by simp
  qed
  have f: "filter (\<lambda>x. x = (EM_SUBMIT, k)) (remove1 (EM_SUBMIT, i) xs) =
      (if k = i then remove1 (EM_SUBMIT, i) (filter (\<lambda>x. x = (EM_SUBMIT, i)) xs)
       else filter (\<lambda>x. x = (EM_SUBMIT, k)) xs)" for k xs
    by (induction xs) auto
  have ct: "ctl_of ?s k = (if k = i then [] else ctl_of s k)" for k
    using parts one by (simp add: ctl_of_def em_ctl_def em_release_def f)
  have v: "get_job ?s k = get_job s k" "get_host ?s x = get_host s x" "get_user ?s x = get_user s x"
    "rjobs ?s x = rjobs s x" "uslots ?s x = uslots s x" "urun ?s x = urun s x"
    "no_finalize ?s = no_finalize s" "same_pool s ?s" for k x
    by (simp_all add: view_defs no_finalize_def same_pool_def em_release_def)
  have nf: "no_finalize s" using inv_no_finalize [OF inv] .
  have "ready ?s i p j"
    using held_simps [OF h] ct v nf hist_ok_same [OF v(8)] by (simp add: ready_def)
  moreover have "loosed s ?s i" using ct v nf by (simp add: loosed_def same_elsewhere_def)
  moreover have "exec_phase (job_state j) = Some p" using held_simps(2) [OF h] cs by simp
  ultimately show thesis using that h by blast
qed

lemma inv_request_trigger:
  assumes inv: "gwd_inv s" and a: "\<not> is_ctl a" "a \<noteq> DM_FINALIZE"
  shows "gwd_inv (trigger_dm a arg s)"
  using inv inv_no_finalize [OF inv] a
  by (intro inv_quiet [OF inv]) (simp add: quiet_def gw_frame same_pool_def)

lemma inv_cancelled: "gwd_inv s \<Longrightarrow> x \<noteq> EM_SUBMIT \<Longrightarrow> gwd_inv (s\<lparr>em_am := remove1 (x, i) (em_am s)\<rparr>)"
proof (rule inv_quiet)
  assume x: "x \<noteq> EM_SUBMIT"
  have "filter (\<lambda>y. y = (EM_SUBMIT, k)) (remove1 (x, i) xs) = filter (\<lambda>y. y = (EM_SUBMIT, k)) xs" for k xs
    using x by (induction xs) auto
  then show "quiet s (s\<lparr>em_am := remove1 (x, i) (em_am s)\<rparr>)"
    by (simp add: quiet_def view_defs em_ctl_def same_pool_def no_finalize_def)
qed

lemma inv_report:
  assumes inv: "gwd_inv s" and m: "(EM_SUBMIT, i) \<in> set (em_am s)"
    and r: "em_callback r e (Some i) s = Some s'"
  shows "gwd_inv s'"
proof -
  obtain p j where h: "held s i p j" "p \<noteq> P_idle" using em_parts [OF inv m] .
  have "moved s i p j (em_callback r e (Some i) s)"
    by (cases r) (simp_all add: em_callback_def move_em_pending move_em_active move_em_suspended h)
  then show ?thesis using inv_request [OF inv h(1)] r by simp
qed

lemma inv_core:
  assumes inv: "gwd_inv s" and st: "gw_core s s'"
  shows "gwd_inv s'"
  using st
proof cases
  case (action a arg rest e)
  then show ?thesis using inv_handler [OF inv] by (simp add: dm_step_def)
next
  case (request a arg)
  then show ?thesis using inv_request_trigger [OF inv] by simp
next
  case (report i r e)
  then show ?thesis using inv_report [OF inv] by blast
next
  case (executed i e)
  obtain j where g: "get_job s i = Some j" using em_parts [OF inv executed(1)] held_simps(1) by metis
  obtain p where p: "ready (em_release i s) i p j" "loosed s (em_release i s) i" "held s i p j"
    "exec_phase (job_state j) = Some p"
    by (rule em_release_parts [OF inv executed(1,2) g])
  have "em_state j \<noteq> GW_EM_STATE_DONE" using executed(3) g by (simp add: not_done_def)
  then show ?thesis using inv_moved [OF inv p(2,3)] move_em_done [OF p(1,4), of e] executed(4) by simp
next
  case (retried i j e)
  obtain p j' where h: "held s i p j'" "p \<noteq> P_idle" using em_parts [OF inv retried(1)] .
  then have "j' = j" using held_simps(1) retried(2) by fastforce
  then show ?thesis using inv_request [OF inv] move_em_failed [of s i p j e] h retried by simp
next
  case (failed i j e)
  obtain p where p: "ready (em_release i s) i p j" "loosed s (em_release i s) i" "held s i p j"
    "exec_phase (job_state j) = Some p"
    by (rule em_release_parts [OF inv failed(1-3)])
  have x: "exec_state (job_state j)" "p = P_run"
    using p(4) failed(5) by (auto simp: exec_phase_def split: if_splits)
  have r: "ready (em_release i s) i P_run j" using p(1) x(2) by simp
  show ?thesis using inv_moved [OF inv p(2,3)] move_em_final [OF r x(1) failed(4), of e] failed(6) x(2) by simp
next
  case (cancelled x i)
  then show ?thesis using inv_cancelled [OF inv] by simp
next
  case (scheduler e l)
  then show ?thesis using inv_listener [OF inv] by blast
next
  case (outputs r q m)
  show ?thesis unfolding outputs by (rule inv_fields [OF inv]) simp_all
qed

lemma inv_working:
  assumes inv: "gwd_inv s" and g: "get_job s i = Some j" and sh: "same_shape j k"
  shows "gwd_inv (put i k s)"
proof -
  obtain p where h: "held s i p j" using inv_held [OF inv g] .
  have "moved s i p j (Some (put i k s))"
    by (rule move_shape [OF h sh]) (simp_all add: quiet_basic)
  then show ?thesis using inv_request [OF inv h] by simp
qed

lemma inv_events:
  assumes inv: "gwd_inv s" and q: "filter (\<lambda>x. fst x = EM_SUBMIT) em = filter (\<lambda>x. fst x = EM_SUBMIT) (em_am s)"
  shows "gwd_inv (s\<lparr>em_am := em\<rparr>)"
proof (rule inv_quiet [OF inv])
  have e: "(\<lambda>x. x = (EM_SUBMIT, k)) = (\<lambda>x. fst x = EM_SUBMIT \<and> snd x = k)" for k by (rule ext) auto
  have f: "filter (\<lambda>x. x = (EM_SUBMIT, k)) ys = filter (\<lambda>x. snd x = k) (filter (\<lambda>x. fst x = EM_SUBMIT) ys)" for k ys
    unfolding e by (simp add: conj_commute)
  show "quiet s (s\<lparr>em_am := em\<rparr>)"
    by (simp add: quiet_def view_defs em_ctl_def same_pool_def no_finalize_def f q)
qed

lemma inv_execution:
  assumes inv: "gwd_inv s" and m: "(EM_SUBMIT, i) \<in> set (em_am s)" and n: "\<not> migrating s i"
    and g: "get_job s i = Some j" and sh: "same_shape j k" and ok: "ok \<or> job_state j \<noteq> GW_JOB_STATE_MIGR_CANCEL"
  shows "gwd_inv (trigger_dm (if ok then DM_WRAPPER_DONE else DM_WRAPPER_FAILED) (ARG_ID i) (put i k (em_release i s)))"
proof -
  obtain p where p: "ready (em_release i s) i p j" "loosed s (em_release i s) i" "held s i p j"
    "exec_phase (job_state j) = Some p"
    by (rule em_release_parts [OF inv m n g])
  have "moved (em_release i s) i p j
      (Some (trigger_dm (if ok then DM_WRAPPER_DONE else DM_WRAPPER_FAILED) (ARG_ID i) (put i k (em_release i s))))"
    by (rule move_hand [OF p(1) sh])
       (use p(4) ok in \<open>auto simp: is_ctl_def exec_phase_def split: if_splits\<close>)
  then show ?thesis using inv_moved [OF inv p(2,3)] by simp
qed

lemma inv_step:
  assumes inv: "gwd_inv s" and st: "gw_step s s'"
  shows "gwd_inv s'"
  using st
proof cases
  case core
  then show ?thesis using inv_core [OF inv] by simp
next
  case (transfer b i j k ok)
  obtain p where p: "ready (s\<lparr>tm_am := remove1 (b, i) (tm_am s)\<rparr>) i p j"
    "loosed s (s\<lparr>tm_am := remove1 (b, i) (tm_am s)\<rparr>) i" "held s i p j"
    "b = TM_PROLOG \<and> prolog_phase (job_state j) = Some p
      \<or> b = TM_EPILOG \<and> epilog_phase (job_state j) = Some p"
    by (rule tm_parts [OF inv transfer(2,3)])
  have "moved (s\<lparr>tm_am := remove1 (b, i) (tm_am s)\<rparr>) i p j (Some s')"
    unfolding transfer(1)
    by (rule move_tm_hand [OF p(1) transfer(4), of b]) (use p(4) in \<open>auto simp: tm_answer_def\<close>)
  then show ?thesis by (rule inv_moved [OF inv p(2,3)])
next
  case (working i j k)
  then show ?thesis using inv_working [OF inv] by simp
next
  case (execution i j k ok)
  then show ?thesis using inv_execution [OF inv] by simp
next
  case (events em)
  then show ?thesis using inv_events [OF inv] by simp
qed

lemma inv_start:
  assumes "gwd_start s"
  shows "gwd_inv s"
proof -
  have "local_ok s i" for i
    using assms by (simp add: gwd_start_def local_ok_def ctl_of_def dm_ctl_def tm_ctl_def em_ctl_def)
  moreover have "total f s x = 0" for f x
    using assms by (simp add: total_def claim_def gwd_start_def)
  moreover have "urun s w = 0" for w using assms by (simp add: urun_def gwd_start_def)
  ultimately show ?thesis
    using assms by (simp add: gwd_inv_def balanced_def no_finalize_def gwd_start_def)
qed

lemma inv_reachable: "gw_reachable s \<Longrightarrow> gwd_inv s"
proof -
  assume "gw_reachable s"
  then obtain s0 where "gwd_start s0" "gw_step\<^sup>*\<^sup>* s0 s" by (auto simp: gw_reachable_def)
  from this(2) show "gwd_inv s"
    by (induction rule: rtranclp_induct) (auto simp: inv_start \<open>gwd_start s0\<close> intro: inv_step)
qed

end
