(* ===== verification/DM_Safety.thy ===== *)
theory DM_Safety
  imports DM_Flow
begin

text \<open>
  What the accounting invariant gives for the reachable states of the daemon: exact counters,
  no undefined behaviour in the handlers, and exactly one pending item for every job that is not
  at rest. A run of a job through submission, dispatch and prolog shows that the situations exist.
\<close>

section \<open>Consequences of the invariant\<close>

lemma balanced_host:
  assumes "gwd_inv s" and "get_host s h = Some ho"
  shows "running_jobs ho = total r_claim s h" "used_slots ho = total u_claim s h"
proof -
  have "rjobs s h = total r_claim s h \<and> uslots s h = total u_claim s h"
    using assms by (simp add: gwd_inv_def balanced_def)
  then show "running_jobs ho = total r_claim s h" "used_slots ho = total u_claim s h"
    using assms(2) by (simp_all add: rjobs_def uslots_def)
qed

lemma balanced_user:
  assumes "gwd_inv s" and "get_user s w = Some u"
  shows "user_running_jobs u = total n_claim s w"
proof -
  have "urun s w = total n_claim s w" using assms by (simp add: gwd_inv_def balanced_def)
  then show ?thesis using assms(2) by (simp add: urun_def)
qed

lemma on_host_bounds: "0 \<le> on_host j k h" "on_host j k h \<le> 1"
  by (simp_all add: on_host_def)

lemma claims_nonneg:
  "0 \<le> r_claim p j h" "0 \<le> np (template j) \<Longrightarrow> 0 \<le> u_claim p j h" "0 \<le> n_claim p j w"
  using on_host_bounds by (cases p; simp add: n_claim_def)+

lemma total_nonneg:
  "(\<And>i j. get_job s i = Some j \<Longrightarrow> 0 \<le> f (job_phase s i j) j x) \<Longrightarrow> 0 \<le> total f s x"
  unfolding total_def by (rule sum_nonneg) (auto simp: claim_def split: option.split)

lemma total_idle:
  assumes "\<And>i. ctl_of s i = []" and "\<And>j. f P_idle j x = 0"
  shows "total f s x = 0"
proof -
  have "phase_of [] st = Some p \<Longrightarrow> p = P_idle" for st p by simp
  then have "claim f s i x = 0" for i
    using assms by (auto simp: claim_def job_phase_def split: option.split)
  then show ?thesis by (simp add: total_def)
qed

lemma reachable_step: "gw_reachable s \<Longrightarrow> gw_step s s' \<Longrightarrow> gw_reachable s'"
  unfolding gw_reachable_def by (meson rtranclp.rtrancl_into_rtrancl)

lemma reachable_start: "gwd_start s \<Longrightarrow> gw_reachable s"
  by (auto simp: gw_reachable_def)

section \<open>A run\<close>

text \<open>
  One host and room for two jobs; a client submits a job with one input file, the scheduler
  dispatches it to the host, and the transfer manager finishes its prolog.
\<close>

definition demo_template :: gw_template where
  "demo_template =
     \<lparr>ct_name = ''t'', ct_file = [], ct_job_home = [], ct_user_home = [], ct_executable = ''x'',
      ct_arguments = [], ct_pre_wrapper = [], ct_pre_wrapper_arguments = [],
      ct_input_files = [(''in'', [])], ct_output_files = [], ct_restart_files = [],
      ct_environment = [], ct_stdin_file = [], ct_stdout_file = [], ct_stderr_file = [],
      ct_requirements = [], ct_rank = [], ct_rescheduling_interval = 0,
      ct_rescheduling_threshold = 0, ct_checkpoint_interval = 0, ct_checkpoint_url = [],
      ct_suspension_timeout = 0, ct_cpuload_threshold = 0, ct_reschedule_on_failure = True,
      ct_number_of_retries = 3, ct_wrapper = ''w'', ct_monitor = [], ct_job_deps = [],
      ct_type = 0, ct_np = 2, ct_deadline = 0\<rparr>"

definition demo_msg :: submit_msg where
  "demo_msg =
     \<lparr>sm_msg_type = GW_MSG_SUBMIT, sm_client_socket = 5, sm_wait_type = GW_MSG_WAIT_JOB, sm_owner = ''ann'',
      sm_group = ''g'', sm_proxy_path = [], sm_init_state = GW_JOB_STATE_PENDING, sm_job_id = -1,
      sm_array_id = -1, sm_number_of_tasks = 1, sm_pstart = 0, sm_pinc = 0, sm_fixed_priority = 0,
      sm_rc = 0, sm_jt = demo_template\<rparr>"

definition demo_env :: dm_env where
  "demo_env =
     \<lparr>now = 9, environment_rc = 0, wrapper_stdout = None,
      env_hist = \<lparr>se_hostname = (\<lambda>_. None), history_file_opens = True\<rparr>,
      env_user = \<lparr>conf_em_mads = [''em''], conf_tm_mads = [''tm''], em_starts = (\<lambda>_. True),
                  tm_starts = (\<lambda>_. True), proxy_dn = ''dn''\<rparr>,
      env_fill = \<lparr>rm_rc = 0, mkdir_rc = 0, conf_file_opens = True\<rparr>,
      scheduling_interval = 30, dispose = False\<rparr>"

definition demo_start :: gwd where
  "demo_start =
     \<lparr>gd_jobs = gw_job_pool_init 2, gd_deps = gw_job_dep_init 2, gd_arrays = gw_array_pool_init 1,
      gd_users = gw_user_pool_init 1,
      gd_hosts = (gw_host_pool_init 1)\<lparr>hosts := [Some (gw_host_init ''node'' 0 1 ''em'' ''tm'' ''im'')]\<rparr>,
      dm_am = [], tm_am = [], em_am = [], rm_am = [], sched_out = [], mad_out = [],
      state_log = [], acct_out = [], scheduling = False, mark = 0\<rparr>"

definition demo_requested :: gwd where
  "demo_requested = trigger_dm DM_ALLOCATE_JOB (ARG_MSG demo_msg) demo_start"

definition demo_submitted :: gwd where
  "demo_submitted = the (dm_step demo_env demo_requested)"

definition demo_line :: sched_line where
  "demo_line = LINE ''SCHEDULE_JOB'' ''0'' ''SUCCESS'' ''0:q:1''"

definition demo_dispatched :: gwd where
  "demo_dispatched = the (gw_dm_listener_line demo_env demo_line demo_submitted)"

definition demo_prolog :: gwd where
  "demo_prolog = the (dm_step demo_env demo_dispatched)"

lemma demo_start_ok: "gwd_start demo_start"
proof -
  have "slot_get [Some h] k = (if k = 0 then Some h else None)" for h :: gw_host and k
    by (auto simp: slot_get_def)
  then show ?thesis
    by (simp add: gwd_start_def demo_start_def get_job_def gw_job_pool_get_def gw_job_pool_init_def
        get_user_def gw_user_pool_init_def rjobs_def uslots_def get_host_def
        gw_host_pool_get_host_def gw_host_init_def slot_get_def nth_Cons' numeral_2_eq_2)
qed

text \<open>The run, as the simplifier computes it: every step is defined and within the guards.\<close>

lemma demo_defined:
  "\<not> Option.is_none (dm_step demo_env demo_requested)"
  "\<not> Option.is_none (gw_dm_listener_line demo_env demo_line demo_submitted)"
  "\<not> Option.is_none (dm_step demo_env demo_dispatched)"
  by code_simp+

lemma demo_queues:
  "action_ok DM_ALLOCATE_JOB (ARG_MSG demo_msg) demo_requested"
  "line_ok demo_env demo_line demo_submitted"
  "map fst (dm_am demo_dispatched) = [DM_STATE_PROLOG]" "map snd (dm_am demo_dispatched) = [ARG_ID 0]"
  "tm_am demo_prolog = [(TM_PROLOG, 0)]"
  "map_option running_jobs (get_host demo_prolog 0) = Some 1"
  "map_option used_slots (get_host demo_prolog 0) = Some 2"
  "map_option user_running_jobs (get_user demo_prolog 0) = Some 1"
  "map_option job_state (get_job demo_prolog 0) = Some GW_JOB_STATE_PROLOG"
  by code_simp+

lemma demo_run:
  "demo_requested = trigger_dm DM_ALLOCATE_JOB (ARG_MSG demo_msg) demo_start"
  "dm_am demo_requested = [(DM_ALLOCATE_JOB, ARG_MSG demo_msg)]"
  "dm_step demo_env demo_requested = Some demo_submitted"
  "gw_dm_listener_line demo_env demo_line demo_submitted = Some demo_dispatched"
  "dm_am demo_dispatched = [(DM_STATE_PROLOG, ARG_ID 0)]"
  "dm_step demo_env demo_dispatched = Some demo_prolog"
proof -
  show "demo_requested = trigger_dm DM_ALLOCATE_JOB (ARG_MSG demo_msg) demo_start" by (simp add: demo_requested_def)
  show "dm_am demo_requested = [(DM_ALLOCATE_JOB, ARG_MSG demo_msg)]"
    by (simp add: demo_requested_def trigger_dm_def demo_start_def)
  show "dm_step demo_env demo_requested = Some demo_submitted"
    using demo_defined(1) by (simp add: demo_submitted_def Option.is_none_def)
  show "gw_dm_listener_line demo_env demo_line demo_submitted = Some demo_dispatched"
    using demo_defined(2) by (simp add: demo_dispatched_def Option.is_none_def)
  obtain x where x: "dm_am demo_dispatched = [x]" using demo_queues(3) by (cases "dm_am demo_dispatched") auto
  then show "dm_am demo_dispatched = [(DM_STATE_PROLOG, ARG_ID 0)]"
    using demo_queues(3,4) by (cases x) simp
  show "dm_step demo_env demo_dispatched = Some demo_prolog"
    using demo_defined(3) by (simp add: demo_prolog_def Option.is_none_def)
qed

lemma demo_cores:
  "gw_core demo_start demo_requested" "gw_core demo_requested demo_submitted"
  "gw_core demo_submitted demo_dispatched" "gw_core demo_dispatched demo_prolog"
proof -
  show "gw_core demo_start demo_requested"
    unfolding demo_run(1) by (rule request) (simp_all add: is_ctl_def)
  show "gw_core demo_requested demo_submitted" by (rule action [OF demo_run(2) demo_queues(1) demo_run(3)])
  show "gw_core demo_submitted demo_dispatched" by (rule scheduler [OF demo_queues(2) demo_run(4)])
  show "gw_core demo_dispatched demo_prolog" by (rule action [OF demo_run(5) _ demo_run(6)]) (simp add: action_ok_def)
qed

lemma demo_steps:
  "gw_reachable demo_start" "gw_reachable demo_requested" "gw_reachable demo_submitted"
  "gw_reachable demo_dispatched" "gw_reachable demo_prolog"
proof -
  show 0: "gw_reachable demo_start" by (rule reachable_start [OF demo_start_ok])
  show 1: "gw_reachable demo_requested" by (rule reachable_step [OF 0 core [OF demo_cores(1)]])
  show 2: "gw_reachable demo_submitted" by (rule reachable_step [OF 1 core [OF demo_cores(2)]])
  show 3: "gw_reachable demo_dispatched" by (rule reachable_step [OF 2 core [OF demo_cores(3)]])
  show "gw_reachable demo_prolog" by (rule reachable_step [OF 3 core [OF demo_cores(4)]])
qed

section \<open>Properties\<close>

text \<open>
  C1: the accounting of the daemon is exact: in every reachable state, \<open>running_jobs\<close> and
  \<open>used_slots\<close> of each host, and \<open>running_jobs\<close> of each user, are the sums over the jobs of what
  each holds in its phase. In particular no counter is lost or counted twice by the prologs,
  wrappers, migrations, epilogs, failures, stops and kills, in whatever order the managers answer.
\<close>

theorem accounting_exact:
  assumes "gw_reachable s"
  shows "(\<forall>h ho. get_host s h = Some ho \<longrightarrow>
      running_jobs ho = total r_claim s h \<and> used_slots ho = total u_claim s h) \<and>
    (\<forall>w u. get_user s w = Some u \<longrightarrow> user_running_jobs u = total n_claim s w)"
  using balanced_host balanced_user inv_reachable [OF assms] by auto

theorem accounting_exact_witness:
  "total r_claim demo_prolog 0 = 1 \<and> total u_claim demo_prolog 0 = 2 \<and> total n_claim demo_prolog 0 = 1"
  using accounting_exact [OF demo_steps(5)] demo_queues(6-8) by auto

text \<open>
  No counter of the daemon is ever negative in a reachable state: the running jobs of every
  host and user, and the used slots of a host when no job asks for a negative number of slots.
\<close>

lemma counters_nonneg:
  assumes "gw_reachable s"
  shows "(\<forall>h ho. get_host s h = Some ho \<longrightarrow> 0 \<le> running_jobs ho \<and>
      ((\<forall>i j. get_job s i = Some j \<longrightarrow> 0 \<le> np (template j)) \<longrightarrow> 0 \<le> used_slots ho)) \<and>
    (\<forall>w u. get_user s w = Some u \<longrightarrow> 0 \<le> user_running_jobs u)"
proof -
  note inv = inv_reachable [OF assms]
  have "0 \<le> running_jobs ho" "(\<forall>i j. get_job s i = Some j \<longrightarrow> 0 \<le> np (template j)) \<longrightarrow> 0 \<le> used_slots ho"
    if "get_host s h = Some ho" for h ho
    using balanced_host [OF inv that] total_nonneg claims_nonneg(1,2) by metis+
  moreover have "0 \<le> user_running_jobs u" if "get_user s w = Some u" for w u
    using balanced_user [OF inv that] total_nonneg claims_nonneg(3) by metis
  ultimately show ?thesis by blast
qed

text \<open>
  C2: in a reachable state the handler of every admissible action is defined: whatever the order of
  events, it never follows a missing history record, the record of the previous host, or the host
  of a record that is not there, and never writes outside its list of files. (The excluded
  actions are the finalisation, the hard kill and submissions, whose user may find the pool full.)
\<close>

theorem handlers_defined:
  assumes "gw_reachable s" and "dm_am s = (a, arg) # rest" and "action_ok a arg s"
    and "a \<noteq> DM_ALLOCATE_JOB" and "a \<noteq> DM_ALLOCATE_ARRAY"
  shows "\<exists>s'. dm_step e s = Some s'"
proof -
  obtain s' where "dm_handler e a arg (s\<lparr>dm_am := rest\<rparr>) = Some s'"
    using inv_action [OF inv_reachable [OF assms(1)] assms(2,3), of e] assms(4,5) by auto
  then show ?thesis using assms(2) by (simp add: dm_step_def)
qed

text \<open>
  Every job is driven by exactly one thing: in a reachable state a missing job has no pending
  action, transfer or submission left; a job has at most one, or is running while its migration
  starts; and a job has none only when it is at rest (its state is initial, pending, held, stopped,
  failed or ended), so no job is ever stuck in the middle of its life.
\<close>

lemma one_control_item:
  assumes "gw_reachable s"
  shows "(get_job s i = None \<longrightarrow> ctl_of s i = []) \<and>
    (\<forall>j. get_job s i = Some j \<longrightarrow>
       (length (ctl_of s i) \<le> 1 \<or> ctl_of s i = [C_dm DM_STATE_MIGR_CANCEL, C_em]
          \<and> job_state j = GW_JOB_STATE_WRAPPER) \<and>
       (ctl_of s i = [] \<longrightarrow> idle_state (job_state j)) \<and>
       (\<not> idle_state (job_state j) \<longrightarrow> ctl_of s i \<noteq> []))"
proof -
  note inv = inv_reachable [OF assms]
  have none: "ctl_of s i = []" if "get_job s i = None" using inv_no_job [OF inv that] .
  have "(length (ctl_of s i) \<le> 1 \<or> ctl_of s i = [C_dm DM_STATE_MIGR_CANCEL, C_em]
          \<and> job_state j = GW_JOB_STATE_WRAPPER) \<and> (ctl_of s i = [] \<longrightarrow> idle_state (job_state j))"
    if g: "get_job s i = Some j" for j
  proof -
    obtain p where h: "held s i p j" using inv_held [OF inv g] .
    note ph = held_simps(2) [OF h]
    from phase_ctl_cases [OF ph] show ?thesis
      using ph by cases (auto simp: phase_of_def)
  qed
  then show ?thesis using none by blast
qed

theorem handlers_defined_witness:
  "\<exists>s'. dm_step demo_env demo_dispatched = Some s'"
proof -
  obtain x where x: "dm_am demo_dispatched = [x]" using demo_queues(3) by (cases "dm_am demo_dispatched") auto
  then have q: "dm_am demo_dispatched = [(DM_STATE_PROLOG, ARG_ID 0)]"
    using demo_queues(3,4) by (cases x) simp
  have "action_ok DM_STATE_PROLOG (ARG_ID 0) demo_dispatched" by (simp add: action_ok_def)
  with handlers_defined [OF demo_steps(4) q, of demo_env] show ?thesis by auto
qed

end
