(* ===== verification/DM_Leaks.thy ===== *)
theory DM_Leaks
  imports DM_Safety
begin

text \<open>
  The situations that the transition system of \<open>DM_Flow\<close> excludes, and what the code does in each:
  counters of hosts or users that are taken and never given back.
\<close>

lemma free_comp:
  "gd_hosts (gw_job_pool_free e i s) = gd_hosts s" "dm_am (gw_job_pool_free e i s) = dm_am s"
  "tm_am (gw_job_pool_free e i s) = tm_am s" "em_am (gw_job_pool_free e i s) = em_am s"
  by (simp_all add: gw_job_pool_free_def Let_def user_op_def split: option.split)

lemma free_urun: "urun (gw_job_pool_free e i s) w = urun s w"
  by (auto simp: gw_job_pool_free_def Let_def urun_def get_user_def user_op_def
      gw_user_pool_dec_jobs_def user_update_get split: option.split)

lemma free_get: "get_job (gw_job_pool_free e i s) i = None"
  by (auto simp: gw_job_pool_free_def Let_def get_job_def gw_job_pool_get_def user_op_def
      job_pool_release_def slot_get_def slot_put_def split: option.split)

lemma drop_comp:
  "gd_hosts (drop_task a t s) = gd_hosts s" "gd_users (drop_task a t s) = gd_users s"
  "gd_jobs (drop_task a t s) = gd_jobs s" "dm_am (drop_task a t s) = dm_am s"
  by (simp_all add: drop_task_def Let_def split: option.split prod.split)

lemma kill_free_views:
  "get_job (kill_free e i j s) i = None" "urun (kill_free e i j s) w = urun s w"
  "rjobs (kill_free e i j s) h = rjobs s h" "uslots (kill_free e i j s) h = uslots s h"
  "dm_am (kill_free e i j s) = dm_am s" "get_user (kill_free e i j s) w = None \<longleftrightarrow> get_user s w = None"
proof -
  let ?t = "gw_job_pool_free e i (put i j s)"
  let ?u = "drop_task (array_id j) (task_id j) ?t"
  have k: "kill_free e i j s = trigger_rm RM_KILL_SUCCESS (ARG_ID i) ?u" by (simp add: kill_free_def)
  have u: "get_job ?u x = get_job ?t x" "urun ?u w = urun ?t w" "get_user ?u w = get_user ?t w" for x
    by (simp_all add: view_defs drop_comp)
  show "get_job (kill_free e i j s) i = None" by (simp add: k gw_frame u free_get)
  show "urun (kill_free e i j s) w = urun s w" by (simp add: k gw_frame u free_urun)
  show "rjobs (kill_free e i j s) h = rjobs s h" "uslots (kill_free e i j s) h = uslots s h"
    by (simp_all add: k view_defs drop_comp free_comp)
  show "dm_am (kill_free e i j s) = dm_am s" by (simp add: k drop_comp free_comp)
  show "get_user (kill_free e i j s) w = None \<longleftrightarrow> get_user s w = None"
    by (auto simp: k get_user_def drop_comp gw_job_pool_free_def Let_def user_op_def
        gw_user_pool_dec_jobs_def user_update_get split: option.split)
qed

section \<open>A kill that is pending when the job is dispatched\<close>

lemma dispatch_pending_run:
  assumes "get_job s i = Some j" and "job_id j = i" and "job_state j = GW_JOB_STATE_PENDING"
    and "gw_dm_dispatch_job e i hid queue rank s = Some (s1, 0)"
  obtains k where "get_job s1 i = Some k" "job_state k = GW_JOB_STATE_PENDING" "get_host s hid \<noteq> None"
    "s1 = trigger_dm DM_STATE_PROLOG (ARG_ID i) (user_op (gw_user_pool_inc_running_jobs (user_id j) 1)
            (host_upd (gw_host_inc_slots_nb (np (template j))) hid (put i k s)))"
    "get_user s (user_id j) \<noteq> None"
proof -
  obtain ho where ho: "get_host s hid = Some ho"
    using assms by (cases "get_host s hid") (simp_all add: gw_dm_dispatch_job_def)
  obtain k rc where d: "dispatch_history e hid ho queue rank j s = (k, rc)" by (metis surj_pair)
  have rc: "rc \<noteq> -1"
    using assms ho d by (auto simp: gw_dm_dispatch_job_def split: if_splits)
  then obtain r where r: "k = j\<lparr>history := r # history j\<rparr>" "get_user s (user_id j) \<noteq> None"
    using dispatch_history_cases [OF d] by auto
  have g: "get_host (put i k s) hid \<noteq> None" using ho by (simp add: gw_frame)
  have s1: "s1 = trigger_dm DM_STATE_PROLOG (ARG_ID i) (user_op (gw_user_pool_inc_running_jobs (user_id j) 1)
            (host_upd (gw_host_inc_slots_nb (np (template j))) hid (put i k s)))"
    using assms ho d rc r(1) g
    by (simp add: gw_dm_dispatch_job_def host_inc_slots_def host_op_upd)
  have "get_job s1 i = Some k" using assms(1) g by (simp add: s1 gw_frame)
  moreover have "job_state k = GW_JOB_STATE_PENDING" using assms(3) r by simp
  ultimately show thesis using that s1 ho r(2) by simp
qed

text \<open>
  C8: a kill that is waiting in the list when the scheduler dispatches the job leaks: the kill still
  finds the job pending and frees it at once, the prolog that the dispatch asked for finds no
  job, and the host keeps a running job and its slots, and the user a running job, that no
  job holds and nothing gives back.
\<close>

theorem kill_before_prolog_leaks:
  assumes "get_job s i = Some j" and "job_id j = i" and "job_state j = GW_JOB_STATE_PENDING"
    and "dm_am s = [(DM_KILL, ARG_ID i)]"
    and "gw_dm_dispatch_job e i hid queue rank s = Some (s1, 0)"
  shows "\<exists>s2 s3. dm_step e s1 = Some s2 \<and> dm_step e s2 = Some s3 \<and>
     get_job s3 i = None \<and> dm_am s3 = [] \<and>
     rjobs s3 hid = rjobs s hid + 1 \<and> uslots s3 hid = uslots s hid + np (template j) \<and>
     urun s3 (user_id j) = urun s (user_id j) + 1"
proof -
  obtain k where k: "get_job s1 i = Some k" "job_state k = GW_JOB_STATE_PENDING" "get_host s hid \<noteq> None"
    "s1 = trigger_dm DM_STATE_PROLOG (ARG_ID i) (user_op (gw_user_pool_inc_running_jobs (user_id j) 1)
            (host_upd (gw_host_inc_slots_nb (np (template j))) hid (put i k s)))"
    "get_user s (user_id j) \<noteq> None"
    using dispatch_pending_run [OF assms(1,2,3,5)] .
  have gh: "get_host (put i k s) hid \<noteq> None" using k(3) by (simp add: gw_frame)
  have v: "rjobs s1 hid = rjobs s hid + 1" "uslots s1 hid = uslots s hid + np (template j)"
    "urun s1 (user_id j) = urun s (user_id j) + 1"
    using gh k(5) unfolding k(4) by (simp_all add: gw_frame host_counters)
  have q: "dm_am s1 = [(DM_KILL, ARG_ID i), (DM_STATE_PROLOG, ARG_ID i)]"
    using assms(4) host_upd_other(3) [OF gh] unfolding k(4) by (simp add: trigger_dm_def)
  let ?p = "s1\<lparr>dm_am := [(DM_STATE_PROLOG, ARG_ID i)]\<rparr>"
  let ?s2 = "kill_free e i (idle_exit_time e k) ?p"
  let ?s3 = "?s2\<lparr>dm_am := []\<rparr>"
  have pv: "get_job ?p x = get_job s1 x" "rjobs ?p h = rjobs s1 h" "uslots ?p h = uslots s1 h"
    "urun ?p w = urun s1 w" for x h w
    by (simp_all add: view_defs)
  have "dm_step e s1 = Some ?s2"
    using q k(1,2) pv(1) [of i]
    by (simp add: dm_step_def dm_handler_def arg_id_def gw_dm_kill_def with_job_def killable_now_def)
  moreover have d2: "dm_am ?s2 = [(DM_STATE_PROLOG, ARG_ID i)]" by (simp add: kill_free_views)
  moreover have "get_job ?s3 i = None" using kill_free_views(1) by (simp add: get_job_def)
  moreover from this have "dm_step e ?s2 = Some ?s3"
    using d2 by (simp add: dm_step_def dm_handler_def arg_id_def gw_dm_prolog_def with_job_def no_job_def)
  moreover have "rjobs ?s3 h = rjobs ?s2 h" "uslots ?s3 h = uslots ?s2 h" "urun ?s3 w = urun ?s2 w" for h w
    by (simp_all add: view_defs)
  ultimately show ?thesis using v pv kill_free_views by auto
qed

theorem kill_before_prolog_leaks_witness:
  "\<exists>s s3. gw_reachable s \<and> get_job s3 0 = None \<and> rjobs s3 0 = rjobs s 0 + 1"
proof -
  let ?s = "trigger_dm DM_KILL (ARG_ID 0) demo_submitted"
  obtain j where j: "get_job ?s 0 = Some j" "job_id j = 0 \<and> job_state j = GW_JOB_STATE_PENDING"
  proof -
    have "map_option (\<lambda>j. (job_id j, job_state j)) (get_job ?s 0) = Some (0, GW_JOB_STATE_PENDING)"
      by code_simp
    then show thesis using that by auto
  qed
  have q: "dm_am demo_submitted = []"
  proof -
    have "length (dm_am demo_submitted) = 0" by code_simp
    then show ?thesis by simp
  qed
  then have q2: "dm_am ?s = [(DM_KILL, ARG_ID 0)]" by (simp add: trigger_dm_def)
  obtain s1 where "gw_dm_dispatch_job demo_env 0 0 (Some ''q'') 1 ?s = Some (s1, 0)"
  proof -
    have "map_option snd (gw_dm_dispatch_job demo_env 0 0 (Some ''q'') 1 ?s) = Some 0" by code_simp
    then show thesis using that by auto
  qed
  from kill_before_prolog_leaks [OF j(1) conjunct1 [OF j(2)] conjunct2 [OF j(2)] q2 this]
  obtain s3 where "get_job s3 0 = None" "rjobs s3 0 = rjobs ?s 0 + 1" by blast
  moreover have "gw_reachable ?s"
    by (rule reachable_step [OF demo_steps(3) core [OF request]]) (simp_all add: is_ctl_def)
  ultimately show ?thesis by blast
qed

text \<open>The state of the example: the job is executing on host 0, and there is a second host.\<close>

definition demo_two :: gwd where
  "demo_two = demo_dispatched\<lparr>gd_hosts := (gd_hosts demo_dispatched)\<lparr>hosts :=
     hosts (gd_hosts demo_dispatched) @ [Some (gw_host_init ''node2'' 1 1 ''em'' ''tm'' ''im'')]\<rparr>,
     gd_jobs := (gd_jobs demo_dispatched)\<lparr>pool := map (map_option (\<lambda>j. j\<lparr>job_state := GW_JOB_STATE_WRAPPER\<rparr>))
       (pool (gd_jobs demo_dispatched))\<rparr>,
     dm_am := [(DM_WRAPPER_DONE, ARG_ID 0)]\<rparr>"

section \<open>A submission that fails while the job is being cancelled for a migration\<close>

text \<open>
  The callback of a failed wrapper does not handle a job whose migration is under way: it
  reports the state as wrong but goes on, gives back the slots of the new host instead of those of
  the one that was executing the job, and sends the job to its failure epilog, which only leaves
  the new host; the slots and the running job of the previous host are never given back.
\<close>

lemma failed_migration_leaks:
  assumes "get_job s i = Some j" and "job_state j = GW_JOB_STATE_MIGR_CANCEL"
    and "history j = x # y # ys" and "h_host x = Some hid" and "get_host s hid \<noteq> None"
    and "h_host y = Some old" and "get_host s old \<noteq> None" and "old \<noteq> hid"
  shows "\<exists>s'. gw_dm_wrapper_failed_cb e (Some i) s = Some s' \<and>
     uslots s' hid = uslots s hid - np (template j) \<and>
     uslots s' old = uslots s old \<and> rjobs s' old = rjobs s old \<and>
     dm_am s' = dm_am (trigger_dm DM_STATE_EPILOG_FAIL (ARG_ID i) s)"
proof -
  let ?k = "j\<lparr>em_state := GW_EM_STATE_INIT, history := set_reason GW_REASON_EXECUTION_ERROR x # y # ys\<rparr>"
  let ?s = "trigger_dm DM_STATE_EPILOG_FAIL (ARG_ID i)
              (put i ?k (host_upd (gw_host_dec_uslots (np (template j))) hid s))"
  have "gw_dm_wrapper_failed_cb e (Some i) s = Some ?s"
    using assms by (simp add: gw_dm_wrapper_failed_cb_def with_job_def upd_top_def host_op_upd)
  moreover have "uslots ?s n = uslots s n - (if n = hid then np (template j) else 0)"
    "rjobs ?s n = rjobs s n" for n
    using assms(5) by (simp_all add: gw_frame host_counters)
  ultimately show ?thesis
    using assms(8) host_upd_other(3) [OF assms(5)] by (simp add: trigger_dm_def)
qed

section \<open>The hard kill\<close>

lemma host_op_users: "host_op f p s = Some s' \<Longrightarrow> gd_users s' = gd_users s"
  by (auto simp: host_op_def bind_eq_Some_conv send_def)

lemma to_mad_users [simp]: "gd_users (to_mad r s) = gd_users s"
  by (simp add: to_mad_def)

lemma kill_hard_users:
  "kill_hard_end e j s = Some (k, s') \<Longrightarrow> gd_users s' = gd_users s"
  by (auto simp: kill_hard_end_def bind_eq_Some_conv dest!: host_op_users)

lemma kill_hard_users_reason:
  "kill_hard_reason e j s = Some (k, s') \<Longrightarrow> gd_users s' = gd_users s"
  by (auto simp: kill_hard_reason_def bind_eq_Some_conv dest!: kill_hard_users)

lemma kill_hard_users_prolog:
  "kill_hard_prolog e j s = Some (k, s') \<Longrightarrow> gd_users s' = gd_users s"
  by (auto simp: kill_hard_prolog_def bind_eq_Some_conv dest!: host_op_users kill_hard_users_reason)

lemma kill_hard_users_migr:
  "kill_hard_migr e j s = Some (k, s') \<Longrightarrow> gd_users s' = gd_users s"
  by (auto simp: kill_hard_migr_def bind_eq_Some_conv dest!: host_op_users kill_hard_users_prolog)

lemma kill_hard_users_em:
  "kill_hard_em e j s = Some (k, s') \<Longrightarrow> gd_users s' = gd_users s"
  by (auto simp: kill_hard_em_def bind_eq_Some_conv dest!: host_op_users)

lemma kill_hard_users_wrapper:
  "kill_hard_wrapper e j s = Some (k, s') \<Longrightarrow> gd_users s' = gd_users s"
  by (auto simp: kill_hard_wrapper_def bind_eq_Some_conv dest!: kill_hard_users_em)

lemma kill_hard_users_migr_cancel:
  "kill_hard_migr_cancel e j s = Some (k, s') \<Longrightarrow> gd_users s' = gd_users s"
  by (auto simp: kill_hard_migr_cancel_def bind_eq_Some_conv dest!: host_op_users kill_hard_users_em)

lemmas kill_hard_all = kill_hard_users kill_hard_users_reason kill_hard_users_prolog
  kill_hard_users_migr kill_hard_users_em kill_hard_users_wrapper kill_hard_users_migr_cancel

text \<open>
  A hard kill removes the job, whatever it was doing, but never gives its user's running job
  back: no counter \<open>running_jobs\<close> of any user changes. The soft way through the epilogs does
  give it back.
\<close>

lemma kill_hard_keeps_running:
  assumes "get_job s i = Some j" and "job_state j \<noteq> GW_JOB_STATE_LIMIT"
    and "gw_dm_kill_hard e (Some i) s = Some s'"
  shows "get_job s' i = None \<and> (\<forall>w. urun s' w = urun s w)"
proof -
  obtain k t where k: "s' = kill_free e i k t" "gd_users t = gd_users s"
    using assms
    by (cases "job_state j")
       (auto simp: gw_dm_kill_hard_def with_job_def bind_eq_Some_conv
          dest: kill_hard_all split: if_splits)
  then show ?thesis using kill_free_views(1,2) [of e i k t] by (simp add: urun_def get_user_def)
qed

end
