(* ===== verification/DM_Effects.thy ===== *)
theory DM_Effects
  imports DM_Leaks
begin

text \<open>
  What single operations of the dispatch manager do: the release of dependents, the lines of the
  scheduler, hold and release, the start of a job, the analysis of a wrapper's output, and two
  orders of events in which a kill goes wrong.
\<close>

section \<open>Releasing the dependents of a job\<close>

definition row_done :: "int \<Rightarrow> int list option \<Rightarrow> bool" where
  "row_done jid r = (case r of None \<Rightarrow> False | Some ds \<Rightarrow> \<forall>d\<in>set ds. d = jid \<or> d = -2)"

definition released :: "gw_job option \<Rightarrow> gw_job option" where
  "released r = map_option (\<lambda>j. if job_state j = GW_JOB_STATE_HOLD
     then set_state GW_JOB_STATE_PENDING j else j) r"

lemma dep_release_views:
  "gd_deps (dep_release e i s) = gd_deps s"
  "get_job (dep_release e i s) k = (if k = i then released (get_job s k) else get_job s k)"
proof -
  show "gd_deps (dep_release e i s) = gd_deps s"
    by (simp add: dep_release_def gw_job_set_state_def split: option.split)
  show "get_job (dep_release e i s) k = (if k = i then released (get_job s k) else get_job s k)"
    by (cases "get_job s i")
       (auto simp: dep_release_def gw_job_set_state_def released_def gw_frame)
qed

lemma dep_check_row_views:
  "length (gd_deps (dep_check_row e jid i s)) = length (gd_deps s)"
  "n \<noteq> i \<Longrightarrow> gd_deps (dep_check_row e jid i s) ! n = gd_deps s ! n"
  "i < length (gd_deps s) \<Longrightarrow> gd_deps (dep_check_row e jid i s) ! i =
     map_option (map (\<lambda>d. if d = jid then -2 else d)) (gd_deps s ! i)"
  "get_job (dep_check_row e jid i s) k =
     (if k = int i \<and> row_done jid (gd_deps s ! i) then released (get_job s k) else get_job s k)"
proof -
  show "length (gd_deps (dep_check_row e jid i s)) = length (gd_deps s)"
    "n \<noteq> i \<Longrightarrow> gd_deps (dep_check_row e jid i s) ! n = gd_deps s ! n"
    by (simp_all add: dep_check_row_def Let_def dep_release_views split: option.split prod.split)
  show "i < length (gd_deps s) \<Longrightarrow> gd_deps (dep_check_row e jid i s) ! i =
     map_option (map (\<lambda>d. if d = jid then -2 else d)) (gd_deps s ! i)"
  proof (cases "gd_deps s ! i")
    case (Some ds)
    assume i: "i < length (gd_deps s)"
    have "fst (dep_satisfy jid ds) = map (\<lambda>d. if d = jid then -2 else d) ds" by (rule dep_satisfy_map)
    then show ?thesis
      using Some i by (cases "dep_satisfy jid ds") (simp add: dep_check_row_def Let_def dep_release_views)
  qed (simp add: dep_check_row_def)
  have g: "get_job (s\<lparr>gd_deps := x\<rparr>) n = get_job s n" for x n by (simp add: get_job_def)
  show "get_job (dep_check_row e jid i s) k =
     (if k = int i \<and> row_done jid (gd_deps s ! i) then released (get_job s k) else get_job s k)"
  proof (cases "gd_deps s ! i")
    case (Some ds)
    have "snd (dep_satisfy jid ds) \<longleftrightarrow> (\<forall>d\<in>set ds. d = jid \<or> d = -2)" by (rule dep_satisfy_done)
    then show ?thesis
      using Some g
      by (cases "dep_satisfy jid ds") (auto simp: dep_check_row_def Let_def dep_release_views row_done_def)
  qed (simp add: dep_check_row_def row_done_def)
qed

lemma dep_check_fold:
  assumes "distinct xs" and "\<forall>i\<in>set xs. i < length (gd_deps s)"
  shows "get_job (fold (dep_check_row e jid) xs s) k =
      (if \<exists>i\<in>set xs. k = int i \<and> row_done jid (gd_deps s ! i) then released (get_job s k) else get_job s k)"
    and "length (gd_deps (fold (dep_check_row e jid) xs s)) = length (gd_deps s)"
    and "n < length (gd_deps s) \<Longrightarrow> gd_deps (fold (dep_check_row e jid) xs s) ! n =
      (if n \<in> set xs then map_option (map (\<lambda>d. if d = jid then -2 else d)) (gd_deps s ! n)
       else gd_deps s ! n)"
proof -
  have "get_job (fold (dep_check_row e jid) xs s) k =
      (if \<exists>i\<in>set xs. k = int i \<and> row_done jid (gd_deps s ! i) then released (get_job s k) else get_job s k)
    \<and> length (gd_deps (fold (dep_check_row e jid) xs s)) = length (gd_deps s)
    \<and> (n < length (gd_deps s) \<longrightarrow> gd_deps (fold (dep_check_row e jid) xs s) ! n =
      (if n \<in> set xs then map_option (map (\<lambda>d. if d = jid then -2 else d)) (gd_deps s ! n)
       else gd_deps s ! n))"
    using assms
  proof (induction xs arbitrary: s)
    case Nil
    then show ?case by simp
  next
    case (Cons x xs)
    let ?s = "dep_check_row e jid x s"
    have rows: "row_done jid (gd_deps ?s ! i) = row_done jid (gd_deps s ! i)" if "i \<in> set xs" for i
    proof -
      have "i \<noteq> x" using that Cons.prems(1) by auto
      then show ?thesis using dep_check_row_views(2) [of i x e jid s] by simp
    qed
    have len: "\<forall>i\<in>set xs. i < length (gd_deps ?s)" using Cons.prems(2) by (simp add: dep_check_row_views(1))
    have xn: "x \<notin> set xs" "x < length (gd_deps s)" using Cons.prems by auto
    note ih = Cons.IH [OF _ len]
    have d: "distinct xs" using Cons.prems(1) by simp
    note r = ih [OF d]
    have "get_job (fold (dep_check_row e jid) (x # xs) s) k =
      (if \<exists>i\<in>set (x # xs). k = int i \<and> row_done jid (gd_deps s ! i) then released (get_job s k)
       else get_job s k)"
      using r rows xn dep_check_row_views(4) [of e jid x s k] by auto
    moreover have "gd_deps (fold (dep_check_row e jid) (x # xs) s) ! n =
      (if n \<in> set (x # xs) then map_option (map (\<lambda>d. if d = jid then -2 else d)) (gd_deps s ! n)
       else gd_deps s ! n)" if "n < length (gd_deps s)"
      using r that xn dep_check_row_views(2) [of n x e jid s] dep_check_row_views(3) [OF xn(2), of e jid]
      by (cases "n = x") (auto simp: dep_check_row_views(1))
    ultimately show ?case using r by (simp add: dep_check_row_views(1))
  qed
  then show "get_job (fold (dep_check_row e jid) xs s) k =
      (if \<exists>i\<in>set xs. k = int i \<and> row_done jid (gd_deps s ! i) then released (get_job s k) else get_job s k)"
    "length (gd_deps (fold (dep_check_row e jid) xs s)) = length (gd_deps s)"
    "n < length (gd_deps s) \<Longrightarrow> gd_deps (fold (dep_check_row e jid) xs s) ! n =
      (if n \<in> set xs then map_option (map (\<lambda>d. if d = jid then -2 else d)) (gd_deps s ! n)
       else gd_deps s ! n)" by blast+
qed

text \<open>
  C30: when a job ends well, exactly the held jobs become pending whose dependencies are all
  satisfied with it, every other job is left as it is, and the job is checked off in every row.
  The rows of satisfied jobs stay in the matrix, so a job that its user holds later is released
  again by the next job that ends, whichever it is: its row is still satisfied.
\<close>

theorem dep_check_releases:
  "get_job (gw_job_pool_dep_check e jid s) k =
     (if 0 \<le> k \<and> nat k < length (gd_deps s) \<and> row_done jid (gd_deps s ! nat k)
      then released (get_job s k) else get_job s k) \<and>
   gd_deps (gw_job_pool_dep_check e jid s) =
     map (map_option (map (\<lambda>d. if d = jid then -2 else d))) (gd_deps s)"
proof -
  note f = dep_check_fold [where xs = "[0..<length (gd_deps s)]" and s = s and e = e and jid = jid]
  have ex: "(\<exists>i\<in>set [0..<length (gd_deps s)]. k = int i \<and> row_done jid (gd_deps s ! i)) \<longleftrightarrow>
      0 \<le> k \<and> nat k < length (gd_deps s) \<and> row_done jid (gd_deps s ! nat k)"
    by (auto intro: bexI [of _ "nat k"])
  have "gd_deps (gw_job_pool_dep_check e jid s) =
     map (map_option (map (\<lambda>d. if d = jid then -2 else d))) (gd_deps s)"
    by (rule nth_equalityI) (use f(2,3) in \<open>simp_all add: gw_job_pool_dep_check_def\<close>)
  then show ?thesis using f(1) [where k = k] ex by (simp add: gw_job_pool_dep_check_def)
qed

section \<open>The lines of the scheduler\<close>

lemma split_colon_app:
  assumes "CHR '':'' \<notin> set a" and "a \<noteq> []"
  shows "split_colon (a @ CHR '':'' # r) = (a, Some r)"
proof -
  have ne: "\<And>c. c \<in> set a \<Longrightarrow> c \<noteq> CHR '':''" using assms(1) by auto
  have "dropWhile (\<lambda>c. c = CHR '':'') (a @ CHR '':'' # r) = a @ CHR '':'' # r"
    using assms(2) ne by (cases a) auto
  then show ?thesis
    using ne by (simp add: split_colon_def Let_def takeWhile_append dropWhile_append)
qed

lemma dec_nat_chars: "c \<in> set (dec_nat n) \<Longrightarrow> is_digit c"
  using dec_nat_digits by blast

lemma dec_no_colon: "CHR '':'' \<notin> set (dec i)"
proof -
  have "\<not> is_digit (CHR '':'')" by (simp add: is_digit_def)
  then show ?thesis using dec_nat_chars by (auto simp: dec_def)
qed

lemma dec_not_Nil: "dec i \<noteq> []"
  using dec_hd [of i] by auto

text \<open>
  The resource \<open>host:queue:rank\<close> that the scheduler prints for a dispatch is read back by the
  listener as the same host, queue and rank, for every number and every queue name that is not
  empty and has no colon.
\<close>

lemma parse_resource_printed:
  assumes "queue \<noteq> []" and "CHR '':'' \<notin> set queue"
  shows "parse_resource (dec hid @ '':'' @ queue @ '':'' @ dec rank) = Some (hid, queue, rank)"
proof -
  have "split_colon (dec hid @ CHR '':'' # (queue @ CHR '':'' # dec rank)) =
      (dec hid, Some (queue @ CHR '':'' # dec rank))"
    by (rule split_colon_app [OF dec_no_colon dec_not_Nil])
  moreover have "split_colon (queue @ CHR '':'' # dec rank) = (queue, Some (dec rank))"
    by (rule split_colon_app [OF assms(2,1)])
  ultimately show ?thesis using assms(1) dec_not_Nil by (simp add: parse_resource_def atoi_dec)
qed

section \<open>Hold, release and the start of a job\<close>

text \<open>
  Holding a pending job and releasing it restores the job exactly: only the log, the answers to
  the client and the messages to the scheduler (removed from its list, then scheduled again)
  record what happened; no job, host, user or list of actions changes.
\<close>

lemma hold_release_restores:
  assumes "get_job s i = Some j" and "job_state j = GW_JOB_STATE_PENDING" and "job_id j = i"
  shows "\<exists>s1 s2. gw_dm_hold e (Some i) s = Some s1 \<and> gw_dm_release e (Some i) s1 = Some s2 \<and>
     map_option job_state (get_job s1 i) = Some GW_JOB_STATE_HOLD \<and>
     gd_jobs s2 = gd_jobs s \<and> gd_hosts s2 = gd_hosts s \<and> gd_users s2 = gd_users s \<and>
     dm_am s2 = dm_am s \<and> tm_am s2 = tm_am s \<and> em_am s2 = em_am s \<and>
     sched_out s2 = sched_out s @ [JOB_DEL i, JOB_SCHEDULE i (array_id j) (user_id j) GW_REASON_NONE] \<and>
     rm_am s2 = rm_am s @ [(RM_HOLD_SUCCESS, ARG_ID i), (RM_RELEASE_SUCCESS, ARG_ID i)]"
proof -
  let ?h = "set_state GW_JOB_STATE_HOLD j"
  let ?s1 = "send (JOB_DEL i) (trigger_rm RM_HOLD_SUCCESS (ARG_ID i) (log_state e ?h (put i ?h s)))"
  let ?p = "set_state GW_JOB_STATE_PENDING ?h"
  let ?s2 = "send (JOB_SCHEDULE i (array_id j) (user_id j) GW_REASON_NONE)
       (trigger_rm RM_RELEASE_SUCCESS (ARG_ID i) (log_state e ?p (put i ?p ?s1)))"
  have p: "?p = j" using assms(2) by (simp add: set_state_def)
  have h: "gw_dm_hold e (Some i) s = Some ?s1"
    using assms by (simp add: gw_dm_hold_def with_job_def gw_job_set_state_def)
  have g: "get_job ?s1 i = Some ?h" using assms(1) by (simp add: gw_frame)
  have r: "gw_dm_release e (Some i) ?s1 = Some ?s2"
    using g by (simp add: gw_dm_release_def with_job_def gw_job_set_state_def)
  have rng: "slot_put (slot_put (pool (gd_jobs s)) i x) i (Some j) = pool (gd_jobs s)" for x
    using assms(1)
    by (auto simp: get_job_def gw_job_pool_get_def slot_put_def slot_get_def list_update_same_conv
        split: if_splits)
  have "gd_jobs ?s2 = gd_jobs s" by (simp add: p put_def put_job_def rng)
  moreover have "rm_am ?s2 = rm_am s @ [(RM_HOLD_SUCCESS, ARG_ID i), (RM_RELEASE_SUCCESS, ARG_ID i)]"
    "sched_out ?s2 = sched_out s @ [JOB_DEL i, JOB_SCHEDULE i (array_id j) (user_id j) GW_REASON_NONE]"
    by (simp_all add: send_def trigger_rm_def log_state_def put_def)
  ultimately show ?thesis
    using h r g by (intro exI [of _ ?s1] exI [of _ ?s2]) simp
qed

text \<open>
  C32: the dispatch of a pending job, when it succeeds, puts a record of the chosen host at the head
  of its history, charges that host with one running job and the slots the job asked for and its user
  with one running job, asks for the prolog, and charges no other host or user.
\<close>

theorem dispatch_takes_host:
  assumes "get_job s i = Some j" and "job_id j = i" and "job_state j = GW_JOB_STATE_PENDING"
    and "gw_dm_dispatch_job e i hid queue rank s = Some (s1, 0)"
  shows "(\<exists>k r. get_job s1 i = Some k \<and> history k = r # history j \<and> h_host r = Some hid) \<and>
     (\<forall>h. rjobs s1 h = rjobs s h + (if h = hid then 1 else 0) \<and>
          uslots s1 h = uslots s h + (if h = hid then np (template j) else 0)) \<and>
     (\<forall>w. urun s1 w = urun s w + (if w = user_id j then 1 else 0)) \<and>
     dm_am s1 = dm_am (trigger_dm DM_STATE_PROLOG (ARG_ID i) s)"
proof -
  obtain ho where ho: "get_host s hid = Some ho"
    using assms by (cases "get_host s hid") (simp_all add: gw_dm_dispatch_job_def)
  obtain k rc where d: "dispatch_history e hid ho queue rank j s = (k, rc)" by (metis surj_pair)
  have rc: "rc \<noteq> -1"
    using assms ho d by (auto simp: gw_dm_dispatch_job_def split: if_splits)
  obtain r where r: "h_host r = Some hid" "k = j\<lparr>history := r # history j\<rparr>" "get_user s (user_id j) \<noteq> None"
    using dispatch_history_cases [OF d] rc by auto
  have g: "get_host (put i k s) hid \<noteq> None" using ho by (simp add: gw_frame)
  have s1: "s1 = trigger_dm DM_STATE_PROLOG (ARG_ID i) (user_op (gw_user_pool_inc_running_jobs (user_id j) 1)
            (host_upd (gw_host_inc_slots_nb (np (template j))) hid (put i k s)))"
    using assms ho d rc r(2) g
    by (simp add: gw_dm_dispatch_job_def host_inc_slots_def host_op_upd)
  have u: "urun (user_op (gw_user_pool_inc_running_jobs x 1) t) w = urun t w + (if w = x then 1 else 0)"
    if "get_user t x \<noteq> None" for t w x
    using that by (auto simp: gw_user_pool_inc_running_jobs_def view_defs user_op_update user_update_get
        split: option.split)
  have "get_job s1 i = Some k" using assms(1) g by (simp add: s1 gw_frame)
  moreover have "rjobs s1 h = rjobs s h + (if h = hid then 1 else 0)"
    "uslots s1 h = uslots s h + (if h = hid then np (template j) else 0)" for h
    using g by (simp_all add: s1 gw_frame host_counters)
  moreover have "urun s1 w = urun s w + (if w = user_id j then 1 else 0)" for w
    using u [of "host_upd (gw_host_inc_slots_nb (np (template j))) hid (put i k s)" "user_id j" w] g r(3)
    by (simp add: s1 gw_frame)
  moreover have "dm_am s1 = dm_am (trigger_dm DM_STATE_PROLOG (ARG_ID i) s)"
    using host_upd_other(3) [OF g] by (simp add: s1 trigger_dm_def)
  ultimately show ?thesis using r by auto
qed

theorem dispatch_takes_host_witness:
  "\<exists>s1. gw_dm_dispatch_job demo_env 0 0 (Some ''q'') 1 demo_submitted = Some (s1, 0) \<and>
     rjobs s1 0 = rjobs demo_submitted 0 + 1"
proof -
  have "map_option (\<lambda>j. (job_id j, job_state j)) (get_job demo_submitted 0) = Some (0, GW_JOB_STATE_PENDING)"
    by code_simp
  then obtain j where j: "get_job demo_submitted 0 = Some j" "job_id j = 0" "job_state j = GW_JOB_STATE_PENDING"
    by auto
  have "map_option snd (gw_dm_dispatch_job demo_env 0 0 (Some ''q'') 1 demo_submitted) = Some 0" by code_simp
  then obtain s1 where s1: "gw_dm_dispatch_job demo_env 0 0 (Some ''q'') 1 demo_submitted = Some (s1, 0)" by auto
  from dispatch_takes_host [OF j s1] s1 show ?thesis by auto
qed

section \<open>The end of the wrapper\<close>

text \<open>What the analysis finds: the reason it records or the exit code, and its result.\<close>

definition starts_with :: "char \<Rightarrow> string \<Rightarrow> bool" where
  "starts_with c s \<longleftrightarrow> s \<noteq> [] \<and> hd s = c"

lemma parse_wrapper_spec:
  assumes "history j = h # hs" and "gw_parse_file (wrapper_stdout e) ''EXIT_STATUS'' = (rc, code)"
  shows "\<exists>k rt. gw_dm_epilog_parse_wrapper_std e j = Some (k, rt) \<and> job_state k = job_state j \<and>
    (case (if rc = -1 then None else code) of
       None \<Rightarrow> rt = -1 \<and> reason (hd (history k)) = GW_REASON_EXECUTION_ERROR
     | Some c \<Rightarrow>
         if starts_with (CHR ''S'') c then rt = 1 \<and> reason (hd (history k)) = GW_REASON_SELF_MIGRATION
         else if starts_with (CHR ''P'') c then rt = 1 \<and> reason (hd (history k)) = GW_REASON_PERFORMANCE
         else rt = 0 \<and> exit_code k = atoi c)"
proof (cases "if rc \<noteq> -1 then code else None")
  case None
  then show ?thesis using assms
    by (auto simp: gw_dm_epilog_parse_wrapper_std_def upd_top_def split: if_splits)
next
  case (Some c)
  then have c: "rc \<noteq> -1" "code = Some c" by (auto split: if_splits)
  have nul: "nul \<noteq> CHR ''S''" "nul \<noteq> CHR ''P''" by (simp_all add: nul_def)
  let ?f = "\<lambda>k. snd (gw_parse_file (wrapper_stdout e) k)"
  show ?thesis
  proof (cases "starts_with (CHR ''S'') c")
    case True
    then show ?thesis using assms c
      by (cases "?f ''NEW_REQS''"; cases "?f ''NEW_RANK''")
         (simp_all add: gw_dm_epilog_parse_wrapper_std_def upd_top_def Let_def starts_with_def)
  next
    case False
    then show ?thesis using assms c nul
      by (cases "starts_with (CHR ''P'') c")
         (auto simp: gw_dm_epilog_parse_wrapper_std_def upd_top_def Let_def starts_with_def)
  qed
qed

text \<open>
  C31: when the output of a wrapper has been fetched, what happens next depends on the line
  \<open>EXIT_STATUS\<close>: a number ends the job normally, with that exit code, through its epilog; a code
  starting with \<open>S\<close> or \<open>P\<close> is a request of the job itself to migrate or a performance loss and
  leads to the epilog of a restart, as does an output without the line, which counts as an error
  of the execution.
\<close>

theorem epilog_std_outcome:
  assumes "get_job s i = Some j" and "job_state j = GW_JOB_STATE_EPILOG_STD" and "history j = h # hs"
    and "gw_parse_file (wrapper_stdout e) ''EXIT_STATUS'' = (rc, code)"
  shows "\<exists>s' k. gw_dm_epilog_done_cb e (Some i) s = Some s' \<and> get_job s' i = Some k \<and>
     (case (if rc = -1 then None else code) of
        None \<Rightarrow> reason (hd (history k)) = GW_REASON_EXECUTION_ERROR \<and>
          dm_am s' = dm_am (trigger_dm DM_STATE_EPILOG_RESTART (ARG_ID i) s)
      | Some c \<Rightarrow>
          if starts_with (CHR ''S'') c then reason (hd (history k)) = GW_REASON_SELF_MIGRATION \<and>
            dm_am s' = dm_am (trigger_dm DM_STATE_EPILOG_RESTART (ARG_ID i) s)
          else if starts_with (CHR ''P'') c then reason (hd (history k)) = GW_REASON_PERFORMANCE \<and>
            dm_am s' = dm_am (trigger_dm DM_STATE_EPILOG_RESTART (ARG_ID i) s)
          else exit_code k = atoi c \<and> dm_am s' = dm_am (trigger_dm DM_STATE_EPILOG (ARG_ID i) s))"
proof -
  obtain k rt where k: "gw_dm_epilog_parse_wrapper_std e j = Some (k, rt)"
    "case (if rc = -1 then None else code) of
       None \<Rightarrow> rt = -1 \<and> reason (hd (history k)) = GW_REASON_EXECUTION_ERROR
     | Some c \<Rightarrow>
         if starts_with (CHR ''S'') c then rt = 1 \<and> reason (hd (history k)) = GW_REASON_SELF_MIGRATION
         else if starts_with (CHR ''P'') c then rt = 1 \<and> reason (hd (history k)) = GW_REASON_PERFORMANCE
         else rt = 0 \<and> exit_code k = atoi c"
    using parse_wrapper_spec [OF assms(3,4)] by blast
  let ?s = "trigger_dm (if rt = 0 then DM_STATE_EPILOG else DM_STATE_EPILOG_RESTART) (ARG_ID i) (put i k s)"
  have "gw_dm_epilog_done_cb e (Some i) s = Some ?s"
    using assms(1,2) k(1)
    by (simp add: gw_dm_epilog_done_cb_def with_job_def plain_epilog_def epilog_exit_def Let_def put_put)
  moreover have "get_job ?s i = Some k" using assms(1) by (simp add: gw_frame)
  moreover have "dm_am ?s = dm_am (trigger_dm (if rt = 0 then DM_STATE_EPILOG
      else DM_STATE_EPILOG_RESTART) (ARG_ID i) s)" by (simp add: trigger_dm_def)
  ultimately show ?thesis
    using k(2) by (intro exI [of _ ?s] exI [of _ k]) (auto split: option.splits if_splits)
qed

text \<open>The state of the example: the demo job after its wrapper.\<close>

definition demo_ended :: gwd where
  "demo_ended = demo_dispatched\<lparr>gd_jobs := (gd_jobs demo_dispatched)\<lparr>pool :=
     map (map_option (\<lambda>j. j\<lparr>job_state := GW_JOB_STATE_EPILOG_STD\<rparr>)) (pool (gd_jobs demo_dispatched))\<rparr>\<rparr>"

theorem epilog_std_outcome_witness:
  "\<exists>s' k. gw_dm_epilog_done_cb (demo_env\<lparr>wrapper_stdout := Some ''EXIT_STATUS=137''\<rparr>) (Some 0) demo_ended
     = Some s' \<and> get_job s' 0 = Some k \<and> exit_code k = 137"
proof -
  have "map_option (\<lambda>j. (job_state j, length (history j))) (get_job demo_ended 0) =
      Some (GW_JOB_STATE_EPILOG_STD, 1)" by code_simp
  then obtain j h where j: "get_job demo_ended 0 = Some j" "job_state j = GW_JOB_STATE_EPILOG_STD"
    "history j = h # []" by (auto simp: length_Suc_conv)
  let ?e = "demo_env\<lparr>wrapper_stdout := Some ''EXIT_STATUS=137''\<rparr>"
  have w: "wrapper_stdout ?e = Some ''EXIT_STATUS=137''" by simp
  have p: "gw_parse_file (Some ''EXIT_STATUS=137'') ''EXIT_STATUS'' = (1, Some ''137'')"
    "atoi ''137'' = 137" "\<not> starts_with (CHR ''S'') ''137''" "\<not> starts_with (CHR ''P'') ''137''"
    by code_simp+
  have f: "gw_parse_file (wrapper_stdout ?e) ''EXIT_STATUS'' = (1, Some ''137'')"
    unfolding w by (rule p(1))
  obtain s' k where "gw_dm_epilog_done_cb ?e (Some 0) demo_ended = Some s'" "get_job s' 0 = Some k"
    "exit_code k = atoi ''137''"
    using epilog_std_outcome [where e = ?e, OF j f] by (simp add: p(3,4)) blast
  then show ?thesis unfolding p(2) by blast
qed

end
