(* ===== verification/DM_Files.thy ===== *)
theory DM_Files
  imports DM_Effects
begin

text \<open>
  The lists of files of all epilogs: every handler that starts one fills its list exactly with the files it has to
  fetch, and asks the transfer manager for them.
\<close>

text \<open>What each epilog fetches, in order, and the last of the files whose failure makes the epilog fail.\<close>

definition restart_part :: "gw_job \<Rightarrow> out_desc list" where
  "restart_part job = (if tm_state job = GW_TM_STATE_CHECKPOINT then [] else restart_list job)"

definition wrapper_part :: "bool \<Rightarrow> gw_job \<Rightarrow> out_desc list" where
  "wrapper_part wbe job = (if wbe then wrapper_list job else [])"

definition epilog_list :: "dm_action \<Rightarrow> bool \<Rightarrow> gw_job \<Rightarrow> (int \<times> out_desc list) option" where
  "epilog_list a wbe job =
     (let n = length (output_files (template job)) in
      case a of
        DM_STATE_EPILOG_STD \<Rightarrow> Some (0, wrapper_list job)
      | DM_STATE_EPILOG \<Rightarrow> Some (std_limit job (int n - 1) n, output_list job @ std_list job)
      | DM_STATE_EPILOG_RESTART \<Rightarrow> Some (std_limit job (int n - 1) n, output_list job @ std_list job @ restart_part job)
      | DM_STATE_STOP_EPILOG \<Rightarrow> Some (std_limit job (-1) 0, std_list job @ restart_part job)
      | DM_STATE_MIGR_EPILOG \<Rightarrow> Some (std_limit job (-1) 0, std_list job)
      | DM_STATE_KILL_EPILOG \<Rightarrow> Some (0, wrapper_part wbe job)
      | DM_STATE_EPILOG_FAIL \<Rightarrow> Some (0, wrapper_part wbe job)
      | _ \<Rightarrow> None)"

definition listed :: "gw_job \<Rightarrow> int \<Rightarrow> out_desc list \<Rightarrow> gw_xfrs" where
  "listed job l ds = \<lparr>failure_limit = l, xfr_list = map (desc_out (number_of_retries (template job))) ds\<rparr>"

lemma filled_listed: "snd (out_filled (number_of_retries (template job)) l ds 0) = listed job l ds"
  by (simp add: out_filled_def listed_def)

section \<open>Entering the state changes nothing that the lists depend on\<close>

definition same_files :: "gw_job \<Rightarrow> gw_job \<Rightarrow> bool" where
  "same_files j k \<longleftrightarrow> template k = template j \<and> directory k = directory j \<and> restarted k = restarted j \<and>
     tm_state k = tm_state j \<and> map h_host (history k) = map h_host (history j)"

lemma same_files_lists:
  assumes "same_files j k"
  shows "std_list k = std_list j" "output_list k = output_list j" "restart_part k = restart_part j" "restart_list k = restart_list j"
    "wrapper_list k = wrapper_list j" "std_limit k = std_limit j" "std_xfrs k = std_xfrs j" "listed k = listed j"
    "template k = template j" "tm_state k = tm_state j" "wrapper_part w k = wrapper_part w j"
  using assms
  by (simp_all add: same_files_def std_list_def output_list_def restart_part_def restart_list_def wrapper_list_def std_limit_def
      std_xfrs_def listed_def job_file_def wrapper_part_def fun_eq_iff Let_def)

lemma same_files_wrapper:
  assumes "same_files j k"
  shows "gw_job_is_wrapper_based hp k = gw_job_is_wrapper_based hp j"
proof -
  have "map h_host (history k) = map h_host (history j)" "template k = template j" using assms by (simp_all add: same_files_def)
  then show ?thesis by (cases "history j"; cases "history k") (simp_all add: gw_job_is_wrapper_based_def)
qed

lemma same_files_state [simp]: "same_files j (set_state st k) = same_files j k"
  by (simp add: same_files_def set_state_def)

lemma same_files_refl [simp]: "same_files j j"
  by (simp add: same_files_def)

lemma upd_top_files:
  assumes "history k \<noteq> []" and "same_files j k"
  shows "\<exists>l. upd_top (set_stat st v) k = Some l \<and> same_files j l"
  using assms by (cases "history k") (auto simp: upd_top_def same_files_def)

lemma upd_next_files:
  assumes "2 \<le> length (history k)" and "same_files j k"
  shows "\<exists>l. upd_next (set_stat st v) k = Some l \<and> same_files j l"
proof -
  obtain h1 h2 hs where "history k = h1 # h2 # hs" using assms(1) by (metis Suc_le_length_iff numeral_2_eq_2)
  then show ?thesis using assms(2) by (simp add: upd_next_def same_files_def)
qed

lemma log_state_parts [simp]:
  "gd_hosts (log_state e j s) = gd_hosts s" "tm_am (log_state e j s) = tm_am s" "get_job (log_state e j s) i = get_job s i"
  by (simp_all add: log_state_def get_job_def)

lemma history_state [simp]: "history (set_state st j) = history j"
  by (simp add: set_state_def)

lemma enter_epilog_files:
  assumes "history j \<noteq> []"
  shows "\<exists>k t. enter_epilog e st j s = Some (k, t) \<and> same_files j k \<and> gd_hosts t = gd_hosts s \<and> tm_am t = tm_am s \<and>
    (\<forall>i. get_job t i = get_job s i)"
proof (cases "job_state j = st")
  case False
  have "history (set_state st j) \<noteq> []" "same_files j (set_state st j)" using assms by simp_all
  from upd_top_files [OF this] obtain l where "upd_top (set_stat EPILOG_START_TIME (now e)) (set_state st j) = Some l" "same_files j l"
    by blast
  then show ?thesis using False by (simp add: enter_epilog_def gw_job_set_state_def)
qed (simp add: enter_epilog_def)

section \<open>The lists\<close>

lemma std_filled:
  "gw_dm_epilog_std_files job (epilog_xfrs (std_xfrs job) job) =
     Some (out_filled (number_of_retries (template job)) (std_limit job (-1) 0) (std_list job) 0)"
  using std_files_filled0 [of job _ "-1" "[]"] by (simp add: epilog_xfrs_filled)

lemma stop_filled:
  assumes "None \<notin> set (restart_files (template job))"
  shows "gw_dm_epilog_std_files job (epilog_xfrs (std_xfrs job + (if tm_state job = GW_TM_STATE_CHECKPOINT then 0
      else length (restart_files (template job)))) job) \<bind>
     (\<lambda>ix. if tm_state job = GW_TM_STATE_CHECKPOINT then Some ix else gw_dm_epilog_restart_files job ix) =
   Some (out_filled (number_of_retries (template job)) (std_limit job (-1) 0) (std_list job @ restart_part job) 0)"
  using std_filled [of job] std_files_filled [of job _ "-1" "[]"] restart_files_filled [OF assms]
  by (simp add: epilog_xfrs_filled restart_part_def)

lemma full_filled:
  assumes "\<forall>f\<in>set (output_files (template job)). fst f \<noteq> None"
  shows "gw_dm_epilog_output_files job (epilog_xfrs (std_xfrs job + length (output_files (template job))) job) \<bind> gw_dm_epilog_std_files job =
    Some (out_filled (number_of_retries (template job))
      (std_limit job (int (length (output_files (template job))) - 1) (length (output_files (template job)))) (output_list job @ std_list job) 0)"
proof -
  have "length (output_list job) = length (output_files (template job))" by (simp add: output_list_def)
  then show ?thesis
    using output_files_filled [OF assms, of "std_xfrs job"] std_files_filled0 [of job _ _ "output_list job"]
    by (simp add: add.commute)
qed

lemma wrapper_filled:
  assumes "gw_job_is_wrapper_based (gd_hosts s) job = Some wbe"
  shows "wrapper_output_xfrs s job = Some (listed job 0 (wrapper_part wbe job))"
proof (cases wbe)
  case True
  then show ?thesis using assms filled_listed [of job 0 "wrapper_list job"]
    by (simp add: wrapper_output_xfrs_def wrapper_files_filled wrapper_part_def case_prod_beta)
next
  case False
  then show ?thesis using assms
    by (simp add: wrapper_output_xfrs_def wrapper_part_def gw_xfr_destroy_def listed_def)
qed

text \<open>The job with its list, and the request to the transfer manager.\<close>

definition started :: "int \<Rightarrow> gw_xfrs \<Rightarrow> gwd \<Rightarrow> gwd option \<Rightarrow> bool" where
  "started i x s r \<longleftrightarrow> (\<exists>s' k. r = Some s' \<and> get_job s' i = Some k \<and> xfrs k = x \<and> tm_am s' = tm_am s @ [(TM_EPILOG, i)])"

lemma started_signal:
  assumes "get_job t i = Some j" and "tm_am t = tm_am s"
  shows "started i x s (Some (epilog_signal i k x t))"
  using assms view_put(1) [OF assms(1), of "k\<lparr>xfrs := x\<rparr>" i]
  by (simp add: started_def epilog_signal_def trigger_tm_def get_job_def put_def)

lemma filled_pair: "out_filled (number_of_retries (template job)) l ds 0 = (length ds, listed job l ds)"
  by (simp add: out_filled_def listed_def)

section \<open>The handlers\<close>

lemma std_started:
  assumes g: "get_job s i = Some j" and h: "history j \<noteq> []"
  shows "started i (listed j 0 (wrapper_list j)) s (gw_dm_epilog_std e (Some i) s)"
proof -
  obtain k t where k: "enter_epilog e GW_JOB_STATE_EPILOG_STD j s = Some (k, t)" "same_files j k" "tm_am t = tm_am s" "get_job t i = Some j"
    using enter_epilog_files [OF h, of e GW_JOB_STATE_EPILOG_STD s] g by auto
  show ?thesis using g k started_signal [OF k(4,3)]
    by (simp add: gw_dm_epilog_std_def with_job_def wrapper_files_filled filled_pair same_files_lists [OF k(2)])
qed

lemma stop_started:
  assumes g: "get_job s i = Some j" and h: "history j \<noteq> []" and r: "None \<notin> set (restart_files (template j))"
  shows "started i (listed j (std_limit j (-1) 0) (std_list j @ restart_part j)) s (gw_dm_stop_epilog e (Some i) s)"
proof -
  obtain k t where k: "enter_epilog e GW_JOB_STATE_STOP_EPILOG j s = Some (k, t)" "same_files j k" "tm_am t = tm_am s" "get_job t i = Some j"
    using enter_epilog_files [OF h, of e GW_JOB_STATE_STOP_EPILOG s] g by auto
  note same = same_files_lists [OF k(2)]
  have "None \<notin> set (restart_files (template k))" using r same by simp
  from stop_filled [OF this] show ?thesis using g k started_signal [OF k(4,3)]
    by (simp add: gw_dm_stop_epilog_def with_job_def filled_pair same Let_def Option.bind_assoc [symmetric] del: Option.bind_assoc)
qed

lemma wrapper_started:
  assumes g: "get_job s i = Some j" and h: "history j \<noteq> []" and w: "gw_job_is_wrapper_based (gd_hosts s) j = Some wbe"
  shows "started i (listed j 0 (wrapper_part wbe j)) s (gw_dm_kill_epilog e (Some i) s)"
    "started i (listed j 0 (wrapper_part wbe j)) s (gw_dm_epilog_fail e (Some i) s)"
proof -
  have "started i (listed j 0 (wrapper_part wbe j)) s (do {
      (job, s) \<leftarrow> enter_epilog e st j s; x \<leftarrow> wrapper_output_xfrs s job; Some (epilog_signal i job x s) })" for st
  proof -
    obtain k t where k: "enter_epilog e st j s = Some (k, t)" "same_files j k" "tm_am t = tm_am s" "get_job t i = Some j"
      "gd_hosts t = gd_hosts s"
      using enter_epilog_files [OF h, of e st s] g by auto
    have "gw_job_is_wrapper_based (gd_hosts t) k = Some wbe" using w k(5) same_files_wrapper [OF k(2)] by simp
    from wrapper_filled [OF this] show ?thesis using k started_signal [OF k(4,3)] by (simp add: same_files_lists [OF k(2)])
  qed
  then show "started i (listed j 0 (wrapper_part wbe j)) s (gw_dm_kill_epilog e (Some i) s)"
    "started i (listed j 0 (wrapper_part wbe j)) s (gw_dm_epilog_fail e (Some i) s)"
    using g by (simp_all add: gw_dm_kill_epilog_def gw_dm_epilog_fail_def with_job_def)
qed

lemma migr_started:
  assumes g: "get_job s i = Some j" and h: "2 \<le> length (history j)"
  shows "started i (listed j (std_limit j (-1) 0) (std_list j)) s (gw_dm_migr_epilog e (Some i) s)"
proof (cases "job_state j = GW_JOB_STATE_MIGR_EPILOG")
  case True
  then show ?thesis using g started_signal [OF g refl] std_filled [of j]
    by (simp add: gw_dm_migr_epilog_def with_job_def filled_pair)
next
  case False
  obtain l where l: "upd_next (set_stat EPILOG_START_TIME (now e)) (set_state GW_JOB_STATE_MIGR_EPILOG j) = Some l" "same_files j l"
    using upd_next_files [of "set_state GW_JOB_STATE_MIGR_EPILOG j" j] h by auto
  then show ?thesis using False g started_signal [of "log_state e (set_state GW_JOB_STATE_MIGR_EPILOG j) s" i j s] std_filled [of l]
    by (simp add: gw_dm_migr_epilog_def with_job_def gw_job_set_state_def filled_pair same_files_lists [OF l(2)])
qed

lemma epilog_started:
  assumes g: "get_job s i = Some j" and h: "history j \<noteq> []" and o: "\<forall>f\<in>set (output_files (template j)). fst f \<noteq> None"
  shows "started i (listed j (std_limit j (int (length (output_files (template j))) - 1) (length (output_files (template j))))
      (output_list j @ std_list j)) s (gw_dm_epilog e (Some i) s)"
proof -
  let ?k = "if job_state j \<noteq> GW_JOB_STATE_EPILOG_STD \<and> job_state j \<noteq> GW_JOB_STATE_EPILOG
     then upd_top (set_stat EPILOG_START_TIME (now e)) j else Some j"
  obtain k where k: "?k = Some k" "same_files j k"
    using upd_top_files [OF h, of j] by (cases "job_state j \<noteq> GW_JOB_STATE_EPILOG_STD \<and> job_state j \<noteq> GW_JOB_STATE_EPILOG") auto
  obtain l t where l: "(if job_state k \<noteq> GW_JOB_STATE_EPILOG then gw_job_set_state e GW_JOB_STATE_EPILOG k s else (k, s)) = (l, t)"
    "same_files j l" "tm_am t = tm_am s" "get_job t i = Some j"
    using k(2) g by (cases "job_state k = GW_JOB_STATE_EPILOG") (auto simp: gw_job_set_state_def)
  note same = same_files_lists [OF l(2)]
  have "\<forall>f\<in>set (output_files (template l)). fst f \<noteq> None" using o same by simp
  note full = full_filled [OF this]
  have "gw_dm_epilog e (Some i) s = (do {
      (i', x) \<leftarrow> (gw_dm_epilog_output_files l (epilog_xfrs (std_xfrs l + length (output_files (template l))) l) \<bind> gw_dm_epilog_std_files l);
      Some (epilog_signal i l x t) })"
    using g k(1) l(1) by (simp only: gw_dm_epilog_def with_job_def option.case prod.case Let_def Option.bind.bind_lunit Option.bind_assoc)
  then show ?thesis using started_signal [OF l(4,3)] unfolding full by (simp add: filled_pair same)
qed

lemma restart_started:
  assumes g: "get_job s i = Some j" and o: "\<forall>f\<in>set (output_files (template j)). fst f \<noteq> None"
    and r: "None \<notin> set (restart_files (template j))"
  shows "started i (listed j (std_limit j (int (length (output_files (template j))) - 1) (length (output_files (template j))))
      (output_list j @ std_list j @ restart_part j)) s (gw_dm_epilog_restart e (Some i) s)"
proof -
  obtain l t where l: "(if job_state j \<noteq> GW_JOB_STATE_EPILOG_RESTART then gw_job_set_state e GW_JOB_STATE_EPILOG_RESTART j s else (j, s)) = (l, t)"
    "same_files j l" "tm_am t = tm_am s" "get_job t i = Some j"
    using g by (cases "job_state j = GW_JOB_STATE_EPILOG_RESTART") (auto simp: gw_job_set_state_def)
  note same = same_files_lists [OF l(2)]
  have n: "length (output_list l) = length (output_files (template l))" by (simp add: output_list_def)
  have "epilog_restart_xfrs l = Some (length (output_list l @ std_list l @ restart_part l),
      listed l (std_limit l (int (length (output_files (template l))) - 1) (length (output_files (template l)))) (output_list l @ std_list l @ restart_part l))"
    using epilog_restart_spec [of l] o r same n by (simp add: listed_def restart_part_def Let_def)
  then show ?thesis using g l(1) started_signal [OF l(4,3)] by (simp add: gw_dm_epilog_restart_def with_job_def same)
qed

text \<open>
  C34: every epilog fetches exactly its files. For each of the seven actions that start an epilog, on a job with a history (of two
  records for a migration) and a template whose files have names, the handler succeeds, leaves in the job the list of
  precisely the files that this epilog fetches, in order, with the number of the last one whose failure makes the epilog
  fail, and asks for their transfer; so no list is written outside its array, and none has an entry that is not filled.
\<close>

theorem epilog_files_exact:
  assumes "get_job s i = Some j" and "epilog_list a wbe j = Some (l, ds)" and "gw_job_is_wrapper_based (gd_hosts s) j = Some wbe"
    and "\<forall>f\<in>set (output_files (template j)). fst f \<noteq> None" and "None \<notin> set (restart_files (template j))"
    and "history j \<noteq> []" and "a = DM_STATE_MIGR_EPILOG \<longrightarrow> 2 \<le> length (history j)"
  shows "\<exists>s' k. dm_handler e a (ARG_ID i) s = Some s' \<and> get_job s' i = Some k \<and>
     xfrs k = \<lparr>failure_limit = l, xfr_list = map (desc_out (number_of_retries (template j))) ds\<rparr> \<and>
     tm_am s' = tm_am s @ [(TM_EPILOG, i)]"
proof -
  have "started i (listed j l ds) s (dm_handler e a (ARG_ID i) s)"
    using assms(2,7) std_started [OF assms(1,6)] stop_started [OF assms(1,6,5)] wrapper_started [OF assms(1,6,3)]
      migr_started [OF assms(1)] epilog_started [OF assms(1,6,4)] restart_started [OF assms(1,4,5)]
    by (cases a) (auto simp: epilog_list_def Let_def dm_handler_def arg_id_def)
  then show ?thesis by (auto simp: started_def listed_def)
qed

definition demo_epilog_job :: gw_job where
  "demo_epilog_job = (gw_job_init 0 0)\<lparr>template := zero_template\<lparr>
     output_files := [(Some ''out'', None)], stdout_file := Some ''o''\<rparr>,
     history := [history_record (env_hist demo_env) 0 (gw_host_init ''node'' 0 1 ''em'' ''tm'' ''im'') 1 None None 0 ''tm'' ''em'']\<rparr>"

theorem epilog_files_exact_witness:
  "\<exists>s' k. dm_handler demo_env DM_STATE_EPILOG (ARG_ID 0) (put 0 demo_epilog_job demo_submitted) = Some s' \<and> get_job s' 0 = Some k \<and>
     map src_url (xfr_list (xfrs k)) = [Some ''out'', Some ''stdout.execution''] \<and> failure_limit (xfrs k) = 1"
proof -
  let ?s = "put 0 demo_epilog_job demo_submitted"
  obtain j0 where "get_job demo_submitted 0 = Some j0"
  proof -
    have "\<not> Option.is_none (get_job demo_submitted 0)" by code_simp
    then show thesis using that by (auto simp: Option.is_none_def)
  qed
  from view_put(1) [OF this] have g: "get_job ?s 0 = Some demo_epilog_job" by simp
  have l: "epilog_list DM_STATE_EPILOG False demo_epilog_job = Some (1, [(''out'', None), (''stdout.execution'', Some ''o'')])"
    by (simp add: epilog_list_def demo_epilog_job_def zero_template_def output_list_def std_list_def std_limit_def Let_def)
  have "gw_job_is_wrapper_based (gd_hosts ?s) demo_epilog_job = Some False" by code_simp
  moreover have "\<forall>f\<in>set (output_files (template demo_epilog_job)). fst f \<noteq> None" "None \<notin> set (restart_files (template demo_epilog_job))"
    "history demo_epilog_job \<noteq> []"
    by (simp_all add: demo_epilog_job_def zero_template_def)
  ultimately show ?thesis
    using epilog_files_exact [OF g l, of demo_env] by (auto simp: desc_out_def xfr_out_def)
qed

end
