(* ===== verification/SCH_Float.thy ===== *)
theory SCH_Float
  imports Complex_Main
begin

text \<open>
  The C types \<open>float\<close> and \<open>double\<close>, in which the scheduler (\<open>src/scheduler\<close>) computes its priorities.
  A value is not a number, an infinity, or a sign and a magnitude, so that zero has a sign, as in
  IEEE 754. The accuracy of an operation is a parameter: a rounding takes the exact magnitude to
  the one of the type, or to \<open>None\<close> on overflow; nothing below depends on a particular one.
\<close>

datatype flt = NaN | Inf bool | Fin bool rat

type_synonym rounding = "rat \<Rightarrow> rat option"

definition mk_flt :: "rounding \<Rightarrow> bool \<Rightarrow> rat \<Rightarrow> flt" where
  "mk_flt r neg m = (case r m of None \<Rightarrow> Inf neg | Some m' \<Rightarrow> Fin neg m')"

definition flt_of_int :: "rounding \<Rightarrow> int \<Rightarrow> flt" where
  "flt_of_int r i = mk_flt r (i < 0) (of_int \<bar>i\<bar>)"

fun flt_val :: "flt \<Rightarrow> rat" where
  "flt_val (Fin neg m) = (if neg then - m else m)"
| "flt_val _ = 0"

fun flt_neg :: "flt \<Rightarrow> flt" where
  "flt_neg NaN = NaN"
| "flt_neg (Inf s) = Inf (\<not> s)"
| "flt_neg (Fin s m) = Fin (\<not> s) m"

fun flt_mul :: "rounding \<Rightarrow> flt \<Rightarrow> flt \<Rightarrow> flt" where
  "flt_mul r NaN _ = NaN"
| "flt_mul r _ NaN = NaN"
| "flt_mul r (Inf s) (Inf t) = Inf (s \<noteq> t)"
| "flt_mul r (Inf s) (Fin t n) = (if n = 0 then NaN else Inf (s \<noteq> t))"
| "flt_mul r (Fin s m) (Inf t) = (if m = 0 then NaN else Inf (s \<noteq> t))"
| "flt_mul r (Fin s m) (Fin t n) = mk_flt r (s \<noteq> t) (m * n)"

fun flt_div :: "rounding \<Rightarrow> flt \<Rightarrow> flt \<Rightarrow> flt" where
  "flt_div r NaN _ = NaN"
| "flt_div r _ NaN = NaN"
| "flt_div r (Inf s) (Inf t) = NaN"
| "flt_div r (Inf s) (Fin t n) = Inf (s \<noteq> t)"
| "flt_div r (Fin s m) (Inf t) = Fin (s \<noteq> t) 0"
| "flt_div r (Fin s m) (Fin t n) =
     (if n = 0 then if m = 0 then NaN else Inf (s \<noteq> t) else mk_flt r (s \<noteq> t) (m / n))"

fun flt_add :: "rounding \<Rightarrow> flt \<Rightarrow> flt \<Rightarrow> flt" where
  "flt_add r NaN _ = NaN"
| "flt_add r _ NaN = NaN"
| "flt_add r (Inf s) (Inf t) = (if s = t then Inf s else NaN)"
| "flt_add r (Inf s) (Fin t n) = Inf s"
| "flt_add r (Fin s m) (Inf t) = Inf t"
| "flt_add r (Fin s m) (Fin t n) =
     (let v = flt_val (Fin s m) + flt_val (Fin t n) in
      if v = 0 then Fin (s \<and> t) 0 else mk_flt r (v < 0) \<bar>v\<bar>)"

definition flt_sub :: "rounding \<Rightarrow> flt \<Rightarrow> flt \<Rightarrow> flt" where
  "flt_sub r a b = flt_add r a (flt_neg b)"

fun flt_lt :: "flt \<Rightarrow> flt \<Rightarrow> bool" where
  "flt_lt NaN _ = False"
| "flt_lt _ NaN = False"
| "flt_lt (Inf s) (Inf t) = (s \<and> \<not> t)"
| "flt_lt (Inf s) (Fin t n) = s"
| "flt_lt (Fin s m) (Inf t) = (\<not> t)"
| "flt_lt (Fin s m) (Fin t n) = (flt_val (Fin s m) < flt_val (Fin t n))"

fun flt_eq :: "flt \<Rightarrow> flt \<Rightarrow> bool" where
  "flt_eq NaN _ = False"
| "flt_eq _ NaN = False"
| "flt_eq (Inf s) (Inf t) = (s = t)"
| "flt_eq (Inf s) (Fin t n) = False"
| "flt_eq (Fin s m) (Inf t) = False"
| "flt_eq (Fin s m) (Fin t n) = (flt_val (Fin s m) = flt_val (Fin t n))"

definition flt_is_zero :: "flt \<Rightarrow> bool" where
  "flt_is_zero x = flt_eq x (Fin False 0)"

definition flt_pos :: "flt \<Rightarrow> bool" where
  "flt_pos x = flt_lt (Fin False 0) x"

text \<open>
  The conversion to an integer type drops the fraction; of a value that is not finite it is
  undefined. (The range of the integer type is not modelled.)
\<close>

definition flt_trunc :: "flt \<Rightarrow> int option" where
  "flt_trunc x = (case x of Fin neg m \<Rightarrow> Some (if neg then - \<lfloor>m\<rfloor> else \<lfloor>m\<rfloor>) | _ \<Rightarrow> None)"

section \<open>Order\<close>

text \<open>Without values that are not numbers, the comparison is a strict weak order.\<close>

lemma flt_lt_irrefl [simp]: "\<not> flt_lt a a"
  by (cases a) auto

lemma flt_lt_asym: "flt_lt a b \<Longrightarrow> \<not> flt_lt b a"
  by (cases a; cases b) auto

lemma flt_lt_trans: "flt_lt a b \<Longrightarrow> flt_lt b c \<Longrightarrow> flt_lt a c"
  by (cases a; cases b; cases c) (auto split: if_splits)

lemma flt_not_lt_trans:
  "b \<noteq> NaN \<Longrightarrow> \<not> flt_lt a b \<Longrightarrow> \<not> flt_lt b c \<Longrightarrow> \<not> flt_lt a c"
  by (cases a; cases b; cases c) (auto split: if_splits)

section \<open>Roundings\<close>

text \<open>
  What the roundings of IEEE 754 have: they are monotone, keep zero and one, and are never
  negative. A finite value of the type is not changed by rounding it again.
\<close>

definition good_rounding :: "rounding \<Rightarrow> bool" where
  "good_rounding r \<longleftrightarrow>
     r 0 = Some 0 \<and> r 1 = Some 1 \<and>
     (\<forall>x y. 0 \<le> x \<longrightarrow> x \<le> y \<longrightarrow>
        (case (r x, r y) of (Some a, Some b) \<Rightarrow> 0 \<le> a \<and> a \<le> b
         | (None, Some b) \<Rightarrow> False | (Some a, None) \<Rightarrow> 0 \<le> a | (None, None) \<Rightarrow> True))"

lemma good_rounding_exact: "good_rounding Some"
  by (simp add: good_rounding_def)

lemma good_rounding_mono:
  assumes "good_rounding r" and "0 \<le> x" and "x \<le> y" and "r y = Some b"
  obtains a where "r x = Some a" "0 \<le> a" "a \<le> b"
  using assms unfolding good_rounding_def by (fastforce split: option.splits)

lemma good_rounding_nonneg: "good_rounding r \<Longrightarrow> 0 \<le> x \<Longrightarrow> r x = Some a \<Longrightarrow> 0 \<le> a"
  by (metis good_rounding_mono order_refl option.inject)

lemma good_rounding_unit:
  assumes "good_rounding r" and "0 \<le> x" and "x \<le> 1"
  obtains a where "r x = Some a" "0 \<le> a" "a \<le> 1"
  using good_rounding_mono [OF assms] assms(1) unfolding good_rounding_def by blast

text \<open>
  The range in which the computations of the scheduler stay: powers of two up to \<open>2 ^ 100\<close> are
  exact in both types (the largest finite \<open>float\<close> is just below \<open>2 ^ 128\<close>).
\<close>

definition ieee :: "rounding \<Rightarrow> bool" where
  "ieee r \<longleftrightarrow> good_rounding r \<and> (\<forall>k\<le>100. r (2 ^ k) = Some (2 ^ k))"

lemma ieee_exact: "ieee Some"
  by (simp add: ieee_def good_rounding_exact)

lemma ieee_le:
  assumes "ieee r" and "0 \<le> x" and "x \<le> 2 ^ k" and "k \<le> 100"
  obtains a where "r x = Some a" "0 \<le> a" "a \<le> 2 ^ k"
  using good_rounding_mono [of r x "2 ^ k"] assms unfolding ieee_def by blast

lemma ieee_ge_1:
  assumes "ieee r" and "1 \<le> x" and "r x = Some a"
  shows "1 \<le> a"
proof -
  have "r 1 = Some 1" "good_rounding r" using assms(1) by (simp_all add: ieee_def good_rounding_def)
  then show ?thesis using good_rounding_mono [of r 1 x a] assms(2,3) by auto
qed

text \<open>A finite value of at most \<open>2 ^ k\<close>, and the operations on such values.\<close>

definition fin_le :: "nat \<Rightarrow> flt \<Rightarrow> bool" where
  "fin_le k x \<longleftrightarrow> (\<exists>s m. x = Fin s m \<and> 0 \<le> m \<and> m \<le> 2 ^ k)"

lemma fin_le_mono: "fin_le j x \<Longrightarrow> j \<le> k \<Longrightarrow> fin_le k x"
proof -
  assume "fin_le j x" and "j \<le> k"
  then obtain s m where x: "x = Fin s m" "0 \<le> m" "m \<le> 2 ^ j" by (auto simp: fin_le_def)
  have "(2::rat) ^ j \<le> 2 ^ k" using \<open>j \<le> k\<close> by (intro power_increasing) auto
  then have "m \<le> 2 ^ k" using x(3) by (rule order_trans [rotated])
  then show "fin_le k x" using x by (auto simp: fin_le_def)
qed

lemma fin_le_mk:
  assumes "ieee r" and "0 \<le> m" and "m \<le> 2 ^ k" and "k \<le> 100"
  shows "fin_le k (mk_flt r s m)"
  using ieee_le [OF assms] by (metis fin_le_def mk_flt_def option.simps(5))

lemma fin_le_int:
  assumes "ieee r" and "\<bar>i\<bar> \<le> 2 ^ k" and "k \<le> 100"
  shows "fin_le k (flt_of_int r i)"
proof -
  have "of_int \<bar>i\<bar> \<le> (of_int (2 ^ k) :: rat)" using assms(2) by (rule of_int_le_iff [THEN iffD2])
  then show ?thesis unfolding flt_of_int_def by (intro fin_le_mk assms) auto
qed

lemma fin_le_neg: "fin_le k x \<Longrightarrow> fin_le k (flt_neg x)"
  by (auto simp: fin_le_def)

lemma fin_le_mul:
  assumes "ieee r" and "fin_le j x" and "fin_le k y" and "j + k \<le> 100"
  shows "fin_le (j + k) (flt_mul r x y)"
proof -
  obtain s m t n where v: "x = Fin s m" "0 \<le> m" "m \<le> 2 ^ j" "y = Fin t n" "0 \<le> n" "n \<le> 2 ^ k"
    using assms(2,3) by (auto simp: fin_le_def)
  have "m * n \<le> 2 ^ (j + k)" using v by (simp add: power_add mult_mono)
  then show ?thesis using v by (simp add: fin_le_mk assms)
qed

lemma fin_le_add:
  assumes "ieee r" and "fin_le k x" and "fin_le k y" and "k < 100"
  shows "fin_le (Suc k) (flt_add r x y)"
proof -
  obtain s m t n where v: "x = Fin s m" "0 \<le> m" "m \<le> 2 ^ k" "y = Fin t n" "0 \<le> n" "n \<le> 2 ^ k"
    using assms(2,3) by (auto simp: fin_le_def)
  let ?v = "flt_val (Fin s m) + flt_val (Fin t n)"
  have "\<bar>?v\<bar> \<le> 2 ^ Suc k" using v by auto
  then have "fin_le (Suc k) (mk_flt r (?v < 0) \<bar>?v\<bar>)" using assms by (intro fin_le_mk) auto
  moreover have "fin_le (Suc k) (Fin b 0)" for b by (simp add: fin_le_def)
  ultimately show ?thesis using v by (simp add: Let_def)
qed

lemma fin_le_sub: "ieee r \<Longrightarrow> fin_le k x \<Longrightarrow> fin_le k y \<Longrightarrow> k < 100 \<Longrightarrow> fin_le (Suc k) (flt_sub r x y)"
  unfolding flt_sub_def by (intro fin_le_add fin_le_neg)

lemma fin_le_trunc: "fin_le k x \<Longrightarrow> \<exists>i. flt_trunc x = Some i"
  by (auto simp: fin_le_def flt_trunc_def)

text \<open>Quotients of a positive by a value of the other sign are below zero, also when it is zero.\<close>

definition flt_below :: "flt \<Rightarrow> bool" where
  "flt_below x \<longleftrightarrow> x = Inf True \<or> (\<exists>m. 0 \<le> m \<and> x = Fin True m)"

lemma flt_below_div:
  assumes "ieee r" and "1 \<le> a" and "0 \<le> b" and "s \<noteq> t"
  shows "flt_below (flt_div r (Fin s a) (Fin t b))"
proof (cases "b = 0")
  case True
  then show ?thesis using assms by (auto simp: flt_below_def)
next
  case False
  have "0 \<le> a / b" using assms(2,3) by simp
  then have "case r (a / b) of None \<Rightarrow> True | Some m \<Rightarrow> 0 \<le> m"
    using good_rounding_nonneg assms(1) unfolding ieee_def by (auto split: option.split)
  then show ?thesis using False assms(4) by (auto simp: flt_below_def mk_flt_def split: option.splits)
qed

lemma flt_of_pos_int:
  assumes "ieee r" and "1 \<le> i" and "i \<le> 2 ^ k" and "k \<le> 100"
  obtains a where "flt_of_int r i = Fin False a" "1 \<le> a" "a \<le> 2 ^ k"
proof -
  have "of_int i \<le> (of_int (2 ^ k) :: rat)" using assms(3) by (rule of_int_le_iff [THEN iffD2])
  then obtain a where a: "r (of_int i) = Some a" "a \<le> 2 ^ k"
    using ieee_le [OF assms(1) _ _ assms(4), of "of_int i"] assms(2) by auto
  have "1 \<le> (of_int i :: rat)" using assms(2) by simp
  with ieee_ge_1 [OF assms(1) _ a(1)] have "1 \<le> a" by simp
  then show thesis using that a assms(2) by (simp add: flt_of_int_def mk_flt_def)
qed

end
