(* ===== verification/SCH_Conf.thy ===== *)
theory SCH_Conf
  imports GW_Sched_Msg SCH_Float
begin

text \<open>
  The configuration of the scheduler, \<open>include/gw_sch_conf.h\<close> and \<open>src/gwd/gw_sch_conf.c\<close>: its defaults,
  the fixed priorities and shares by name, and the setters that the parser of \<open>sched.conf\<close> calls.
  The field \<open>dl_half\<close> has no default: the initialisation leaves it as the memory had it, which is
  the second argument of \<open>gw_sch_conf_init\<close>.
\<close>

record gw_sch_conf = gw_sch_prio +
  disable :: int
  max_dispatch :: int
  max_resource :: int
  max_user :: int
  wfixed :: flt
  wshare :: flt
  ushare_default :: int
  ushare :: conf_array
  window_size :: flt
  window_depth :: int
  wwaiting :: flt
  wdeadline :: flt
  dl_half :: int
  wrfixed :: flt
  wrank :: flt
  fr_max_banned :: int
  fr_banned_c :: flt
  wusage :: flt
  ug_window :: flt
  ug_ratio :: flt

definition gw_sch_conf_init :: "rounding \<Rightarrow> int \<Rightarrow> gw_sch_conf" where
  "gw_sch_conf_init r mem =
     \<lparr>ufixed = [], gfixed = [], ufixed_default = 0, hfixed = [], ifixed = [], rfixed_default = 1,
      disable = 0, max_dispatch = 15, max_resource = 5, max_user = 30,
      wfixed = flt_of_int r 1, wshare = flt_of_int r 1, ushare_default = 5, ushare = [],
      window_size = flt_of_int r 1, window_depth = 5,
      wwaiting = flt_of_int r 0, wdeadline = flt_of_int r 1, dl_half = mem,
      wrfixed = flt_of_int r 1, wrank = flt_of_int r 1,
      fr_max_banned = 3600, fr_banned_c = flt_of_int r 650,
      wusage = flt_of_int r 1, ug_window = flt_of_int r 3, ug_ratio = mk_flt r False (1 / 4)\<rparr>"

section \<open>Looking up\<close>

definition gw_sch_get_user_fixed :: "'a gw_sch_prio_scheme \<Rightarrow> string \<Rightarrow> int" where
  "gw_sch_get_user_fixed c user =
     (case conf_lookup (ufixed c) user of Some v \<Rightarrow> v | None \<Rightarrow> ufixed_default c)"

definition gw_sch_get_group_fixed :: "'a gw_sch_prio_scheme \<Rightarrow> string \<Rightarrow> int" where
  "gw_sch_get_group_fixed c grp =
     (case conf_lookup (gfixed c) grp of Some v \<Rightarrow> v | None \<Rightarrow> -1)"

definition gw_sch_get_user_share :: "gw_sch_conf \<Rightarrow> string \<Rightarrow> int" where
  "gw_sch_get_user_share c user =
     (case conf_lookup (ushare c) user of Some v \<Rightarrow> v | None \<Rightarrow> ushare_default c)"

definition gw_sch_get_im_fixed :: "'a gw_sch_prio_scheme \<Rightarrow> string \<Rightarrow> int" where
  "gw_sch_get_im_fixed c im =
     (case conf_lookup (ifixed c) im of Some v \<Rightarrow> v | None \<Rightarrow> rfixed_default c)"

definition gw_sch_get_host_fixed :: "'a gw_sch_prio_scheme \<Rightarrow> string \<Rightarrow> int" where
  "gw_sch_get_host_fixed c host =
     (case conf_lookup (hfixed c) host of Some v \<Rightarrow> v | None \<Rightarrow> -1)"

section \<open>Setting\<close>

text \<open>The loop that overwrites the first entry of a name, or appends one.\<close>

fun conf_store :: "conf_array \<Rightarrow> string \<Rightarrow> int \<Rightarrow> conf_array" where
  "conf_store [] n v = [(n, v)]"
| "conf_store ((m, w) # xs) n v = (if n = m then (m, v) # xs else (m, w) # conf_store xs n v)"

definition clamp :: "int \<Rightarrow> int \<Rightarrow> int \<Rightarrow> int" where
  "clamp lo hi p = (if p < lo then lo else if p > hi then hi else p)"

definition GW_JOB_MAX_PRIORITY :: int where "GW_JOB_MAX_PRIORITY = 20"
definition GW_JOB_MIN_PRIORITY :: int where "GW_JOB_MIN_PRIORITY = 0"
definition GW_HOST_MAX_PRIORITY :: int where "GW_HOST_MAX_PRIORITY = 99"
definition GW_HOST_MIN_PRIORITY :: int where "GW_HOST_MIN_PRIORITY = 0"

definition gw_sch_set_user_fixed :: "string \<Rightarrow> int \<Rightarrow> gw_sch_conf \<Rightarrow> gw_sch_conf" where
  "gw_sch_set_user_fixed user p c =
     (let p = clamp GW_JOB_MIN_PRIORITY GW_JOB_MAX_PRIORITY p in
      if user = ''DEFAULT'' then c\<lparr>ufixed_default := p\<rparr>
      else c\<lparr>ufixed := conf_store (ufixed c) user p\<rparr>)"

definition gw_sch_set_group_fixed :: "string \<Rightarrow> int \<Rightarrow> gw_sch_conf \<Rightarrow> gw_sch_conf" where
  "gw_sch_set_group_fixed grp p c =
     c\<lparr>gfixed := conf_store (gfixed c) grp (clamp GW_JOB_MIN_PRIORITY GW_JOB_MAX_PRIORITY p)\<rparr>"

definition gw_sch_set_user_share :: "string \<Rightarrow> int \<Rightarrow> gw_sch_conf \<Rightarrow> gw_sch_conf" where
  "gw_sch_set_user_share user v c =
     (if user = ''DEFAULT'' then c\<lparr>ushare_default := v\<rparr>
      else c\<lparr>ushare := conf_store (ushare c) user v\<rparr>)"

definition gw_sch_set_im_fixed :: "string \<Rightarrow> int \<Rightarrow> gw_sch_conf \<Rightarrow> gw_sch_conf" where
  "gw_sch_set_im_fixed im p c =
     (let p = clamp GW_HOST_MIN_PRIORITY GW_HOST_MAX_PRIORITY p in
      if im = ''DEFAULT'' then c\<lparr>rfixed_default := p\<rparr>
      else c\<lparr>ifixed := conf_store (ifixed c) im p\<rparr>)"

definition gw_sch_set_host_fixed :: "string \<Rightarrow> int \<Rightarrow> gw_sch_conf \<Rightarrow> gw_sch_conf" where
  "gw_sch_set_host_fixed host p c =
     c\<lparr>hfixed := conf_store (hfixed c) host (clamp GW_HOST_MIN_PRIORITY GW_HOST_MAX_PRIORITY p)\<rparr>"

datatype gw_sch_var =
    DISABLE | DISPATCH_CHUNK | MAX_DISPATCH_RESOURCE | MAX_RUNNING_USER | FP_WEIGHT | FP_USER
  | FP_GROUP | SH_WEIGHT | SH_USER | SH_WINDOW_DEPTH | SH_WINDOW_SIZE | WT_WEIGHT | DL_WEIGHT
  | DL_HALF | RP_WEIGHT | RP_HOST | RP_IM | RA_WEIGHT | FR_MAX_BANNED | FR_BANNED_C | UG_WEIGHT
  | UG_HISTORY_WINDOW | UG_HISTORY_RATIO

text \<open>
  A value comes as a \<open>float\<close> and is converted to the type of the field. \<open>None\<close> is a conversion of
  a value that is no number.
\<close>

definition gw_sch_set_var :: "rounding \<Rightarrow> gw_sch_var \<Rightarrow> flt \<Rightarrow> gw_sch_conf \<Rightarrow> gw_sch_conf option" where
  "gw_sch_set_var r var val c =
     (case var of
        DISABLE \<Rightarrow> map_option (\<lambda>i. c\<lparr>disable := i\<rparr>) (flt_trunc val)
      | DISPATCH_CHUNK \<Rightarrow> map_option (\<lambda>i. c\<lparr>max_dispatch := i\<rparr>) (flt_trunc val)
      | MAX_RUNNING_USER \<Rightarrow> map_option (\<lambda>i. c\<lparr>max_user := i\<rparr>) (flt_trunc val)
      | MAX_DISPATCH_RESOURCE \<Rightarrow> map_option (\<lambda>i. c\<lparr>max_resource := i\<rparr>) (flt_trunc val)
      | FP_WEIGHT \<Rightarrow> Some (c\<lparr>wfixed := val\<rparr>)
      | WT_WEIGHT \<Rightarrow> Some (c\<lparr>wwaiting := val\<rparr>)
      | DL_WEIGHT \<Rightarrow> Some (c\<lparr>wdeadline := val\<rparr>)
      | DL_HALF \<Rightarrow> map_option (\<lambda>i. c\<lparr>dl_half := i\<rparr>) (flt_trunc val)
      | SH_WEIGHT \<Rightarrow> Some (c\<lparr>wshare := val\<rparr>)
      | SH_WINDOW_SIZE \<Rightarrow> Some (c\<lparr>window_size := val\<rparr>)
      | SH_WINDOW_DEPTH \<Rightarrow>
          (if flt_lt (flt_of_int r 10) val then Some (c\<lparr>window_depth := 10\<rparr>)
           else map_option (\<lambda>i. c\<lparr>window_depth := i\<rparr>) (flt_trunc val))
      | RP_WEIGHT \<Rightarrow> Some (c\<lparr>wrfixed := val\<rparr>)
      | RA_WEIGHT \<Rightarrow> Some (c\<lparr>wrank := val\<rparr>)
      | FR_MAX_BANNED \<Rightarrow> map_option (\<lambda>i. c\<lparr>fr_max_banned := i\<rparr>) (flt_trunc val)
      | FR_BANNED_C \<Rightarrow> Some (c\<lparr>fr_banned_c := val\<rparr>)
      | UG_WEIGHT \<Rightarrow> Some (c\<lparr>wusage := val\<rparr>)
      | UG_HISTORY_WINDOW \<Rightarrow> Some (c\<lparr>ug_window := val\<rparr>)
      | UG_HISTORY_RATIO \<Rightarrow> Some (c\<lparr>ug_ratio := val\<rparr>)
      | _ \<Rightarrow> Some c)"

definition gw_sch_set_svar :: "gw_sch_var \<Rightarrow> string \<Rightarrow> int \<Rightarrow> gw_sch_conf \<Rightarrow> gw_sch_conf" where
  "gw_sch_set_svar var str val c =
     (case var of
        FP_USER \<Rightarrow> gw_sch_set_user_fixed str val c
      | FP_GROUP \<Rightarrow> gw_sch_set_group_fixed str val c
      | SH_USER \<Rightarrow> gw_sch_set_user_share str val c
      | RP_HOST \<Rightarrow> gw_sch_set_host_fixed str val c
      | RP_IM \<Rightarrow> gw_sch_set_im_fixed str val c
      | _ \<Rightarrow> c)"

section \<open>Look-ups after settings\<close>

lemma conf_lookup_store [simp]:
  "conf_lookup (conf_store xs n v) m = (if m = n then Some v else conf_lookup xs m)"
  by (induction xs n v rule: conf_store.induct) auto

lemma clamp_bounds: "lo \<le> hi \<Longrightarrow> lo \<le> clamp lo hi p \<and> clamp lo hi p \<le> hi"
  by (simp add: clamp_def)

text \<open>Every fixed priority is in the range of its kind.\<close>

definition prios_in :: "int \<Rightarrow> int \<Rightarrow> conf_array \<Rightarrow> bool" where
  "prios_in lo hi xs \<longleftrightarrow> (\<forall>(n, v)\<in>set xs. lo \<le> v \<and> v \<le> hi)"

lemma prios_in_store: "prios_in lo hi xs \<Longrightarrow> lo \<le> hi \<Longrightarrow> prios_in lo hi (conf_store xs n (clamp lo hi p))"
  using clamp_bounds [of lo hi p]
  by (induction xs n "clamp lo hi p" rule: conf_store.induct) (auto simp: prios_in_def)

lemma prios_in_lookup: "prios_in lo hi xs \<Longrightarrow> conf_lookup xs n = Some v \<Longrightarrow> lo \<le> v \<and> v \<le> hi"
  by (induction xs n rule: conf_lookup.induct) (auto simp: prios_in_def split: if_splits)

definition prio_ok :: "'a gw_sch_prio_scheme \<Rightarrow> bool" where
  "prio_ok c \<longleftrightarrow>
     GW_JOB_MIN_PRIORITY \<le> ufixed_default c \<and> ufixed_default c \<le> GW_JOB_MAX_PRIORITY \<and>
     prios_in GW_JOB_MIN_PRIORITY GW_JOB_MAX_PRIORITY (ufixed c) \<and>
     prios_in GW_JOB_MIN_PRIORITY GW_JOB_MAX_PRIORITY (gfixed c) \<and>
     GW_HOST_MIN_PRIORITY \<le> rfixed_default c \<and> rfixed_default c \<le> GW_HOST_MAX_PRIORITY \<and>
     prios_in GW_HOST_MIN_PRIORITY GW_HOST_MAX_PRIORITY (hfixed c) \<and>
     prios_in GW_HOST_MIN_PRIORITY GW_HOST_MAX_PRIORITY (ifixed c)"

lemma prio_range: "GW_JOB_MIN_PRIORITY \<le> GW_JOB_MAX_PRIORITY" "GW_HOST_MIN_PRIORITY \<le> GW_HOST_MAX_PRIORITY"
  by (simp_all add: GW_JOB_MAX_PRIORITY_def GW_JOB_MIN_PRIORITY_def
      GW_HOST_MAX_PRIORITY_def GW_HOST_MIN_PRIORITY_def)

lemma prio_ok_svar:
  assumes "prio_ok c"
  shows "prio_ok (gw_sch_set_svar var str val c)"
proof -
  note st = prios_in_store [OF _ prio_range(1)] prios_in_store [OF _ prio_range(2)]
  note cl = clamp_bounds [OF prio_range(1)] clamp_bounds [OF prio_range(2)]
  show ?thesis
    using assms
    by (cases var)
       (simp_all add: gw_sch_set_svar_def gw_sch_set_user_fixed_def gw_sch_set_group_fixed_def
          gw_sch_set_user_share_def gw_sch_set_host_fixed_def gw_sch_set_im_fixed_def Let_def
          prio_ok_def st cl)
qed

lemma prio_ok_init: "prio_ok (gw_sch_conf_init r mem)"
  using prio_range
  by (simp add: prio_ok_def gw_sch_conf_init_def prios_in_def GW_JOB_MAX_PRIORITY_def
      GW_JOB_MIN_PRIORITY_def GW_HOST_MAX_PRIORITY_def GW_HOST_MIN_PRIORITY_def)

lemma prio_ok_host: "prio_ok c \<Longrightarrow>
    GW_HOST_MIN_PRIORITY \<le> gw_sch_get_host_priority c host im \<and>
    gw_sch_get_host_priority c host im \<le> GW_HOST_MAX_PRIORITY"
  by (auto simp: prio_ok_def gw_sch_get_host_priority_def dest: prios_in_lookup split: option.split)

end
