(* ===== verification/SCH_State.thy ===== *)
theory SCH_State
  imports SCH_Conf "HOL-Library.Monad_Syntax"
begin

text \<open>
  The state of the scheduler process (\<open>include/gw_scheduler.h\<close>) and the operations that the messages of
  the daemon start: hosts (\<open>src/scheduler/gw_scheduler_hosts.c\<close>), users with their share windows
  (\<open>gw_scheduler_users.c\<close>), and the job list (\<open>gw_scheduler_jobs.c\<close>). The arrays that the code grows
  with \<open>realloc\<close> are lists, a NULL array is the empty list, and their lengths are \<open>num_users\<close>,
  \<open>num_hosts\<close>, \<open>num_jobs\<close> and \<open>num_mhosts\<close>. \<open>None\<close> is an access outside an array or through NULL. The
  parameters of the operations are in the record \<open>sch_env\<close>: the clock, the accuracy of the
  floating point types, the function \<open>exp\<close>, and the answers of the accounting data base and of the
  daemon to the client library. Names are cut at the size of their array.
\<close>

record sch_host =
  sh_hid :: int
  sh_name :: string
  sh_used_slots :: int
  sh_running_jobs :: int
  sh_dispatched :: int

record sch_user_host =
  uh_ha_id :: nat
  uh_hid :: int
  uh_banned :: int
  uh_last_banned :: int
  uh_avrg_transfer :: flt
  uh_avrg_execution :: flt
  uh_avrg_suspension :: flt
  uh_last_transfer :: flt
  uh_last_execution :: flt
  uh_last_suspension :: flt

record sch_user =
  su_uid :: int
  su_name :: string
  su_running_jobs :: int
  su_active_jobs :: int
  su_total_jobs :: int
  su_dispatched :: int
  su_share :: int
  su_next_ujid :: int
  sub_windows :: "int list"
  su_hosts :: "sch_user_host list"

record sch_queue =
  sq_ha_id :: nat
  sq_uha_id :: nat
  sq_qname :: string
  sq_slots :: int
  sq_fixed :: int
  sq_nfixed :: flt
  sq_rank :: int
  sq_nrank :: flt
  sq_usage :: flt
  sq_nusage :: flt
  sq_priority :: flt

record sch_job =
  sj_ua_id :: nat
  sj_jid :: int
  sj_aid :: int
  sj_np :: int
  sj_reason :: gw_migration_reason
  sj_mhosts :: "sch_queue list"
  sj_schedule_time :: int
  sj_deadline_time :: int
  sj_priority :: flt
  sj_fixed :: int
  sj_nfixed :: flt
  sj_waiting :: int
  sj_nwaiting :: flt
  sj_deadline :: int
  sj_ndeadline :: flt
  sj_share :: int
  sj_nshare :: flt

record gw_scheduler =
  sch_users :: "sch_user list"
  sch_hosts :: "sch_host list"
  sch_jobs :: "sch_job list"
  sch_conf :: gw_sch_conf
  next_user_window :: int
  next_host_window :: int

text \<open>
  The accounting record of a user on a host: the times spent in execution, suspension and
  transfer, and the number of executions; the answers of the daemon to the requests for the
  status (fixed priority, processes, start time and deadline), the matching hosts and the history
  (host and rank of each record) of a job.
\<close>

record gw_match =
  m_host_id :: int
  m_fixed_priority :: int
  m_queues :: "(string \<times> int \<times> int) list"

record sch_env =
  sc_now :: int
  flo :: rounding
  dbl :: rounding
  exp_fn :: "flt \<Rightarrow> flt"
  acct_search :: "string \<Rightarrow> string \<Rightarrow> (int \<times> int \<times> int \<times> int) option"
  client_status :: "int \<Rightarrow> (int \<times> int \<times> int \<times> int) option"
  client_match :: "int \<Rightarrow> int \<Rightarrow> gw_match list option"
  client_history :: "int \<Rightarrow> (int \<times> int) list option"

definition GW_MSG_STRING_HOST :: nat where "GW_MSG_STRING_HOST = 40"
definition GW_MSG_STRING_SHORT :: nat where "GW_MSG_STRING_SHORT = 25"

abbreviation fzero :: flt where "fzero \<equiv> Fin False 0"

section \<open>Hosts\<close>

text \<open>The average times of a user on a host, zero when the data base has none.\<close>

definition avrg_times :: "sch_env \<Rightarrow> string \<Rightarrow> string \<Rightarrow> sch_user_host \<Rightarrow> sch_user_host" where
  "avrg_times e host user uh =
     (case acct_search e host user of
        Some (ex, su, tr, tot) \<Rightarrow>
          (if tot \<ge> 1
           then uh\<lparr>uh_avrg_execution := flt_div (flo e) (flt_of_int (flo e) ex) (flt_of_int (flo e) tot),
                   uh_avrg_suspension := flt_div (flo e) (flt_of_int (flo e) su) (flt_of_int (flo e) tot),
                   uh_avrg_transfer := flt_div (flo e) (flt_of_int (flo e) tr) (flt_of_int (flo e) tot)\<rparr>
           else uh)
      | None \<Rightarrow> uh)"

definition user_host_init :: "sch_env \<Rightarrow> nat \<Rightarrow> int \<Rightarrow> string \<Rightarrow> string \<Rightarrow> sch_user_host" where
  "user_host_init e i hid host user =
     avrg_times e host user
       \<lparr>uh_ha_id = i, uh_hid = hid, uh_banned = 0, uh_last_banned = 0,
        uh_avrg_transfer = fzero, uh_avrg_execution = fzero, uh_avrg_suspension = fzero,
        uh_last_transfer = fzero, uh_last_execution = fzero, uh_last_suspension = fzero\<rparr>"

text \<open>The loops that look for the first entry with an identifier.\<close>

fun find_first :: "('a \<Rightarrow> int) \<Rightarrow> int \<Rightarrow> 'a list \<Rightarrow> nat option" where
  "find_first key k [] = None"
| "find_first key k (x # xs) = (if key x = k then Some 0 else map_option Suc (find_first key k xs))"

text \<open>
  A name is copied by \<open>strncpy\<close> with one character less than its buffer has, into memory that was not
  cleared: a name of that length or longer gets no end, and what reads it later leaves the buffer.
  Storing such a name is \<open>None\<close>.
\<close>

definition gw_scheduler_add_host ::
  "sch_env \<Rightarrow> int \<Rightarrow> int \<Rightarrow> int \<Rightarrow> string \<Rightarrow> gw_scheduler \<Rightarrow> gw_scheduler option" where
  "gw_scheduler_add_host e hid uslots rjobs hostname s =
     (case find_first sh_hid hid (sch_hosts s) of
        Some i \<Rightarrow> Some (s\<lparr>sch_hosts := (sch_hosts s)[i := (sch_hosts s ! i)
                     \<lparr>sh_used_slots := uslots, sh_running_jobs := rjobs\<rparr>]\<rparr>)
      | None \<Rightarrow>
          if length hostname \<ge> GW_MSG_STRING_HOST - 1 then None
          else Some
          (let i = length (sch_hosts s) in
           s\<lparr>sch_hosts := sch_hosts s @ [\<lparr>sh_hid = hid, sh_name = hostname,
               sh_used_slots = uslots, sh_running_jobs = rjobs, sh_dispatched = 0\<rparr>],
             sch_users := map (\<lambda>u. u\<lparr>su_hosts := take i (su_hosts u) @
               [user_host_init e i hid hostname (su_name u)]\<rparr>) (sch_users s)\<rparr>))"

text \<open>Once a day the averages are read again, for the hosts that have any.\<close>

definition gw_scheduler_update_usage_host :: "sch_env \<Rightarrow> gw_scheduler \<Rightarrow> gw_scheduler" where
  "gw_scheduler_update_usage_host e s =
     s\<lparr>sch_users := map (\<lambda>u. u\<lparr>su_hosts := map (\<lambda>h.
         if uh_ha_id h < length (sch_hosts s)
         then avrg_times e (sh_name (sch_hosts s ! uh_ha_id h)) (su_name u) h else h) (su_hosts u)\<rparr>)
       (sch_users s)\<rparr>"

section \<open>Users\<close>

definition new_user_hosts :: "sch_env \<Rightarrow> gw_scheduler \<Rightarrow> string \<Rightarrow> sch_user_host list" where
  "new_user_hosts e s name =
     map (\<lambda>j. user_host_init e j (sh_hid (sch_hosts s ! j)) (sh_name (sch_hosts s ! j)) name)
       [0..<length (sch_hosts s)]"

definition gw_scheduler_add_user ::
  "sch_env \<Rightarrow> int \<Rightarrow> int \<Rightarrow> int \<Rightarrow> string \<Rightarrow> gw_scheduler \<Rightarrow> gw_scheduler option" where
  "gw_scheduler_add_user e uid ajobs rjobs name s =
     (case find_first su_uid uid (sch_users s) of
        Some i \<Rightarrow> Some (s\<lparr>sch_users := (sch_users s)[i := (sch_users s ! i)
                     \<lparr>su_active_jobs := ajobs, su_running_jobs := rjobs\<rparr>]\<rparr>)
      | None \<Rightarrow>
          if length name \<ge> GW_MSG_STRING_SHORT - 1 then None
          else Some
          (s\<lparr>sch_users := sch_users s @ [\<lparr>su_uid = uid, su_name = name,
               su_running_jobs = rjobs, su_active_jobs = ajobs, su_total_jobs = 0, su_dispatched = 0,
               su_share = 1, su_next_ujid = 0,
               sub_windows = replicate (nat (window_depth (sch_conf s))) 0,
               su_hosts = new_user_hosts e s name\<rparr>]\<rparr>))"

text \<open>
  A single user is removed whatever the identifier; of several users, the last one is dropped when
  the identifier is unknown. Without users the count becomes negative.
\<close>

definition gw_scheduler_del_user :: "int \<Rightarrow> gw_scheduler \<Rightarrow> gw_scheduler option" where
  "gw_scheduler_del_user uid s =
     (if length (sch_users s) = 1 then Some (s\<lparr>sch_users := []\<rparr>)
      else if sch_users s = [] then None
      else Some (case find_first su_uid uid (sch_users s) of
                   Some i \<Rightarrow> s\<lparr>sch_users := take i (sch_users s) @ drop (Suc i) (sch_users s)\<rparr>
                 | None \<Rightarrow> s\<lparr>sch_users := butlast (sch_users s)\<rparr>))"

text \<open>The window of the share policy moves: the counts age by one place.\<close>

definition shift_window :: "int \<Rightarrow> sch_user \<Rightarrow> sch_user option" where
  "shift_window depth u =
     (if 0 < depth \<and> nat depth \<le> length (sub_windows u)
      then Some (u\<lparr>sub_windows := 0 # take (nat depth - 1) (sub_windows u) @ drop (nat depth) (sub_windows u)\<rparr>)
      else None)"

definition gw_scheduler_user_update_windows :: "gw_scheduler \<Rightarrow> gw_scheduler option" where
  "gw_scheduler_user_update_windows s =
     (if window_depth (sch_conf s) = 0 then Some s
      else map_option (\<lambda>us. s\<lparr>sch_users := us\<rparr>)
             (those (map (shift_window (window_depth (sch_conf s))) (sch_users s))))"

end
