(* ===== verification/SCH_Jobs.thy ===== *)
theory SCH_Jobs
  imports SCH_State "HOL-Library.Signed_Division" "HOL-Library.Multiset"
begin

text \<open>
  The job list of the scheduler and its policies (\<open>src/scheduler/gw_scheduler_jobs.c\<close>, and
  \<open>gw_scheduler_host_policies\<close> of \<open>gw_scheduler_hosts.c\<close>): jobs that come and go, the hosts that are
  banned for a user after a failure, the selection of hosts and queues for a job, and the
  priorities of jobs and queues. The function \<open>qsort\<close> of the C library is a stable sort, as it is
  in the GNU library; the properties use only that it permutes and sorts.
\<close>

section \<open>Failures and successes of jobs\<close>

definition sch_user_of :: "int \<Rightarrow> gw_scheduler \<Rightarrow> nat option" where
  "sch_user_of uid s =
     (case find_first su_uid uid (sch_users s) of
        None \<Rightarrow> None
      | Some i \<Rightarrow> if su_hosts (sch_users s ! i) = [] then None else Some i)"

definition put_user_host :: "nat \<Rightarrow> nat \<Rightarrow> sch_user_host \<Rightarrow> gw_scheduler \<Rightarrow> gw_scheduler" where
  "put_user_host i h x s =
     s\<lparr>sch_users := (sch_users s)[i := (sch_users s ! i)
        \<lparr>su_hosts := (su_hosts (sch_users s ! i))[h := x]\<rparr>]\<rparr>"

text \<open>The length of a ban: a tenth of the maximum at first, then growing with the time since then.\<close>

definition ban_delta :: "sch_env \<Rightarrow> gw_sch_conf \<Rightarrow> int \<Rightarrow> int option" where
  "ban_delta e c lst =
     (let r = dbl e; mx = flt_of_int r (fr_max_banned c) in
      if lst = 0 then flt_trunc (flt_mul r (mk_flt r False (1 / 10)) mx)
      else if sc_now e - lst \<le> 10 then Some 0
      else flt_trunc (flt_mul r mx (flt_sub r (flt_of_int r 1)
             (exp_fn e (flt_div r (flt_neg (flt_of_int r (sc_now e - lst))) (fr_banned_c c))))))"

definition gw_scheduler_job_failed ::
  "sch_env \<Rightarrow> int \<Rightarrow> int \<Rightarrow> gw_migration_reason \<Rightarrow> gw_scheduler \<Rightarrow> gw_scheduler option" where
  "gw_scheduler_job_failed e hid uid reason s =
     (if reason \<notin> {GW_REASON_SUSPENSION_TIME, GW_REASON_PERFORMANCE, GW_REASON_EXECUTION_ERROR}
      then Some s
      else case sch_user_of uid s of
        None \<Rightarrow> Some s
      | Some i \<Rightarrow>
          (case find_first uh_hid hid (su_hosts (sch_users s ! i)) of
             None \<Rightarrow> Some s
           | Some h \<Rightarrow>
               (let th = su_hosts (sch_users s ! i) ! h in do {
                 delta \<leftarrow> ban_delta e (sch_conf s) (uh_last_banned th);
                 let th = (if uh_last_banned th = 0 then th\<lparr>uh_last_banned := sc_now e\<rparr> else th);
                 Some (put_user_host i h
                   (if delta \<noteq> 0 then th\<lparr>uh_banned := sc_now e + delta\<rparr> else th) s) })))"

definition gw_scheduler_job_success ::
  "int \<Rightarrow> int \<Rightarrow> flt \<Rightarrow> flt \<Rightarrow> flt \<Rightarrow> gw_scheduler \<Rightarrow> gw_scheduler" where
  "gw_scheduler_job_success hid uid txfr tsus texe s =
     (case sch_user_of uid s of
        None \<Rightarrow> s
      | Some i \<Rightarrow>
          (case find_first uh_hid hid (su_hosts (sch_users s ! i)) of
             None \<Rightarrow> s
           | Some h \<Rightarrow> put_user_host i h ((su_hosts (sch_users s ! i) ! h)
               \<lparr>uh_last_banned := 0, uh_banned := 0, uh_last_execution := texe,
                uh_last_transfer := txfr, uh_last_suspension := tsus\<rparr>) s))"

section \<open>The job list\<close>

text \<open>The priority and the share of a new job are not initialised; no operation reads them before they are set.\<close>

definition new_sch_job ::
  "sch_env \<Rightarrow> nat \<Rightarrow> int \<Rightarrow> int \<Rightarrow> int \<Rightarrow> gw_migration_reason \<Rightarrow> int \<Rightarrow> int \<Rightarrow> sch_job" where
  "new_sch_job e k jid aid np reason fixed deadline =
     \<lparr>sj_ua_id = k, sj_jid = jid, sj_aid = aid, sj_np = np, sj_reason = reason, sj_mhosts = [],
      sj_schedule_time = sc_now e, sj_deadline_time = deadline, sj_priority = fzero,
      sj_fixed = fixed, sj_nfixed = fzero, sj_waiting = 0, sj_nwaiting = fzero,
      sj_deadline = 0, sj_ndeadline = fzero, sj_share = 0, sj_nshare = fzero\<rparr>"

definition upd_user :: "nat \<Rightarrow> (sch_user \<Rightarrow> sch_user) \<Rightarrow> gw_scheduler \<Rightarrow> gw_scheduler" where
  "upd_user k f s = s\<lparr>sch_users := (sch_users s)[k := f (sch_users s ! k)]\<rparr>"

definition gw_scheduler_job_add ::
  "sch_env \<Rightarrow> int \<Rightarrow> int \<Rightarrow> int \<Rightarrow> gw_migration_reason \<Rightarrow> int \<Rightarrow> int \<Rightarrow> int \<Rightarrow> gw_scheduler \<Rightarrow> gw_scheduler" where
  "gw_scheduler_job_add e jid aid np reason fixed uid deadline s =
     (case find_first su_uid uid (sch_users s) of
        None \<Rightarrow> s
      | Some k \<Rightarrow>
          upd_user k (\<lambda>u. u\<lparr>su_total_jobs := su_total_jobs u + 1\<rparr>)
            (s\<lparr>sch_jobs := sch_jobs s @ [new_sch_job e k jid aid np reason fixed deadline]\<rparr>))"

definition count_dispatch :: "sch_user \<Rightarrow> sch_user option" where
  "count_dispatch u =
     (case sub_windows u of [] \<Rightarrow> None | w # ws \<Rightarrow> Some (u\<lparr>sub_windows := (w + 1) # ws\<rparr>))"

definition gw_scheduler_job_del :: "int \<Rightarrow> bool \<Rightarrow> gw_scheduler \<Rightarrow> gw_scheduler option" where
  "gw_scheduler_job_del jid dispatched s =
     (case find_first sj_jid jid (sch_jobs s) of
        None \<Rightarrow> Some s
      | Some i \<Rightarrow>
          (let k = sj_ua_id (sch_jobs s ! i) in
           if k < length (sch_users s) then do {
             let u = (sch_users s ! k)\<lparr>su_total_jobs := su_total_jobs (sch_users s ! k) - 1\<rparr>;
             u \<leftarrow> (if dispatched then count_dispatch u else Some u);
             Some (s\<lparr>sch_users := (sch_users s)[k := u],
                     sch_jobs := take i (sch_jobs s) @ drop (Suc i) (sch_jobs s)\<rparr>) }
           else None))"

section \<open>Sorting\<close>

fun sort_insert :: "('a \<Rightarrow> 'a \<Rightarrow> int) \<Rightarrow> 'a \<Rightarrow> 'a list \<Rightarrow> 'a list" where
  "sort_insert cmp x [] = [x]"
| "sort_insert cmp x (y # ys) = (if cmp x y \<le> 0 then x # y # ys else y # sort_insert cmp x ys)"

definition qsort :: "('a \<Rightarrow> 'a \<Rightarrow> int) \<Rightarrow> 'a list \<Rightarrow> 'a list" where
  "qsort cmp xs = foldr (sort_insert cmp) xs []"

definition queue_cmp :: "sch_queue \<Rightarrow> sch_queue \<Rightarrow> int" where
  "queue_cmp a b =
     (if flt_lt (sq_priority a) (sq_priority b) then 1
      else if flt_lt (sq_priority b) (sq_priority a) then -1 else 0)"

definition job_cmp :: "sch_job \<Rightarrow> sch_job \<Rightarrow> int" where
  "job_cmp a b =
     (if sj_fixed a = 20 \<and> sj_fixed b \<noteq> 20 then -1
      else if sj_fixed b = 20 \<and> sj_fixed a \<noteq> 20 then 1
      else if sj_fixed b = 20 \<and> sj_fixed a = 20 then 0
      else if flt_lt (sj_priority a) (sj_priority b) then 1
      else if flt_lt (sj_priority b) (sj_priority a) then -1 else 0)"

lemma mset_sort_insert [simp]: "mset (sort_insert cmp x xs) = add_mset x (mset xs)"
  by (induction cmp x xs rule: sort_insert.induct) auto

lemma mset_qsort [simp]: "mset (qsort cmp xs) = mset xs"
  unfolding qsort_def by (induction xs) auto

lemma length_qsort [simp]: "length (qsort cmp xs) = length xs"
  using mset_qsort [of cmp xs] by (metis size_mset)

lemma set_qsort [simp]: "set (qsort cmp xs) = set xs"
  using mset_qsort [of cmp xs] by (metis set_mset_mset)

text \<open>
  Sorted by a comparison that is total and transitive on the elements: no element comes after
  one it should precede.
\<close>

definition cmp_ok :: "('a \<Rightarrow> 'a \<Rightarrow> int) \<Rightarrow> 'a set \<Rightarrow> bool" where
  "cmp_ok cmp A \<longleftrightarrow> (\<forall>a\<in>A. \<forall>b\<in>A. cmp a b \<le> 0 \<or> cmp b a \<le> 0) \<and>
     (\<forall>a\<in>A. \<forall>b\<in>A. \<forall>c\<in>A. cmp a b \<le> 0 \<longrightarrow> cmp b c \<le> 0 \<longrightarrow> cmp a c \<le> 0)"

lemma cmp_ok_subset: "cmp_ok cmp A \<Longrightarrow> B \<subseteq> A \<Longrightarrow> cmp_ok cmp B"
  unfolding cmp_ok_def by (meson subsetD)

lemma cmp_ok_total: "cmp_ok cmp A \<Longrightarrow> a \<in> A \<Longrightarrow> b \<in> A \<Longrightarrow> \<not> cmp a b \<le> 0 \<Longrightarrow> cmp b a \<le> 0"
  unfolding cmp_ok_def by blast

lemma cmp_ok_trans:
  "cmp_ok cmp A \<Longrightarrow> a \<in> A \<Longrightarrow> b \<in> A \<Longrightarrow> c \<in> A \<Longrightarrow> cmp a b \<le> 0 \<Longrightarrow> cmp b c \<le> 0 \<Longrightarrow> cmp a c \<le> 0"
  unfolding cmp_ok_def by blast

lemma set_sort_insert [simp]: "set (sort_insert cmp x xs) = insert x (set xs)"
  using mset_sort_insert [of cmp x xs] by (metis set_mset_add_mset_insert set_mset_mset)

lemma sorted_sort_insert:
  assumes "sorted_wrt (\<lambda>a b. cmp a b \<le> 0) xs" and "cmp_ok cmp (insert x (set xs))"
  shows "sorted_wrt (\<lambda>a b. cmp a b \<le> 0) (sort_insert cmp x xs)"
  using assms
proof (induction cmp x xs rule: sort_insert.induct)
  case (2 cmp x y ys)
  show ?case
  proof (cases "cmp x y \<le> 0")
    case True
    have "cmp x z \<le> 0" if "z \<in> set ys" for z
      by (rule cmp_ok_trans [OF "2.prems"(2) _ _ _ True]) (use "2.prems"(1) that in simp_all)
    then show ?thesis using "2.prems"(1) True by simp
  next
    case False
    have yx: "cmp y x \<le> 0" by (rule cmp_ok_total [OF "2.prems"(2) _ _ False]) simp_all
    have "cmp_ok cmp (insert x (set ys))" by (rule cmp_ok_subset [OF "2.prems"(2)]) auto
    then have "sorted_wrt (\<lambda>a b. cmp a b \<le> 0) (sort_insert cmp x ys)"
      using "2.IH" [OF False] "2.prems"(1) by simp
    then show ?thesis using False yx "2.prems"(1) by simp
  qed
qed simp

lemma sorted_qsort:
  "cmp_ok cmp (set xs) \<Longrightarrow> sorted_wrt (\<lambda>a b. cmp a b \<le> 0) (qsort cmp xs)"
proof (induction xs)
  case Nil
  then show ?case by (simp add: qsort_def)
next
  case (Cons x xs)
  have "cmp_ok cmp (set xs)" by (rule cmp_ok_subset [OF Cons.prems]) auto
  then have s: "sorted_wrt (\<lambda>a b. cmp a b \<le> 0) (qsort cmp xs)" by (rule Cons.IH)
  have "cmp_ok cmp (insert x (set (qsort cmp xs)))" using Cons.prems by simp
  from sorted_sort_insert [OF s this] show ?case by (simp add: qsort_def)
qed

lemma job_cmp_le: "job_cmp a b \<le> 0 \<longleftrightarrow>
    sj_fixed a = 20 \<or> (sj_fixed b \<noteq> 20 \<and> \<not> flt_lt (sj_priority a) (sj_priority b))"
  by (simp add: job_cmp_def)

lemma queue_cmp_le: "queue_cmp a b \<le> 0 \<longleftrightarrow> \<not> flt_lt (sq_priority a) (sq_priority b)"
  by (simp add: queue_cmp_def)

lemma job_cmp_ok:
  assumes "\<forall>j\<in>A. sj_priority j \<noteq> NaN"
  shows "cmp_ok job_cmp A"
  unfolding cmp_ok_def job_cmp_le
proof (intro conjI ballI impI)
  fix a b
  show "(sj_fixed a = 20 \<or> sj_fixed b \<noteq> 20 \<and> \<not> flt_lt (sj_priority a) (sj_priority b)) \<or>
        (sj_fixed b = 20 \<or> sj_fixed a \<noteq> 20 \<and> \<not> flt_lt (sj_priority b) (sj_priority a))"
    using flt_lt_asym by blast
next
  fix a b c
  assume "b \<in> A" "sj_fixed a = 20 \<or> sj_fixed b \<noteq> 20 \<and> \<not> flt_lt (sj_priority a) (sj_priority b)"
    "sj_fixed b = 20 \<or> sj_fixed c \<noteq> 20 \<and> \<not> flt_lt (sj_priority b) (sj_priority c)"
  then show "sj_fixed a = 20 \<or> sj_fixed c \<noteq> 20 \<and> \<not> flt_lt (sj_priority a) (sj_priority c)"
    using assms flt_not_lt_trans by blast
qed

lemma queue_cmp_ok:
  assumes "\<forall>q\<in>A. sq_priority q \<noteq> NaN"
  shows "cmp_ok queue_cmp A"
  unfolding cmp_ok_def queue_cmp_le
proof (intro conjI ballI impI)
  fix a b
  show "\<not> flt_lt (sq_priority a) (sq_priority b) \<or> \<not> flt_lt (sq_priority b) (sq_priority a)"
    using flt_lt_asym by blast
next
  fix a b c
  assume "b \<in> A" "\<not> flt_lt (sq_priority a) (sq_priority b)" "\<not> flt_lt (sq_priority b) (sq_priority c)"
  then show "\<not> flt_lt (sq_priority a) (sq_priority c)" using assms flt_not_lt_trans by blast
qed

end
