(* ===== verification/SCH_Match.thy ===== *)
theory SCH_Match
  imports SCH_Jobs
begin

text \<open>
  Match-making: which of the hosts that the daemon offers for a job the scheduler keeps, and with
  which queue (\<open>gw_scheduler_filter_select_queues\<close>, \<open>gw_scheduler_matching_arrays\<close>), and the priorities
  of the queues kept (\<open>gw_scheduler_host_policies\<close>). The array \<open>hosts\<close> of the code holds -1 for a host
  that is not used and the index of the queue otherwise; here it is a list of optional indices.
\<close>

section \<open>Filtering hosts and choosing queues\<close>

text \<open>
  The loop over the queues of a host: the best rank, and of equal ranks the most free slots. The
  code does not read the slots of a queue with a better rank into \<open>mfnc\<close>. The arguments are the
  queue looked at, the best rank, the slots and the index of the best so far.
\<close>

fun best_queue :: "(string \<times> int \<times> int) list \<Rightarrow> nat \<Rightarrow> int \<Rightarrow> int \<Rightarrow> nat \<Rightarrow> nat" where
  "best_queue [] j mrank mfnc qnum = qnum"
| "best_queue ((n, rank, fnc) # qs) j mrank mfnc qnum =
     (if rank > mrank then best_queue qs (Suc j) rank mfnc j
      else if rank = mrank \<and> fnc > mfnc then best_queue qs (Suc j) mrank fnc j
      else best_queue qs (Suc j) mrank mfnc qnum)"

definition select_queue :: "gw_match \<Rightarrow> nat option" where
  "select_queue m =
     (case m_queues m of
        [] \<Rightarrow> None
      | (n, rank, fnc) # qs \<Rightarrow> Some (best_queue qs 1 rank fnc 0))"

definition isinhistory :: "int \<Rightarrow> (int \<times> int) list \<Rightarrow> bool" where
  "isinhistory hid hl \<longleftrightarrow> hid \<in> fst ` set hl"

text \<open>The four filters. \<open>None\<close> is an empty history whose first record is read.\<close>

definition host_usable :: "sch_env \<Rightarrow> sch_user_host list \<Rightarrow> sch_job \<Rightarrow> gw_match \<Rightarrow> bool option" where
  "host_usable e uhosts job m =
     (case find_first uh_hid (m_host_id m) uhosts of
        None \<Rightarrow> Some False
      | Some j \<Rightarrow>
          (if sc_now e \<le> uh_banned (uhosts ! j) then Some False
           else if sj_reason job \<in> {GW_REASON_USER_REQUESTED, GW_REASON_SUSPENSION_TIME}
           then (case client_history e (sj_jid job) of
                   None \<Rightarrow> Some False
                 | Some hl \<Rightarrow> Some (\<not> isinhistory (m_host_id m) hl))
           else if sj_reason job = GW_REASON_RESCHEDULING_TIMEOUT
           then (case client_history e (sj_jid job) of
                   None \<Rightarrow> Some False
                 | Some hl \<Rightarrow>
                     (if isinhistory (m_host_id m) hl then Some False
                      else case hl of
                        [] \<Rightarrow> None
                      | (h, rank) # _ \<Rightarrow> Some (\<exists>q\<in>set (m_queues m). fst (snd q) > rank)))
           else Some (m_fixed_priority m \<noteq> 0)))"

definition select_host :: "sch_env \<Rightarrow> sch_user_host list \<Rightarrow> sch_job \<Rightarrow> gw_match \<Rightarrow> nat option option" where
  "select_host e uhosts job m = do {
     ok \<leftarrow> host_usable e uhosts job m;
     (if ok then map_option Some (select_queue m) else Some None) }"

definition gw_scheduler_filter_select_queues ::
  "sch_env \<Rightarrow> gw_scheduler \<Rightarrow> sch_job \<Rightarrow> gw_match list \<Rightarrow> (nat option list \<times> nat) option" where
  "gw_scheduler_filter_select_queues e s job match =
     (if sj_ua_id job < length (sch_users s)
      then do {
        hs \<leftarrow> those (map (select_host e (su_hosts (sch_users s ! sj_ua_id job)) job) match);
        Some (hs, length (filter (\<lambda>x. x \<noteq> None) hs)) }
      else None)"

section \<open>The priorities of the queues\<close>

definition gw_scheduler_host_estimated_time :: "sch_env \<Rightarrow> sch_user_host \<Rightarrow> gw_sch_conf \<Rightarrow> flt" where
  "gw_scheduler_host_estimated_time e th c =
     (let r = flo e;
          avrg = flt_add r (flt_add r (uh_avrg_execution th) (uh_avrg_suspension th)) (uh_avrg_transfer th);
          lst = flt_add r (flt_add r (uh_last_execution th) (uh_last_suspension th)) (uh_last_transfer th) in
      if flt_is_zero avrg then lst
      else if flt_is_zero lst then avrg
      else flt_add r (flt_mul r (flt_sub r (flt_of_int r 1) (ug_ratio c)) avrg) (flt_mul r (ug_ratio c) lst))"

definition FLT_MAX :: flt where "FLT_MAX = Fin False (2 ^ 128 - 2 ^ 104)"
definition INT_MAX :: int where "INT_MAX = 2 ^ 31 - 1"
definition INT_MIN :: int where "INT_MIN = - (2 ^ 31)"

definition queue_usage :: "sch_env \<Rightarrow> gw_sch_conf \<Rightarrow> sch_user_host list \<Rightarrow> sch_queue \<Rightarrow> sch_queue option" where
  "queue_usage e c uhosts q =
     (if flt_pos (wusage c)
      then if sq_uha_id q < length uhosts
        then Some (q\<lparr>sq_usage := gw_scheduler_host_estimated_time e (uhosts ! sq_uha_id q) c\<rparr>) else None
      else Some q)"

text \<open>Maxima and minima over the queues, in the order of the loop.\<close>

definition flt_max_from :: "flt \<Rightarrow> flt list \<Rightarrow> flt" where
  "flt_max_from a xs = fold (\<lambda>x m. if flt_lt m x then x else m) xs a"

definition flt_min_pos_from :: "flt \<Rightarrow> flt list \<Rightarrow> flt" where
  "flt_min_pos_from a xs = fold (\<lambda>x m. if flt_lt x m \<and> \<not> flt_is_zero x then x else m) xs a"

definition int_max_from :: "int \<Rightarrow> int list \<Rightarrow> int" where
  "int_max_from a xs = fold (\<lambda>x m. if x > m then x else m) xs a"

definition int_min_from :: "int \<Rightarrow> int list \<Rightarrow> int" where
  "int_min_from a xs = fold (\<lambda>x m. if x < m then x else m) xs a"

definition queue_priority ::
  "sch_env \<Rightarrow> gw_sch_conf \<Rightarrow> int \<Rightarrow> int \<Rightarrow> int \<Rightarrow> flt \<Rightarrow> flt \<Rightarrow> sch_queue \<Rightarrow> sch_queue" where
  "queue_priority e c max_fixed max_rank min_rank min_usage max_usage q =
     (let r = flo e;
          nfixed = flt_div r (flt_of_int r (sq_fixed q)) (flt_of_int r max_fixed);
          nrank = (if sq_rank q > 0 \<and> max_rank \<noteq> 0
                   then flt_div r (flt_of_int r (sq_rank q)) (flt_of_int r max_rank)
                   else if sq_rank q < 0 \<and> min_rank \<noteq> 0
                   then flt_div r (flt_neg (flt_of_int r (sq_rank q))) (flt_of_int r min_rank)
                   else fzero);
          nusage = (if flt_is_zero (sq_usage q)
                    then if flt_is_zero max_usage then fzero else flt_div r min_usage max_usage
                    else flt_div r min_usage (sq_usage q)) in
      q\<lparr>sq_nfixed := nfixed, sq_nrank := nrank, sq_nusage := nusage,
        sq_priority := flt_add r (flt_add r (flt_mul r (wrfixed c) nfixed) (flt_mul r (wrank c) nrank))
                               (flt_mul r (wusage c) nusage)\<rparr>)"

definition gw_scheduler_host_policies ::
  "sch_env \<Rightarrow> gw_sch_conf \<Rightarrow> sch_user_host list \<Rightarrow> sch_queue list \<Rightarrow> sch_queue list option" where
  "gw_scheduler_host_policies e c uhosts qs = do {
     qs \<leftarrow> those (map (queue_usage e c uhosts) qs);
     let max_fixed = int_max_from 0 (map sq_fixed qs);
     let max_rank = int_max_from INT_MIN (map sq_rank qs);
     let min_rank = int_min_from INT_MAX (map sq_rank qs);
     let min_usage = flt_min_pos_from FLT_MAX (map sq_usage qs);
     let max_usage = flt_max_from fzero (map sq_usage qs);
     Some (qsort queue_cmp
       (map (queue_priority e c max_fixed max_rank min_rank min_usage max_usage) qs)) }"

section \<open>The matching hosts of every job\<close>

text \<open>A queue name that fills its buffer but for one place is left without an end, which is \<open>None\<close>.\<close>

definition match_queue :: "sch_user_host list \<Rightarrow> gw_match \<times> nat option \<Rightarrow> sch_queue list option" where
  "match_queue uhosts mi =
     (case mi of
        (m, None) \<Rightarrow> Some []
      | (m, Some idx) \<Rightarrow>
          (case find_first uh_hid (m_host_id m) uhosts of
             None \<Rightarrow> Some []
           | Some l \<Rightarrow>
               (case m_queues m ! idx of
                  (name, rank, slots) \<Rightarrow>
                    if length name \<ge> GW_MSG_STRING_SHORT - 1 then None
                    else Some [\<lparr>sq_ha_id = uh_ha_id (uhosts ! l), sq_uha_id = l,
                      sq_qname = name, sq_slots = slots,
                      sq_fixed = m_fixed_priority m, sq_nfixed = fzero, sq_rank = rank, sq_nrank = fzero,
                      sq_usage = fzero, sq_nusage = fzero, sq_priority = fzero\<rparr>])))"

text \<open>
  The array of \<open>tqs\<close> matching hosts of a job. \<open>None\<close> would be an array that is not filled, or that is
  left.
\<close>

definition build_mhosts ::
  "sch_user_host list \<Rightarrow> gw_match list \<Rightarrow> nat option list \<Rightarrow> nat \<Rightarrow> sch_queue list option" where
  "build_mhosts uhosts match hs tqs =
     (case those (map (match_queue uhosts) (zip match hs)) of
        None \<Rightarrow> None
      | Some qss \<Rightarrow> if length (concat qss) = tqs then Some (concat qss) else None)"

datatype sch_out =
    OUT_JOB int int string int | OUT_FAILED int | OUT_END | OUT_INIT | OUT_INIT_FAILURE string | OUT_FINALIZE

text \<open>
  One round of the loop over the jobs. The arguments are the array identifier of the last match,
  the job before (as the loop left it) and the job; the result is the job, the lines printed and the
  new value of \<open>last_array\<close>.
\<close>

definition match_one ::
  "sch_env \<Rightarrow> gw_scheduler \<Rightarrow> int \<Rightarrow> sch_job option \<Rightarrow> sch_job \<Rightarrow> (sch_job \<times> sch_out list \<times> int) option" where
  "match_one e s last_array prev job0 =
     (let job = job0\<lparr>sj_mhosts := []\<rparr>; aid = sj_aid job in
      if aid = -1 \<or> last_array \<noteq> aid \<or> sj_reason job = GW_REASON_SELF_MIGRATION
      then case client_match e (sj_jid job) aid of
        None \<Rightarrow> Some (job, [], last_array)
      | Some match \<Rightarrow>
          (if match = [] then Some (job, [], last_array)
           else do {
             (hs, tqs) \<leftarrow> gw_scheduler_filter_select_queues e s job match;
             let uhosts = su_hosts (sch_users s ! sj_ua_id job);
             let last_array' = (if sj_reason job = GW_REASON_SELF_MIGRATION then -1 else aid);
             (if tqs > 0 then do {
                qs \<leftarrow> build_mhosts uhosts match hs tqs;
                qs \<leftarrow> (if disable (sch_conf s) = 0
                       then gw_scheduler_host_policies e (sch_conf s) uhosts qs else Some qs);
                Some (job\<lparr>sj_mhosts := qs\<rparr>, [], last_array') }
              else Some (job,
                if sj_reason job \<noteq> GW_REASON_NONE then [OUT_FAILED (sj_jid job)] else [],
                last_array')) })
      else case prev of
        None \<Rightarrow> None
      | Some p \<Rightarrow> Some (job\<lparr>sj_mhosts := sj_mhosts p\<rparr>, [], last_array))"

fun match_jobs ::
  "sch_env \<Rightarrow> gw_scheduler \<Rightarrow> int \<Rightarrow> sch_job option \<Rightarrow> sch_job list \<Rightarrow> (sch_job list \<times> sch_out list) option" where
  "match_jobs e s last_array prev [] = Some ([], [])"
| "match_jobs e s last_array prev (job # jobs) = do {
     (job, out, last_array) \<leftarrow> match_one e s last_array prev job;
     (jobs, outs) \<leftarrow> match_jobs e s last_array (Some job) jobs;
     Some (job # jobs, out @ outs) }"

definition gw_scheduler_matching_arrays :: "sch_env \<Rightarrow> gw_scheduler \<Rightarrow> (gw_scheduler \<times> sch_out list) option" where
  "gw_scheduler_matching_arrays e s = do {
     (jobs, out) \<leftarrow> match_jobs e s (-1) None (sch_jobs s);
     Some (s\<lparr>sch_jobs := jobs\<rparr>, out) }"

end
