(* ===== verification/SCH_Policy.thy ===== *)
theory SCH_Policy
  imports SCH_Match
begin

text \<open>
  The priorities of the jobs (\<open>gw_scheduler_job_policies\<close> of \<open>src/scheduler/gw_scheduler_jobs.c\<close>): fixed
  priority, waiting time and deadline give a first order, and the share policy then numbers the
  jobs of each user in that order, after the jobs of the past windows, and lowers the priority with
  the number. \<open>None\<close> is the division by a share of zero, a conversion of a value that is no number, or
  an access outside an array.
\<close>

section \<open>Fixed priority, waiting time and deadline\<close>

definition deadline_half :: "sch_env \<Rightarrow> gw_sch_conf \<Rightarrow> flt" where
  "deadline_half e c =
     (case flt_mul (dbl e) (flt_mul (dbl e) (mk_flt (dbl e) True (3 / 2)) (flt_of_int (dbl e) (dl_half c)))
             (flt_of_int (dbl e) 86400) of
        Fin s m \<Rightarrow> mk_flt (flo e) s m | x \<Rightarrow> x)"

definition job_dates :: "sch_env \<Rightarrow> gw_sch_conf \<Rightarrow> sch_job \<Rightarrow> sch_job option" where
  "job_dates e c j =
     (let j = j\<lparr>sj_waiting := sc_now e - sj_schedule_time j\<rparr> in
      if sj_deadline_time j \<noteq> 0
      then let dt = sj_deadline_time j - sc_now e in
        if dt \<le> 0 then Some (j\<lparr>sj_deadline := 100\<rparr>)
        else map_option (\<lambda>d. j\<lparr>sj_deadline := d\<rparr>)
          (flt_trunc (flt_mul (dbl e) (flt_of_int (dbl e) 100)
             (exp_fn e (flt_div (flo e) (flt_of_int (flo e) dt) (deadline_half e c)))))
      else Some (j\<lparr>sj_deadline := 0\<rparr>))"

definition norm_part :: "rounding \<Rightarrow> int \<Rightarrow> int \<Rightarrow> flt" where
  "norm_part r x mx = (if mx = 0 then fzero else flt_div r (flt_of_int r x) (flt_of_int r mx))"

definition job_priority :: "sch_env \<Rightarrow> gw_sch_conf \<Rightarrow> int \<Rightarrow> int \<Rightarrow> int \<Rightarrow> sch_job \<Rightarrow> sch_job" where
  "job_priority e c max_fixed max_waiting max_deadline j =
     (let r = flo e;
          nf = norm_part r (sj_fixed j) max_fixed;
          nw = norm_part r (sj_waiting j) max_waiting;
          nd = norm_part r (sj_deadline j) max_deadline in
      j\<lparr>sj_nfixed := nf, sj_nwaiting := nw, sj_ndeadline := nd,
        sj_priority := flt_add r (flt_add r (flt_mul r (wfixed c) nf) (flt_mul r (wwaiting c) nw))
                               (flt_mul r (wdeadline c) nd)\<rparr>)"

definition job_presort :: "sch_env \<Rightarrow> gw_sch_conf \<Rightarrow> sch_job list \<Rightarrow> sch_job list option" where
  "job_presort e c js = do {
     js \<leftarrow> those (map (job_dates e c) js);
     let mf = int_max_from 0 (map sj_fixed js);
     let mw = int_max_from 0 (map sj_waiting js);
     let md = int_max_from 0 (map sj_deadline js);
     Some (qsort job_cmp (map (job_priority e c mf mw md) js)) }"

section \<open>Shares\<close>

text \<open>The jobs of the past windows, discounted exponentially and rounded down window by window.\<close>

definition window_weight :: "sch_env \<Rightarrow> nat \<Rightarrow> flt" where
  "window_weight e i =
     exp_fn e (flt_neg (flt_div (dbl e) (flt_of_int (flo e) (int i)) (mk_flt (dbl e) False (7 / 2))))"

definition window_jobs :: "sch_env \<Rightarrow> sch_user \<Rightarrow> nat \<Rightarrow> int option" where
  "window_jobs e u i =
     (if i < length (sub_windows u)
      then flt_trunc (flt_mul (dbl e) (flt_of_int (dbl e) (sub_windows u ! i)) (window_weight e i))
      else None)"

text \<open>The windows are added up in an \<open>int\<close>; leaving its range is undefined.\<close>

fun add_windows :: "int \<Rightarrow> int list \<Rightarrow> int option" where
  "add_windows acc [] = Some acc"
| "add_windows acc (w # ws) =
     (if INT_MIN \<le> acc + w \<and> acc + w \<le> INT_MAX then add_windows (acc + w) ws else None)"

definition gw_scheduler_user_past_jobs :: "sch_env \<Rightarrow> sch_user \<Rightarrow> int \<Rightarrow> int option" where
  "gw_scheduler_user_past_jobs e u depth =
     (case those (map (window_jobs e u) [0..<nat depth]) of None \<Rightarrow> None | Some ws \<Rightarrow> add_windows 0 ws)"

lemma add_windows_sum: "add_windows t ws = Some n \<Longrightarrow> n = t + sum_list ws"
proof (induction ws arbitrary: t)
  case (Cons w ws)
  then have "add_windows (t + w) ws = Some n" by (simp split: if_splits)
  then show ?case using Cons.IH by fastforce
qed simp

lemma add_windows_some:
  "\<forall>w\<in>set ws. \<bar>w\<bar> \<le> b \<Longrightarrow> \<bar>t\<bar> + int (length ws) * b \<le> INT_MAX \<Longrightarrow> add_windows t ws \<noteq> None"
proof (induction ws arbitrary: t)
  case (Cons w ws)
  have b: "\<bar>w\<bar> \<le> b" "0 \<le> b" using Cons.prems(1) by auto
  have "\<bar>t + w\<bar> \<le> \<bar>t\<bar> + b" using b by simp
  moreover have "int (length (w # ws)) * b = b + int (length ws) * b" by (simp add: algebra_simps)
  moreover have "0 \<le> int (length ws) * b" using b by simp
  ultimately have "\<bar>t + w\<bar> + int (length ws) * b \<le> INT_MAX" "\<bar>t + w\<bar> \<le> INT_MAX" using Cons.prems(2) by linarith+
  moreover from this have "INT_MIN \<le> t + w" "t + w \<le> INT_MAX" by (simp_all add: INT_MAX_def INT_MIN_def)
  ultimately show ?case using Cons.IH [of "t + w"] Cons.prems(1) by simp
qed simp

lemma past_jobs_sum:
  assumes "gw_scheduler_user_past_jobs e u d = Some n"
  obtains xs where "those (map (window_jobs e u) [0..<nat d]) = Some xs" "n = sum_list xs"
  using assms add_windows_sum [of 0] by (auto simp: gw_scheduler_user_past_jobs_def split: option.splits)

definition user_share :: "sch_env \<Rightarrow> gw_sch_conf \<Rightarrow> sch_user \<Rightarrow> (sch_user \<times> int) option" where
  "user_share e c u = do {
     past \<leftarrow> gw_scheduler_user_past_jobs e u (window_depth c);
     let share = gw_sch_get_user_share c (su_name u);
     (if share = 0 then None
      else Some (u\<lparr>su_share := share, su_next_ujid := past\<rparr>,
                 (su_total_jobs u + past - 1) sdiv share)) }"

text \<open>The loop over the jobs: each takes the next number of its user.\<close>

definition share_one ::
  "sch_env \<Rightarrow> gw_sch_conf \<Rightarrow> int \<Rightarrow> sch_user list \<Rightarrow> sch_job \<Rightarrow> (sch_user list \<times> sch_job) option" where
  "share_one e c max_share us j =
     (if sj_ua_id j < length us
      then let u = us ! sj_ua_id j; r = flo e in
        (if su_share u = 0 then None
         else let sh = max_share - su_next_ujid u sdiv su_share u;
                  nsh = flt_div r (flt_of_int r sh) (flt_of_int r max_share) in
           Some (us[sj_ua_id j := u\<lparr>su_next_ujid := su_next_ujid u + 1\<rparr>],
                 j\<lparr>sj_share := sh, sj_nshare := nsh,
                   sj_priority := flt_add r (sj_priority j) (flt_mul r (wshare c) nsh)\<rparr>))
      else None)"

fun share_jobs ::
  "sch_env \<Rightarrow> gw_sch_conf \<Rightarrow> int \<Rightarrow> sch_user list \<Rightarrow> sch_job list \<Rightarrow> (sch_user list \<times> sch_job list) option" where
  "share_jobs e c ms us [] = Some (us, [])"
| "share_jobs e c ms us (j # js) = do {
     (us, j) \<leftarrow> share_one e c ms us j;
     (us, js) \<leftarrow> share_jobs e c ms us js;
     Some (us, j # js) }"

definition gw_scheduler_job_policies :: "sch_env \<Rightarrow> gw_scheduler \<Rightarrow> gw_scheduler option" where
  "gw_scheduler_job_policies e s =
     (let c = sch_conf s in do {
        js \<leftarrow> job_presort e c (sch_jobs s);
        (if flt_pos (wshare c)
         then do {
           uq \<leftarrow> those (map (user_share e c) (sch_users s));
           let ms = int_max_from 0 (map snd uq);
           let ms = (if ms = 0 then 1 else ms);
           (us, js) \<leftarrow> share_jobs e c ms (map fst uq) js;
           Some (s\<lparr>sch_users := us, sch_jobs := qsort job_cmp js\<rparr>) }
         else Some (s\<lparr>sch_jobs := js\<rparr>)) })"

end
