(* ===== verification/SCH_Dispatch.thy ===== *)
theory SCH_Dispatch
  imports SCH_Policy
begin

text \<open>
  The two schedulers: \<open>src/scheduler/gw_scheduler.c\<close>, which walks once over the sorted jobs and then
  once over those to be rescheduled, and \<open>src/scheduler/gw_flood_scheduler.c\<close>, which gives the users
  chunks of jobs in turns. A dispatched job leaves the job list at once, and the loop goes on
  at the same index.
\<close>

section \<open>The built-in scheduler\<close>

text \<open>
  The loop over the matching queues of a job: the first whose host may take another job. The outer
  option is an index outside the hosts.
\<close>

fun pick_queue :: "int \<Rightarrow> sch_host list \<Rightarrow> sch_queue list \<Rightarrow> sch_queue option option" where
  "pick_queue max_host hosts [] = Some None"
| "pick_queue max_host hosts (q # qs) =
     (if sq_ha_id q < length hosts
      then let d = sh_dispatched (hosts ! sq_ha_id q) in
        if max_host \<noteq> 0 \<and> d \<ge> max_host then pick_queue max_host hosts qs
        else if sq_slots q - d > 0 then Some (Some q)
        else pick_queue max_host hosts qs
      else None)"

definition inc_dispatched :: "nat \<Rightarrow> nat \<Rightarrow> gw_scheduler \<Rightarrow> gw_scheduler" where
  "inc_dispatched h k s =
     s\<lparr>sch_hosts := (sch_hosts s)[h := (sch_hosts s ! h)\<lparr>sh_dispatched := sh_dispatched (sch_hosts s ! h) + 1\<rparr>],
       sch_users := (sch_users s)[k := (sch_users s ! k)\<lparr>su_dispatched := su_dispatched (sch_users s ! k) + 1\<rparr>]\<rparr>"

definition dispatch_line :: "gw_scheduler \<Rightarrow> sch_job \<Rightarrow> sch_queue \<Rightarrow> sch_out" where
  "dispatch_line s job q = OUT_JOB (sj_jid job) (sh_hid (sch_hosts s ! sq_ha_id q)) (sq_qname q) (sq_rank q)"

text \<open>
  One round of the loop: \<open>Inl\<close> goes on with the next index, \<open>Inr\<close> has dispatched the job.
\<close>

definition sched_round ::
  "bool \<Rightarrow> gw_sch_conf \<Rightarrow> nat \<Rightarrow> gw_scheduler \<Rightarrow> (unit + gw_scheduler \<times> sch_out) option" where
  "sched_round reschedule c i s =
     (let job = sch_jobs s ! i in
      if \<not> sj_ua_id job < length (sch_users s) then None
      else let u = sch_users s ! sj_ua_id job in
        if max_user c \<noteq> 0 \<and> su_running_jobs u + su_dispatched u \<ge> max_user c then Some (Inl ())
        else if reschedule \<longleftrightarrow> sj_reason job = GW_REASON_NONE then Some (Inl ())
        else do {
          r \<leftarrow> pick_queue (max_resource c) (sch_hosts s) (sj_mhosts job);
          (case r of
             None \<Rightarrow> Some (Inl ())
           | Some q \<Rightarrow> do {
               s' \<leftarrow> gw_scheduler_job_del (sj_jid job) True (inc_dispatched (sq_ha_id q) (sj_ua_id job) s);
               Some (Inr (s', dispatch_line s job q)) }) })"

lemma find_first_Some:
  "find_first key k xs = Some i \<Longrightarrow> i < length xs \<and> key (xs ! i) = k \<and> (\<forall>n<i. key (xs ! n) \<noteq> k)"
proof (induction key k xs arbitrary: i rule: find_first.induct)
  case (2 key k x xs)
  show ?case
  proof (cases i)
    case 0
    then show ?thesis using "2.prems" by (auto split: if_splits)
  next
    case (Suc n)
    then have "key x \<noteq> k" "find_first key k xs = Some n" using "2.prems" by (auto split: if_splits)
    then show ?thesis using "2.IH" [of n] Suc by (auto simp: less_Suc_eq_0_disj)
  qed
qed simp

lemma find_first_None: "find_first key k xs = None \<longleftrightarrow> (\<forall>x\<in>set xs. key x \<noteq> k)"
  by (induction key k xs rule: find_first.induct) auto

lemma job_del_length:
  assumes "gw_scheduler_job_del jid d s = Some s'" and "\<exists>j\<in>set (sch_jobs s). sj_jid j = jid"
  shows "Suc (length (sch_jobs s')) = length (sch_jobs s)"
proof -
  obtain i where i: "find_first sj_jid jid (sch_jobs s) = Some i" "i < length (sch_jobs s)"
    using assms(2) find_first_None [of sj_jid jid "sch_jobs s"] find_first_Some by fastforce
  then show ?thesis
    using assms(1) by (auto simp: gw_scheduler_job_del_def Let_def bind_eq_Some_conv split: if_splits)
qed

lemma sched_round_dispatch:
  assumes "sched_round rs c i s = Some (Inr (s', l))"
  shows "\<exists>q. pick_queue (max_resource c) (sch_hosts s) (sj_mhosts (sch_jobs s ! i)) = Some (Some q) \<and>
     gw_scheduler_job_del (sj_jid (sch_jobs s ! i)) True
       (inc_dispatched (sq_ha_id q) (sj_ua_id (sch_jobs s ! i)) s) = Some s' \<and>
     l = dispatch_line s (sch_jobs s ! i) q \<and>
     sj_ua_id (sch_jobs s ! i) < length (sch_users s) \<and>
     (max_user c = 0 \<or> su_running_jobs (sch_users s ! sj_ua_id (sch_jobs s ! i)) +
        su_dispatched (sch_users s ! sj_ua_id (sch_jobs s ! i)) < max_user c) \<and>
     (rs \<longleftrightarrow> sj_reason (sch_jobs s ! i) \<noteq> GW_REASON_NONE)"
  using assms
  by (auto simp: sched_round_def Let_def bind_eq_Some_conv split: if_splits option.splits)

lemma sched_round_length:
  assumes "sched_round rs c i s = Some (Inr (s', l))" and "i < length (sch_jobs s)"
  shows "Suc (length (sch_jobs s')) = length (sch_jobs s)"
proof -
  obtain q :: sch_queue where q: "gw_scheduler_job_del (sj_jid (sch_jobs s ! i)) True
      (inc_dispatched (sq_ha_id q) (sj_ua_id (sch_jobs s ! i)) s) = Some s'"
    using sched_round_dispatch [OF assms(1)] by blast
  moreover have "\<exists>j\<in>set (sch_jobs s). sj_jid j = sj_jid (sch_jobs s ! i)" using assms(2) by auto
  ultimately show ?thesis using job_del_length [OF q] by (simp add: inc_dispatched_def)
qed

function sched_loop ::
  "bool \<Rightarrow> gw_sch_conf \<Rightarrow> int \<Rightarrow> nat \<Rightarrow> int \<Rightarrow> gw_scheduler \<Rightarrow> (gw_scheduler \<times> int \<times> sch_out list) option" where
  "sched_loop reschedule c max_dsp i dispatched s =
     (if i < length (sch_jobs s) \<and> dispatched < max_dsp
      then case sched_round reschedule c i s of
        None \<Rightarrow> None
      | Some (Inl u) \<Rightarrow> sched_loop reschedule c max_dsp (Suc i) dispatched s
      | Some (Inr (s', l)) \<Rightarrow>
          map_option (\<lambda>(s2, d, ls). (s2, d, l # ls)) (sched_loop reschedule c max_dsp i (dispatched + 1) s')
      else Some (s, dispatched, []))"
  by pat_completeness auto
termination
  by (relation "measure (\<lambda>(rs, c, m, i, d, s). length (sch_jobs s) - i)")
     (auto dest: sched_round_length)

declare sched_loop.simps [simp del]

definition gw_sched_dispatch ::
  "bool \<Rightarrow> int \<Rightarrow> gw_scheduler \<Rightarrow> (gw_scheduler \<times> int \<times> sch_out list) option" where
  "gw_sched_dispatch reschedule dispatched s =
     (let c = sch_conf s;
          max_dsp = (if max_dispatch c = 0 then int (length (sch_jobs s)) else max_dispatch c) in
      sched_loop reschedule c max_dsp 0 dispatched s)"

definition gw_sched :: "gw_scheduler \<Rightarrow> (gw_scheduler \<times> sch_out list) option" where
  "gw_sched s = do {
     (s, d, out1) \<leftarrow> gw_sched_dispatch False 0 s;
     (s, d, out2) \<leftarrow> gw_sched_dispatch True d s;
     Some (s, out1 @ out2) }"

section \<open>The flood scheduler\<close>

record sched_param =
  host_max :: int
  user_chunk :: int
  user_max :: int
  sched_max :: int
  dispached :: int

text \<open>
  The loop of \<open>user_get_dispatched\<close> tests the number of users instead of comparing the index with
  it: a user that is not in the list is searched for past the end of the array.
\<close>

definition user_get_dispatched :: "int \<Rightarrow> gw_scheduler \<Rightarrow> nat option" where
  "user_get_dispatched uid s = find_first su_uid uid (sch_users s)"

fun pick_flood :: "int \<Rightarrow> int \<Rightarrow> sch_host list \<Rightarrow> sch_queue list \<Rightarrow> sch_queue option option" where
  "pick_flood hmax np hosts [] = Some None"
| "pick_flood hmax np hosts (q # qs) =
     (if sq_ha_id q < length hosts
      then let h = hosts ! sq_ha_id q; d = sh_dispatched h in
        if hmax \<noteq> 0 \<and> sh_used_slots h + d \<ge> hmax then pick_flood hmax np hosts qs
        else if sq_slots q - d \<ge> np then Some (Some q)
        else pick_flood hmax np hosts qs
      else None)"

definition flood_round ::
  "bool \<Rightarrow> int \<Rightarrow> int \<Rightarrow> nat \<Rightarrow> nat \<Rightarrow> gw_scheduler \<Rightarrow> (unit + gw_scheduler \<times> sch_out) option" where
  "flood_round reschedule hmax uid ui i s =
     (let job = sch_jobs s ! i in
      if (reschedule \<longleftrightarrow> sj_reason job = GW_REASON_NONE) \<or> sj_mhosts job = [] then Some (Inl ())
      else if \<not> sj_ua_id job < length (sch_users s) then None
      else if su_uid (sch_users s ! sj_ua_id job) \<noteq> uid then Some (Inl ())
      else do {
        r \<leftarrow> pick_flood hmax (sj_np job) (sch_hosts s) (sj_mhosts job);
        (case r of
           None \<Rightarrow> Some (Inl ())
         | Some q \<Rightarrow> do {
             s' \<leftarrow> gw_scheduler_job_del (sj_jid job) True (inc_dispatched (sq_ha_id q) ui s);
             Some (Inr (s', dispatch_line s job q)) }) })"

lemma flood_round_dispatch:
  assumes "flood_round rs h uid ui i s = Some (Inr (s', l))"
  shows "\<exists>q. pick_flood h (sj_np (sch_jobs s ! i)) (sch_hosts s) (sj_mhosts (sch_jobs s ! i)) = Some (Some q) \<and>
     gw_scheduler_job_del (sj_jid (sch_jobs s ! i)) True (inc_dispatched (sq_ha_id q) ui s) = Some s' \<and>
     l = dispatch_line s (sch_jobs s ! i) q \<and>
     sj_ua_id (sch_jobs s ! i) < length (sch_users s) \<and>
     su_uid (sch_users s ! sj_ua_id (sch_jobs s ! i)) = uid \<and>
     (rs \<longleftrightarrow> sj_reason (sch_jobs s ! i) \<noteq> GW_REASON_NONE)"
  using assms
  by (auto simp: flood_round_def Let_def bind_eq_Some_conv split: if_splits option.splits)

lemma flood_round_length:
  assumes "flood_round rs h uid ui i s = Some (Inr (s', l))" and "i < length (sch_jobs s)"
  shows "Suc (length (sch_jobs s')) = length (sch_jobs s)"
proof -
  obtain q :: sch_queue where q: "gw_scheduler_job_del (sj_jid (sch_jobs s ! i)) True (inc_dispatched (sq_ha_id q) ui s) = Some s'"
    using flood_round_dispatch [OF assms(1)] by blast
  moreover have "\<exists>j\<in>set (sch_jobs s). sj_jid j = sj_jid (sch_jobs s ! i)" using assms(2) by auto
  ultimately show ?thesis using job_del_length [OF q] by (simp add: inc_dispatched_def)
qed

function flood_loop ::
  "bool \<Rightarrow> int \<Rightarrow> int \<Rightarrow> nat \<Rightarrow> int \<Rightarrow> nat \<Rightarrow> int \<Rightarrow> gw_scheduler \<Rightarrow> (gw_scheduler \<times> int \<times> sch_out list) option" where
  "flood_loop reschedule hmax uid ui rchunk i dsp s =
     (if i < length (sch_jobs s) \<and> dsp < rchunk
      then case flood_round reschedule hmax uid ui i s of
        None \<Rightarrow> None
      | Some (Inl u) \<Rightarrow> flood_loop reschedule hmax uid ui rchunk (Suc i) dsp s
      | Some (Inr (s', l)) \<Rightarrow>
          map_option (\<lambda>(s2, d, ls). (s2, d, l # ls)) (flood_loop reschedule hmax uid ui rchunk i (dsp + 1) s')
      else Some (s, dsp, []))"
  by pat_completeness auto
termination
  by (relation "measure (\<lambda>(rs, h, uid, ui, rc, i, d, s). length (sch_jobs s) - i)")
     (auto dest: flood_round_length)

declare flood_loop.simps [simp del]

definition flood_chunk :: "sched_param \<Rightarrow> int \<Rightarrow> int \<Rightarrow> int" where
  "flood_chunk p max_round remaining =
     (let rchunk = (if max_round < user_chunk p then max_round else user_chunk p) in
      if remaining < rchunk then remaining else rchunk)"

definition schedule_user ::
  "bool \<Rightarrow> int \<Rightarrow> gw_scheduler \<times> sched_param \<Rightarrow> ((gw_scheduler \<times> sched_param) \<times> int \<times> sch_out list) option" where
  "schedule_user reschedule uid sp =
     (case sp of (s, p) \<Rightarrow> do {
        ui \<leftarrow> user_get_dispatched uid s;
        let u = sch_users s ! ui;
        let remaining = (if sched_max p = 0 then int (length (sch_jobs s)) else sched_max p - dispached p);
        let max_round = (if user_max p = 0 then int (length (sch_jobs s))
                         else user_max p - (su_running_jobs u + su_dispatched u));
        (if max_round \<le> 0 \<or> remaining \<le> 0 then Some ((s, p), 0, [])
         else do {
           (s, dsp, out) \<leftarrow> flood_loop reschedule (host_max p) uid ui (flood_chunk p max_round remaining) 0 0 s;
           Some ((s, p\<lparr>dispached := dispached p + dsp\<rparr>), dsp, out) }) })"

text \<open>A turn of all users. The flag tells whether a job was dispatched.\<close>

fun flood_turn ::
  "bool \<Rightarrow> nat \<Rightarrow> gw_scheduler \<times> sched_param \<Rightarrow> ((gw_scheduler \<times> sched_param) \<times> bool \<times> sch_out list) option" where
  "flood_turn reschedule 0 sp = Some (sp, False, [])"
| "flood_turn reschedule (Suc k) sp = do {
     let us = sch_users (fst sp);
     (sp, n, out1) \<leftarrow> schedule_user reschedule (su_uid (us ! (length us - Suc k))) sp;
     (sp, again, out2) \<leftarrow> flood_turn reschedule k sp;
     Some (sp, n > 0 \<or> again, out1 @ out2) }"

lemma flood_loop_length:
  "flood_loop rs h uid ui rc i d s = Some (s', d', out) \<Longrightarrow>
     d \<le> d' \<and> int (length (sch_jobs s')) + (d' - d) = int (length (sch_jobs s))"
proof (induction rs h uid ui rc i d s arbitrary: s' d' out rule: flood_loop.induct)
  case (1 rs h uid ui rc i d s)
  show ?case
  proof (cases "i < length (sch_jobs s) \<and> d < rc")
    case False
    then show ?thesis
      using "1.prems" unfolding flood_loop.simps [of rs h uid ui rc i d s] if_not_P [OF False] by simp
  next
    case True
    then obtain r where r: "flood_round rs h uid ui i s = Some r"
      using "1.prems" by (cases "flood_round rs h uid ui i s")
        (simp_all add: flood_loop.simps [of rs h uid ui rc i d s])
    show ?thesis
    proof (cases r)
      case (Inl u)
      then show ?thesis using "1.IH"(1) [OF True r Inl] "1.prems" True r
        by (simp add: flood_loop.simps [of rs h uid ui rc i d s])
    next
      case (Inr x)
      obtain t l where x: "x = (t, l)" by (cases x)
      have "Suc (length (sch_jobs t)) = length (sch_jobs s)"
        by (rule flood_round_length [of rs h uid ui i s t l]) (use r Inr x True in simp_all)
      moreover obtain o2 where "flood_loop rs h uid ui rc i (d + 1) t = Some (s', d', o2)"
        using "1.prems" True r Inr x by (auto simp: flood_loop.simps [of rs h uid ui rc i d s])
      ultimately show ?thesis using "1.IH"(2) [OF True r Inr x [symmetric]] by fastforce
    qed
  qed
qed

lemma schedule_user_length:
  assumes "schedule_user rs uid sp = Some (sp', n, out)"
  shows "0 \<le> n \<and> int (length (sch_jobs (fst sp'))) + n = int (length (sch_jobs (fst sp)))"
proof -
  obtain s p where sp: "sp = (s, p)" by (cases sp)
  show ?thesis
    using assms unfolding sp schedule_user_def
    by (auto simp: bind_eq_Some_conv Let_def split: if_splits dest!: flood_loop_length)
qed

lemma flood_turn_length:
  "flood_turn rs k sp = Some (sp', again, out) \<Longrightarrow>
     (if again then length (sch_jobs (fst sp')) < length (sch_jobs (fst sp))
      else length (sch_jobs (fst sp')) = length (sch_jobs (fst sp)))"
proof (induction rs k sp arbitrary: sp' again out rule: flood_turn.induct)
  case (2 rs k sp)
  let ?uid = "su_uid (sch_users (fst sp) ! (length (sch_users (fst sp)) - Suc k))"
  obtain x where x: "schedule_user rs ?uid sp = Some x"
    using "2.prems" by (cases "schedule_user rs ?uid sp") (simp_all add: Let_def)
  obtain sp1 n o1 where x3: "x = (sp1, n, o1)" by (cases x)
  obtain y where y: "flood_turn rs k sp1 = Some y"
    using "2.prems" x x3 by (cases "flood_turn rs k sp1") (simp_all add: Let_def)
  obtain sp2 m2 o2 where y3: "y = (sp2, m2, o2)" by (cases y)
  have a: "schedule_user rs ?uid sp = Some (sp1, n, o1)" "flood_turn rs k sp1 = Some (sp', m2, o2)"
    "again = (n > 0 \<or> m2)"
    using "2.prems" x x3 y y3 by (simp_all add: Let_def)
  from "2.IH" [OF refl a(1) refl refl a(2)] schedule_user_length [OF a(1)] show ?case
    unfolding a(3) by (auto split: if_splits)
qed simp

text \<open>The loop \<open>while (!end)\<close>: turns until one dispatches nothing.\<close>

function flood_rounds ::
  "bool \<Rightarrow> gw_scheduler \<times> sched_param \<Rightarrow> ((gw_scheduler \<times> sched_param) \<times> sch_out list) option" where
  "flood_rounds reschedule sp =
     (case flood_turn reschedule (length (sch_users (fst sp))) sp of
        None \<Rightarrow> None
      | Some (sp', again, out) \<Rightarrow>
          (if again then map_option (\<lambda>(sp2, o2). (sp2, out @ o2)) (flood_rounds reschedule sp')
           else Some (sp', out)))"
  by pat_completeness auto
termination
  by (relation "measure (\<lambda>(rs, sp). length (sch_jobs (fst sp)))") (auto dest: flood_turn_length)

declare flood_rounds.simps [simp del]

definition flood_scheduler :: "sched_param \<Rightarrow> gw_scheduler \<Rightarrow> (gw_scheduler \<times> sch_out list) option" where
  "flood_scheduler p s = do {
     (sp, out1) \<leftarrow> flood_rounds False (s, p\<lparr>dispached := 0\<rparr>);
     (sp, out2) \<leftarrow> flood_rounds True sp;
     Some (fst sp, out1 @ out2) }"

end
