(* ===== verification/SCH_Loop.thy ===== *)
theory SCH_Loop
  imports SCH_Dispatch GW_Text
begin

text \<open>
  The loop of the scheduler process (\<open>src/scheduler/gw_scheduler_common.c\<close>): the lines that the daemon
  writes (\<open>src/dm/gw_dm_mad.c\<close>), how \<open>sscanf\<close> cuts them into fields, the action that each one starts,
  and the lines printed in return. The buffers of the fields keep their contents when a line has
  fewer fields. \<open>None\<close> is the undefined behaviour of an operation, of a line longer than its buffer
  or a field longer than its own.
\<close>

section \<open>The lines of the daemon\<close>

fun reason_value :: "gw_migration_reason \<Rightarrow> int" where
  "reason_value GW_REASON_NONE = 0"
| "reason_value GW_REASON_USER_REQUESTED = 1"
| "reason_value GW_REASON_SUSPENSION_TIME = 2"
| "reason_value GW_REASON_RESCHEDULING_TIMEOUT = 3"
| "reason_value GW_REASON_SELF_MIGRATION = 4"
| "reason_value GW_REASON_PERFORMANCE = 5"
| "reason_value GW_REASON_STOP_RESUME = 6"
| "reason_value GW_REASON_EXECUTION_ERROR = 7"
| "reason_value GW_REASON_KILL = 8"
| "reason_value GW_REASON_LIMIT = 9"

text \<open>A number that is no enumerator is like the last one: it is never compared equal.\<close>

definition reason_of_int :: "int \<Rightarrow> gw_migration_reason" where
  "reason_of_int i =
     (if i = 0 then GW_REASON_NONE else if i = 1 then GW_REASON_USER_REQUESTED
      else if i = 2 then GW_REASON_SUSPENSION_TIME else if i = 3 then GW_REASON_RESCHEDULING_TIMEOUT
      else if i = 4 then GW_REASON_SELF_MIGRATION else if i = 5 then GW_REASON_PERFORMANCE
      else if i = 6 then GW_REASON_STOP_RESUME else if i = 7 then GW_REASON_EXECUTION_ERROR
      else if i = 8 then GW_REASON_KILL else GW_REASON_LIMIT)"

lemma reason_of_value [simp]: "reason_of_int (reason_value r) = r"
  by (cases r) (simp_all add: reason_of_int_def)

text \<open>The words of a line, and the line. The conversion \<open>%f\<close> prints six decimals.\<close>

definition dec_f :: "int \<Rightarrow> string" where
  "dec_f i = dec i @ ''.000000''"

fun msg_words :: "sched_msg \<Rightarrow> string list" where
  "msg_words SCHEDULE = [''SCHEDULE'', ''-'', ''-'', ''-'', ''-'', ''-'']"
| "msg_words (HOST_MONITOR hid us rj name) = [''HOST_MONITOR'', dec hid, dec us, dec rj, name, ''-'']"
| "msg_words (USER_ADD uid as rs name) = [''USER_ADD'', dec uid, dec as, dec rs, name, ''-'']"
| "msg_words (USER_DEL uid) = [''USER_DEL'', dec uid, ''-'', ''-'', ''-'', ''-'']"
| "msg_words (JOB_DEL jid) = [''JOB_DEL'', dec jid, ''-'', ''-'', ''-'', ''-'']"
| "msg_words (JOB_FAILED hid uid r) = [''JOB_FAILED'', dec hid, dec uid, dec (reason_value r), ''-'', ''-'']"
| "msg_words (JOB_SUCCESS hid uid xfr sus exe) =
     [''JOB_SUCCESS'', dec hid, dec uid, dec_f xfr, dec_f sus, dec_f exe]"
| "msg_words (JOB_SCHEDULE jid aid uid r) =
     [''JOB_SCHEDULE'', dec jid, dec aid, dec uid, dec (reason_value r), ''-'']"

fun join :: "string list \<Rightarrow> string" where
  "join [] = []"
| "join [w] = w"
| "join (w # v # ws) = w @ CHR '' '' # join (v # ws)"

definition msg_line :: "sched_msg \<Rightarrow> string" where
  "msg_line m = join (msg_words m) @ [NL]"

section \<open>Reading a line\<close>

text \<open>The conversions \<open>%s\<close> of \<open>sscanf\<close>: at most \<open>n\<close> words, and what follows them.\<close>

fun scan_words :: "nat \<Rightarrow> string \<Rightarrow> string list \<times> string" where
  "scan_words 0 s = ([], s)"
| "scan_words (Suc n) s =
     (let s = dropWhile is_blank s in
      if s = [] then ([], [])
      else case scan_words n (dropWhile (\<lambda>c. \<not> is_blank c) s) of
        (ws, r) \<Rightarrow> (takeWhile (\<lambda>c. \<not> is_blank c) s # ws, r))"

text \<open>The whole format: five words and, after blanks, the rest of the line.\<close>

definition scan_line :: "string \<Rightarrow> string list" where
  "scan_line s =
     (case scan_words 5 s of
        (ws, r) \<Rightarrow>
          (let t = takeWhile (\<lambda>c. c \<noteq> NL) (dropWhile is_blank r) in
           if length ws = 5 \<and> t \<noteq> [] then ws @ [t] else ws))"

definition GW_SCHED_FIELD_WIDTH :: nat where "GW_SCHED_FIELD_WIDTH = 80"
definition GW_SCHED_MSG_WIDTH :: nat where "GW_SCHED_MSG_WIDTH = 480"

text \<open>The six buffers \<open>act\<close>, \<open>id1\<close>, \<open>id2\<close>, \<open>at1\<close>, \<open>at2\<close>, \<open>at3\<close> after a line.\<close>

definition read_fields :: "string list \<Rightarrow> string \<Rightarrow> string list option" where
  "read_fields old line =
     (let new = scan_line line in
      if length line < GW_SCHED_MSG_WIDTH \<and> (\<forall>w\<in>set new. length w < GW_SCHED_FIELD_WIDTH)
      then Some (new @ drop (length new) old) else None)"

text \<open>The numbers that \<open>atof\<close> reads, without exponents.\<close>

fun atof_frac :: "string \<Rightarrow> rat" where
  "atof_frac [] = 0"
| "atof_frac (c # cs) = (if is_digit c then (of_nat (digit_val c) + atof_frac cs) / 10 else 0)"

definition atof_mag :: "string \<Rightarrow> rat" where
  "atof_mag s =
     of_nat (atoi_digits s 0) +
     (case dropWhile is_digit s of
        [] \<Rightarrow> 0
      | c # cs \<Rightarrow> if c = CHR ''.'' then atof_frac cs else 0)"

definition atof :: "sch_env \<Rightarrow> string \<Rightarrow> flt" where
  "atof e s =
     (case (case dropWhile is_blank s of
              [] \<Rightarrow> (False, 0)
            | c # cs \<Rightarrow> (if c = CHR ''-'' then (True, atof_mag cs)
                         else if c = CHR ''+'' then (False, atof_mag cs)
                         else (False, atof_mag (c # cs)))) of
        (neg, m) \<Rightarrow>
          (case dbl e m of None \<Rightarrow> Inf neg | Some m' \<Rightarrow> mk_flt (flo e) neg m'))"

section \<open>The actions\<close>

definition one_day :: int where "one_day = 86400"

definition window_seconds :: "sch_env \<Rightarrow> gw_sch_conf \<Rightarrow> int option" where
  "window_seconds e c = flt_trunc (flt_mul (flo e) (window_size c) (flt_of_int (flo e) one_day))"

definition clear_dispatched :: "gw_scheduler \<Rightarrow> gw_scheduler" where
  "clear_dispatched s =
     s\<lparr>sch_hosts := map (\<lambda>h. h\<lparr>sh_dispatched := 0\<rparr>) (sch_hosts s),
       sch_users := map (\<lambda>u. u\<lparr>su_dispatched := 0\<rparr>) (sch_users s)\<rparr>"

type_synonym scheduler_fn = "gw_scheduler \<Rightarrow> (gw_scheduler \<times> sch_out list) option"

definition do_schedule :: "sch_env \<Rightarrow> scheduler_fn \<Rightarrow> gw_scheduler \<Rightarrow> (gw_scheduler \<times> sch_out list) option" where
  "do_schedule e scheduler s = do {
     (s, out) \<leftarrow>
       (if sch_hosts s \<noteq> [] \<and> sch_users s \<noteq> [] \<and> sch_jobs s \<noteq> []
        then do {
          (s, out1) \<leftarrow> gw_scheduler_matching_arrays e (clear_dispatched s);
          s \<leftarrow> (if disable (sch_conf s) = 0 then gw_scheduler_job_policies e s else Some s);
          (s, out2) \<leftarrow> scheduler s;
          Some (s, out1 @ out2) }
        else Some (s, []));
     s \<leftarrow> (if sc_now e > next_user_window s
           then do {
             w \<leftarrow> window_seconds e (sch_conf s);
             gw_scheduler_user_update_windows (s\<lparr>next_user_window := sc_now e + w\<rparr>) }
           else Some s);
     let s = (if sc_now e > next_host_window s
              then gw_scheduler_update_usage_host e (s\<lparr>next_host_window := sc_now e + one_day\<rparr>)
              else s);
     Some (s, out @ [OUT_END]) }"

definition do_job_schedule ::
  "sch_env \<Rightarrow> int \<Rightarrow> int \<Rightarrow> int \<Rightarrow> gw_migration_reason \<Rightarrow> gw_scheduler \<Rightarrow> gw_scheduler" where
  "do_job_schedule e jid aid uid reason s =
     (case client_status e jid of
        Some (fixed, np, start, deadline) \<Rightarrow>
          gw_scheduler_job_add e jid aid np reason fixed uid (start + deadline) s
      | None \<Rightarrow> gw_scheduler_job_add e jid aid 1 reason 0 uid 0 s)"

text \<open>
  The actions, by the first field. The result has the lines printed and whether the loop ends. The
  argument \<open>error\<close> is the reason why the start of the process had failed, if it had.
\<close>

definition sch_action ::
  "sch_env \<Rightarrow> scheduler_fn \<Rightarrow> string option \<Rightarrow> string list \<Rightarrow> gw_scheduler \<Rightarrow> (gw_scheduler \<times> sch_out list \<times> bool) option" where
  "sch_action e scheduler error f s =
     (case f of
        [act, id1, id2, at1, at2, at3] \<Rightarrow>
          (if act = ''INIT''
           then Some (s, case error of None \<Rightarrow> [OUT_INIT] | Some t \<Rightarrow> [OUT_INIT_FAILURE t], error \<noteq> None)
           else if act = ''FINALIZE'' then Some (s, [OUT_FINALIZE], True)
           else if act = ''HOST_MONITOR''
           then map_option (\<lambda>s. (s, [], False)) (gw_scheduler_add_host e (atoi id1) (atoi id2) (atoi at1) at2 s)
           else if act = ''USER_ADD''
           then map_option (\<lambda>s. (s, [], False)) (gw_scheduler_add_user e (atoi id1) (atoi id2) (atoi at1) at2 s)
           else if act = ''USER_DEL''
           then map_option (\<lambda>s. (s, [], False)) (gw_scheduler_del_user (atoi id1) s)
           else if act = ''JOB_DEL''
           then map_option (\<lambda>s. (s, [], False)) (gw_scheduler_job_del (atoi id1) False s)
           else if act = ''JOB_FAILED''
           then map_option (\<lambda>s. (s, [], False))
                  (gw_scheduler_job_failed e (atoi id1) (atoi id2) (reason_of_int (atoi at1)) s)
           else if act = ''JOB_SUCCESS''
           then Some (gw_scheduler_job_success (atoi id1) (atoi id2) (atof e at1) (atof e at2) (atof e at3) s,
                      [], False)
           else if act = ''JOB_SCHEDULE''
           then Some (do_job_schedule e (atoi id1) (atoi id2) (atoi at1) (reason_of_int (atoi at2)) s,
                      [], False)
           else if act = ''SCHEDULE''
           then map_option (\<lambda>(s, out). (s, out, False)) (do_schedule e scheduler s)
           else Some (s, [], False))
      | _ \<Rightarrow> None)"

section \<open>The loop\<close>

text \<open>
  The input is a string of characters. At its end the character read last is stored once more, and
  the line so far is still acted on. The environment (the clock) is one per round.
\<close>

function sch_loop ::
  "(nat \<Rightarrow> sch_env) \<Rightarrow> scheduler_fn \<Rightarrow> string option \<Rightarrow> nat \<Rightarrow> char \<Rightarrow> string list \<Rightarrow> string \<Rightarrow> gw_scheduler \<Rightarrow>
     (gw_scheduler \<times> sch_out list) option" where
  "sch_loop es scheduler error n last_c f input s =
     (let line = takeWhile (\<lambda>c. c \<noteq> NL) input; rest = dropWhile (\<lambda>c. c \<noteq> NL) input in
      case rest of
        [] \<Rightarrow> do {
          f \<leftarrow> read_fields f (line @ [if line = [] then last_c else last line]);
          (s, out, e) \<leftarrow> sch_action (es n) scheduler error f s;
          Some (s, out) }
      | c # cs \<Rightarrow> do {
          f \<leftarrow> read_fields f (line @ [NL]);
          (s, out, end) \<leftarrow> sch_action (es n) scheduler error f s;
          (if end then Some (s, out)
           else do {
             (s, out2) \<leftarrow> sch_loop es scheduler error (Suc n) NL f cs s;
             Some (s, out @ out2) }) })"
  by pat_completeness auto
termination
proof (relation "measure (\<lambda>(es, sch, er, n, l, f, input, s). length input)", goal_cases)
  case (2 es scheduler error n last_c f input s x xa c cs)
  have "length (dropWhile (\<lambda>c. c \<noteq> NL) input) \<le> length input" by (rule length_dropWhile_le)
  then show ?case using 2 by (auto dest!: arg_cong [where f = length])
qed simp

definition gw_scheduler_init :: "sch_env \<Rightarrow> gw_sch_conf \<Rightarrow> gw_scheduler option" where
  "gw_scheduler_init e c =
     map_option (\<lambda>w. \<lparr>sch_users = [], sch_hosts = [], sch_jobs = [], sch_conf = c,
                      next_user_window = sc_now e + w, next_host_window = sc_now e + one_day\<rparr>)
       (window_seconds e c)"

end
