(* ===== verification/SCH_Inv.thy ===== *)
theory SCH_Inv
  imports SCH_Loop
begin

text \<open>
  The invariant of the scheduler's tables: every job belongs to a user of the list and its matching
  queues to hosts of the list, the number \<open>total_jobs\<close> of a user is the number of its jobs, its
  windows have the configured depth, and its host list runs parallel to the list of hosts. Every
  operation but the removal of a user keeps it.
\<close>

section \<open>The invariant\<close>

text \<open>What the invariant looks at in a user.\<close>

definition user_key :: "sch_user \<Rightarrow> int \<times> int \<times> nat \<times> int list \<times> nat list" where
  "user_key u = (su_uid u, su_total_jobs u, length (sub_windows u),
     map uh_hid (su_hosts u), map uh_ha_id (su_hosts u))"

definition jobs_of :: "nat \<Rightarrow> sch_job list \<Rightarrow> int" where
  "jobs_of k js = int (length (filter (\<lambda>j. sj_ua_id j = k) js))"

definition mhosts_in :: "nat \<Rightarrow> sch_job \<Rightarrow> bool" where
  "mhosts_in n j \<longleftrightarrow> (\<forall>q\<in>set (sj_mhosts j). sq_ha_id q < n)"

definition user_ok :: "gw_scheduler \<Rightarrow> nat \<Rightarrow> bool" where
  "user_ok s k \<longleftrightarrow>
     (\<exists>uid. user_key (sch_users s ! k) = (uid, jobs_of k (sch_jobs s), nat (window_depth (sch_conf s)),
        map sh_hid (sch_hosts s), [0..<length (sch_hosts s)]))"

definition sch_inv :: "gw_scheduler \<Rightarrow> bool" where
  "sch_inv s \<longleftrightarrow>
     (\<forall>j\<in>set (sch_jobs s). sj_ua_id j < length (sch_users s) \<and> mhosts_in (length (sch_hosts s)) j) \<and>
     (\<forall>k<length (sch_users s). user_ok s k)"

lemma sch_inv_job:
  "sch_inv s \<Longrightarrow> j \<in> set (sch_jobs s) \<Longrightarrow> sj_ua_id j < length (sch_users s)"
  "sch_inv s \<Longrightarrow> j \<in> set (sch_jobs s) \<Longrightarrow> mhosts_in (length (sch_hosts s)) j"
  by (simp_all add: sch_inv_def)

lemma sch_inv_user:
  assumes "sch_inv s" and "k < length (sch_users s)"
  shows "su_total_jobs (sch_users s ! k) = jobs_of k (sch_jobs s)"
    "length (sub_windows (sch_users s ! k)) = nat (window_depth (sch_conf s))"
    "map uh_hid (su_hosts (sch_users s ! k)) = map sh_hid (sch_hosts s)"
    "map uh_ha_id (su_hosts (sch_users s ! k)) = [0..<length (sch_hosts s)]"
  using assms by (auto simp: sch_inv_def user_ok_def user_key_def)

text \<open>The whole invariant depends on the keys of the users, the identifiers of the hosts and the users of the jobs.\<close>

lemma jobs_of_map: "jobs_of k js = int (count (mset (map sj_ua_id js)) k)"
  by (induction js) (auto simp: jobs_of_def)

lemma sch_inv_same:
  assumes inv: "sch_inv s"
    and "map user_key (sch_users t) = map user_key (sch_users s)"
    and "map sh_hid (sch_hosts t) = map sh_hid (sch_hosts s)"
    and "window_depth (sch_conf t) = window_depth (sch_conf s)"
    and "mset (map sj_ua_id (sch_jobs t)) = mset (map sj_ua_id (sch_jobs s))"
    and "\<forall>j\<in>set (sch_jobs t). mhosts_in (length (sch_hosts t)) j"
  shows "sch_inv t"
proof -
  have l: "length (sch_users t) = length (sch_users s)" "length (sch_hosts t) = length (sch_hosts s)"
    using assms(2,3) map_eq_imp_length_eq by blast+
  have "sj_ua_id j < length (sch_users t)" if "j \<in> set (sch_jobs t)" for j
  proof -
    have "sj_ua_id j \<in> set (map sj_ua_id (sch_jobs s))"
      using that assms(5) by (metis image_eqI set_map set_mset_mset)
    then show ?thesis using inv l by (auto simp: sch_inv_def)
  qed
  moreover have "user_ok t k" if "k < length (sch_users t)" for k
  proof -
    have "user_key (sch_users t ! k) = user_key (sch_users s ! k)"
      using assms(2) that l(1) by (metis nth_map)
    then show ?thesis
      using inv that l assms(3-5) by (simp add: sch_inv_def user_ok_def jobs_of_map)
  qed
  ultimately show ?thesis using assms(6) by (simp add: sch_inv_def)
qed

lemma map_key_update:
  "k < length us \<Longrightarrow> user_key u = user_key (us ! k) \<Longrightarrow> map user_key (us[k := u]) = map user_key us"
  by (simp add: map_update list_update_same_conv)

lemma mhosts_in_mono: "mhosts_in n j \<Longrightarrow> n \<le> m \<Longrightarrow> mhosts_in m j"
  by (auto simp: mhosts_in_def)

lemma mhosts_in_Suc: "mhosts_in n j \<Longrightarrow> mhosts_in (Suc n) j"
  by (auto simp: mhosts_in_def)

section \<open>Hosts and users\<close>

lemma user_host_init_key [simp]:
  "uh_hid (user_host_init e i hid h u) = hid" "uh_ha_id (user_host_init e i hid h u) = i"
  by (simp_all add: user_host_init_def avrg_times_def split: option.split)

lemma avrg_times_key [simp]: "uh_hid (avrg_times e h u x) = uh_hid x" "uh_ha_id (avrg_times e h u x) = uh_ha_id x"
  by (simp_all add: avrg_times_def split: option.split)

lemma inv_add_host:
  assumes inv: "sch_inv s"
    and add: "gw_scheduler_add_host e hid us rj name s = Some t"
  shows "sch_inv t \<and> sch_conf t = sch_conf s"
proof (cases "find_first sh_hid hid (sch_hosts s)")
  case None
  have t: "t = s\<lparr>sch_hosts := sch_hosts s @ [\<lparr>sh_hid = hid, sh_name = name, sh_used_slots = us,
        sh_running_jobs = rj, sh_dispatched = 0\<rparr>],
      sch_users := map (\<lambda>u. u\<lparr>su_hosts := take (length (sch_hosts s)) (su_hosts u) @
        [user_host_init e (length (sch_hosts s)) hid name (su_name u)]\<rparr>) (sch_users s)\<rparr>"
    using None add by (simp add: gw_scheduler_add_host_def Let_def split: if_splits)
  have "user_ok t k" if "k < length (sch_users t)" for k
  proof -
    have k: "k < length (sch_users s)" using that by (simp add: t)
    note u = sch_inv_user [OF inv k]
    have "length (su_hosts (sch_users s ! k)) = length (sch_hosts s)" using u(3) map_eq_imp_length_eq by blast
    then show ?thesis using u k
      by (simp add: t user_ok_def user_key_def take_map [symmetric])
  qed
  moreover have "\<forall>j\<in>set (sch_jobs t). sj_ua_id j < length (sch_users t) \<and> mhosts_in (length (sch_hosts t)) j"
    using sch_inv_job [OF inv] by (auto simp: t intro: mhosts_in_Suc)
  ultimately show ?thesis by (simp add: sch_inv_def) (simp add: t)
next
  case (Some i)
  then have i: "i < length (sch_hosts s)" using find_first_Some by blast
  then have t: "t = s\<lparr>sch_hosts := (sch_hosts s)[i := (sch_hosts s ! i)\<lparr>sh_used_slots := us, sh_running_jobs := rj\<rparr>]\<rparr>"
    using Some add by (simp add: gw_scheduler_add_host_def)
  have "sch_inv t"
    by (rule sch_inv_same [OF inv])
       (use i sch_inv_job [OF inv] in \<open>auto simp: t map_update list_update_same_conv\<close>)
  then show ?thesis by (simp add: t)
qed

lemma inv_update_usage:
  assumes "sch_inv s"
  shows "sch_inv (gw_scheduler_update_usage_host e s)"
  by (rule sch_inv_same [OF assms])
     (use sch_inv_job [OF assms] in \<open>auto simp: gw_scheduler_update_usage_host_def user_key_def\<close>)

lemma jobs_of_none: "\<forall>j\<in>set js. sj_ua_id j \<noteq> k \<Longrightarrow> jobs_of k js = 0"
  by (simp add: jobs_of_def filter_empty_conv)

lemma inv_add_user:
  assumes inv: "sch_inv s"
    and add: "gw_scheduler_add_user e uid aj rj name s = Some t"
  shows "sch_inv t \<and> sch_conf t = sch_conf s"
proof (cases "find_first su_uid uid (sch_users s)")
  case None
  let ?u = "\<lparr>su_uid = uid, su_name = name, su_running_jobs = rj,
       su_active_jobs = aj, su_total_jobs = 0, su_dispatched = 0, su_share = 1, su_next_ujid = 0,
       sub_windows = replicate (nat (window_depth (sch_conf s))) 0,
       su_hosts = new_user_hosts e s name\<rparr>"
  have t: "t = s\<lparr>sch_users := sch_users s @ [?u]\<rparr>"
    using None add by (simp add: gw_scheduler_add_user_def split: if_splits)
  have new: "sch_users t ! length (sch_users s) = ?u" by (simp add: t)
  have rest: "sch_hosts t = sch_hosts s" "sch_jobs t = sch_jobs s" "sch_conf t = sch_conf s"
    "length (sch_users t) = Suc (length (sch_users s))"
    "k < length (sch_users s) \<Longrightarrow> sch_users t ! k = sch_users s ! k" for k
    by (simp_all add: t nth_append)
  have "jobs_of (length (sch_users s)) (sch_jobs s) = 0"
    using sch_inv_job(1) [OF inv] by (metis jobs_of_none less_irrefl)
  then have "user_ok t (length (sch_users s))"
    unfolding user_ok_def new rest user_key_def
    by (auto simp: new_user_hosts_def o_def intro: nth_equalityI)
  moreover have "user_ok t k" if "k < length (sch_users s)" for k
    using that inv rest(5) [OF that] unfolding sch_inv_def user_ok_def rest(1-3) by simp
  ultimately show ?thesis
    using sch_inv_job [OF inv] unfolding sch_inv_def rest(1-4) by (auto simp: less_Suc_eq)
next
  case (Some i)
  then have i: "i < length (sch_users s)" using find_first_Some by blast
  then have t: "t = s\<lparr>sch_users := (sch_users s)[i := (sch_users s ! i)\<lparr>su_active_jobs := aj, su_running_jobs := rj\<rparr>]\<rparr>"
    using Some add by (simp add: gw_scheduler_add_user_def)
  have "sch_inv t"
    by (rule sch_inv_same [OF inv])
       (use i sch_inv_job [OF inv] in \<open>auto simp: t user_key_def intro!: map_key_update\<close>)
  then show ?thesis by (simp add: t)
qed

section \<open>Failures, successes and windows\<close>

lemma put_user_host_inv:
  assumes inv: "sch_inv s" and "i < length (sch_users s)"
    and "h < length (su_hosts (sch_users s ! i))"
    and "uh_hid x = uh_hid (su_hosts (sch_users s ! i) ! h)"
    and "uh_ha_id x = uh_ha_id (su_hosts (sch_users s ! i) ! h)"
  shows "sch_inv (put_user_host i h x s)"
proof -
  let ?u = "(sch_users s ! i)\<lparr>su_hosts := (su_hosts (sch_users s ! i))[h := x]\<rparr>"
  have "map uh_hid ((su_hosts (sch_users s ! i))[h := x]) = map uh_hid (su_hosts (sch_users s ! i))"
    "map uh_ha_id ((su_hosts (sch_users s ! i))[h := x]) = map uh_ha_id (su_hosts (sch_users s ! i))"
    using assms(3-5) by (simp_all add: map_update list_update_same_conv)
  then have "user_key ?u = user_key (sch_users s ! i)" by (simp add: user_key_def)
  then show ?thesis
    by (intro sch_inv_same [OF inv])
       (use assms(2) sch_inv_job [OF inv] in \<open>auto simp: put_user_host_def intro!: map_key_update\<close>)
qed

lemma find_first_less: "find_first key k xs = Some i \<Longrightarrow> i < length xs"
  using find_first_Some by blast

lemma sch_user_of_range: "sch_user_of uid s = Some i \<Longrightarrow> i < length (sch_users s)"
  using find_first_Some [of su_uid uid "sch_users s"]
  by (auto simp: sch_user_of_def split: option.splits if_splits)

lemma inv_job_failed:
  assumes "sch_inv s" and "gw_scheduler_job_failed e hid uid reason s = Some s'"
  shows "sch_inv s'"
proof -
  show ?thesis
  proof (cases "reason \<notin> {GW_REASON_SUSPENSION_TIME, GW_REASON_PERFORMANCE, GW_REASON_EXECUTION_ERROR}
      \<or> sch_user_of uid s = None
      \<or> find_first uh_hid hid (su_hosts (sch_users s ! the (sch_user_of uid s))) = None")
    case True
    then have "s' = s" using assms(2) by (auto simp: gw_scheduler_job_failed_def split: option.splits)
    then show ?thesis using assms(1) by simp
  next
    case False
    then obtain i h where ih: "sch_user_of uid s = Some i"
      "find_first uh_hid hid (su_hosts (sch_users s ! i)) = Some h" by auto
    have r: "\<not> reason \<notin> {GW_REASON_SUSPENSION_TIME, GW_REASON_PERFORMANCE, GW_REASON_EXECUTION_ERROR}"
      using False by blast
    obtain d where d: "ban_delta e (sch_conf s) (uh_last_banned (su_hosts (sch_users s ! i) ! h)) = Some d"
      using assms(2) ih unfolding gw_scheduler_job_failed_def if_not_P [OF r]
      by (cases "ban_delta e (sch_conf s) (uh_last_banned (su_hosts (sch_users s ! i) ! h))") (simp_all add: Let_def)
    define x where "x = (let th = su_hosts (sch_users s ! i) ! h;
        th = (if uh_last_banned th = 0 then th\<lparr>uh_last_banned := sc_now e\<rparr> else th) in
        if d \<noteq> 0 then th\<lparr>uh_banned := sc_now e + d\<rparr> else th)"
    have "s' = put_user_host i h x s"
      using assms(2) ih d unfolding gw_scheduler_job_failed_def if_not_P [OF r] by (simp add: x_def Let_def)
    moreover have "uh_hid x = uh_hid (su_hosts (sch_users s ! i) ! h)"
      "uh_ha_id x = uh_ha_id (su_hosts (sch_users s ! i) ! h)" by (simp_all add: x_def Let_def)
    ultimately show ?thesis
      using put_user_host_inv [OF assms(1) sch_user_of_range [OF ih(1)] find_first_less [OF ih(2)]] by simp
  qed
qed

lemma inv_job_success:
  assumes "sch_inv s"
  shows "sch_inv (gw_scheduler_job_success hid uid a b c s)"
  unfolding gw_scheduler_job_success_def
  using assms
  by (auto split: option.split intro!: put_user_host_inv dest: sch_user_of_range find_first_less)

lemma inv_update_windows:
  assumes inv: "sch_inv s" and "0 \<le> window_depth (sch_conf s)"
  obtains s' where "gw_scheduler_user_update_windows s = Some s'" "sch_inv s'" "sch_conf s' = sch_conf s"
proof (cases "window_depth (sch_conf s) = 0")
  case True
  then show thesis using that inv by (simp add: gw_scheduler_user_update_windows_def)
next
  case False
  let ?d = "window_depth (sch_conf s)"
  let ?f = "\<lambda>u. u\<lparr>sub_windows := 0 # take (nat ?d - 1) (sub_windows u) @ drop (nat ?d) (sub_windows u)\<rparr>"
  have len: "length (sub_windows u) = nat ?d" if "u \<in> set (sch_users s)" for u
    using that sch_inv_user(2) [OF inv] by (auto simp: in_set_conv_nth)
  have sh: "map (shift_window ?d) (sch_users s) = map (\<lambda>u. Some (?f u)) (sch_users s)"
    using len False assms(2) by (auto simp: shift_window_def)
  have those: "those (map (\<lambda>u. Some (g u)) xs) = Some (map g xs)" for g :: "sch_user \<Rightarrow> sch_user" and xs
    by (induction xs) auto
  let ?s = "s\<lparr>sch_users := map ?f (sch_users s)\<rparr>"
  have "gw_scheduler_user_update_windows s = Some ?s"
    using False by (simp add: gw_scheduler_user_update_windows_def sh those)
  moreover have "sch_inv ?s"
    by (rule sch_inv_same [OF inv])
       (use sch_inv_job [OF inv] len False assms(2) in \<open>auto simp: user_key_def\<close>)
  ultimately show thesis using that by simp
qed

section \<open>The job list\<close>

lemma jobs_of_append: "jobs_of k (js @ [j]) = jobs_of k js + (if sj_ua_id j = k then 1 else 0)"
  by (simp add: jobs_of_def)

lemma jobs_of_remove:
  "i < length js \<Longrightarrow>
     jobs_of k (take i js @ drop (Suc i) js) = jobs_of k js - (if sj_ua_id (js ! i) = k then 1 else 0)"
proof -
  assume i: "i < length js"
  then have "jobs_of k js = jobs_of k (take i js @ js ! i # drop (Suc i) js)" by (simp add: id_take_nth_drop [symmetric])
  then show ?thesis by (simp add: jobs_of_def)
qed

lemma user_ok_upd:
  assumes "sch_inv s" and "k < length (sch_users s)"
    and "sch_users t = (sch_users s)[n := u]" and "n < length (sch_users s)"
    and "sch_hosts t = sch_hosts s" and "sch_conf t = sch_conf s"
    and "su_hosts u = su_hosts (sch_users s ! n)"
    and "length (sub_windows u) = length (sub_windows (sch_users s ! n))"
    and "su_total_jobs u = jobs_of n (sch_jobs t)"
    and "k \<noteq> n \<Longrightarrow> jobs_of k (sch_jobs t) = jobs_of k (sch_jobs s)"
  shows "user_ok t k"
  using sch_inv_user [OF assms(1,2)] assms(3-10)
  by (cases "k = n") (simp_all add: user_ok_def user_key_def)

lemma inv_job_add:
  assumes inv: "sch_inv s"
  shows "sch_inv (gw_scheduler_job_add e jid aid np reason fixed uid dl s)"
proof (cases "find_first su_uid uid (sch_users s)")
  case None
  then show ?thesis using inv by (simp add: gw_scheduler_job_add_def)
next
  case (Some n)
  then have n: "n < length (sch_users s)" using find_first_Some by blast
  let ?t = "gw_scheduler_job_add e jid aid np reason fixed uid dl s"
  have "user_ok ?t k" if "k < length (sch_users s)" for k
    by (rule user_ok_upd [OF inv that, of _ n
          "(sch_users s ! n)\<lparr>su_total_jobs := su_total_jobs (sch_users s ! n) + 1\<rparr>"])
       (use n Some sch_inv_user(1) [OF inv n] in
          \<open>simp_all add: gw_scheduler_job_add_def upd_user_def jobs_of_append new_sch_job_def\<close>)
  then show ?thesis
    using sch_inv_job [OF inv] n Some
    by (auto simp: sch_inv_def gw_scheduler_job_add_def upd_user_def new_sch_job_def mhosts_in_def)
qed

lemma inv_job_del:
  assumes inv: "sch_inv s" and "d \<Longrightarrow> 0 < window_depth (sch_conf s)"
  obtains s' where "gw_scheduler_job_del jid d s = Some s'" "sch_inv s'"
    "sch_hosts s' = sch_hosts s" "sch_conf s' = sch_conf s" "length (sch_users s') = length (sch_users s)"
    "set (sch_jobs s') \<subseteq> set (sch_jobs s)"
proof (cases "find_first sj_jid jid (sch_jobs s)")
  case None
  then show thesis using that inv by (simp add: gw_scheduler_job_del_def)
next
  case (Some i)
  then have i: "i < length (sch_jobs s)" using find_first_Some by blast
  let ?n = "sj_ua_id (sch_jobs s ! i)"
  have n: "?n < length (sch_users s)" using sch_inv_job(1) [OF inv] i by simp
  let ?v = "(sch_users s ! ?n)\<lparr>su_total_jobs := su_total_jobs (sch_users s ! ?n) - 1\<rparr>"
  obtain u where u: "(if d then count_dispatch ?v else Some ?v) = Some u" "su_hosts u = su_hosts (sch_users s ! ?n)"
    "length (sub_windows u) = length (sub_windows (sch_users s ! ?n))"
    "su_total_jobs u = su_total_jobs (sch_users s ! ?n) - 1"
  proof (cases d)
    case True
    then have "sub_windows (sch_users s ! ?n) \<noteq> []"
      using assms(2) sch_inv_user(2) [OF inv n] by auto
    then obtain w ws where w: "sub_windows (sch_users s ! ?n) = w # ws" by (meson neq_Nil_conv)
    show thesis
      by (rule that [of "?v\<lparr>sub_windows := (w + 1) # ws\<rparr>"]) (use True w in \<open>simp_all add: count_dispatch_def\<close>)
  qed (use that in simp)
  let ?js = "take i (sch_jobs s) @ drop (Suc i) (sch_jobs s)"
  let ?t = "s\<lparr>sch_users := (sch_users s)[?n := u], sch_jobs := ?js\<rparr>"
  have t: "gw_scheduler_job_del jid d s = Some ?t"
    using Some n u(1) by (simp add: gw_scheduler_job_del_def Let_def)
  have sub: "set ?js \<subseteq> set (sch_jobs s)" using set_take_subset set_drop_subset by fastforce
  have "user_ok ?t k" if "k < length (sch_users s)" for k
    by (rule user_ok_upd [OF inv that, of _ ?n u])
       (use n u sch_inv_user(1) [OF inv n] i in \<open>simp_all add: jobs_of_remove\<close>)
  then have "sch_inv ?t" using sch_inv_job [OF inv] sub unfolding sch_inv_def by (auto dest: subsetD)
  then show thesis using that t sub by simp
qed

end
