(* ===== verification/SCH_Safe.thy ===== *)
theory SCH_Safe
  imports SCH_Inv
begin

text \<open>
  The scheduling round is defined and keeps the invariant: match-making never leaves its arrays,
  the policies divide by no share of zero and convert only finite values, and the dispatch loop
  counts in windows that exist. The hypotheses are about the configuration, the answers of the
  daemon, and the floating point types.
\<close>

section \<open>What the environment and the configuration provide\<close>

text \<open>
  The daemon offers a host only with a queue, and answers the request for a history of a job with
  at least one record; the C library's \<open>exp\<close> maps what is not above zero into the unit interval.
\<close>

definition client_ok :: "sch_env \<Rightarrow> bool" where
  "client_ok e \<longleftrightarrow>
     (\<forall>jid aid ms. client_match e jid aid = Some ms \<longrightarrow> (\<forall>m\<in>set ms. m_queues m \<noteq> [] \<and>
        (\<forall>q\<in>set (m_queues m). length (fst q) < GW_MSG_STRING_SHORT - 1))) \<and>
     (\<forall>jid hl. client_history e jid = Some hl \<longrightarrow> hl \<noteq> [])"

definition exp_ok :: "sch_env \<Rightarrow> bool" where
  "exp_ok e \<longleftrightarrow> (\<forall>x. flt_below x \<longrightarrow> (\<exists>m. 0 \<le> m \<and> m \<le> 1 \<and> exp_fn e x = Fin False m))"

lemma exp_ok_fin: "exp_ok e \<Longrightarrow> flt_below x \<Longrightarrow> fin_le 0 (exp_fn e x)"
  unfolding exp_ok_def fin_le_def by fastforce

definition env_ok :: "sch_env \<Rightarrow> bool" where
  "env_ok e \<longleftrightarrow> client_ok e \<and> exp_ok e \<and> ieee (flo e) \<and> ieee (dbl e) \<and> \<bar>sc_now e\<bar> \<le> 2 ^ 61"

definition conf_ok :: "gw_sch_conf \<Rightarrow> bool" where
  "conf_ok c \<longleftrightarrow>
     0 < window_depth c \<and> window_depth c \<le> 10 \<and> 0 \<le> dl_half c \<and> dl_half c \<le> 2 ^ 31 \<and>
     \<bar>fr_max_banned c\<bar> \<le> 2 ^ 31 \<and> (\<exists>b. 0 \<le> b \<and> fr_banned_c c = Fin False b) \<and>
     fin_le 31 (window_size c) \<and>
     ushare_default c \<noteq> 0 \<and> (\<forall>nv\<in>set (ushare c). snd nv \<noteq> 0)"

text \<open>The values of the tables are in the ranges of their C types.\<close>

definition in_range :: "gw_scheduler \<Rightarrow> bool" where
  "in_range s \<longleftrightarrow>
     (\<forall>u\<in>set (sch_users s). (\<forall>w\<in>set (sub_windows u). \<bar>w\<bar> \<le> 2 ^ 27) \<and>
        (\<forall>h\<in>set (su_hosts u). \<bar>uh_last_banned h\<bar> \<le> 2 ^ 61)) \<and>
     (\<forall>j\<in>set (sch_jobs s). \<bar>sj_deadline_time j\<bar> \<le> 2 ^ 61)"

lemma those_list_all2: "those (map f xs) = Some ys \<Longrightarrow> list_all2 (\<lambda>x y. f x = Some y) xs ys"
  by (induction xs arbitrary: ys) (auto split: option.splits)

lemma list_all2_in: "list_all2 P xs ys \<Longrightarrow> y \<in> set ys \<Longrightarrow> \<exists>x\<in>set xs. P x y"
  by (induction rule: list_all2_induct) auto

lemma those_map:
  assumes "\<forall>x\<in>set xs. \<exists>y. f x = Some y \<and> P x y"
  shows "\<exists>ys. those (map f xs) = Some ys \<and> list_all2 (\<lambda>x y. f x = Some y \<and> P x y) xs ys"
  using assms
proof (induction xs)
  case (Cons x xs)
  then obtain ys where ys: "those (map f xs) = Some ys" "list_all2 (\<lambda>x y. f x = Some y \<and> P x y) xs ys" by auto
  obtain y where "f x = Some y" "P x y" using Cons.prems by auto
  then show ?case using ys by (intro exI [of _ "y # ys"]) simp
qed simp

section \<open>Match-making\<close>

lemma host_usable_some:
  assumes "client_ok e"
  obtains ok where "host_usable e uhosts job m = Some ok"
proof -
  have "host_usable e uhosts job m \<noteq> None"
    using assms unfolding host_usable_def client_ok_def
    by (auto split: option.split list.split prod.split)
  then show thesis using that by blast
qed

lemma host_usable_known:
  "host_usable e uhosts job m = Some True \<Longrightarrow>
     \<exists>l. find_first uh_hid (m_host_id m) uhosts = Some l \<and> uh_banned (uhosts ! l) < sc_now e"
  by (auto simp: host_usable_def split: option.splits if_splits)

definition selected :: "sch_env \<Rightarrow> sch_user_host list \<Rightarrow> sch_job \<Rightarrow> gw_match \<Rightarrow> nat option \<Rightarrow> bool" where
  "selected e uhosts job m i \<longleftrightarrow>
     (case i of None \<Rightarrow> True
      | Some k \<Rightarrow> host_usable e uhosts job m = Some True \<and> select_queue m = Some k)"

lemma select_host_some:
  assumes "client_ok e" and "m_queues m \<noteq> []"
  shows "\<exists>i. select_host e uhosts job m = Some i \<and> selected e uhosts job m i"
proof -
  obtain ok where ok: "host_usable e uhosts job m = Some ok" using host_usable_some [OF assms(1)] .
  obtain k where "select_queue m = Some k"
    using assms(2) by (cases "m_queues m") (auto simp: select_queue_def)
  then show ?thesis using ok by (cases ok) (auto simp: select_host_def selected_def)
qed

lemma best_queue_less: "qnum < n \<Longrightarrow> j + length qs \<le> n \<Longrightarrow> best_queue qs j a b qnum < n"
  by (induction qs j a b qnum rule: best_queue.induct) auto

lemma select_queue_less: "select_queue m = Some k \<Longrightarrow> m_queues m \<noteq> [] \<Longrightarrow> k < length (m_queues m)"
  using best_queue_less [of 0] by (auto simp: select_queue_def split: list.splits)

lemma match_queue_known:
  assumes "selected e uhosts job m i" and "\<forall>q\<in>set (m_queues m). length (fst q) < GW_MSG_STRING_SHORT - 1"
    and "m_queues m \<noteq> []"
  shows "\<exists>qs. match_queue uhosts (m, i) = Some qs \<and> length qs = (if i = None then 0 else 1)"
proof (cases i)
  case (Some k)
  have k: "k < length (m_queues m)"
    using assms(1) Some select_queue_less [OF _ assms(3)] by (simp add: selected_def)
  then have "length (fst (m_queues m ! k)) < GW_MSG_STRING_SHORT - 1" using assms(2) by simp
  moreover obtain l where "find_first uh_hid (m_host_id m) uhosts = Some l"
    using assms(1) Some host_usable_known by (fastforce simp: selected_def)
  ultimately show ?thesis using Some by (cases "m_queues m ! k") (simp add: match_queue_def)
qed (simp add: match_queue_def)

lemma build_mhosts_some:
  assumes "list_all2 (\<lambda>m i. selected e uhosts job m i \<and> m_queues m \<noteq> [] \<and>
      (\<forall>q\<in>set (m_queues m). length (fst q) < GW_MSG_STRING_SHORT - 1)) match hs"
  obtains qss where "those (map (match_queue uhosts) (zip match hs)) = Some qss"
    "build_mhosts uhosts match hs (length (filter (\<lambda>x. x \<noteq> None) hs)) = Some (concat qss)"
proof -
  have "\<exists>qss. those (map (match_queue uhosts) (zip match hs)) = Some qss \<and>
      length (concat qss) = length (filter (\<lambda>x. x \<noteq> None) hs)"
    using assms
  proof (induction rule: list_all2_induct)
    case (Cons m ms i ks)
    then obtain qs where "match_queue uhosts (m, i) = Some qs" "length qs = (if i = None then 0 else 1)"
      using match_queue_known by blast
    then show ?case using Cons by (auto intro: exI [of _ "qs # _"])
  qed simp
  then show ?thesis using that by (auto simp: build_mhosts_def)
qed

text \<open>What is known of a matching queue: its indices are valid.\<close>

definition queue_in :: "sch_user_host list \<Rightarrow> sch_queue \<Rightarrow> bool" where
  "queue_in uhosts q \<longleftrightarrow> sq_uha_id q < length uhosts \<and> sq_ha_id q = uh_ha_id (uhosts ! sq_uha_id q)"

lemma match_queue_in: "match_queue uhosts mi = Some qs \<Longrightarrow> q \<in> set qs \<Longrightarrow> queue_in uhosts q"
  by (auto simp: match_queue_def queue_in_def split: prod.splits option.splits if_splits
      dest: find_first_less find_first_less [OF sym])

lemma host_policies_some:
  assumes "\<forall>q\<in>set qs. queue_in uhosts q"
  obtains qs' where "gw_scheduler_host_policies e c uhosts qs = Some qs'" "\<forall>q\<in>set qs'. queue_in uhosts q"
proof -
  have "\<forall>q\<in>set qs. \<exists>q'. queue_usage e c uhosts q = Some q' \<and> queue_in uhosts q'"
    using assms by (auto simp: queue_usage_def queue_in_def)
  from those_map [OF this] obtain ps where ps: "those (map (queue_usage e c uhosts) qs) = Some ps"
    "list_all2 (\<lambda>x y. queue_usage e c uhosts x = Some y \<and> queue_in uhosts y) qs ps" by blast
  have pin: "\<forall>q\<in>set ps. queue_in uhosts q"
    using ps(2) by (auto simp: list_all2_conv_all_nth in_set_conv_nth)
  have keep: "queue_in uhosts (queue_priority e c a b d f g q) = queue_in uhosts q" for a b d f g q
    by (simp add: queue_priority_def queue_in_def Let_def)
  obtain a b d f g where "gw_scheduler_host_policies e c uhosts qs =
      Some (qsort queue_cmp (map (queue_priority e c a b d f g) ps))"
    using ps(1) by (simp add: gw_scheduler_host_policies_def Let_def)
  then show thesis by (rule that) (use pin keep in auto)
qed

lemma match_one_some:
  assumes "client_ok e" and inv: "sch_inv s" and "sj_ua_id job < length (sch_users s)"
    and "prev = None \<Longrightarrow> lst = -1" and "\<And>p. prev = Some p \<Longrightarrow> mhosts_in (length (sch_hosts s)) p"
  obtains job' out lst' where "match_one e s lst prev job = Some (job', out, lst')"
    "\<exists>qs. job' = job\<lparr>sj_mhosts := qs\<rparr>" "mhosts_in (length (sch_hosts s)) job'"
proof -
  let ?uh = "su_hosts (sch_users s ! sj_ua_id job)"
  let ?j = "job\<lparr>sj_mhosts := []\<rparr>"
  have len: "length ?uh = length (sch_hosts s)"
    using sch_inv_user(3) [OF inv assms(3)] map_eq_imp_length_eq by blast
  have ha: "uh_ha_id (?uh ! l) = l" if "l < length ?uh" for l
    using sch_inv_user(4) [OF inv assms(3)] that len
    by (metis nth_map nth_upt add_0)
  have qin: "mhosts_in (length (sch_hosts s)) (job\<lparr>sj_mhosts := qs\<rparr>)" if "\<forall>q\<in>set qs. queue_in ?uh q" for qs
    using that ha len by (auto simp: mhosts_in_def queue_in_def)
  have nil: "\<exists>qs. ?j = job\<lparr>sj_mhosts := qs\<rparr>" "mhosts_in (length (sch_hosts s)) ?j"
    by (auto simp: mhosts_in_def)
  show thesis
  proof (cases "sj_aid job = -1 \<or> lst \<noteq> sj_aid job \<or> sj_reason job = GW_REASON_SELF_MIGRATION")
    case False
    then obtain p where p: "prev = Some p" using assms(4) by (cases prev) auto
    have "match_one e s lst prev job = Some (job\<lparr>sj_mhosts := sj_mhosts p\<rparr>, [], lst)"
      using False p by (simp add: match_one_def Let_def)
    then show thesis using that assms(5) [OF p] by (auto simp: mhosts_in_def)
  next
    case True
    note c = this
    show thesis
    proof (cases "client_match e (sj_jid job) (sj_aid job) \<in> {None, Some []}")
      case True
      then have "match_one e s lst prev job = Some (?j, [], lst)"
        using c by (auto simp: match_one_def Let_def)
      then show thesis using that nil by blast
    next
      case False
      then obtain ms where ms: "client_match e (sj_jid job) (sj_aid job) = Some ms" "ms \<noteq> []" by auto
      have "\<forall>m\<in>set ms. \<exists>i. select_host e ?uh ?j m = Some i \<and> selected e ?uh ?j m i"
        using assms(1) ms(1) select_host_some [OF assms(1)] unfolding client_ok_def by blast
      from those_map [OF this] obtain hs where hs: "those (map (select_host e ?uh ?j) ms) = Some hs"
        "list_all2 (\<lambda>m i. select_host e ?uh ?j m = Some i \<and> selected e ?uh ?j m i) ms hs" by blast
      define tqs where "tqs = length (filter (\<lambda>x. x \<noteq> None) hs)"
      have f: "gw_scheduler_filter_select_queues e s ?j ms = Some (hs, tqs)"
        using hs(1) assms(3) by (simp add: gw_scheduler_filter_select_queues_def tqs_def)
      have "list_all2 (\<lambda>m i. selected e ?uh ?j m i \<and> m_queues m \<noteq> [] \<and>
          (\<forall>q\<in>set (m_queues m). length (fst q) < GW_MSG_STRING_SHORT - 1)) ms hs"
        using hs(2) assms(1) ms(1) unfolding client_ok_def list_all2_conv_all_nth by (metis nth_mem)
      then obtain qss where qss: "those (map (match_queue ?uh) (zip ms hs)) = Some qss"
        "build_mhosts ?uh ms hs tqs = Some (concat qss)"
        unfolding tqs_def by (rule build_mhosts_some)
      define qs where "qs = concat qss"
      have b: "build_mhosts ?uh ms hs tqs = Some qs" using qss(2) by (simp add: qs_def)
      have qs: "\<forall>q\<in>set qs. queue_in ?uh q"
        using list_all2_in [OF those_list_all2 [OF qss(1)]] match_queue_in by (fastforce simp: qs_def)
      obtain qs' where p: "gw_scheduler_host_policies e (sch_conf s) ?uh qs = Some qs'"
        "\<forall>q\<in>set qs'. queue_in ?uh q" using host_policies_some [OF qs] .
      let ?r = "if disable (sch_conf s) = 0 then qs' else qs"
      have dec: "(if disable (sch_conf s) = 0 then gw_scheduler_host_policies e (sch_conf s) ?uh qs else Some qs) = Some ?r"
        using p(1) by simp
      have rin: "\<forall>q\<in>set ?r. queue_in ?uh q" using qs p(2) by simp
      let ?l = "if sj_reason job = GW_REASON_SELF_MIGRATION then -1 else sj_aid job"
      show thesis
      proof (cases "tqs > 0")
        case True
        have "match_one e s lst prev job = Some (job\<lparr>sj_mhosts := ?r\<rparr>, [], ?l)"
          using c ms f b True p(1) by (auto simp: match_one_def Let_def)
        then show thesis using that qin [OF rin] by blast
      next
        case False
        then have "\<exists>out. match_one e s lst prev job = Some (?j, out, ?l)"
          using c ms f by (auto simp: match_one_def Let_def)
        then show thesis using that nil by blast
      qed
    qed
  qed
qed

lemma match_jobs_some:
  assumes "client_ok e" and inv: "sch_inv s" and "\<forall>j\<in>set jobs. sj_ua_id j < length (sch_users s)"
    and "prev = None \<Longrightarrow> lst = -1" and "\<And>p. prev = Some p \<Longrightarrow> mhosts_in (length (sch_hosts s)) p"
  shows "\<exists>js out. match_jobs e s lst prev jobs = Some (js, out) \<and>
     list_all2 (\<lambda>j j'. \<exists>qs. j' = j\<lparr>sj_mhosts := qs\<rparr>) jobs js \<and> (\<forall>j\<in>set js. mhosts_in (length (sch_hosts s)) j)"
  using assms(3-5)
proof (induction jobs arbitrary: lst prev)
  case (Cons job jobs)
  obtain j o1 lst' where j: "match_one e s lst prev job = Some (j, o1, lst')"
    "\<exists>qs. j = job\<lparr>sj_mhosts := qs\<rparr>" "mhosts_in (length (sch_hosts s)) j"
    by (rule match_one_some [OF assms(1) inv, of job prev lst]) (use Cons.prems in auto)
  obtain js o2 where js: "match_jobs e s lst' (Some j) jobs = Some (js, o2)"
    "list_all2 (\<lambda>j j'. \<exists>qs. j' = j\<lparr>sj_mhosts := qs\<rparr>) jobs js" "\<forall>j\<in>set js. mhosts_in (length (sch_hosts s)) j"
    using Cons.IH [of "Some j" lst'] Cons.prems(1) j(3) by auto
  show ?case using j js by (intro exI [of _ "j # js"]) auto
qed simp

lemma inv_matching:
  assumes "client_ok e" and inv: "sch_inv s"
  obtains js out where "gw_scheduler_matching_arrays e s = Some (s\<lparr>sch_jobs := js\<rparr>, out)"
    "list_all2 (\<lambda>j j'. \<exists>qs. j' = j\<lparr>sj_mhosts := qs\<rparr>) (sch_jobs s) js" "sch_inv (s\<lparr>sch_jobs := js\<rparr>)"
proof -
  obtain js out where js: "match_jobs e s (-1) None (sch_jobs s) = Some (js, out)"
    "list_all2 (\<lambda>j j'. \<exists>qs. j' = j\<lparr>sj_mhosts := qs\<rparr>) (sch_jobs s) js"
    "\<forall>j\<in>set js. mhosts_in (length (sch_hosts s)) j"
    using match_jobs_some [OF assms, of "sch_jobs s" None "-1"] sch_inv_job(1) [OF inv] by auto
  have "map sj_ua_id js = map sj_ua_id (sch_jobs s)"
    using js(2) by (induction rule: list_all2_induct) auto
  then have "sch_inv (s\<lparr>sch_jobs := js\<rparr>)" using js(3) by (intro sch_inv_same [OF inv]) auto
  then show thesis using that js(1,2) by (simp add: gw_scheduler_matching_arrays_def)
qed

section \<open>Policies\<close>

lemma deadline_half_below:
  assumes "env_ok e" and "conf_ok c"
  obtains b where "deadline_half e c = Fin True b" "0 \<le> b"
proof -
  have d: "ieee (dbl e)" and f: "ieee (flo e)" using assms(1) by (simp_all add: env_ok_def)
  have "(3 / 2 :: rat) \<le> 2 ^ 1" by simp
  with ieee_le [OF d, of "3 / 2" 1] obtain a where a: "dbl e (3 / 2) = Some a" "0 \<le> a" "a \<le> 2 ^ 1" by auto
  have i: "\<bar>dl_half c\<bar> \<le> 2 ^ 31" "\<not> dl_half c < 0" using assms(2) by (auto simp: conf_ok_def)
  from fin_le_int [OF d i(1)] i(2) obtain n where
    n: "flt_of_int (dbl e) (dl_half c) = Fin False n" "0 \<le> n" "n \<le> 2 ^ 31"
    by (auto simp: fin_le_def flt_of_int_def mk_flt_def split: option.splits)
  have "a * n \<le> 2 ^ 1 * 2 ^ 31" using a n by (intro mult_mono) auto
  with ieee_le [OF d, of "a * n" 32] a n obtain p where p: "dbl e (a * n) = Some p" "0 \<le> p" "p \<le> 2 ^ 32" by auto
  have "\<bar>86400 :: int\<bar> \<le> 2 ^ 17" by simp
  from fin_le_int [OF d this] obtain q where q: "flt_of_int (dbl e) 86400 = Fin False q" "0 \<le> q" "q \<le> 2 ^ 17"
    by (auto simp: fin_le_def flt_of_int_def mk_flt_def split: option.splits)
  have "p * q \<le> 2 ^ 32 * 2 ^ 17" using p q by (intro mult_mono) auto
  with ieee_le [OF d, of "p * q" 49] p q obtain r where r: "dbl e (p * q) = Some r" "0 \<le> r" "r \<le> 2 ^ 49" by auto
  with ieee_le [OF f, of r 49] obtain t where "flo e r = Some t" "0 \<le> t" by auto
  then show thesis using that a n p q r by (simp add: deadline_half_def mk_flt_def)
qed

definition same_job :: "sch_job \<Rightarrow> sch_job \<Rightarrow> bool" where
  "same_job j k \<longleftrightarrow> sj_ua_id k = sj_ua_id j \<and> sj_jid k = sj_jid j \<and> sj_aid k = sj_aid j \<and>
     sj_np k = sj_np j \<and> sj_reason k = sj_reason j \<and> sj_mhosts k = sj_mhosts j \<and>
     sj_schedule_time k = sj_schedule_time j \<and> sj_deadline_time k = sj_deadline_time j \<and>
     sj_fixed k = sj_fixed j"

lemma job_dates_some:
  assumes env: "env_ok e" and conf: "conf_ok c" and "\<bar>sj_deadline_time j\<bar> \<le> 2 ^ 61"
  shows "\<exists>k. job_dates e c j = Some k \<and> same_job j k"
proof (cases "sj_deadline_time j \<noteq> 0 \<and> \<not> sj_deadline_time j - sc_now e \<le> 0")
  case False
  then show ?thesis by (auto simp: job_dates_def same_job_def Let_def)
next
  case True
  have d: "ieee (dbl e)" and f: "ieee (flo e)" using env by (simp_all add: env_ok_def)
  let ?t = "sj_deadline_time j - sc_now e"
  have "1 \<le> ?t" "?t \<le> 2 ^ 62" using True assms(3) env by (auto simp: env_ok_def)
  from flt_of_pos_int [OF f this] obtain a where a: "flt_of_int (flo e) ?t = Fin False a" "1 \<le> a" by auto
  obtain b where b: "deadline_half e c = Fin True b" "0 \<le> b" using deadline_half_below [OF env conf] .
  have "flt_below (flt_div (flo e) (flt_of_int (flo e) ?t) (deadline_half e c))"
    unfolding a(1) b(1) by (rule flt_below_div [OF f a(2) b(2)]) simp
  then have x: "fin_le 0 (exp_fn e (flt_div (flo e) (flt_of_int (flo e) ?t) (deadline_half e c)))"
    using env by (simp add: env_ok_def exp_ok_fin)
  have "\<bar>100 :: int\<bar> \<le> 2 ^ 7" by simp
  from fin_le_trunc [OF fin_le_mul [OF d fin_le_int [OF d this] x]] obtain n where
    "flt_trunc (flt_mul (dbl e) (flt_of_int (dbl e) 100)
       (exp_fn e (flt_div (flo e) (flt_of_int (flo e) ?t) (deadline_half e c)))) = Some n" by auto
  then show ?thesis using True by (simp add: job_dates_def same_job_def Let_def)
qed

lemma job_presort_some:
  assumes "env_ok e" and "conf_ok c" and "\<forall>j\<in>set js. \<bar>sj_deadline_time j\<bar> \<le> 2 ^ 61"
  obtains ks where "job_presort e c js = Some ks" "\<exists>ls. mset ls = mset ks \<and> list_all2 same_job js ls"
proof -
  have "\<forall>j\<in>set js. \<exists>k. job_dates e c j = Some k \<and> same_job j k"
    using assms job_dates_some by blast
  from those_map [OF this] obtain ls where ls: "those (map (job_dates e c) js) = Some ls"
    "list_all2 (\<lambda>x y. job_dates e c x = Some y \<and> same_job x y) js ls" by blast
  obtain a b d where k: "job_presort e c js = Some (qsort job_cmp (map (job_priority e c a b d) ls))"
    using ls(1) by (simp add: job_presort_def Let_def)
  have "list_all2 same_job js (map (job_priority e c a b d) ls)"
    using ls(2) by (simp add: list_all2_map2)
      (erule list_all2_mono, simp add: same_job_def job_priority_def Let_def)
  then show thesis using that [OF k] by (metis mset_qsort)
qed

lemma window_weight_unit:
  assumes "env_ok e" and "int i \<le> 2 ^ 31"
  obtains m where "window_weight e i = Fin False m" "0 \<le> m" "m \<le> 1"
proof -
  have d: "ieee (dbl e)" and f: "ieee (flo e)" using assms(1) by (simp_all add: env_ok_def)
  have seven: "(7 / 2 :: rat) \<le> 2 ^ 2" by simp
  obtain b where b: "dbl e (7 / 2) = Some b" "0 \<le> b"
    using ieee_le [OF d _ seven] by auto
  have "1 \<le> b" by (rule ieee_ge_1 [OF d _ b(1)]) simp
  obtain a where a: "flt_of_int (flo e) (int i) = Fin False a" "0 \<le> a" "a \<le> 2 ^ 31"
    using fin_le_int [OF f, of "int i" 31] assms(2)
    by (auto simp: fin_le_def flt_of_int_def mk_flt_def split: option.splits)
  have "a / b \<le> a" using \<open>1 \<le> b\<close> a(2) by (simp add: divide_le_eq mult_le_cancel_left1)
  then have "a / b \<le> 2 ^ 31" using a(3) by simp
  with ieee_le [OF d, of "a / b" 31] a(2) b(2) obtain q where q: "dbl e (a / b) = Some q" "0 \<le> q" by auto
  have "flt_below (flt_neg (flt_div (dbl e) (flt_of_int (flo e) (int i)) (mk_flt (dbl e) False (7 / 2))))"
    using a(1) b(1) \<open>1 \<le> b\<close> q by (simp add: flt_below_def mk_flt_def)
  then show thesis using that assms(1) unfolding window_weight_def env_ok_def exp_ok_def by blast
qed

lemma window_weight_le: "env_ok e \<Longrightarrow> int i \<le> 2 ^ 31 \<Longrightarrow> fin_le 0 (window_weight e i)"
  by (erule (1) window_weight_unit) (auto simp: fin_le_def)

lemma fin_le_trunc_le:
  assumes "fin_le k x" and "flt_trunc x = Some i"
  shows "\<bar>i\<bar> \<le> 2 ^ k"
proof -
  obtain s m where x: "x = Fin s m" "0 \<le> m" "m \<le> 2 ^ k" using assms(1) by (auto simp: fin_le_def)
  have "\<lfloor>m\<rfloor> \<le> \<lfloor>(2 ^ k :: rat)\<rfloor>" using x(3) by (rule floor_mono)
  also have "\<lfloor>(2 ^ k :: rat)\<rfloor> = 2 ^ k" by (metis floor_of_int of_int_numeral of_int_power)
  finally show ?thesis using x assms(2) by (auto simp: flt_trunc_def)
qed

lemma window_jobs_le:
  assumes "env_ok e" and "\<forall>w\<in>set (sub_windows u). \<bar>w\<bar> \<le> 2 ^ 27" and "window_jobs e u i = Some n" and "int i \<le> 2 ^ 31"
  shows "\<bar>n\<bar> \<le> 2 ^ 27"
proof -
  have d: "ieee (dbl e)" using assms(1) by (simp add: env_ok_def)
  have i: "i < length (sub_windows u)" using assms(3) by (simp add: window_jobs_def split: if_splits)
  then have w: "\<bar>sub_windows u ! i\<bar> \<le> 2 ^ 27" using assms(2) by simp
  have "fin_le (27 + 0) (flt_mul (dbl e) (flt_of_int (dbl e) (sub_windows u ! i)) (window_weight e i))"
    by (rule fin_le_mul [OF d fin_le_int [OF d w] window_weight_le [OF assms(1,4)]]) simp_all
  moreover have "flt_trunc (flt_mul (dbl e) (flt_of_int (dbl e) (sub_windows u ! i)) (window_weight e i)) = Some n"
    using assms(3) i by (simp add: window_jobs_def)
  ultimately show ?thesis using fin_le_trunc_le by fastforce
qed

lemma past_jobs_some:
  assumes env: "env_ok e" and "nat depth \<le> length (sub_windows u)"
    and "\<forall>w\<in>set (sub_windows u). \<bar>w\<bar> \<le> 2 ^ 27" and "depth \<le> 10"
  obtains n where "gw_scheduler_user_past_jobs e u depth = Some n"
proof -
  have d: "ieee (dbl e)" using env by (simp add: env_ok_def)
  have "\<exists>n. window_jobs e u i = Some n \<and> \<bar>n\<bar> \<le> 2 ^ 27" if "i < nat depth" for i
  proof -
    have i: "i < length (sub_windows u)" "int i \<le> 2 ^ 31" using that assms(2,4) by auto
    then have "\<bar>sub_windows u ! i\<bar> \<le> 2 ^ 27" using assms(3) by simp
    from fin_le_trunc [OF fin_le_mul [OF d fin_le_int [OF d this] window_weight_le [OF env i(2)]]]
    obtain n where "window_jobs e u i = Some n" using i(1) by (auto simp: window_jobs_def)
    then show ?thesis using window_jobs_le [OF env assms(3) _ i(2)] by blast
  qed
  then have "\<forall>i\<in>set [0..<nat depth]. \<exists>n. window_jobs e u i = Some n \<and> \<bar>n\<bar> \<le> 2 ^ 27" by auto
  from those_map [OF this] obtain ws where ws: "those (map (window_jobs e u) [0..<nat depth]) = Some ws"
    "list_all2 (\<lambda>i n. window_jobs e u i = Some n \<and> \<bar>n\<bar> \<le> 2 ^ 27) [0..<nat depth] ws" by blast
  have "\<forall>w\<in>set ws. \<bar>w\<bar> \<le> 2 ^ 27" using list_all2_in [OF ws(2)] by blast
  moreover have "length ws = nat depth" using list_all2_lengthD [OF ws(2)] by simp
  then have "int (length ws) * 2 ^ 27 \<le> 10 * 2 ^ 27" using assms(4) by simp
  ultimately have "add_windows 0 ws \<noteq> None"
    using add_windows_some [of ws "2 ^ 27" 0] by (simp add: INT_MAX_def)
  then show thesis using that ws(1) by (auto simp: gw_scheduler_user_past_jobs_def)
qed

lemma share_nonzero:
  assumes "conf_ok c"
  shows "gw_sch_get_user_share c name \<noteq> 0"
proof -
  have "conf_lookup (ushare c) name = Some v \<Longrightarrow> v \<noteq> 0" for v
    using assms by (auto simp: conf_ok_def conf_lookup_map_of dest!: map_of_SomeD)
  then show ?thesis using assms by (auto simp: gw_sch_get_user_share_def conf_ok_def split: option.split)
qed

lemma user_share_some:
  assumes "env_ok e" and "conf_ok c" and "window_depth c \<le> 2 ^ 31"
    and "length (sub_windows u) = nat (window_depth c)" and "\<forall>w\<in>set (sub_windows u). \<bar>w\<bar> \<le> 2 ^ 27"
  shows "\<exists>vq. user_share e c u = Some vq \<and> user_key (fst vq) = user_key u \<and> su_share (fst vq) \<noteq> 0"
proof -
  obtain n where "gw_scheduler_user_past_jobs e u (window_depth c) = Some n"
    by (rule past_jobs_some [OF assms(1), of "window_depth c" u]) (use assms in \<open>auto simp: conf_ok_def\<close>)
  then show ?thesis
    using share_nonzero [OF assms(2)] by (auto simp: user_share_def user_key_def Let_def)
qed

lemma share_jobs_some:
  assumes "\<forall>j\<in>set js. sj_ua_id j < length us" and "\<forall>u\<in>set us. su_share u \<noteq> 0"
  shows "\<exists>vs ks. share_jobs e c ms us js = Some (vs, ks) \<and> map user_key vs = map user_key us \<and>
     list_all2 same_job js ks"
  using assms
proof (induction js arbitrary: us)
  case (Cons j js)
  let ?u = "us ! sj_ua_id j"
  have n: "sj_ua_id j < length us" using Cons.prems(1) by simp
  let ?us = "us[sj_ua_id j := ?u\<lparr>su_next_ujid := su_next_ujid ?u + 1\<rparr>]"
  obtain k where k: "share_one e c ms us j = Some (?us, k)" "same_job j k"
    using n Cons.prems(2) by (simp add: share_one_def Let_def same_job_def)
  have keys: "map user_key ?us = map user_key us"
    by (rule map_key_update [OF n]) (simp add: user_key_def)
  have "\<forall>j\<in>set js. sj_ua_id j < length ?us" using Cons.prems(1) by simp
  moreover have "\<forall>u\<in>set ?us. su_share u \<noteq> 0"
  proof
    fix u assume "u \<in> set ?us"
    then have "u \<in> set us \<or> u = ?u\<lparr>su_next_ujid := su_next_ujid ?u + 1\<rparr>"
      using set_update_subset_insert by fastforce
    then show "su_share u \<noteq> 0" using Cons.prems(2) n by auto
  qed
  ultimately obtain vs ks where "share_jobs e c ms ?us js = Some (vs, ks)"
    "map user_key vs = map user_key ?us" "list_all2 same_job js ks"
    using Cons.IH by blast
  then show ?case using k keys by auto
qed simp

lemma inv_same_jobs:
  assumes inv: "sch_inv s" and "map user_key us = map user_key (sch_users s)"
    and "mset ls = mset js" and "list_all2 same_job (sch_jobs s) ls"
  shows "sch_inv (s\<lparr>sch_users := us, sch_jobs := js\<rparr>)"
proof -
  have "map sj_ua_id ls = map sj_ua_id (sch_jobs s)"
    using assms(4) by (induction rule: list_all2_induct) (auto simp: same_job_def)
  then have "mset (map sj_ua_id js) = mset (map sj_ua_id (sch_jobs s))"
    using assms(3) by (metis mset_map)
  moreover have "\<forall>j\<in>set js. mhosts_in (length (sch_hosts s)) j"
  proof
    fix j assume "j \<in> set js"
    then have "j \<in> set ls" using assms(3) by (metis set_mset_mset)
    then obtain k where "k \<in> set (sch_jobs s)" "same_job k j"
      using assms(4) unfolding list_all2_conv_all_nth by (metis in_set_conv_nth)
    then show "mhosts_in (length (sch_hosts s)) j"
      using sch_inv_job(2) [OF inv] by (auto simp: same_job_def mhosts_in_def)
  qed
  ultimately show ?thesis using assms(2) by (intro sch_inv_same [OF inv]) auto
qed

lemma list_all2_same_trans:
  "list_all2 same_job xs ys \<Longrightarrow> list_all2 same_job ys zs \<Longrightarrow> list_all2 same_job xs zs"
  by (rule list_all2_trans [of same_job same_job same_job]) (auto simp: same_job_def)

end
