(* ===== verification/SCH_Steps.thy ===== *)
theory SCH_Steps
  imports SCH_Safe
begin

text \<open>
  The actions of the scheduler process keep its invariant. A scheduler plugged into the loop is an
  interface (the locale \<open>scheduler_module\<close>): from tables that satisfy the invariant it returns, with
  tables that satisfy it again. Both schedulers of the program provide it.
\<close>

section \<open>The policies keep the invariant\<close>

lemma inv_policies:
  assumes env: "env_ok e" and conf: "conf_ok (sch_conf s)" and "window_depth (sch_conf s) \<le> 2 ^ 31"
    and inv: "sch_inv s" and rng: "in_range s"
  obtains s' where "gw_scheduler_job_policies e s = Some s'" "sch_inv s'"
    "sch_hosts s' = sch_hosts s" "sch_conf s' = sch_conf s"
    "\<exists>ls. mset ls = mset (sch_jobs s') \<and> list_all2 same_job (sch_jobs s) ls"
proof -
  let ?c = "sch_conf s"
  have dl: "\<forall>j\<in>set (sch_jobs s). \<bar>sj_deadline_time j\<bar> \<le> 2 ^ 61"
    using rng unfolding in_range_def by (rule conjunct2)
  obtain ks where ks0: "job_presort e ?c (sch_jobs s) = Some ks"
    "\<exists>ls. mset ls = mset ks \<and> list_all2 same_job (sch_jobs s) ls"
    by (rule job_presort_some [OF env conf dl])
  then obtain ls where ks: "job_presort e ?c (sch_jobs s) = Some ks" "mset ls = mset ks"
    "list_all2 same_job (sch_jobs s) ls" by metis
  show thesis
  proof (cases "flt_pos (wshare ?c)")
    case False
    then have "gw_scheduler_job_policies e s = Some (s\<lparr>sch_jobs := ks\<rparr>)"
      using ks(1) by (simp add: gw_scheduler_job_policies_def Let_def)
    moreover have "sch_inv (s\<lparr>sch_jobs := ks\<rparr>)"
      using inv_same_jobs [OF inv refl ks(2,3)] by simp
    ultimately show thesis using that ks(2,3) by auto
  next
    case True
    have "\<exists>vq. user_share e ?c u = Some vq \<and> user_key (fst vq) = user_key u \<and> su_share (fst vq) \<noteq> 0"
      if "u \<in> set (sch_users s)" for u
    proof (rule user_share_some [OF env conf assms(3)])
      show "length (sub_windows u) = nat (window_depth ?c)"
        using that sch_inv_user(2) [OF inv] by (auto simp: in_set_conv_nth)
      show "\<forall>w\<in>set (sub_windows u). \<bar>w\<bar> \<le> 2 ^ 27" using that rng by (auto simp: in_range_def)
    qed
    then have "\<forall>u\<in>set (sch_users s). \<exists>vq. user_share e ?c u = Some vq \<and>
        (user_key (fst vq) = user_key u \<and> su_share (fst vq) \<noteq> 0)" by blast
    from those_map [OF this] obtain uq where uq: "those (map (user_share e ?c) (sch_users s)) = Some uq"
      "list_all2 (\<lambda>u vq. user_share e ?c u = Some vq \<and>
         (user_key (fst vq) = user_key u \<and> su_share (fst vq) \<noteq> 0)) (sch_users s) uq" by blast
    have keys: "map user_key (map fst uq) = map user_key (sch_users s)"
      using uq(2) by (induction rule: list_all2_induct) auto
    have nz: "\<forall>u\<in>set (map fst uq). su_share u \<noteq> 0"
      using uq(2) by (induction rule: list_all2_induct) auto
    have len: "length uq = length (sch_users s)" using uq(2) by (simp add: list_all2_lengthD)
    have ua: "sj_ua_id j < length (map fst uq)" if "j \<in> set ks" for j
    proof -
      have "sch_inv (s\<lparr>sch_jobs := ks\<rparr>)" using inv_same_jobs [OF inv refl ks(2,3)] by simp
      then show ?thesis using sch_inv_job(1) [of "s\<lparr>sch_jobs := ks\<rparr>" j] that len by simp
    qed
    define ms where "ms = (let m = int_max_from 0 (map snd uq) in if m = 0 then 1 else m)"
    obtain vs ns where ns: "share_jobs e ?c ms (map fst uq) ks = Some (vs, ns)"
      "map user_key vs = map user_key (map fst uq)" "list_all2 same_job ks ns"
      using share_jobs_some [of ks "map fst uq" e ?c ms] ua nz by blast
    let ?s = "s\<lparr>sch_users := vs, sch_jobs := qsort job_cmp ns\<rparr>"
    have p: "gw_scheduler_job_policies e s = Some ?s"
      using True ks(1) uq(1) ns(1) by (simp add: gw_scheduler_job_policies_def Let_def ms_def)
    obtain ns' where ns': "list_all2 same_job ls ns'" "mset ns' = mset ns"
      using ns(3) ks(2) list_all2_reorder_left_invariance by metis
    then have l: "mset ns' = mset (qsort job_cmp ns)" "list_all2 same_job (sch_jobs s) ns'"
      using list_all2_same_trans [OF ks(3)] by simp_all
    have "sch_inv ?s"
      using inv_same_jobs [OF inv _ l] ns(2) keys by simp
    then show thesis using that [OF p] l by auto
  qed
qed

section \<open>Dispatching keeps the invariant\<close>

lemma inc_dispatched_inv:
  assumes inv: "sch_inv s" and "h < length (sch_hosts s)" and "k < length (sch_users s)"
  shows "sch_inv (inc_dispatched h k s)"
  by (rule sch_inv_same [OF inv])
     (use assms sch_inv_job [OF inv] in
        \<open>auto simp: inc_dispatched_def map_update list_update_same_conv user_key_def\<close>)

lemma pick_queue_some:
  "\<forall>q\<in>set qs. sq_ha_id q < length hosts \<Longrightarrow>
     \<exists>r. pick_queue mx hosts qs = Some r \<and> (\<forall>q. r = Some q \<longrightarrow> q \<in> set qs)"
  by (induction qs) (auto simp: Let_def)

lemma pick_flood_some:
  "\<forall>q\<in>set qs. sq_ha_id q < length hosts \<Longrightarrow>
     \<exists>r. pick_flood mx np hosts qs = Some r \<and> (\<forall>q. r = Some q \<longrightarrow> q \<in> set qs)"
  by (induction qs) (auto simp: Let_def)

definition same_conf :: "gw_scheduler \<Rightarrow> gw_scheduler \<Rightarrow> bool" where
  "same_conf s t \<longleftrightarrow> sch_conf t = sch_conf s \<and> length (sch_users t) = length (sch_users s) \<and>
     map sh_hid (sch_hosts t) = map sh_hid (sch_hosts s) \<and> set (sch_jobs t) \<subseteq> set (sch_jobs s)"

lemma same_conf_trans: "same_conf s t \<Longrightarrow> same_conf t u \<Longrightarrow> same_conf s u"
  by (auto simp: same_conf_def)

lemma dispatch_inv:
  assumes inv: "sch_inv s" and "0 < window_depth (sch_conf s)"
    and "h < length (sch_hosts s)" and "k < length (sch_users s)"
  obtains s' where "gw_scheduler_job_del jid True (inc_dispatched h k s) = Some s'" "sch_inv s'" "same_conf s s'"
proof -
  have c: "sch_conf (inc_dispatched h k s) = sch_conf s" "length (sch_users (inc_dispatched h k s)) = length (sch_users s)"
    "map sh_hid (sch_hosts (inc_dispatched h k s)) = map sh_hid (sch_hosts s)"
    "sch_jobs (inc_dispatched h k s) = sch_jobs s"
    using assms(3) by (simp_all add: inc_dispatched_def map_update list_update_same_conv)
  obtain s' where "gw_scheduler_job_del jid True (inc_dispatched h k s) = Some s'" "sch_inv s'"
    "sch_hosts s' = sch_hosts (inc_dispatched h k s)" "sch_conf s' = sch_conf (inc_dispatched h k s)"
    "length (sch_users s') = length (sch_users (inc_dispatched h k s))"
    "set (sch_jobs s') \<subseteq> set (sch_jobs (inc_dispatched h k s))"
    by (rule inv_job_del [OF inc_dispatched_inv [OF inv assms(3,4)], of True jid]) (use assms(2) c in auto)
  then show thesis using that c by (simp add: same_conf_def)
qed

lemma sched_round_inv:
  assumes inv: "sch_inv s" and "0 < window_depth (sch_conf s)" and i: "i < length (sch_jobs s)"
  shows "sched_round rs c i s = Some (Inl ()) \<or>
    (\<exists>s' l. sched_round rs c i s = Some (Inr (s', l)) \<and> sch_inv s' \<and> same_conf s s')"
proof -
  let ?j = "sch_jobs s ! i"
  have j: "sj_ua_id ?j < length (sch_users s)" "\<forall>q\<in>set (sj_mhosts ?j). sq_ha_id q < length (sch_hosts s)"
    using sch_inv_job [OF inv, of ?j] i by (simp_all add: mhosts_in_def)
  obtain r where r: "pick_queue (max_resource c) (sch_hosts s) (sj_mhosts ?j) = Some r"
    "\<And>q. r = Some q \<Longrightarrow> q \<in> set (sj_mhosts ?j)" using pick_queue_some [OF j(2)] by blast
  show ?thesis
  proof (cases r)
    case None
    then show ?thesis using j r by (simp add: sched_round_def Let_def)
  next
    case (Some q)
    then have "sq_ha_id q < length (sch_hosts s)" using r(2) j(2) by blast
    then obtain s' where "gw_scheduler_job_del (sj_jid ?j) True (inc_dispatched (sq_ha_id q) (sj_ua_id ?j) s) = Some s'"
      "sch_inv s'" "same_conf s s'" using dispatch_inv [OF inv assms(2) _ j(1)] by blast
    then show ?thesis using j r Some by (simp add: sched_round_def Let_def)
  qed
qed

lemma sched_loop_inv:
  "sch_inv s \<Longrightarrow> 0 < window_depth (sch_conf s) \<Longrightarrow>
     \<exists>s' d' out. sched_loop rs c mx i d s = Some (s', d', out) \<and> sch_inv s' \<and> same_conf s s'"
proof (induction rs c mx i d s rule: sched_loop.induct)
  case (1 rs c mx i d s)
  show ?case
  proof (cases "i < length (sch_jobs s) \<and> d < mx")
    case False
    then show ?thesis using "1.prems"
      unfolding sched_loop.simps [of rs c mx i d s] if_not_P [OF False] by (simp add: same_conf_def)
  next
    case True
    from sched_round_inv [OF "1.prems", of i rs c] True
    consider "sched_round rs c i s = Some (Inl ())"
      | t l where "sched_round rs c i s = Some (Inr (t, l))" "sch_inv t" "same_conf s t" by blast
    then show ?thesis
    proof cases
      case 1
      have "sched_loop rs c mx i d s = sched_loop rs c mx (Suc i) d s"
        using True 1 by (simp add: sched_loop.simps [of rs c mx i d s])
      then show ?thesis using "1.IH"(1) [OF True 1 refl] "1.prems" by simp
    next
      case (2 t l)
      have "0 < window_depth (sch_conf t)" using 2(3) "1.prems"(2) by (simp add: same_conf_def)
      from "1.IH"(2) [OF True 2(1) refl refl 2(2) this] obtain s' d' out where
        r: "sched_loop rs c mx i (d + 1) t = Some (s', d', out)" "sch_inv s'" "same_conf t s'" by blast
      have "sched_loop rs c mx i d s = Some (s', d', l # out)"
        using True 2(1) r(1) by (simp add: sched_loop.simps [of rs c mx i d s])
      then show ?thesis using r(2) same_conf_trans [OF 2(3) r(3)] by blast
    qed
  qed
qed

lemma gw_sched_inv:
  assumes "sch_inv s" and "0 < window_depth (sch_conf s)"
  shows "\<exists>s' out. gw_sched s = Some (s', out) \<and> sch_inv s' \<and> same_conf s s'"
proof -
  obtain s1 d1 o1 where 1: "gw_sched_dispatch False 0 s = Some (s1, d1, o1)" "sch_inv s1" "same_conf s s1"
    using sched_loop_inv [OF assms] by (metis gw_sched_dispatch_def)
  have "0 < window_depth (sch_conf s1)" using 1(3) assms(2) by (simp add: same_conf_def)
  then obtain s2 d2 o2 where 2: "gw_sched_dispatch True d1 s1 = Some (s2, d2, o2)" "sch_inv s2" "same_conf s1 s2"
    using sched_loop_inv [OF 1(2)] by (metis gw_sched_dispatch_def)
  show ?thesis using 1 2 same_conf_trans [OF 1(3) 2(3)] by (simp add: gw_sched_def)
qed

section \<open>The flood scheduler\<close>

lemma flood_round_inv:
  assumes inv: "sch_inv s" and "0 < window_depth (sch_conf s)" and i: "i < length (sch_jobs s)"
    and ui: "ui < length (sch_users s)"
  shows "flood_round rs h uid ui i s = Some (Inl ()) \<or>
    (\<exists>s' l. flood_round rs h uid ui i s = Some (Inr (s', l)) \<and> sch_inv s' \<and> same_conf s s')"
proof -
  let ?j = "sch_jobs s ! i"
  have j: "sj_ua_id ?j < length (sch_users s)" "\<forall>q\<in>set (sj_mhosts ?j). sq_ha_id q < length (sch_hosts s)"
    using sch_inv_job [OF inv, of ?j] i by (simp_all add: mhosts_in_def)
  obtain r where r: "pick_flood h (sj_np ?j) (sch_hosts s) (sj_mhosts ?j) = Some r"
    "\<And>q. r = Some q \<Longrightarrow> q \<in> set (sj_mhosts ?j)" using pick_flood_some [OF j(2)] by blast
  show ?thesis
  proof (cases r)
    case None
    then show ?thesis using j r by (simp add: flood_round_def Let_def)
  next
    case (Some q)
    then have "sq_ha_id q < length (sch_hosts s)" using r(2) j(2) by blast
    then obtain s' where "gw_scheduler_job_del (sj_jid ?j) True (inc_dispatched (sq_ha_id q) ui s) = Some s'"
      "sch_inv s'" "same_conf s s'" using dispatch_inv [OF inv assms(2) _ ui] by blast
    then show ?thesis using j r Some by (simp add: flood_round_def Let_def)
  qed
qed

lemma flood_loop_inv:
  "sch_inv s \<Longrightarrow> 0 < window_depth (sch_conf s) \<Longrightarrow> ui < length (sch_users s) \<Longrightarrow>
     \<exists>s' d' out. flood_loop rs h uid ui rc i d s = Some (s', d', out) \<and> sch_inv s' \<and> same_conf s s'"
proof (induction rs h uid ui rc i d s rule: flood_loop.induct)
  case (1 rs h uid ui rc i d s)
  show ?case
  proof (cases "i < length (sch_jobs s) \<and> d < rc")
    case False
    then show ?thesis using "1.prems"
      unfolding flood_loop.simps [of rs h uid ui rc i d s] if_not_P [OF False] by (simp add: same_conf_def)
  next
    case True
    from flood_round_inv [OF "1.prems"(1,2), of i ui rs h uid] True "1.prems"(3)
    consider "flood_round rs h uid ui i s = Some (Inl ())"
      | t l where "flood_round rs h uid ui i s = Some (Inr (t, l))" "sch_inv t" "same_conf s t" by blast
    then show ?thesis
    proof cases
      case 1
      have "flood_loop rs h uid ui rc i d s = flood_loop rs h uid ui rc (Suc i) d s"
        using True 1 by (simp add: flood_loop.simps [of rs h uid ui rc i d s])
      then show ?thesis using "1.IH"(1) [OF True 1 refl] "1.prems" by simp
    next
      case (2 t l)
      have "0 < window_depth (sch_conf t)" "ui < length (sch_users t)"
        using 2(3) "1.prems"(2,3) by (simp_all add: same_conf_def)
      from "1.IH"(2) [OF True 2(1) refl refl 2(2) this] obtain s' d' out where
        r: "flood_loop rs h uid ui rc i (d + 1) t = Some (s', d', out)" "sch_inv s'" "same_conf t s'" by blast
      have "flood_loop rs h uid ui rc i d s = Some (s', d', l # out)"
        using True 2(1) r(1) by (simp add: flood_loop.simps [of rs h uid ui rc i d s])
      then show ?thesis using r(2) same_conf_trans [OF 2(3) r(3)] by blast
    qed
  qed
qed

lemma same_conf_refl: "same_conf s s"
  by (simp add: same_conf_def)

lemma schedule_user_inv:
  assumes "sch_inv (fst sp)" and "0 < window_depth (sch_conf (fst sp))"
    and "\<exists>u\<in>set (sch_users (fst sp)). su_uid u = uid"
  shows "\<exists>sp' n out. schedule_user rs uid sp = Some (sp', n, out) \<and> sch_inv (fst sp') \<and>
     same_conf (fst sp) (fst sp')"
proof -
  obtain s p where sp: "sp = (s, p)" by (cases sp)
  obtain ui where ui: "find_first su_uid uid (sch_users s) = Some ui" "ui < length (sch_users s)"
    using assms(3) find_first_None [of su_uid uid "sch_users s"] find_first_less [of su_uid uid "sch_users s"]
    unfolding sp by fastforce
  define remaining where "remaining = (if sched_max p = 0 then int (length (sch_jobs s)) else sched_max p - dispached p)"
  define max_round where "max_round = (if user_max p = 0 then int (length (sch_jobs s))
      else user_max p - (su_running_jobs (sch_users s ! ui) + su_dispatched (sch_users s ! ui)))"
  let ?rc = "flood_chunk p max_round remaining"
  obtain s' d' out where r: "flood_loop rs (host_max p) uid ui ?rc 0 0 s = Some (s', d', out)"
    "sch_inv s'" "same_conf s s'"
    using flood_loop_inv [of s ui] assms(1,2) ui(2) unfolding sp fst_conv by blast
  have "schedule_user rs uid sp =
      (if max_round \<le> 0 \<or> remaining \<le> 0 then Some ((s, p), 0, [])
       else Some ((s', p\<lparr>dispached := dispached p + d'\<rparr>), d', out))"
    using ui(1) r(1)
    by (simp add: sp schedule_user_def user_get_dispatched_def Let_def
        remaining_def [symmetric] max_round_def [symmetric])
  then show ?thesis using r assms(1) same_conf_refl [of s] by (simp add: sp)
qed

lemma flood_turn_inv:
  "sch_inv (fst sp) \<Longrightarrow> 0 < window_depth (sch_conf (fst sp)) \<Longrightarrow> k \<le> length (sch_users (fst sp)) \<Longrightarrow>
     \<exists>sp' again out. flood_turn rs k sp = Some (sp', again, out) \<and> sch_inv (fst sp') \<and> same_conf (fst sp) (fst sp')"
proof (induction k arbitrary: sp)
  case (Suc k)
  let ?us = "sch_users (fst sp)"
  have "?us ! (length ?us - Suc k) \<in> set ?us" using Suc.prems(3) by simp
  then obtain sp1 n o1 where 1: "schedule_user rs (su_uid (?us ! (length ?us - Suc k))) sp = Some (sp1, n, o1)"
    "sch_inv (fst sp1)" "same_conf (fst sp) (fst sp1)"
    using schedule_user_inv [OF Suc.prems(1,2)] by blast
  have "0 < window_depth (sch_conf (fst sp1))" "k \<le> length (sch_users (fst sp1))"
    using 1(3) Suc.prems(2,3) by (simp_all add: same_conf_def)
  from Suc.IH [OF 1(2) this] show ?case
    using 1 same_conf_trans [OF 1(3)] by (fastforce simp: Let_def)
qed (auto simp: same_conf_def)

lemma flood_rounds_inv:
  "sch_inv (fst sp) \<Longrightarrow> 0 < window_depth (sch_conf (fst sp)) \<Longrightarrow>
     \<exists>sp' out. flood_rounds rs sp = Some (sp', out) \<and> sch_inv (fst sp') \<and> same_conf (fst sp) (fst sp')"
proof (induction rs sp rule: flood_rounds.induct)
  case (1 rs sp)
  obtain sp1 again o1 where t: "flood_turn rs (length (sch_users (fst sp))) sp = Some (sp1, again, o1)"
    "sch_inv (fst sp1)" "same_conf (fst sp) (fst sp1)"
    using flood_turn_inv [OF "1.prems" order_refl] by blast
  have d: "0 < window_depth (sch_conf (fst sp1))" using t(3) "1.prems"(2) by (simp add: same_conf_def)
  show ?case
  proof (cases again)
    case True
    from "1.IH" [OF t(1) refl refl True t(2) d] obtain sp2 o2 where
      "flood_rounds rs sp1 = Some (sp2, o2)" "sch_inv (fst sp2)" "same_conf (fst sp1) (fst sp2)" by blast
    then show ?thesis
      using t(1) True same_conf_trans [OF t(3)] by (simp add: flood_rounds.simps [of rs sp])
  next
    case False
    then show ?thesis using t by (simp add: flood_rounds.simps [of rs sp])
  qed
qed

lemma flood_scheduler_inv:
  assumes "sch_inv s" and "0 < window_depth (sch_conf s)"
  shows "\<exists>s' out. flood_scheduler p s = Some (s', out) \<and> sch_inv s' \<and> same_conf s s'"
proof -
  obtain sp1 o1 where 1: "flood_rounds False (s, p\<lparr>dispached := 0\<rparr>) = Some (sp1, o1)"
    "sch_inv (fst sp1)" "same_conf s (fst sp1)"
    using flood_rounds_inv [of "(s, p\<lparr>dispached := 0\<rparr>)" False] assms by auto
  have "0 < window_depth (sch_conf (fst sp1))" using 1(3) assms(2) by (simp add: same_conf_def)
  then obtain sp2 o2 where 2: "flood_rounds True sp1 = Some (sp2, o2)" "sch_inv (fst sp2)"
    "same_conf (fst sp1) (fst sp2)" using flood_rounds_inv [OF 1(2)] by blast
  show ?thesis using 1 2 same_conf_trans [OF 1(3) 2(3)] by (simp add: flood_scheduler_def)
qed

section \<open>The interface of a scheduler\<close>

text \<open>
  What \<open>gw_scheduler_loop\<close> relies on in the function it is given: from tables that satisfy the
  invariant it returns, it keeps the configuration, the users and the hosts, adds no job, and
  leaves tables that satisfy the invariant.
\<close>

locale scheduler_module =
  fixes scheduler :: scheduler_fn
  assumes sched_inv: "sch_inv s \<Longrightarrow> 0 < window_depth (sch_conf s) \<Longrightarrow>
     \<exists>s' out. scheduler s = Some (s', out) \<and> sch_inv s' \<and> same_conf s s'"
begin

lemma schedule_part:
  assumes env: "env_ok e" and conf: "conf_ok (sch_conf s)" and "window_depth (sch_conf s) \<le> 2 ^ 31"
    and inv: "sch_inv s" and rng: "in_range s"
  obtains s1 o1 s2 s3 o3 where "gw_scheduler_matching_arrays e s = Some (s1, o1)"
    "(if disable (sch_conf s1) = 0 then gw_scheduler_job_policies e s1 else Some s1) = Some s2"
    "scheduler s2 = Some (s3, o3)" "sch_inv s3" "sch_conf s3 = sch_conf s"
proof -
  have cl: "client_ok e" using env by (simp add: env_ok_def)
  obtain js o1 where m: "gw_scheduler_matching_arrays e s = Some (s\<lparr>sch_jobs := js\<rparr>, o1)"
    "list_all2 (\<lambda>j j'. \<exists>qs. j' = j\<lparr>sj_mhosts := qs\<rparr>) (sch_jobs s) js" "sch_inv (s\<lparr>sch_jobs := js\<rparr>)"
    by (rule inv_matching [OF cl inv])
  let ?s1 = "s\<lparr>sch_jobs := js\<rparr>"
  have "map sj_deadline_time js = map sj_deadline_time (sch_jobs s)"
    using m(2) by (induction rule: list_all2_induct) auto
  moreover have "\<forall>t\<in>set (map sj_deadline_time (sch_jobs s)). \<bar>t\<bar> \<le> 2 ^ 61"
    using rng unfolding in_range_def by simp
  ultimately have dl: "\<forall>t\<in>set (map sj_deadline_time js). \<bar>t\<bar> \<le> 2 ^ 61" by simp
  have r1: "in_range ?s1" using rng dl unfolding in_range_def by simp
  have "\<exists>s2. (if disable (sch_conf ?s1) = 0 then gw_scheduler_job_policies e ?s1 else Some ?s1) = Some s2 \<and>
      sch_inv s2 \<and> sch_conf s2 = sch_conf s"
  proof (cases "disable (sch_conf ?s1) = 0")
    case True
    obtain s2 where "gw_scheduler_job_policies e ?s1 = Some s2" "sch_inv s2" "sch_conf s2 = sch_conf ?s1"
      by (rule inv_policies [OF env _ _ m(3) r1]) (use conf assms(3) in simp_all)
    then show ?thesis using True by simp
  qed (use m(3) in simp)
  then obtain s2 where s2: "(if disable (sch_conf ?s1) = 0 then gw_scheduler_job_policies e ?s1 else Some ?s1) = Some s2"
    "sch_inv s2" "sch_conf s2 = sch_conf s" by blast
  have "0 < window_depth (sch_conf s2)" using conf s2(3) by (simp add: conf_ok_def)
  then obtain s3 o3 where "scheduler s2 = Some (s3, o3)" "sch_inv s3" "same_conf s2 s3"
    using sched_inv [OF s2(2)] by blast
  then show thesis using that m(1) s2(1,3) by (simp add: same_conf_def)
qed

end

interpretation builtin: scheduler_module gw_sched
  by unfold_locales (rule gw_sched_inv)

interpretation flood: scheduler_module "flood_scheduler p" for p
  by unfold_locales (rule flood_scheduler_inv)

end
