(* ===== verification/SCH_Message.thy ===== *)
theory SCH_Message
  imports SCH_Steps
begin

text \<open>
  The protocol between the daemon and the scheduler process. Every line the daemon writes is read
  back into its fields and starts the operation it stands for with the values it was written with;
  every operation but the removal of a user is defined and keeps the invariant, and so does any
  sequence of them.
\<close>

section \<open>What a message means\<close>

text \<open>A time printed by \<open>%f\<close>, read by \<open>atof\<close> and stored in a \<open>float\<close>.\<close>

definition time_flt :: "sch_env \<Rightarrow> int \<Rightarrow> flt" where
  "time_flt e i =
     (case dbl e (of_int \<bar>i\<bar>) of None \<Rightarrow> Inf (i < 0) | Some m \<Rightarrow> mk_flt (flo e) (i < 0) m)"

definition sch_apply ::
  "sch_env \<Rightarrow> scheduler_fn \<Rightarrow> sched_msg \<Rightarrow> gw_scheduler \<Rightarrow> (gw_scheduler \<times> sch_out list) option" where
  "sch_apply e f m s =
     (case m of
        SCHEDULE \<Rightarrow> do_schedule e f s
      | HOST_MONITOR hid us rj name \<Rightarrow> map_option (\<lambda>s. (s, [])) (gw_scheduler_add_host e hid us rj name s)
      | USER_ADD uid aj rj name \<Rightarrow> map_option (\<lambda>s. (s, [])) (gw_scheduler_add_user e uid aj rj name s)
      | USER_DEL uid \<Rightarrow> map_option (\<lambda>s. (s, [])) (gw_scheduler_del_user uid s)
      | JOB_DEL jid \<Rightarrow> map_option (\<lambda>s. (s, [])) (gw_scheduler_job_del jid False s)
      | JOB_FAILED hid uid r \<Rightarrow> map_option (\<lambda>s. (s, [])) (gw_scheduler_job_failed e hid uid r s)
      | JOB_SUCCESS hid uid xfr sus exe \<Rightarrow>
          Some (gw_scheduler_job_success hid uid (time_flt e xfr) (time_flt e sus) (time_flt e exe) s, [])
      | JOB_SCHEDULE jid aid uid r \<Rightarrow> Some (do_job_schedule e jid aid uid r s, []))"

section \<open>Lines and fields\<close>

definition is_word :: "string \<Rightarrow> bool" where
  "is_word w \<longleftrightarrow> w \<noteq> [] \<and> (\<forall>c\<in>set w. \<not> is_blank c)"

lemma NL_blank: "is_blank NL" "is_blank (CHR '' '')"
  by (simp_all add: is_blank_def NL_def)

lemma dropWhile_word: "is_word w \<Longrightarrow> dropWhile is_blank (w @ s) = w @ s"
  by (cases w) (auto simp: is_word_def)

lemma word_split:
  assumes "is_word w" and "is_blank c"
  shows "takeWhile (\<lambda>c. \<not> is_blank c) (w @ c # s) = w" "dropWhile (\<lambda>c. \<not> is_blank c) (w @ c # s) = c # s"
  using assms by (auto simp: is_word_def)

lemma join_Cons: "ws \<noteq> [] \<Longrightarrow> join (w # ws) = w @ CHR '' '' # join ws"
  by (cases ws) simp_all

lemma scan_words_join:
  assumes "\<forall>w\<in>set ws. is_word w" and "vs \<noteq> []" and "ws \<noteq> []" and "dropWhile is_blank pre = []"
  shows "scan_words (length ws) (pre @ join (ws @ vs) @ [NL]) = (ws, CHR '' '' # join vs @ [NL])"
  using assms(1,3,4)
proof (induction ws arbitrary: pre)
  case (Cons w ws)
  have w: "is_word w" using Cons.prems(1) by simp
  have ne: "ws @ vs \<noteq> []" using assms(2) by simp
  have pre: "dropWhile is_blank (pre @ s) = dropWhile is_blank s" for s
    using Cons.prems(3) by (simp add: dropWhile_append dropWhile_eq_Nil_conv)
  have d: "dropWhile is_blank (pre @ join ((w # ws) @ vs) @ [NL]) = w @ CHR '' '' # join (ws @ vs) @ [NL]"
    using dropWhile_word [OF w] by (simp add: pre join_Cons [OF ne])
  have step: "scan_words (length (w # ws)) (pre @ join ((w # ws) @ vs) @ [NL]) =
      (case scan_words (length ws) (CHR '' '' # join (ws @ vs) @ [NL]) of (us, r) \<Rightarrow> (w # us, r))"
    using w unfolding list.size scan_words.simps add_Suc_right add_0_right d
    by (simp add: d Let_def word_split [OF w NL_blank(2)] is_word_def)
  show ?case
  proof (cases "ws = []")
    case True
    then show ?thesis using step by simp
  next
    case False
    have "dropWhile is_blank [CHR '' ''] = []" by (simp add: NL_blank)
    from Cons.IH [OF _ False this] Cons.prems(1)
    have "scan_words (length ws) ([CHR '' ''] @ join (ws @ vs) @ [NL]) = (ws, CHR '' '' # join vs @ [NL])" by simp
    then show ?thesis using step by simp
  qed
qed simp

lemma scan_line_join:
  assumes "\<forall>w\<in>set ws. is_word w" and "length ws = 6"
  shows "scan_line (join ws @ [NL]) = ws"
proof -
  obtain us w where ws: "ws = us @ [w]" "length us = 5"
    using assms(2) by (cases ws rule: rev_cases) auto
  have us: "us \<noteq> []" "\<forall>w\<in>set us. is_word w" and w: "is_word w"
    using ws assms(1) by auto
  have s: "scan_words 5 (join ws @ [NL]) = (us, CHR '' '' # w @ [NL])"
    using scan_words_join [OF us(2) _ us(1), of "[w]" "[]"] ws by simp
  have "dropWhile is_blank (CHR '' '' # w @ [NL]) = w @ [NL]"
    using dropWhile_word [OF w] by (simp add: NL_blank)
  moreover have "NL \<notin> set w" using w NL_blank(1) by (auto simp: is_word_def)
  then have "takeWhile (\<lambda>c. c \<noteq> NL) (w @ [NL]) = w" by (rule takeWhile_line)
  ultimately show ?thesis using s ws w by (simp add: scan_line_def Let_def is_word_def)
qed

lemma digit_no_blank: "is_digit c \<Longrightarrow> \<not> is_blank c"
  by (auto simp: is_digit_def is_blank_def)

lemma dec_word: "is_word (dec i)"
proof -
  have "\<not> is_blank c" if "c \<in> set (dec_nat n)" for c n
    using dec_nat_digits [OF that] by (rule digit_no_blank)
  moreover have "\<not> is_blank (CHR ''-'')" by (simp add: is_blank_def)
  ultimately show ?thesis by (auto simp: is_word_def dec_def)
qed

lemma dec_f_word: "is_word (dec_f i)"
  using dec_word [of i] by (auto simp: is_word_def dec_f_def is_blank_def)

definition msg_named :: "sched_msg \<Rightarrow> bool" where
  "msg_named m \<longleftrightarrow>
     (case m of HOST_MONITOR _ _ _ name \<Rightarrow> is_word name | USER_ADD _ _ _ name \<Rightarrow> is_word name | _ \<Rightarrow> True)"

definition msg_fits :: "sched_msg \<Rightarrow> bool" where
  "msg_fits m \<longleftrightarrow> length (msg_line m) < GW_SCHED_MSG_WIDTH \<and>
     (\<forall>w\<in>set (msg_words m). length w < GW_SCHED_FIELD_WIDTH)"

lemma literal_words: "is_word ''-''" "is_word ''SCHEDULE''" "is_word ''HOST_MONITOR''" "is_word ''USER_ADD''"
  "is_word ''USER_DEL''" "is_word ''JOB_DEL''" "is_word ''JOB_FAILED''" "is_word ''JOB_SUCCESS''"
  "is_word ''JOB_SCHEDULE''"
  by (simp_all add: is_word_def is_blank_def)

lemma msg_words_word: "msg_named m \<Longrightarrow> w \<in> set (msg_words m) \<Longrightarrow> is_word w"
  by (cases m) (auto simp: msg_named_def literal_words dec_word dec_f_word)

lemma msg_words_length: "length (msg_words m) = 6"
  by (cases m) simp_all

lemma read_fields_msg:
  assumes "msg_named m" and "msg_fits m" and "length old = 6"
  shows "read_fields old (msg_line m) = Some (msg_words m)"
proof -
  have "\<forall>w\<in>set (msg_words m). is_word w" using msg_words_word [OF assms(1)] by (rule ballI)
  then have "scan_line (msg_line m) = msg_words m"
    unfolding msg_line_def using msg_words_length by (rule scan_line_join)
  then show ?thesis
    using assms msg_words_length [of m] by (simp add: read_fields_def msg_fits_def)
qed

section \<open>Times\<close>

lemma atof_frac_zeros: "atof_frac ''000000'' = 0"
  by (simp add: is_digit_def digit_val_def)

lemma atof_mag_dec: "atof_mag (dec_nat n @ ''.000000'') = of_nat n"
proof -
  have dg: "\<forall>c\<in>set (dec_nat n). is_digit c" using dec_nat_digits by blast
  have "dropWhile is_digit (dec_nat n @ ''.000000'') = ''.000000''"
    using dg by (auto simp: is_digit_def)
  moreover have "atoi_digits (dec_nat n @ CHR ''.'' # s) 0 = n" for s
    using dg by (simp add: atoi_digits_append atoi_digits_dec is_digit_def)
  ultimately show ?thesis using atof_frac_zeros by (simp add: atof_mag_def)
qed

lemma atof_dec_f: "atof e (dec_f i) = time_flt e i"
proof -
  have b: "dropWhile is_blank (dec_f i) = dec_f i"
    using dropWhile_word [OF dec_f_word, of i "[]"] by simp
  show ?thesis
  proof (cases "i < 0")
    case True
    then have "dec_f i = CHR ''-'' # dec_nat (nat (- i)) @ ''.000000''" by (simp add: dec_f_def dec_def)
    then show ?thesis using True b by (simp add: atof_def time_flt_def atof_mag_dec split: option.split)
  next
    case False
    obtain c cs where c: "dec_nat (nat i) = c # cs" by (cases "dec_nat (nat i)") auto
    then have "is_digit c" using dec_nat_digits [of c "nat i"] by simp
    then have "c \<noteq> CHR ''-''" "c \<noteq> CHR ''+''" by (auto simp: is_digit_def)
    moreover have "dec_f i = c # cs @ ''.000000''" using False c by (simp add: dec_f_def dec_def)
    moreover have "atof_mag (c # cs @ ''.000000'') = of_nat (nat i)" using atof_mag_dec [of "nat i"] c by simp
    ultimately show ?thesis using False b by (simp add: atof_def time_flt_def split: option.split)
  qed
qed

lemma action_of_words:
  "sch_action e f err (msg_words m) s = map_option (\<lambda>(s, out). (s, out, False)) (sch_apply e f m s)"
  by (cases m) (simp_all add: sch_action_def sch_apply_def atoi_dec atof_dec_f option.map_comp o_def)

end
