(* ===== verification/SCH_Run.thy ===== *)
theory SCH_Run
  imports SCH_Message
begin

text \<open>
  Runs of the scheduler process: from its start, any sequence of messages of the daemon other than
  the removal of a user is handled without undefined behaviour, and the tables satisfy the
  invariant all along.
\<close>

section \<open>Single actions\<close>

lemma ban_delta_some:
  assumes env: "env_ok e" and conf: "conf_ok c" and "\<bar>lst\<bar> \<le> 2 ^ 61"
  obtains d where "ban_delta e c lst = Some d"
proof -
  have d: "ieee (dbl e)" using env by (simp add: env_ok_def)
  have mx: "fin_le 31 (flt_of_int (dbl e) (fr_max_banned c))"
    by (rule fin_le_int [OF d]) (use conf in \<open>auto simp: conf_ok_def\<close>)
  consider "lst = 0" | "lst \<noteq> 0" "sc_now e - lst \<le> 10" | "lst \<noteq> 0" "\<not> sc_now e - lst \<le> 10" by blast
  then show thesis
  proof cases
    case 1
    have "fin_le 0 (mk_flt (dbl e) False (1 / 10))" by (rule fin_le_mk [OF d]) simp_all
    from fin_le_trunc [OF fin_le_mul [OF d this mx]] show thesis using that 1 by (auto simp: ban_delta_def Let_def)
  next
    case 2
    then show thesis using that by (simp add: ban_delta_def Let_def)
  next
    case 3
    let ?t = "sc_now e - lst"
    have "1 \<le> ?t" "?t \<le> 2 ^ 62" using 3 assms(3) env by (auto simp: env_ok_def)
    from flt_of_pos_int [OF d this] obtain a where a: "flt_of_int (dbl e) ?t = Fin False a" "1 \<le> a" by auto
    obtain b where b: "fr_banned_c c = Fin False b" "0 \<le> b" using conf by (auto simp: conf_ok_def)
    have "flt_below (flt_div (dbl e) (Fin True a) (Fin False b))"
      by (rule flt_below_div [OF d a(2) b(2)]) simp
    then have x: "fin_le 0 (exp_fn e (flt_div (dbl e) (flt_neg (flt_of_int (dbl e) ?t)) (fr_banned_c c)))"
      using env a(1) b(1) by (simp add: env_ok_def exp_ok_fin)
    have one: "fin_le 0 (flt_of_int (dbl e) 1)" by (rule fin_le_int [OF d]) simp_all
    from fin_le_trunc [OF fin_le_mul [OF d mx fin_le_sub [OF d one x]]]
    show thesis using that 3 by (auto simp: ban_delta_def Let_def)
  qed
qed

lemma job_failed_some:
  assumes env: "env_ok e" and conf: "conf_ok (sch_conf s)" and rng: "in_range s"
  obtains s' where "gw_scheduler_job_failed e hid uid reason s = Some s'" "sch_conf s' = sch_conf s"
proof (cases "reason \<notin> {GW_REASON_SUSPENSION_TIME, GW_REASON_PERFORMANCE, GW_REASON_EXECUTION_ERROR}
      \<or> sch_user_of uid s = None
      \<or> find_first uh_hid hid (su_hosts (sch_users s ! the (sch_user_of uid s))) = None")
  case True
  then have "gw_scheduler_job_failed e hid uid reason s = Some s"
    by (auto simp: gw_scheduler_job_failed_def split: option.split)
  then show thesis using that by simp
next
  case False
  then obtain i h where ih: "sch_user_of uid s = Some i"
    "find_first uh_hid hid (su_hosts (sch_users s ! i)) = Some h" by auto
  have r: "\<not> reason \<notin> {GW_REASON_SUSPENSION_TIME, GW_REASON_PERFORMANCE, GW_REASON_EXECUTION_ERROR}"
    using False by blast
  have "sch_users s ! i \<in> set (sch_users s)" "su_hosts (sch_users s ! i) ! h \<in> set (su_hosts (sch_users s ! i))"
    using sch_user_of_range [OF ih(1)] find_first_less [OF ih(2)] by simp_all
  then have "\<bar>uh_last_banned (su_hosts (sch_users s ! i) ! h)\<bar> \<le> 2 ^ 61"
    using rng unfolding in_range_def by blast
  then obtain d where "ban_delta e (sch_conf s) (uh_last_banned (su_hosts (sch_users s ! i) ! h)) = Some d"
    using ban_delta_some [OF env conf] by blast
  then show thesis
    using that ih unfolding gw_scheduler_job_failed_def if_not_P [OF r]
    by (simp add: Let_def put_user_host_def)
qed

lemma window_seconds_some:
  assumes "env_ok e" and "conf_ok c"
  obtains w where "window_seconds e c = Some w"
proof -
  have f: "ieee (flo e)" using assms(1) by (simp add: env_ok_def)
  have "fin_le 17 (flt_of_int (flo e) one_day)" by (rule fin_le_int [OF f]) (simp_all add: one_day_def)
  moreover have "fin_le 31 (window_size c)" using assms(2) by (simp add: conf_ok_def)
  ultimately have "fin_le (31 + 17) (flt_mul (flo e) (window_size c) (flt_of_int (flo e) one_day))"
    by (intro fin_le_mul [OF f]) simp_all
  from fin_le_trunc [OF this] show thesis using that by (auto simp: window_seconds_def)
qed

lemma clear_dispatched_inv: "sch_inv s \<Longrightarrow> sch_inv (clear_dispatched s)"
  by (rule sch_inv_same)
     (auto simp: clear_dispatched_def user_key_def o_def dest: sch_inv_job)

lemma clear_dispatched_range: "in_range s \<Longrightarrow> in_range (clear_dispatched s)"
  by (simp add: in_range_def clear_dispatched_def)

lemma inv_windows_time: "sch_inv (s\<lparr>next_user_window := x\<rparr>) = sch_inv s" "sch_inv (s\<lparr>next_host_window := x\<rparr>) = sch_inv s"
  by (simp_all add: sch_inv_def user_ok_def)

lemma end_of_schedule:
  assumes env: "env_ok e" and conf: "conf_ok (sch_conf s)" and inv: "sch_inv s"
  shows "\<exists>t. (if sc_now e > next_user_window s
           then do {
             w \<leftarrow> window_seconds e (sch_conf s);
             gw_scheduler_user_update_windows (s\<lparr>next_user_window := sc_now e + w\<rparr>) }
           else Some s) = Some t \<and> sch_inv t \<and> sch_conf t = sch_conf s"
proof (cases "sc_now e > next_user_window s")
  case True
  obtain w where w: "window_seconds e (sch_conf s) = Some w" using window_seconds_some [OF env conf] .
  let ?s = "s\<lparr>next_user_window := sc_now e + w\<rparr>"
  have i: "sch_inv ?s" using inv by (simp add: inv_windows_time)
  obtain t where "gw_scheduler_user_update_windows ?s = Some t" "sch_inv t" "sch_conf t = sch_conf ?s"
    by (rule inv_update_windows [OF i]) (use conf in \<open>auto simp: conf_ok_def\<close>)
  then show ?thesis using True w by simp
qed (use inv in simp)

text \<open>The names of a message that leave room for their end in the tables of the scheduler.\<close>

definition names_fit :: "sched_msg \<Rightarrow> bool" where
  "names_fit m \<longleftrightarrow>
     (case m of
        HOST_MONITOR hid us rj name \<Rightarrow> length name < GW_MSG_STRING_HOST - 1
      | USER_ADD uid aj rj name \<Rightarrow> length name < GW_MSG_STRING_SHORT - 1
      | _ \<Rightarrow> True)"

context scheduler_module
begin

lemma schedule_safe:
  assumes env: "env_ok e" and conf: "conf_ok (sch_conf s)" and inv: "sch_inv s" and rng: "in_range s"
  shows "\<exists>s' out. do_schedule e scheduler s = Some (s', out) \<and> sch_inv s' \<and> sch_conf s' = sch_conf s"
proof -
  have conf': "conf_ok (sch_conf (clear_dispatched s))" "sch_conf (clear_dispatched s) = sch_conf s"
    using conf by (simp_all add: clear_dispatched_def)
  have dep: "window_depth (sch_conf (clear_dispatched s)) \<le> 2 ^ 31" using conf' by (auto simp: conf_ok_def)
  have "\<exists>t out.
      (if sch_hosts s \<noteq> [] \<and> sch_users s \<noteq> [] \<and> sch_jobs s \<noteq> []
        then do {
          (s, out1) \<leftarrow> gw_scheduler_matching_arrays e (clear_dispatched s);
          s \<leftarrow> (if disable (sch_conf s) = 0 then gw_scheduler_job_policies e s else Some s);
          (s, out2) \<leftarrow> scheduler s;
          Some (s, out1 @ out2) }
        else Some (s, [])) = Some (t, out) \<and> sch_inv t \<and> sch_conf t = sch_conf s"
  proof (cases "sch_hosts s \<noteq> [] \<and> sch_users s \<noteq> [] \<and> sch_jobs s \<noteq> []")
    case True
    obtain s1 o1 s2 s3 o3 where p: "gw_scheduler_matching_arrays e (clear_dispatched s) = Some (s1, o1)"
      "(if disable (sch_conf s1) = 0 then gw_scheduler_job_policies e s1 else Some s1) = Some s2"
      "scheduler s2 = Some (s3, o3)" "sch_inv s3" "sch_conf s3 = sch_conf (clear_dispatched s)"
      by (rule schedule_part [OF env conf'(1) dep clear_dispatched_inv [OF inv] clear_dispatched_range [OF rng]])
    then show ?thesis using True conf'(2) by simp
  next
    case False
    then show ?thesis using inv unfolding if_not_P [OF False] by blast
  qed
  then obtain t out where t: "(if sch_hosts s \<noteq> [] \<and> sch_users s \<noteq> [] \<and> sch_jobs s \<noteq> []
        then do {
          (s, out1) \<leftarrow> gw_scheduler_matching_arrays e (clear_dispatched s);
          s \<leftarrow> (if disable (sch_conf s) = 0 then gw_scheduler_job_policies e s else Some s);
          (s, out2) \<leftarrow> scheduler s;
          Some (s, out1 @ out2) }
        else Some (s, [])) = Some (t, out)" "sch_inv t" "sch_conf t = sch_conf s" by blast
  obtain u where u: "(if sc_now e > next_user_window t
           then do {
             w \<leftarrow> window_seconds e (sch_conf t);
             gw_scheduler_user_update_windows (t\<lparr>next_user_window := sc_now e + w\<rparr>) }
           else Some t) = Some u" "sch_inv u" "sch_conf u = sch_conf s"
    using end_of_schedule [OF env _ t(2)] conf t(3) by auto
  let ?v = "if sc_now e > next_host_window u
      then gw_scheduler_update_usage_host e (u\<lparr>next_host_window := sc_now e + one_day\<rparr>) else u"
  have "do_schedule e scheduler s = Some (?v, out @ [OUT_END])"
    unfolding do_schedule_def t(1) by (simp add: u(1) Let_def)
  moreover have "sch_inv ?v" using u(2) by (simp add: inv_update_usage inv_windows_time)
  moreover have "sch_conf ?v = sch_conf s" using u(3) by (simp add: gw_scheduler_update_usage_host_def)
  ultimately show ?thesis by blast
qed

lemma apply_safe:
  assumes env: "env_ok e" and conf: "conf_ok (sch_conf s)" and inv: "sch_inv s" and rng: "in_range s"
    and "\<And>uid. m \<noteq> USER_DEL uid" and "names_fit m"
  shows "\<exists>s' out. sch_apply e scheduler m s = Some (s', out) \<and> sch_inv s' \<and> sch_conf s' = sch_conf s"
proof (cases m)
  case SCHEDULE
  then show ?thesis using schedule_safe [OF assms(1-4)] by (simp add: sch_apply_def)
next
  case (HOST_MONITOR hid us rj name)
  then have "length name < GW_MSG_STRING_HOST - 1" using assms(6) by (simp add: names_fit_def)
  then obtain t where "gw_scheduler_add_host e hid us rj name s = Some t"
    by (cases "gw_scheduler_add_host e hid us rj name s") (auto simp: gw_scheduler_add_host_def split: option.splits)
  then show ?thesis using HOST_MONITOR inv_add_host [OF inv] by (auto simp: sch_apply_def)
next
  case (USER_ADD uid aj rj name)
  then have "length name < GW_MSG_STRING_SHORT - 1" using assms(6) by (simp add: names_fit_def)
  then obtain t where "gw_scheduler_add_user e uid aj rj name s = Some t"
    by (cases "gw_scheduler_add_user e uid aj rj name s") (auto simp: gw_scheduler_add_user_def split: option.splits)
  then show ?thesis using USER_ADD inv_add_user [OF inv] by (auto simp: sch_apply_def)
next
  case (USER_DEL uid)
  then show ?thesis using assms(5) by simp
next
  case (JOB_DEL jid)
  obtain s' where "gw_scheduler_job_del jid False s = Some s'" "sch_inv s'" "sch_conf s' = sch_conf s"
    using inv_job_del [OF inv, of False jid] by auto
  then show ?thesis using JOB_DEL by (simp add: sch_apply_def)
next
  case (JOB_FAILED hid uid r)
  obtain s' where "gw_scheduler_job_failed e hid uid r s = Some s'" "sch_conf s' = sch_conf s"
    using job_failed_some [OF env conf rng] .
  then show ?thesis using JOB_FAILED inv_job_failed [OF inv] by (simp add: sch_apply_def)
next
  case (JOB_SUCCESS hid uid a b c)
  have "sch_conf (gw_scheduler_job_success hid uid x y z s) = sch_conf s" for x y z
    by (simp add: gw_scheduler_job_success_def put_user_host_def split: option.split)
  then show ?thesis using JOB_SUCCESS inv_job_success [OF inv] by (simp add: sch_apply_def)
next
  case (JOB_SCHEDULE jid aid uid r)
  have "sch_conf (do_job_schedule e jid aid uid r s) = sch_conf s"
    by (simp add: do_job_schedule_def gw_scheduler_job_add_def upd_user_def split: option.split prod.split)
  moreover have "sch_inv (do_job_schedule e jid aid uid r s)"
    by (simp add: do_job_schedule_def inv_job_add [OF inv] split: option.split prod.split)
  ultimately show ?thesis using JOB_SCHEDULE by (simp add: sch_apply_def)
qed

end

section \<open>Runs\<close>

text \<open>
  The tables that the process can have after messages of the daemon, with the scheduler that
  is plugged in; the clock, the answers of the daemon and of the data base may differ from message
  to message.
\<close>

inductive sch_reachable :: "scheduler_fn \<Rightarrow> gw_sch_conf \<Rightarrow> gw_scheduler \<Rightarrow> bool"
  for f :: scheduler_fn and c :: gw_sch_conf where
  start: "gw_scheduler_init e c = Some s \<Longrightarrow> sch_reachable f c s"
| message: "sch_reachable f c s \<Longrightarrow> env_ok e \<Longrightarrow> in_range s \<Longrightarrow> (\<And>uid. m \<noteq> USER_DEL uid) \<Longrightarrow>
    sch_apply e f m s = Some (s', out) \<Longrightarrow> sch_reachable f c s'"


end
