(* ===== verification/SCH_Limits.thy ===== *)
theory SCH_Limits
  imports SCH_Run
begin

text \<open>
  What the two schedulers of the program may dispatch. The specification is a step relation: a job of
  the list may be dispatched to one of its matching queues when a guard (the limits of the
  configuration) allows it in the current tables. The loops of both schedulers only do such steps.
\<close>

section \<open>Dispatching under a guard\<close>

type_synonym dispatch_guard = "gw_scheduler \<Rightarrow> sch_job \<Rightarrow> sch_queue \<Rightarrow> bool"

inductive dispatches :: "dispatch_guard \<Rightarrow> gw_scheduler \<Rightarrow> (sch_job \<times> sch_queue) list \<Rightarrow> gw_scheduler \<Rightarrow> bool"
  for G :: dispatch_guard where
  none: "dispatches G s [] s"
| step: "j \<in> set (sch_jobs s) \<Longrightarrow> q \<in> set (sj_mhosts j) \<Longrightarrow> G s j q \<Longrightarrow>
    sq_ha_id q < length (sch_hosts s) \<Longrightarrow> sj_ua_id j < length (sch_users s) \<Longrightarrow>
    gw_scheduler_job_del (sj_jid j) True (inc_dispatched (sq_ha_id q) (sj_ua_id j) s) = Some t \<Longrightarrow>
    dispatches G t ds s' \<Longrightarrow> dispatches G s ((j, q) # ds) s'"

inductive_cases dispatches_nilE: "dispatches G s [] s'"
inductive_cases dispatches_consE: "dispatches G s (x # ds) s'"

lemma dispatches_append: "dispatches G s xs t \<Longrightarrow> dispatches G t ys u \<Longrightarrow> dispatches G s (xs @ ys) u"
  by (induction rule: dispatches.induct) (auto intro: dispatches.intros)

lemma dispatches_split:
  "dispatches G s (xs @ (j, q) # ys) s' \<Longrightarrow> \<exists>t. dispatches G s xs t \<and> G t j q"
proof (induction xs arbitrary: s)
  case Nil
  then show ?case by (auto elim!: dispatches_consE intro: dispatches.none)
next
  case (Cons x xs)
  then show ?case by (auto elim!: dispatches_consE) (blast intro: dispatches.step)
qed

lemma dispatches_mono:
  "dispatches G s ds s' \<Longrightarrow> (\<And>t j q. G t j q \<Longrightarrow> H t j q) \<Longrightarrow> dispatches H s ds s'"
  by (induction rule: dispatches.induct) (auto intro: dispatches.intros)

section \<open>The effect of the steps\<close>

definition host_count :: "nat \<Rightarrow> (sch_job \<times> sch_queue) list \<Rightarrow> int" where
  "host_count h ds = int (length (filter (\<lambda>(j, q). sq_ha_id q = h) ds))"

definition user_count :: "nat \<Rightarrow> (sch_job \<times> sch_queue) list \<Rightarrow> int" where
  "user_count k ds = int (length (filter (\<lambda>(j, q). sj_ua_id j = k) ds))"

text \<open>What no dispatch changes, and the counters.\<close>

definition frame :: "gw_scheduler \<Rightarrow> gw_sch_conf \<times> (int \<times> string \<times> int) list \<times> (int \<times> int) list" where
  "frame s = (sch_conf s, map (\<lambda>h. (sh_hid h, sh_name h, sh_used_slots h)) (sch_hosts s),
     map (\<lambda>u. (su_uid u, su_running_jobs u)) (sch_users s))"

lemma frame_lengths:
  "frame s = frame t \<Longrightarrow> length (sch_hosts s) = length (sch_hosts t) \<and> length (sch_users s) = length (sch_users t)"
  by (auto simp: frame_def dest: map_eq_imp_length_eq)

lemma frame_host:
  assumes "frame s = frame t" and "h < length (sch_hosts t)"
  shows "sh_hid (sch_hosts s ! h) = sh_hid (sch_hosts t ! h)"
    "sh_used_slots (sch_hosts s ! h) = sh_used_slots (sch_hosts t ! h)"
proof -
  have "map (\<lambda>h. (sh_hid h, sh_name h, sh_used_slots h)) (sch_hosts s) ! h =
      map (\<lambda>h. (sh_hid h, sh_name h, sh_used_slots h)) (sch_hosts t) ! h"
    using assms(1) by (simp add: frame_def)
  then show "sh_hid (sch_hosts s ! h) = sh_hid (sch_hosts t ! h)"
    "sh_used_slots (sch_hosts s ! h) = sh_used_slots (sch_hosts t ! h)"
    using assms(2) frame_lengths [OF assms(1)] by simp_all
qed

lemma frame_user:
  assumes "frame s = frame t" and "k < length (sch_users t)"
  shows "su_uid (sch_users s ! k) = su_uid (sch_users t ! k)"
    "su_running_jobs (sch_users s ! k) = su_running_jobs (sch_users t ! k)"
proof -
  have "map (\<lambda>u. (su_uid u, su_running_jobs u)) (sch_users s) ! k =
      map (\<lambda>u. (su_uid u, su_running_jobs u)) (sch_users t) ! k"
    using assms(1) by (simp add: frame_def)
  then show "su_uid (sch_users s ! k) = su_uid (sch_users t ! k)"
    "su_running_jobs (sch_users s ! k) = su_running_jobs (sch_users t ! k)"
    using assms(2) frame_lengths [OF assms(1)] by simp_all
qed

lemma job_del_effect:
  assumes "gw_scheduler_job_del jid d s = Some t"
  shows "frame t = frame s" "sch_hosts t = sch_hosts s"
    "map su_dispatched (sch_users t) = map su_dispatched (sch_users s)"
  using assms
  by (auto simp: gw_scheduler_job_del_def frame_def Let_def bind_eq_Some_conv count_dispatch_def
      map_update list_update_same_conv split: option.splits if_splits list.splits)

lemma job_del_mset:
  assumes "gw_scheduler_job_del (sj_jid j) d s = Some t" and "j \<in> set (sch_jobs s)"
    and "distinct (map sj_jid (sch_jobs s))"
  shows "mset (sch_jobs s) = add_mset j (mset (sch_jobs t))"
proof -
  obtain i where i: "find_first sj_jid (sj_jid j) (sch_jobs s) = Some i"
    using assms(2) find_first_None [of sj_jid "sj_jid j" "sch_jobs s"] by fastforce
  note f = find_first_Some [OF i]
  have ij: "sch_jobs s ! i = j" using f assms(2,3) by (metis distinct_map inj_onD nth_mem)
  have "sch_jobs t = take i (sch_jobs s) @ drop (Suc i) (sch_jobs s)"
    using assms(1) i by (auto simp: gw_scheduler_job_del_def Let_def bind_eq_Some_conv split: if_splits)
  moreover have "sch_jobs s = take i (sch_jobs s) @ sch_jobs s ! i # drop (Suc i) (sch_jobs s)"
    using f id_take_nth_drop by blast
  ultimately show ?thesis using ij
    by (metis add_mset_add_single mset.simps(2) mset_append union_mset_add_mset_right)
qed

lemma dispatch_effect:
  assumes "gw_scheduler_job_del jid True (inc_dispatched h k s) = Some t"
    and "h < length (sch_hosts s)" and "k < length (sch_users s)"
  shows "frame t = frame s"
    "\<And>i. i < length (sch_hosts s) \<Longrightarrow>
       sh_dispatched (sch_hosts t ! i) = sh_dispatched (sch_hosts s ! i) + (if i = h then 1 else 0)"
    "\<And>i. i < length (sch_users s) \<Longrightarrow>
       su_dispatched (sch_users t ! i) = su_dispatched (sch_users s ! i) + (if i = k then 1 else 0)"
proof -
  note e = job_del_effect [OF assms(1)]
  show f: "frame t = frame s"
    unfolding e(1) using assms(2,3)
    by (simp add: frame_def inc_dispatched_def map_update list_update_same_conv)
  show "sh_dispatched (sch_hosts t ! i) = sh_dispatched (sch_hosts s ! i) + (if i = h then 1 else 0)"
    if "i < length (sch_hosts s)" for i
    using that by (simp add: e(2) inc_dispatched_def nth_list_update)
  show "su_dispatched (sch_users t ! i) = su_dispatched (sch_users s ! i) + (if i = k then 1 else 0)"
    if "i < length (sch_users s)" for i
  proof -
    have "map su_dispatched (sch_users t) ! i = map su_dispatched (sch_users (inc_dispatched h k s)) ! i"
      by (simp add: e(3))
    then show ?thesis using that frame_lengths [OF f] by (simp add: inc_dispatched_def nth_list_update)
  qed
qed

lemma dispatches_frame: "dispatches G s ds s' \<Longrightarrow> frame s' = frame s"
  by (induction rule: dispatches.induct) (auto dest: dispatch_effect(1))

lemma dispatches_host_count:
  "dispatches G s ds s' \<Longrightarrow> h < length (sch_hosts s) \<Longrightarrow>
     sh_dispatched (sch_hosts s' ! h) = sh_dispatched (sch_hosts s ! h) + host_count h ds"
proof (induction rule: dispatches.induct)
  case (step j s q t ds s')
  have "h < length (sch_hosts t)"
    using frame_lengths [OF dispatch_effect(1) [OF step.hyps(6,4,5)]] step.prems by simp
  then show ?case
    using step.IH dispatch_effect(2) [OF step.hyps(6,4,5) step.prems] by (simp add: host_count_def)
qed (simp add: host_count_def)

lemma dispatches_user_count:
  "dispatches G s ds s' \<Longrightarrow> k < length (sch_users s) \<Longrightarrow>
     su_dispatched (sch_users s' ! k) = su_dispatched (sch_users s ! k) + user_count k ds"
proof (induction rule: dispatches.induct)
  case (step j s q t ds s')
  have "k < length (sch_users t)"
    using frame_lengths [OF dispatch_effect(1) [OF step.hyps(6,4,5)]] step.prems by simp
  then show ?case
    using step.IH dispatch_effect(3) [OF step.hyps(6,4,5) step.prems] by (simp add: user_count_def)
qed (simp add: user_count_def)

lemma dispatches_mset:
  "dispatches G s ds s' \<Longrightarrow> distinct (map sj_jid (sch_jobs s)) \<Longrightarrow>
     mset (sch_jobs s) = mset (map fst ds) + mset (sch_jobs s')"
proof (induction rule: dispatches.induct)
  case (step j s q t ds s')
  have s: "sch_jobs (inc_dispatched (sq_ha_id q) (sj_ua_id j) s) = sch_jobs s" by (simp add: inc_dispatched_def)
  have m: "mset (sch_jobs s) = add_mset j (mset (sch_jobs t))"
    using job_del_mset [OF step.hyps(6)] step.hyps(1) step.prems unfolding s by blast
  then have "mset (map sj_jid (sch_jobs s)) = mset (map sj_jid (j # sch_jobs t))" by simp
  then have "distinct (map sj_jid (sch_jobs t))"
    using step.prems by (metis distinct.simps(2) list.simps(9) mset_eq_imp_distinct_iff)
  then show ?case using step.IH m by simp
qed simp

lemma dispatches_set:
  "dispatches G s ds s' \<Longrightarrow> (j, q) \<in> set ds \<Longrightarrow> q \<in> set (sj_mhosts j) \<and> sq_ha_id q < length (sch_hosts s) \<and>
     sj_ua_id j < length (sch_users s)"
proof (induction rule: dispatches.induct)
  case (step j' s q' t ds s')
  then show ?case using frame_lengths [OF dispatch_effect(1) [OF step.hyps(6,4,5)]] by auto
qed simp

text \<open>A guard that bounds a counter bounds the number of dispatches.\<close>

lemma host_bound:
  assumes d: "dispatches G s ds s'" and h: "h < length (sch_hosts s)"
    and G: "\<And>t j q. G t j q \<Longrightarrow> sq_ha_id q = h \<Longrightarrow> frame t = frame s \<Longrightarrow> sh_dispatched (sch_hosts t ! h) < b"
  shows "host_count h ds = 0 \<or> sh_dispatched (sch_hosts s ! h) + host_count h ds \<le> b"
proof (cases "\<exists>x\<in>set ds. sq_ha_id (snd x) = h")
  case False
  then show ?thesis by (auto simp: host_count_def filter_empty_conv)
next
  case True
  from split_list_last_prop [OF this] obtain xs x ys where
    x: "ds = xs @ x # ys" "sq_ha_id (snd x) = h" "\<forall>y\<in>set ys. sq_ha_id (snd y) \<noteq> h" by blast
  obtain t where t: "dispatches G s xs t" "G t (fst x) (snd x)"
    using dispatches_split [of G s xs "fst x" "snd x" ys s'] d x(1) by auto
  have "filter (\<lambda>(j, q). sq_ha_id q = h) ys = []" using x(3) by (auto simp: filter_empty_conv)
  then have "host_count h ds = host_count h xs + 1"
    using x(1,2) by (simp add: host_count_def case_prod_beta)
  then show ?thesis
    using G [OF t(2) x(2) dispatches_frame [OF t(1)]] dispatches_host_count [OF t(1) h] by linarith
qed

lemma user_bound:
  assumes d: "dispatches G s ds s'" and k: "k < length (sch_users s)"
    and G: "\<And>t j q. G t j q \<Longrightarrow> sj_ua_id j = k \<Longrightarrow> frame t = frame s \<Longrightarrow> su_dispatched (sch_users t ! k) < b"
  shows "user_count k ds = 0 \<or> su_dispatched (sch_users s ! k) + user_count k ds \<le> b"
proof (cases "\<exists>x\<in>set ds. sj_ua_id (fst x) = k")
  case False
  then show ?thesis by (auto simp: user_count_def filter_empty_conv)
next
  case True
  from split_list_last_prop [OF this] obtain xs x ys where
    x: "ds = xs @ x # ys" "sj_ua_id (fst x) = k" "\<forall>y\<in>set ys. sj_ua_id (fst y) \<noteq> k" by blast
  obtain t where t: "dispatches G s xs t" "G t (fst x) (snd x)"
    using dispatches_split [of G s xs "fst x" "snd x" ys s'] d x(1) by auto
  have "filter (\<lambda>(j, q). sj_ua_id j = k) ys = []" using x(3) by (auto simp: filter_empty_conv)
  then have "user_count k ds = user_count k xs + 1"
    using x(1,2) by (simp add: user_count_def case_prod_beta)
  then show ?thesis
    using G [OF t(2) x(2) dispatches_frame [OF t(1)]] dispatches_user_count [OF t(1) k] by linarith
qed

section \<open>The built-in scheduler\<close>

definition sched_guard :: "gw_sch_conf \<Rightarrow> dispatch_guard" where
  "sched_guard c t j q \<longleftrightarrow>
     (let d = sh_dispatched (sch_hosts t ! sq_ha_id q); u = sch_users t ! sj_ua_id j in
      d < sq_slots q \<and> (max_resource c \<noteq> 0 \<longrightarrow> d < max_resource c) \<and>
      (max_user c \<noteq> 0 \<longrightarrow> su_running_jobs u + su_dispatched u < max_user c))"

lemma pick_queue_guard:
  "pick_queue mx hosts qs = Some (Some q) \<Longrightarrow>
     q \<in> set qs \<and> sq_ha_id q < length hosts \<and> sh_dispatched (hosts ! sq_ha_id q) < sq_slots q \<and>
     (mx \<noteq> 0 \<longrightarrow> sh_dispatched (hosts ! sq_ha_id q) < mx)"
  by (induction qs) (auto simp: Let_def split: if_splits)

lemma dispatch_line_frame:
  "frame t = frame s \<Longrightarrow> sq_ha_id q < length (sch_hosts s) \<Longrightarrow> dispatch_line t j q = dispatch_line s j q"
  using frame_host(1) [of t s "sq_ha_id q"] by (simp add: dispatch_line_def)

lemma lines_frame:
  assumes "dispatches G t ds s'" and "frame t = frame s"
  shows "map (\<lambda>(j, q). dispatch_line t j q) ds = map (\<lambda>(j, q). dispatch_line s j q) ds"
proof (rule map_cong [OF refl])
  fix x assume x: "x \<in> set ds"
  obtain j q where jq: "x = (j, q)" by (cases x)
  have "sq_ha_id q < length (sch_hosts s)"
    using dispatches_set [OF assms(1)] x frame_lengths [OF assms(2)] unfolding jq by metis
  then show "(case x of (j, q) \<Rightarrow> dispatch_line t j q) = (case x of (j, q) \<Rightarrow> dispatch_line s j q)"
    by (simp add: jq dispatch_line_frame [OF assms(2)])
qed

lemma sched_loop_dispatches:
  "sched_loop rs c mx i d s = Some (s', d', out) \<Longrightarrow>
     \<exists>ds. dispatches (sched_guard c) s ds s' \<and> out = map (\<lambda>(j, q). dispatch_line s j q) ds \<and>
       d' = d + int (length ds) \<and> (ds = [] \<or> d' \<le> mx) \<and>
       (\<forall>x\<in>set ds. rs \<longleftrightarrow> sj_reason (fst x) \<noteq> GW_REASON_NONE)"
proof (induction rs c mx i d s arbitrary: s' d' out rule: sched_loop.induct)
  case (1 rs c mx i d s)
  show ?case
  proof (cases "i < length (sch_jobs s) \<and> d < mx")
    case False
    then show ?thesis using "1.prems"
      unfolding sched_loop.simps [of rs c mx i d s] if_not_P [OF False] by (auto intro: dispatches.none)
  next
    case True
    then obtain r where r: "sched_round rs c i s = Some r"
      using "1.prems" by (cases "sched_round rs c i s") (simp_all add: sched_loop.simps [of rs c mx i d s])
    show ?thesis
    proof (cases r)
      case (Inl u)
      then show ?thesis using "1.IH"(1) [OF True r Inl] "1.prems" True r
        by (simp add: sched_loop.simps [of rs c mx i d s])
    next
      case (Inr x)
      obtain t l where x: "x = (t, l)" by (cases x)
      let ?j = "sch_jobs s ! i"
      have rr: "sched_round rs c i s = Some (Inr (t, l))" using r Inr x by simp
      from sched_round_dispatch [OF rr] obtain q where
        q: "pick_queue (max_resource c) (sch_hosts s) (sj_mhosts ?j) = Some (Some q)"
          "gw_scheduler_job_del (sj_jid ?j) True (inc_dispatched (sq_ha_id q) (sj_ua_id ?j) s) = Some t"
          "l = dispatch_line s ?j q" "sj_ua_id ?j < length (sch_users s)"
          "max_user c = 0 \<or> su_running_jobs (sch_users s ! sj_ua_id ?j) +
             su_dispatched (sch_users s ! sj_ua_id ?j) < max_user c"
          "rs \<longleftrightarrow> sj_reason ?j \<noteq> GW_REASON_NONE" by blast
      note g = pick_queue_guard [OF q(1)]
      obtain o2 where o2: "sched_loop rs c mx i (d + 1) t = Some (s', d', o2)" "out = l # o2"
        using "1.prems" True rr by (auto simp: sched_loop.simps [of rs c mx i d s])
      from "1.IH"(2) [OF True r Inr x [symmetric] o2(1)] obtain ds where
        ds: "dispatches (sched_guard c) t ds s'" "o2 = map (\<lambda>(j, q). dispatch_line t j q) ds"
          "d' = d + 1 + int (length ds)" "ds = [] \<or> d' \<le> mx"
          "\<forall>x\<in>set ds. rs \<longleftrightarrow> sj_reason (fst x) \<noteq> GW_REASON_NONE" by blast
      have "dispatches (sched_guard c) s ((?j, q) # ds) s'"
        by (rule dispatches.step [OF _ _ _ _ q(4) q(2) ds(1)])
           (use True g q(5) in \<open>auto simp: sched_guard_def Let_def\<close>)
      moreover have "out = map (\<lambda>(j, q). dispatch_line s j q) ((?j, q) # ds)"
        using o2(2) q(3) ds(2) lines_frame [OF ds(1) dispatch_effect(1) [OF q(2) _ q(4)]] g by simp
      moreover have "d' \<le> mx" using ds(3,4) True by auto
      ultimately show ?thesis using ds(3,5) q(6) by (intro exI [of _ "(?j, q) # ds"]) auto
    qed
  qed
qed

lemma gw_sched_dispatches:
  assumes "gw_sched s = Some (s', out)"
  obtains ds es where "dispatches (sched_guard (sch_conf s)) s (ds @ es) s'"
    "out = map (\<lambda>(j, q). dispatch_line s j q) (ds @ es)"
    "\<forall>x\<in>set ds. sj_reason (fst x) = GW_REASON_NONE" "\<forall>x\<in>set es. sj_reason (fst x) \<noteq> GW_REASON_NONE"
    "max_dispatch (sch_conf s) \<noteq> 0 \<longrightarrow> ds @ es = [] \<or> int (length (ds @ es)) \<le> max_dispatch (sch_conf s)"
proof -
  obtain t d o1 u e o2 where 1: "gw_sched_dispatch False 0 s = Some (t, d, o1)"
    and 2: "gw_sched_dispatch True d t = Some (s', e, o2)" and o: "out = o1 @ o2"
    using assms by (auto simp: gw_sched_def bind_eq_Some_conv)
  from sched_loop_dispatches [OF 1 [unfolded gw_sched_dispatch_def Let_def]] obtain ds where
    ds: "dispatches (sched_guard (sch_conf s)) s ds t" "o1 = map (\<lambda>(j, q). dispatch_line s j q) ds"
      "d = 0 + int (length ds)"
      "ds = [] \<or> d \<le> (if max_dispatch (sch_conf s) = 0 then int (length (sch_jobs s)) else max_dispatch (sch_conf s))"
      "\<forall>x\<in>set ds. False \<longleftrightarrow> sj_reason (fst x) \<noteq> GW_REASON_NONE" by blast
  have f: "frame t = frame s" by (rule dispatches_frame [OF ds(1)])
  then have c: "sch_conf t = sch_conf s" by (simp add: frame_def)
  from sched_loop_dispatches [OF 2 [unfolded gw_sched_dispatch_def Let_def c]] obtain es where
    es: "dispatches (sched_guard (sch_conf s)) t es s'" "o2 = map (\<lambda>(j, q). dispatch_line t j q) es"
      "e = d + int (length es)"
      "es = [] \<or> e \<le> (if max_dispatch (sch_conf s) = 0 then int (length (sch_jobs t)) else max_dispatch (sch_conf s))"
      "\<forall>x\<in>set es. True \<longleftrightarrow> sj_reason (fst x) \<noteq> GW_REASON_NONE" by blast
  show thesis
  proof (rule that)
    show "dispatches (sched_guard (sch_conf s)) s (ds @ es) s'" by (rule dispatches_append [OF ds(1) es(1)])
    show "out = map (\<lambda>(j, q). dispatch_line s j q) (ds @ es)"
      using o ds(2) es(2) lines_frame [OF es(1) f] by simp
  qed (use ds es in auto)
qed

section \<open>The flood scheduler\<close>

definition flood_guard :: "sched_param \<Rightarrow> dispatch_guard" where
  "flood_guard p t j q \<longleftrightarrow>
     (let h = sch_hosts t ! sq_ha_id q; u = sch_users t ! sj_ua_id j in
      sj_np j \<le> sq_slots q - sh_dispatched h \<and>
      (host_max p \<noteq> 0 \<longrightarrow> sh_used_slots h + sh_dispatched h < host_max p) \<and>
      (user_max p \<noteq> 0 \<longrightarrow> su_running_jobs u + su_dispatched u < user_max p))"

lemma flood_guard_dispached [simp]: "flood_guard (p\<lparr>dispached := n\<rparr>) = flood_guard p"
  by (simp add: fun_eq_iff flood_guard_def)

lemma pick_flood_guard:
  "pick_flood mx np hosts qs = Some (Some q) \<Longrightarrow>
     q \<in> set qs \<and> sq_ha_id q < length hosts \<and> np \<le> sq_slots q - sh_dispatched (hosts ! sq_ha_id q) \<and>
     (mx \<noteq> 0 \<longrightarrow> sh_used_slots (hosts ! sq_ha_id q) + sh_dispatched (hosts ! sq_ha_id q) < mx)"
  by (induction qs) (auto simp: Let_def split: if_splits)

definition flood_user :: "gw_scheduler \<Rightarrow> int \<Rightarrow> nat \<Rightarrow> bool" where
  "flood_user s uid ui \<longleftrightarrow>
     distinct (map su_uid (sch_users s)) \<and> ui < length (sch_users s) \<and> su_uid (sch_users s ! ui) = uid"

lemma flood_user_only:
  "flood_user s uid ui \<Longrightarrow> k < length (sch_users s) \<Longrightarrow> su_uid (sch_users s ! k) = uid \<Longrightarrow> k = ui"
  by (auto simp: flood_user_def distinct_conv_nth)

lemma frame_uids: "frame t = frame s \<Longrightarrow> map su_uid (sch_users t) = map su_uid (sch_users s)"
proof -
  assume "frame t = frame s"
  then have "map (\<lambda>u. (su_uid u, su_running_jobs u)) (sch_users t) =
      map (\<lambda>u. (su_uid u, su_running_jobs u)) (sch_users s)" by (simp add: frame_def)
  from arg_cong [OF this, of "map fst"] show ?thesis by (simp add: o_def)
qed

lemma flood_user_frame: "frame t = frame s \<Longrightarrow> flood_user s uid ui \<Longrightarrow> flood_user t uid ui"
  using frame_uids [of t s] frame_lengths [of t s] frame_user(1) [of t s ui] by (simp add: flood_user_def)

lemma flood_loop_dispatches:
  "flood_loop rs (host_max p) uid ui rc i d s = Some (s', d', out) \<Longrightarrow> flood_user s uid ui \<Longrightarrow>
   (user_max p \<noteq> 0 \<Longrightarrow>
      su_running_jobs (sch_users s ! ui) + su_dispatched (sch_users s ! ui) + (rc - d) \<le> user_max p) \<Longrightarrow>
     \<exists>ds. dispatches (flood_guard p) s ds s' \<and> out = map (\<lambda>(j, q). dispatch_line s j q) ds \<and>
       d' = d + int (length ds) \<and> (ds = [] \<or> d' \<le> rc) \<and>
       (\<forall>x\<in>set ds. rs \<longleftrightarrow> sj_reason (fst x) \<noteq> GW_REASON_NONE)"
proof (induction rs "host_max p" uid ui rc i d s arbitrary: s' d' out rule: flood_loop.induct)
  case (1 rs uid ui rc i d s)
  show ?case
  proof (cases "i < length (sch_jobs s) \<and> d < rc")
    case False
    then show ?thesis using "1.prems"(1)
      unfolding flood_loop.simps [of rs _ uid ui rc i d s] if_not_P [OF False] by (auto intro: dispatches.none)
  next
    case True
    then obtain r where r: "flood_round rs (host_max p) uid ui i s = Some r"
      using "1.prems"(1) by (cases "flood_round rs (host_max p) uid ui i s")
        (simp_all add: flood_loop.simps [of rs _ uid ui rc i d s])
    show ?thesis
    proof (cases r)
      case (Inl u)
      then have "flood_loop rs (host_max p) uid ui rc (Suc i) d s = Some (s', d', out)"
        using "1.prems"(1) True r by (simp add: flood_loop.simps [of rs _ uid ui rc i d s])
      from "1.hyps"(1) [OF True r Inl this "1.prems"(2,3)] show ?thesis by simp
    next
      case (Inr x)
      obtain t l where x: "x = (t, l)" by (cases x)
      let ?j = "sch_jobs s ! i"
      have rr: "flood_round rs (host_max p) uid ui i s = Some (Inr (t, l))" using r Inr x by simp
      from flood_round_dispatch [OF rr] obtain q where
        q: "pick_flood (host_max p) (sj_np ?j) (sch_hosts s) (sj_mhosts ?j) = Some (Some q)"
          "gw_scheduler_job_del (sj_jid ?j) True (inc_dispatched (sq_ha_id q) ui s) = Some t"
          "l = dispatch_line s ?j q" "sj_ua_id ?j < length (sch_users s)"
          "su_uid (sch_users s ! sj_ua_id ?j) = uid" "rs \<longleftrightarrow> sj_reason ?j \<noteq> GW_REASON_NONE" by blast
      note g = pick_flood_guard [OF q(1)]
      have ui: "sj_ua_id ?j = ui" "ui < length (sch_users s)"
        using flood_user_only [OF "1.prems"(2) q(4,5)] "1.prems"(2) by (simp_all add: flood_user_def)
      obtain o2 where o2: "flood_loop rs (host_max p) uid ui rc i (d + 1) t = Some (s', d', o2)" "out = l # o2"
        using "1.prems"(1) True rr by (auto simp: flood_loop.simps [of rs _ uid ui rc i d s])
      have e: "frame t = frame s" "su_dispatched (sch_users t ! ui) = su_dispatched (sch_users s ! ui) + 1"
        using dispatch_effect(1,3) [OF q(2) _ ui(2)] g ui(2) by simp_all
      have um: "su_running_jobs (sch_users t ! ui) + su_dispatched (sch_users t ! ui) + (rc - (d + 1)) \<le> user_max p"
        if "user_max p \<noteq> 0" using "1.prems"(3) [OF that] e(2) frame_user(2) [OF e(1) ui(2)] by simp
      from "1.hyps"(2) [OF True r Inr x [symmetric] o2(1) flood_user_frame [OF e(1) "1.prems"(2)] um] obtain ds where
        ds: "dispatches (flood_guard p) t ds s'" "o2 = map (\<lambda>(j, q). dispatch_line t j q) ds"
          "d' = d + 1 + int (length ds)" "ds = [] \<or> d' \<le> rc"
          "\<forall>x\<in>set ds. rs \<longleftrightarrow> sj_reason (fst x) \<noteq> GW_REASON_NONE" by blast
      have "flood_guard p s ?j q" using g "1.prems"(3) True ui(1) by (auto simp: flood_guard_def Let_def)
      then have "dispatches (flood_guard p) s ((?j, q) # ds) s'"
        by (intro dispatches.step [OF _ _ _ _ q(4) _ ds(1)]) (use q(2) ui(1) True g in simp_all)
      moreover have "out = map (\<lambda>(j, q). dispatch_line s j q) ((?j, q) # ds)"
        using o2(2) q(3) ds(2) lines_frame [OF ds(1) e(1)] by simp
      moreover have "d' \<le> rc" using ds(3,4) True by auto
      ultimately show ?thesis using ds(3,5) q(6) by (intro exI [of _ "(?j, q) # ds"]) auto
    qed
  qed
qed

text \<open>What a part of the flood scheduler does: it dispatches, and counts in \<open>dispached\<close>.\<close>

definition flood_does ::
  "bool \<Rightarrow> gw_scheduler \<times> sched_param \<Rightarrow> gw_scheduler \<times> sched_param \<Rightarrow> sch_out list \<Rightarrow>
     (sch_job \<times> sch_queue) list \<Rightarrow> bool" where
  "flood_does rs sp sp' out ds \<longleftrightarrow>
     dispatches (flood_guard (snd sp)) (fst sp) ds (fst sp') \<and>
     out = map (\<lambda>(j, q). dispatch_line (fst sp) j q) ds \<and>
     snd sp' = (snd sp)\<lparr>dispached := dispached (snd sp) + int (length ds)\<rparr> \<and>
     (sched_max (snd sp) \<noteq> 0 \<longrightarrow> ds = [] \<or> dispached (snd sp') \<le> sched_max (snd sp)) \<and>
     (\<forall>x\<in>set ds. rs \<longleftrightarrow> sj_reason (fst x) \<noteq> GW_REASON_NONE)"

lemma flood_does_nil: "flood_does rs sp sp [] []"
  by (simp add: flood_does_def dispatches.none)

lemma flood_does_append:
  assumes "flood_does rs sp sp1 o1 ds" and "flood_does rs sp1 sp2 o2 es"
  shows "flood_does rs sp sp2 (o1 @ o2) (ds @ es)"
proof -
  have d: "dispatches (flood_guard (snd sp)) (fst sp) ds (fst sp1)" using assms(1) by (simp add: flood_does_def)
  have g: "flood_guard (snd sp1) = flood_guard (snd sp)" using assms(1) by (simp add: flood_does_def)
  have e: "dispatches (flood_guard (snd sp)) (fst sp1) es (fst sp2)"
    using assms(2) g by (simp add: flood_does_def)
  show ?thesis
    using assms dispatches_append [OF d e] lines_frame [OF e dispatches_frame [OF d]]
    by (auto simp: flood_does_def)
qed

lemma schedule_user_does:
  assumes "schedule_user rs uid sp = Some (sp', n, out)" and "distinct (map su_uid (sch_users (fst sp)))"
  shows "\<exists>ds. flood_does rs sp sp' out ds"
proof -
  obtain s p where sp: "sp = (s, p)" by (cases sp)
  obtain ui where ui: "find_first su_uid uid (sch_users s) = Some ui"
    using assms(1) by (auto simp: sp schedule_user_def user_get_dispatched_def bind_eq_Some_conv)
  have u: "flood_user s uid ui" using find_first_Some [OF ui] assms(2) by (simp add: sp flood_user_def)
  define r where "r = (if sched_max p = 0 then int (length (sch_jobs s)) else sched_max p - dispached p)"
  define m where "m = (if user_max p = 0 then int (length (sch_jobs s))
      else user_max p - (su_running_jobs (sch_users s ! ui) + su_dispatched (sch_users s ! ui)))"
  have eq: "schedule_user rs uid sp = (if m \<le> 0 \<or> r \<le> 0 then Some ((s, p), 0, [])
      else do { (s, dsp, out) \<leftarrow> flood_loop rs (host_max p) uid ui (flood_chunk p m r) 0 0 s;
                Some ((s, p\<lparr>dispached := dispached p + dsp\<rparr>), dsp, out) })"
    by (simp add: sp schedule_user_def user_get_dispatched_def ui Let_def r_def m_def)
  show ?thesis
  proof (cases "m \<le> 0 \<or> r \<le> 0")
    case True
    then have "sp' = sp" "out = []" using assms(1) eq sp by simp_all
    then show ?thesis using flood_does_nil by blast
  next
    case False
    then obtain s' d' where l: "flood_loop rs (host_max p) uid ui (flood_chunk p m r) 0 0 s = Some (s', d', out)"
      "sp' = (s', p\<lparr>dispached := dispached p + d'\<rparr>)"
      using assms(1) unfolding eq if_not_P [OF False] by (auto simp: bind_eq_Some_conv)
    have c: "flood_chunk p m r \<le> m" "flood_chunk p m r \<le> r" by (auto simp: flood_chunk_def Let_def)
    have um: "su_running_jobs (sch_users s ! ui) + su_dispatched (sch_users s ! ui) +
        (flood_chunk p m r - 0) \<le> user_max p" if "user_max p \<noteq> 0" using c(1) that by (simp add: m_def)
    from flood_loop_dispatches [OF l(1) u um] obtain ds where
      "dispatches (flood_guard p) s ds s'" "out = map (\<lambda>(j, q). dispatch_line s j q) ds"
      "d' = int (length ds)" "ds = [] \<or> d' \<le> flood_chunk p m r"
      "\<forall>x\<in>set ds. rs \<longleftrightarrow> sj_reason (fst x) \<noteq> GW_REASON_NONE" by auto
    then have "flood_does rs sp sp' out ds" using c(2) by (auto simp: flood_does_def sp l(2) r_def)
    then show ?thesis by blast
  qed
qed

lemma flood_does_uids:
  "flood_does rs sp sp' out ds \<Longrightarrow> map su_uid (sch_users (fst sp')) = map su_uid (sch_users (fst sp))"
  unfolding flood_does_def by (blast intro: frame_uids dispatches_frame)

lemma flood_turn_does:
  "flood_turn rs k sp = Some (sp', again, out) \<Longrightarrow> distinct (map su_uid (sch_users (fst sp))) \<Longrightarrow>
     \<exists>ds. flood_does rs sp sp' out ds"
proof (induction rs k sp arbitrary: sp' again out rule: flood_turn.induct)
  case (1 rs sp)
  then have "sp' = sp" "out = []" by simp_all
  then show ?case using flood_does_nil by blast
next
  case (2 rs k sp)
  let ?uid = "su_uid (sch_users (fst sp) ! (length (sch_users (fst sp)) - Suc k))"
  obtain sp1 n o1 where b: "schedule_user rs ?uid sp = Some (sp1, n, o1)"
    using "2.prems"(1) by (cases "schedule_user rs ?uid sp") (auto simp: Let_def)
  then obtain m2 o2 where a: "schedule_user rs ?uid sp = Some (sp1, n, o1)"
    "flood_turn rs k sp1 = Some (sp', m2, o2)" "out = o1 @ o2"
    using "2.prems"(1) by (cases "flood_turn rs k sp1") (auto simp: Let_def)
  obtain ds where d: "flood_does rs sp sp1 o1 ds" using schedule_user_does [OF a(1) "2.prems"(2)] by blast
  have "distinct (map su_uid (sch_users (fst sp1)))" using flood_does_uids [OF d] "2.prems"(2) by simp
  from "2.IH" [OF refl a(1) refl refl a(2) this] flood_does_append [OF d] a(3) show ?case by blast
qed

lemma flood_rounds_does:
  "flood_rounds rs sp = Some (sp', out) \<Longrightarrow> distinct (map su_uid (sch_users (fst sp))) \<Longrightarrow>
     \<exists>ds. flood_does rs sp sp' out ds"
proof (induction rs sp arbitrary: sp' out rule: flood_rounds.induct)
  case (1 rs sp)
  obtain sp1 again o1 where t: "flood_turn rs (length (sch_users (fst sp))) sp = Some (sp1, again, o1)"
    using "1.prems"(1) by (cases "flood_turn rs (length (sch_users (fst sp))) sp")
      (auto simp: flood_rounds.simps [of rs sp])
  obtain ds where d: "flood_does rs sp sp1 o1 ds" using flood_turn_does [OF t "1.prems"(2)] by blast
  have u: "distinct (map su_uid (sch_users (fst sp1)))" using flood_does_uids [OF d] "1.prems"(2) by simp
  show ?case
  proof (cases again)
    case True
    then obtain o2 where "flood_rounds rs sp1 = Some (sp', o2)" "out = o1 @ o2"
      using "1.prems"(1) t by (auto simp: flood_rounds.simps [of rs sp])
    with "1.IH" [OF t refl refl True _ u] flood_does_append [OF d] show ?thesis by blast
  next
    case False
    then have "sp' = sp1" "out = o1" using "1.prems"(1) t by (simp_all add: flood_rounds.simps [of rs sp])
    then show ?thesis using d by blast
  qed
qed

lemma flood_scheduler_dispatches:
  assumes "flood_scheduler p s = Some (s', out)" and "distinct (map su_uid (sch_users s))"
  obtains ds es where "dispatches (flood_guard p) s (ds @ es) s'"
    "out = map (\<lambda>(j, q). dispatch_line s j q) (ds @ es)"
    "\<forall>x\<in>set ds. sj_reason (fst x) = GW_REASON_NONE" "\<forall>x\<in>set es. sj_reason (fst x) \<noteq> GW_REASON_NONE"
    "sched_max p \<noteq> 0 \<longrightarrow> ds @ es = [] \<or> int (length (ds @ es)) \<le> sched_max p"
proof -
  let ?sp = "(s, p\<lparr>dispached := 0\<rparr>)"
  obtain sp1 o1 sp2 o2 where 1: "flood_rounds False ?sp = Some (sp1, o1)" and
    2: "flood_rounds True sp1 = Some (sp2, o2)" "s' = fst sp2" "out = o1 @ o2"
    using assms(1) by (auto simp: flood_scheduler_def bind_eq_Some_conv)
  obtain ds where ds: "flood_does False ?sp sp1 o1 ds" using flood_rounds_does [OF 1] assms(2) by auto
  obtain es where es: "flood_does True sp1 sp2 o2 es"
    using flood_rounds_does [OF 2(1)] flood_does_uids [OF ds] assms(2) by auto
  have d: "dispatches (flood_guard p) s ds (fst sp1)" using ds by (simp add: flood_does_def)
  have e: "dispatches (flood_guard p) (fst sp1) es s'" using ds es 2(2) by (simp add: flood_does_def)
  show thesis
  proof (rule that)
    show "dispatches (flood_guard p) s (ds @ es) s'" by (rule dispatches_append [OF d e])
    show "out = map (\<lambda>(j, q). dispatch_line s j q) (ds @ es)"
      using ds es 2(3) lines_frame [OF e dispatches_frame [OF d]] by (simp add: flood_does_def)
  qed (use ds es in \<open>auto simp: flood_does_def\<close>)
qed

end
