(* ===== verification/SCH_Choice.thy ===== *)
theory SCH_Choice
  imports SCH_Run
begin

text \<open>
  What the scheduler decides: which hosts and queues a job may use, in which order the jobs
  are considered, and how many of them a round dispatches.
\<close>

section \<open>Hosts and queues\<close>

lemma best_queue_spec:
  assumes "qnum < j" and "length pre = j" and "fst (snd (pre ! qnum)) = mrank"
    and "\<forall>q\<in>set pre. fst (snd q) \<le> mrank"
  shows "best_queue qs j mrank mfnc qnum < length (pre @ qs) \<and>
     (\<forall>q\<in>set (pre @ qs). fst (snd q) \<le> fst (snd ((pre @ qs) ! best_queue qs j mrank mfnc qnum)))"
  using assms
proof (induction qs j mrank mfnc qnum arbitrary: pre rule: best_queue.induct)
  case (1 j mrank mfnc qnum)
  then show ?case by simp
next
  case (2 n rank fnc qs j mrank mfnc qnum)
  let ?pre = "pre @ [(n, rank, fnc)]"
  have app: "pre @ (n, rank, fnc) # qs = ?pre @ qs" by simp
  have nth: "?pre ! j = (n, rank, fnc)" "?pre ! qnum = pre ! qnum" using "2.prems"(1,2) by (simp_all add: nth_append)
  show ?case
  proof (cases "rank > mrank")
    case True
    have "\<forall>q\<in>set ?pre. fst (snd q) \<le> rank" using True "2.prems"(4) by auto
    then show ?thesis using 2(1) [OF True, of ?pre] True "2.prems" nth unfolding app by simp
  next
    case False
    note F = False
    have le: "\<forall>q\<in>set ?pre. fst (snd q) \<le> mrank" using F "2.prems"(4) by auto
    show ?thesis
    proof (cases "rank = mrank \<and> fnc > mfnc")
      case True
      then show ?thesis using 2(2) [OF F True, of ?pre] F "2.prems" nth le unfolding app by simp
    next
      case False
      then show ?thesis using 2(3) [OF F False, of ?pre] F "2.prems" nth le unfolding app by auto
    qed
  qed
qed

lemma select_queue_best:
  assumes "select_queue m = Some idx"
  shows "idx < length (m_queues m) \<and>
     (\<forall>q\<in>set (m_queues m). fst (snd q) \<le> fst (snd (m_queues m ! idx)))"
proof -
  obtain n r f qs where q: "m_queues m = (n, r, f) # qs"
    using assms by (cases "m_queues m") (auto simp: select_queue_def)
  then have idx: "idx = best_queue qs 1 r f 0" using assms by (simp add: select_queue_def)
  show ?thesis
    using best_queue_spec [of 0 1 "[(n, r, f)]" r qs f] unfolding q idx by simp
qed

lemma select_host_keeps:
  assumes "select_host e uhosts job m = Some (Some idx)"
  shows "host_usable e uhosts job m = Some True" "select_queue m = Some idx"
  using assms by (auto simp: select_host_def bind_eq_Some_conv split: if_splits)

text \<open>
  A host is kept for a job only if the user is not banned from it, it has a priority unless the
  job moves, and it is no former host of a job that moves; the queue kept has the best rank.
\<close>

lemma select_host_spec:
  assumes "select_host e uhosts job m = Some (Some idx)"
  shows "idx < length (m_queues m) \<and>
     (\<forall>q\<in>set (m_queues m). fst (snd q) \<le> fst (snd (m_queues m ! idx))) \<and>
     (\<exists>l. find_first uh_hid (m_host_id m) uhosts = Some l \<and> uh_banned (uhosts ! l) < sc_now e) \<and>
     (if sj_reason job \<in> {GW_REASON_USER_REQUESTED, GW_REASON_SUSPENSION_TIME, GW_REASON_RESCHEDULING_TIMEOUT}
      then \<exists>hl. client_history e (sj_jid job) = Some hl \<and> m_host_id m \<notin> fst ` set hl \<and>
        (sj_reason job = GW_REASON_RESCHEDULING_TIMEOUT \<longrightarrow> snd (hd hl) < fst (snd (m_queues m ! idx)))
      else m_fixed_priority m \<noteq> 0)"
proof -
  note k = select_host_keeps [OF assms]
  note b = select_queue_best [OF k(2)]
  obtain l where l: "find_first uh_hid (m_host_id m) uhosts = Some l" "uh_banned (uhosts ! l) < sc_now e"
    using host_usable_known [OF k(1)] by blast
  have "if sj_reason job \<in> {GW_REASON_USER_REQUESTED, GW_REASON_SUSPENSION_TIME, GW_REASON_RESCHEDULING_TIMEOUT}
      then \<exists>hl. client_history e (sj_jid job) = Some hl \<and> m_host_id m \<notin> fst ` set hl \<and>
        (sj_reason job = GW_REASON_RESCHEDULING_TIMEOUT \<longrightarrow> (\<exists>q\<in>set (m_queues m). snd (hd hl) < fst (snd q)))
      else m_fixed_priority m \<noteq> 0"
    using k(1) l
    by (auto simp: host_usable_def isinhistory_def split: option.splits list.splits if_splits prod.splits; force)
  then show ?thesis using b l by (auto split: if_splits)
qed

section \<open>The order of the jobs\<close>

definition weights_ok :: "gw_sch_conf \<Rightarrow> bool" where
  "weights_ok c \<longleftrightarrow> fin_le 31 (wfixed c) \<and> fin_le 31 (wwaiting c) \<and> fin_le 31 (wdeadline c) \<and> fin_le 31 (wshare c)"

text \<open>The values that the job policies read are in the ranges of their types.\<close>

definition jobs_in_range :: "gw_scheduler \<Rightarrow> bool" where
  "jobs_in_range s \<longleftrightarrow> int (length (sch_jobs s)) \<le> 2 ^ 31 \<and>
     (\<forall>j\<in>set (sch_jobs s). \<bar>sj_fixed j\<bar> \<le> 2 ^ 31 \<and> \<bar>sj_schedule_time j\<bar> \<le> 2 ^ 61)"

lemma fin_le_not_NaN: "fin_le k x \<Longrightarrow> x \<noteq> NaN"
  by (auto simp: fin_le_def)

lemma fin_le_div_int:
  assumes "ieee r" and "\<bar>x\<bar> \<le> 2 ^ k" and "n \<noteq> 0" and "\<bar>n\<bar> \<le> 2 ^ 62" and "k \<le> 62"
  shows "fin_le k (flt_div r (flt_of_int r x) (flt_of_int r n))"
proof -
  obtain s m where m: "flt_of_int r x = Fin s m" "0 \<le> m" "m \<le> 2 ^ k"
    using fin_le_int [OF assms(1,2)] assms(5) by (auto simp: fin_le_def)
  have "of_int \<bar>n\<bar> \<le> (of_int (2 ^ 62) :: rat)" using assms(4) by (rule of_int_le_iff [THEN iffD2])
  then obtain a where a: "r (of_int \<bar>n\<bar>) = Some a" "0 \<le> a"
    using ieee_le [OF assms(1), of "of_int \<bar>n\<bar>" 62] by auto
  have "1 \<le> \<bar>n\<bar>" using assms(3) by simp
  then have "(1 :: rat) \<le> of_int \<bar>n\<bar>" by simp
  then have "1 \<le> a" using ieee_ge_1 [OF assms(1) _ a(1)] by blast
  then have "m / a \<le> m" using m(2) by (simp add: divide_le_eq mult_le_cancel_left1)
  then have "fin_le k (mk_flt r b (m / a))" for b
    using m a assms(5) by (intro fin_le_mk [OF assms(1)]) auto
  moreover have "flt_of_int r n = Fin (n < 0) a" using a(1) by (simp add: flt_of_int_def mk_flt_def)
  ultimately show ?thesis using m(1) \<open>1 \<le> a\<close> by auto
qed

lemma fold_max_le: "(\<forall>x\<in>set xs. x \<le> b) \<Longrightarrow> a \<le> b \<Longrightarrow> int_max_from a xs \<le> b"
  unfolding int_max_from_def by (induction xs arbitrary: a) auto

lemma int_max_Cons: "int_max_from a (y # ys) = int_max_from (if y > a then y else a) ys"
  by (simp add: int_max_from_def)

lemma int_max_ge0: "a \<le> int_max_from a xs"
proof (induction xs arbitrary: a)
  case (Cons y ys)
  from Cons [of "if y > a then y else a"] show ?case unfolding int_max_Cons by (simp split: if_splits)
qed (simp add: int_max_from_def)

lemma int_max_ge: "x \<in> set xs \<Longrightarrow> x \<le> int_max_from a xs"
proof (induction xs arbitrary: a)
  case (Cons y ys)
  have "y \<le> int_max_from (if y > a then y else a) ys"
    using int_max_ge0 [of "if y > a then y else a" ys] by (simp split: if_splits)
  then show ?case using Cons unfolding int_max_Cons by auto
qed simp

lemma norm_part_fin:
  assumes "ieee r" and "\<bar>x\<bar> \<le> 2 ^ 62" and "\<bar>mx\<bar> \<le> 2 ^ 62"
  shows "fin_le 62 (norm_part r x mx)"
  using fin_le_div_int [OF assms(1,2) _ assms(3)] by (auto simp: norm_part_def fin_le_def)

lemma job_priority_fin:
  assumes "ieee (flo e)" and "weights_ok c"
    and "\<bar>sj_fixed j\<bar> \<le> 2 ^ 62" "\<bar>sj_waiting j\<bar> \<le> 2 ^ 62" "\<bar>sj_deadline j\<bar> \<le> 2 ^ 62"
    and "\<bar>mf\<bar> \<le> 2 ^ 62" "\<bar>mw\<bar> \<le> 2 ^ 62" "\<bar>md\<bar> \<le> 2 ^ 62"
  shows "fin_le 95 (sj_priority (job_priority e c mf mw md j))"
proof -
  have m: "fin_le 93 (flt_mul (flo e) w (norm_part (flo e) x mx))"
    if "fin_le 31 w" "\<bar>x\<bar> \<le> 2 ^ 62" "\<bar>mx\<bar> \<le> 2 ^ 62" for w x mx
    using fin_le_mul [OF assms(1) that(1) norm_part_fin [OF assms(1) that(2,3)]] by simp
  have w: "fin_le 31 (wfixed c)" "fin_le 31 (wwaiting c)" "fin_le 31 (wdeadline c)"
    using assms(2) by (simp_all add: weights_ok_def)
  note a = m [OF w(1) assms(3,6)] and b = m [OF w(2) assms(4,7)] and d = m [OF w(3) assms(5,8)]
  have ab: "fin_le (Suc 93) (flt_add (flo e) (flt_mul (flo e) (wfixed c) (norm_part (flo e) (sj_fixed j) mf))
      (flt_mul (flo e) (wwaiting c) (norm_part (flo e) (sj_waiting j) mw)))"
    by (rule fin_le_add [OF assms(1) a b]) simp
  have d': "fin_le (Suc 93) (flt_mul (flo e) (wdeadline c) (norm_part (flo e) (sj_deadline j) md))"
    by (rule fin_le_mono [OF d]) simp
  have "fin_le (Suc (Suc 93)) (flt_add (flo e) (flt_add (flo e)
      (flt_mul (flo e) (wfixed c) (norm_part (flo e) (sj_fixed j) mf))
      (flt_mul (flo e) (wwaiting c) (norm_part (flo e) (sj_waiting j) mw)))
      (flt_mul (flo e) (wdeadline c) (norm_part (flo e) (sj_deadline j) md)))"
    by (rule fin_le_add [OF assms(1) ab d']) simp
  then show ?thesis by (simp add: job_priority_def Let_def)
qed

end
