(* ===== verification/SCH_Order.thy ===== *)
theory SCH_Order
  imports SCH_Choice
begin

text \<open>
  The result of the job policies: the jobs are the same, urgent ones come first and the others by
  priority, and the share policy gives the n-th job of a user its place.
\<close>

section \<open>Taking the policies apart\<close>

lemma presort_shape:
  assumes "job_presort e c js = Some ks"
  obtains ls where "list_all2 (\<lambda>j k. job_dates e c j = Some k) js ls"
    "ks = qsort job_cmp (map (job_priority e c (int_max_from 0 (map sj_fixed ls))
       (int_max_from 0 (map sj_waiting ls)) (int_max_from 0 (map sj_deadline ls))) ls)"
proof -
  obtain ls where ls: "those (map (job_dates e c) js) = Some ls"
    using assms by (cases "those (map (job_dates e c) js)") (simp_all add: job_presort_def)
  then show thesis
    using that [of ls] those_list_all2 [OF ls] assms by (simp add: job_presort_def Let_def)
qed

lemma policies_shape:
  assumes "gw_scheduler_job_policies e s = Some s'" and "flt_pos (wshare (sch_conf s))"
  obtains ks uq vs ns ms where "job_presort e (sch_conf s) (sch_jobs s) = Some ks"
    "list_all2 (\<lambda>u vq. user_share e (sch_conf s) u = Some vq) (sch_users s) uq"
    "ms = (if int_max_from 0 (map snd uq) = 0 then 1 else int_max_from 0 (map snd uq))"
    "share_jobs e (sch_conf s) ms (map fst uq) ks = Some (vs, ns)"
    "s' = s\<lparr>sch_users := vs, sch_jobs := qsort job_cmp ns\<rparr>"
proof -
  obtain ks where ks: "job_presort e (sch_conf s) (sch_jobs s) = Some ks"
    using assms(1) by (cases "job_presort e (sch_conf s) (sch_jobs s)")
      (simp_all add: gw_scheduler_job_policies_def Let_def)
  obtain uq where uq: "those (map (user_share e (sch_conf s)) (sch_users s)) = Some uq"
    using assms ks by (cases "those (map (user_share e (sch_conf s)) (sch_users s))")
      (simp_all add: gw_scheduler_job_policies_def Let_def)
  define ms where "ms = (if int_max_from 0 (map snd uq) = 0 then 1 else int_max_from 0 (map snd uq))"
  obtain x where x: "share_jobs e (sch_conf s) ms (map fst uq) ks = Some x"
    using assms ks uq by (cases "share_jobs e (sch_conf s) ms (map fst uq) ks")
      (simp_all add: gw_scheduler_job_policies_def Let_def ms_def [symmetric])
  obtain vs ns where "x = (vs, ns)" by (cases x)
  then show thesis
    using that [OF ks those_list_all2 [OF uq] ms_def] assms ks uq x
    by (simp add: gw_scheduler_job_policies_def Let_def ms_def [symmetric])
qed

section \<open>The numbers of the share policy\<close>

lemma jobs_of_Cons: "jobs_of k (j # js) = (if sj_ua_id j = k then 1 else 0) + jobs_of k js"
  by (simp add: jobs_of_def)

definition share_place :: "int \<Rightarrow> sch_user list \<Rightarrow> sch_job list \<Rightarrow> nat \<Rightarrow> int" where
  "share_place ms us js i =
     (let u = us ! sj_ua_id (js ! i) in
      ms - (su_next_ujid u + jobs_of (sj_ua_id (js ! i)) (take i js)) sdiv su_share u)"

lemma share_jobs_spec:
  "share_jobs e c ms us js = Some (vs, ks) \<Longrightarrow> length ks = length js \<and>
     (\<forall>i<length js. sj_ua_id (js ! i) < length us \<and> sj_share (ks ! i) = share_place ms us js i \<and>
        sj_nshare (ks ! i) = flt_div (flo e) (flt_of_int (flo e) (sj_share (ks ! i))) (flt_of_int (flo e) ms) \<and>
        sj_priority (ks ! i) = flt_add (flo e) (sj_priority (js ! i)) (flt_mul (flo e) (wshare c) (sj_nshare (ks ! i))) \<and>
        same_job (js ! i) (ks ! i))"
proof (induction js arbitrary: us ks)
  case (Cons j js)
  let ?n = "sj_ua_id j"
  let ?us = "us[?n := (us ! ?n)\<lparr>su_next_ujid := su_next_ujid (us ! ?n) + 1\<rparr>]"
  obtain k ks' where k: "share_one e c ms us j = Some (?us, k)" "share_jobs e c ms ?us js = Some (vs, ks')"
    "ks = k # ks'"
    using Cons.prems by (auto simp: bind_eq_Some_conv share_one_def Let_def split: if_splits)
  have n: "?n < length us" using k(1) by (simp add: share_one_def split: if_splits)
  note IH = Cons.IH [OF k(2)]
  have place: "share_place ms us (j # js) (Suc i) = share_place ms ?us js i" if "i < length js" for i
    using n IH that
    by (cases "sj_ua_id (js ! i) = ?n") (simp_all add: share_place_def Let_def jobs_of_Cons add.assoc)
  have zero: "sj_share k = share_place ms us (j # js) 0"
    "sj_nshare k = flt_div (flo e) (flt_of_int (flo e) (sj_share k)) (flt_of_int (flo e) ms)"
    "sj_priority k = flt_add (flo e) (sj_priority j) (flt_mul (flo e) (wshare c) (sj_nshare k))" "same_job j k"
    using k(1) by (auto simp: share_one_def share_place_def Let_def same_job_def jobs_of_def split: if_splits)
  show ?case
    unfolding k(3) using IH n zero place by (auto simp: less_Suc_eq_0_disj)
qed simp

lemma sdiv_pos: "0 \<le> a \<Longrightarrow> 0 < b \<Longrightarrow> (a :: int) sdiv b = a div b"
  by (cases "a = 0") (simp_all add: signed_divide_int_def)

lemma jobs_of_take_less:
  assumes "i < length js"
  shows "jobs_of (sj_ua_id (js ! i)) (take i js) < jobs_of (sj_ua_id (js ! i)) js"
proof -
  have "js = take i js @ js ! i # drop (Suc i) js" using assms by (simp add: id_take_nth_drop)
  then have "jobs_of (sj_ua_id (js ! i)) js = jobs_of (sj_ua_id (js ! i)) (take i js @ js ! i # drop (Suc i) js)" by simp
  then show ?thesis by (simp add: jobs_of_def)
qed

definition shares_pos :: "gw_sch_conf \<Rightarrow> bool" where
  "shares_pos c \<longleftrightarrow> 0 < ushare_default c \<and> (\<forall>nv\<in>set (ushare c). 0 < snd nv)"

lemma share_pos: "shares_pos c \<Longrightarrow> 0 < gw_sch_get_user_share c name"
  by (auto simp: shares_pos_def gw_sch_get_user_share_def conf_lookup_map_of dest!: map_of_SomeD split: option.split)

lemma window_jobs_nonneg:
  assumes "env_ok e" and "\<forall>w\<in>set (sub_windows u). 0 \<le> w" and "window_jobs e u i = Some n" and "int i \<le> 2 ^ 31"
  shows "0 \<le> n"
proof -
  have i: "i < length (sub_windows u)" using assms(3) by (simp add: window_jobs_def split: if_splits)
  then have w: "0 \<le> sub_windows u ! i" using assms(2) by simp
  obtain m where m: "window_weight e i = Fin False m" "0 \<le> m" using window_weight_unit [OF assms(1,4)] .
  have d: "good_rounding (dbl e)" using assms(1) by (simp add: env_ok_def ieee_def)
  have "flt_trunc (flt_mul (dbl e) (flt_of_int (dbl e) (sub_windows u ! i)) (Fin False m)) = Some n"
    using assms(3) i m(1) by (simp add: window_jobs_def)
  then obtain a where a: "dbl e (of_int (sub_windows u ! i)) = Some a"
    using w by (auto simp: flt_of_int_def mk_flt_def flt_trunc_def split: option.splits if_splits)
  have "0 \<le> a" by (rule good_rounding_nonneg [OF d _ a]) (use w in simp)
  obtain b where b: "dbl e (a * m) = Some b"
    using \<open>flt_trunc _ = Some n\<close> w a by (auto simp: flt_of_int_def mk_flt_def flt_trunc_def split: option.splits)
  have "0 \<le> b" by (rule good_rounding_nonneg [OF d _ b]) (use \<open>0 \<le> a\<close> m(2) in simp)
  then show ?thesis
    using \<open>flt_trunc _ = Some n\<close> w a b by (auto simp: flt_of_int_def mk_flt_def flt_trunc_def)
qed

lemma past_jobs_nonneg:
  assumes "env_ok e" and "\<forall>w\<in>set (sub_windows u). 0 \<le> w" and "d \<le> 10"
    and "gw_scheduler_user_past_jobs e u d = Some n"
  shows "0 \<le> n"
proof -
  obtain xs where xs: "those (map (window_jobs e u) [0..<nat d]) = Some xs" "n = sum_list xs"
    by (rule past_jobs_sum [OF assms(4)])
  have "0 \<le> x" if x: "x \<in> set xs" for x
  proof -
    obtain i where "i \<in> set [0..<nat d]" "window_jobs e u i = Some x"
      using list_all2_in [OF those_list_all2 [OF xs(1)] x] by blast
    then show ?thesis using window_jobs_nonneg [OF assms(1,2)] assms(3) by simp
  qed
  then show ?thesis by (simp add: xs(2) sum_list_nonneg)
qed

section \<open>Shares are between zero and one\<close>

lemma presort_same:
  assumes "job_presort e c js = Some ks" and "list_all2 (\<lambda>j k. job_dates e c j = Some k) js ls"
    and "ks = qsort job_cmp (map (job_priority e c a b d) ls)"
  shows "mset (map sj_ua_id ks) = mset (map sj_ua_id js)"
proof -
  have "sj_ua_id k = sj_ua_id j" if "job_dates e c j = Some k" for j k
    using that by (auto simp: job_dates_def Let_def split: if_splits)
  with assms(2) have "map sj_ua_id ls = map sj_ua_id js"
    by (induction rule: list_all2_induct) auto
  moreover have "map sj_ua_id (map (job_priority e c a b d) ls) = map sj_ua_id ls"
    by (simp add: job_priority_def Let_def)
  ultimately show ?thesis unfolding assms(3) by (metis mset_map mset_qsort)
qed

lemma user_share_shape:
  assumes "user_share e c u = Some vq"
  obtains past where "gw_scheduler_user_past_jobs e u (window_depth c) = Some past"
    "su_share (fst vq) = gw_sch_get_user_share c (su_name u)" "su_next_ujid (fst vq) = past"
    "snd vq = (su_total_jobs u + past - 1) sdiv gw_sch_get_user_share c (su_name u)"
  using assms by (auto simp: user_share_def bind_eq_Some_conv Let_def split: if_splits)

lemma share_place_bounds:
  assumes env: "env_ok e" and conf: "conf_ok (sch_conf s)" and pos: "shares_pos (sch_conf s)"
    and inv: "sch_inv s" and win: "\<forall>u\<in>set (sch_users s). \<forall>w\<in>set (sub_windows u). 0 \<le> w"
    and ks: "mset (map sj_ua_id ks) = mset (map sj_ua_id (sch_jobs s))"
    and uq: "list_all2 (\<lambda>u vq. user_share e (sch_conf s) u = Some vq) (sch_users s) uq"
    and ms: "ms = (if int_max_from 0 (map snd uq) = 0 then 1 else int_max_from 0 (map snd uq))"
    and i: "i < length ks" "sj_ua_id (ks ! i) < length (map fst uq)"
  shows "0 \<le> share_place ms (map fst uq) ks i \<and> share_place ms (map fst uq) ks i \<le> ms"
proof -
  let ?k = "sj_ua_id (ks ! i)"
  have k: "?k < length (sch_users s)" "length uq = length (sch_users s)"
    using i(2) uq by (simp_all add: list_all2_lengthD)
  have sh: "user_share e (sch_conf s) (sch_users s ! ?k) = Some (uq ! ?k)" using uq k by (simp add: list_all2_conv_all_nth)
  let ?u = "sch_users s ! ?k"
  let ?share = "gw_sch_get_user_share (sch_conf s) (su_name ?u)"
  obtain past where p: "gw_scheduler_user_past_jobs e ?u (window_depth (sch_conf s)) = Some past"
    "su_share (fst (uq ! ?k)) = ?share" "su_next_ujid (fst (uq ! ?k)) = past"
    "snd (uq ! ?k) = (su_total_jobs ?u + past - 1) sdiv ?share" using user_share_shape [OF sh] .
  have past: "0 \<le> past"
    by (rule past_jobs_nonneg [OF env _ _ p(1)]) (use win k conf in \<open>auto simp: conf_ok_def\<close>)
  have share: "0 < ?share" using share_pos [OF pos] .
  have total: "su_total_jobs ?u = jobs_of ?k ks" using sch_inv_user(1) [OF inv k(1)] ks by (simp add: jobs_of_map)
  let ?n = "past + jobs_of ?k (take i ks)"
  have n: "0 \<le> ?n" "?n \<le> su_total_jobs ?u + past - 1"
    using past jobs_of_take_less [OF i(1)] total by (simp_all add: jobs_of_def)
  have "?n div ?share \<le> (su_total_jobs ?u + past - 1) div ?share" using n(2) share by (rule zdiv_mono1)
  also have "\<dots> = snd (uq ! ?k)" using p(4) n share by (simp add: sdiv_pos)
  also have "\<dots> \<le> int_max_from 0 (map snd uq)" using k by (intro int_max_ge) simp
  also have "\<dots> \<le> ms" by (simp add: ms)
  finally have "?n div ?share \<le> ms" .
  moreover have "share_place ms (map fst uq) ks i = ms - ?n div ?share"
    using p(2,3) k n(1) share by (simp add: share_place_def Let_def sdiv_pos)
  moreover have "0 \<le> ?n div ?share" using n(1) share by (simp add: pos_imp_zdiv_nonneg_iff)
  ultimately show ?thesis by simp
qed

text \<open>A quotient of two numbers in order is in the unit interval, also rounded.\<close>

lemma unit_quotient:
  assumes "ieee r" and "0 \<le> x" and "x \<le> n" and "1 \<le> n" and "n \<le> 2 ^ 62"
  obtains m where "flt_div r (flt_of_int r x) (flt_of_int r n) = Fin False m" "0 \<le> m" "m \<le> 1"
proof -
  have g: "good_rounding r" using assms(1) by (simp add: ieee_def)
  obtain b where b: "flt_of_int r n = Fin False b" "1 \<le> b"
    by (rule flt_of_pos_int [OF assms(1,4,5)]) auto
  have rb: "r (of_int n) = Some b" using b(1) assms(4) by (auto simp: flt_of_int_def mk_flt_def split: option.splits)
  have "(of_int x :: rat) \<le> of_int n" using assms(3) by simp
  then obtain a where a: "r (of_int x) = Some a" "0 \<le> a" "a \<le> b"
    using good_rounding_mono [OF g _ _ rb, of "of_int x"] assms(2) by auto
  have "a / b \<le> 1" "0 \<le> a / b" using a b(2) by simp_all
  then obtain m where "r (a / b) = Some m" "0 \<le> m" "m \<le> 1" using good_rounding_unit [OF g] by metis
  moreover have "flt_of_int r x = Fin False a" using a(1) assms(2) by (simp add: flt_of_int_def mk_flt_def)
  ultimately show thesis using that b by (simp add: mk_flt_def)
qed

section \<open>The order of the job list\<close>

lemma priority_fin:
  assumes env: "env_ok e" and conf: "conf_ok c" and w: "weights_ok c"
    and rng: "\<forall>j\<in>set js. \<bar>sj_fixed j\<bar> \<le> 2 ^ 31 \<and> \<bar>sj_schedule_time j\<bar> \<le> 2 ^ 61"
    and ls: "list_all2 (\<lambda>j k. job_dates e c j = Some k) js ls"
    and dl: "\<forall>l\<in>set ls. \<bar>sj_deadline l\<bar> \<le> 2 ^ 62"
    and k: "k \<in> set (map (job_priority e c (int_max_from 0 (map sj_fixed ls))
       (int_max_from 0 (map sj_waiting ls)) (int_max_from 0 (map sj_deadline ls))) ls)"
  shows "fin_le 95 (sj_priority k)"
proof -
  have now: "\<bar>sc_now e\<bar> \<le> 2 ^ 61" using env by (simp add: env_ok_def)
  have keep: "sj_fixed l = sj_fixed j \<and> sj_waiting l = sc_now e - sj_schedule_time j" if "job_dates e c j = Some l" for j l
    using that by (auto simp: job_dates_def Let_def split: if_splits)
  have fw: "\<bar>sj_fixed l\<bar> \<le> 2 ^ 62 \<and> \<bar>sj_waiting l\<bar> \<le> 2 ^ 62" if l: "l \<in> set ls" for l
  proof -
    obtain j where "j \<in> set js" "job_dates e c j = Some l" using list_all2_in [OF ls l] by blast
    then have "\<bar>sj_fixed l\<bar> \<le> 2 ^ 31" "\<bar>sj_waiting l\<bar> \<le> 2 ^ 61 + 2 ^ 61" using keep rng now by fastforce+
    then show ?thesis by simp
  qed
  have mx: "\<bar>int_max_from 0 (map f ls)\<bar> \<le> 2 ^ 62" if "\<forall>l\<in>set ls. \<bar>f l\<bar> \<le> 2 ^ 62" for f :: "sch_job \<Rightarrow> int"
    using fold_max_le [of "map f ls" "2 ^ 62" 0] int_max_ge0 [of 0 "map f ls"] that by fastforce
  obtain l where l: "l \<in> set ls" "k = job_priority e c (int_max_from 0 (map sj_fixed ls))
       (int_max_from 0 (map sj_waiting ls)) (int_max_from 0 (map sj_deadline ls)) l" using k by auto
  have f: "ieee (flo e)" using env by (simp add: env_ok_def)
  show ?thesis unfolding l(2)
    by (rule job_priority_fin [OF f w]) (use fw dl l(1) mx in blast)+
qed

lemma job_dates_deadline:
  assumes env: "env_ok e" and conf: "conf_ok c" and "\<bar>sj_deadline_time j\<bar> \<le> 2 ^ 61"
    and l: "job_dates e c j = Some l"
  shows "\<bar>sj_deadline l\<bar> \<le> 2 ^ 62"
proof (cases "sj_deadline_time j \<noteq> 0 \<and> \<not> sj_deadline_time j - sc_now e \<le> 0")
  case False
  then show ?thesis using l by (auto simp: job_dates_def Let_def split: if_splits)
next
  case True
  have d: "ieee (dbl e)" and f: "ieee (flo e)" using env by (simp_all add: env_ok_def)
  let ?t = "sj_deadline_time j - sc_now e"
  have "1 \<le> ?t" "?t \<le> 2 ^ 62" using True assms(3) env by (auto simp: env_ok_def)
  from flt_of_pos_int [OF f this] obtain a where a: "flt_of_int (flo e) ?t = Fin False a" "1 \<le> a" by auto
  obtain b where b: "deadline_half e c = Fin True b" "0 \<le> b" using deadline_half_below [OF env conf] .
  have "flt_below (flt_div (flo e) (flt_of_int (flo e) ?t) (deadline_half e c))"
    unfolding a(1) b(1) by (rule flt_below_div [OF f a(2) b(2)]) simp
  then have x: "fin_le 0 (exp_fn e (flt_div (flo e) (flt_of_int (flo e) ?t) (deadline_half e c)))"
    using env by (simp add: env_ok_def exp_ok_fin)
  have h: "\<bar>100 :: int\<bar> \<le> 2 ^ 7" by simp
  have "flt_trunc (flt_mul (dbl e) (flt_of_int (dbl e) 100)
       (exp_fn e (flt_div (flo e) (flt_of_int (flo e) ?t) (deadline_half e c)))) = Some (sj_deadline l)"
    using l True by (auto simp: job_dates_def Let_def)
  from fin_le_trunc_le [OF fin_le_mul [OF d fin_le_int [OF d h] x] this] show ?thesis by simp
qed

definition job_before :: "sch_job \<Rightarrow> sch_job \<Rightarrow> bool" where
  "job_before a b \<longleftrightarrow> sj_fixed a = 20 \<or> (sj_fixed b \<noteq> 20 \<and> \<not> flt_lt (sj_priority a) (sj_priority b))"

lemma qsort_jobs:
  assumes "\<forall>j\<in>set js. sj_priority j \<noteq> NaN"
  shows "sorted_wrt job_before (qsort job_cmp js)"
  using sorted_qsort [OF job_cmp_ok [OF assms]]
  unfolding job_cmp_le job_before_def .

lemma sum_list_le: "(\<forall>x\<in>set xs. \<bar>x\<bar> \<le> (b :: int)) \<Longrightarrow> \<bar>sum_list xs\<bar> \<le> int (length xs) * b"
proof (induction xs)
  case (Cons x xs)
  then have "\<bar>x + sum_list xs\<bar> \<le> b + int (length xs) * b" by (intro order_trans [OF abs_triangle_ineq] add_mono) auto
  then show ?case by (simp add: algebra_simps)
qed simp

lemma past_jobs_le:
  assumes "env_ok e" and "\<forall>w\<in>set (sub_windows u). \<bar>w\<bar> \<le> 2 ^ 27" and "d \<le> 10"
    and "gw_scheduler_user_past_jobs e u d = Some n"
  shows "\<bar>n\<bar> \<le> 10 * 2 ^ 27"
proof -
  obtain xs where xs: "those (map (window_jobs e u) [0..<nat d]) = Some xs" "n = sum_list xs"
    by (rule past_jobs_sum [OF assms(4)])
  note la = those_list_all2 [OF xs(1)]
  have "\<bar>x\<bar> \<le> 2 ^ 27" if x: "x \<in> set xs" for x
  proof -
    obtain i where "i \<in> set [0..<nat d]" "window_jobs e u i = Some x" using list_all2_in [OF la x] by blast
    then show ?thesis using window_jobs_le [OF assms(1,2)] assms(3) by simp
  qed
  then have "\<bar>n\<bar> \<le> int (length xs) * 2 ^ 27" using sum_list_le [of xs "2 ^ 27"] by (simp add: xs(2))
  moreover have "length xs = nat d" using la by (simp add: list_all2_lengthD [symmetric])
  moreover have "int (nat d) * 2 ^ 27 \<le> 10 * 2 ^ 27" using assms(3) by (intro mult_right_mono) auto
  ultimately show ?thesis by (metis order_trans)
qed

lemma sdiv_le: "b \<noteq> 0 \<Longrightarrow> \<bar>(a :: int) sdiv b\<bar> \<le> \<bar>a\<bar>"
proof -
  assume b: "b \<noteq> 0"
  have "\<bar>a\<bar> div \<bar>b\<bar> \<le> \<bar>a\<bar> div 1" using b by (intro zdiv_mono2) auto
  moreover have "0 \<le> \<bar>a\<bar> div \<bar>b\<bar>" by (simp add: b pos_imp_zdiv_nonneg_iff)
  ultimately show ?thesis by (simp add: signed_divide_int_def abs_mult abs_sgn_eq)
qed

lemma max_share_le:
  assumes env: "env_ok e" and conf: "conf_ok (sch_conf s)" and inv: "sch_inv s"
    and rng: "in_range s" "jobs_in_range s"
    and uq: "list_all2 (\<lambda>u vq. user_share e (sch_conf s) u = Some vq) (sch_users s) uq"
  shows "int_max_from 0 (map snd uq) \<le> 2 ^ 62"
proof (rule fold_max_le)
  show "\<forall>x\<in>set (map snd uq). x \<le> 2 ^ 62"
  proof
    fix x assume "x \<in> set (map snd uq)"
    then obtain k where k: "k < length uq" "x = snd (uq ! k)" by (auto simp: in_set_conv_nth)
    then have ku: "k < length (sch_users s)" using uq by (simp add: list_all2_lengthD)
    let ?u = "sch_users s ! k"
    have "user_share e (sch_conf s) ?u = Some (uq ! k)" using uq ku by (simp add: list_all2_conv_all_nth)
    then obtain past where p: "gw_scheduler_user_past_jobs e ?u (window_depth (sch_conf s)) = Some past"
      "x = (su_total_jobs ?u + past - 1) sdiv gw_sch_get_user_share (sch_conf s) (su_name ?u)"
      using k(2) user_share_shape by metis
    have "\<bar>past\<bar> \<le> 10 * 2 ^ 27"
      by (rule past_jobs_le [OF env _ _ p(1)]) (use rng(1) ku conf in \<open>auto simp: in_range_def conf_ok_def\<close>)
    moreover have "0 \<le> su_total_jobs ?u" "su_total_jobs ?u \<le> int (length (sch_jobs s))"
      using sch_inv_user(1) [OF inv ku] by (simp_all add: jobs_of_def)
    then have "0 \<le> su_total_jobs ?u" "su_total_jobs ?u \<le> 2 ^ 31" using rng(2) by (auto simp: jobs_in_range_def)
    moreover have "\<bar>x\<bar> \<le> \<bar>su_total_jobs ?u + past - 1\<bar>"
      unfolding p(2) by (rule sdiv_le [OF share_nonzero [OF conf]])
    ultimately show "x \<le> 2 ^ 62" by simp
  qed
qed simp

lemma policies_sorted:
  assumes env: "env_ok e" and conf: "conf_ok (sch_conf s)" and w: "weights_ok (sch_conf s)"
    and pos: "shares_pos (sch_conf s)" and inv: "sch_inv s" and rng: "in_range s" "jobs_in_range s"
    and win: "\<forall>u\<in>set (sch_users s). \<forall>w\<in>set (sub_windows u). 0 \<le> w"
    and p: "gw_scheduler_job_policies e s = Some s'"
  shows "sorted_wrt job_before (sch_jobs s')"
proof -
  obtain ks where ks: "job_presort e (sch_conf s) (sch_jobs s) = Some ks"
    using p by (cases "job_presort e (sch_conf s) (sch_jobs s)") (simp_all add: gw_scheduler_job_policies_def Let_def)
  obtain ls where ls: "list_all2 (\<lambda>j k. job_dates e (sch_conf s) j = Some k) (sch_jobs s) ls"
    "ks = qsort job_cmp (map (job_priority e (sch_conf s) (int_max_from 0 (map sj_fixed ls))
       (int_max_from 0 (map sj_waiting ls)) (int_max_from 0 (map sj_deadline ls))) ls)"
    using presort_shape [OF ks] .
  have dl: "\<forall>l\<in>set ls. \<bar>sj_deadline l\<bar> \<le> 2 ^ 62"
    using list_all2_in [OF ls(1)] job_dates_deadline [OF env conf] rng(1) unfolding in_range_def by metis
  have r: "\<forall>j\<in>set (sch_jobs s). \<bar>sj_fixed j\<bar> \<le> 2 ^ 31 \<and> \<bar>sj_schedule_time j\<bar> \<le> 2 ^ 61"
    using rng(2) by (simp add: jobs_in_range_def)
  have fin: "fin_le 95 (sj_priority k)" if "k \<in> set ks" for k
    by (rule priority_fin [OF env conf w r ls(1) dl]) (use that ls(2) in simp)
  show ?thesis
  proof (cases "flt_pos (wshare (sch_conf s))")
    case False
    then have "sch_jobs s' = ks" using p ks by (auto simp: gw_scheduler_job_policies_def Let_def)
    then show ?thesis using qsort_jobs fin fin_le_not_NaN ls(2) by (metis set_qsort)
  next
    case True
    obtain ks' uq vs ns m where d: "job_presort e (sch_conf s) (sch_jobs s) = Some ks'"
      "list_all2 (\<lambda>u vq. user_share e (sch_conf s) u = Some vq) (sch_users s) uq"
      "m = (if int_max_from 0 (map snd uq) = 0 then 1 else int_max_from 0 (map snd uq))"
      "share_jobs e (sch_conf s) m (map fst uq) ks' = Some (vs, ns)"
      "s' = s\<lparr>sch_users := vs, sch_jobs := qsort job_cmp ns\<rparr>"
      by (rule policies_shape [OF p True])
    have kk: "ks' = ks" using d(1) ks by simp
    have ua: "mset (map sj_ua_id ks) = mset (map sj_ua_id (sch_jobs s))"
      by (rule presort_same [OF ks ls])
    have m: "1 \<le> m" "m \<le> 2 ^ 62"
      using int_max_ge0 [of 0 "map snd uq"] max_share_le [OF env conf inv rng d(2)] by (auto simp: d(3))
    note sp = share_jobs_spec [OF d(4), unfolded kk]
    have "fin_le 96 (sj_priority j)" if j: "j \<in> set ns" for j
    proof -
      obtain i where i: "i < length ks" "j = ns ! i" using sp j by (auto simp: in_set_conv_nth)
      have u: "sj_ua_id (ks ! i) < length (map fst uq)" using sp i(1) by blast
      have pb: "0 \<le> sj_share j" "sj_share j \<le> m"
        using share_place_bounds [OF env conf pos inv win ua d(2,3) i(1) u] sp i by simp_all
      have f: "ieee (flo e)" using env by (simp add: env_ok_def)
      have n: "fin_le 0 (sj_nshare j)"
        using unit_quotient [OF f pb m] sp i by (metis fin_le_def power_0)
      have ws: "fin_le 31 (wshare (sch_conf s))" using w by (simp add: weights_ok_def)
      have a: "fin_le 95 (flt_mul (flo e) (wshare (sch_conf s)) (sj_nshare j))"
        by (rule fin_le_mono [OF fin_le_mul [OF f ws n]]) simp_all
      have b: "fin_le 95 (sj_priority (ks ! i))" using fin i(1) by simp
      have "fin_le (Suc 95) (flt_add (flo e) (sj_priority (ks ! i)) (flt_mul (flo e) (wshare (sch_conf s)) (sj_nshare j)))"
        by (rule fin_le_add [OF f b a]) simp
      then show ?thesis using sp i by simp
    qed
    then show ?thesis using qsort_jobs [of ns] fin_le_not_NaN d(5) by fastforce
  qed
qed

lemma share_unit:
  assumes env: "env_ok e" and conf: "conf_ok (sch_conf s)" and pos: "shares_pos (sch_conf s)"
    and inv: "sch_inv s" and rng: "in_range s" "jobs_in_range s"
    and win: "\<forall>u\<in>set (sch_users s). \<forall>w\<in>set (sub_windows u). 0 \<le> w"
    and sh: "flt_pos (wshare (sch_conf s))" and p: "gw_scheduler_job_policies e s = Some s'"
  shows "\<exists>ms. 1 \<le> ms \<and> ms \<le> 2 ^ 62 \<and> (\<forall>j\<in>set (sch_jobs s'). 0 \<le> sj_share j \<and> sj_share j \<le> ms \<and>
     sj_nshare j = flt_div (flo e) (flt_of_int (flo e) (sj_share j)) (flt_of_int (flo e) ms))"
proof -
  obtain ks uq vs ns ms where d: "job_presort e (sch_conf s) (sch_jobs s) = Some ks"
    "list_all2 (\<lambda>u vq. user_share e (sch_conf s) u = Some vq) (sch_users s) uq"
    "ms = (if int_max_from 0 (map snd uq) = 0 then 1 else int_max_from 0 (map snd uq))"
    "share_jobs e (sch_conf s) ms (map fst uq) ks = Some (vs, ns)"
    "s' = s\<lparr>sch_users := vs, sch_jobs := qsort job_cmp ns\<rparr>"
    by (rule policies_shape [OF p sh])
  have ua: "mset (map sj_ua_id ks) = mset (map sj_ua_id (sch_jobs s))"
    using presort_shape [OF d(1)] presort_same [OF d(1)] by metis
  have one: "1 \<le> ms" "ms \<le> 2 ^ 62"
    using int_max_ge0 [of 0 "map snd uq"] max_share_le [OF env conf inv rng d(2)] by (auto simp: d(3))
  note sp = share_jobs_spec [OF d(4)]
  have "0 \<le> sj_share j \<and> sj_share j \<le> ms \<and>
      sj_nshare j = flt_div (flo e) (flt_of_int (flo e) (sj_share j)) (flt_of_int (flo e) ms)"
    if "j \<in> set (sch_jobs s')" for j
  proof -
    have "j \<in> set ns" using that d(5) by simp
    then obtain i where i: "i < length ks" "j = ns ! i" using sp by (auto simp: in_set_conv_nth)
    have u: "sj_ua_id (ks ! i) < length (map fst uq)" using sp i(1) by blast
    show ?thesis
      using share_place_bounds [OF env conf pos inv win ua d(2,3) i(1) u] sp i by simp
  qed
  then show ?thesis using one by blast
qed

lemma share_unit_nshare:
  assumes env: "env_ok e" and conf: "conf_ok (sch_conf s)" and pos: "shares_pos (sch_conf s)"
    and inv: "sch_inv s" and rng: "in_range s" "jobs_in_range s"
    and win: "\<forall>u\<in>set (sch_users s). \<forall>w\<in>set (sub_windows u). 0 \<le> w"
    and sh: "flt_pos (wshare (sch_conf s))" and p: "gw_scheduler_job_policies e s = Some s'"
  shows "\<forall>j\<in>set (sch_jobs s'). 0 \<le> sj_share j \<and> (\<exists>m. sj_nshare j = Fin False m \<and> 0 \<le> m \<and> m \<le> 1)"
proof -
  obtain ms where ms: "1 \<le> ms" "ms \<le> 2 ^ 62"
    "\<forall>j\<in>set (sch_jobs s'). 0 \<le> sj_share j \<and> sj_share j \<le> ms \<and>
       sj_nshare j = flt_div (flo e) (flt_of_int (flo e) (sj_share j)) (flt_of_int (flo e) ms)"
    using share_unit [OF env conf pos inv rng win sh p] by blast
  have f: "ieee (flo e)" using env by (simp add: env_ok_def)
  show ?thesis
  proof
    fix j assume "j \<in> set (sch_jobs s')"
    then have j: "0 \<le> sj_share j" "sj_share j \<le> ms"
      "sj_nshare j = flt_div (flo e) (flt_of_int (flo e) (sj_share j)) (flt_of_int (flo e) ms)"
      using ms(3) by blast+
    obtain m where "flt_div (flo e) (flt_of_int (flo e) (sj_share j)) (flt_of_int (flo e) ms) = Fin False m"
      "0 \<le> m" "m \<le> 1" by (rule unit_quotient [OF f j(1,2) ms(1,2)])
    then show "0 \<le> sj_share j \<and> (\<exists>m. sj_nshare j = Fin False m \<and> 0 \<le> m \<and> m \<le> 1)" using j by auto
  qed
qed

end
