(* ===== verification/SCH_Results.thy ===== *)
theory SCH_Results
  imports SCH_Limits SCH_Order
begin

text \<open>
  The properties of the scheduler process: safety of every run, the limits of a round of dispatches,
  the choice of hosts and queues, the order of the jobs and the shares, and what the removal of a
  user and a missing deadline do.
\<close>

section \<open>Runs\<close>

context scheduler_module
begin

lemma reachable_inv:
  assumes "sch_reachable scheduler c s" and "conf_ok c"
  shows "sch_inv s \<and> sch_conf s = c"
  using assms(1)
proof (induction rule: sch_reachable.induct)
  case (start e s)
  then show ?case by (auto simp: gw_scheduler_init_def sch_inv_def)
next
  case (message s e m s' out)
  show ?case
  proof (cases "names_fit m")
    case True
    then have "\<exists>s' out. sch_apply e scheduler m s = Some (s', out) \<and> sch_inv s' \<and> sch_conf s' = sch_conf s"
      using apply_safe [of e s m] message assms(2) by simp
    then show ?thesis using message by auto
  next
    case False
    then consider (h) hid us rj name where "m = HOST_MONITOR hid us rj name"
      | (u) uid aj rj name where "m = USER_ADD uid aj rj name"
      by (cases m) (simp_all add: names_fit_def)
    then show ?thesis
    proof cases
      case h
      then have "gw_scheduler_add_host e hid us rj name s = Some s'"
        using message by (cases "gw_scheduler_add_host e hid us rj name s") (simp_all add: sch_apply_def)
      then show ?thesis using inv_add_host [of s] message by metis
    next
      case u
      then have "gw_scheduler_add_user e uid aj rj name s = Some s'"
        using message by (cases "gw_scheduler_add_user e uid aj rj name s") (simp_all add: sch_apply_def)
      then show ?thesis using inv_add_user [of s] message by metis
    qed
  qed
qed

lemma run_safe:
  assumes "sch_reachable scheduler c s" and "conf_ok c" and "env_ok e" and "in_range s"
    and "\<And>uid. m \<noteq> USER_DEL uid" and "names_fit m"
  shows "sch_inv s \<and> (\<exists>s' out. sch_apply e scheduler m s = Some (s', out) \<and> sch_reachable scheduler c s')"
proof -
  have i: "sch_inv s" "sch_conf s = c" using reachable_inv [OF assms(1,2)] by simp_all
  obtain s' out where "sch_apply e scheduler m s = Some (s', out)"
    using apply_safe [of e s m] assms i by auto
  then show ?thesis using i(1) sch_reachable.message [OF assms(1,3,4,5)] by blast
qed

end

text \<open>An environment and tables for the witnesses: one host with one queue, one user, two jobs.\<close>

definition demo_senv :: sch_env where
  "demo_senv = \<lparr>sc_now = 1000, flo = Some, dbl = Some, exp_fn = (\<lambda>_. Fin False 0),
     acct_search = (\<lambda>_ _. None), client_status = (\<lambda>_. Some (0, 1, 900, 0)),
     client_match = (\<lambda>_ _. Some [\<lparr>m_host_id = 4, m_fixed_priority = 1, m_queues = [(''q'', 5, 3), (''r'', 6, 2)]\<rparr>]),
     client_history = (\<lambda>_. None)\<rparr>"

definition demo_sconf :: gw_sch_conf where
  "demo_sconf = (gw_sch_conf_init Some 1)\<lparr>max_resource := 1\<rparr>"

definition demo_sq :: sch_queue where
  "demo_sq = \<lparr>sq_ha_id = 0, sq_uha_id = 0, sq_qname = ''r'', sq_slots = 2, sq_fixed = 1, sq_nfixed = fzero,
     sq_rank = 6, sq_nrank = fzero, sq_usage = fzero, sq_nusage = fzero, sq_priority = fzero\<rparr>"

definition demo_sjob :: "int \<Rightarrow> sch_job" where
  "demo_sjob jid = (new_sch_job demo_senv 0 jid (-1) 1 GW_REASON_NONE 0 0)\<lparr>sj_mhosts := [demo_sq]\<rparr>"

definition demo_stab :: gw_scheduler where
  "demo_stab = \<lparr>sch_users = [\<lparr>su_uid = 0, su_name = ''ann'', su_running_jobs = 0, su_active_jobs = 0,
       su_total_jobs = 2, su_dispatched = 0, su_share = 1, su_next_ujid = 0, sub_windows = [0, 0, 0, 0, 0],
       su_hosts = [user_host_init demo_senv 0 4 ''host'' ''ann'']\<rparr>],
     sch_hosts = [\<lparr>sh_hid = 4, sh_name = ''host'', sh_used_slots = 0, sh_running_jobs = 0, sh_dispatched = 0\<rparr>],
     sch_jobs = [demo_sjob 7, demo_sjob 8], sch_conf = demo_sconf, next_user_window = 87400,
     next_host_window = 87400\<rparr>"

lemma demo_env_ok: "env_ok demo_senv"
  by (simp add: env_ok_def client_ok_def exp_ok_def demo_senv_def ieee_exact GW_MSG_STRING_SHORT_def)

lemma demo_conf_ok: "conf_ok demo_sconf" "weights_ok demo_sconf" "shares_pos demo_sconf" "flt_pos (wshare demo_sconf)"
  by (auto simp: conf_ok_def weights_ok_def shares_pos_def demo_sconf_def gw_sch_conf_init_def fin_le_def
      flt_of_int_def mk_flt_def flt_pos_def)

lemma demo_tab_ok: "sch_inv demo_stab" "in_range demo_stab" "jobs_in_range demo_stab"
  by (simp_all add: sch_inv_def user_ok_def user_key_def jobs_of_def mhosts_in_def demo_stab_def demo_sjob_def
      new_sch_job_def demo_sq_def demo_sconf_def gw_sch_conf_init_def in_range_def jobs_in_range_def
      user_host_init_def avrg_times_def demo_senv_def)



section \<open>The limits of a round\<close>

text \<open>
  C5: a round of the built-in scheduler always ends and respects its limits: it prints one line per
  dispatched job, new jobs before those that move, each for one of the queues that match the job and
  with a slot left; it does not exceed the configured number of dispatches in all, per host and per
  user with its running jobs, and the jobs not dispatched stay in the list.
\<close>

theorem builtin_round_limits:
  assumes inv: "sch_inv s" and "0 < window_depth (sch_conf s)" and "distinct (map sj_jid (sch_jobs s))"
    and host0: "\<forall>h\<in>set (sch_hosts s). sh_dispatched h = 0" and user0: "\<forall>u\<in>set (sch_users s). su_dispatched u = 0"
  shows "\<exists>s' ds es. gw_sched s = Some (s', map (\<lambda>(j, q). dispatch_line s j q) (ds @ es)) \<and>
     mset (sch_jobs s) = mset (map fst (ds @ es)) + mset (sch_jobs s') \<and>
     (\<forall>(j, q)\<in>set ds. sj_reason j = GW_REASON_NONE) \<and> (\<forall>(j, q)\<in>set es. sj_reason j \<noteq> GW_REASON_NONE) \<and>
     (\<forall>xs j q ys. ds @ es = xs @ (j, q) # ys \<longrightarrow> q \<in> set (sj_mhosts j) \<and> host_count (sq_ha_id q) xs < sq_slots q) \<and>
     (0 < max_dispatch (sch_conf s) \<longrightarrow> int (length (ds @ es)) \<le> max_dispatch (sch_conf s)) \<and>
     (\<forall>h<length (sch_hosts s). 0 < max_resource (sch_conf s) \<longrightarrow> host_count h (ds @ es) \<le> max_resource (sch_conf s)) \<and>
     (\<forall>k<length (sch_users s). 0 < max_user (sch_conf s) \<longrightarrow> user_count k (ds @ es) = 0 \<or>
        su_running_jobs (sch_users s ! k) + user_count k (ds @ es) \<le> max_user (sch_conf s))"
proof -
  let ?c = "sch_conf s"
  obtain s' out where g: "gw_sched s = Some (s', out)" using gw_sched_inv [OF assms(1,2)] by blast
  obtain ds es where d: "dispatches (sched_guard ?c) s (ds @ es) s'"
    "out = map (\<lambda>(j, q). dispatch_line s j q) (ds @ es)"
    "\<forall>x\<in>set ds. sj_reason (fst x) = GW_REASON_NONE" "\<forall>x\<in>set es. sj_reason (fst x) \<noteq> GW_REASON_NONE"
    "max_dispatch ?c \<noteq> 0 \<longrightarrow> ds @ es = [] \<or> int (length (ds @ es)) \<le> max_dispatch ?c"
    by (rule gw_sched_dispatches [OF g])
  have slot: "q \<in> set (sj_mhosts j) \<and> host_count (sq_ha_id q) xs < sq_slots q" if x: "ds @ es = xs @ (j, q) # ys" for xs j q ys
  proof -
    have q: "q \<in> set (sj_mhosts j)" "sq_ha_id q < length (sch_hosts s)"
      using dispatches_set [OF d(1), of j q] x by simp_all
    obtain t where t: "dispatches (sched_guard ?c) s xs t" "sched_guard ?c t j q"
      using dispatches_split d(1) x by metis
    then show ?thesis
      using q host0 dispatches_host_count [OF t(1) q(2)] by (simp add: sched_guard_def Let_def)
  qed
  have host: "host_count h (ds @ es) \<le> max_resource ?c" if "h < length (sch_hosts s)" "0 < max_resource ?c" for h
    using host_bound [OF d(1) that(1), of "max_resource ?c"] that host0 by (auto simp: sched_guard_def Let_def)
  have user: "user_count k (ds @ es) = 0 \<or> su_running_jobs (sch_users s ! k) + user_count k (ds @ es) \<le> max_user ?c"
    if k: "k < length (sch_users s)" "0 < max_user ?c" for k
  proof -
    have "user_count k (ds @ es) = 0 \<or> su_dispatched (sch_users s ! k) + user_count k (ds @ es)
        \<le> max_user ?c - su_running_jobs (sch_users s ! k)"
    proof (rule user_bound [OF d(1) k(1)])
      fix t j q assume "sched_guard ?c t j q" "sj_ua_id j = k" and f: "frame t = frame s"
      then show "su_dispatched (sch_users t ! k) < max_user ?c - su_running_jobs (sch_users s ! k)"
        using k frame_user(2) [OF f k(1)] by (simp add: sched_guard_def Let_def)
    qed
    then show ?thesis using k(1) user0 by auto
  qed
  show ?thesis
    using g d(2-5) dispatches_mset [OF d(1) assms(3)] slot host user
    by (intro exI [of _ s'] exI [of _ ds] exI [of _ es]) auto
qed

theorem builtin_round_limits_witness:
  "\<exists>s' ds. gw_sched demo_stab = Some (s', map (\<lambda>(j, q). dispatch_line demo_stab j q) ds) \<and>
     host_count 0 ds \<le> 1"
proof -
  have c: "max_resource (sch_conf demo_stab) = 1" "window_depth (sch_conf demo_stab) = 5"
    by (simp_all add: demo_stab_def demo_sconf_def gw_sch_conf_init_def)
  have d: "distinct (map sj_jid (sch_jobs demo_stab))" "length (sch_hosts demo_stab) = 1"
    "\<forall>h\<in>set (sch_hosts demo_stab). sh_dispatched h = 0" "\<forall>u\<in>set (sch_users demo_stab). su_dispatched u = 0"
    by (simp_all add: demo_stab_def demo_sjob_def new_sch_job_def)
  have w: "0 < window_depth (sch_conf demo_stab)" by (simp add: c(2))
  from builtin_round_limits [OF demo_tab_ok(1) w d(1,3,4)] obtain s' ds es where
    "gw_sched demo_stab = Some (s', map (\<lambda>(j, q). dispatch_line demo_stab j q) (ds @ es))"
    "\<forall>h<length (sch_hosts demo_stab). 0 < max_resource (sch_conf demo_stab) \<longrightarrow>
       host_count h (ds @ es) \<le> max_resource (sch_conf demo_stab)" by blast
  then show ?thesis using c(1) d(2) by (intro exI [of _ s'] exI [of _ "ds @ es"]) simp
qed

text \<open>
  C6: the flood scheduler, for any parameters, always ends its turns of the users, and the whole of
  its dispatches respects the limits: all of them together, per host with the slots used already, and
  per user with the running jobs; a queue is taken only with enough free slots for the job.
\<close>

theorem flood_round_limits:
  assumes inv: "sch_inv s" and "0 < window_depth (sch_conf s)" and "distinct (map sj_jid (sch_jobs s))"
    and uids: "distinct (map su_uid (sch_users s))"
    and host0: "\<forall>h\<in>set (sch_hosts s). sh_dispatched h = 0" and user0: "\<forall>u\<in>set (sch_users s). su_dispatched u = 0"
  shows "\<exists>s' ds. flood_scheduler p s = Some (s', map (\<lambda>(j, q). dispatch_line s j q) ds) \<and>
     mset (sch_jobs s) = mset (map fst ds) + mset (sch_jobs s') \<and>
     (\<forall>xs j q ys. ds = xs @ (j, q) # ys \<longrightarrow>
        q \<in> set (sj_mhosts j) \<and> host_count (sq_ha_id q) xs + sj_np j \<le> sq_slots q) \<and>
     (0 < sched_max p \<longrightarrow> int (length ds) \<le> sched_max p) \<and>
     (\<forall>h<length (sch_hosts s). host_max p \<noteq> 0 \<longrightarrow> host_count h ds = 0 \<or>
        sh_used_slots (sch_hosts s ! h) + host_count h ds \<le> host_max p) \<and>
     (\<forall>k<length (sch_users s). user_max p \<noteq> 0 \<longrightarrow> user_count k ds = 0 \<or>
        su_running_jobs (sch_users s ! k) + user_count k ds \<le> user_max p)"
proof -
  obtain s' out where g: "flood_scheduler p s = Some (s', out)" using flood_scheduler_inv [OF assms(1,2)] by blast
  obtain xs es where d': "dispatches (flood_guard p) s (xs @ es) s'"
    "out = map (\<lambda>(j, q). dispatch_line s j q) (xs @ es)"
    "sched_max p \<noteq> 0 \<longrightarrow> xs @ es = [] \<or> int (length (xs @ es)) \<le> sched_max p"
    by (rule flood_scheduler_dispatches [OF g uids])
  define ds where "ds = xs @ es"
  note d = d' [folded ds_def]
  have slot: "q \<in> set (sj_mhosts j) \<and> host_count (sq_ha_id q) xs + sj_np j \<le> sq_slots q" if x: "ds = xs @ (j, q) # ys" for xs j q ys
  proof -
    have q: "q \<in> set (sj_mhosts j)" "sq_ha_id q < length (sch_hosts s)"
      using dispatches_set [OF d(1), of j q] x by simp_all
    obtain t where t: "dispatches (flood_guard p) s xs t" "flood_guard p t j q"
      using dispatches_split d(1) x by metis
    then show ?thesis
      using q host0 dispatches_host_count [OF t(1) q(2)] by (simp add: flood_guard_def Let_def)
  qed
  have host: "host_count h ds = 0 \<or> sh_used_slots (sch_hosts s ! h) + host_count h ds \<le> host_max p"
    if h: "h < length (sch_hosts s)" "host_max p \<noteq> 0" for h
  proof -
    have "host_count h ds = 0 \<or> sh_dispatched (sch_hosts s ! h) + host_count h ds
        \<le> host_max p - sh_used_slots (sch_hosts s ! h)"
    proof (rule host_bound [OF d(1) h(1)])
      fix t j q assume "flood_guard p t j q" "sq_ha_id q = h" and f: "frame t = frame s"
      then show "sh_dispatched (sch_hosts t ! h) < host_max p - sh_used_slots (sch_hosts s ! h)"
        using h frame_host(2) [OF f h(1)] by (simp add: flood_guard_def Let_def)
    qed
    then show ?thesis using h(1) host0 by auto
  qed
  have user: "user_count k ds = 0 \<or> su_running_jobs (sch_users s ! k) + user_count k ds \<le> user_max p"
    if k: "k < length (sch_users s)" "user_max p \<noteq> 0" for k
  proof -
    have "user_count k ds = 0 \<or> su_dispatched (sch_users s ! k) + user_count k ds
        \<le> user_max p - su_running_jobs (sch_users s ! k)"
    proof (rule user_bound [OF d(1) k(1)])
      fix t j q assume "flood_guard p t j q" "sj_ua_id j = k" and f: "frame t = frame s"
      then show "su_dispatched (sch_users t ! k) < user_max p - su_running_jobs (sch_users s ! k)"
        using k frame_user(2) [OF f k(1)] by (simp add: flood_guard_def Let_def)
    qed
    then show ?thesis using k(1) user0 by auto
  qed
  show ?thesis
    using g d(2,3) dispatches_mset [OF d(1) assms(3)] slot host user
    by (intro exI [of _ s'] exI [of _ ds]) auto
qed

theorem flood_round_limits_witness:
  "\<exists>s' ds. flood_scheduler \<lparr>host_max = 10, user_chunk = 2, user_max = 20, sched_max = 1, dispached = 0\<rparr> demo_stab =
     Some (s', map (\<lambda>(j, q). dispatch_line demo_stab j q) ds) \<and> length ds \<le> 1"
proof -
  let ?p = "\<lparr>host_max = 10, user_chunk = 2, user_max = 20, sched_max = 1, dispached = 0\<rparr>"
  have d: "distinct (map sj_jid (sch_jobs demo_stab))" "distinct (map su_uid (sch_users demo_stab))"
    "\<forall>h\<in>set (sch_hosts demo_stab). sh_dispatched h = 0" "\<forall>u\<in>set (sch_users demo_stab). su_dispatched u = 0"
    "0 < window_depth (sch_conf demo_stab)"
    by (simp_all add: demo_stab_def demo_sjob_def new_sch_job_def demo_sconf_def gw_sch_conf_init_def)
  from flood_round_limits [OF demo_tab_ok(1) d(5,1-4), of ?p] obtain s' ds where
    "flood_scheduler ?p demo_stab = Some (s', map (\<lambda>(j, q). dispatch_line demo_stab j q) ds)"
    "0 < sched_max ?p \<longrightarrow> int (length ds) \<le> sched_max ?p" by blast
  then show ?thesis by auto
qed

section \<open>Hosts and queues\<close>

text \<open>
  A host that the scheduler keeps for a job is known, and its ban for the user is over; a job that
  moves gets no host of its history, and after a rescheduling timeout only one with a better rank
  than its current host; any other job only a host that the configuration does not exclude. The queue
  kept has the best rank of the host.
\<close>

lemma host_choice:
  assumes "select_host e uhosts job m = Some (Some idx)"
  shows "idx < length (m_queues m) \<and>
     (\<forall>q\<in>set (m_queues m). fst (snd q) \<le> fst (snd (m_queues m ! idx))) \<and>
     (\<exists>l. find_first uh_hid (m_host_id m) uhosts = Some l \<and> uh_banned (uhosts ! l) < sc_now e) \<and>
     (if sj_reason job \<in> {GW_REASON_USER_REQUESTED, GW_REASON_SUSPENSION_TIME, GW_REASON_RESCHEDULING_TIMEOUT}
      then \<exists>hl. client_history e (sj_jid job) = Some hl \<and> m_host_id m \<notin> fst ` set hl \<and>
        (sj_reason job = GW_REASON_RESCHEDULING_TIMEOUT \<longrightarrow> snd (hd hl) < fst (snd (m_queues m ! idx)))
      else m_fixed_priority m \<noteq> 0)"
  by (rule select_host_spec [OF assms])

section \<open>The order of the jobs and the shares\<close>

text \<open>
  C7: the job policies are always defined and only reorder the jobs: afterwards the list has the same
  jobs, the urgent ones first and the others by falling priority.
\<close>

theorem policies_order:
  assumes "env_ok e" and "conf_ok (sch_conf s)" and "weights_ok (sch_conf s)" and "shares_pos (sch_conf s)"
    and "sch_inv s" and "in_range s" and "jobs_in_range s"
    and "\<forall>u\<in>set (sch_users s). \<forall>w\<in>set (sub_windows u). 0 \<le> w"
  shows "\<exists>s' ls. gw_scheduler_job_policies e s = Some s' \<and> sorted_wrt job_before (sch_jobs s') \<and>
     mset ls = mset (sch_jobs s') \<and> list_all2 same_job (sch_jobs s) ls"
proof -
  have "window_depth (sch_conf s) \<le> 2 ^ 31" using assms(2) by (auto simp: conf_ok_def)
  then obtain s' where "gw_scheduler_job_policies e s = Some s'"
    "\<exists>ls. mset ls = mset (sch_jobs s') \<and> list_all2 same_job (sch_jobs s) ls"
    using inv_policies [OF assms(1,2) _ assms(5,6)] by metis
  then show ?thesis using policies_sorted [OF assms] by blast
qed

theorem policies_order_witness:
  "\<exists>s'. gw_scheduler_job_policies demo_senv demo_stab = Some s' \<and> sorted_wrt job_before (sch_jobs s')"
proof -
  have c: "sch_conf demo_stab = demo_sconf" by (simp add: demo_stab_def)
  have "\<forall>u\<in>set (sch_users demo_stab). \<forall>w\<in>set (sub_windows u). 0 \<le> w" by (simp add: demo_stab_def)
  then show ?thesis
    using policies_order [of demo_senv demo_stab] demo_env_ok demo_conf_ok demo_tab_ok by (auto simp: c)
qed

text \<open>
  The share policy gives every job a share between zero and the largest one, and a normalised
  share between zero and one, so that it adds at most its weight to the priority.
\<close>

lemma share_range:
  assumes env: "env_ok e" and conf: "conf_ok (sch_conf s)" and pos: "shares_pos (sch_conf s)"
    and inv: "sch_inv s" and rng: "in_range s" "jobs_in_range s"
    and win: "\<forall>u\<in>set (sch_users s). \<forall>w\<in>set (sub_windows u). 0 \<le> w"
    and "flt_pos (wshare (sch_conf s))" and "gw_scheduler_job_policies e s = Some s'" and "j \<in> set (sch_jobs s')"
  shows "0 \<le> sj_share j \<and> (\<exists>m. sj_nshare j = Fin False m \<and> 0 \<le> m \<and> m \<le> 1)"
  using share_unit_nshare [OF env conf pos inv rng win assms(8,9)] assms(10) by blast

section \<open>Users and deadlines\<close>

lemma nth_remove: "k < length xs - 1 \<Longrightarrow> i \<le> k \<Longrightarrow> (take i xs @ drop (Suc i) xs) ! k = xs ! Suc k"
  by (simp add: nth_append)

text \<open>
  The removal of a user leaves the jobs of all users behind it with a wrong user: their index into
  the list of users is not adjusted, so it names the next user, or none.
\<close>

lemma del_user_shifts_jobs:
  assumes "distinct (map su_uid (sch_users s))" and "find_first su_uid uid (sch_users s) = Some i"
    and "j \<in> set (sch_jobs s)" and "i < sj_ua_id j" and "sj_ua_id j < length (sch_users s)"
  shows "\<exists>s'. gw_scheduler_del_user uid s = Some s' \<and> j \<in> set (sch_jobs s') \<and>
     (Suc (sj_ua_id j) = length (sch_users s) \<longrightarrow> \<not> sj_ua_id j < length (sch_users s')) \<and>
     (Suc (sj_ua_id j) < length (sch_users s) \<longrightarrow>
        su_uid (sch_users s' ! sj_ua_id j) = su_uid (sch_users s ! Suc (sj_ua_id j)) \<and>
        su_uid (sch_users s' ! sj_ua_id j) \<noteq> su_uid (sch_users s ! sj_ua_id j))"
proof -
  let ?us = "take i (sch_users s) @ drop (Suc i) (sch_users s)"
  have "gw_scheduler_del_user uid s = Some (s\<lparr>sch_users := ?us\<rparr>)"
    using assms(2,4,5) by (auto simp: gw_scheduler_del_user_def)
  moreover have "length ?us = length (sch_users s) - 1" using assms(4,5) by simp
  moreover have "?us ! sj_ua_id j = sch_users s ! Suc (sj_ua_id j)" if "Suc (sj_ua_id j) < length (sch_users s)"
    using that assms(4) by (intro nth_remove) simp_all
  moreover have "su_uid (sch_users s ! Suc (sj_ua_id j)) \<noteq> su_uid (sch_users s ! sj_ua_id j)"
    if "Suc (sj_ua_id j) < length (sch_users s)"
    using assms(1) that by (auto simp: distinct_conv_nth)
  ultimately show ?thesis using assms(3) by (intro exI [of _ "s\<lparr>sch_users := ?us\<rparr>"]) auto
qed

text \<open>Tables with two users, where a job belongs to the second one.\<close>

definition demo_two :: gw_scheduler where
  "demo_two = gw_scheduler_job_add demo_senv 9 (-1) 1 GW_REASON_NONE 0 5 0
     (the (gw_scheduler_add_user demo_senv 5 0 0 ''bob'' demo_stab))"

text \<open>
  A job without a deadline is treated as one whose deadline has passed: the scheduler adds the
  start time to the deadline of zero, takes the sum for a deadline, and gives the job the highest
  deadline priority from its first round.
\<close>

lemma no_deadline_is_urgent:
  assumes "client_status e jid = Some (fixed, np, start, 0)" and "0 < start" and "start \<le> sc_now e'"
    and "find_first su_uid uid (sch_users s) = Some k"
  shows "\<exists>j j'. sch_jobs (do_job_schedule e jid aid uid reason s) = sch_jobs s @ [j] \<and> sj_jid j = jid \<and>
     job_dates e' c j = Some j' \<and> sj_deadline j' = 100"
  using assms by (simp add: do_job_schedule_def gw_scheduler_job_add_def upd_user_def new_sch_job_def job_dates_def Let_def)

section \<open>The configuration\<close>

definition conf_line :: "rounding \<Rightarrow> (gw_sch_var \<times> flt) + (gw_sch_var \<times> string \<times> int) \<Rightarrow> gw_sch_conf option \<Rightarrow> gw_sch_conf option" where
  "conf_line r l c =
     (case l of
        Inl (var, val) \<Rightarrow> Option.bind c (gw_sch_set_var r var val)
      | Inr (var, str, val) \<Rightarrow> map_option (gw_sch_set_svar var str val) c)"

lemma prio_ok_var: "prio_ok c \<Longrightarrow> gw_sch_set_var r var val c = Some c' \<Longrightarrow> prio_ok c'"
  by (cases var) (auto simp: gw_sch_set_var_def prio_ok_def split: if_splits)

text \<open>
  Whatever lines the configuration file has, every fixed priority stays in its range: that of
  users and groups, and that of hosts and information drivers, which is what the daemon hands out.
\<close>

lemma configured_priorities:
  assumes "fold (conf_line r) ls (Some (gw_sch_conf_init r mem)) = Some c"
  shows "prio_ok c \<and> GW_HOST_MIN_PRIORITY \<le> gw_sch_get_host_priority c host im \<and>
     gw_sch_get_host_priority c host im \<le> GW_HOST_MAX_PRIORITY"
proof -
  have "prio_ok c" if "fold (conf_line r) ls c0 = Some c" "\<And>d. c0 = Some d \<Longrightarrow> prio_ok d" for c0
    using that
  proof (induction ls arbitrary: c0)
    case (Cons l ls)
    have "prio_ok d" if "conf_line r l c0 = Some d" for d
      using that Cons.prems(2)
      by (cases c0) (auto simp: conf_line_def prio_ok_svar split: sum.splits intro: prio_ok_var)
    then show ?case using Cons.IH [of "conf_line r l c0"] Cons.prems(1) by simp
  qed simp
  then show ?thesis using assms prio_ok_init prio_ok_host by blast
qed

end
