(* ===== verification/SCH_Lines.thy ===== *)
theory SCH_Lines
  imports SCH_Limits DM_Effects
begin

text \<open>
  The two ends of the pipes between the daemon and the scheduler process: a whole input of the
  scheduler, read line by line, has the effect of the messages that the daemon sent; and a line
  that the scheduler prints, read by the listener of the dispatch manager
  (\<open>src/dm/gw_dm_listener.c\<close>), starts the dispatch of the job that the scheduler chose.
\<close>

section \<open>From the daemon to the scheduler\<close>

fun sch_run :: "(nat \<Rightarrow> sch_env) \<Rightarrow> scheduler_fn \<Rightarrow> nat \<Rightarrow> sched_msg list \<Rightarrow> gw_scheduler \<Rightarrow>
    (gw_scheduler \<times> sch_out list) option" where
  "sch_run es f n [] s = Some (s, [])"
| "sch_run es f n (m # ms) s = do {
     (s, out1) \<leftarrow> sch_apply (es n) f m s;
     (s, out2) \<leftarrow> sch_run es f (Suc n) ms s;
     Some (s, out1 @ out2) }"

text \<open>The line of \<open>gw_dm_mad_finalize\<close>.\<close>

definition finalize_line :: string where
  "finalize_line = ''FINALIZE - - - - -'' @ [NL]"

lemma join_no_NL: "\<forall>w\<in>set ws. NL \<notin> set w \<Longrightarrow> NL \<notin> set (join ws)"
  by (induction ws rule: join.induct) (auto simp: NL_def)

lemma is_word_no_NL: "is_word w \<Longrightarrow> NL \<notin> set w"
  by (auto simp: is_word_def NL_blank)

lemma line_cut:
  assumes "NL \<notin> set x"
  shows "takeWhile (\<lambda>c. c \<noteq> NL) (x @ NL # rest) = x" "dropWhile (\<lambda>c. c \<noteq> NL) (x @ NL # rest) = NL # rest"
  using assms by (auto simp: takeWhile_append dropWhile_append)

lemma sch_loop_line:
  assumes "NL \<notin> set x" and "read_fields f (x @ [NL]) = Some g"
  shows "sch_loop es sch err n c f (x @ NL # rest) s =
    do { (s, out, end) \<leftarrow> sch_action (es n) sch err g s;
         (if end then Some (s, out)
          else do { (s, out2) \<leftarrow> sch_loop es sch err (Suc n) NL g rest s; Some (s, out @ out2) }) }"
  by (simp only: sch_loop.simps [of es sch err n c f] line_cut [OF assms(1)] Let_def list.case assms(2)
      Option.bind.simps)

lemma finalize_fields: "length f = 6 \<Longrightarrow>
    read_fields f finalize_line = Some [''FINALIZE'', ''-'', ''-'', ''-'', ''-'', ''-'']"
proof -
  assume f: "length f = 6"
  let ?ws = "[''FINALIZE'', ''-'', ''-'', ''-'', ''-'', ''-'']"
  have l: "finalize_line = join ?ws @ [NL]" by (simp add: finalize_line_def)
  have "scan_line finalize_line = ?ws"
    unfolding l by (rule scan_line_join) (simp_all add: is_word_def is_blank_def)
  moreover have "length finalize_line = 19" by (simp add: finalize_line_def)
  ultimately show ?thesis
    using f by (simp add: read_fields_def Let_def GW_SCHED_MSG_WIDTH_def GW_SCHED_FIELD_WIDTH_def)
qed

definition msg_ok :: "sched_msg \<Rightarrow> bool" where
  "msg_ok m \<longleftrightarrow> msg_named m \<and> msg_fits m"

lemma sch_loop_run:
  "\<forall>m\<in>set ms. msg_ok m \<Longrightarrow> length f = 6 \<Longrightarrow>
     sch_loop es sch err n c f (concat (map msg_line ms) @ finalize_line) s =
     map_option (\<lambda>(s, out). (s, out @ [OUT_FINALIZE])) (sch_run es sch n ms s)"
proof (induction ms arbitrary: f n c s)
  case Nil
  have x: "finalize_line = ''FINALIZE - - - - -'' @ NL # []" by (simp add: finalize_line_def)
  have "sch_loop es sch err n c f finalize_line s = Some (s, [OUT_FINALIZE])"
    using finalize_fields [OF Nil(2)] unfolding x
    by (subst sch_loop_line [where g = "[''FINALIZE'', ''-'', ''-'', ''-'', ''-'', ''-'']"])
       (simp_all add: NL_def sch_action_def)
  then show ?case by simp
next
  case (Cons m ms)
  have m: "msg_named m" "msg_fits m" using Cons.prems by (simp_all add: msg_ok_def)
  have nl: "NL \<notin> set (join (msg_words m))"
    using msg_words_word [OF m(1)] is_word_no_NL by (intro join_no_NL) blast
  have l: "concat (map msg_line (m # ms)) @ finalize_line =
      join (msg_words m) @ NL # (concat (map msg_line ms) @ finalize_line)" by (simp add: msg_line_def)
  have r: "read_fields f (join (msg_words m) @ [NL]) = Some (msg_words m)"
    using read_fields_msg [OF m Cons.prems(2)] by (simp add: msg_line_def)
  have IH: "sch_loop es sch err (Suc n) NL (msg_words m) (concat (map msg_line ms) @ finalize_line) t =
      map_option (\<lambda>(s, out). (s, out @ [OUT_FINALIZE])) (sch_run es sch (Suc n) ms t)" for t
    using Cons.IH Cons.prems msg_words_length by simp
  show ?case
    unfolding l sch_loop_line [OF nl r] action_of_words IH
    by (cases "sch_apply (es n) sch m s")
       (auto simp: map_option_bind bind_map_option o_def case_prod_beta)
qed

section \<open>From the scheduler to the daemon\<close>

fun out_line :: "sch_out \<Rightarrow> string" where
  "out_line (OUT_JOB jid hid queue rank) =
     ''SCHEDULE_JOB '' @ dec jid @ '' SUCCESS '' @ dec hid @ '':'' @ queue @ '':'' @ dec rank @ [NL]"
| "out_line (OUT_FAILED jid) = ''SCHEDULE_JOB '' @ dec jid @ '' FAILED reschedule'' @ [NL]"
| "out_line OUT_END = ''SCHEDULE_END - SUCCESS -'' @ [NL]"
| "out_line OUT_INIT = ''INIT - SUCCESS -'' @ [NL]"
| "out_line (OUT_INIT_FAILURE error_str) = ''INIT - FAILURE '' @ error_str @ [NL]"
| "out_line OUT_FINALIZE = ''FINALIZE - SUCCESS -''"

definition GW_DM_MAX_ACTION :: nat where "GW_DM_MAX_ACTION = 20"
definition GW_DM_MAX_ID :: nat where "GW_DM_MAX_ID = 5"
definition GW_DM_MAX_RESULT :: nat where "GW_DM_MAX_RESULT = 10"
definition GW_DM_MAX_INFO :: nat where "GW_DM_MAX_INFO = 1024"

text \<open>
  The conversions \<open>%20s %5s %10s %1024[^\n]\<close>. The buffers are as long as the widths, so a field that fills its
  width writes the end of the string behind its buffer, which is undefined (\<open>None\<close>). The buffers of the first
  three keep their contents when the line is too short; \<open>info\<close> is emptied before.
\<close>

definition scan_field :: "nat \<Rightarrow> string \<Rightarrow> (string \<times> string) option" where
  "scan_field w s =
     (let t = dropWhile is_blank s; f = takeWhile (\<lambda>c. \<not> is_blank c) t in
      if length f < w then Some (f, drop (length f) t) else None)"

definition scan_rest :: "nat \<Rightarrow> string \<Rightarrow> string option" where
  "scan_rest w s = (let f = takeWhile (\<lambda>c. c \<noteq> NL) (dropWhile is_blank s) in if length f < w then Some f else None)"

definition listener_scan :: "string \<times> string \<times> string \<Rightarrow> string \<Rightarrow> sched_line option" where
  "listener_scan old str =
     (case old of (a0, i0, r0) \<Rightarrow> do {
        (a, s1) \<leftarrow> scan_field GW_DM_MAX_ACTION str;
        (if a = [] then Some (LINE a0 i0 r0 [])
         else do {
           (i, s2) \<leftarrow> scan_field GW_DM_MAX_ID s1;
           (if i = [] then Some (LINE a i0 r0 [])
            else do {
              (r, s3) \<leftarrow> scan_field GW_DM_MAX_RESULT s2;
              (if r = [] then Some (LINE a i r0 [])
               else map_option (LINE a i r) (scan_rest GW_DM_MAX_INFO s3)) }) }) })"

lemma scan_field_word:
  assumes "is_word w" and "is_blank c" and "dropWhile is_blank pre = []"
  shows "scan_field n (pre @ w @ c # s) = (if length w < n then Some (w, c # s) else None)"
proof -
  have "dropWhile is_blank (pre @ w @ c # s) = w @ c # s"
    using assms(3) dropWhile_word [OF assms(1), of "c # s"] by (simp add: dropWhile_append)
  then show ?thesis using word_split [OF assms(1,2)] by (simp add: scan_field_def Let_def)
qed

lemma schedule_job_words: "is_word ''SCHEDULE_JOB''" "is_word ''SUCCESS''" "is_blank (CHR '' '')"
  by (simp_all add: is_word_def is_blank_def)

definition resource :: "int \<Rightarrow> string \<Rightarrow> int \<Rightarrow> string" where
  "resource hid queue rank = dec hid @ '':'' @ queue @ '':'' @ dec rank"

lemma word_append: "is_word a \<Longrightarrow> is_word b \<Longrightarrow> is_word (a @ b)"
  by (auto simp: is_word_def)

lemma resource_word: "is_word queue \<Longrightarrow> is_word (resource hid queue rank)"
  unfolding resource_def by (intro word_append dec_word) (simp_all add: is_word_def is_blank_def)

lemma scan_dispatch:
  assumes "is_word queue"
  shows "listener_scan old (out_line (OUT_JOB jid hid queue rank)) =
     (if length (dec jid) < GW_DM_MAX_ID \<and> length (resource hid queue rank) < GW_DM_MAX_INFO
      then Some (LINE ''SCHEDULE_JOB'' (dec jid) ''SUCCESS'' (resource hid queue rank)) else None)"
proof -
  let ?r = "CHR '' '' # resource hid queue rank @ [NL]"
  let ?i = "CHR '' '' # ''SUCCESS'' @ ?r"
  note blank = schedule_job_words(3)
  have o: "out_line (OUT_JOB jid hid queue rank) = ''SCHEDULE_JOB'' @ CHR '' '' # dec jid @ ?i"
    by (simp add: resource_def)
  have a: "scan_field GW_DM_MAX_ACTION (''SCHEDULE_JOB'' @ CHR '' '' # dec jid @ ?i) = Some (''SCHEDULE_JOB'', CHR '' '' # dec jid @ ?i)"
    using scan_field_word [OF schedule_job_words(1) blank, of "[]"] by (simp add: GW_DM_MAX_ACTION_def)
  have i: "scan_field GW_DM_MAX_ID (CHR '' '' # dec jid @ ?i) =
      (if length (dec jid) < GW_DM_MAX_ID then Some (dec jid, ?i) else None)"
    using scan_field_word [OF dec_word blank, of "'' ''"] by (simp add: is_blank_def)
  have r: "scan_field GW_DM_MAX_RESULT ?i = Some (''SUCCESS'', ?r)"
    using scan_field_word [OF schedule_job_words(2) blank, of "'' ''"] by (simp add: GW_DM_MAX_RESULT_def is_blank_def)
  have "dropWhile is_blank ?r = resource hid queue rank @ [NL]"
    using dropWhile_word [OF resource_word [OF assms]] by (simp add: is_blank_def)
  moreover have "takeWhile (\<lambda>c. c \<noteq> NL) (resource hid queue rank @ [NL]) = resource hid queue rank"
    using line_cut(1) [OF is_word_no_NL [OF resource_word [OF assms]]] .
  ultimately have f: "scan_rest GW_DM_MAX_INFO ?r =
      (if length (resource hid queue rank) < GW_DM_MAX_INFO then Some (resource hid queue rank) else None)"
    by (simp only: scan_rest_def Let_def)
  obtain a0 i0 r0 where old: "old = (a0, i0, r0)" by (cases old)
  show ?thesis
  proof (cases "length (dec jid) < GW_DM_MAX_ID")
    case True
    show ?thesis
      unfolding o listener_scan_def old
      by (simp only: prod.case a i r f Option.bind.bind_lunit list.distinct dec_not_Nil True if_True if_False simp_thms) simp
  next
    case False
    show ?thesis
      unfolding o listener_scan_def old by (simp only: prod.case a i Option.bind.bind_lunit list.distinct False if_False simp_thms) simp
  qed
qed

section \<open>Properties of the pipes\<close>

text \<open>
  C27: the scheduler process acts on a whole input of the daemon as the messages say: whatever
  messages are sent, with names that are words and lines that fit the buffers, the process ends with
  the tables and the output of applying them one after the other.
\<close>

theorem sch_loop_refines:
  assumes "\<forall>m\<in>set ms. msg_ok m" and "length f = 6"
  shows "sch_loop es scheduler err n c f (concat (map msg_line ms) @ finalize_line) s =
     map_option (\<lambda>(s, out). (s, out @ [OUT_FINALIZE])) (sch_run es scheduler n ms s)"
  by (rule sch_loop_run [OF assms])

theorem sch_loop_refines_witness:
  "\<forall>es scheduler s. sch_loop es scheduler None 0 NL (replicate 6 [])
       (msg_line (USER_ADD 1 0 0 ''ann'') @ msg_line (JOB_DEL 7) @ finalize_line) s =
     map_option (\<lambda>(s, out). (s, out @ [OUT_FINALIZE]))
       (sch_run es scheduler 0 [USER_ADD 1 0 0 ''ann'', JOB_DEL 7] s)"
  using sch_loop_refines [of "[USER_ADD 1 0 0 ''ann'', JOB_DEL 7]" "replicate 6 []" _ _ None 0 NL]
  by (simp add: msg_ok_def msg_named_def msg_fits_def msg_line_def is_word_def is_blank_def dec_def dec_nat.simps
      GW_SCHED_MSG_WIDTH_def GW_SCHED_FIELD_WIDTH_def)

text \<open>
  C28: what becomes of a dispatch that the scheduler prints. When the job identifier has at most four digits and the
  resource less than 1024 characters, the listener reads the line back and dispatches that job to that host
  and queue with that rank, for a queue name that is a word without colons; when one of them is longer, the listener
  writes behind a buffer.
\<close>

theorem dispatch_line_read:
  assumes "is_word queue" and "CHR '':'' \<notin> set queue"
  shows "map_option (\<lambda>l. gw_dm_listener_line e l s) (listener_scan old (out_line (OUT_JOB jid hid queue rank))) =
     (if length (dec jid) < GW_DM_MAX_ID \<and> length (resource hid queue rank) < GW_DM_MAX_INFO
      then Some (map_option fst (gw_dm_dispatch_job e jid hid (Some queue) rank s)) else None)"
proof -
  have "parse_resource (resource hid queue rank) = Some (hid, queue, rank)"
    unfolding resource_def by (rule parse_resource_printed) (use assms in \<open>simp_all add: is_word_def\<close>)
  then show ?thesis
    unfolding scan_dispatch [OF assms(1)] by (simp add: gw_dm_listener_line_def atoi_dec)
qed

theorem dispatch_line_read_witness:
  "\<forall>e s. map_option (\<lambda>l. gw_dm_listener_line e l s) (listener_scan ([], [], []) (out_line (OUT_JOB 42 3 ''short'' 17))) =
       Some (map_option fst (gw_dm_dispatch_job e 42 3 (Some ''short'') 17 s)) \<and>
     map_option (\<lambda>l. gw_dm_listener_line e l s) (listener_scan ([], [], []) (out_line (OUT_JOB 12345 3 ''short'' 17))) = None"
proof -
  have q: "is_word ''short''" "CHR '':'' \<notin> set ''short''" by (simp_all add: is_word_def is_blank_def)
  have n: "length (dec 42) = 2" "length (dec 12345) = 5" "length (resource 3 ''short'' 17) = 10"
    by (simp_all add: resource_def dec_def dec_nat.simps)
  show ?thesis
    using dispatch_line_read [OF q, of _ _ "([], [], [])" 42 3 17] dispatch_line_read [OF q, of _ _ "([], [], [])" 12345 3 17] n
    by (simp add: GW_DM_MAX_ID_def GW_DM_MAX_INFO_def)
qed

end
