(* ===== verification/TM_Url.thy ===== *)
theory TM_Url
  imports GW_Sys
begin

text \<open>
  The URLs of a transfer: the substitution of variables in a string of the template
  (\<open>gw_job_substitute\<close> of \<open>src/job/gw_job_template_var_parser.l\<close>) and the source and destination of a file
  in a prolog (\<open>src/tm/gw_tm_prolog.c\<close>) or an epilog (\<open>src/tm/gw_tm_epilog.c\<close>). \<open>None\<close> is undefined
  behaviour: a buffer that is too short, a NULL pointer that is followed.
\<close>

section \<open>Variables\<close>

text \<open>The search in the environment of the template; a NULL name is passed to \<open>strcmp\<close>.\<close>

fun jtp_var_env_search :: "(string option \<times> string option) list \<Rightarrow> string \<Rightarrow> string option option option" where
  "jtp_var_env_search [] name = Some None"
| "jtp_var_env_search ((var, val) # env) name =
     (case var of
        None \<Rightarrow> None
      | Some v \<Rightarrow> (if v = name then Some (Some val) else jtp_var_env_search env name))"

definition predefined_vars :: "string list" where
  "predefined_vars = [''ARRAY_ID'', ''JOB_ID'', ''TASK_ID'', ''TOTAL_TASKS'', ''ARCH'', ''PARAM'', ''MAX_PARAM'']"

text \<open>The value of a predefined variable. A NULL value is the empty string.\<close>

definition predefined_value :: "gwd \<Rightarrow> gw_job \<Rightarrow> string \<Rightarrow> string option" where
  "predefined_value s job name =
     (if name = ''ARRAY_ID'' then Some (dec (array_id job))
      else if name = ''JOB_ID'' then Some (dec (job_id job))
      else if name = ''TASK_ID'' then Some (dec (task_id job))
      else if name = ''TOTAL_TASKS'' then Some (dec (total_tasks job))
      else if name = ''ARCH''
      then (case history job of
              [] \<Rightarrow> None
            | h # _ \<Rightarrow> do {
                hid \<leftarrow> h_host h;
                ho \<leftarrow> get_host s hid;
                Some (case arch ho of None \<Rightarrow> [] | Some a \<Rightarrow> a) })
      else if name = ''PARAM''
      then Some (dec (if array_id job \<noteq> -1 then pstart job + pinc job * task_id job else 0))
      else Some (dec (if array_id job \<noteq> -1 then pstart job + pinc job * (total_tasks job - 1) else 0)))"

definition var_value :: "gwd \<Rightarrow> gw_job \<Rightarrow> string \<Rightarrow> string option" where
  "var_value s job name =
     (if name \<in> set predefined_vars then predefined_value s job name
      else (case jtp_var_env_search (environment (template job)) name of
              None \<Rightarrow> None
            | Some None \<Rightarrow> Some (''${'' @ name @ ''}'')
            | Some (Some val) \<Rightarrow> Some (case val of None \<Rightarrow> [] | Some v \<Rightarrow> v)))"

text \<open>A variable at the head of the input: its name and what follows it.\<close>

definition split_var :: "string \<Rightarrow> (string \<times> string) option" where
  "split_var s =
     (case s of
        c # d # r \<Rightarrow>
          (if c = CHR ''$'' \<and> d = CHR ''{'' \<and> CHR ''}'' \<in> set r
           then Some (takeWhile (\<lambda>c. c \<noteq> CHR ''}'') r, tl (dropWhile (\<lambda>c. c \<noteq> CHR ''}'') r)) else None)
      | _ \<Rightarrow> None)"

lemma split_var_length: "split_var s = Some (n, r) \<Longrightarrow> length r < length s"
proof -
  assume a: "split_var s = Some (n, r)"
  then obtain c d t where s: "s = c # d # t" "r = tl (dropWhile (\<lambda>c. c \<noteq> CHR ''}'') t)"
    by (auto simp: split_var_def split: list.splits if_splits)
  have "length (dropWhile (\<lambda>c. c \<noteq> CHR ''}'') t) \<le> length t" by (rule length_dropWhile_le)
  then show ?thesis using s by simp
qed

text \<open>
  The scanner. A line break is echoed to the output of the daemon by the default rule. To find the
  end of a name that is not predefined, the action searches for a brace backwards from the third character after
  the token; a brace among the second and third makes it overwrite the input. Such inputs are
  not modelled (\<open>None\<close>); the byte behind the end of the input, which it reads for a variable at the
  very end, is taken for no brace.
\<close>

definition brace_ahead :: "string \<Rightarrow> bool" where
  "brace_ahead rest \<longleftrightarrow> CHR ''}'' \<in> set (take 2 (drop 1 rest))"

function sub_loop :: "gwd \<Rightarrow> gw_job \<Rightarrow> string \<Rightarrow> string option" where
  "sub_loop s job input =
     (case split_var input of
        Some (name, rest) \<Rightarrow>
          (if name \<notin> set predefined_vars \<and> brace_ahead rest then None
           else do {
             v \<leftarrow> var_value s job name;
             w \<leftarrow> sub_loop s job rest;
             Some (v @ w) })
      | None \<Rightarrow>
          (case input of
             [] \<Rightarrow> Some []
           | c # cs \<Rightarrow> map_option (\<lambda>w. if c = NL then w else c # w) (sub_loop s job cs)))"
  by pat_completeness auto
termination
  by (relation "measure (\<lambda>(s, job, input). length input)") (auto dest: split_var_length)

declare sub_loop.simps [simp del]

text \<open>The result buffer has twice the length of the input.\<close>

definition gw_job_substitute :: "gwd \<Rightarrow> gw_job \<Rightarrow> string \<Rightarrow> string option" where
  "gw_job_substitute s job var = do {
     v \<leftarrow> sub_loop s job var;
     (if length v < 2 * length var then Some v else None) }"

section \<open>Source and destination of a file\<close>

definition contains :: "string \<Rightarrow> string \<Rightarrow> bool" where
  "contains sub s \<longleftrightarrow> list_ex (\<lambda>n. take (length sub) (drop n s) = sub) [0..<Suc (length s)]"

text \<open>What follows the last slash, if there is one.\<close>

definition base_name :: "string \<Rightarrow> string option" where
  "base_name s = (if CHR ''/'' \<in> set s then Some (rev (takeWhile (\<lambda>c. c \<noteq> CHR ''/'') (rev s))) else None)"

text \<open>A string printed into the buffer of 1024 characters, and one copied with \<open>strncpy\<close>.\<close>

definition url1024 :: "string \<Rightarrow> string" where
  "url1024 u = take 1023 u"

definition copy1024 :: "string \<Rightarrow> string option" where
  "copy1024 u = (if length u < 1024 then Some u else None)"

datatype url_result = URLS string string | URL_SKIP | URL_ERROR

definition two_urls :: "gwd \<Rightarrow> gw_job \<Rightarrow> string \<Rightarrow> string \<Rightarrow> url_result option" where
  "two_urls s job src dst = do {
     u \<leftarrow> gw_job_substitute s job src;
     v \<leftarrow> gw_job_substitute s job dst;
     Some (URLS u v) }"

definition gw_tm_prolog_build_urls :: "gwd \<Rightarrow> gw_job \<Rightarrow> string \<Rightarrow> string option \<Rightarrow> url_result option" where
  "gw_tm_prolog_build_urls s job src dst =
     (if src \<noteq> [] \<and> hd src = CHR ''/'' then Some URL_SKIP
      else case history job of
        [] \<Rightarrow> None
      | h # _ \<Rightarrow>
          (if contains ''gsiftp://'' src
           then (case (case dst of None \<Rightarrow> base_name src | Some d \<Rightarrow> Some d) of
                   None \<Rightarrow> Some URL_ERROR
                 | Some tmp \<Rightarrow> two_urls s job src (url1024 (rdir h @ tmp)))
           else if contains ''file://'' src
           then do {
             url \<leftarrow> copy1024 src;
             (case (case dst of None \<Rightarrow> base_name src | Some d \<Rightarrow> Some d) of
                None \<Rightarrow> Some URL_ERROR
              | Some tmp \<Rightarrow> two_urls s job url (url1024 (rdir h @ tmp))) }
           else two_urls s job (url1024 (''file://'' @ cstr (job_home (template job)) @ ''/'' @ src))
                  (url1024 (rdir h @ (case dst of None \<Rightarrow> src | Some d \<Rightarrow> d)))))"

text \<open>The remote directory that an epilog works on: the former host of a job that migrates.\<close>

definition epilog_rdir :: "gw_job \<Rightarrow> string option" where
  "epilog_rdir job =
     (case history job of
        [] \<Rightarrow> None
      | h # hs \<Rightarrow>
          (if job_state job = GW_JOB_STATE_MIGR_EPILOG
           then (case hs of [] \<Rightarrow> None | h' # _ \<Rightarrow> Some (rdir h')) else Some (rdir h)))"

definition gw_tm_epilog_build_urls :: "gwd \<Rightarrow> gw_job \<Rightarrow> string \<Rightarrow> string option \<Rightarrow> url_result option" where
  "gw_tm_epilog_build_urls s job src dst = do {
     rd \<leftarrow> epilog_rdir job;
     let src_buf = url1024 (rd @ src);
     let home = ''file://'' @ cstr (job_home (template job)) @ ''/'';
     (case dst of
        None \<Rightarrow> two_urls s job src_buf (url1024 (home @ src))
      | Some d \<Rightarrow>
          (if contains ''gsiftp://'' d then two_urls s job src_buf d
           else if contains ''file://'' d then do { d' \<leftarrow> copy1024 d; two_urls s job src_buf d' }
           else if d \<noteq> [] \<and> hd d = CHR ''/'' then two_urls s job src_buf (url1024 (''file://'' @ d))
           else two_urls s job src_buf (url1024 (home @ d)))) }"

section \<open>Properties of the substitution\<close>

lemma split_var_None: "CHR ''$'' \<notin> set s \<Longrightarrow> split_var s = None"
  by (auto simp: split_var_def split: list.splits)

lemma sub_loop_plain:
  "CHR ''$'' \<notin> set input \<Longrightarrow> NL \<notin> set input \<Longrightarrow> sub_loop s job input = Some input"
proof (induction input)
  case Nil
  then show ?case by (simp add: sub_loop.simps [of s job "[]"] split_var_None)
next
  case (Cons c cs)
  then have "c \<noteq> NL" by auto
  then show ?case using Cons by (simp add: sub_loop.simps [of s job "c # cs"] split_var_None)
qed

lemma substitute_plain:
  "input \<noteq> [] \<Longrightarrow> CHR ''$'' \<notin> set input \<Longrightarrow> NL \<notin> set input \<Longrightarrow> gw_job_substitute s job input = Some input"
  by (simp add: gw_job_substitute_def sub_loop_plain)

lemma split_var_var:
  "CHR ''}'' \<notin> set name \<Longrightarrow> split_var (CHR ''$'' # CHR ''{'' # name @ CHR ''}'' # rest) = Some (name, rest)"
  by (auto simp: split_var_def takeWhile_append dropWhile_append)

text \<open>A variable is replaced by its value, whatever comes before and after it.\<close>

lemma sub_loop_app:
  "CHR ''$'' \<notin> set pre \<Longrightarrow> NL \<notin> set pre \<Longrightarrow> sub_loop s job (pre @ input) = map_option (\<lambda>w. pre @ w) (sub_loop s job input)"
proof (induction pre)
  case Nil
  then show ?case by (simp add: option.map_ident)
next
  case (Cons c cs)
  have "split_var (c # cs @ input) = None" using Cons.prems(1) by (auto simp: split_var_def split: list.splits)
  moreover have "c \<noteq> NL" using Cons.prems(2) by auto
  ultimately show ?case
    using Cons by (simp add: sub_loop.simps [of s job "c # cs @ input"] option.map_comp o_def)
qed

lemma sub_loop_var:
  assumes "CHR ''}'' \<notin> set name" and "name \<in> set predefined_vars \<or> \<not> brace_ahead rest"
  shows "sub_loop s job (CHR ''$'' # CHR ''{'' # name @ CHR ''}'' # rest) =
     do { v \<leftarrow> var_value s job name; w \<leftarrow> sub_loop s job rest; Some (v @ w) }"
  using assms by (auto simp: sub_loop.simps [of s job "CHR ''$'' # _"] split_var_var)

end
