(* ===== verification/TM_Manager.thy ===== *)
theory TM_Manager
  imports TM_Url
begin

text \<open>
  The transfer manager (\<open>src/tm\<close>): the actions that the dispatch manager triggers on it
  (\<open>gw_tm_actions.c\<close>), the start of the copies of a prolog, an epilog or a checkpoint, and the answers of
  a transfer driver (\<open>gw_tm_listener.c\<close>). The parts that work on one job take the job and return it
  with the requests written to the driver; at the end of a transfer they also return the action
  triggered on the dispatch manager. \<open>None\<close> is undefined behaviour: an index outside the list of
  files, URLs that were not built, a NULL that is followed.
\<close>

type_synonym tm_result = "(gw_job \<times> mad_request list) option"

section \<open>Starting the copies\<close>

text \<open>
  The loops over the files: those without a source are left out, the others are requested or, when
  their URLs cannot be built, done at once.
\<close>

fun stage_files ::
  "(string \<Rightarrow> string option \<Rightarrow> url_result option) \<Rightarrow> (gw_xfr \<Rightarrow> char option) \<Rightarrow> string \<Rightarrow> int \<Rightarrow> int \<Rightarrow>
     gw_xfr list \<Rightarrow> (gw_xfr list \<times> mad_request list) option" where
  "stage_files build mode mad jid i [] = Some ([], [])"
| "stage_files build mode mad jid i (f # fs) = do {
     (f', out) \<leftarrow>
       (case src_url f of
          None \<Rightarrow> Some (f, [])
        | Some src \<Rightarrow> do {
            r \<leftarrow> build src (dst_url f);
            Some (case r of
                    URLS u v \<Rightarrow> (f, [TM_MAD_CP mad jid i (mode f) u v])
                  | URL_SKIP \<Rightarrow> (f\<lparr>xfr_done := True, xfr_success := True\<rparr>, [])
                  | URL_ERROR \<Rightarrow> (f\<lparr>xfr_done := True, xfr_success := False\<rparr>, [])) });
     (fs', outs) \<leftarrow> stage_files build mode mad jid (i + 1) fs;
     Some (f' # fs', out @ outs) }"

text \<open>The loop over the first files that looks for one that was not copied.\<close>

definition required_failed :: "int \<Rightarrow> gw_xfr list \<Rightarrow> bool option" where
  "required_failed n fs =
     (if \<exists>f\<in>set (take (nat n) fs). src_url f \<noteq> None \<and> \<not> xfr_success f then Some True
      else if nat n \<le> length fs then Some False else None)"

section \<open>Prologs\<close>

text \<open>What follows when no file is left to copy.\<close>

definition prolog_end :: "gw_history \<Rightarrow> gw_job \<Rightarrow> tm_result" where
  "prolog_end h job = do {
     failed \<leftarrow> required_failed (failure_limit (xfrs job)) (xfr_list (xfrs job));
     Some (if failed
           then (job\<lparr>tm_state := GW_TM_STATE_PROLOG_FAILED\<rparr>, [TM_MAD_RMDIR (h_tm_mad h) (job_id job) (rdir h)])
           else (job, [TM_MAD_END (h_tm_mad h) (job_id job)])) }"

definition gw_tm_prolog_stage_in :: "gwd \<Rightarrow> gw_job \<Rightarrow> tm_result" where
  "gw_tm_prolog_stage_in s job =
     (case history job of
        [] \<Rightarrow> Some (job, [])
      | h # _ \<Rightarrow> do {
          (fs, out) \<leftarrow> stage_files (gw_tm_prolog_build_urls s job) xfr_mode (h_tm_mad h) (job_id job) 0
                        (xfr_list (xfrs job));
          let job = job\<lparr>xfrs := (xfrs job)\<lparr>xfr_list := fs\<rparr>\<rparr>;
          (if out = [] then prolog_end h job else Some (job, out)) })"

definition set_xfr :: "nat \<Rightarrow> (gw_xfr \<Rightarrow> gw_xfr) \<Rightarrow> gw_job \<Rightarrow> gw_job" where
  "set_xfr i f job = job\<lparr>xfrs := (xfrs job)\<lparr>xfr_list := (xfr_list (xfrs job))[i := f (xfr_list (xfrs job) ! i)]\<rparr>\<rparr>"

definition xfr_copied :: "gw_xfr \<Rightarrow> gw_xfr" where
  "xfr_copied f = f\<lparr>xfr_done := True, xfr_success := True, xfr_counter := -1\<rparr>"

definition xfr_gave_up :: "gw_xfr \<Rightarrow> gw_xfr" where
  "xfr_gave_up f = f\<lparr>xfr_done := True, xfr_success := False, xfr_counter := -1\<rparr>"

text \<open>
  A copy that failed: when the last try is over the alternate source is tried, otherwise the copy is
  scheduled for the timer.
\<close>

definition prolog_cp_failed :: "gwd \<Rightarrow> gw_history \<Rightarrow> nat \<Rightarrow> gw_job \<Rightarrow> tm_result" where
  "prolog_cp_failed s h i job =
     (let job = set_xfr i (\<lambda>f. f\<lparr>xfr_tries := xfr_tries f - 1\<rparr>) job;
          f = xfr_list (xfrs job) ! i; n = number_of_retries (template job) in
      if xfr_tries f = 0
      then case alt_src_url f of
        Some alt \<Rightarrow>
          (let job = set_xfr i (\<lambda>f. f\<lparr>xfr_tries := n, src_url := Some alt, alt_src_url := None, xfr_counter := -1\<rparr>) job in
           do {
             r \<leftarrow> gw_tm_prolog_build_urls s job alt (dst_url f);
             (case r of
                URLS u v \<Rightarrow> Some (job, [TM_MAD_CP (h_tm_mad h) (job_id job) (int i) (xfr_mode f) u v])
              | _ \<Rightarrow> None) })
      | None \<Rightarrow> Some (set_xfr i xfr_gave_up job, [])
      else if xfr_tries f > 0 then Some (set_xfr i (\<lambda>f. f\<lparr>xfr_counter := n - xfr_tries f\<rparr>) job, [])
      else Some (job, []))"

definition gw_tm_prolog_cp_cb :: "gwd \<Rightarrow> gw_job \<Rightarrow> int \<Rightarrow> bool \<Rightarrow> tm_result" where
  "gw_tm_prolog_cp_cb s job cp_xfr_id failure =
     (case history job of
        [] \<Rightarrow> Some (job, [])
      | h # _ \<Rightarrow>
          (if 0 \<le> cp_xfr_id \<and> nat cp_xfr_id < length (xfr_list (xfrs job))
           then do {
             (job, out) \<leftarrow> (if failure then prolog_cp_failed s h (nat cp_xfr_id) job
                            else Some (set_xfr (nat cp_xfr_id) xfr_copied job, []));
             (if gw_xfr_pending (xfrs job) = 0
              then do { (job, out') \<leftarrow> prolog_end h job; Some (job, out @ out') }
              else Some (job, out)) }
           else None))"

section \<open>Epilogs\<close>

text \<open>The removal of the remote directory, of the former host when the job migrates.\<close>

definition epilog_rmdir :: "gw_history \<Rightarrow> gw_job \<Rightarrow> mad_request list option" where
  "epilog_rmdir h job = map_option (\<lambda>rd. [TM_MAD_RMDIR (h_tm_mad h) (job_id job) rd]) (epilog_rdir job)"

text \<open>The directory of a failed epilog is kept for the user in the states \<open>EPILOG\<close> and \<open>EPILOG_STD\<close>.\<close>

definition epilog_failed :: "gw_history \<Rightarrow> gw_job \<Rightarrow> tm_result" where
  "epilog_failed h job0 =
     (let job = job0\<lparr>tm_state := GW_TM_STATE_EPILOG_FAILED\<rparr> in
      if job_state job = GW_JOB_STATE_EPILOG \<or> job_state job = GW_JOB_STATE_EPILOG_STD
      then Some (job, [TM_MAD_END (h_tm_mad h) (job_id job)])
      else map_option (\<lambda>out. (job, out)) (epilog_rmdir h job))"

definition epilog_copied :: "gw_history \<Rightarrow> gw_job \<Rightarrow> tm_result" where
  "epilog_copied h job =
     (if job_state job = GW_JOB_STATE_EPILOG_STD then Some (job, [TM_MAD_END (h_tm_mad h) (job_id job)])
      else map_option (\<lambda>out. (job, out)) (epilog_rmdir h job))"

definition gw_tm_epilog_stage_out :: "gwd \<Rightarrow> gw_job \<Rightarrow> tm_result" where
  "gw_tm_epilog_stage_out s job =
     (case history job of
        [] \<Rightarrow> Some (job, [])
      | h # _ \<Rightarrow>
          (if xfr_list (xfrs job) \<noteq> []
           then do {
             (fs, out) \<leftarrow> stage_files (gw_tm_epilog_build_urls s job) (\<lambda>f. Some (CHR ''-'')) (h_tm_mad h)
                           (job_id job) 0 (xfr_list (xfrs job));
             let job = job\<lparr>xfrs := (xfrs job)\<lparr>xfr_list := fs\<rparr>\<rparr>;
             (if gw_xfr_pending (xfrs job) = 0
              then do { (job, out') \<leftarrow> epilog_failed h job; Some (job, out @ out') }
              else Some (job, out)) }
           else epilog_copied h job))"

definition gw_tm_epilog_cp_cb :: "gw_job \<Rightarrow> int \<Rightarrow> bool \<Rightarrow> tm_result" where
  "gw_tm_epilog_cp_cb job cp_xfr_id failure =
     (case history job of
        [] \<Rightarrow> Some (job, [])
      | h # _ \<Rightarrow>
          (if 0 \<le> cp_xfr_id \<and> nat cp_xfr_id < length (xfr_list (xfrs job))
           then let i = nat cp_xfr_id;
               job = (if failure then set_xfr i (\<lambda>f. f\<lparr>xfr_tries := xfr_tries f - 1\<rparr>) job
                      else set_xfr i xfr_copied job);
               f = xfr_list (xfrs job) ! i in
             if failure \<and> xfr_tries f \<noteq> 0
             then Some (set_xfr i (\<lambda>f. f\<lparr>xfr_counter := number_of_retries (template job) - xfr_tries f\<rparr>) job, [])
             else let job = (if failure then set_xfr i xfr_gave_up job else job) in
               if gw_xfr_pending (xfrs job) = 0
               then do {
                 failed \<leftarrow> required_failed (failure_limit (xfrs job) + 1) (xfr_list (xfrs job));
                 (if failed then epilog_failed h job else epilog_copied h job) }
               else Some (job, [])
           else None))"

section \<open>Checkpoints\<close>

text \<open>The restart files; a NULL name is duplicated.\<close>

definition checkpoint_xfr :: "gw_job \<Rightarrow> string option \<Rightarrow> gw_xfr option" where
  "checkpoint_xfr job file =
     map_option (\<lambda>n. (xfr_blank (number_of_retries (template job)))
         \<lparr>src_url := Some n, dst_url := Some (take 511 (cstr (checkpoint_url (template job)) @ ''/'' @ n))\<rparr>) file"

definition checkpoint_end :: "gwd \<Rightarrow> gw_history \<Rightarrow> gw_job \<Rightarrow> tm_result" where
  "checkpoint_end s h job =
     (if job_state job = GW_JOB_STATE_STOP_EPILOG \<or> job_state job = GW_JOB_STATE_EPILOG_RESTART
      then gw_tm_epilog_stage_out s (job\<lparr>tm_state := GW_TM_STATE_EPILOG\<rparr>)
      else Some (job\<lparr>tm_state := GW_TM_STATE_INIT\<rparr>, [TM_MAD_END (h_tm_mad h) (job_id job)]))"

definition gw_tm_checkpoint_cp :: "gwd \<Rightarrow> gw_job \<Rightarrow> tm_result" where
  "gw_tm_checkpoint_cp s job =
     (case history job of
        [] \<Rightarrow> Some (job, [])
      | h # _ \<Rightarrow> do {
          fs \<leftarrow> those (map (checkpoint_xfr job) (restart_files (template job)));
          (fs, out) \<leftarrow> stage_files (gw_tm_epilog_build_urls s job) (\<lambda>f. Some (CHR ''-'')) (h_tm_mad h)
                        (job_id job) 0 fs;
          let job = job\<lparr>chk_xfrs := \<lparr>failure_limit = 0, xfr_list = fs\<rparr>\<rparr>;
          (if gw_xfr_pending (chk_xfrs job) = 0
           then do { (job, out') \<leftarrow> checkpoint_end s h job; Some (job, out @ out') }
           else Some (job, out)) })"

definition set_chk :: "nat \<Rightarrow> (gw_xfr \<Rightarrow> gw_xfr) \<Rightarrow> gw_job \<Rightarrow> gw_job" where
  "set_chk i f job = job\<lparr>chk_xfrs := (chk_xfrs job)
     \<lparr>xfr_list := (xfr_list (chk_xfrs job))[i := f (xfr_list (chk_xfrs job) ! i)]\<rparr>\<rparr>"

definition gw_tm_checkpoint_cp_cb :: "gwd \<Rightarrow> gw_job \<Rightarrow> int \<Rightarrow> bool \<Rightarrow> tm_result" where
  "gw_tm_checkpoint_cp_cb s job cp_xfr_id failure =
     (case history job of
        [] \<Rightarrow> Some (job, [])
      | h # _ \<Rightarrow>
          (if 0 \<le> cp_xfr_id \<and> nat cp_xfr_id < length (xfr_list (chk_xfrs job))
           then let i = nat cp_xfr_id;
               job = (if failure then set_chk i (\<lambda>f. f\<lparr>xfr_tries := xfr_tries f - 1\<rparr>) job
                      else set_chk i xfr_copied job);
               f = xfr_list (chk_xfrs job) ! i in
             if failure \<and> xfr_tries f \<noteq> 0
             then Some (set_chk i (\<lambda>f. f\<lparr>xfr_counter := number_of_retries (template job) - xfr_tries f\<rparr>) job, [])
             else let job = (if failure then set_chk i xfr_gave_up job else job) in
               if gw_xfr_pending (chk_xfrs job) = 0 then checkpoint_end s h job
               else Some (job, [])
           else None))"

section \<open>The actions of the dispatch manager\<close>

definition tm_put :: "int \<Rightarrow> gw_job \<times> mad_request list \<Rightarrow> gwd \<Rightarrow> gwd" where
  "tm_put jid r s = (put jid (fst r) s)\<lparr>mad_out := mad_out s @ snd r\<rparr>"

definition gw_tm_prolog :: "int option \<Rightarrow> gwd \<Rightarrow> gwd option" where
  "gw_tm_prolog = with_job no_job (\<lambda>jid job s.
     case history job of
       [] \<Rightarrow> Some s
     | h # _ \<Rightarrow>
         Some (tm_put jid
           (if tm_state job = GW_TM_STATE_INIT
            then (job\<lparr>tm_state := GW_TM_STATE_PROLOG\<rparr>, [TM_MAD_START (h_tm_mad h) (job_id job)])
            else (job\<lparr>tm_state := GW_TM_STATE_CHECKPOINT_CANCEL\<rparr>, [TM_MAD_END (h_tm_mad h) (job_id job)])) s))"

definition gw_tm_epilog :: "int option \<Rightarrow> gwd \<Rightarrow> gwd option" where
  "gw_tm_epilog = with_job no_job (\<lambda>jid job s.
     case history job of
       [] \<Rightarrow> Some s
     | h # _ \<Rightarrow>
         (if job_state job \<in> {GW_JOB_STATE_KILL_EPILOG, GW_JOB_STATE_MIGR_EPILOG, GW_JOB_STATE_EPILOG_FAIL,
               GW_JOB_STATE_EPILOG, GW_JOB_STATE_EPILOG_STD}
          then Some (tm_put jid
            (if tm_state job = GW_TM_STATE_INIT
             then (job\<lparr>tm_state := GW_TM_STATE_EPILOG\<rparr>, [TM_MAD_START (h_tm_mad h) (job_id job)])
             else (job\<lparr>tm_state := GW_TM_STATE_CHECKPOINT_CANCEL\<rparr>, [TM_MAD_END (h_tm_mad h) (job_id job)])) s)
          else if job_state job \<in> {GW_JOB_STATE_STOP_EPILOG, GW_JOB_STATE_EPILOG_RESTART}
            \<and> tm_state job = GW_TM_STATE_INIT
          then Some (tm_put jid
            (job\<lparr>tm_state := GW_TM_STATE_EPILOG\<rparr>, [TM_MAD_START (h_tm_mad h) (job_id job)]) s)
          else Some s))"

section \<open>The timer\<close>

text \<open>Counting down the files that wait for another try. The URLs are not tested.\<close>

fun retry_files ::
  "(string \<Rightarrow> string option \<Rightarrow> url_result option) \<Rightarrow> (gw_xfr \<Rightarrow> char option) \<Rightarrow> gw_history list \<Rightarrow> int \<Rightarrow> int \<Rightarrow>
     gw_xfr list \<Rightarrow> (gw_xfr list \<times> mad_request list) option" where
  "retry_files build mode hs jid i [] = Some ([], [])"
| "retry_files build mode hs jid i (f # fs) = do {
     (f', out) \<leftarrow>
       (if xfr_counter f = -1 then Some (f, [])
        else if xfr_counter f - 1 = 0
        then (case (src_url f, hs) of
                (Some src, h # _) \<Rightarrow> do {
                  r \<leftarrow> build src (dst_url f);
                  (case r of
                     URLS u v \<Rightarrow> Some (f\<lparr>xfr_counter := -1\<rparr>, [TM_MAD_CP (h_tm_mad h) jid i (mode f) u v])
                   | _ \<Rightarrow> None) }
              | _ \<Rightarrow> None)
        else Some (f\<lparr>xfr_counter := xfr_counter f - 1\<rparr>, []));
     (fs', outs) \<leftarrow> retry_files build mode hs jid (i + 1) fs;
     Some (f' # fs', out @ outs) }"

definition timer_job :: "int \<Rightarrow> gwd \<Rightarrow> gw_job \<Rightarrow> tm_result" where
  "timer_job t s job =
     (if checkpoint_interval (template job) > 0 \<and> job_state job = GW_JOB_STATE_WRAPPER
         \<and> tm_state job = GW_TM_STATE_INIT \<and> restart_files (template job) \<noteq> []
      then if t - last_checkpoint_time job \<ge> checkpoint_interval (template job)
        then case history job of
          [] \<Rightarrow> Some (job, [])
        | h # _ \<Rightarrow> Some (job\<lparr>last_checkpoint_time := t, tm_state := GW_TM_STATE_CHECKPOINT\<rparr>,
                        [TM_MAD_START (h_tm_mad h) (job_id job)])
        else Some (job, [])
      else if tm_state job = GW_TM_STATE_PROLOG
      then do {
        (fs, out) \<leftarrow> retry_files (gw_tm_prolog_build_urls s job) xfr_mode (history job) (job_id job) 0 (xfr_list (xfrs job));
        Some (job\<lparr>xfrs := (xfrs job)\<lparr>xfr_list := fs\<rparr>\<rparr>, out) }
      else if tm_state job = GW_TM_STATE_EPILOG
      then do {
        (fs, out) \<leftarrow> retry_files (gw_tm_epilog_build_urls s job) (\<lambda>f. Some (CHR ''-'')) (history job) (job_id job) 0
                      (xfr_list (xfrs job));
        Some (job\<lparr>xfrs := (xfrs job)\<lparr>xfr_list := fs\<rparr>\<rparr>, out) }
      else if tm_state job = GW_TM_STATE_CHECKPOINT
      then do {
        (fs, out) \<leftarrow> retry_files (gw_tm_epilog_build_urls s job) (\<lambda>f. Some (CHR ''-'')) (history job) (job_id job) 0
                      (xfr_list (chk_xfrs job));
        Some (job\<lparr>chk_xfrs := (chk_xfrs job)\<lparr>xfr_list := fs\<rparr>\<rparr>, out) }
      else Some (job, []))"

fun timer_jobs :: "int \<Rightarrow> int list \<Rightarrow> gwd \<Rightarrow> gwd option" where
  "timer_jobs t [] s = Some s"
| "timer_jobs t (i # is') s =
     (case get_job s i of
        None \<Rightarrow> timer_jobs t is' s
      | Some job \<Rightarrow> do {
          r \<leftarrow> timer_job t s job;
          timer_jobs t is' (tm_put i r s) })"

definition gw_tm_timer :: "int \<Rightarrow> gwd \<Rightarrow> gwd option" where
  "gw_tm_timer t s = timer_jobs t (map int [0..<length (pool (gd_jobs s))]) s"

section \<open>The answers of a driver\<close>

type_synonym tm_answer_result = "(gw_job \<times> mad_request list \<times> dm_action option) option"

definition no_trigger :: "tm_result \<Rightarrow> tm_answer_result" where
  "no_trigger = map_option (\<lambda>(job, out). (job, out, None))"

definition gw_tm_start_action_cb :: "gwd \<Rightarrow> string \<Rightarrow> bool \<Rightarrow> gw_job \<Rightarrow> tm_answer_result" where
  "gw_tm_start_action_cb s mad failure job =
     (case tm_state job of
        GW_TM_STATE_PROLOG \<Rightarrow>
          (if failure then Some (job\<lparr>tm_state := GW_TM_STATE_INIT\<rparr>, [], Some DM_PROLOG_FAILED)
           else case history job of
             [] \<Rightarrow> None
           | h # _ \<Rightarrow> Some (job, [TM_MAD_RMDIR mad (job_id job) (rdir h)], None))
      | GW_TM_STATE_EPILOG \<Rightarrow>
          (if failure then Some (job\<lparr>tm_state := GW_TM_STATE_INIT\<rparr>, [], Some DM_EPILOG_FAILED)
           else no_trigger (gw_tm_epilog_stage_out s job))
      | GW_TM_STATE_CHECKPOINT \<Rightarrow>
          (if failure then Some (job\<lparr>tm_state := GW_TM_STATE_INIT\<rparr>, [], None)
           else no_trigger (gw_tm_checkpoint_cp s job))
      | _ \<Rightarrow> Some (job, [], None))"

definition gw_tm_rmdir_action_cb :: "string \<Rightarrow> gw_job \<Rightarrow> tm_answer_result" where
  "gw_tm_rmdir_action_cb mad job =
     (if tm_state job = GW_TM_STATE_PROLOG
      then (case history job of
              [] \<Rightarrow> None
            | h # _ \<Rightarrow> Some (job, [TM_MAD_MKDIR mad (job_id job) (rdir h)], None))
      else if tm_state job \<in> {GW_TM_STATE_EPILOG, GW_TM_STATE_EPILOG_FAILED, GW_TM_STATE_PROLOG_FAILED}
      then (case history job of
              [] \<Rightarrow> None
            | h # _ \<Rightarrow> Some (job, [TM_MAD_END (h_tm_mad h) (job_id job)], None))
      else Some (job, [], None))"

definition gw_tm_mkdir_action_cb :: "gwd \<Rightarrow> string \<Rightarrow> bool \<Rightarrow> gw_job \<Rightarrow> tm_answer_result" where
  "gw_tm_mkdir_action_cb s mad failure job =
     (if tm_state job = GW_TM_STATE_PROLOG
      then if failure
        then Some (job\<lparr>tm_state := GW_TM_STATE_PROLOG_FAILED\<rparr>, [TM_MAD_END mad (job_id job)], None)
        else no_trigger (gw_tm_prolog_stage_in s job)
      else Some (job, [], None))"

definition gw_tm_cp_action_cb :: "gwd \<Rightarrow> int \<Rightarrow> bool \<Rightarrow> gw_job \<Rightarrow> tm_answer_result" where
  "gw_tm_cp_action_cb s cp_xfr_id failure job =
     (case tm_state job of
        GW_TM_STATE_PROLOG \<Rightarrow> no_trigger (gw_tm_prolog_cp_cb s job cp_xfr_id failure)
      | GW_TM_STATE_EPILOG \<Rightarrow> no_trigger (gw_tm_epilog_cp_cb job cp_xfr_id failure)
      | GW_TM_STATE_CHECKPOINT \<Rightarrow> no_trigger (gw_tm_checkpoint_cp_cb s job cp_xfr_id failure)
      | _ \<Rightarrow> Some (job, [], None))"

text \<open>A failed END is logged with a format for a string that is not given, which is undefined.\<close>

definition gw_tm_end_action_cb :: "bool \<Rightarrow> gw_job \<Rightarrow> tm_answer_result" where
  "gw_tm_end_action_cb failure job =
     (if failure then None
      else case tm_state job of
        GW_TM_STATE_PROLOG \<Rightarrow> Some (job\<lparr>tm_state := GW_TM_STATE_INIT\<rparr>, [], Some DM_PROLOG_DONE)
      | GW_TM_STATE_PROLOG_FAILED \<Rightarrow> Some (job\<lparr>tm_state := GW_TM_STATE_INIT\<rparr>, [], Some DM_PROLOG_FAILED)
      | GW_TM_STATE_EPILOG \<Rightarrow> Some (job\<lparr>tm_state := GW_TM_STATE_INIT\<rparr>, [], Some DM_EPILOG_DONE)
      | GW_TM_STATE_EPILOG_FAILED \<Rightarrow> Some (job\<lparr>tm_state := GW_TM_STATE_INIT\<rparr>, [], Some DM_EPILOG_FAILED)
      | GW_TM_STATE_CHECKPOINT_CANCEL \<Rightarrow>
          (case history job of
             [] \<Rightarrow> None
           | h # _ \<Rightarrow> Some (job\<lparr>tm_state :=
                 if job_state job = GW_JOB_STATE_PROLOG \<or> job_state job = GW_JOB_STATE_MIGR_PROLOG
                 then GW_TM_STATE_PROLOG else GW_TM_STATE_EPILOG\<rparr>,
               [TM_MAD_START (h_tm_mad h) (job_id job)], None))
      | _ \<Rightarrow> Some (job, [], None))"

text \<open>A line: the driver it comes from, the action, the identifier of the file and the result.\<close>

definition tm_answer_cb :: "gwd \<Rightarrow> string \<Rightarrow> string \<Rightarrow> string \<Rightarrow> string \<Rightarrow> gw_job \<Rightarrow> tm_answer_result" where
  "tm_answer_cb s mad action s_cp_xfr_id result job =
     (let failure = (result = ''FAILURE'') in
      if tm_state job = GW_TM_STATE_HARD_KILL then Some (job, [], None)
      else if action = ''START'' then gw_tm_start_action_cb s mad failure job
      else if action = ''END'' then gw_tm_end_action_cb failure job
      else if action = ''MKDIR'' then gw_tm_mkdir_action_cb s mad failure job
      else if action = ''RMDIR'' then gw_tm_rmdir_action_cb mad job
      else if action = ''CP'' then gw_tm_cp_action_cb s (atoi s_cp_xfr_id) failure job
      else Some (job, [], None))"

definition tm_finish :: "int \<Rightarrow> gw_job \<times> mad_request list \<times> dm_action option \<Rightarrow> gwd \<Rightarrow> gwd" where
  "tm_finish jid r s =
     (case r of (job, out, a) \<Rightarrow>
        (let s' = tm_put jid (job, out) s in
         case a of None \<Rightarrow> s' | Some a \<Rightarrow> trigger_dm a (ARG_ID jid) s'))"

definition gw_tm_listener_line :: "string \<Rightarrow> string \<Rightarrow> string \<Rightarrow> string \<Rightarrow> string \<Rightarrow> gwd \<Rightarrow> gwd option" where
  "gw_tm_listener_line mad action s_job_id s_cp_xfr_id result s =
     (if s_job_id \<noteq> [] \<and> hd s_job_id = CHR ''-'' then Some s
      else case get_job s (atoi s_job_id) of
        None \<Rightarrow> Some s
      | Some job \<Rightarrow> do {
          r \<leftarrow> tm_answer_cb s mad action s_cp_xfr_id result job;
          Some (tm_finish (atoi s_job_id) r s) })"

end
