(* ===== verification/TM_Transfer.thy ===== *)
theory TM_Transfer
  imports TM_Manager
begin

text \<open>
  The transfers of one job. The copies of a prolog end after a bounded number of answers of the
  driver, and the verdict at the end is the right one. A message of the driver that belongs to an
  earlier transfer is not told apart: the end of a checkpoint is taken for the end of an
  epilog.
\<close>

section \<open>Updates of the list of files\<close>

lemma set_xfr_simps [simp]:
  "xfr_list (xfrs (set_xfr i f job)) = (xfr_list (xfrs job))[i := f (xfr_list (xfrs job) ! i)]"
  "failure_limit (xfrs (set_xfr i f job)) = failure_limit (xfrs job)"
  "history (set_xfr i f job) = history job" "template (set_xfr i f job) = template job"
  "tm_state (set_xfr i f job) = tm_state job" "job_id (set_xfr i f job) = job_id job"
  "job_state (set_xfr i f job) = job_state job"
  by (simp_all add: set_xfr_def)

definition waiting_xfr :: "gw_xfr \<Rightarrow> bool" where
  "waiting_xfr f \<longleftrightarrow> src_url f \<noteq> None \<and> \<not> xfr_done f"

lemma pending_waiting: "gw_xfr_pending x = 0 \<longleftrightarrow> (\<forall>f\<in>set (xfr_list x). \<not> waiting_xfr f)"
  by (auto simp: gw_xfr_pending_def waiting_xfr_def filter_empty_conv)

section \<open>How long the copies of a prolog take\<close>

text \<open>The number of answers that a file may still get: its tries, and those of its alternate source.\<close>

definition xfr_budget :: "int \<Rightarrow> gw_xfr \<Rightarrow> nat" where
  "xfr_budget n f =
     (if waiting_xfr f then nat (xfr_tries f) + (if alt_src_url f = None then 0 else nat n) else 0)"

definition prolog_budget :: "gw_job \<Rightarrow> nat" where
  "prolog_budget job = sum_list (map (xfr_budget (number_of_retries (template job))) (xfr_list (xfrs job)))"

text \<open>Every file that waits has a try left.\<close>

definition tries_ok :: "gw_job \<Rightarrow> bool" where
  "tries_ok job \<longleftrightarrow> (\<forall>f\<in>set (xfr_list (xfrs job)). waiting_xfr f \<longrightarrow> 0 < xfr_tries f)"

lemma sum_list_update_less:
  "i < length xs \<Longrightarrow> y < xs ! i \<Longrightarrow> sum_list (xs[i := y]) < (sum_list xs :: nat)"
proof (induction xs arbitrary: i)
  case (Cons x xs)
  then show ?case by (cases i) auto
qed simp

lemma prolog_end_keeps:
  assumes "prolog_end h job = Some (job', out)"
  shows "xfrs job' = xfrs job" "template job' = template job" "history job' = history job"
  using assms by (auto simp: prolog_end_def bind_eq_Some_conv split: if_splits)

lemma cp_failed_effect:
  assumes "prolog_cp_failed s h i job = Some (job', out)" and i: "i < length (xfr_list (xfrs job))"
    and w: "waiting_xfr (xfr_list (xfrs job) ! i)" and t: "0 < xfr_tries (xfr_list (xfrs job) ! i)"
    and n: "0 < number_of_retries (template job)"
  obtains f' where "xfr_list (xfrs job') = (xfr_list (xfrs job))[i := f']"
    "xfr_budget (number_of_retries (template job)) f' < xfr_budget (number_of_retries (template job)) (xfr_list (xfrs job) ! i)"
    "waiting_xfr f' \<longrightarrow> 0 < xfr_tries f'" "template job' = template job" "history job' = history job"
    "tm_state job' = tm_state job" "failure_limit (xfrs job') = failure_limit (xfrs job)" "job_id job' = job_id job"
proof -
  let ?f = "xfr_list (xfrs job) ! i" and ?n = "number_of_retries (template job)"
  consider alt where "xfr_tries ?f = 1" "alt_src_url ?f = Some alt"
    | "xfr_tries ?f = 1" "alt_src_url ?f = None" | "xfr_tries ?f > 1" using t by (cases "xfr_tries ?f = 1") auto
  then show thesis
  proof cases
    case 1
    let ?g = "?f\<lparr>xfr_tries := ?n, src_url := Some alt, alt_src_url := None, xfr_counter := -1\<rparr>"
    have "job' = set_xfr i (\<lambda>f. f\<lparr>xfr_tries := ?n, src_url := Some alt, alt_src_url := None, xfr_counter := -1\<rparr>)
        (set_xfr i (\<lambda>f. f\<lparr>xfr_tries := xfr_tries f - 1\<rparr>) job)"
      using assms(1) 1 i by (auto simp: prolog_cp_failed_def Let_def bind_eq_Some_conv split: url_result.splits)
        (metis url_result.exhaust)
    then show thesis using that [of ?g] 1 i w n by (simp add: xfr_budget_def waiting_xfr_def)
  next
    case 2
    let ?g = "xfr_gave_up (?f\<lparr>xfr_tries := 0\<rparr>)"
    have "job' = set_xfr i xfr_gave_up (set_xfr i (\<lambda>f. f\<lparr>xfr_tries := xfr_tries f - 1\<rparr>) job)"
      using assms(1) 2 i by (simp add: prolog_cp_failed_def Let_def)
    then show thesis using that [of ?g] 2 i w by (simp add: xfr_budget_def waiting_xfr_def xfr_gave_up_def)
  next
    case 3
    let ?g = "?f\<lparr>xfr_tries := xfr_tries ?f - 1, xfr_counter := ?n - (xfr_tries ?f - 1)\<rparr>"
    have "job' = set_xfr i (\<lambda>f. f\<lparr>xfr_counter := ?n - xfr_tries f\<rparr>) (set_xfr i (\<lambda>f. f\<lparr>xfr_tries := xfr_tries f - 1\<rparr>) job)"
      using assms(1) 3 i by (simp add: prolog_cp_failed_def Let_def)
    then show thesis using that [of ?g] 3 i w by (simp add: xfr_budget_def waiting_xfr_def)
  qed
qed

text \<open>An answer for a file that waits.\<close>

definition prolog_answer :: "gwd \<Rightarrow> gw_job \<Rightarrow> gw_job \<times> mad_request list \<Rightarrow> bool" where
  "prolog_answer s job r \<longleftrightarrow>
     (\<exists>i failure. i < length (xfr_list (xfrs job)) \<and> waiting_xfr (xfr_list (xfrs job) ! i) \<and>
        gw_tm_prolog_cp_cb s job (int i) failure = Some r)"

lemma answer_effect:
  assumes a: "prolog_answer s job (job', out)" and h: "history job = h # hs"
    and ok: "tries_ok job" and n: "0 < number_of_retries (template job)"
  shows "prolog_budget job' < prolog_budget job" "tries_ok job'" "template job' = template job"
    "history job' = history job" "failure_limit (xfrs job') = failure_limit (xfrs job)"
    "length (xfr_list (xfrs job')) = length (xfr_list (xfrs job))"
    "\<exists>k o1. xfrs k = xfrs job' \<and> tm_state k = tm_state job \<and> job_id k = job_id job \<and>
       (if gw_xfr_pending (xfrs job') = 0 then \<exists>o2. prolog_end h k = Some (job', o2) \<and> out = o1 @ o2
        else job' = k \<and> out = o1)"
proof -
  let ?n = "number_of_retries (template job)"
  obtain i failure where i: "i < length (xfr_list (xfrs job))" "waiting_xfr (xfr_list (xfrs job) ! i)"
    and cb: "gw_tm_prolog_cp_cb s job (int i) failure = Some (job', out)"
    using a by (auto simp: prolog_answer_def)
  have t: "0 < xfr_tries (xfr_list (xfrs job) ! i)" using ok i by (auto simp: tries_ok_def)
  obtain k o1 where k: "(if failure then prolog_cp_failed s h i job else Some (set_xfr i xfr_copied job, [])) = Some (k, o1)"
    and e: "if gw_xfr_pending (xfrs k) = 0 then \<exists>o2. prolog_end h k = Some (job', o2) \<and> out = o1 @ o2
       else job' = k \<and> out = o1"
    using cb h i(1) by (auto simp: gw_tm_prolog_cp_cb_def bind_eq_Some_conv split: if_splits)
  have k2: "\<exists>f'. xfr_list (xfrs k) = (xfr_list (xfrs job))[i := f'] \<and>
      xfr_budget ?n f' < xfr_budget ?n (xfr_list (xfrs job) ! i) \<and>
      (waiting_xfr f' \<longrightarrow> 0 < xfr_tries f') \<and> template k = template job \<and> history k = history job \<and>
      tm_state k = tm_state job \<and> failure_limit (xfrs k) = failure_limit (xfrs job) \<and> job_id k = job_id job"
  proof (cases failure)
    case True
    then have p: "prolog_cp_failed s h i job = Some (k, o1)" using k by simp
    from cp_failed_effect [OF p i t n] show ?thesis by metis
  next
    case False
    then show ?thesis using k i t by (intro exI [of _ "xfr_copied (xfr_list (xfrs job) ! i)"])
      (auto simp: xfr_copied_def xfr_budget_def waiting_xfr_def)
  qed
  then obtain f' where f': "xfr_list (xfrs k) = (xfr_list (xfrs job))[i := f']"
    "xfr_budget ?n f' < xfr_budget ?n (xfr_list (xfrs job) ! i)" "waiting_xfr f' \<longrightarrow> 0 < xfr_tries f'"
    "template k = template job" "history k = history job" "tm_state k = tm_state job"
    "failure_limit (xfrs k) = failure_limit (xfrs job)" "job_id k = job_id job" by blast
  have keep: "xfrs job' = xfrs k" "template job' = template k" "history job' = history k"
    using e prolog_end_keeps [of h k job'] by (auto split: if_splits)
  show "prolog_budget job' < prolog_budget job"
    using sum_list_update_less [of i "map (xfr_budget ?n) (xfr_list (xfrs job))" "xfr_budget ?n f'"] f'(1,2,4) i(1) keep
    by (simp add: prolog_budget_def map_update)
  show "tries_ok job'" using ok f'(1,3) keep by (auto simp: tries_ok_def dest: set_update_subset_insert [THEN subsetD])
  show "template job' = template job" "history job' = history job" "failure_limit (xfrs job') = failure_limit (xfrs job)"
    "length (xfr_list (xfrs job')) = length (xfr_list (xfrs job))"
    using f'(1,4,5,7) keep by simp_all
  show "\<exists>k o1. xfrs k = xfrs job' \<and> tm_state k = tm_state job \<and> job_id k = job_id job \<and>
       (if gw_xfr_pending (xfrs job') = 0 then \<exists>o2. prolog_end h k = Some (job', o2) \<and> out = o1 @ o2
        else job' = k \<and> out = o1)"
    using e f'(6,8) keep by (intro exI [of _ k] exI [of _ o1]) simp
qed

inductive prolog_answers :: "gwd \<Rightarrow> gw_job \<Rightarrow> nat \<Rightarrow> gw_job \<Rightarrow> mad_request list \<Rightarrow> bool" for s where
  one: "prolog_answer s job (job', out) \<Longrightarrow> prolog_answers s job 1 job' out"
| more_answers: "prolog_answer s job (job1, o1) \<Longrightarrow> 0 < gw_xfr_pending (xfrs job1) \<Longrightarrow>
    prolog_answers s job1 n job' out \<Longrightarrow> prolog_answers s job (Suc n) job' out"

lemma answers_effect:
  "prolog_answers s job n job' out \<Longrightarrow> history job = h # hs \<Longrightarrow> tries_ok job \<Longrightarrow>
     0 < number_of_retries (template job) \<Longrightarrow>
     n + prolog_budget job' \<le> prolog_budget job \<and> tries_ok job' \<and>
     failure_limit (xfrs job') = failure_limit (xfrs job) \<and>
     length (xfr_list (xfrs job')) = length (xfr_list (xfrs job)) \<and>
     (\<exists>k o1. xfrs k = xfrs job' \<and> tm_state k = tm_state job \<and>
       (if gw_xfr_pending (xfrs job') = 0 then \<exists>o2. prolog_end h k = Some (job', o2) \<and> out = o1 @ o2
        else job' = k \<and> out = o1))"
proof (induction rule: prolog_answers.induct)
  case (one job job' out)
  note e = answer_effect [OF one.hyps one.prems]
  have x: "\<exists>k o1. xfrs k = xfrs job' \<and> tm_state k = tm_state job \<and>
       (if gw_xfr_pending (xfrs job') = 0 then \<exists>o2. prolog_end h k = Some (job', o2) \<and> out = o1 @ o2
        else job' = k \<and> out = o1)" using e(7) by blast
  show ?case by (intro conjI x) (use e in simp_all)
next
  case (more_answers job job1 o1 n job' out)
  note e = answer_effect [OF more_answers.hyps(1) more_answers.prems]
  obtain k x where "xfrs k = xfrs job1" "tm_state k = tm_state job" "job1 = k"
    using e(7) more_answers.hyps(2) by auto
  then have t: "tm_state job1 = tm_state job" by simp
  have h: "history job1 = h # hs" "0 < number_of_retries (template job1)"
    using e(3,4) more_answers.prems(1,3) by simp_all
  note IH = more_answers.IH [OF h(1) e(2) h(2)]
  have x: "\<exists>k o1. xfrs k = xfrs job' \<and> tm_state k = tm_state job \<and>
       (if gw_xfr_pending (xfrs job') = 0 then \<exists>o2. prolog_end h k = Some (job', o2) \<and> out = o1 @ o2
        else job' = k \<and> out = o1)" using IH unfolding t by blast
  show ?case by (intro conjI x) (use IH e(1,5,6) in simp_all)
qed

lemma required_failed_iff:
  assumes "nat n \<le> length fs"
  shows "required_failed n fs = Some (\<exists>f\<in>set (take (nat n) fs). src_url f \<noteq> None \<and> \<not> xfr_success f)"
  using assms by (auto simp: required_failed_def)

text \<open>
  C29: the copies of a prolog end, with the right verdict. As long as the driver answers for files that
  wait, there are at most as many answers as tries are left, those of alternate sources included; and
  when the last file is done, the transfer is closed with success exactly when every required file was
  copied, and otherwise the remote directory is removed and the prolog fails.
\<close>

theorem prolog_copies_end:
  assumes run: "prolog_answers s job n job' out" and h: "history job = h # hs"
    and ok: "tries_ok job" and r: "0 < number_of_retries (template job)"
    and st: "tm_state job = GW_TM_STATE_PROLOG"
    and lim: "nat (failure_limit (xfrs job)) \<le> length (xfr_list (xfrs job))"
  shows "n \<le> prolog_budget job \<and>
     (gw_xfr_pending (xfrs job') = 0 \<longrightarrow>
        (if \<forall>f\<in>set (take (nat (failure_limit (xfrs job))) (xfr_list (xfrs job'))). src_url f \<noteq> None \<longrightarrow> xfr_success f
         then tm_state job' = GW_TM_STATE_PROLOG \<and> last out = TM_MAD_END (h_tm_mad h) (job_id job')
         else tm_state job' = GW_TM_STATE_PROLOG_FAILED \<and>
           last out = TM_MAD_RMDIR (h_tm_mad h) (job_id job') (rdir h))) \<and>
     (0 < gw_xfr_pending (xfrs job') \<longrightarrow> tm_state job' = GW_TM_STATE_PROLOG)"
proof -
  note e = answers_effect [OF run h ok r]
  obtain k o1 where k: "xfrs k = xfrs job'" "tm_state k = GW_TM_STATE_PROLOG"
    "if gw_xfr_pending (xfrs job') = 0 then \<exists>o2. prolog_end h k = Some (job', o2) \<and> out = o1 @ o2
      else job' = k \<and> out = o1" using e st by auto
  let ?n = "nat (failure_limit (xfrs job))"
  have rf: "required_failed (failure_limit (xfrs job')) (xfr_list (xfrs job')) =
      Some (\<exists>f\<in>set (take ?n (xfr_list (xfrs job'))). src_url f \<noteq> None \<and> \<not> xfr_success f)"
    using required_failed_iff lim e by simp
  have "if \<forall>f\<in>set (take ?n (xfr_list (xfrs job'))). src_url f \<noteq> None \<longrightarrow> xfr_success f
      then tm_state job' = GW_TM_STATE_PROLOG \<and> last out = TM_MAD_END (h_tm_mad h) (job_id job')
      else tm_state job' = GW_TM_STATE_PROLOG_FAILED \<and> last out = TM_MAD_RMDIR (h_tm_mad h) (job_id job') (rdir h)"
    if p0: "gw_xfr_pending (xfrs job') = 0"
  proof -
    obtain o2 where o2: "prolog_end h k = Some (job', o2)" "out = o1 @ o2" using k(3) p0 by auto
    let ?bad = "\<exists>f\<in>set (take ?n (xfr_list (xfrs job'))). src_url f \<noteq> None \<and> \<not> xfr_success f"
    let ?good = "\<forall>f\<in>set (take ?n (xfr_list (xfrs job'))). src_url f \<noteq> None \<longrightarrow> xfr_success f"
    have g: "?bad = (\<not> ?good)" by blast
    have p: "prolog_end h k = Some (if ?bad
        then (k\<lparr>tm_state := GW_TM_STATE_PROLOG_FAILED\<rparr>, [TM_MAD_RMDIR (h_tm_mad h) (job_id k) (rdir h)])
        else (k, [TM_MAD_END (h_tm_mad h) (job_id k)]))"
      unfolding prolog_end_def k(1) rf by simp
    show ?thesis
    proof (cases ?good)
      case True
      then have nb: "\<not> ?bad" by blast
      have "prolog_end h k = Some (k, [TM_MAD_END (h_tm_mad h) (job_id k)])"
        unfolding p if_not_P [OF nb] ..
      then show ?thesis using o2 k(2) True by auto
    next
      case False
      have "prolog_end h k = Some (k\<lparr>tm_state := GW_TM_STATE_PROLOG_FAILED\<rparr>, [TM_MAD_RMDIR (h_tm_mad h) (job_id k) (rdir h)])"
        unfolding p g if_P [OF False] ..
      then show ?thesis using o2 unfolding if_not_P [OF False] by auto
    qed
  qed
  then show ?thesis using e k by auto
qed

text \<open>A job with one input file to copy, for the witness.\<close>

definition demo_tm_job :: gw_job where
  "demo_tm_job = (gw_job_init 0 0)
     \<lparr>tm_state := GW_TM_STATE_PROLOG, template := zero_template\<lparr>number_of_retries := 2\<rparr>,
      xfrs := \<lparr>failure_limit = 1, xfr_list = [(xfr_blank 2)\<lparr>src_url := Some ''in.dat''\<rparr>]\<rparr>,
      history := [\<lparr>h_host = Some 0, h_rank = 0, stats = (\<lambda>_. 0), h_tm_mad = ''gridftp'', rdir = ''gsiftp://ursa/~/'',
        h_em_mad = ''ws'', em_rc = [], em_fork_rc = [], h_queue = None, h_tries = 0, failed_polls = 0,
        cancel_tries = 0, h_counter = 0, reason = GW_REASON_NONE\<rparr>]\<rparr>"

theorem prolog_copies_end_witness:
  "\<forall>s. \<exists>job'. prolog_answers s demo_tm_job 2 job' [TM_MAD_END ''gridftp'' 0] \<and>
     gw_xfr_pending (xfrs job') = 0 \<and> tm_state job' = GW_TM_STATE_PROLOG \<and> 2 \<le> prolog_budget demo_tm_job"
proof
  fix s
  let ?j1 = "set_xfr 0 (\<lambda>f. f\<lparr>xfr_counter := 2 - xfr_tries f\<rparr>) (set_xfr 0 (\<lambda>f. f\<lparr>xfr_tries := xfr_tries f - 1\<rparr>) demo_tm_job)"
  let ?j2 = "set_xfr 0 xfr_copied ?j1"
  have d: "history demo_tm_job \<noteq> []" "tries_ok demo_tm_job" "number_of_retries (template demo_tm_job) = 2"
    "tm_state demo_tm_job = GW_TM_STATE_PROLOG" "failure_limit (xfrs demo_tm_job) = 1"
    "length (xfr_list (xfrs demo_tm_job)) = 1" "job_id demo_tm_job = 0" "h_tm_mad (hd (history demo_tm_job)) = ''gridftp''"
    by (simp_all add: demo_tm_job_def gw_job_init_def tries_ok_def xfr_blank_def)
  have a1: "prolog_answer s demo_tm_job (?j1, [])" unfolding prolog_answer_def
    by (intro exI [of _ 0] exI [of _ True])
       (simp add: demo_tm_job_def gw_job_init_def waiting_xfr_def xfr_blank_def gw_tm_prolog_cp_cb_def
          prolog_cp_failed_def Let_def gw_xfr_pending_def)
  have a2: "prolog_answer s ?j1 (?j2, [TM_MAD_END ''gridftp'' 0])" unfolding prolog_answer_def
    by (intro exI [of _ 0] exI [of _ False])
       (simp add: demo_tm_job_def gw_job_init_def waiting_xfr_def xfr_blank_def gw_tm_prolog_cp_cb_def
          xfr_copied_def Let_def gw_xfr_pending_def prolog_end_def required_failed_def)
  have p: "0 < gw_xfr_pending (xfrs ?j1)" "gw_xfr_pending (xfrs ?j2) = 0"
    by (simp_all add: gw_xfr_pending_def demo_tm_job_def xfr_blank_def xfr_copied_def)
  have r: "prolog_answers s demo_tm_job 2 ?j2 [TM_MAD_END ''gridftp'' 0]"
    using prolog_answers.more_answers [OF a1 p(1) prolog_answers.one [OF a2]] by (simp add: numeral_2_eq_2)
  obtain h hs where h: "history demo_tm_job = h # hs" using d(1) by (cases "history demo_tm_job") auto
  have "2 \<le> prolog_budget demo_tm_job" "tm_state ?j2 = GW_TM_STATE_PROLOG"
    using prolog_copies_end [OF r h d(2)] d(3-6) by simp_all
  then show "\<exists>job'. prolog_answers s demo_tm_job 2 job' [TM_MAD_END ''gridftp'' 0] \<and>
     gw_xfr_pending (xfrs job') = 0 \<and> tm_state job' = GW_TM_STATE_PROLOG \<and> 2 \<le> prolog_budget demo_tm_job"
    using r p(2) by blast
qed

section \<open>A substitution that overruns its buffer\<close>

text \<open>
  The buffer for the result of a substitution has twice the length of the input: a variable of the
  environment whose value is longer than twice its own notation is written past the end of it.
\<close>

lemma substitute_overruns:
  assumes "jtp_var_env_search (environment (template job)) name = Some (Some (Some val))"
    and "CHR ''}'' \<notin> set name" and "name \<notin> set predefined_vars" and "2 * (length name + 3) \<le> length val"
  shows "sub_loop s job (''${'' @ name @ ''}'') = Some val \<and> gw_job_substitute s job (''${'' @ name @ ''}'') = None"
proof -
  have "sub_loop s job (CHR ''$'' # CHR ''{'' # name @ CHR ''}'' # []) = Some val"
    using assms(1-3) by (simp add: sub_loop_var brace_ahead_def var_value_def sub_loop_plain)
  then show ?thesis using assms(4) by (simp add: gw_job_substitute_def)
qed

end
