(* ===== verification/TM_Frame.thy ===== *)
theory TM_Frame
  imports DM_Safety
begin

text \<open>
  What the daemon leaves alone of the work of the transfer manager: no step of the dispatch manager,
  the execution manager, a client or the scheduler takes a request back, nor changes the transfer state of a job
  other than to the initial one.
\<close>

section \<open>The frame\<close>

text \<open>The states in which an epilog waits for the end of a checkpoint that is under way.\<close>

definition awaits_checkpoint :: "gw_job_state \<Rightarrow> bool" where
  "awaits_checkpoint st \<longleftrightarrow> st = GW_JOB_STATE_STOP_EPILOG \<or> st = GW_JOB_STATE_EPILOG_RESTART"

definition job_kept :: "gwd \<Rightarrow> gwd \<Rightarrow> int \<Rightarrow> gw_job \<Rightarrow> bool" where
  "job_kept s s' i k \<longleftrightarrow> tm_state k = GW_TM_STATE_INIT \<or>
     (\<exists>j. get_job s i = Some j \<and> tm_state k = tm_state j \<and>
        (awaits_checkpoint (job_state k) \<longrightarrow>
           awaits_checkpoint (job_state j) \<or> (TM_EPILOG, i) \<in> set (tm_am s')))"

definition tm_kept :: "gwd \<Rightarrow> gwd \<Rightarrow> bool" where
  "tm_kept s s' \<longleftrightarrow> (\<exists>xs. tm_am s' = tm_am s @ xs) \<and>
     (\<forall>i k. get_job s' i = Some k \<longrightarrow> job_kept s s' i k)"

lemma tm_kept_refl [intro]: "tm_kept s s"
  by (simp add: tm_kept_def job_kept_def)

lemma tm_kept_trans [trans]:
  assumes "tm_kept s1 s2" and "tm_kept s2 s3"
  shows "tm_kept s1 s3"
proof -
  have am: "\<exists>xs. tm_am s3 = tm_am s1 @ xs" "set (tm_am s2) \<subseteq> set (tm_am s3)"
    using assms by (auto simp: tm_kept_def)
  have "job_kept s1 s3 i k" if k: "get_job s3 i = Some k" for i k
  proof (cases "tm_state k = GW_TM_STATE_INIT")
    case False
    have "job_kept s2 s3 i k" using assms(2) k by (simp add: tm_kept_def)
    then obtain j where j: "get_job s2 i = Some j" "tm_state k = tm_state j"
        "awaits_checkpoint (job_state k) \<longrightarrow> awaits_checkpoint (job_state j) \<or> (TM_EPILOG, i) \<in> set (tm_am s3)"
      using False by (auto simp: job_kept_def)
    then have "job_kept s1 s2 i j" using assms(1) by (simp add: tm_kept_def)
    then show ?thesis using False j am(2) by (auto simp: job_kept_def)
  qed (simp add: job_kept_def)
  then show ?thesis using am(1) by (simp add: tm_kept_def)
qed

lemma tm_kept_same:
  "gd_jobs s' = gd_jobs s \<Longrightarrow> tm_am s' = tm_am s \<Longrightarrow> tm_kept s s'"
  by (auto simp: tm_kept_def job_kept_def get_job_def)

lemma tm_kept_fields:
  "gd_jobs s1 = gd_jobs s \<Longrightarrow> tm_am s1 = tm_am s \<Longrightarrow> gd_jobs s1' = gd_jobs s' \<Longrightarrow> tm_am s1' = tm_am s' \<Longrightarrow>
     tm_kept s1 s1' = tm_kept s s'"
  by (simp add: tm_kept_def job_kept_def get_job_def)

text \<open>The change of one job that the handlers make.\<close>

definition calm :: "gw_job \<Rightarrow> gw_job \<Rightarrow> bool" where
  "calm j k \<longleftrightarrow> tm_state k = GW_TM_STATE_INIT \<or>
     tm_state k = tm_state j \<and> (awaits_checkpoint (job_state k) \<longrightarrow> awaits_checkpoint (job_state j))"

lemma tm_kept_put:
  assumes "get_job s i = Some j" and "gd_jobs s' = put_job i k (gd_jobs s)" and "tm_am s' = tm_am s @ xs"
    and "calm j k \<or> tm_state k = tm_state j \<and> (TM_EPILOG, i) \<in> set xs"
  shows "tm_kept s s'"
proof -
  have "get_job s' x = (if x = i then Some k else get_job s x)" for x
    using view_put(1) [OF assms(1), of k x] by (simp add: get_job_def put_def assms(2))
  then show ?thesis using assms(1,3,4) by (auto simp: tm_kept_def job_kept_def calm_def)
qed

text \<open>The primitive operations that touch neither.\<close>

lemma host_op_kept:
  "host_op f p s = Some s' \<Longrightarrow> gd_jobs s' = gd_jobs s \<and> tm_am s' = tm_am s \<and> dm_am s' = dm_am s"
  by (auto simp: host_op_def send_def bind_eq_Some_conv)

lemma upd_kept:
  "upd_top f j = Some k \<Longrightarrow> tm_state k = tm_state j \<and> job_state k = job_state j"
  "upd_next f j = Some k \<Longrightarrow> tm_state k = tm_state j \<and> job_state k = job_state j"
  by (auto simp: upd_top_def upd_next_def split: list.splits)

lemma put_comp_jobs [simp]: "gd_jobs (put i k s) = put_job i k (gd_jobs s)"
  by (simp add: put_def)

lemma put_job_twice: "put_job i k (put_job i j p) = put_job i k p"
  by (simp add: put_job_def slot_put_def)

lemma trigger_tm_am [simp]: "tm_am (trigger_tm b i s) = tm_am s @ [(b, i)]"
  by (simp add: trigger_tm_def)


section \<open>The handlers of one job\<close>

definition keeps :: "gwd \<Rightarrow> gwd option \<Rightarrow> bool" where
  "keeps s r \<longleftrightarrow> (\<forall>s'. r = Some s' \<longrightarrow> tm_kept s s')"

lemma keeps_simps [simp]: "keeps s None" "keeps s (Some s') = tm_kept s s'"
  by (simp_all add: keeps_def)

lemma keepsD: "keeps s r \<Longrightarrow> r = Some s' \<Longrightarrow> tm_kept s s'"
  by (simp add: keeps_def)

lemma keeps_with_job:
  assumes "\<And>i. tm_kept s (missing i s)" and "\<And>i j. get_job s i = Some j \<Longrightarrow> keeps s (body i j s)"
  shows "keeps s (with_job missing body a s)"
  using assms by (auto simp: with_job_def split: option.splits)

lemma kept_missing [simp]: "tm_kept s (no_job i s)" "tm_kept s (refuse a i s)"
  by (auto simp: no_job_def refuse_def intro: tm_kept_same)

lemma keeps_upd:
  "(\<And>k. tm_state k = tm_state j \<Longrightarrow> job_state k = job_state j \<Longrightarrow> keeps s (g k)) \<Longrightarrow> keeps s (upd_top f j \<bind> g)"
  "(\<And>k. tm_state k = tm_state j \<Longrightarrow> job_state k = job_state j \<Longrightarrow> keeps s (g k)) \<Longrightarrow> keeps s (upd_next f j \<bind> g)"
  by (auto simp: upd_top_def upd_next_def split: list.splits)

lemma keeps_host:
  "(\<And>s2. gd_jobs s2 = gd_jobs s1 \<Longrightarrow> tm_am s2 = tm_am s1 \<Longrightarrow> keeps s (g s2)) \<Longrightarrow> keeps s (host_op f p s1 \<bind> g)"
  by (cases "host_op f p s1") (auto dest: host_op_kept)

lemma keeps_host_last: "tm_kept s s1 \<Longrightarrow> keeps s (host_op f p s1)"
  unfolding keeps_def using host_op_kept tm_kept_same tm_kept_trans by blast

lemma keeps_bind: "(\<And>x. keeps s (g x)) \<Longrightarrow> keeps s (m \<bind> g)"
  by (cases m) auto

lemma keeps_cases:
  "(b \<Longrightarrow> keeps s x) \<Longrightarrow> (\<not> b \<Longrightarrow> keeps s y) \<Longrightarrow> keeps s (if b then x else y)"
  "keeps s x \<Longrightarrow> (\<And>v. keeps s (g v)) \<Longrightarrow> keeps s (case v of None \<Rightarrow> x | Some v \<Rightarrow> g v)"
  "(\<And>x y. q = (x, y) \<Longrightarrow> keeps s (h x y)) \<Longrightarrow> keeps s (case q of (x, y) \<Rightarrow> h x y)"
  "keeps s x \<Longrightarrow> (\<And>v vs. keeps s (l v vs)) \<Longrightarrow> keeps s (case w of [] \<Rightarrow> x | v # vs \<Rightarrow> l v vs)"
  by (auto split: option.split prod.split list.split)

lemma keeps_state:
  assumes "keeps s f1" and "keeps s f2" and "keeps s f3" and "keeps s f4" and "keeps s f5" and "keeps s f6"
    and "keeps s f7" and "keeps s f8" and "keeps s f9" and "keeps s f10" and "keeps s f11" and "keeps s f12"
    and "keeps s f13" and "keeps s f14" and "keeps s f15" and "keeps s f16" and "keeps s f17" and "keeps s f18"
    and "keeps s f19" and "keeps s f20" and "keeps s f21" 
  shows "keeps s (case_gw_job_state f1 f2 f3 f4 f5 f6 f7 f8 f9 f10 f11 f12 f13 f14 f15 f16 f17 f18 f19 f20 f21 st)"
  using assms by (cases st) simp_all

lemma kept_state:
  assumes "tm_kept s f1" and "tm_kept s f2" and "tm_kept s f3" and "tm_kept s f4" and "tm_kept s f5" and "tm_kept s f6"
    and "tm_kept s f7" and "tm_kept s f8" and "tm_kept s f9" and "tm_kept s f10" and "tm_kept s f11" and "tm_kept s f12"
    and "tm_kept s f13" and "tm_kept s f14" and "tm_kept s f15" and "tm_kept s f16" and "tm_kept s f17" and "tm_kept s f18"
    and "tm_kept s f19" and "tm_kept s f20" and "tm_kept s f21" 
  shows "tm_kept s (case_gw_job_state f1 f2 f3 f4 f5 f6 f7 f8 f9 f10 f11 f12 f13 f14 f15 f16 f17 f18 f19 f20 f21 st)"
  using assms by (cases st) simp_all

lemma bind_state:
  "case_gw_job_state f1 f2 f3 f4 f5 f6 f7 f8 f9 f10 f11 f12 f13 f14 f15 f16 f17 f18 f19 f20 f21 st \<bind> g =
     case_gw_job_state (f1 \<bind> g) (f2 \<bind> g) (f3 \<bind> g) (f4 \<bind> g) (f5 \<bind> g) (f6 \<bind> g) (f7 \<bind> g) (f8 \<bind> g) (f9 \<bind> g) (f10 \<bind> g) (f11 \<bind> g) (f12 \<bind> g) (f13 \<bind> g) (f14 \<bind> g) (f15 \<bind> g) (f16 \<bind> g) (f17 \<bind> g) (f18 \<bind> g) (f19 \<bind> g) (f20 \<bind> g) (f21 \<bind> g) st" for g :: "'a \<Rightarrow> 'b option"
  by (cases st) simp_all

lemma keeps_Some: "tm_kept s s' \<Longrightarrow> keeps s (Some s')"
  by simp

lemma kept_cases:
  "(b \<Longrightarrow> tm_kept s x) \<Longrightarrow> (\<not> b \<Longrightarrow> tm_kept s y) \<Longrightarrow> tm_kept s (if b then x else y)"
  "(\<And>x y. q = (x, y) \<Longrightarrow> tm_kept s (h x y)) \<Longrightarrow> tm_kept s (case q of (x, y) \<Rightarrow> h x y)"
  by (auto split: prod.split)

lemma keeps_enter:
  "(\<And>k s2. tm_state k = tm_state j \<Longrightarrow> job_state k = st \<Longrightarrow> gd_jobs s2 = gd_jobs s1 \<Longrightarrow> tm_am s2 = tm_am s1 \<Longrightarrow>
      keeps s (g (k, s2))) \<Longrightarrow> keeps s (enter_epilog e st j s1 \<bind> g)"
  by (auto simp: enter_epilog_def gw_job_set_state_def set_state_def upd_top_def split: list.splits)

lemma bind_SomeE: "m \<bind> g = Some k \<Longrightarrow> (\<And>x. g x = Some k \<Longrightarrow> thesis) \<Longrightarrow> thesis" for m :: "'a option"
  by (cases m) auto

lemma keeps_set_files:
  "(\<And>k. tm_state k = tm_state j \<Longrightarrow> job_state k = job_state j \<Longrightarrow> keeps s (g k)) \<Longrightarrow>
     keeps s (gw_dm_prolog_set_files hp j \<bind> g)"
proof (cases "gw_dm_prolog_set_files hp j")
  case (Some k)
  then obtain x where "k = j\<lparr>xfrs := x\<rparr>"
    unfolding gw_dm_prolog_set_files_def Let_def split_beta by (elim bind_SomeE) auto
  moreover assume "\<And>k. tm_state k = tm_state j \<Longrightarrow> job_state k = job_state j \<Longrightarrow> keeps s (g k)"
  ultimately show ?thesis using Some by simp
qed simp

lemma keeps_exit:
  "(\<And>k. tm_state k = tm_state j \<Longrightarrow> job_state k = job_state j \<Longrightarrow> keeps s (g k)) \<Longrightarrow>
     keeps s (epilog_exit e j \<bind> g)"
  by (cases "epilog_exit e j")
     (auto simp: epilog_exit_def bind_eq_Some_conv upd_top_def upd_next_def split: if_splits list.splits)

lemma keeps_parse:
  "(\<And>k rt. tm_state k = tm_state j \<Longrightarrow> job_state k = job_state j \<Longrightarrow> keeps s (g (k, rt))) \<Longrightarrow>
     keeps s (gw_dm_epilog_parse_wrapper_std e j \<bind> g)"
  by (cases "gw_dm_epilog_parse_wrapper_std e j")
     (auto simp: gw_dm_epilog_parse_wrapper_std_def bind_eq_Some_conv upd_top_def Let_def
        split: if_splits list.splits option.splits prod.splits)

lemmas keeps_rules = keeps_cases keeps_state keeps_upd keeps_host keeps_host_last keeps_enter keeps_set_files keeps_exit keeps_parse
  keeps_bind keeps_Some kept_cases kept_state

lemma bind_if: "(if b then m else n) \<bind> f = (if b then m \<bind> f else n \<bind> f)" for m :: "'a option"
  by simp

lemma bind_case: "(case v of None \<Rightarrow> m | Some x \<Rightarrow> g x) \<bind> f = (case v of None \<Rightarrow> m \<bind> f | Some x \<Rightarrow> g x \<bind> f)"
  for m :: "'a option"
  by (cases v) auto

lemma bind_list: "(case w of [] \<Rightarrow> m | x # xs \<Rightarrow> g x xs) \<bind> f =
    (case w of [] \<Rightarrow> m \<bind> f | x # xs \<Rightarrow> g x xs \<bind> f)" for m :: "'a option"
  by (cases w) auto

lemma jobs_if [simp]:
  "gd_jobs (if b then s else s') = (if b then gd_jobs s else gd_jobs s')"
  "tm_am (if b then s else s') = (if b then tm_am s else tm_am s')"
  by simp_all

lemma case_if: "(case (if b then p else q) of (x, y) \<Rightarrow> h x y) =
    (if b then case p of (x, y) \<Rightarrow> h x y else case q of (x, y) \<Rightarrow> h x y)"
  by simp

lemmas body_simps = case_if bind_list gw_job_set_state_def set_state_def put_job_twice Let_def bind_if bind_case bind_state

lemma calmI:
  "tm_state k = GW_TM_STATE_INIT \<Longrightarrow> calm j k"
  "tm_state k = tm_state j \<Longrightarrow> \<not> awaits_checkpoint (job_state k) \<Longrightarrow> calm j k"
  "tm_state k = tm_state j \<Longrightarrow> job_state k = job_state j \<Longrightarrow> calm j k"
  by (simp_all add: calm_def)

lemma tm_kept_body:
  assumes "get_job s i = Some j" and "gd_jobs s' = put_job i k (gd_jobs s)" and "tm_am s' = tm_am s" and "calm j k"
  shows "tm_kept s s'"
  using tm_kept_put [of s i j s' k "[]"] assms by simp

lemma tm_kept_wrap [simp]:
  "tm_kept s (trigger_dm a x s') = tm_kept s s'" "tm_kept s (trigger_em d i s') = tm_kept s s'"
  "tm_kept s (trigger_rm b x s') = tm_kept s s'" "tm_kept s (send m s') = tm_kept s s'"
  "tm_kept s (sends ms s') = tm_kept s s'" "tm_kept s (log_state e j s') = tm_kept s s'"
  "tm_kept s (user_op f s') = tm_kept s s'" "tm_kept s (drop_task aid tid s') = tm_kept s s'"
  by (rule tm_kept_fields; simp add: drop_task_def Let_def split: option.split prod.split)+

lemma tm_kept_trigger: "tm_kept s s' \<Longrightarrow> tm_kept s (trigger_tm b i s')"
proof -
  assume "tm_kept s s'"
  moreover have "tm_kept s' (trigger_tm b i s')" by (auto simp: tm_kept_def job_kept_def get_job_def)
  ultimately show ?thesis by (rule tm_kept_trans)
qed

lemma tm_kept_epilog:
  assumes "get_job s i = Some j" and "gd_jobs s' = gd_jobs s" and "tm_am s' = tm_am s" and "tm_state k = tm_state j"
  shows "tm_kept s (epilog_signal i k x s')"
  by (rule tm_kept_put [OF assms(1), where k = "k\<lparr>xfrs := x\<rparr>" and xs = "[(TM_EPILOG, i)]"])
     (simp_all add: epilog_signal_def assms)

lemma kept_free: "tm_kept s (gw_job_pool_free e i s)"
proof -
  have "get_job (gw_job_pool_free e i s) k = None \<or> get_job (gw_job_pool_free e i s) k = get_job s k" for k
    by (auto simp: gw_job_pool_free_def Let_def get_job_def gw_job_pool_get_def job_pool_release_def slot_get_def slot_put_def
        nth_list_update split: option.splits)
  moreover have "tm_am (gw_job_pool_free e i s) = tm_am s"
    by (auto simp: gw_job_pool_free_def Let_def split: option.split)
  ultimately show ?thesis unfolding tm_kept_def job_kept_def by (metis append_Nil2 option.distinct(1))
qed

lemma kept_dep_release: "tm_kept s (dep_release e i s)"
proof (cases "get_job s i")
  case (Some j)
  show ?thesis
  proof (cases "job_state j = GW_JOB_STATE_HOLD")
    case True
    with Some have "dep_release e i s = send (job_schedule_msg (j\<lparr>job_state := GW_JOB_STATE_PENDING\<rparr>) GW_REASON_NONE)
        (put i (j\<lparr>job_state := GW_JOB_STATE_PENDING\<rparr>) (log_state e (j\<lparr>job_state := GW_JOB_STATE_PENDING\<rparr>) s))"
      by (simp add: dep_release_def gw_job_set_state_def set_state_def)
    then show ?thesis by (auto intro!: tm_kept_body [OF Some] simp: calm_def awaits_checkpoint_def)
  qed (simp add: Some dep_release_def tm_kept_refl)
qed (simp add: dep_release_def tm_kept_refl)

lemma kept_dep_row: "tm_kept s (dep_check_row e i n s)"
proof -
  have "tm_kept s (s\<lparr>gd_deps := d\<rparr>)" for d by (rule tm_kept_same) simp_all
  then show ?thesis
    by (auto simp: dep_check_row_def Let_def split: option.split prod.split intro: tm_kept_trans kept_dep_release)
qed

lemma kept_fold: "(\<And>x s. tm_kept s (f x s)) \<Longrightarrow> tm_kept s (fold f xs s)"
proof (induction xs arbitrary: s)
  case (Cons x xs)
  have "tm_kept s (f x s)" using Cons.prems .
  also have "tm_kept (f x s) (fold f xs (f x s))" using Cons by blast
  finally show ?case by simp
qed auto

lemma kept_dep_check: "tm_kept s (gw_job_pool_dep_check e i s)"
  unfolding gw_job_pool_dep_check_def by (rule kept_fold) (rule kept_dep_row)

lemmas kept_after = tm_kept_trans [OF _ kept_free] tm_kept_trans [OF _ kept_dep_check]


lemmas body_unfolds = prolog_start_def prolog_signal_def withdraw_reschedule_def wrapper_leave_host_def
  user_dec_running_def report_failed_def cancel_wrapper_def note_reason_def retry_cancel_def
  kill_free_def idle_exit_time_def migr_finish_def

lemma keeps_start:
  "keeps s (gw_dm_prolog e a s)" "keeps s (gw_dm_migr_prolog e a s)" "keeps s (gw_dm_prolog_done_cb e a s)"
  "keeps s (gw_dm_prolog_failed_cb e a s)" "keeps s (gw_dm_pre_wrapper e a s)" "keeps s (gw_dm_wrapper e a s)"
  "keeps s (gw_dm_wrapper_done_cb e a s)" "keeps s (gw_dm_wrapper_failed_cb e a s)" "keeps s (gw_dm_migr_cancel e a s)"
  unfolding gw_dm_prolog_def gw_dm_migr_prolog_def gw_dm_prolog_done_cb_def gw_dm_prolog_failed_cb_def
    gw_dm_pre_wrapper_def gw_dm_wrapper_def gw_dm_wrapper_done_cb_def gw_dm_wrapper_failed_cb_def
    gw_dm_migr_cancel_def body_unfolds
  by (rule keeps_with_job, simp, (simp only: body_simps Option.bind_assoc Option.bind.bind_lunit prod.case)?,
      (intro keeps_rules; (simp only: tm_kept_wrap)?; (intro tm_kept_trigger kept_after)?;
       ((rule tm_kept_body tm_kept_epilog, assumption, simp add: put_job_twice, simp, simp add: calm_def awaits_checkpoint_def)
        | (simp add: tm_kept_refl; fail))))+

lemma keeps_epilogs:
  "keeps s (gw_dm_epilog_std e a s)" "keeps s (gw_dm_migr_epilog e a s)" "keeps s (gw_dm_stop_epilog e a s)"
  "keeps s (gw_dm_kill_epilog e a s)" "keeps s (gw_dm_epilog_fail e a s)" "keeps s (gw_dm_epilog e a s)"
  "keeps s (gw_dm_epilog_restart e a s)" "keeps s (gw_dm_epilog_done_cb e a s)" "keeps s (gw_dm_epilog_failed_cb e a s)"
  unfolding gw_dm_epilog_std_def gw_dm_migr_epilog_def gw_dm_stop_epilog_def gw_dm_kill_epilog_def
    gw_dm_epilog_fail_def gw_dm_epilog_def gw_dm_epilog_restart_def gw_dm_epilog_done_cb_def
    gw_dm_epilog_failed_cb_def body_unfolds
  by (rule keeps_with_job, simp, (simp only: body_simps Option.bind_assoc Option.bind.bind_lunit prod.case)?,
      (intro keeps_rules; (simp only: tm_kept_wrap)?; (intro tm_kept_trigger kept_after)?;
       ((rule tm_kept_body tm_kept_epilog, assumption, simp add: put_job_twice, simp, simp add: calm_def awaits_checkpoint_def)
        | (simp add: tm_kept_refl; fail))))+

lemma keeps_ends:
  "keeps s (gw_dm_failed e a s)" "keeps s (gw_dm_pending e a s)" "keeps s (gw_dm_stopped e a s)"
  "keeps s (gw_dm_zombie e a s)" "keeps s (gw_dm_kill e a s)"
  unfolding gw_dm_failed_def gw_dm_pending_def gw_dm_stopped_def gw_dm_zombie_def
    gw_dm_kill_def body_unfolds
  by (rule keeps_with_job, simp, (simp only: body_simps Option.bind_assoc Option.bind.bind_lunit prod.case)?,
      (intro keeps_rules; (simp only: tm_kept_wrap)?; (intro tm_kept_trigger kept_after)?;
       ((rule tm_kept_body tm_kept_epilog, assumption, simp add: put_job_twice, simp, simp add: calm_def awaits_checkpoint_def)
        | (simp add: tm_kept_refl; fail))))+

lemma keeps_requests:
  "keeps s (gw_dm_hold e a s)" "keeps s (gw_dm_release e a s)" "keeps s (gw_dm_stop e a s)"
  "keeps s (gw_dm_resume e a s)" "keeps s (gw_dm_reschedule e a s)" "keeps s (gw_dm_wait e a s)"
  unfolding gw_dm_hold_def gw_dm_release_def gw_dm_stop_def gw_dm_resume_def
    gw_dm_reschedule_def gw_dm_wait_def body_unfolds
  by (rule keeps_with_job, simp, (simp only: body_simps Option.bind_assoc Option.bind.bind_lunit prod.case)?,
      (intro keeps_rules; (simp only: tm_kept_wrap)?; (intro tm_kept_trigger kept_after)?;
       ((rule tm_kept_body tm_kept_epilog, assumption, simp add: put_job_twice, simp, simp add: calm_def awaits_checkpoint_def)
        | (simp add: tm_kept_refl; fail))))+

lemma keeps_reports:
  "keeps s (gw_em_pending e a s)" "keeps s (gw_em_active e a s)" "keeps s (gw_em_suspended e a s)"
  "keeps s (gw_em_done e a s)" "keeps s (gw_em_failed e a s)"
  unfolding gw_em_pending_def gw_em_active_def gw_em_suspended_def gw_em_done_def
    gw_em_failed_def body_unfolds
  by (rule keeps_with_job, simp, (simp only: body_simps Option.bind_assoc Option.bind.bind_lunit prod.case)?,
      (intro keeps_rules; (simp only: tm_kept_wrap)?; (intro tm_kept_trigger kept_after)?;
       ((rule tm_kept_body tm_kept_epilog, assumption, simp add: put_job_twice, simp, simp add: calm_def awaits_checkpoint_def)
        | (simp add: tm_kept_refl; fail))))+

section \<open>Submissions\<close>

text \<open>New jobs start in the initial transfer state.\<close>

lemma job_kept_same: "get_job s' i = get_job s i \<Longrightarrow> get_job s' i = Some k \<Longrightarrow> job_kept s s' i k"
  unfolding job_kept_def by metis

lemma kept_only_adds: "only_adds s s' \<Longrightarrow> tm_kept s s'"
proof -
  assume a: "only_adds s s'"
  have "job_kept s s' i k" if k: "get_job s' i = Some k" for i k
  proof -
    have "get_job s' i = get_job s i \<or> (\<exists>j. get_job s' i = Some j \<and> new_idle i j)"
      using a by (auto simp: only_adds_def)
    then show ?thesis using k job_kept_same [of s' i s k] by (auto simp: new_idle_def job_kept_def)
  qed
  moreover have "tm_am s' = tm_am s" using a by (simp add: only_adds_def)
  ultimately show ?thesis by (simp add: tm_kept_def)
qed

lemma kept_allocated:
  assumes "gw_job_pool_allocate t (gd_jobs s) = Some (jp, i)" and "gd_jobs s' = jp" and "tm_am s' = tm_am s"
  shows "tm_kept s s'"
proof -
  have "get_job s' x = get_job s x \<or> get_job s' x = Some (gw_job_init t x)" for x
    using job_allocate_new [OF assms(1)] assms(2) by (auto simp: get_job_def)
  moreover have "tm_state (gw_job_init t x) = GW_TM_STATE_INIT" for x by (simp add: gw_job_init_def Let_def)
  ultimately have "job_kept s s' x k" if "get_job s' x = Some k" for x k
    using that unfolding job_kept_def by (metis option.inject)
  then show ?thesis using assms(3) by (simp add: tm_kept_def)
qed

lemma kept_user_Inr: "submit_user e m s = Some (Inr (s1, x)) \<Longrightarrow> tm_kept s s1"
  by (erule submit_user_adds) (auto intro: kept_only_adds)

lemma kept_user_Inl: "submit_user e m s = Some (Inl s1) \<Longrightarrow> tm_kept s s1"
  by (erule submit_user_adds) (auto simp: answer_submit_def intro: kept_only_adds)

lemma keeps_jalloc: "keeps s (gw_dm_jalloc e m s)"
proof (cases "gw_dm_jalloc e m s")
  case (Some s')
  then obtain u where u: "submit_user e m s = Some u" by (auto simp: gw_dm_jalloc_def bind_eq_Some_conv)
  show ?thesis
  proof (cases u)
    case (Inl s1)
    then show ?thesis using u kept_user_Inl Some by (auto simp: gw_dm_jalloc_def)
  next
    case (Inr x)
    obtain s1 useradd uid where x: "x = (s1, useradd, uid)" by (cases x)
    have k1: "tm_kept s s1" using u Inr x kept_user_Inr by simp
    obtain jp i where al: "gw_job_pool_allocate (now e) (gd_jobs s1) = Some (jp, i)"
      using Some u Inr x by (auto simp: gw_dm_jalloc_def bind_eq_Some_conv)
    let ?s = "s1\<lparr>gd_jobs := jp\<rparr>"
    have k2: "tm_kept s ?s" by (rule tm_kept_trans [OF k1 kept_allocated [OF al]]) simp_all
    have "tm_kept ?s s'"
    proof (cases "i = -1 \<or> get_job ?s i = None")
      case True
      then have "\<exists>rc. s' = answer_submit m rc ?s" using Some u Inr x al
        by (cases "i = -1") (auto simp: gw_dm_jalloc_def Let_def)
      then show ?thesis by (auto simp: answer_submit_def)
    next
      case False
      then obtain j where j: "get_job ?s i = Some j" "i \<noteq> -1" by auto
      obtain k rc where f: "submit_fill e m j = (k, rc)" by fastforce
      have tk: "tm_state k = tm_state j" "job_state k = job_state j"
        using submit_fill_keeps(3,4) [of e m j] by (simp_all add: f)
      show ?thesis
      proof (cases "rc = -1")
        case True
        have "s' = answer_submit m GW_RC_FAILED (gw_job_pool_free e i (put i k ?s))"
          using Some u Inr x al j f True by (simp add: gw_dm_jalloc_def)
        moreover have "tm_kept ?s (put i k ?s)" by (rule tm_kept_body [OF j(1), where k = k]) (simp_all add: calm_def tk)
        ultimately show ?thesis by (simp add: answer_submit_def) (rule kept_after)
      next
        case no_error: False
        let ?k = "submit_attrs m uid (set_state (submit_state m) k)"
        have "gd_jobs s' = put_job i ?k (gd_jobs ?s)" "tm_am s' = tm_am ?s"
          using Some u Inr x al j f no_error by (auto simp: gw_dm_jalloc_def gw_job_set_state_def Let_def)
        then show ?thesis by (rule tm_kept_body [OF j(1)]) (simp add: calm_def submit_attrs_def)
      qed
    qed
    with k2 show ?thesis using Some tm_kept_trans by auto
  qed
qed simp

lemma keeps_aalloc_tasks: "aalloc_tasks e m aid uid ids s = Some s' \<Longrightarrow> tm_kept s s'"
proof (induction ids arbitrary: s)
  case (Cons i ids)
  then obtain j where j: "get_job s i = Some j" by (auto simp: bind_eq_Some_conv)
  let ?k = "(submit_attrs m uid (set_state (submit_state m) (fst (submit_fill e m j))))\<lparr>pstart := sm_pstart m, pinc := sm_pinc m\<rparr>"
  let ?t = "put i ?k (log_state e (set_state (submit_state m) (fst (submit_fill e m j))) s)"
  let ?s1 = "submit_deps m i (if sm_init_state m = GW_JOB_STATE_PENDING
      then send (JOB_SCHEDULE i aid uid GW_REASON_NONE) ?t else ?t)"
  have s1: "gd_jobs ?s1 = put_job i ?k (gd_jobs s)" "tm_am ?s1 = tm_am s" by simp_all
  have r: "aalloc_tasks e m aid uid ids ?s1 = Some s'"
    using Cons.prems j by (simp add: gw_job_set_state_def Let_def)
  have "tm_kept s ?s1" by (rule tm_kept_body [OF j s1]) (simp add: calm_def submit_attrs_def)
  also have "tm_kept ?s1 s'" using Cons.IH [OF r] .
  finally show ?case .
qed auto

lemma keeps_aalloc: "keeps s (gw_dm_aalloc e m s)"
proof (cases "gw_dm_aalloc e m s")
  case (Some s')
  then obtain u where u: "submit_user e m s = Some u" by (auto simp: gw_dm_aalloc_def bind_eq_Some_conv)
  show ?thesis
  proof (cases u)
    case (Inl s1)
    then show ?thesis using u kept_user_Inl Some by (auto simp: gw_dm_aalloc_def)
  next
    case (Inr x)
    obtain s1 useradd uid where x: "x = (s1, useradd, uid)" by (cases x)
    have k1: "tm_kept s s1" using u Inr x kept_user_Inr by simp
    obtain ap jp rc aid where al: "gw_array_pool_array_allocate (now e) (sm_number_of_tasks m) (gd_arrays s1) (gd_jobs s1)
        = Some (ap, jp, rc, aid)"
      using Some u Inr x by (auto simp: gw_dm_aalloc_def bind_eq_Some_conv)
    let ?s = "s1\<lparr>gd_arrays := ap, gd_jobs := jp\<rparr>"
    have "job_kept s1 ?s i k" if "get_job ?s i = Some k" for i k
      using array_allocate_new(2) [OF al, of i] that job_kept_same [of ?s i s1 k]
      by (auto simp: get_job_def job_kept_def new_idle_def)
    then have k2: "tm_kept s ?s" using k1 by (intro tm_kept_trans [OF k1]) (simp add: tm_kept_def)
    have "tm_kept ?s s'" using Some u Inr x al
      by (auto simp: gw_dm_aalloc_def bind_eq_Some_conv answer_submit_def Let_def
          intro: tm_kept_refl keeps_aalloc_tasks split: if_splits option.splits)
    with k2 show ?thesis using Some tm_kept_trans by auto
  qed
qed simp

section \<open>The periodic check and the scheduler\<close>

definition sends_only :: "gw_job \<Rightarrow> gwd \<Rightarrow> (gw_job \<times> gwd) option \<Rightarrow> bool" where
  "sends_only j s r \<longleftrightarrow> (\<forall>k s'. r = Some (k, s') \<longrightarrow>
     tm_state k = tm_state j \<and> job_state k = job_state j \<and> gd_jobs s' = gd_jobs s \<and> tm_am s' = tm_am s)"

lemma sends_suspension: "sends_only j s (gw_dm_check_job_suspension e j s)"
  by (cases "history j")
     (auto simp: sends_only_def gw_dm_check_job_suspension_def bind_eq_Some_conv hist_top_def upd_top_def split: if_splits)

lemma sends_rescheduling: "sends_only j s (gw_dm_check_job_rescheduling e j s)"
  by (cases "history j")
     (auto simp: sends_only_def gw_dm_check_job_rescheduling_def bind_eq_Some_conv upd_top_def split: if_splits)

lemma sends_check: "sends_only j s (gw_dm_check_job e j s)"
proof -
  have b: "sends_only j s (m \<bind> (\<lambda>(j, s). gw_dm_check_job_rescheduling e j s))" if "sends_only j s m" for m
    using that sends_rescheduling by (cases m) (auto simp: sends_only_def)
  show ?thesis using b [OF sends_suspension] by (simp add: gw_dm_check_job_def Let_def sends_only_def)
qed

lemma keeps_check_job:
  assumes "gw_dm_check_job e j s = Some (k, s')"
  shows "tm_state k = tm_state j" "job_state k = job_state j" "gd_jobs s' = gd_jobs s" "tm_am s' = tm_am s"
  using sends_check [of j s e] assms by (auto simp: sends_only_def)

lemma keeps_check_jobs: "check_jobs e is s = Some s' \<Longrightarrow> tm_kept s s'"
proof (induction "is" arbitrary: s)
  case (Cons i is')
  show ?case
  proof (cases "get_job s (int i)")
    case (Some j)
    with Cons.prems obtain k s1 where c: "gw_dm_check_job e j s = Some (k, s1)"
        "check_jobs e is' (put (int i) k s1) = Some s'"
      by (auto simp: bind_eq_Some_conv)
    have "tm_kept s (put (int i) k s1)"
      by (rule tm_kept_body [OF Some, where k = k]) (simp_all add: keeps_check_job [OF c(1)] calm_def)
    also have "tm_kept (put (int i) k s1) s'" using Cons.IH [OF c(2)] .
    finally show ?thesis .
  qed (use Cons in simp)
qed auto

lemma keeps_schedule: "keeps s (gw_dm_schedule e s)"
proof (cases "gw_dm_schedule e s")
  case (Some s')
  have "tm_kept s (s\<lparr>mark := m\<rparr>)" "tm_kept s (s\<lparr>mark := m, scheduling := True\<rparr>)" for m
    by (rule tm_kept_same, simp, simp)+
  moreover have "\<exists>m. s' = s\<lparr>mark := m\<rparr> \<or>
      (\<exists>s1 is. check_jobs e is (s\<lparr>mark := m, scheduling := True\<rparr>) = Some s1 \<and> s' = send SCHEDULE s1)"
    using Some unfolding gw_dm_schedule_def Let_def
    by (auto simp: bind_eq_Some_conv split: if_splits)
  ultimately have "tm_kept s s'" using keeps_check_jobs tm_kept_trans by (metis tm_kept_wrap(4))
  then show ?thesis using Some by simp
qed simp

lemma kept_uncheck: "tm_kept s (gw_dm_uncheck_job i s)"
proof (cases "get_job s i")
  case (Some j)
  then have "gw_dm_uncheck_job i s = s \<or>
      gw_dm_uncheck_job i s = send (JOB_DEL (job_id j)) (put i (note_reason GW_REASON_NONE (j\<lparr>reschedule := False\<rparr>)) s)"
    by (simp add: gw_dm_uncheck_job_def)
  then show ?thesis
    by (auto simp: note_reason_def calm_def intro: tm_kept_body [OF Some])
qed (auto simp: gw_dm_uncheck_job_def)

lemma keeps_dispatch: "gw_dm_dispatch_job e i hid q r s = Some (s', rc) \<Longrightarrow> tm_kept s s'"
proof -
  assume r: "gw_dm_dispatch_job e i hid q r s = Some (s', rc)"
  show ?thesis
  proof (cases "s' = s \<or> s' = gw_dm_uncheck_job i s \<or> (\<exists>j. get_job s i = Some j \<and> s' = gw_dm_uncheck_job (job_id j) s)")
    case True
    then show ?thesis using kept_uncheck by auto
  next
    case False
    then obtain j k where "get_job s i = Some j" "gd_jobs s' = put_job i k (gd_jobs s)" "tm_am s' = tm_am s"
        "tm_state k = tm_state j" "job_state k = job_state j"
      using r by (auto simp: gw_dm_dispatch_job_def dispatch_history_def host_inc_slots_def bind_eq_Some_conv Let_def
          dest!: host_op_kept split: option.splits if_splits prod.splits)
    then show ?thesis by (intro tm_kept_body [of s i j s' k]) (simp_all add: calm_def)
  qed
qed

lemma keeps_listener: "gw_dm_listener_line e l s = Some s' \<Longrightarrow> tm_kept s s'"
  by (auto simp: gw_dm_listener_line_def keeps_dispatch kept_uncheck intro: tm_kept_same
      split: sched_line.splits if_splits option.splits prod.splits)

section \<open>All steps\<close>

lemma keeps_handler: "a \<noteq> DM_KILL_HARD \<Longrightarrow> keeps s (dm_handler e a arg s)"
  using keeps_start keeps_epilogs keeps_ends keeps_requests keeps_schedule keeps_jalloc keeps_aalloc
  by (cases a) (auto simp: dm_handler_def split: am_arg.split)

lemma keeps_callback: "keeps s (em_callback r e a s)"
  by (cases r) (simp_all add: em_callback_def keeps_reports)

lemma kept_core: "gw_core s s' \<Longrightarrow> tm_kept s s'"
proof (erule gw_coreE, goal_cases)
  case (1 a arg rest e)
  have "tm_kept s (s\<lparr>dm_am := rest\<rparr>)" by (rule tm_kept_same) simp_all
  also have "tm_kept (s\<lparr>dm_am := rest\<rparr>) s'"
  proof -
    have "a \<noteq> DM_KILL_HARD" using 1 by (auto simp: action_ok_def)
    then show ?thesis using 1 keepsD [OF keeps_handler [of a _ e arg]] by (simp add: dm_step_def)
  qed
  finally show ?case .
next
  case (3 i r e)
  then show ?case using keepsD [OF keeps_callback] by blast
next
  case (4 i e)
  have "tm_kept s (em_release i s)" by (rule tm_kept_same) (simp_all add: em_release_def)
  also have "tm_kept (em_release i s) s'" using 4 keepsD [OF keeps_reports(4)] by blast
  finally show ?case .
next
  case (5 i j e)
  then show ?case using keepsD [OF keeps_reports(5)] by blast
next
  case (6 i j e)
  have "tm_kept s (em_release i s)" by (rule tm_kept_same) (simp_all add: em_release_def)
  also have "tm_kept (em_release i s) s'" using 6 keepsD [OF keeps_reports(5)] by blast
  finally show ?case .
qed (auto intro: keeps_listener tm_kept_same)

end
