(* ===== verification/TM_System.thy ===== *)
theory TM_System
  imports TM_Frame TM_Manager
begin

text \<open>
  The daemon together with its transfer manager: the actions, the timer and the lines of any transfer
  drivers take the place of the transfers of \<open>DM_Flow\<close>. \<open>tm_am\<close> holds the requests that have not been
  answered yet. The transfer manager may run the action of a request at any time until it is answered, and drivers
  may print whatever they like.
\<close>

section \<open>What the transfer manager does to a job\<close>

text \<open>The request that a transfer state belongs to.\<close>

definition tm_owner :: "gw_tm_state \<Rightarrow> tm_action option" where
  "tm_owner st =
     (case st of
        GW_TM_STATE_PROLOG \<Rightarrow> Some TM_PROLOG
      | GW_TM_STATE_PROLOG_FAILED \<Rightarrow> Some TM_PROLOG
      | GW_TM_STATE_EPILOG \<Rightarrow> Some TM_EPILOG
      | GW_TM_STATE_EPILOG_FAILED \<Rightarrow> Some TM_EPILOG
      | _ \<Rightarrow> None)"

text \<open>The same job but for the files and the state of the transfer.\<close>

definition same_but_tm :: "gw_job \<Rightarrow> gw_job \<Rightarrow> bool" where
  "same_but_tm j k \<longleftrightarrow> k\<lparr>xfrs := xfrs j, chk_xfrs := chk_xfrs j, tm_state := tm_state j,
     last_checkpoint_time := last_checkpoint_time j\<rparr> = j"

lemma same_but_tm_shape: "same_but_tm j k \<Longrightarrow> same_shape j k"
  by (cases j, cases k) (simp add: same_but_tm_def same_shape_def)

lemma same_but_tm_refl [simp]: "same_but_tm j j"
  by (simp add: same_but_tm_def)

lemma same_but_tm_trans: "same_but_tm j k \<Longrightarrow> same_but_tm k l \<Longrightarrow> same_but_tm j l"
  by (cases j, cases k, cases l) (simp add: same_but_tm_def)

lemma same_but_tm_update [simp]:
  "same_but_tm j (k\<lparr>xfrs := x\<rparr>) = same_but_tm j k" "same_but_tm j (k\<lparr>chk_xfrs := x\<rparr>) = same_but_tm j k"
  "same_but_tm j (k\<lparr>tm_state := st\<rparr>) = same_but_tm j k"
  "same_but_tm j (k\<lparr>last_checkpoint_time := t\<rparr>) = same_but_tm j k"
  "same_but_tm j (set_xfr i f k) = same_but_tm j k" "same_but_tm j (set_chk i f k) = same_but_tm j k"
  by (simp_all add: same_but_tm_def set_xfr_def set_chk_def)

lemma set_xfr_state [simp]: "tm_state (set_xfr i f k) = tm_state k" "job_state (set_xfr i f k) = job_state k"
  "tm_state (set_chk i f k) = tm_state k" "job_state (set_chk i f k) = job_state k"
  by (simp_all add: set_xfr_def set_chk_def)

text \<open>
  A step on the copies: the job stays the same but for the transfer, whose state stays or becomes one that
  belongs to the same request.
\<close>

definition copies :: "gw_job \<Rightarrow> tm_result \<Rightarrow> bool" where
  "copies j r \<longleftrightarrow> (\<forall>k out. r = Some (k, out) \<longrightarrow> same_but_tm j k \<and>
     (tm_state k = tm_state j \<or> tm_owner (tm_state k) = tm_owner (tm_state j) \<and> tm_owner (tm_state j) \<noteq> None))"

lemma urls_only:
  "((case r of URLS u v \<Rightarrow> Some (f u v) | _ \<Rightarrow> None) = Some x) = (\<exists>u v. r = URLS u v \<and> f u v = x)"
  by (cases r) auto

lemma copiesI:
  "(\<And>k out. r = Some (k, out) \<Longrightarrow> same_but_tm j k) \<Longrightarrow>
   (\<And>k out. r = Some (k, out) \<Longrightarrow> tm_state k = tm_state j \<or>
      tm_owner (tm_state k) = tm_owner (tm_state j) \<and> tm_owner (tm_state j) \<noteq> None) \<Longrightarrow> copies j r"
  by (auto simp: copies_def)

lemma copies_same: "copies j (Some (k, out)) \<longleftrightarrow> same_but_tm j k \<and> (tm_state k = tm_state j \<or>
    tm_owner (tm_state k) = tm_owner (tm_state j) \<and> tm_owner (tm_state j) \<noteq> None)"
  by (simp add: copies_def)

lemma copies_None [simp]: "copies j None"
  by (simp add: copies_def)

lemma copies_bind:
  "(\<And>x. m = Some x \<Longrightarrow> copies j (g x)) \<Longrightarrow> copies j (m \<bind> g)"
  by (cases m) auto

lemma copies_more:
  "copies j m \<Longrightarrow> copies j (m \<bind> (\<lambda>(k, out). Some (k, f out)))"
  by (cases m) (auto simp: copies_def)

text \<open>Copies that start at a job with the same transfer state.\<close>

lemma copies_from: "copies k r \<Longrightarrow> same_but_tm j k \<Longrightarrow> tm_state k = tm_state j \<Longrightarrow> copies j r"
  unfolding copies_def using same_but_tm_trans [of j k] by auto

section \<open>Prologs\<close>

lemma copies_prolog_end: "tm_state k = GW_TM_STATE_PROLOG \<Longrightarrow> copies k (prolog_end h k)"
  unfolding prolog_end_def by (rule copies_bind) (simp add: copies_same tm_owner_def)

lemma prolog_cp_failed_job:
  assumes "prolog_cp_failed s h n j = Some (k, out)"
  shows "same_but_tm j k" "tm_state k = tm_state j"
  using assms by (auto simp: prolog_cp_failed_def Let_def bind_eq_Some_conv urls_only split: option.splits if_splits)

lemma copies_prolog_stage_in:
  assumes "tm_state j = GW_TM_STATE_PROLOG"
  shows "copies j (gw_tm_prolog_stage_in s j)"
proof (cases "history j")
  case (Cons h hs)
  have "copies j (if out = [] then prolog_end h k else Some (k, out))" if "k = j\<lparr>xfrs := x\<rparr>" for x k out
    using that assms copies_from [OF copies_prolog_end] by (simp add: copies_same)
  then show ?thesis unfolding gw_tm_prolog_stage_in_def Cons
    by (auto simp: Let_def intro!: copies_bind)
qed (simp add: gw_tm_prolog_stage_in_def copies_same)

lemma copies_prolog_cp_cb:
  assumes "tm_state j = GW_TM_STATE_PROLOG"
  shows "copies j (gw_tm_prolog_cp_cb s j i f)"
proof (cases "history j")
  case (Cons h hs)
  let ?m = "if f then prolog_cp_failed s h (nat i) j else Some (set_xfr (nat i) xfr_copied j, [])"
  have "copies j (if gw_xfr_pending (xfrs k) = 0
      then do { (job, out') \<leftarrow> prolog_end h k; Some (job, out @ out') } else Some (k, out))"
    if "?m = Some (k, out)" for k out
  proof -
    have "same_but_tm j k" "tm_state k = tm_state j"
      using that prolog_cp_failed_job by (auto split: if_splits)
    then show ?thesis using copies_from [OF copies_prolog_end] assms copies_more by (simp add: copies_same)
  qed
  then show ?thesis unfolding gw_tm_prolog_cp_cb_def Cons list.case by (auto intro!: copies_bind)
qed (simp add: gw_tm_prolog_cp_cb_def copies_same)

section \<open>Epilogs and checkpoints\<close>

lemma copies_epilog_end:
  assumes "tm_state j = GW_TM_STATE_EPILOG"
  shows "copies j (epilog_failed h j)" "copies j (epilog_copied h j)"
  using assms
  by (auto simp: copies_same epilog_failed_def epilog_copied_def Let_def tm_owner_def map_option_case split: option.split)

lemma copies_epilog_stage_out:
  assumes "tm_state j = GW_TM_STATE_EPILOG"
  shows "copies j (gw_tm_epilog_stage_out s j)"
proof (cases "history j")
  case (Cons h hs)
  have "copies j (if gw_xfr_pending (xfrs k) = 0
      then do { (job, out') \<leftarrow> epilog_failed h k; Some (job, out @ out') } else Some (k, out))"
    if "k = j\<lparr>xfrs := x\<rparr>" for x k out
    using that assms copies_from [OF copies_epilog_end(1)] copies_more by (simp add: copies_same)
  then show ?thesis unfolding gw_tm_epilog_stage_out_def Cons
    using copies_epilog_end(2) [OF assms] by (auto simp: Let_def intro!: copies_bind)
qed (simp add: gw_tm_epilog_stage_out_def copies_same)

lemma copies_epilog_cp_cb:
  assumes "tm_state j = GW_TM_STATE_EPILOG"
  shows "copies j (gw_tm_epilog_cp_cb j i f)"
proof (cases "history j")
  case (Cons h hs)
  have "copies j (do { failed \<leftarrow> required_failed n xs; (if failed then epilog_failed h k else epilog_copied h k) })"
    if "same_but_tm j k" "tm_state k = tm_state j" for n xs k
    using that assms copies_from [OF copies_epilog_end(1)] copies_from [OF copies_epilog_end(2)]
    by (intro copies_bind) simp
  then show ?thesis unfolding gw_tm_epilog_cp_cb_def Cons by (simp add: Let_def copies_same)
qed (simp add: gw_tm_epilog_cp_cb_def copies_same)

text \<open>
  A checkpoint that ends: the job leaves the transfer, or goes on with the epilog that waited for it.
\<close>

definition checked :: "gw_job \<Rightarrow> tm_result \<Rightarrow> bool" where
  "checked j r \<longleftrightarrow> (\<forall>k out. r = Some (k, out) \<longrightarrow> same_but_tm j k \<and>
     (tm_state k = GW_TM_STATE_INIT \<or> tm_state k = GW_TM_STATE_CHECKPOINT \<or>
      tm_owner (tm_state k) = Some TM_EPILOG \<and> awaits_checkpoint (job_state j)))"

lemma checked_end:
  assumes "same_but_tm j k"
  shows "checked j (checkpoint_end s h k)"
proof -
  have js: "job_state k = job_state j" using same_but_tm_shape [OF assms] by (simp add: same_shape_def)
  have "checked j (gw_tm_epilog_stage_out s (k\<lparr>tm_state := GW_TM_STATE_EPILOG\<rparr>))" if "awaits_checkpoint (job_state j)"
    using copies_epilog_stage_out [of "k\<lparr>tm_state := GW_TM_STATE_EPILOG\<rparr>" s] assms that
      same_but_tm_trans [of j "k\<lparr>tm_state := GW_TM_STATE_EPILOG\<rparr>"]
    by (auto simp: checked_def copies_def tm_owner_def)
  then show ?thesis using assms js
    by (auto simp: checkpoint_end_def checked_def awaits_checkpoint_def)
qed

lemma checked_bind: "(\<And>x. m = Some x \<Longrightarrow> checked j (g x)) \<Longrightarrow> checked j (m \<bind> g)"
  by (cases m) (auto simp: checked_def)

lemma checked_more: "checked j m \<Longrightarrow> checked j (m \<bind> (\<lambda>(k, out). Some (k, f out)))"
  by (cases m) (auto simp: checked_def)

lemma checked_stay: "same_but_tm j k \<Longrightarrow> tm_state k = GW_TM_STATE_CHECKPOINT \<Longrightarrow> checked j (Some (k, out))"
  by (simp add: checked_def)

lemma checked_cp:
  assumes "tm_state j = GW_TM_STATE_CHECKPOINT"
  shows "checked j (gw_tm_checkpoint_cp s j)" "checked j (gw_tm_checkpoint_cp_cb s j i f)"
proof -
  show "checked j (gw_tm_checkpoint_cp s j)" using assms
    unfolding gw_tm_checkpoint_cp_def Let_def
    by (auto intro!: checked_stay checked_bind checked_more checked_end split: list.split)
  show "checked j (gw_tm_checkpoint_cp_cb s j i f)" using assms
    unfolding gw_tm_checkpoint_cp_cb_def Let_def
    by (auto intro!: checked_stay checked_end split: list.split) (simp_all add: checked_def)
qed

section \<open>The answers of a driver\<close>

text \<open>
  An answer keeps the job but for its transfer; when an action is triggered on the dispatch manager it is one
  that answers the request the transfer belongs to, and the transfer state is the initial one.
\<close>

definition answers :: "gw_job \<Rightarrow> tm_answer_result \<Rightarrow> bool" where
  "answers j r \<longleftrightarrow> (\<forall>k out a. r = Some (k, out, a) \<longrightarrow> same_but_tm j k \<and>
     (case a of
        Some act \<Rightarrow> tm_state k = GW_TM_STATE_INIT \<and> (\<exists>b ok. tm_owner (tm_state j) = Some b \<and> act = tm_answer b ok)
      | None \<Rightarrow> tm_state k = tm_state j \<or> tm_state k = GW_TM_STATE_INIT
          \<or> tm_owner (tm_state k) \<noteq> None \<and> tm_owner (tm_state k) = tm_owner (tm_state j)
          \<or> tm_state j = GW_TM_STATE_CHECKPOINT \<and> tm_owner (tm_state k) = Some TM_EPILOG \<and> awaits_checkpoint (job_state j)
          \<or> tm_state j = GW_TM_STATE_CHECKPOINT_CANCEL \<and> tm_owner (tm_state k) =
              Some (if job_state j = GW_JOB_STATE_PROLOG \<or> job_state j = GW_JOB_STATE_MIGR_PROLOG then TM_PROLOG else TM_EPILOG)))"

lemma answers_copies: "copies j r \<Longrightarrow> answers j (no_trigger r)"
  by (auto simp: answers_def copies_def no_trigger_def)

lemma answers_checked: "checked j r \<Longrightarrow> tm_state j = GW_TM_STATE_CHECKPOINT \<Longrightarrow> answers j (no_trigger r)"
  by (auto simp: answers_def checked_def no_trigger_def)

lemma answers_stay [simp]: "answers j (Some (j, out, None))"
  by (simp add: answers_def)

lemma answers_trigger:
  "tm_owner (tm_state j) = Some b \<Longrightarrow> answers j (Some (j\<lparr>tm_state := GW_TM_STATE_INIT\<rparr>, out, Some (tm_answer b ok)))"
  by (auto simp: answers_def)

lemma answer_names:
  "DM_PROLOG_DONE = tm_answer TM_PROLOG True" "DM_PROLOG_FAILED = tm_answer TM_PROLOG False"
  "DM_EPILOG_DONE = tm_answer TM_EPILOG True" "DM_EPILOG_FAILED = tm_answer TM_EPILOG False"
  by (simp_all add: tm_answer_def)

lemma answers_start: "answers j (gw_tm_start_action_cb s mad f j)"
proof (cases "tm_state j")
  case GW_TM_STATE_PROLOG
  then show ?thesis using answers_trigger [of j TM_PROLOG]
    by (auto simp: gw_tm_start_action_cb_def answer_names(2) tm_owner_def split: list.split) (simp add: answers_def)
next
  case GW_TM_STATE_EPILOG
  then show ?thesis using answers_trigger [of j TM_EPILOG] answers_copies [OF copies_epilog_stage_out]
    by (auto simp: gw_tm_start_action_cb_def answer_names(4) tm_owner_def)
next
  case GW_TM_STATE_CHECKPOINT
  then show ?thesis using answers_checked [OF checked_cp(1)]
    by (auto simp: gw_tm_start_action_cb_def) (simp add: answers_def)
qed (simp_all add: gw_tm_start_action_cb_def)

lemma answers_rmdir: "answers j (gw_tm_rmdir_action_cb mad j)"
  by (auto simp: gw_tm_rmdir_action_cb_def answers_def split: list.split)

lemma answers_mkdir: "answers j (gw_tm_mkdir_action_cb s mad f j)"
proof (cases "tm_state j = GW_TM_STATE_PROLOG")
  case True
  then show ?thesis using answers_copies [OF copies_prolog_stage_in [OF True]]
    by (auto simp: gw_tm_mkdir_action_cb_def) (simp add: answers_def tm_owner_def)
qed (simp add: gw_tm_mkdir_action_cb_def)

lemma answers_cp: "answers j (gw_tm_cp_action_cb s i f j)"
  using answers_copies [OF copies_prolog_cp_cb, of j s i f] answers_copies [OF copies_epilog_cp_cb, of j i f]
    answers_checked [OF checked_cp(2), of j s i f]
  by (cases "tm_state j") (simp_all add: gw_tm_cp_action_cb_def)

lemma answers_end_ok: "answers j (gw_tm_end_action_cb False j)"
proof (cases "tm_state j")
  case GW_TM_STATE_PROLOG
  then show ?thesis using answers_trigger [of j TM_PROLOG "[]" True]
    by (simp add: gw_tm_end_action_cb_def answer_names tm_owner_def)
next
  case GW_TM_STATE_PROLOG_FAILED
  then show ?thesis using answers_trigger [of j TM_PROLOG "[]" False]
    by (simp add: gw_tm_end_action_cb_def answer_names tm_owner_def)
next
  case GW_TM_STATE_EPILOG
  then show ?thesis using answers_trigger [of j TM_EPILOG "[]" True]
    by (simp add: gw_tm_end_action_cb_def answer_names tm_owner_def)
next
  case GW_TM_STATE_EPILOG_FAILED
  then show ?thesis using answers_trigger [of j TM_EPILOG "[]" False]
    by (simp add: gw_tm_end_action_cb_def answer_names tm_owner_def)
next
  case GW_TM_STATE_CHECKPOINT_CANCEL
  then show ?thesis by (auto simp: gw_tm_end_action_cb_def answers_def tm_owner_def split: list.splits)
qed (simp_all add: gw_tm_end_action_cb_def)

lemma answers_end: "answers j (gw_tm_end_action_cb f j)"
  by (cases f) (simp_all add: answers_end_ok, simp add: gw_tm_end_action_cb_def answers_def)

lemma answers_line: "answers j (tm_answer_cb s mad act x res j)"
  by (simp add: tm_answer_cb_def Let_def answers_start answers_end answers_mkdir answers_rmdir answers_cp)

section \<open>The system\<close>

definition tm_handler :: "tm_action \<Rightarrow> int option \<Rightarrow> gwd \<Rightarrow> gwd option" where
  "tm_handler b = (case b of TM_PROLOG \<Rightarrow> gw_tm_prolog | TM_EPILOG \<Rightarrow> gw_tm_epilog)"

text \<open>A line that triggers an action on the dispatch manager answers the request for that job.\<close>

definition closing :: "int \<Rightarrow> gwd \<Rightarrow> gwd \<Rightarrow> gwd" where
  "closing i s s' = (if dm_am s' = dm_am s then s' else s'\<lparr>tm_am := filter (\<lambda>x. snd x \<noteq> i) (tm_am s')\<rparr>)"

inductive tm_step :: "gwd \<Rightarrow> gwd \<Rightarrow> bool" where
  daemon: "gw_core s s' \<Longrightarrow> tm_step s s'"
| asked: "(b, i) \<in> set (tm_am s) \<Longrightarrow> tm_handler b (Some i) s = Some s' \<Longrightarrow> tm_step s s'"
| timer: "gw_tm_timer t s = Some s' \<Longrightarrow> tm_step s s'"
| line: "gw_tm_listener_line mad act sid x res s = Some s' \<Longrightarrow> tm_step s (closing (atoi sid) s s')"

text \<open>Every transfer that is under way was asked for and not answered.\<close>

definition backed :: "gwd \<Rightarrow> int \<Rightarrow> gw_job \<Rightarrow> bool" where
  "backed s i j \<longleftrightarrow> (\<forall>b. tm_owner (tm_state j) = Some b \<longrightarrow> (b, i) \<in> set (tm_am s)) \<and>
     (tm_state j = GW_TM_STATE_CHECKPOINT_CANCEL \<longrightarrow> (\<exists>b. (b, i) \<in> set (tm_am s))) \<and>
     (tm_state j = GW_TM_STATE_CHECKPOINT \<and> awaits_checkpoint (job_state j) \<longrightarrow> (TM_EPILOG, i) \<in> set (tm_am s))"

definition tm_backed :: "gwd \<Rightarrow> bool" where
  "tm_backed s \<longleftrightarrow> (\<forall>i j. get_job s i = Some j \<longrightarrow> backed s i j)"

lemma backed_init: "tm_state j = GW_TM_STATE_INIT \<Longrightarrow> backed s i j"
  by (simp add: backed_def tm_owner_def)

lemma backed_kept:
  assumes b: "tm_backed s" and k: "tm_kept s s'"
  shows "tm_backed s'"
proof -
  have am: "set (tm_am s) \<subseteq> set (tm_am s')" using k by (auto simp: tm_kept_def)
  have "backed s' i k" if "get_job s' i = Some k" for i k
  proof (cases "tm_state k = GW_TM_STATE_INIT")
    case False
    then obtain j where j: "get_job s i = Some j" "tm_state k = tm_state j"
        "awaits_checkpoint (job_state k) \<longrightarrow> awaits_checkpoint (job_state j) \<or> (TM_EPILOG, i) \<in> set (tm_am s')"
      using k \<open>get_job s' i = Some k\<close> by (auto simp: tm_kept_def job_kept_def)
    have "backed s i j" using b j(1) by (simp add: tm_backed_def)
    then show ?thesis using am j(2,3) unfolding backed_def by auto
  qed (simp add: backed_init)
  then show ?thesis by (simp add: tm_backed_def)
qed

lemma backed_put:
  assumes "tm_backed s" and "get_job s i = Some j" and "backed s i k" and "tm_am s' = tm_am s"
    and "\<And>x. get_job s' x = (if x = i then Some k else get_job s x)"
  shows "tm_backed s'"
  using assms by (auto simp: tm_backed_def backed_def)

lemma tm_put_views:
  assumes "get_job s i = Some j"
  shows "get_job (tm_put i r s) x = (if x = i then Some (fst r) else get_job s x)" "tm_am (tm_put i r s) = tm_am s"
    "dm_am (tm_put i r s) = dm_am s"
  using view_put(1) [OF assms, of "fst r" x] by (simp_all add: tm_put_def get_job_def)

text \<open>Working on a job is two steps of the abstract system.\<close>

lemma tm_put_steps:
  assumes "get_job s i = Some j" and "same_but_tm j (fst r)"
  shows "gw_step\<^sup>*\<^sup>* s (tm_put i r s)"
proof -
  let ?s = "put i (fst r) s"
  have "gw_step s ?s" by (rule working [OF assms(1) same_but_tm_shape [OF assms(2)]])
  moreover have "gw_step ?s (?s\<lparr>rm_am := rm_am ?s, sched_out := sched_out ?s, mad_out := mad_out s @ snd r\<rparr>)"
    by (rule core [OF outputs])
  ultimately show ?thesis by (simp add: tm_put_def)
qed

section \<open>Every step is one of the abstract system\<close>

lemma asked_steps:
  assumes b: "tm_backed s" and m: "(b, i) \<in> set (tm_am s)" and r: "tm_handler b (Some i) s = Some s'"
  shows "gw_step\<^sup>*\<^sup>* s s' \<and> tm_backed s'"
proof (cases "s' = s")
  case False
  then obtain j k out where j: "get_job s i = Some j" and s': "s' = tm_put i (k, out) s" and k: "same_but_tm j k"
      "tm_owner (tm_state k) = Some b \<or> tm_state k = GW_TM_STATE_CHECKPOINT_CANCEL"
    using r by (cases b) (auto simp: tm_handler_def gw_tm_prolog_def gw_tm_epilog_def with_job_def no_job_def tm_owner_def
        split: option.splits list.splits if_splits)
  have "backed s i k" using k(2) m by (auto simp: backed_def tm_owner_def split: gw_tm_state.splits)
  then have "tm_backed s'" unfolding s' using tm_put_views [OF j, of "(k, out)"] by (intro backed_put [OF b j]) simp_all
  then show ?thesis using tm_put_steps [OF j, of "(k, out)"] k(1) s' by simp
qed (use b in simp)

lemma timer_job_keeps:
  assumes "timer_job t s j = Some (k, out)"
  shows "same_but_tm j k" "tm_state k = tm_state j \<or> tm_state k = GW_TM_STATE_CHECKPOINT \<and> job_state k = GW_JOB_STATE_WRAPPER"
  using assms by (auto simp: timer_job_def bind_eq_Some_conv split: if_splits list.splits)

lemma timer_steps:
  "timer_jobs t is s = Some s' \<Longrightarrow> tm_backed s \<Longrightarrow> gw_step\<^sup>*\<^sup>* s s' \<and> tm_backed s'"
proof (induction "is" arbitrary: s)
  case (Cons i is')
  show ?case
  proof (cases "get_job s i")
    case (Some j)
    then obtain k out where c: "timer_job t s j = Some (k, out)" "timer_jobs t is' (tm_put i (k, out) s) = Some s'"
      using Cons.prems(1) by (auto simp: bind_eq_Some_conv)
    note k = timer_job_keeps [OF c(1)]
    have "job_state k = job_state j" using same_but_tm_shape [OF k(1)] by (simp add: same_shape_def)
    moreover have "backed s i j" using Cons.prems(2) Some by (simp add: tm_backed_def)
    ultimately have "backed s i k" using k(2) by (auto simp: backed_def tm_owner_def awaits_checkpoint_def)
    then have "tm_backed (tm_put i (k, out) s)"
      using tm_put_views [OF Some, of "(k, out)"] by (intro backed_put [OF Cons.prems(2) Some]) simp_all
    with Cons.IH [OF c(2)] tm_put_steps [OF Some, of "(k, out)"] k(1) show ?thesis by (simp add: rtranclp_trans)
  qed (use Cons in simp)
qed simp

lemma remove_answered:
  assumes inv: "gwd_inv s" and m: "(b, i) \<in> set (tm_am s)" and g: "get_job s i = Some j"
  shows "filter (\<lambda>x. snd x \<noteq> i) (tm_am s) = remove1 (b, i) (tm_am s)"
proof -
  obtain p where r: "ready (s\<lparr>tm_am := remove1 (b, i) (tm_am s)\<rparr>) i p j" by (rule tm_parts [OF inv m g])
  have "snd ` set (remove1 (b, i) (tm_am s)) \<inter> {i} = {}"
    using r by (auto simp: ready_def ctl_of_def tm_ctl_def filter_empty_conv)
  moreover have "filter (\<lambda>x. snd x \<noteq> i) xs = remove1 (b, i) xs" if "snd ` set (remove1 (b, i) xs) \<inter> {i} = {}" for xs
    using that by (induction xs) (auto simp: filter_id_conv split: if_splits)
  ultimately show ?thesis by blast
qed

lemma only_request:
  "filter (\<lambda>x. snd x \<noteq> i) xs = remove1 (b, i) xs \<Longrightarrow> (b, i) \<in> set xs \<Longrightarrow> filter (\<lambda>x. snd x = i) xs = [(b, i)]"
proof (induction xs)
  case (Cons x xs)
  show ?case
  proof (cases "x = (b, i)")
    case True
    then have "filter (\<lambda>x. snd x \<noteq> i) xs = xs" using Cons.prems(1) by simp
    then show ?thesis using True by (auto simp: filter_id_conv filter_empty_conv)
  next
    case False
    have "snd x \<noteq> i"
    proof
      assume x: "snd x = i"
      then have "filter (\<lambda>x. snd x \<noteq> i) xs = x # remove1 (b, i) xs" using Cons.prems(1) False by simp
      then have "x \<in> set (filter (\<lambda>x. snd x \<noteq> i) xs)" by simp
      then show False using x by simp
    qed
    then show ?thesis using Cons False by simp
  qed
qed simp

lemma request_kind:
  assumes inv: "gwd_inv s" and m: "(b, i) \<in> set (tm_am s)" and g: "get_job s i = Some j"
  shows "b = (if job_state j = GW_JOB_STATE_PROLOG \<or> job_state j = GW_JOB_STATE_MIGR_PROLOG then TM_PROLOG else TM_EPILOG)"
proof -
  obtain p where "b = TM_PROLOG \<and> prolog_phase (job_state j) = Some p
      \<or> b = TM_EPILOG \<and> epilog_phase (job_state j) = Some p" by (rule tm_parts [OF inv m g])
  then show ?thesis by (auto simp: prolog_phase_def epilog_phase_def end_state_def split: if_splits)
qed

lemma line_steps:
  assumes inv: "gwd_inv s" and b: "tm_backed s" and r: "gw_tm_listener_line mad act sid x res s = Some s'"
  shows "gw_step\<^sup>*\<^sup>* s (closing (atoi sid) s s') \<and> tm_backed (closing (atoi sid) s s')"
proof (cases "s' = s")
  case True
  then show ?thesis using b by (simp add: closing_def)
next
  case False
  let ?i = "atoi sid"
  obtain j k out a where j: "get_job s ?i = Some j" and c: "tm_answer_cb s mad act x res j = Some (k, out, a)"
    and s': "s' = tm_finish ?i (k, out, a) s"
    using r False by (auto simp: gw_tm_listener_line_def bind_eq_Some_conv split: if_splits option.splits)
  note ans = answers_line [of j s mad act x res, unfolded answers_def, rule_format, OF c]
  have js: "job_state k = job_state j" using same_but_tm_shape ans by (auto simp: same_shape_def)
  have bj: "backed s ?i j" using b j by (simp add: tm_backed_def)
  note v = tm_put_views [OF j, of "(k, out)"]
  show ?thesis
  proof (cases a)
    case None
    have s1: "closing ?i s s' = tm_put ?i (k, out) s" unfolding s' None by (simp add: tm_finish_def closing_def v)
    have req: "tm_state j = GW_TM_STATE_CHECKPOINT_CANCEL \<Longrightarrow>
        (if job_state j = GW_JOB_STATE_PROLOG \<or> job_state j = GW_JOB_STATE_MIGR_PROLOG then TM_PROLOG else TM_EPILOG, ?i)
          \<in> set (tm_am s)"
    proof -
      assume "tm_state j = GW_TM_STATE_CHECKPOINT_CANCEL"
      then obtain c where "(c, ?i) \<in> set (tm_am s)" using bj by (auto simp: backed_def)
      then show ?thesis using request_kind [OF inv, of c, OF _ j] by simp
    qed
    have "backed s ?i k"
    proof (cases "tm_owner (tm_state k)")
      case None
      then show ?thesis using ans bj js \<open>a = None\<close> by (auto simp: backed_def)
    next
      case (Some e)
      then have "tm_state k \<noteq> GW_TM_STATE_CHECKPOINT_CANCEL" "tm_state k \<noteq> GW_TM_STATE_CHECKPOINT"
        by (auto simp: tm_owner_def)
      moreover have "(e, ?i) \<in> set (tm_am s)" using ans bj req Some \<open>a = None\<close>
        by (auto simp: backed_def tm_owner_def)
      ultimately show ?thesis using Some by (simp add: backed_def)
    qed
    then have "tm_backed (tm_put ?i (k, out) s)" using v by (intro backed_put [OF b j]) simp_all
    then show ?thesis unfolding s1 using tm_put_steps [OF j, of "(k, out)"] ans by simp
  next
    case (Some d)
    then obtain b0 ok where d: "tm_owner (tm_state j) = Some b0" "d = tm_answer b0 ok" "tm_state k = GW_TM_STATE_INIT"
      using ans by auto
    then have m: "(b0, ?i) \<in> set (tm_am s)" using bj by (simp add: backed_def)
    let ?s = "trigger_dm d (ARG_ID ?i) (put ?i k (s\<lparr>tm_am := remove1 (b0, ?i) (tm_am s)\<rparr>))"
    have nf: "trigger_dm d y t = t\<lparr>dm_am := dm_am t @ [(d, y)]\<rparr>" if "dm_am t = dm_am s" for y t
      using inv_no_finalize [OF inv] that by (auto simp: trigger_dm_def no_finalize_def image_iff neq_Nil_conv)
    have s1: "closing ?i s s' = ?s\<lparr>rm_am := rm_am ?s, sched_out := sched_out ?s, mad_out := mad_out s @ out\<rparr>"
      unfolding s' Some remove_answered [OF inv m j, symmetric]
      by (simp add: tm_finish_def closing_def nf v) (simp add: tm_put_def put_def)
    have "gw_step s ?s" unfolding d(2) by (rule transfer [OF m j]) (simp add: same_but_tm_shape ans)
    moreover have "gw_step ?s (closing ?i s s')" unfolding s1 by (rule core [OF outputs])
    moreover have "backed (closing ?i s s') y l" if "get_job (closing ?i s s') y = Some l" for y l
    proof -
      have g: "get_job (closing ?i s s') y = (if y = ?i then Some k else get_job s y)"
        unfolding s1 using v(1) [of y] by (simp add: get_job_def put_def tm_put_def)
      show ?thesis
      proof (cases "y = ?i")
        case True
        then show ?thesis using that g d(3) by (simp add: backed_init)
      next
        case False
        then have "(e, y) \<in> set (tm_am (closing ?i s s'))" if "(e, y) \<in> set (tm_am s)" for e
          unfolding s1 using that False by (simp add: remove_answered [OF inv m j, symmetric] put_def)
        moreover have "backed s y l" using that g False b by (simp add: tm_backed_def)
        ultimately show ?thesis unfolding backed_def by blast
      qed
    qed
    ultimately show ?thesis by (simp add: tm_backed_def)
  qed
qed

lemma tm_step_refines:
  assumes "gwd_inv s" and "tm_backed s" and "tm_step s s'"
  shows "gw_step\<^sup>*\<^sup>* s s' \<and> tm_backed s'"
  using assms(3)
proof cases
  case daemon
  then show ?thesis using backed_kept [OF assms(2) kept_core] core by blast
next
  case (asked b i)
  then show ?thesis using asked_steps [OF assms(2)] by simp
next
  case (timer t)
  then show ?thesis using timer_steps assms(2) by (simp add: gw_tm_timer_def)
next
  case (line mad act sid x res s1)
  then show ?thesis using line_steps [OF assms(1,2)] by simp
qed

text \<open>What follows of a state of the abstract system.\<close>

lemma backed_only_request:
  assumes "gw_reachable s \<and> tm_backed s"
  shows "gw_reachable s \<and> balanced s \<and>
     (\<forall>i j b. get_job s i = Some j \<and> tm_owner (tm_state j) = Some b \<longrightarrow> filter (\<lambda>x. snd x = i) (tm_am s) = [(b, i)])"
proof -
  have inv: "gwd_inv s" using assms inv_reachable by blast
  have "filter (\<lambda>x. snd x = i) (tm_am s) = [(b, i)]"
    if j: "get_job s i = Some j" and o: "tm_owner (tm_state j) = Some b" for i j b
  proof -
    have m: "(b, i) \<in> set (tm_am s)" using assms j o by (auto simp: tm_backed_def backed_def)
    show ?thesis using only_request [OF remove_answered [OF inv m j] m] .
  qed
  then show ?thesis using assms inv by (auto simp: gwd_inv_def)
qed

section \<open>An answer that comes late\<close>

text \<open>
  A checkpoint that ends leaves the transfer at once and asks the driver to end. When an epilog is
  started before the driver has answered, that answer is taken for the end of the epilog: the dispatch manager is told that it is
  done, although nothing was copied.
\<close>

lemma stale_checkpoint_end:
  assumes chk: "history j = h # hs" "job_state j = GW_JOB_STATE_WRAPPER" "n < length (xfr_list (chk_xfrs j))"
    "gw_xfr_pending (chk_xfrs (set_chk n xfr_copied j)) = 0"
    and later: "get_job s (atoi sid) = Some k" "history k = h' # hs'" "tm_state k = GW_TM_STATE_INIT"
    "job_state k \<in> {GW_JOB_STATE_EPILOG, GW_JOB_STATE_EPILOG_STD}" "dm_am s = []"
    and sid: "sid = [] \<or> hd sid \<noteq> CHR ''-''"
  shows "\<exists>k0 s1 s2. gw_tm_checkpoint_cp_cb s0 j (int n) False = Some (k0, [TM_MAD_END (h_tm_mad h) (job_id j)]) \<and>
     tm_state k0 = GW_TM_STATE_INIT \<and>
     gw_tm_epilog (Some (atoi sid)) s = Some s1 \<and> mad_out s1 = mad_out s @ [TM_MAD_START (h_tm_mad h') (job_id k)] \<and>
     gw_tm_listener_line mad ''END'' sid ''-'' ''SUCCESS'' s1 = Some s2 \<and>
     dm_am s2 = [(DM_EPILOG_DONE, ARG_ID (atoi sid))] \<and> mad_out s2 = mad_out s1 \<and>
     map_option xfrs (get_job s2 (atoi sid)) = Some (xfrs k)"
proof -
  let ?i = "atoi sid"
  let ?r = "(k\<lparr>tm_state := GW_TM_STATE_EPILOG\<rparr>, [TM_MAD_START (h_tm_mad h') (job_id k)])"
  let ?s1 = "tm_put ?i ?r s"
  let ?s2 = "tm_finish ?i (k\<lparr>tm_state := GW_TM_STATE_INIT\<rparr>, [], Some DM_EPILOG_DONE) ?s1"
  note v1 = tm_put_views [OF later(1), of ?r]
  have g1: "get_job ?s1 ?i = Some (k\<lparr>tm_state := GW_TM_STATE_EPILOG\<rparr>)" using v1(1) [of ?i] by simp
  note v2 = tm_put_views [OF g1, of "(k\<lparr>tm_state := GW_TM_STATE_INIT\<rparr>, [])"]
  let ?k0 = "(set_chk n xfr_copied j)\<lparr>tm_state := GW_TM_STATE_INIT\<rparr>"
  have js: "job_id (set_chk n xfr_copied j) = job_id j" by (simp add: set_chk_def)
  have a: "gw_tm_checkpoint_cp_cb s0 j (int n) False = Some (?k0, [TM_MAD_END (h_tm_mad h) (job_id j)])"
    using chk by (simp add: gw_tm_checkpoint_cp_cb_def checkpoint_end_def Let_def js)
  have b: "gw_tm_epilog (Some ?i) s = Some ?s1"
    using later by (auto simp: gw_tm_epilog_def with_job_def)
  have c: "gw_tm_listener_line mad ''END'' sid ''-'' ''SUCCESS'' ?s1 = Some ?s2"
    using sid by (auto simp: gw_tm_listener_line_def g1 tm_answer_cb_def gw_tm_end_action_cb_def)
  have d: "dm_am ?s2 = [(DM_EPILOG_DONE, ARG_ID ?i)]" "mad_out ?s2 = mad_out ?s1"
    "map_option xfrs (get_job ?s2 ?i) = Some (xfrs k)"
    using later(5) v1(3) v2(1) [of ?i] v2(3) by (simp_all add: tm_finish_def trigger_dm_def get_job_def) (simp add: tm_put_def put_def)
  have m: "mad_out ?s1 = mad_out s @ [TM_MAD_START (h_tm_mad h') (job_id k)]" by (simp add: tm_put_def put_def)
  have e: "tm_state ?k0 = GW_TM_STATE_INIT" by simp
  show ?thesis by (rule exI [of _ ?k0], rule exI [of _ ?s1], rule exI [of _ ?s2]) (intro conjI a e b m c d)
qed

end

