(* ===== verification/EM_Manager.thy ===== *)
theory EM_Manager
  imports EM_State "HOL-Library.Signed_Division"
begin

text \<open>
  The execution manager of \<open>src/em\<close>: the actions that submit and cancel a job and the timer
  (\<open>gw_em_actions.c\<close>), what the listener does with a line of an execution driver
  (\<open>gw_em_listener.c\<close>), the requests written to the drivers (\<open>gw_em_mad.c\<close>) and the table of
  actions (\<open>gw_em.c\<close>). The actions that the listener and the timer trigger are
  appended to \<open>em_am\<close>. The process of a driver and its pipes are outside the model, as is the file
  in which the contact of a job is kept.
\<close>

text \<open>
  What the execution manager takes from outside: the clock, the configured interval between polls, the random
  numbers, the generator of the job description (\<open>wrapper_rsl\<close> and \<open>pre_wrapper_rsl\<close> of the
  driver; \<open>None\<close> when it gives NULL) and whether the file for the description opens.
\<close>

record em_env =
  em_time :: int
  poll_interval :: int
  gw_rand :: "int \<Rightarrow> int"
  wrapper_rsl :: "gw_job \<Rightarrow> string option"
  pre_wrapper_rsl :: "gw_job \<Rightarrow> string option"
  rsl_file_opens :: bool

section \<open>Actions\<close>

definition issubmitted :: "gw_em_state \<Rightarrow> bool" where
  "issubmitted st \<longleftrightarrow>
     st = GW_EM_STATE_ACTIVE \<or> st = GW_EM_STATE_PENDING \<or> st = GW_EM_STATE_SUSPENDED"

definition rsl_filename :: "gw_job \<Rightarrow> string" where
  "rsl_filename job = directory job @ ''/job.rsl.'' @ dec (restarted job)"

definition submit_failed :: "int \<Rightarrow> gw_job \<Rightarrow> gwd \<Rightarrow> gwd" where
  "submit_failed jid job s =
     trigger_dm DM_WRAPPER_FAILED (ARG_ID jid) (put jid (job\<lparr>em_state := GW_EM_STATE_FAILED\<rparr>) s)"

text \<open>The times of a submission; the clock is the next poll's base.\<close>

definition submit_stats :: "int \<Rightarrow> gw_history \<Rightarrow> gw_history" where
  "submit_stats t h =
     (set_stat ACTIVE_TIME 0 (set_stat SUSPENSION_TIME 0 (set_stat LAST_SUSPENSION_TIME t h)))
       \<lparr>h_tries := h_tries h + 1\<rparr>"

definition next_poll :: "em_env \<Rightarrow> int" where
  "next_poll e = em_time e + poll_interval e sdiv 2 + gw_rand e (poll_interval e)"

definition gw_em_submit :: "em_env \<Rightarrow> int option \<Rightarrow> gwd \<Rightarrow> gwd option" where
  "gw_em_submit e = with_job no_job (\<lambda>jid job0 s.
     case history job0 of
       [] \<Rightarrow> Some s
     | h0 # hs \<Rightarrow>
         let h = h0\<lparr>h_counter := -1\<rparr>;
             job = job0\<lparr>em_state := GW_EM_STATE_INIT, history := h # hs\<rparr>;
             pre = (job_state job = GW_JOB_STATE_PRE_WRAPPER);
             contact = (if pre then em_fork_rc h else em_rc h);
             rsl = (if pre then pre_wrapper_rsl e job else wrapper_rsl e job) in
         if rsl = None \<or> \<not> rsl_file_opens e then Some (submit_failed jid job s)
         else Some (to_mad (EM_MAD_SUBMIT (h_em_mad h) jid contact (rsl_filename job))
                (put jid (job\<lparr>next_poll_time := next_poll e, last_checkpoint_time := 0,
                              history := submit_stats (em_time e) h # hs\<rparr>) s)))"

text \<open>
  The driver that executes the job: during a migration it is the one of the previous record, and
  without one there is none.
\<close>

definition executing_mad :: "gw_job \<Rightarrow> string option option" where
  "executing_mad job =
     (case history job of
        [] \<Rightarrow> None
      | h # hs \<Rightarrow>
          Some (if job_state job = GW_JOB_STATE_MIGR_CANCEL
                then (case hs of [] \<Rightarrow> None | h' # _ \<Rightarrow> Some (h_em_mad h'))
                else Some (h_em_mad h)))"

definition gw_em_cancel :: "int option \<Rightarrow> gwd \<Rightarrow> gwd option" where
  "gw_em_cancel = with_job no_job (\<lambda>jid job s. do {
     h \<leftarrow> hist_top job;
     (if cancel_tries h \<ge> 3 then Some (trigger_em EM_STATE_DONE jid s)
      else do {
        job \<leftarrow> upd_top (\<lambda>h. h\<lparr>cancel_tries := cancel_tries h + 1\<rparr>) job;
        let s = put jid job s;
        if issubmitted (em_state job)
        then do {
          mad \<leftarrow> executing_mad job;
          Some (case mad of None \<Rightarrow> s | Some m \<Rightarrow> to_mad (EM_MAD_CANCEL m jid) s) }
        else Some s }) })"

section \<open>The timer\<close>

definition execution_state :: "gw_job_state \<Rightarrow> bool" where
  "execution_state st \<longleftrightarrow> st \<in> {GW_JOB_STATE_PRE_WRAPPER, GW_JOB_STATE_WRAPPER,
     GW_JOB_STATE_MIGR_CANCEL, GW_JOB_STATE_STOP_CANCEL, GW_JOB_STATE_KILL_CANCEL}"

definition em_timer_job :: "em_env \<Rightarrow> int \<Rightarrow> gw_job \<Rightarrow> gwd \<Rightarrow> gwd" where
  "em_timer_job e i job s =
     (case history job of
        [] \<Rightarrow> s
      | h # hs \<Rightarrow>
          if \<not> execution_state (job_state job) then s
          else if issubmitted (em_state job)
          then if em_time e \<ge> next_poll_time job
            then case executing_mad job of
                   Some (Some m) \<Rightarrow>
                     put i (job\<lparr>next_poll_time := next_poll_time job + poll_interval e\<rparr>)
                       (to_mad (EM_MAD_POLL m i) s)
                 | _ \<Rightarrow> s
            else s
          else if em_state job = GW_EM_STATE_FAILED \<and> h_counter h \<noteq> -1
          then if h_counter h - 1 = 0
            then trigger_em EM_SUBMIT i (put i (job\<lparr>history := h\<lparr>h_counter := -1\<rparr> # hs\<rparr>) s)
            else put i (job\<lparr>history := h\<lparr>h_counter := h_counter h - 1\<rparr> # hs\<rparr>) s
          else s)"

definition em_timer_at :: "em_env \<Rightarrow> int \<Rightarrow> gwd \<Rightarrow> gwd" where
  "em_timer_at e i s = (case get_job s i of None \<Rightarrow> s | Some job \<Rightarrow> em_timer_job e i job s)"

definition gw_em_timer :: "em_env \<Rightarrow> gwd \<Rightarrow> gwd" where
  "gw_em_timer e s = fold (em_timer_at e) (map int [0..<length (pool (gd_jobs s))]) s"

section \<open>The lines of a driver\<close>

fun strstr :: "string \<Rightarrow> string \<Rightarrow> string option" where
  "strstr [] n = (if n = [] then Some [] else None)"
| "strstr (c # cs) n = (if take (length n) (c # cs) = n then Some (c # cs) else strstr cs n)"

text \<open>The exit code that a driver without the wrapper reports.\<close>

definition with_exit_code :: "string \<Rightarrow> gw_job \<Rightarrow> gw_job" where
  "with_exit_code info job =
     (case strstr info ''DONE:'' of
        None \<Rightarrow> job
      | Some p \<Rightarrow> if drop 5 p \<noteq> [] then job\<lparr>exit_code := atoi (drop 5 p)\<rparr> else job)"

type_synonym em_verdict = "(gw_job \<times> em_action option) option"

text \<open>The state a driver reports; what follows from a failure depends on the line.\<close>

definition em_reported :: "(gw_job \<Rightarrow> em_verdict) \<Rightarrow> string \<Rightarrow> gw_job \<Rightarrow> em_verdict" where
  "em_reported failed info job =
     (if info = ''PENDING'' then Some (job, Some EM_STATE_PENDING)
      else if info = ''SUSPENDED'' then Some (job, Some EM_STATE_SUSPENDED)
      else if info = ''ACTIVE'' then Some (job, Some EM_STATE_ACTIVE)
      else if strstr info ''DONE'' \<noteq> None then Some (with_exit_code info job, Some EM_STATE_DONE)
      else if info = ''FAILED'' then failed job
      else Some (job, None))"

definition poll_failed :: "em_env \<Rightarrow> gw_job \<Rightarrow> em_verdict" where
  "poll_failed e job = do {
     job \<leftarrow> upd_top (\<lambda>h. h\<lparr>failed_polls := failed_polls h + 1\<rparr>) job;
     h \<leftarrow> hist_top job;
     (if failed_polls h = 3 then Some (job, Some EM_STATE_DONE)
      else Some (job\<lparr>next_poll_time := em_time e + poll_interval e * failed_polls h
                        + gw_rand e (poll_interval e * failed_polls h)\<rparr>, None)) }"

definition em_verdict_of :: "em_env \<Rightarrow> string \<Rightarrow> string \<Rightarrow> string \<Rightarrow> gw_job \<Rightarrow> em_verdict" where
  "em_verdict_of e action res info job =
     (let fails = (\<lambda>job. Some (job, Some EM_STATE_FAILED)); ends = (\<lambda>job. Some (job, Some EM_STATE_DONE)) in
      if action = ''SUBMIT''
      then (if res = ''FAILURE'' then fails job else Some (job, Some EM_STATE_PENDING))
      else if action = ''CANCEL'' then Some (job, None)
      else if action = ''POLL''
      then (if res = ''SUCCESS'' then em_reported fails info (job\<lparr>next_poll_time := next_poll e\<rparr>)
            else poll_failed e job)
      else if action = ''RECOVER''
      then (if res = ''SUCCESS''
            then em_reported (\<lambda>job. do {
                   job \<leftarrow> upd_top (\<lambda>h. h\<lparr>h_tries := number_of_retries (template job)\<rparr>) job;
                   fails job }) info job
            else ends job)
      else if action = ''CALLBACK''
      then (if res = ''SUCCESS'' then em_reported ends info job
            else if cancelling (job_state job) then ends job else fails job)
      else Some (job, None))"

text \<open>
  One line, by the fields that \<open>sscanf\<close> reads. The lines of a job that is not executing, or that is
  being killed, are dropped.
\<close>

definition gw_em_listener_line ::
  "em_env \<Rightarrow> string \<Rightarrow> string \<Rightarrow> string \<Rightarrow> string \<Rightarrow> gwd \<Rightarrow> gwd option" where
  "gw_em_listener_line e action s_job_id res info s =
     (if s_job_id \<noteq> [] \<and> hd s_job_id = CHR ''-'' then Some s
      else case get_job s (atoi s_job_id) of
        None \<Rightarrow> Some s
      | Some job \<Rightarrow>
          if \<not> execution_state (job_state job) then Some s
          else if em_state job = GW_EM_STATE_HARD_KILL then Some s
          else do {
            (job, a) \<leftarrow> em_verdict_of e action res info job;
            let s = put (atoi s_job_id) job s;
            Some (case a of None \<Rightarrow> s | Some x \<Rightarrow> trigger_em x (atoi s_job_id) s) })"

section \<open>The table of actions\<close>

definition em_handler :: "em_env \<Rightarrow> dm_env \<Rightarrow> em_action \<Rightarrow> int option \<Rightarrow> gwd \<Rightarrow> gwd option" where
  "em_handler e d x =
     (case x of
        EM_SUBMIT \<Rightarrow> gw_em_submit e
      | EM_CANCEL \<Rightarrow> gw_em_cancel
      | EM_STATE_PENDING \<Rightarrow> gw_em_pending d
      | EM_STATE_ACTIVE \<Rightarrow> gw_em_active d
      | EM_STATE_SUSPENDED \<Rightarrow> gw_em_suspended d
      | EM_STATE_DONE \<Rightarrow> gw_em_done d
      | EM_STATE_FAILED \<Rightarrow> gw_em_failed d)"

end
