(* ===== verification/EM_System.thy ===== *)
theory EM_System
  imports TM_System EM_Manager
begin

text \<open>
  The daemon with its real transfer and execution managers: the loop of the dispatch manager, the
  clients and the scheduler, the actions, the timers and the lines of any drivers, in any order.
  The execution manager may run its submission of any job at any time. The code acts on every report
  of a driver, whether the execution is over already or not; the system admits an action that ends an
  execution (\<open>ends_execution\<close>, a test of the job before the action) for an execution of the ledger.
\<close>

section \<open>What the execution manager does to a job\<close>

text \<open>
  It keeps the shape of the job and its transfer, asks itself for anything but a submission, and writes to
  the drivers. When the execution is over it tells the dispatch manager.
\<close>

definition em_work :: "int \<Rightarrow> gwd \<Rightarrow> gwd \<Rightarrow> bool" where
  "em_work i s s' \<longleftrightarrow> (\<exists>j k xs ms. get_job s i = Some j \<and> same_shape j k \<and> tm_state k = tm_state j \<and>
     (\<forall>x \<in> set xs. fst x \<noteq> EM_SUBMIT) \<and> s' = (put i k s)\<lparr>em_am := em_am s @ xs, mad_out := mad_out s @ ms\<rparr>)"

definition em_end :: "bool \<Rightarrow> int \<Rightarrow> gwd \<Rightarrow> gwd \<Rightarrow> bool" where
  "em_end ok i s s' \<longleftrightarrow> (\<exists>j k. get_job s i = Some j \<and> same_shape j k \<and> tm_state k = tm_state j \<and>
     s' = trigger_dm (if ok then DM_WRAPPER_DONE else DM_WRAPPER_FAILED) (ARG_ID i) (put i k s))"

definition em_works :: "bool option \<Rightarrow> int \<Rightarrow> gwd \<Rightarrow> gwd option \<Rightarrow> bool" where
  "em_works ok i s r \<longleftrightarrow> (\<forall>s'. r = Some s' \<longrightarrow> s' = s \<or> em_work i s s' \<or> (\<exists>b. ok = Some b \<and> em_end b i s s'))"

lemma em_workI:
  assumes "get_job s i = Some j" and "same_shape j k" and "tm_state k = tm_state j"
    and "s' = (put i k s)\<lparr>em_am := em_am s @ xs, mad_out := mad_out s @ ms\<rparr>" and "\<forall>x \<in> set xs. fst x \<noteq> EM_SUBMIT"
  shows "em_work i s s'"
  using assms unfolding em_work_def by blast

lemma put_same: "get_job s i = Some j \<Longrightarrow> put i j s = s"
  by (cases s) (auto simp: put_def put_job_def slot_put_def get_job_def gw_job_pool_get_def slot_get_def list_eq_iff_nth_eq
      nth_list_update split: if_splits)

lemma em_works_with_job:
  assumes "\<And>j. get_job s i = Some j \<Longrightarrow> em_works ok i s (body i j s)"
  shows "em_works ok i s (with_job no_job body (Some i) s)"
  using assms by (auto simp: em_works_def with_job_def no_job_def split: option.splits)

lemma retry_cancel_put:
  "retry_cancel i j s = s\<lparr>em_am := em_am s @ (if cancelling (job_state j) then [(EM_CANCEL, i)] else [])\<rparr>"
  by (simp add: retry_cancel_def trigger_em_def)

text \<open>The forms in which a handler ends.\<close>

lemma em_works_ends:
  assumes g: "get_job s i = Some j" and k: "same_shape j k" "tm_state k = tm_state j"
  shows "em_works ok i s (Some (put i k s))"
    "em_works ok i s (Some (retry_cancel i j (put i k s)))"
    "x \<noteq> EM_SUBMIT \<Longrightarrow> em_works ok i s (Some (trigger_em x i (put i k s)))"
    "em_works ok i s (Some (to_mad m (put i k s)))"
    "em_works (Some True) i s (Some (trigger_dm DM_WRAPPER_DONE (ARG_ID i) (put i k s)))"
    "em_works (Some False) i s (Some (trigger_dm DM_WRAPPER_FAILED (ARG_ID i) (put i k s)))"
proof -
  note w = em_workI [OF g k]
  have "em_work i s (put i k s)"
    by (rule w [where xs = "[]" and ms = "[]"]) (cases s, simp_all add: put_def)
  then show "em_works ok i s (Some (put i k s))" by (simp add: em_works_def)
  have "em_work i s (retry_cancel i j (put i k s))"
    by (rule w [where xs = "if cancelling (job_state j) then [(EM_CANCEL, i)] else []" and ms = "[]"])
       (cases s, simp_all add: put_def retry_cancel_put)
  then show "em_works ok i s (Some (retry_cancel i j (put i k s)))" by (simp add: em_works_def)
  have "em_work i s (trigger_em x i (put i k s))" if "x \<noteq> EM_SUBMIT"
    by (rule w [where xs = "[(x, i)]" and ms = "[]"]) (cases s, use that in \<open>simp_all add: put_def trigger_em_def\<close>)
  then show "x \<noteq> EM_SUBMIT \<Longrightarrow> em_works ok i s (Some (trigger_em x i (put i k s)))" by (simp add: em_works_def)
  have "em_work i s (to_mad m (put i k s))"
    by (rule w [where xs = "[]" and ms = "[m]"]) (cases s, simp_all add: put_def to_mad_def)
  then show "em_works ok i s (Some (to_mad m (put i k s)))" by (simp add: em_works_def)
  show "em_works (Some True) i s (Some (trigger_dm DM_WRAPPER_DONE (ARG_ID i) (put i k s)))"
    "em_works (Some False) i s (Some (trigger_dm DM_WRAPPER_FAILED (ARG_ID i) (put i k s)))"
    using g k by (auto simp: em_works_def em_end_def)
qed

lemma em_works_same [simp]: "em_works ok i s (Some s)" "em_works ok i s None"
  by (simp_all add: em_works_def)

lemma em_works_retry: "get_job s i = Some j \<Longrightarrow> em_works ok i s (Some (retry_cancel i j s))"
  using em_works_ends(2) [of s i j j ok] by (simp add: put_same)

lemma em_works_trigger: "get_job s i = Some j \<Longrightarrow> x \<noteq> EM_SUBMIT \<Longrightarrow> em_works ok i s (Some (trigger_em x i s))"
  using em_works_ends(3) [of s i j j x ok] by (simp add: put_same)

text \<open>A change of a record keeps the shape.\<close>

definition alike :: "gw_job \<Rightarrow> gw_job \<Rightarrow> bool" where
  "alike j k \<longleftrightarrow> same_shape j k \<and> tm_state k = tm_state j"

lemma alike_refl [simp]: "alike j j"
  by (simp add: alike_def)

lemma alike_simps [simp]:
  "alike j (k\<lparr>em_state := st\<rparr>) = alike j k" "alike j (k\<lparr>last_checkpoint_time := t\<rparr>) = alike j k"
  "alike j (k\<lparr>next_poll_time := t\<rparr>) = alike j k" "alike j (k\<lparr>exit_code := c\<rparr>) = alike j k"
  by (simp_all add: alike_def same_shape_def)

lemma alike_upd:
  assumes "alike j k" and "\<And>h. h_host (f h) = h_host h"
  shows "upd_top f k = Some l \<Longrightarrow> alike j l" "upd_next f k = Some l \<Longrightarrow> alike j l"
  using assms by (auto simp: alike_def same_shape_def upd_top_def upd_next_def split: list.splits)

lemma em_works_bind:
  "(\<And>x. m = Some x \<Longrightarrow> em_works ok i s (g x)) \<Longrightarrow> em_works ok i s (m \<bind> g)"
  by (cases m) auto

lemma em_works_bind_read:
  "(\<And>x. em_works ok i s (g x)) \<Longrightarrow> em_works ok i s (hist_top j \<bind> g)"
  "(\<And>x. em_works ok i s (f x)) \<Longrightarrow> em_works ok i s (executing_mad j \<bind> f)"
  by (simp_all add: em_works_bind)

lemma em_works_upd:
  assumes "alike j k" and "\<And>h. h_host (f h) = h_host h"
    and "\<And>l. alike j l \<Longrightarrow> em_works ok i s (g l)"
  shows "em_works ok i s (upd_top f k \<bind> g)" "em_works ok i s (upd_next f k \<bind> g)"
  by (rule em_works_bind, rule assms(3), erule alike_upd [OF assms(1,2)])+

lemma em_works_cases:
  "(b \<Longrightarrow> em_works ok i s x) \<Longrightarrow> (\<not> b \<Longrightarrow> em_works ok i s y) \<Longrightarrow> em_works ok i s (if b then x else y)"
  "em_works ok i s x \<Longrightarrow> (\<And>v. em_works ok i s (f v)) \<Longrightarrow> em_works ok i s (case m of None \<Rightarrow> x | Some v \<Rightarrow> f v)"
  "em_works ok i s (Some s1) \<Longrightarrow> (\<And>v. em_works ok i s (Some (h v))) \<Longrightarrow>
     em_works ok i s (Some (case m of None \<Rightarrow> s1 | Some v \<Rightarrow> h v))"
  by (auto split: option.split)

lemma alike_if [simp]: "alike j (if b then k else l) \<longleftrightarrow> (b \<longrightarrow> alike j k) \<and> (\<not> b \<longrightarrow> alike j l)"
  by simp

lemma alike_ends:
  assumes "get_job s i = Some j" and "alike j k"
  shows "em_works ok i s (Some (put i k s))" "em_works ok i s (Some (retry_cancel i j (put i k s)))"
    "x \<noteq> EM_SUBMIT \<Longrightarrow> em_works ok i s (Some (trigger_em x i (put i k s)))"
    "em_works ok i s (Some (to_mad m (put i k s)))"
    "em_works (Some True) i s (Some (trigger_dm DM_WRAPPER_DONE (ARG_ID i) (put i k s)))"
    "em_works (Some False) i s (Some (trigger_dm DM_WRAPPER_FAILED (ARG_ID i) (put i k s)))"
  using em_works_ends [OF assms(1), of k] assms(2) by (simp_all add: alike_def)

section \<open>The handlers\<close>

lemma since_host [simp]: "h_host ((set_stat k t \<circ> add_since a b u) h) = h_host h"
  by simp

lemma works_pending: "em_works None i s (gw_em_pending d (Some i) s)"
  unfolding gw_em_pending_def Let_def
proof (rule em_works_with_job, goal_cases)
  case (1 j)
  note upds = em_works_upd [where j = j] and ends = alike_ends [OF 1] em_works_retry [OF 1] em_works_trigger [OF 1]
  show ?case by (simp only: bind_if Option.bind_assoc Option.bind.bind_lunit)? (intro em_works_cases upds em_works_bind_read; simp add: ends)
qed

lemma works_active: "em_works None i s (gw_em_active d (Some i) s)"
  unfolding gw_em_active_def Let_def
proof (rule em_works_with_job, goal_cases)
  case (1 j)
  note upds = em_works_upd [where j = j] and ends = alike_ends [OF 1] em_works_retry [OF 1] em_works_trigger [OF 1]
  show ?case by (simp only: bind_if Option.bind_assoc Option.bind.bind_lunit)? (intro em_works_cases upds em_works_bind_read; simp add: ends)
qed

lemma works_suspended: "em_works None i s (gw_em_suspended d (Some i) s)"
  unfolding gw_em_suspended_def Let_def
proof (rule em_works_with_job, goal_cases)
  case (1 j)
  note upds = em_works_upd [where j = j] and ends = alike_ends [OF 1] em_works_retry [OF 1] em_works_trigger [OF 1]
  show ?case by (simp only: bind_if Option.bind_assoc Option.bind.bind_lunit)? (intro em_works_cases upds em_works_bind_read; simp add: ends)
qed

lemma works_done: "em_works (Some True) i s (gw_em_done d (Some i) s)"
  unfolding gw_em_done_def Let_def
proof (rule em_works_with_job, goal_cases)
  case (1 j)
  note upds = em_works_upd [where j = j] and ends = alike_ends [OF 1] em_works_retry [OF 1] em_works_trigger [OF 1]
  show ?case by (simp only: bind_if Option.bind_assoc Option.bind.bind_lunit)? (intro em_works_cases upds em_works_bind_read; simp add: ends)
qed

lemma works_failed: "em_works (Some False) i s (gw_em_failed d (Some i) s)"
  unfolding gw_em_failed_def Let_def
proof (rule em_works_with_job, goal_cases)
  case (1 j)
  note upds = em_works_upd [where j = j] and ends = alike_ends [OF 1] em_works_retry [OF 1] em_works_trigger [OF 1]
  show ?case by (simp only: bind_if Option.bind_assoc Option.bind.bind_lunit)? (intro em_works_cases upds em_works_bind_read; simp add: ends)
qed

lemma works_cancel: "em_works None i s (gw_em_cancel (Some i) s)"
  unfolding gw_em_cancel_def Let_def
proof (rule em_works_with_job, goal_cases)
  case (1 j)
  note upds = em_works_upd [where j = j] and ends = alike_ends [OF 1] em_works_retry [OF 1] em_works_trigger [OF 1]
  show ?case by (simp only: bind_if Option.bind_assoc Option.bind.bind_lunit)? (intro em_works_cases upds em_works_bind_read; simp add: ends)
qed

lemma works_submit: "em_works (Some False) i s (gw_em_submit e (Some i) s)"
  unfolding gw_em_submit_def submit_failed_def
  by (rule em_works_with_job)
     (auto simp: Let_def alike_def same_shape_def submit_stats_def intro!: alike_ends split: list.splits)

lemma with_exit_code_alike [simp]: "alike j (with_exit_code info k) = alike j k"
  by (auto simp: with_exit_code_def split: option.split)

definition mild :: "gw_job \<Rightarrow> em_verdict \<Rightarrow> bool" where
  "mild j r \<longleftrightarrow> (\<forall>k a. r = Some (k, a) \<longrightarrow> alike j k \<and> a \<noteq> Some EM_SUBMIT)"

lemma mild_simps [simp]: "mild j None" "mild j (Some (k, a)) \<longleftrightarrow> alike j k \<and> a \<noteq> Some EM_SUBMIT"
  by (auto simp: mild_def)

lemma mild_upd:
  "(\<And>h. h_host (f h) = h_host h) \<Longrightarrow> alike j k \<Longrightarrow> (\<And>l. alike j l \<Longrightarrow> mild j (g l)) \<Longrightarrow> mild j (upd_top f k \<bind> g)"
  using alike_upd(1) [of j k f] by (cases "upd_top f k") auto

lemma mild_top: "(\<And>h. mild j (g h)) \<Longrightarrow> mild j (hist_top k \<bind> g)"
  by (cases "hist_top k") auto

lemma mild_reported: "alike j k \<Longrightarrow> (\<And>l. alike j l \<Longrightarrow> mild j (f l)) \<Longrightarrow> mild j (em_reported f info k)"
  by (simp add: em_reported_def)

lemma mild_if: "(b \<Longrightarrow> mild j x) \<Longrightarrow> (\<not> b \<Longrightarrow> mild j y) \<Longrightarrow> mild j (if b then x else y)"
  by simp

lemma mild_verdict: "mild j (em_verdict_of e action res info j)"
proof -
  have p: "mild j (poll_failed e j)"
    unfolding poll_failed_def by (rule mild_upd, simp, simp, rule mild_top, rule mild_if; simp)
  have r: "mild j (upd_top (\<lambda>h. h\<lparr>h_tries := number_of_retries (template l)\<rparr>) l \<bind> (\<lambda>k. Some (k, Some EM_STATE_FAILED)))"
    if "alike j l" for l
    by (rule mild_upd [OF _ that]) simp_all
  show ?thesis unfolding em_verdict_of_def Let_def
    by (intro mild_if mild_reported p r; simp)
qed

lemma works_line: "em_works None (atoi sid) s (gw_em_listener_line e action sid res info s)"
proof (cases "get_job s (atoi sid)")
  case (Some j)
  define i where "i = atoi sid"
  have g: "get_job s i = Some j" using Some by (simp add: i_def)
  have "em_works None i s (do { (job, a) \<leftarrow> em_verdict_of e action res info j; let s = put i job s;
      Some (case a of None \<Rightarrow> s | Some x \<Rightarrow> trigger_em x i s) })"
  proof (cases "em_verdict_of e action res info j")
    case (Some v)
    obtain k a where v: "v = (k, a)" by (cases v)
    have "alike j k" "a \<noteq> Some EM_SUBMIT" using mild_verdict [of j e action res info] Some v by simp_all
    then show ?thesis using Some v by (cases a) (simp_all add: alike_ends [OF g])
  qed simp
  then show ?thesis using g unfolding gw_em_listener_line_def i_def [symmetric] by simp
qed (simp add: gw_em_listener_line_def)

section \<open>Steps of the abstract system\<close>

lemma work_steps:
  assumes b: "tm_backed s" and w: "em_work i s s'"
  shows "gw_step\<^sup>*\<^sup>* s s' \<and> tm_backed s' \<and> dm_am s' = dm_am s"
proof -
  obtain j k xs ms where g: "get_job s i = Some j" and k: "same_shape j k" "tm_state k = tm_state j"
    and xs: "\<forall>x \<in> set xs. fst x \<noteq> EM_SUBMIT"
    and s': "s' = (put i k s)\<lparr>em_am := em_am s @ xs, mad_out := mad_out s @ ms\<rparr>"
    using w by (auto simp: em_work_def)
  let ?a = "put i k s"
  let ?b = "?a\<lparr>em_am := em_am s @ xs\<rparr>"
  have "gw_step s ?a" by (rule working [OF g k(1)])
  moreover have "gw_step ?a ?b" by (rule events) (use xs in \<open>simp add: put_def filter_empty_conv\<close>)
  moreover have "gw_step ?b (?b\<lparr>rm_am := rm_am ?b, sched_out := sched_out ?b, mad_out := mad_out s @ ms\<rparr>)"
    by (rule core [OF outputs])
  moreover have "?b\<lparr>rm_am := rm_am ?b, sched_out := sched_out ?b, mad_out := mad_out s @ ms\<rparr> = s'"
    unfolding s' by simp
  moreover have "tm_backed s'"
  proof (rule backed_put [OF b g, where k = k])
    have "backed s i j" using b g by (simp add: tm_backed_def)
    then show "backed s i k" using k by (simp add: backed_def same_shape_def)
    show "get_job s' x = (if x = i then Some k else get_job s x)" for x
      using view_put(1) [OF g, of k x] unfolding s' by (simp add: get_job_def)
  qed (simp add: s' put_def)
  moreover have "dm_am s' = dm_am s" by (simp add: s' put_def)
  ultimately show ?thesis by (metis (no_types, lifting) rtranclp.rtrancl_refl rtranclp.rtrancl_into_rtrancl)
qed

text \<open>The ledger of the executions: one that is over leaves it.\<close>

definition em_closing :: "int \<Rightarrow> gwd \<Rightarrow> gwd \<Rightarrow> gwd" where
  "em_closing i s s' = (if dm_am s' = dm_am s then s' else em_release i s')"

text \<open>The end of an execution of the ledger, or no end.\<close>

definition owed :: "int \<Rightarrow> gwd \<Rightarrow> gwd \<Rightarrow> bool" where
  "owed i s s' \<longleftrightarrow> dm_am s' = dm_am s \<or>
     (EM_SUBMIT, i) \<in> set (em_am s) \<and> \<not> migrating s i \<and>
     (dm_am s' = dm_am s @ [(DM_WRAPPER_DONE, ARG_ID i)] \<or>
      map_option job_state (get_job s i) \<noteq> Some GW_JOB_STATE_MIGR_CANCEL)"

lemma trigger_no_finalize: "no_finalize s \<Longrightarrow> dm_am t = dm_am s \<Longrightarrow> trigger_dm a x t = t\<lparr>dm_am := dm_am s @ [(a, x)]\<rparr>"
  by (auto simp: trigger_dm_def no_finalize_def image_iff neq_Nil_conv)

lemma end_steps:
  assumes inv: "gwd_inv s" and b: "tm_backed s" and w: "em_end ok i s s'" and o: "owed i s s'"
  shows "gw_step s (em_closing i s s') \<and> tm_backed (em_closing i s s')"
proof -
  let ?a = "if ok then DM_WRAPPER_DONE else DM_WRAPPER_FAILED"
  obtain j k where g: "get_job s i = Some j" and k: "same_shape j k" "tm_state k = tm_state j"
    and s': "s' = trigger_dm ?a (ARG_ID i) (put i k s)"
    using w by (auto simp: em_end_def)
  note nf = trigger_no_finalize [OF inv_no_finalize [OF inv]]
  have am: "dm_am s' = dm_am s @ [(?a, ARG_ID i)]" unfolding s' by (simp add: nf)
  have ow: "(EM_SUBMIT, i) \<in> set (em_am s)" "\<not> migrating s i" "ok \<or> job_state j \<noteq> GW_JOB_STATE_MIGR_CANCEL"
    using o g am by (auto simp: owed_def)
  have c: "em_closing i s s' = trigger_dm ?a (ARG_ID i) (put i k (em_release i s))"
    using am by (simp add: em_closing_def) (simp add: s' nf em_release_def put_def)
  have "gw_step s (em_closing i s s')" unfolding c by (rule execution [OF ow(1,2) g k(1) ow(3)])
  moreover have "tm_backed (em_closing i s s')"
  proof (rule backed_put [OF b g, where k = k])
    have "backed s i j" using b g by (simp add: tm_backed_def)
    then show "backed s i k" using k by (simp add: backed_def same_shape_def)
    show "get_job (em_closing i s s') x = (if x = i then Some k else get_job s x)" for x
      using view_put(1) [OF g, of k x] unfolding c by (simp add: get_job_def nf em_release_def put_def)
  qed (simp add: c nf em_release_def put_def)
  ultimately show ?thesis by simp
qed

lemma works_steps:
  assumes "gwd_inv s" and "tm_backed s" and "em_works ok i s (Some s')" and "owed i s s'"
  shows "gw_step\<^sup>*\<^sup>* s (em_closing i s s') \<and> tm_backed (em_closing i s s')"
proof -
  consider "s' = s" | "em_work i s s'" | b where "em_end b i s s'"
    using assms(3) by (auto simp: em_works_def)
  then show ?thesis
  proof cases
    case 1
    then show ?thesis using assms(2) by (simp add: em_closing_def)
  next
    case 2
    then show ?thesis using work_steps [OF assms(2)] by (simp add: em_closing_def)
  next
    case 3
    then show ?thesis using end_steps [OF assms(1,2) _ assms(4)] by blast
  qed
qed

section \<open>The timer and the recovery\<close>

text \<open>
  The submissions that the timer asks for belong to executions that are in the ledger already, or run
  without an entry.
\<close>

definition with_em :: "(em_action \<times> int) list \<Rightarrow> gwd \<Rightarrow> gwd" where
  "with_em am s = s\<lparr>em_am := am\<rparr>"

lemma with_em_views [simp]:
  "get_job (with_em am s) i = get_job s i" "em_am (with_em am s) = am" "with_em am (with_em bm s) = with_em am s"
  "with_em am (put i k s) = put i k (with_em am s)" "with_em am (to_mad m s) = to_mad m (with_em am s)"
  "with_em am (trigger_em x i s) = with_em am s" "with_em (em_am s) s = s"
  by (simp_all add: with_em_def get_job_def put_def to_mad_def trigger_em_def)

lemma works_timer_at: "em_works None i (with_em am s) (Some (with_em am (em_timer_at e i s)))"
proof (cases "get_job s i")
  case (Some j)
  then have g: "get_job (with_em am s) i = Some j" by simp
  have m: "put i k (to_mad x t) = to_mad x (put i k t)" for k x t by (simp add: put_def to_mad_def)
  have a: "alike j (j\<lparr>history := h\<lparr>h_counter := c\<rparr> # hs\<rparr>)" if "history j = h # hs" for h hs c
    using that by (simp add: alike_def same_shape_def)
  show ?thesis
    by (simp add: em_timer_at_def Some em_timer_job_def m a alike_ends [OF g] split: list.split option.split)
qed (simp add: em_timer_at_def)

lemma works_recover: "em_works None (int i) s (Some (em_recover_job uid em c i s))"
proof (cases "get_job s (int i)")
  case (Some j)
  have "em_work (int i) s (to_mad m s)" for m
    using em_workI [OF Some, where k = j and xs = "[]" and ms = "[m]"] by (simp add: put_same [OF Some] to_mad_def)
  moreover have "em_work (int i) s (trigger_em EM_STATE_FAILED y s)" for y
    using em_workI [OF Some, where k = j and xs = "[(EM_STATE_FAILED, y)]" and ms = "[]"] by (simp add: put_same [OF Some] trigger_em_def)
  ultimately show ?thesis
    by (simp add: em_recover_job_def Some em_works_def split: list.split option.split)
qed (simp add: em_recover_job_def)

lemma quiet_steps:
  assumes "tm_backed s" and "em_works None i s (Some s')"
  shows "gw_step\<^sup>*\<^sup>* s s' \<and> tm_backed s'"
proof -
  consider "s' = s" | "em_work i s s'" using assms(2) by (auto simp: em_works_def)
  then show ?thesis using assms(1) work_steps by cases blast+
qed

lemma fold_steps:
  assumes "\<And>x s. \<exists>i. em_works None i (g s) (Some (g (f x s)))"
  shows "tm_backed (g s) \<Longrightarrow> gw_step\<^sup>*\<^sup>* (g s) (g (fold f xs s)) \<and> tm_backed (g (fold f xs s))"
proof (induction xs arbitrary: s)
  case (Cons x xs)
  obtain i where "em_works None i (g s) (Some (g (f x s)))" using assms by blast
  then have "gw_step\<^sup>*\<^sup>* (g s) (g (f x s))" "tm_backed (g (f x s))" using quiet_steps Cons.prems by blast+
  then show ?case using Cons.IH by (metis fold_simps(2) rtranclp_trans)
qed simp

lemma em_timer_steps:
  assumes "tm_backed s"
  shows "gw_step\<^sup>*\<^sup>* s (with_em (em_am s) (gw_em_timer e s)) \<and> tm_backed (with_em (em_am s) (gw_em_timer e s))"
  using fold_steps [of "with_em (em_am s)" "em_timer_at e" s] works_timer_at assms
  by (simp add: gw_em_timer_def) blast

lemma em_recover_steps:
  assumes "tm_backed s"
  shows "gw_step\<^sup>*\<^sup>* s (gw_job_pool_em_recover uid em c s) \<and> tm_backed (gw_job_pool_em_recover uid em c s)"
  using fold_steps [of id "em_recover_job uid em c" s] works_recover assms
  by (simp add: gw_job_pool_em_recover_def) blast

section \<open>The system\<close>

text \<open>An action of the execution manager leaves the list when it runs; a submission stays until it is over.\<close>

definition em_pop :: "em_action \<Rightarrow> int \<Rightarrow> gwd \<Rightarrow> gwd" where
  "em_pop x i s = (if x = EM_SUBMIT then s else with_em (remove1 (x, i) (em_am s)) s)"

text \<open>
  When an action ends the execution of a job, by the tests of the code: a report that it is done when it was not,
  a failure after the last retry, and a submission without a job description.
\<close>

definition submission_refused :: "em_env \<Rightarrow> gw_job \<Rightarrow> bool" where
  "submission_refused c job0 \<longleftrightarrow>
     (case history job0 of
        [] \<Rightarrow> False
      | h0 # hs \<Rightarrow>
          let job = job0\<lparr>em_state := GW_EM_STATE_INIT, history := h0\<lparr>h_counter := -1\<rparr> # hs\<rparr> in
          (if job_state job = GW_JOB_STATE_PRE_WRAPPER then pre_wrapper_rsl c job else wrapper_rsl c job) = None
          \<or> \<not> rsl_file_opens c)"

definition ends_execution :: "em_env \<Rightarrow> em_action \<Rightarrow> gw_job \<Rightarrow> bool" where
  "ends_execution c x job \<longleftrightarrow>
     (case x of
        EM_SUBMIT \<Rightarrow> submission_refused c job
      | EM_STATE_DONE \<Rightarrow> em_state job \<noteq> GW_EM_STATE_DONE
      | EM_STATE_FAILED \<Rightarrow> (case history job of [] \<Rightarrow> False | h # hs \<Rightarrow> number_of_retries (template job) \<le> h_tries h)
      | _ \<Rightarrow> False)"

text \<open>
  An execution that ends is in the ledger, and its job is not waiting for the start of a migration, nor does its
  execution fail while the migration is under way. An action that ends nothing is always admitted.
\<close>

definition em_admitted :: "em_env \<Rightarrow> em_action \<Rightarrow> int \<Rightarrow> gwd \<Rightarrow> bool" where
  "em_admitted c x i s \<longleftrightarrow>
     (case get_job s i of
        None \<Rightarrow> True
      | Some job \<Rightarrow> ends_execution c x job \<longrightarrow>
          (EM_SUBMIT, i) \<in> set (em_am s) \<and> \<not> migrating s i \<and>
          (x = EM_STATE_DONE \<or> job_state job \<noteq> GW_JOB_STATE_MIGR_CANCEL))"

lemma em_quiet: "em_works None i s (Some s') \<Longrightarrow> dm_am s' = dm_am s"
  by (auto simp: em_works_def em_work_def put_def)

lemma put_dm_am [simp]: "dm_am (put i k s) = dm_am s" "dm_am (to_mad m s) = dm_am s"
  by (simp_all add: put_def to_mad_def)

lemma submit_owed:
  assumes "gw_em_submit c (Some i) s = Some s'" and "em_admitted c EM_SUBMIT i s" and nf: "no_finalize s"
  shows "owed i s s'"
proof (cases "get_job s i")
  case None
  then show ?thesis using assms(1) by (simp add: gw_em_submit_def with_job_def no_job_def owed_def)
next
  case (Some j)
  show ?thesis
  proof (cases "submission_refused c j")
    case True
    then show ?thesis using assms(2) Some by (auto simp: owed_def em_admitted_def ends_execution_def)
  next
    case False
    then have "dm_am s' = dm_am s" using assms(1) Some
      by (cases "history j") (auto simp: gw_em_submit_def with_job_def submission_refused_def Let_def)
    then show ?thesis by (simp add: owed_def)
  qed
qed

lemma done_owed:
  assumes "gw_em_done d (Some i) s = Some s'" and "em_admitted c EM_STATE_DONE i s" and nf: "no_finalize s"
  shows "owed i s s'"
proof (cases "get_job s i")
  case None
  then show ?thesis using assms(1) by (simp add: gw_em_done_def with_job_def no_job_def owed_def)
next
  case (Some j)
  have "dm_am s' = dm_am s \<or> em_state j \<noteq> GW_EM_STATE_DONE \<and> dm_am s' = dm_am s @ [(DM_WRAPPER_DONE, ARG_ID i)]"
    using assms(1) Some
    by (auto simp: gw_em_done_def with_job_def Let_def bind_eq_Some_conv trigger_no_finalize [OF nf] split: if_splits)
  then show ?thesis using assms(2) Some by (auto simp: owed_def em_admitted_def ends_execution_def)
qed

lemma failed_owed:
  assumes "gw_em_failed d (Some i) s = Some s'" and "em_admitted c EM_STATE_FAILED i s" and nf: "no_finalize s"
  shows "owed i s s'"
proof (cases "get_job s i")
  case None
  then show ?thesis using assms(1) by (simp add: gw_em_failed_def with_job_def no_job_def owed_def)
next
  case (Some j)
  then obtain h hs where h: "history j = h # hs"
    using assms(1)
    by (cases "history j") (auto simp: gw_em_failed_def with_job_def upd_top_def hist_top_def split: if_splits)
  show ?thesis
  proof (cases "number_of_retries (template j) \<le> h_tries h")
    case True
    then show ?thesis using assms(2) Some h by (auto simp: owed_def em_admitted_def ends_execution_def)
  next
    case False
    then have "dm_am s' = dm_am s" using assms(1) Some h
      by (auto simp: gw_em_failed_def with_job_def Let_def upd_top_def hist_top_def add_since_def add_stat_def set_stat_def split: if_splits)
    then show ?thesis by (simp add: owed_def)
  qed
qed

lemma handler_owed:
  assumes "em_handler c d x (Some i) s = Some s'" and "em_admitted c x i s" and "no_finalize s"
  shows "owed i s s'"
proof (cases x)
  case EM_CANCEL
  then show ?thesis using assms(1) em_quiet [of i s s'] works_cancel [of i s] by (simp add: em_handler_def owed_def)
next
  case EM_STATE_PENDING
  then show ?thesis using assms(1) em_quiet [of i s s'] works_pending [of i s d] by (simp add: em_handler_def owed_def)
next
  case EM_STATE_ACTIVE
  then show ?thesis using assms(1) em_quiet [of i s s'] works_active [of i s d] by (simp add: em_handler_def owed_def)
next
  case EM_STATE_SUSPENDED
  then show ?thesis using assms(1) em_quiet [of i s s'] works_suspended [of i s d] by (simp add: em_handler_def owed_def)
qed (use assms submit_owed done_owed failed_owed in \<open>simp_all add: em_handler_def\<close>)

inductive sys_step :: "gwd \<Rightarrow> gwd \<Rightarrow> bool" where
  action: "dm_am s = (a, arg) # rest \<Longrightarrow> action_ok a arg s \<Longrightarrow> dm_step e s = Some s' \<Longrightarrow> sys_step s s'"
| request: "\<not> is_ctl a \<Longrightarrow> a \<noteq> DM_FINALIZE \<Longrightarrow> sys_step s (trigger_dm a arg s)"
| scheduler: "line_ok e l s \<Longrightarrow> gw_dm_listener_line e l s = Some s' \<Longrightarrow> sys_step s s'"
| outputs: "sys_step s (s\<lparr>rm_am := r, sched_out := q, mad_out := m\<rparr>)"
| tm_asked: "(b, i) \<in> set (tm_am s) \<Longrightarrow> tm_handler b (Some i) s = Some s' \<Longrightarrow> sys_step s s'"
| tm_timer: "gw_tm_timer t s = Some s' \<Longrightarrow> sys_step s s'"
| tm_line: "gw_tm_listener_line mad act sid x res s = Some s' \<Longrightarrow> sys_step s (closing (atoi sid) s s')"
| em_action: "x = EM_SUBMIT \<or> (x, i) \<in> set (em_am s) \<Longrightarrow>
    em_admitted c x i (em_pop x i s) \<Longrightarrow> em_handler c e x (Some i) (em_pop x i s) = Some s' \<Longrightarrow>
    sys_step s (em_closing i (em_pop x i s) s')"
| em_timer: "sys_step s (with_em (em_am s) (gw_em_timer c s))"
| em_line: "gw_em_listener_line c act sid res info s = Some s' \<Longrightarrow> sys_step s s'"
| em_reload: "sys_step s (gw_job_pool_em_recover uid em contact s)"

lemma em_handler_works: "\<exists>ok. em_works ok i s (em_handler c e x (Some i) s)"
  unfolding em_handler_def
  by (cases x; simp only: em_action.case; rule exI; rule works_submit works_cancel works_pending works_active
      works_suspended works_done works_failed)

lemma pop_steps:
  assumes "tm_backed s"
  shows "gw_step\<^sup>*\<^sup>* s (em_pop x i s)" "tm_backed (em_pop x i s)"
proof -
  have f: "x \<noteq> EM_SUBMIT \<Longrightarrow> filter (\<lambda>y. fst y = EM_SUBMIT) (remove1 (x, i) xs) = filter (\<lambda>y. fst y = EM_SUBMIT) xs" for xs
    by (induction xs) auto
  show "gw_step\<^sup>*\<^sup>* s (em_pop x i s)"
    using f events [of "remove1 (x, i) (em_am s)" s] by (auto simp: em_pop_def with_em_def)
  show "tm_backed (em_pop x i s)"
    using assms by (simp add: em_pop_def tm_backed_def backed_def) (simp add: with_em_def)
qed

lemma steps_inv: "gw_step\<^sup>*\<^sup>* s s' \<Longrightarrow> gwd_inv s \<Longrightarrow> gwd_inv s'"
  by (induction rule: rtranclp_induct) (auto intro: inv_step)

lemma sys_step_refines:
  assumes inv: "gwd_inv s" and b: "tm_backed s" and st: "sys_step s s'"
  shows "gw_step\<^sup>*\<^sup>* s s' \<and> tm_backed s'"
  using st
proof cases
  case (action a arg rest e)
  then show ?thesis using tm_step_refines [OF inv b daemon [OF gw_core.action]] by blast
next
  case (request a arg)
  then show ?thesis using tm_step_refines [OF inv b daemon [OF gw_core.request]] by blast
next
  case (scheduler e l)
  then show ?thesis using tm_step_refines [OF inv b daemon [OF gw_core.scheduler]] by blast
next
  case (outputs r q m)
  then show ?thesis using tm_step_refines [OF inv b daemon [OF gw_core.outputs]] by blast
next
  case (tm_asked b i)
  then show ?thesis using tm_step_refines [OF inv \<open>tm_backed s\<close> asked] by blast
next
  case (tm_timer t)
  then show ?thesis using tm_step_refines [OF inv b timer] by blast
next
  case (tm_line mad act sid x res s1)
  then show ?thesis using tm_step_refines [OF inv b line] by blast
next
  case (em_action x i c e s1)
  note p = pop_steps [OF b, of x i]
  have inv': "gwd_inv (em_pop x i s)" by (rule steps_inv [OF p(1) inv])
  have o: "owed i (em_pop x i s) s1" by (rule handler_owed [OF em_action(4,3) inv_no_finalize [OF inv']])
  obtain ok where "em_works ok i (em_pop x i s) (Some s1)" using em_handler_works em_action(4) by metis
  then show ?thesis
    using works_steps [OF inv' p(2) _ o] p(1) em_action(1)
    by (meson rtranclp_trans)
next
  case (em_timer c)
  then show ?thesis using em_timer_steps [OF b] by simp
next
  case (em_line c act sid res info)
  then show ?thesis using quiet_steps [OF b] works_line by metis
next
  case (em_reload uid em contact)
  then show ?thesis using em_recover_steps [OF b] by simp
qed

end
