(* ===== verification/EM_Results.thy ===== *)
theory EM_Results
  imports EM_System DM_Leaks
begin

text \<open>
  What holds of the daemon together with both managers: every run is one of the abstract system,
  failing polls and cancellations come to an end, and two ways in which an execution goes wrong.
\<close>

section \<open>The managers only do what the abstract system can do\<close>

definition sys_reachable :: "gwd \<Rightarrow> bool" where
  "sys_reachable s \<longleftrightarrow> (\<exists>s0. gwd_start s0 \<and> sys_step\<^sup>*\<^sup>* s0 s)"

lemma sys_reachable_inv: "sys_reachable s \<Longrightarrow> gw_reachable s \<and> tm_backed s"
proof -
  assume "sys_reachable s"
  then obtain s0 where s0: "gwd_start s0" and run: "sys_step\<^sup>*\<^sup>* s0 s" by (auto simp: sys_reachable_def)
  from run show ?thesis
  proof (induction rule: rtranclp_induct)
    case base
    then show ?case using s0 by (auto simp: gw_reachable_def tm_backed_def gwd_start_def)
  next
    case (step s1 s2)
    have "gwd_inv s1" using step.IH inv_reachable by blast
    from sys_step_refines [OF this _ step.hyps(2)] step.IH show ?case
      unfolding gw_reachable_def by (meson rtranclp_trans)
  qed
qed

lemma sys_reachable_step: "sys_reachable s \<Longrightarrow> sys_step s s' \<Longrightarrow> sys_reachable s'"
  unfolding sys_reachable_def by (meson rtranclp.rtrancl_into_rtrancl)

text \<open>
  C3: as long as no action of the execution manager ends an execution that is over already, that was never
  submitted or that is being migrated (\<open>em_admitted\<close>, a test of the job and the pending actions before the action),
  the daemon with its real transfer and execution managers only does what the abstract system can do, whatever
  else the drivers print: so every counter of hosts and users stays exact, and a transfer is under way only for
  a request that was not answered yet. Without the condition the claim fails (\<open>failure_reported_twice\<close>).
\<close>

theorem managers_refine:
  assumes "sys_reachable s"
  shows "gw_reachable s \<and> balanced s \<and>
     (\<forall>i j b. get_job s i = Some j \<and> tm_owner (tm_state j) = Some b \<longrightarrow> filter (\<lambda>x. snd x = i) (tm_am s) = [(b, i)])"
  by (rule backed_only_request [OF sys_reachable_inv [OF assms]])

theorem managers_refine_witness:
  "\<exists>s j. sys_reachable s \<and> get_job s 0 = Some j \<and> tm_owner (tm_state j) = Some TM_PROLOG \<and>
     filter (\<lambda>x. snd x = 0) (tm_am s) = [(TM_PROLOG, 0)] \<and> gw_reachable s"
proof -
  have 0: "sys_reachable demo_start" using demo_start_ok by (auto simp: sys_reachable_def)
  have 1: "sys_reachable demo_requested" unfolding demo_run(1)
    by (rule sys_reachable_step [OF 0 sys_step.request]) (simp_all add: is_ctl_def)
  have 2: "sys_reachable demo_submitted"
    by (rule sys_reachable_step [OF 1 sys_step.action [OF demo_run(2) demo_queues(1) demo_run(3)]])
  have 3: "sys_reachable demo_dispatched"
    by (rule sys_reachable_step [OF 2 sys_step.scheduler [OF demo_queues(2) demo_run(4)]])
  have 4: "sys_reachable demo_prolog"
    by (rule sys_reachable_step [OF 3 sys_step.action [OF demo_run(5) _ demo_run(6)]]) (simp add: action_ok_def)
  have d: "\<not> Option.is_none (gw_tm_prolog (Some 0) demo_prolog)"
    "map_option tm_state (get_job (the (gw_tm_prolog (Some 0) demo_prolog)) 0) = Some GW_TM_STATE_PROLOG"
    by code_simp+
  let ?s = "the (gw_tm_prolog (Some 0) demo_prolog)"
  have "tm_handler TM_PROLOG (Some 0) demo_prolog = Some ?s" using d(1) by (simp add: tm_handler_def Option.is_none_def)
  then have "sys_step demo_prolog ?s" by (rule sys_step.tm_asked [rotated]) (simp add: demo_queues(5))
  then have s: "sys_reachable ?s" by (rule sys_reachable_step [OF 4])
  obtain j where j: "get_job ?s 0 = Some j" "tm_state j = GW_TM_STATE_PROLOG" using d(2) by auto
  have "filter (\<lambda>x. snd x = 0) (tm_am ?s) = [(TM_PROLOG, 0)]" "gw_reachable ?s"
    using managers_refine [OF s] managers_refine [OF s, THEN conjunct2, THEN conjunct2, rule_format, of 0 j TM_PROLOG] j
    by (simp_all add: tm_owner_def)
  then show ?thesis using s j by (auto simp: tm_owner_def)
qed

section \<open>An example\<close>

text \<open>The execution of the example: job 0 is executing on host 0, and may have been tried before.\<close>

definition demo_exec :: "gw_em_state \<Rightarrow> gw_history list \<Rightarrow> gwd" where
  "demo_exec st new = demo_two\<lparr>dm_am := [], em_am := [(EM_SUBMIT, 0)],
     gd_jobs := (gd_jobs demo_two)\<lparr>pool := map (map_option (\<lambda>j. j\<lparr>em_state := st,
       history := new @ [(hd (history j))\<lparr>h_tries := 5, h_counter := 2\<rparr>]\<rparr>)) (pool (gd_jobs demo_two))\<rparr>\<rparr>"

definition demo_em_env :: em_env where
  "demo_em_env = \<lparr>em_time = 100, poll_interval = 10, gw_rand = (\<lambda>n. 1), wrapper_rsl = (\<lambda>j. Some []),
     pre_wrapper_rsl = (\<lambda>j. Some []), rsl_file_opens = True\<rparr>"

definition demo_new :: gw_history where
  "demo_new = (hd (history (the (get_job demo_two 0))))\<lparr>h_host := Some 1\<rparr>"

lemma demo_exec_job:
  obtains j x where "get_job (demo_exec st new) 0 = Some j" "job_state j = GW_JOB_STATE_WRAPPER" "em_state j = st"
    "history j = new @ [x]" "h_host x = Some 0" "h_tries x = 5" "h_counter x = 2" "failed_polls x = 0" "cancel_tries x = 0"
    "h_em_mad x = ''em''" "number_of_retries (template j) \<le> 5" "np (template j) = 2" "get_host (demo_exec st new) 0 \<noteq> None"
proof -
  let ?v = "map_option (\<lambda>j. (job_state j, map h_host (history j), map failed_polls (history j), map cancel_tries (history j),
      map h_em_mad (history j), number_of_retries (template j) \<le> 5, np (template j))) (get_job demo_two 0)"
  have "?v = Some (GW_JOB_STATE_WRAPPER, [Some 0], [0], [0], [''em''], True, 2)" by code_simp
  then obtain j where j: "get_job demo_two 0 = Some j" "job_state j = GW_JOB_STATE_WRAPPER" "map h_host (history j) = [Some 0]"
      "map failed_polls (history j) = [0]" "map cancel_tries (history j) = [0]" "map h_em_mad (history j) = [''em'']"
      "number_of_retries (template j) \<le> 5" "np (template j) = 2"
    by auto
  from j(3) obtain h where h: "history j = [h]" by (cases "history j") auto
  let ?x = "h\<lparr>h_tries := 5, h_counter := 2\<rparr>"
  let ?j = "j\<lparr>em_state := st, history := new @ [?x]\<rparr>"
  have g: "get_job (demo_exec st new) 0 = Some ?j"
    using j(1) h by (auto simp: demo_exec_def get_job_def gw_job_pool_get_def slot_get_def split: if_splits)
  have "\<not> Option.is_none (get_host demo_two 0)" by code_simp
  then have "get_host (demo_exec st new) 0 \<noteq> None" by (simp add: demo_exec_def get_host_def Option.is_none_def)
  then show thesis using that [OF g, of ?x] j h by simp
qed

lemma demo_id: "atoi ''0'' = 0"
  by code_simp

section \<open>Polls that fail and cancellations come to an end\<close>

text \<open>The answers to failing polls of one job, one after the other, with the environment of each.\<close>

definition failing_polls :: "string \<Rightarrow> (em_env \<times> string \<times> string) list \<Rightarrow> gwd \<Rightarrow> gwd option" where
  "failing_polls sid ls s =
     fold (\<lambda>(e, res, info) r. r \<bind> gw_em_listener_line e ''POLL'' sid res info) ls (Some s)"

lemma poll_line:
  assumes "get_job s (atoi sid) = Some j" and "sid = [] \<or> hd sid \<noteq> CHR ''-''" and "execution_state (job_state j)"
    and "em_state j \<noteq> GW_EM_STATE_HARD_KILL" and "history j = h # hs" and "res \<noteq> ''SUCCESS''"
  obtains k where "gw_em_listener_line e ''POLL'' sid res info s =
      Some ((put (atoi sid) k s)\<lparr>em_am := em_am s @ (if failed_polls h = 2 then [(EM_STATE_DONE, atoi sid)] else [])\<rparr>)"
    "job_state k = job_state j" "em_state k = em_state j" "history k = h\<lparr>failed_polls := failed_polls h + 1\<rparr> # hs"
proof (cases "failed_polls h = 2")
  case True
  let ?k = "j\<lparr>history := h\<lparr>failed_polls := 3\<rparr> # hs\<rparr>"
  show thesis
    by (rule that [of ?k])
       (use assms True in \<open>auto simp: gw_em_listener_line_def em_verdict_of_def poll_failed_def upd_top_def hist_top_def
          Let_def trigger_em_def put_def\<close>)
next
  case False
  let ?n = "failed_polls h + 1"
  let ?k = "j\<lparr>history := h\<lparr>failed_polls := ?n\<rparr> # hs,
      next_poll_time := em_time e + poll_interval e * ?n + gw_rand e (poll_interval e * ?n)\<rparr>"
  show thesis
    by (rule that [of ?k])
       (use assms False in \<open>auto simp: gw_em_listener_line_def em_verdict_of_def poll_failed_def upd_top_def hist_top_def
          Let_def put_def\<close>)
qed

lemma failing_polls_from:
  assumes "get_job s (atoi sid) = Some j" and "sid = [] \<or> hd sid \<noteq> CHR ''-''" and "execution_state (job_state j)"
    and "em_state j \<noteq> GW_EM_STATE_HARD_KILL" and "history j = h # hs"
    and "\<forall>l \<in> set ls. fst (snd l) \<noteq> ''SUCCESS''"
  shows "\<exists>s'. failing_polls sid ls s = Some s' \<and> dm_am s' = dm_am s \<and> mad_out s' = mad_out s \<and>
     em_am s' = em_am s @ (if failed_polls h \<le> 2 \<and> 3 \<le> failed_polls h + int (length ls) then [(EM_STATE_DONE, atoi sid)] else [])"
  using assms(1,3-6)
proof (induction ls arbitrary: s j h)
  case Nil
  then show ?case by (auto simp: failing_polls_def)
next
  case (Cons l ls)
  obtain e res info where l: "l = (e, res, info)" by (cases l)
  let ?xs = "if failed_polls h = 2 then [(EM_STATE_DONE, atoi sid)] else []"
  obtain k where k: "gw_em_listener_line e ''POLL'' sid res info s = Some ((put (atoi sid) k s)\<lparr>em_am := em_am s @ ?xs\<rparr>)"
    "job_state k = job_state j" "em_state k = em_state j" "history k = h\<lparr>failed_polls := failed_polls h + 1\<rparr> # hs"
    by (rule poll_line [OF Cons.prems(1) assms(2) Cons.prems(2-4), of res e info]) (use Cons.prems(5) l in auto)
  let ?s = "(put (atoi sid) k s)\<lparr>em_am := em_am s @ ?xs\<rparr>"
  have g: "get_job ?s (atoi sid) = Some k"
    using view_put(1) [OF Cons.prems(1), of k "atoi sid"] by (simp add: get_job_def)
  have "failing_polls sid (l # ls) s = failing_polls sid ls ?s" by (simp add: failing_polls_def l k(1))
  then show ?case
    using Cons.IH [OF g, of "h\<lparr>failed_polls := failed_polls h + 1\<rparr>"] Cons.prems(2-5) k(2-4)
    by (auto simp: put_def)
qed

text \<open>
  C11: a driver that only answers polls with failures is not asked for ever: whatever the answers say, the third in a
  row ends the execution, once, and further ones change nothing but the time of the next poll.
\<close>

theorem failed_polls_end:
  assumes "get_job s (atoi sid) = Some j" and "sid = [] \<or> hd sid \<noteq> CHR ''-''" and "execution_state (job_state j)"
    and "em_state j \<noteq> GW_EM_STATE_HARD_KILL" and "history j = h # hs" and "failed_polls h = 0"
    and "\<forall>l \<in> set ls. fst (snd l) \<noteq> ''SUCCESS''"
  shows "\<exists>s'. failing_polls sid ls s = Some s' \<and> dm_am s' = dm_am s \<and> mad_out s' = mad_out s \<and>
     em_am s' = em_am s @ (if 3 \<le> length ls then [(EM_STATE_DONE, atoi sid)] else [])"
  using failing_polls_from [OF assms(1-5,7)] assms(6) by auto

theorem failed_polls_end_witness:
  "\<exists>s'. failing_polls ''0'' [(demo_em_env, ''FAILURE'', ''-''), (demo_em_env, ''FAILURE'', ''-''), (demo_em_env, ''FAILURE'', ''-'')]
      (demo_exec GW_EM_STATE_ACTIVE []) = Some s' \<and> em_am s' = [(EM_SUBMIT, 0), (EM_STATE_DONE, 0)]"
proof -
  obtain j x where j: "get_job (demo_exec GW_EM_STATE_ACTIVE []) (atoi ''0'') = Some j" "execution_state (job_state j)"
    "em_state j \<noteq> GW_EM_STATE_HARD_KILL" "history j = x # []" "failed_polls x = 0"
    by (rule demo_exec_job [of GW_EM_STATE_ACTIVE "[]"]) (simp add: demo_id execution_state_def)
  show ?thesis
    using failed_polls_end [OF j(1) _ j(2-5), of "[(demo_em_env, ''FAILURE'', ''-''), (demo_em_env, ''FAILURE'', ''-''),
      (demo_em_env, ''FAILURE'', ''-'')]"]
    by (auto simp: demo_id demo_exec_def)
qed

text \<open>Cancelling an execution again and again.\<close>

definition cancels :: "int \<Rightarrow> nat \<Rightarrow> gwd \<Rightarrow> gwd option" where
  "cancels i n s = ((\<lambda>r. r \<bind> gw_em_cancel (Some i)) ^^ n) (Some s)"

lemma cancels_Suc: "cancels i (Suc n) s = gw_em_cancel (Some i) s \<bind> cancels i n"
proof -
  have "((\<lambda>r. r \<bind> gw_em_cancel (Some i)) ^^ n) None = None" by (induction n) simp_all
  then show ?thesis unfolding cancels_def
    by (cases "gw_em_cancel (Some i) s") (simp_all only: funpow_Suc_right comp_apply Option.bind.simps)
qed

lemma cancels_from:
  assumes "get_job s i = Some j" and "issubmitted (em_state j)" and "history j = h # hs" and "0 \<le> cancel_tries h"
    and "executing_mad j = Some (Some m)"
  shows "\<exists>s'. cancels i n s = Some s' \<and> dm_am s' = dm_am s \<and>
     mad_out s' = mad_out s @ replicate (min n (nat (3 - cancel_tries h))) (EM_MAD_CANCEL m i) \<and>
     em_am s' = em_am s @ replicate (n - nat (3 - cancel_tries h)) (EM_STATE_DONE, i)"
  using assms
proof (induction n arbitrary: s j h)
  case 0
  then show ?case by (simp add: cancels_def)
next
  case (Suc n)
  show ?case
  proof (cases "cancel_tries h \<ge> 3")
    case True
    let ?s = "trigger_em EM_STATE_DONE i s"
    have "gw_em_cancel (Some i) s = Some ?s" using Suc.prems True by (simp add: gw_em_cancel_def with_job_def hist_top_def)
    moreover have "get_job ?s i = Some j" using Suc.prems(1) by (simp add: get_job_def trigger_em_def)
    ultimately show ?thesis
      using Suc.IH [of ?s j h] Suc.prems True by (simp add: cancels_Suc trigger_em_def)
  next
    case False
    let ?h = "h\<lparr>cancel_tries := cancel_tries h + 1\<rparr>"
    let ?k = "j\<lparr>history := ?h # hs\<rparr>"
    let ?s = "to_mad (EM_MAD_CANCEL m i) (put i ?k s)"
    have m: "executing_mad ?k = Some (Some m)"
      using Suc.prems(3,5) by (auto simp: executing_mad_def split: if_splits list.splits)
    have c: "gw_em_cancel (Some i) s = Some ?s"
      using Suc.prems False m by (simp add: gw_em_cancel_def with_job_def hist_top_def upd_top_def Let_def)
    have g: "get_job ?s i = Some ?k" using view_put(1) [OF Suc.prems(1), of ?k i] by (simp add: get_job_def to_mad_def)
    have n: "nat (3 - cancel_tries h) = Suc (nat (3 - cancel_tries ?h))" using False Suc.prems(4) by simp
    show ?thesis
      using Suc.IH [OF g _ _ _ m] Suc.prems(2,4) c unfolding n by (simp add: cancels_Suc to_mad_def put_def)
  qed
qed

text \<open>
  C12: cancelling an execution is given up: however often it is asked for, the driver gets at most three
  requests, and every further attempt takes the execution for done.
\<close>

theorem cancel_gives_up:
  assumes "get_job s i = Some j" and "issubmitted (em_state j)" and "history j = h # hs" and "cancel_tries h = 0"
    and "executing_mad j = Some (Some m)"
  shows "\<exists>s'. cancels i n s = Some s' \<and> dm_am s' = dm_am s \<and>
     mad_out s' = mad_out s @ replicate (min n 3) (EM_MAD_CANCEL m i) \<and>
     em_am s' = em_am s @ replicate (n - 3) (EM_STATE_DONE, i)"
  using cancels_from [OF assms(1-3) _ assms(5), of n] assms(4) by simp

theorem cancel_gives_up_witness:
  "\<exists>s'. cancels 0 4 (demo_exec GW_EM_STATE_ACTIVE []) = Some s' \<and>
     mad_out s' = mad_out demo_two @ replicate 3 (EM_MAD_CANCEL ''em'' 0) \<and>
     em_am s' = [(EM_SUBMIT, 0), (EM_STATE_DONE, 0)]"
proof -
  obtain j x where j: "get_job (demo_exec GW_EM_STATE_ACTIVE []) 0 = Some j" "issubmitted (em_state j)"
    "history j = x # []" "cancel_tries x = 0" "executing_mad j = Some (Some ''em'')"
    by (rule demo_exec_job [of GW_EM_STATE_ACTIVE "[]"]) (simp add: issubmitted_def executing_mad_def)
  show ?thesis using cancel_gives_up [OF j, of 4] by (auto simp: demo_exec_def)
qed

section \<open>A migration of a job that waits for its next try\<close>

lemma timer_elsewhere:
  assumes "x \<noteq> i" and "get_job s i = Some j"
  shows "get_job (em_timer_at e x s) i = get_job s i \<and> dm_am (em_timer_at e x s) = dm_am s \<and>
     filter (\<lambda>y. snd y = i) (em_am (em_timer_at e x s)) = filter (\<lambda>y. snd y = i) (em_am s)"
proof (cases "get_job s x")
  case (Some k)
  have "get_job (put x l t) i = get_job t i" if "gd_jobs t = gd_jobs s" for l t
    using view_put(1) [of t x k l i] that Some assms(1) by (simp add: get_job_def)
  then show ?thesis using assms(1)
    by (auto simp: em_timer_at_def Some em_timer_job_def trigger_em_def to_mad_def put_def get_job_def split: list.split option.split)
qed (simp add: em_timer_at_def)

definition stuck :: "gw_job \<Rightarrow> bool" where
  "stuck j \<longleftrightarrow> job_state j = GW_JOB_STATE_MIGR_CANCEL \<and> em_state j = GW_EM_STATE_FAILED \<and>
     (\<exists>h hs. history j = h # hs \<and> h_counter h = -1)"

lemma timer_stuck: "get_job s i = Some j \<Longrightarrow> stuck j \<Longrightarrow> em_timer_at e i s = s"
  by (auto simp: stuck_def em_timer_at_def em_timer_job_def issubmitted_def)

lemma fold_timer_stuck:
  assumes "get_job s i = Some j" and "stuck j"
  shows "get_job (fold (em_timer_at e) xs s) i = Some j \<and> dm_am (fold (em_timer_at e) xs s) = dm_am s \<and>
     filter (\<lambda>y. snd y = i) (em_am (fold (em_timer_at e) xs s)) = filter (\<lambda>y. snd y = i) (em_am s)"
  using assms(1)
proof (induction xs arbitrary: s)
  case (Cons x xs)
  have "get_job (em_timer_at e x s) i = Some j \<and> dm_am (em_timer_at e x s) = dm_am s \<and>
     filter (\<lambda>y. snd y = i) (em_am (em_timer_at e x s)) = filter (\<lambda>y. snd y = i) (em_am s)"
    using timer_elsewhere [OF _ Cons.prems, of x e] timer_stuck [OF Cons.prems assms(2)] Cons.prems by (cases "x = i") auto
  then show ?case using Cons.IH by fastforce
qed simp

lemma timers_stuck:
  assumes "get_job s i = Some j" and "stuck j"
  shows "get_job (fold gw_em_timer es s) i = Some j \<and> dm_am (fold gw_em_timer es s) = dm_am s \<and>
     filter (\<lambda>y. snd y = i) (em_am (fold gw_em_timer es s)) = filter (\<lambda>y. snd y = i) (em_am s)"
  using assms(1)
proof (induction es arbitrary: s)
  case (Cons e es)
  show ?case using fold_timer_stuck [OF Cons.prems assms(2), of e "map int [0..<length (pool (gd_jobs s))]"]
      Cons.IH [of "gw_em_timer e s"] by (simp add: gw_em_timer_def)
qed simp

text \<open>
  C9: the migration of a job that waits for its next try never ends. The cancellation finds nothing
  to cancel, and the timer looks for the try in the record of the new host: however often it runs, the job is neither
  submitted again nor taken for done, and nobody is told.
\<close>

theorem waiting_migration_stuck:
  assumes "get_job s i = Some j" and "job_state j = GW_JOB_STATE_WRAPPER" and "em_state j = GW_EM_STATE_FAILED"
    and "history j = x # y # ys" and "h_counter x = -1" and "0 < h_counter y" and "cancel_tries x < 3"
    and "em_am s = [(EM_SUBMIT, i)]"
  shows "\<exists>s1 s2 k. gw_dm_migr_cancel d (Some i) s = Some s1 \<and> em_am s1 = [(EM_SUBMIT, i), (EM_CANCEL, i)] \<and>
     em_handler e d EM_CANCEL (Some i) (em_pop EM_CANCEL i s1) = Some s2 \<and> mad_out s2 = mad_out s \<and>
     job_state k = GW_JOB_STATE_MIGR_CANCEL \<and>
     (\<forall>es. get_job (fold gw_em_timer es s2) i = Some k \<and> dm_am (fold gw_em_timer es s2) = dm_am s \<and>
        filter (\<lambda>z. snd z = i) (em_am (fold gw_em_timer es s2)) = [(EM_SUBMIT, i)])"
proof -
  let ?x = "set_stat MIGRATION_START_TIME (now d) x"
  let ?j = "(set_state GW_JOB_STATE_MIGR_CANCEL (j\<lparr>history := ?x # y # ys\<rparr>))"
  let ?s1 = "trigger_em EM_CANCEL i (put i ?j (log_state d ?j s))"
  let ?k = "?j\<lparr>history := ?x\<lparr>cancel_tries := cancel_tries x + 1\<rparr> # y # ys\<rparr>"
  let ?p = "em_pop EM_CANCEL i ?s1"
  let ?s2 = "put i ?k ?p"
  have a: "gw_dm_migr_cancel d (Some i) s = Some ?s1"
    using assms(1-4) by (simp add: gw_dm_migr_cancel_def with_job_def upd_top_def gw_job_set_state_def)
  have g1: "get_job ?p i = Some ?j"
    using view_put(1) [of "log_state d ?j s" i j ?j i] assms(1)
    by (simp add: em_pop_def get_job_def trigger_em_def with_em_def log_state_def)
  have c: "em_handler e d EM_CANCEL (Some i) ?p = Some ?s2"
    using g1 assms(3,7)
    by (simp add: em_handler_def gw_em_cancel_def with_job_def hist_top_def upd_top_def set_stat_def issubmitted_def set_state_def)
  have g2: "get_job ?s2 i = Some ?k" using view_put(1) [OF g1, of ?k i] by (simp add: get_job_def)
  have st: "stuck ?k" using assms(3,5) by (simp add: stuck_def set_state_def set_stat_def)
  have am: "em_am ?s2 = [(EM_SUBMIT, i)]" "dm_am ?s2 = dm_am s" "mad_out ?s2 = mad_out s"
    using assms(8) by (simp_all add: put_def em_pop_def with_em_def trigger_em_def log_state_def)
  have e1: "em_am ?s1 = [(EM_SUBMIT, i), (EM_CANCEL, i)]"
    using assms(8) by (simp add: trigger_em_def put_def log_state_def)
  have "job_state ?k = GW_JOB_STATE_MIGR_CANCEL" by (simp add: set_state_def)
  moreover have "get_job (fold gw_em_timer es ?s2) i = Some ?k \<and> dm_am (fold gw_em_timer es ?s2) = dm_am s \<and>
        filter (\<lambda>z. snd z = i) (em_am (fold gw_em_timer es ?s2)) = [(EM_SUBMIT, i)]" for es
    using timers_stuck [OF g2 st, of es] am by simp
  ultimately show ?thesis using a c am(3) e1 by blast
qed

theorem waiting_migration_stuck_witness:
  "\<exists>s1 s2 k. gw_dm_migr_cancel demo_env (Some 0) (demo_exec GW_EM_STATE_FAILED [demo_new]) = Some s1 \<and>
     gw_em_cancel (Some 0) (em_pop EM_CANCEL 0 s1) = Some s2 \<and> job_state k = GW_JOB_STATE_MIGR_CANCEL \<and>
     get_job (gw_em_timer demo_em_env (gw_em_timer demo_em_env s2)) 0 = Some k"
proof -
  have n: "h_counter demo_new = -1" "cancel_tries demo_new = 0" by code_simp+
  obtain j x where j: "get_job (demo_exec GW_EM_STATE_FAILED [demo_new]) 0 = Some j" "job_state j = GW_JOB_STATE_WRAPPER"
    "em_state j = GW_EM_STATE_FAILED" "history j = demo_new # x # []" "0 < h_counter x"
    by (rule demo_exec_job [of GW_EM_STATE_FAILED "[demo_new]"]) simp
  have e: "em_am (demo_exec GW_EM_STATE_FAILED [demo_new]) = [(EM_SUBMIT, 0)]" "cancel_tries demo_new < 3"
    using n by (simp_all add: demo_exec_def)
  obtain s1 s2 k where s: "gw_dm_migr_cancel demo_env (Some 0) (demo_exec GW_EM_STATE_FAILED [demo_new]) = Some s1"
    "em_handler demo_em_env demo_env EM_CANCEL (Some 0) (em_pop EM_CANCEL 0 s1) = Some s2"
    "job_state k = GW_JOB_STATE_MIGR_CANCEL" "\<And>es. get_job (fold gw_em_timer es s2) 0 = Some k"
    using waiting_migration_stuck [OF j(1-4) n(1) j(5) e(2,1), of demo_env demo_em_env] by blast
  show ?thesis using s(1-3) s(4) [of "[demo_em_env, demo_em_env]"] by (auto simp: em_handler_def)
qed

section \<open>A failure that is reported twice\<close>

lemma em_pop_views [simp]:
  "gd_jobs (em_pop x i s) = gd_jobs s" "gd_hosts (em_pop x i s) = gd_hosts s" "dm_am (em_pop x i s) = dm_am s"
  "get_job (em_pop x i s) k = get_job s k" "get_job (trigger_em x i s) k = get_job s k"
  by (simp_all add: em_pop_def with_em_def get_job_def trigger_em_def)

lemma em_failed_finally:
  assumes g: "get_job s i = Some j" and hist: "history j = x # xs" and f: "number_of_retries (template j) \<le> h_tries x"
  obtains k y where "gw_em_failed d (Some i) s = Some (trigger_dm DM_WRAPPER_FAILED (ARG_ID i) (put i k s))"
    "history k = y # xs" "h_tries y = h_tries x" "h_host y = h_host x" "template k = template j" "job_state k = job_state j"
proof -
  have "\<exists>k y. gw_em_failed d (Some i) s = Some (trigger_dm DM_WRAPPER_FAILED (ARG_ID i) (put i k s)) \<and>
      history k = y # xs \<and> h_tries y = h_tries x \<and> h_host y = h_host x \<and> template k = template j \<and> job_state k = job_state j"
    using g hist f by (cases "em_state j")
      (auto simp: gw_em_failed_def with_job_def upd_top_def hist_top_def Let_def add_since_def add_stat_def set_stat_def)
  then show thesis using that by blast
qed

lemma wrapper_failed_slots:
  assumes g: "get_job s i = Some j" and hist: "history j = x # xs" "h_host x = Some hid" and ho: "get_host s hid \<noteq> None"
  shows "\<exists>s' k y. gw_dm_wrapper_failed_cb e (Some i) s = Some s' \<and> get_job s' i = Some k \<and> history k = y # xs \<and>
     h_host y = Some hid \<and> template k = template j \<and> get_host s' hid \<noteq> None \<and>
     uslots s' hid = uslots s hid - np (template j) \<and>
     dm_am s' = dm_am (trigger_dm DM_STATE_EPILOG_FAIL (ARG_ID i) s)"
proof -
  obtain k y t where k: "gw_dm_wrapper_failed_cb e (Some i) s = Some (trigger_dm DM_STATE_EPILOG_FAIL (ARG_ID i)
        (put i k (host_upd (gw_host_dec_uslots (np (template j))) hid t)))"
    "history k = y # xs" "h_host y = Some hid" "template k = template j"
    "gd_jobs t = gd_jobs s" "gd_hosts t = gd_hosts s" "dm_am t = dm_am s"
  proof -
    let ?j = "j\<lparr>em_state := GW_EM_STATE_INIT\<rparr>"
    have h: "host_op f (Some hid) t = Some (host_upd f hid t)" if "gd_hosts t = gd_hosts s" for f t
      using ho that by (intro host_op_upd) (simp add: get_host_def)
    show thesis
    proof (cases "job_state j = GW_JOB_STATE_WRAPPER \<and> reschedule j")
      case True
      let ?y = "set_reason GW_REASON_EXECUTION_ERROR (set_stat WRAPPER_EXIT_TIME (now e) x)"
      show thesis
        by (rule that [of "?j\<lparr>reschedule := False, history := ?y # xs\<rparr>" "send (JOB_DEL (job_id j)) s" ?y])
           (use True g hist h in \<open>simp_all add: gw_dm_wrapper_failed_cb_def with_job_def upd_top_def withdraw_reschedule_def
              set_reason_def set_stat_def send_def\<close>)
    next
      case False
      let ?z = "if job_state j = GW_JOB_STATE_WRAPPER then set_stat WRAPPER_EXIT_TIME (now e) x
        else if job_state j = GW_JOB_STATE_PRE_WRAPPER then set_stat PRE_WRAPPER_EXIT_TIME (now e) x else x"
      let ?y = "set_reason GW_REASON_EXECUTION_ERROR ?z"
      show thesis
        by (rule that [of "?j\<lparr>history := ?y # xs\<rparr>" s ?y])
           (use False g hist h in \<open>cases "job_state j"; simp add: gw_dm_wrapper_failed_cb_def with_job_def upd_top_def
              withdraw_reschedule_def set_reason_def set_stat_def\<close>)+
    qed
  qed
  have ht: "get_host t hid \<noteq> None" using ho k(6) by (simp add: get_host_def)
  let ?t = "host_upd (gw_host_dec_uslots (np (template j))) hid t"
  have gt: "get_job ?t i = Some j" using g k(5) host_upd_other(1) [OF ht] by (simp add: get_job_def)
  have "uslots ?t hid = uslots s hid - np (template j)"
    using host_counters [OF ht] k(6) by (simp add: uslots_def get_host_def)
  moreover let ?s = "trigger_dm DM_STATE_EPILOG_FAIL (ARG_ID i) (put i k ?t)"
  have "get_job ?s i = Some k" using view_put(1) [OF gt, of k i] by (simp add: gw_frame)
  moreover have "get_host ?s hid \<noteq> None" using host_upd_none [OF ht, of _ hid] ht by (simp add: gw_frame get_host_def)
  moreover have "uslots ?s hid = uslots ?t hid" by (simp add: gw_frame)
  moreover have "dm_am ?s = dm_am (trigger_dm DM_STATE_EPILOG_FAIL (ARG_ID i) s)"
    using host_upd_other(3) [OF ht] k(7) by (simp add: trigger_dm_def)
  ultimately show ?thesis using k(1-4) by auto
qed

text \<open>
  C10: the execution manager does not remember that it has given an execution up. When the driver reports
  its failure twice (a poll and a callback, say) before the dispatch manager gets to it, both reports are handed on, and the
  slots of the host are given back twice.
\<close>

theorem failure_reported_twice:
  assumes "get_job s (atoi sid) = Some j" and "sid = [] \<or> hd sid \<noteq> CHR ''-''" and "job_state j = GW_JOB_STATE_WRAPPER"
    and "em_state j \<noteq> GW_EM_STATE_HARD_KILL" and "history j = x # xs" and "number_of_retries (template j) \<le> h_tries x"
    and "h_host x = Some hid" and "get_host s hid \<noteq> None" and "dm_am s = []"
  shows "\<exists>s'. do {
       s \<leftarrow> gw_em_listener_line e ''POLL'' sid ''SUCCESS'' ''FAILED'' s;
       s \<leftarrow> gw_em_listener_line e ''CALLBACK'' sid ''FAILURE'' info s;
       s \<leftarrow> em_handler e d EM_STATE_FAILED (Some (atoi sid)) (em_pop EM_STATE_FAILED (atoi sid) s);
       s \<leftarrow> em_handler e d EM_STATE_FAILED (Some (atoi sid)) (em_pop EM_STATE_FAILED (atoi sid) s);
       s \<leftarrow> dm_step d s;
       dm_step d s } = Some s' \<and>
     uslots s' hid = uslots s hid - 2 * np (template j) \<and> dm_am s' = [(DM_STATE_EPILOG_FAIL, ARG_ID (atoi sid)), (DM_STATE_EPILOG_FAIL, ARG_ID (atoi sid))]"
proof -
  define i where "i = atoi sid"
  let ?j1 = "j\<lparr>next_poll_time := next_poll e\<rparr>"
  let ?s1 = "trigger_em EM_STATE_FAILED i (put i ?j1 s)"
  have ex: "execution_state GW_JOB_STATE_WRAPPER" "\<not> cancelling GW_JOB_STATE_WRAPPER"
    by (simp_all add: execution_state_def cancelling_def)
  have l1: "gw_em_listener_line e ''POLL'' sid ''SUCCESS'' ''FAILED'' s = Some ?s1"
    using assms(1-4) ex by (auto simp: gw_em_listener_line_def em_verdict_of_def em_reported_def i_def)
  have g1: "get_job ?s1 i = Some ?j1"
    using view_put(1) [of s i j ?j1 i] assms(1) by (simp add: get_job_def trigger_em_def i_def)
  let ?s2 = "trigger_em EM_STATE_FAILED i (put i ?j1 ?s1)"
  have l2: "gw_em_listener_line e ''CALLBACK'' sid ''FAILURE'' info ?s1 = Some ?s2"
    using g1 assms(2-4) ex by (auto simp: gw_em_listener_line_def em_verdict_of_def i_def)
  let ?p2 = "em_pop EM_STATE_FAILED i ?s2"
  have g2: "get_job ?p2 i = Some ?j1"
    using view_put(1) [OF g1, of ?j1 i] by simp
  obtain k y where k: "gw_em_failed d (Some i) ?p2 = Some (trigger_dm DM_WRAPPER_FAILED (ARG_ID i) (put i k ?p2))"
    "history k = y # xs" "h_tries y = h_tries x" "h_host y = h_host x" "template k = template ?j1" "job_state k = job_state ?j1"
    by (rule em_failed_finally [OF g2, of x xs d]) (use assms(5,6) in simp_all)
  let ?s3 = "trigger_dm DM_WRAPPER_FAILED (ARG_ID i) (put i k ?p2)"
  let ?p3 = "em_pop EM_STATE_FAILED i ?s3"
  have g3: "get_job ?p3 i = Some k" using view_put(1) [OF g2, of k i] by (simp add: gw_frame)
  obtain l z where l: "gw_em_failed d (Some i) ?p3 = Some (trigger_dm DM_WRAPPER_FAILED (ARG_ID i) (put i l ?p3))"
    "history l = z # xs" "h_tries z = h_tries y" "h_host z = h_host y" "template l = template k" "job_state l = job_state k"
    by (rule em_failed_finally [OF g3 k(2), of d]) (use k(3,5) assms(6) in simp_all)
  let ?s4 = "trigger_dm DM_WRAPPER_FAILED (ARG_ID i) (put i l ?p3)"
  have q4: "dm_am ?s4 = [(DM_WRAPPER_FAILED, ARG_ID i), (DM_WRAPPER_FAILED, ARG_ID i)]"
    using assms(9) by (simp add: trigger_dm_def em_pop_def with_em_def trigger_em_def)
  have h4: "gd_hosts ?s4 = gd_hosts s"
    by (simp add: trigger_dm_def em_pop_def with_em_def trigger_em_def)
  have g4: "get_job ?s4 i = Some l" using view_put(1) [OF g3, of l i] by (simp add: gw_frame)
  let ?t4 = "?s4\<lparr>dm_am := [(DM_WRAPPER_FAILED, ARG_ID i)]\<rparr>"
  have q: "dm_am (trigger_dm b v (t\<lparr>dm_am := [(c, u)]\<rparr>)) = [(c, u), (b, v)]" if "c \<noteq> DM_FINALIZE" for b c u v t
    using that by (simp add: trigger_dm_def)
  have w: "get_job (t\<lparr>dm_am := am\<rparr>) r = get_job t r" "get_host (t\<lparr>dm_am := am\<rparr>) r = get_host t r" for t am r
    by (simp_all add: get_job_def get_host_def)
  have t4: "get_job ?t4 i = Some l" "h_host z = Some hid" "get_host ?t4 hid \<noteq> None"
    using g4 l(4) k(4) assms(7,8) h4 by (simp_all only: w) (simp add: get_host_def)
  obtain s5 m v where s5: "gw_dm_wrapper_failed_cb d (Some i) ?t4 = Some s5" "get_job s5 i = Some m" "history m = v # xs"
    "h_host v = Some hid" "template m = template l" "get_host s5 hid \<noteq> None" "uslots s5 hid = uslots ?t4 hid - np (template l)"
    "dm_am s5 = dm_am (trigger_dm DM_STATE_EPILOG_FAIL (ARG_ID i) ?t4)"
    using wrapper_failed_slots [OF t4(1) l(2) t4(2,3), of d] by blast
  have q5: "dm_am s5 = [(DM_WRAPPER_FAILED, ARG_ID i), (DM_STATE_EPILOG_FAIL, ARG_ID i)]"
    unfolding s5(8) by (rule q) simp
  let ?t5 = "s5\<lparr>dm_am := [(DM_STATE_EPILOG_FAIL, ARG_ID i)]\<rparr>"
  have t5: "get_job ?t5 i = Some m" "get_host ?t5 hid \<noteq> None" using s5(2,6) by (simp_all only: w) simp
  obtain s6 where s6: "gw_dm_wrapper_failed_cb d (Some i) ?t5 = Some s6" "uslots s6 hid = uslots ?t5 hid - np (template m)"
    "dm_am s6 = dm_am (trigger_dm DM_STATE_EPILOG_FAIL (ARG_ID i) ?t5)"
    using wrapper_failed_slots [OF t5(1) s5(3,4) t5(2), of d] by blast
  have q6: "dm_am s6 = [(DM_STATE_EPILOG_FAIL, ARG_ID i), (DM_STATE_EPILOG_FAIL, ARG_ID i)]"
    unfolding s6(3) by (rule q) simp
  have d: "dm_step d ?s4 = Some s5" "dm_step d s5 = Some s6"
    using q4 q5 s5(1) s6(1) by (simp_all add: dm_step_def dm_handler_def arg_id_def)
  have "uslots ?t4 hid = uslots s hid" "uslots ?t5 hid = uslots s5 hid"
    using h4 by (simp_all add: uslots_def get_host_def)
  then have "uslots s6 hid = uslots s hid - 2 * np (template j)" using s5(5,7) s6(2) l(5) k(5) by simp
  moreover have "em_handler e d EM_STATE_FAILED = gw_em_failed d" by (simp add: em_handler_def)
  ultimately show ?thesis using l1 l2 k(1) l(1) d q6 unfolding i_def by auto
qed

theorem failure_reported_twice_witness:
  "\<exists>s s'. uslots s 0 = 2 \<and> uslots s' 0 = -2 \<and>
     dm_am s' = [(DM_STATE_EPILOG_FAIL, ARG_ID 0), (DM_STATE_EPILOG_FAIL, ARG_ID 0)] \<and>
     do { s \<leftarrow> gw_em_listener_line demo_em_env ''POLL'' ''0'' ''SUCCESS'' ''FAILED'' s;
          s \<leftarrow> gw_em_listener_line demo_em_env ''CALLBACK'' ''0'' ''FAILURE'' ''-'' s;
          s \<leftarrow> gw_em_failed demo_env (Some 0) (em_pop EM_STATE_FAILED 0 s);
          s \<leftarrow> gw_em_failed demo_env (Some 0) (em_pop EM_STATE_FAILED 0 s);
          s \<leftarrow> dm_step demo_env s;
          dm_step demo_env s } = Some s'"
proof -
  let ?s = "demo_exec GW_EM_STATE_ACTIVE []"
  obtain j x where j: "get_job ?s (atoi ''0'') = Some j" "job_state j = GW_JOB_STATE_WRAPPER" "em_state j \<noteq> GW_EM_STATE_HARD_KILL"
    "history j = x # []" "number_of_retries (template j) \<le> h_tries x" "h_host x = Some 0" "get_host ?s 0 \<noteq> None"
    "np (template j) = 2"
    by (rule demo_exec_job [of GW_EM_STATE_ACTIVE "[]"]) (simp add: demo_id)
  have u: "uslots ?s 0 = uslots demo_two 0" by (simp add: demo_exec_def uslots_def get_host_def)
  have v: "uslots demo_two 0 = 2" by code_simp
  have q: "dm_am ?s = []" "''0'' = [] \<or> hd ''0'' \<noteq> CHR ''-''" by (simp_all add: demo_exec_def)
  have h: "em_handler demo_em_env demo_env EM_STATE_FAILED = gw_em_failed demo_env" by (simp add: em_handler_def)
  show ?thesis
    using failure_reported_twice [OF j(1) q(2) j(2-7) q(1), of demo_em_env "''-''" demo_env] u v j(8)
    unfolding demo_id h by auto
qed

end
