(* ===== verification/RC_Recover.thy ===== *)
theory RC_Recover
  imports GW_Sys
begin

text \<open>
  The recovery of the jobs of a former run of the daemon: \<open>gw_recover_state\<close> of \<open>src/gwd/gwd.c\<close> and
  \<open>src/job/gw_job_recover.c\<close>. The files of a job are their contents, read character by character as
  \<open>fscanf\<close> does; the template is the result of its parser. Numbers that \<open>%i\<close> would read in octal or hexadecimal
  do not occur in the files that the daemon writes and are read in decimal here; the sizes of the buffers
  are not modelled.
\<close>

section \<open>Reading fields\<close>

definition scan_word :: "string \<Rightarrow> (string \<times> string) option" where
  "scan_word s =
     (let s = dropWhile is_blank s; w = takeWhile (\<lambda>c. \<not> is_blank c) s in
      if w = [] then None else Some (w, dropWhile (\<lambda>c. \<not> is_blank c) s))"

definition split_sign :: "string \<Rightarrow> bool \<times> string" where
  "split_sign s =
     (case s of
        [] \<Rightarrow> (False, [])
      | c # cs \<Rightarrow> if c = CHR ''-'' then (True, cs) else if c = CHR ''+'' then (False, cs) else (False, s))"

definition scan_long :: "string \<Rightarrow> (int \<times> string) option" where
  "scan_long s =
     (case split_sign (dropWhile is_blank s) of
        (neg, cs) \<Rightarrow>
          let ds = takeWhile is_digit cs; v = int (atoi_digits ds 0) in
          if ds = [] then None else Some (if neg then - v else v, dropWhile is_digit cs))"

text \<open>
  The loop over the lines of \<open>job.state\<close>: the pairs that are read, and whether the end of the file
  was met when a pair could not be read.
\<close>

definition state_entry :: "string \<Rightarrow> bool + (int \<times> string) \<times> string" where
  "state_entry s =
     (case scan_long s of
        None \<Rightarrow> Inl (snd (split_sign (dropWhile is_blank s)) = [])
      | Some (t, s') \<Rightarrow>
          (case scan_word s' of None \<Rightarrow> Inl True | Some (w, s'') \<Rightarrow> Inr ((t, w), s'')))"

lemma length_dropWhile_less: "xs \<noteq> [] \<Longrightarrow> P (hd xs) \<Longrightarrow> length (dropWhile P xs) < length xs"
  using length_dropWhile_le [of P "tl xs"] by (cases xs) auto

lemma scan_word_shorter: "scan_word s = Some (w, s') \<Longrightarrow> length s' < length s"
proof -
  assume a: "scan_word s = Some (w, s')"
  let ?s = "dropWhile is_blank s"
  have w: "takeWhile (\<lambda>c. \<not> is_blank c) ?s \<noteq> []" "s' = dropWhile (\<lambda>c. \<not> is_blank c) ?s"
    using a by (auto simp: scan_word_def Let_def split: if_splits)
  moreover have "length ?s = length (takeWhile (\<lambda>c. \<not> is_blank c) ?s) + length (dropWhile (\<lambda>c. \<not> is_blank c) ?s)"
    by (metis length_append takeWhile_dropWhile_id)
  ultimately have "length s' < length ?s" by simp
  then show ?thesis using length_dropWhile_le [of is_blank s] by simp
qed

lemma scan_long_not_longer: "scan_long s = Some (t, s') \<Longrightarrow> length s' \<le> length s"
proof -
  assume a: "scan_long s = Some (t, s')"
  let ?s = "dropWhile is_blank s"
  have s': "s' = dropWhile is_digit (snd (split_sign ?s))"
    using a by (auto simp: scan_long_def Let_def split: if_splits prod.splits)
  have "length (snd (split_sign ?s)) \<le> length ?s" by (simp add: split_sign_def split: list.split)
  then show ?thesis unfolding s' using length_dropWhile_le [of is_blank s] length_dropWhile_le [of is_digit "snd (split_sign ?s)"]
    by linarith
qed

lemma state_entry_shorter: "state_entry s = Inr (x, s') \<Longrightarrow> length s' < length s"
  using scan_word_shorter scan_long_not_longer
  by (fastforce simp: state_entry_def split: option.splits prod.splits)

function read_states :: "string \<Rightarrow> (int \<times> string) list \<times> bool" where
  "read_states s =
     (case state_entry s of
        Inl eof \<Rightarrow> ([], eof)
      | Inr (x, s') \<Rightarrow> (case read_states s' of (xs, eof) \<Rightarrow> (x # xs, eof)))"
  by pat_completeness auto

termination
  by (relation "measure length") (auto simp: state_entry_shorter)

declare read_states.simps [simp del]

section \<open>A record of the history\<close>

record hist_line =
  hl_host :: string
  hl_rank :: int
  hl_queue :: string
  hl_fork :: string
  hl_lrms :: string
  hl_lrms_type :: string
  hl_em :: string
  hl_tm :: string
  hl_im :: string

definition scan_history :: "string \<Rightarrow> (hist_line \<times> string) option" where
  "scan_history s = do {
     (host, s) \<leftarrow> scan_word s;
     (rank, s) \<leftarrow> scan_long s;
     (queue, s) \<leftarrow> scan_word s;
     (fork, s) \<leftarrow> scan_word s;
     (lrms, s) \<leftarrow> scan_word s;
     (type, s) \<leftarrow> scan_word s;
     (em, s) \<leftarrow> scan_word s;
     (tm, s) \<leftarrow> scan_word s;
     (im, s) \<leftarrow> scan_word s;
     Some (\<lparr>hl_host = host, hl_rank = rank, hl_queue = queue, hl_fork = fork, hl_lrms = lrms,
            hl_lrms_type = type, hl_em = em, hl_tm = tm, hl_im = im\<rparr>, s) }"

text \<open>The files of a job; \<open>None\<close> when a file does not open or the template has an error.\<close>

record job_files =
  jf_directory :: bool
  jf_template :: "gw_template option"
  jf_conf :: "string option"
  jf_state :: "string option"
  jf_history :: "string option"
  jf_contact :: "string option"

record recover_env =
  rc_users :: user_env
  rc_hist :: hist_env
  rc_sched :: "unit gw_sch_prio_scheme"
  home_of :: "string \<Rightarrow> string option"

text \<open>What the recovery of a job works on: the job, the rest of its history file and the daemon.\<close>

type_synonym recovering = "gw_job \<times> string option \<times> gwd"

definition gw_job_recover_history_record :: "recover_env \<Rightarrow> recovering \<Rightarrow> (recovering \<times> int) option" where
  "gw_job_recover_history_record e r =
     (case r of (job, file, s) \<Rightarrow>
        case Option.bind file scan_history of
          None \<Rightarrow> Some (r, -1)
        | Some (l, rest) \<Rightarrow> do {
            (hid, s) \<leftarrow>
              (case gw_host_pool_search (gd_hosts s) (hl_host l) of
                 Some hid \<Rightarrow> Some (hid, s)
               | None \<Rightarrow> do {
                   (hp, hid) \<leftarrow> gw_host_pool_host_allocate (hl_host l)
                      (gw_sch_get_host_priority (rc_sched e) (hl_host l) (hl_im l)) (hl_em l) (hl_tm l) (hl_im l) (gd_hosts s);
                   Some (hid, s\<lparr>gd_hosts := hp\<rparr>) });
            h \<leftarrow> get_host s hid;
            let h = h\<lparr>lrms_type := Some (hl_lrms_type l)\<rparr>;
            let s = s\<lparr>gd_hosts := (gd_hosts s)\<lparr>hosts := slot_put (hosts (gd_hosts s)) hid (Some h)\<rparr>\<rparr>;
            let job = (if history job \<noteq> [] then job\<lparr>restarted := restarted job + 1\<rparr> else job);
            (case gw_job_history_add (rc_hist e) (gd_users s) (history job) hid
                    (h\<lparr>fork_name := Some (hl_fork l), lrms_name := Some (hl_lrms l)\<rparr>) (hl_rank l) (Some (hl_queue l))
                    (owner job) (job_id job) (user_id job) True of
               (hist, rc) \<Rightarrow> Some ((job\<lparr>history := hist\<rparr>, Some rest, s), if rc = -1 then -1 else 0)) })"

section \<open>The transitions\<close>

text \<open>The end of the previous state. (In the state LIMIT the function has returned before.)\<close>

definition leave_state :: "gw_job_state \<Rightarrow> int \<Rightarrow> gw_job \<Rightarrow> gw_job option" where
  "leave_state prev t job =
     (if prev = GW_JOB_STATE_PROLOG \<or> prev = GW_JOB_STATE_MIGR_PROLOG then upd_top (set_stat PROLOG_EXIT_TIME t) job
      else if prev = GW_JOB_STATE_WRAPPER then upd_top (set_stat WRAPPER_EXIT_TIME t) job
      else if prev \<in> {GW_JOB_STATE_EPILOG, GW_JOB_STATE_EPILOG_FAIL, GW_JOB_STATE_EPILOG_RESTART,
                       GW_JOB_STATE_STOP_EPILOG, GW_JOB_STATE_KILL_EPILOG}
      then upd_top (set_stat EPILOG_EXIT_TIME t) job
      else if prev = GW_JOB_STATE_MIGR_EPILOG
      then upd_next (set_stat MIGRATION_EXIT_TIME t \<circ> set_stat EPILOG_EXIT_TIME t) job
      else Some job)"

text \<open>The beginning of the new state, where it needs no record of the history.\<close>

definition enter_state :: "gw_job_state \<Rightarrow> gw_job_state \<Rightarrow> int \<Rightarrow> gw_job \<Rightarrow> gw_job option" where
  "enter_state prev st t job =
     (if st = GW_JOB_STATE_MIGR_PROLOG then upd_top (set_stat PROLOG_START_TIME t \<circ> set_stat START_TIME t) job
      else if st = GW_JOB_STATE_MIGR_EPILOG then upd_next (set_stat EPILOG_START_TIME t) job
      else if st = GW_JOB_STATE_WRAPPER then upd_top (set_stat WRAPPER_START_TIME t) job
      else if st \<in> {GW_JOB_STATE_EPILOG_STD, GW_JOB_STATE_KILL_EPILOG, GW_JOB_STATE_STOP_EPILOG,
                     GW_JOB_STATE_EPILOG_RESTART, GW_JOB_STATE_EPILOG_FAIL}
      then upd_top (set_stat EPILOG_START_TIME t) job
      else if st = GW_JOB_STATE_EPILOG
      then (if prev = GW_JOB_STATE_WRAPPER then upd_top (set_stat EPILOG_START_TIME t) job else Some job)
      else if st = GW_JOB_STATE_STOPPED \<or> st = GW_JOB_STATE_FAILED
      then map_option (exit_time_update (\<lambda>_. t)) (upd_top (set_stat EXIT_TIME t) job)
      else if st = GW_JOB_STATE_ZOMBIE
      then map_option (exit_time_update (\<lambda>_. t)) (upd_top (set_reason GW_REASON_NONE \<circ> set_stat EXIT_TIME t) job)
      else Some job)"

definition gw_job_recover_state_transition ::
  "recover_env \<Rightarrow> gw_job_state \<Rightarrow> gw_job_state \<Rightarrow> int \<Rightarrow> recovering \<Rightarrow> (recovering \<times> int) option" where
  "gw_job_recover_state_transition e prev st t r =
     (if prev = GW_JOB_STATE_LIMIT then Some (r, -1)
      else case r of (job, file, s) \<Rightarrow> do {
        job \<leftarrow> leave_state prev t job;
        (if st = GW_JOB_STATE_PROLOG
         then do {
           ((job, file, s), rc) \<leftarrow> gw_job_recover_history_record e (job, file, s);
           (if rc = 0
            then do {
              job \<leftarrow> upd_top (set_stat PROLOG_START_TIME t \<circ> set_stat START_TIME t) job;
              Some ((job, file, s), 0) }
            else Some ((job, file, s), rc)) }
         else if st = GW_JOB_STATE_MIGR_CANCEL then gw_job_recover_history_record e (job, file, s)
         else if st = GW_JOB_STATE_INIT \<or> st = GW_JOB_STATE_LIMIT then Some ((job, file, s), -1)
         else do { job \<leftarrow> enter_state prev st t job; Some ((job, file, s), 0) }) })"

text \<open>All transitions of the state file; \<open>prev\<close> is LIMIT before the first.\<close>

fun recover_transitions ::
  "recover_env \<Rightarrow> (int \<times> string) list \<Rightarrow> gw_job_state \<times> gw_job_state \<times> int \<Rightarrow> recovering \<Rightarrow>
   ((gw_job_state \<times> gw_job_state \<times> int) \<times> recovering \<times> int) option" where
  "recover_transitions e [] p r = Some (p, r, 0)"
| "recover_transitions e ((t, w) # xs) (prev, st, t0) r =
     (let prev' = (if prev = GW_JOB_STATE_LIMIT then GW_JOB_STATE_INIT else st); st' = gw_job_get_state_code w in do {
        (r, rc) \<leftarrow> gw_job_recover_state_transition e prev' st' t r;
        (if rc = -1 then Some ((prev', st', t), r, -1) else recover_transitions e xs (prev', st', t) r) })"

section \<open>The last state\<close>

definition gw_job_recover_job_contact :: "string option \<Rightarrow> gw_job \<Rightarrow> gwd \<Rightarrow> (gwd \<times> int) option" where
  "gw_job_recover_job_contact file job s =
     (case Option.bind file scan_word of
        None \<Rightarrow> Some (s, -1)
      | Some (contact, _) \<Rightarrow> do {
          h \<leftarrow> hist_top job;
          hid \<leftarrow> h_host h;
          ho \<leftarrow> get_host s hid;
          em \<leftarrow> gw_user_pool_get_em_mad (gd_users s) (user_id job) (host_em_mad ho);
          Some (to_mad (EM_MAD_RECOVER em (job_id job) contact) s, 0) })"

definition gw_job_recover_get_contact :: "string option \<Rightarrow> string option" where
  "gw_job_recover_get_contact file = map_option fst (Option.bind file scan_word)"

text \<open>The action that goes on with the job, and what it holds of the counters.\<close>

definition resume_action :: "gw_job_state \<Rightarrow> dm_action option" where
  "resume_action st =
     (case st of
        GW_JOB_STATE_PROLOG \<Rightarrow> Some DM_STATE_PROLOG
      | GW_JOB_STATE_EPILOG \<Rightarrow> Some DM_STATE_EPILOG
      | GW_JOB_STATE_EPILOG_FAIL \<Rightarrow> Some DM_STATE_EPILOG_FAIL
      | GW_JOB_STATE_EPILOG_RESTART \<Rightarrow> Some DM_STATE_EPILOG_RESTART
      | GW_JOB_STATE_EPILOG_STD \<Rightarrow> Some DM_STATE_EPILOG_STD
      | GW_JOB_STATE_KILL_CANCEL \<Rightarrow> Some DM_STATE_KILL_EPILOG
      | GW_JOB_STATE_KILL_EPILOG \<Rightarrow> Some DM_STATE_KILL_EPILOG
      | GW_JOB_STATE_MIGR_CANCEL \<Rightarrow> Some DM_STATE_MIGR_PROLOG
      | GW_JOB_STATE_MIGR_PROLOG \<Rightarrow> Some DM_STATE_MIGR_PROLOG
      | GW_JOB_STATE_MIGR_EPILOG \<Rightarrow> Some DM_STATE_MIGR_EPILOG
      | GW_JOB_STATE_PRE_WRAPPER \<Rightarrow> Some DM_STATE_PRE_WRAPPER
      | GW_JOB_STATE_STOP_CANCEL \<Rightarrow> Some DM_STATE_STOP_EPILOG
      | GW_JOB_STATE_STOP_EPILOG \<Rightarrow> Some DM_STATE_STOP_EPILOG
      | _ \<Rightarrow> None)"

definition idle_again :: "gw_job_state \<Rightarrow> bool" where
  "idle_again st \<longleftrightarrow> st \<in> {GW_JOB_STATE_PENDING, GW_JOB_STATE_HOLD, GW_JOB_STATE_STOPPED,
     GW_JOB_STATE_ZOMBIE, GW_JOB_STATE_FAILED}"

definition stays_cancelled :: "gw_job_state \<Rightarrow> bool" where
  "stays_cancelled st \<longleftrightarrow> st \<in> {GW_JOB_STATE_KILL_CANCEL, GW_JOB_STATE_MIGR_CANCEL, GW_JOB_STATE_STOP_CANCEL}"

definition takes_slots :: "gw_job_state \<Rightarrow> bool" where
  "takes_slots st \<longleftrightarrow> st \<in> {GW_JOB_STATE_PROLOG, GW_JOB_STATE_PRE_WRAPPER, GW_JOB_STATE_WRAPPER,
     GW_JOB_STATE_MIGR_CANCEL, GW_JOB_STATE_MIGR_PROLOG, GW_JOB_STATE_MIGR_EPILOG}"

definition moves_host :: "gw_job_state \<Rightarrow> bool" where
  "moves_host st \<longleftrightarrow> st \<in> {GW_JOB_STATE_MIGR_CANCEL, GW_JOB_STATE_MIGR_PROLOG, GW_JOB_STATE_MIGR_EPILOG}"

text \<open>The counters that the job takes back, in the order of the code.\<close>

definition retake_counters :: "gw_job_state \<Rightarrow> gw_job \<Rightarrow> gwd \<Rightarrow> gwd option" where
  "retake_counters st job s = do {
     let s = user_op (gw_user_pool_inc_running_jobs (user_id job) 1) s;
     h \<leftarrow> hist_top job;
     s \<leftarrow> host_op (if takes_slots st then gw_host_inc_slots_nb (np (template job)) else gw_host_inc_rjobs_nb) (h_host h) s;
     (if moves_host st
      then do { h' \<leftarrow> hist_next job; host_op gw_host_inc_rjobs_nb (h_host h') s }
      else Some s) }"

definition gw_job_recover_last_state_transition ::
  "string option \<Rightarrow> gw_job_state \<Rightarrow> int \<Rightarrow> gw_job \<Rightarrow> gwd \<Rightarrow> (gw_job \<times> gwd \<times> int) option" where
  "gw_job_recover_last_state_transition contact st jid job s =
     (if idle_again st
      then Some (set_state st job,
                 if st = GW_JOB_STATE_PENDING then send (JOB_SCHEDULE jid (-1) (user_id job) GW_REASON_NONE) s else s, 0)
      else if st = GW_JOB_STATE_WRAPPER
      then do {
        s \<leftarrow> retake_counters st job s;
        let job = set_state st job;
        (s, rc) \<leftarrow> gw_job_recover_job_contact contact job s;
        Some (if rc = -1
              then (set_state GW_JOB_STATE_PENDING job, trigger_dm DM_STATE_PENDING (ARG_ID jid) s, 0)
              else (job, s, 0)) }
      else case resume_action st of
        None \<Rightarrow> Some (job, s, -1)
      | Some a \<Rightarrow> do {
          let job = (if stays_cancelled st then set_state st job else job);
          s \<leftarrow> retake_counters st job s;
          Some (job, trigger_dm a (ARG_ID jid) s, 0) })"

section \<open>A job\<close>

record conf_entry =
  cl_time :: int
  cl_user :: string
  cl_proxy :: string
  cl_home :: string
  cl_pstart :: int
  cl_pinc :: int

definition scan_conf :: "string \<Rightarrow> conf_entry option" where
  "scan_conf s = do {
     (t, s) \<leftarrow> scan_long s;
     (user, s) \<leftarrow> scan_word s;
     (proxy, s) \<leftarrow> scan_word s;
     (home, s) \<leftarrow> scan_word s;
     (pstart, s) \<leftarrow> scan_long s;
     (pinc, s) \<leftarrow> scan_long s;
     Some \<lparr>cl_time = t, cl_user = user, cl_proxy = (if proxy = ''-'' then [] else proxy),
           cl_home = home, cl_pstart = pstart, cl_pinc = pinc\<rparr> }"

text \<open>The user of the job, registered when it is not known yet.\<close>

definition recover_user :: "recover_env \<Rightarrow> conf_entry \<Rightarrow> gwd \<Rightarrow> (gwd \<times> int option) option" where
  "recover_user e c s =
     (case gw_user_pool_exists (gd_users s) (cl_user c) (cl_proxy c) of
        (True, uid) \<Rightarrow> Some (s, Some uid)
      | (False, _) \<Rightarrow> do {
          (up, msgs, rc, uid) \<leftarrow> gw_user_pool_user_allocate (rc_users e) (cl_user c) (cl_proxy c) (gd_users s);
          Some (sends msgs (s\<lparr>gd_users := up\<rparr>), if rc \<noteq> 0 then None else Some uid) })"

definition recovered_job :: "gw_job_template \<Rightarrow> conf_entry \<Rightarrow> int \<Rightarrow> string \<Rightarrow> gw_job \<Rightarrow> gw_job" where
  "recovered_job tp c uid home job =
     job\<lparr>start_time := cl_time c, owner := Some (cl_user c), user_id := uid, pstart := cl_pstart c, pinc := cl_pinc c,
         template := tp\<lparr>user_home := Some home, job_home := Some (cl_home c)\<rparr>\<rparr>"

text \<open>
  The states of the file, and the last of them. When the state file is empty the last transition is from
  LIMIT to INIT. A failure of the last transition is only reported.
\<close>

definition recover_states ::
  "recover_env \<Rightarrow> job_files \<Rightarrow> int \<Rightarrow> string \<Rightarrow> int \<Rightarrow> gw_job \<Rightarrow> gwd \<Rightarrow> (gwd \<times> int) option" where
  "recover_states e f jid states t0 job s =
     (case read_states states of
        (xs, eof) \<Rightarrow> do {
          ((prev, st, t), (job, file, s), rc) \<leftarrow>
            recover_transitions e xs (GW_JOB_STATE_LIMIT, GW_JOB_STATE_INIT, t0) (job, jf_history f, s);
          (if rc = -1 \<or> \<not> eof then Some (put jid job s, -1)
           else do {
             (job, s, _) \<leftarrow> gw_job_recover_last_state_transition (jf_contact f) st jid (set_state prev job) s;
             Some (user_op (gw_user_pool_inc_jobs (user_id job) 1) (put jid job s), 0) }) })"

definition gw_job_recover :: "recover_env \<Rightarrow> job_files \<Rightarrow> int \<Rightarrow> gwd \<Rightarrow> (gwd \<times> int) option" where
  "gw_job_recover e f jid s = do {
     job \<leftarrow> get_job s jid;
     (if \<not> jf_directory f then Some (s, 1)
      else case jf_template f of
        None \<Rightarrow> Some (s, -1)
      | Some jt \<Rightarrow>
          let tp = gw_job_template_init jt; job = job\<lparr>template := tp\<rparr> in
          case Option.bind (jf_conf f) scan_conf of
            None \<Rightarrow> Some (put jid job s, -1)
          | Some c \<Rightarrow> do {
              (s, u) \<leftarrow> recover_user e c s;
              (case u of
                 None \<Rightarrow> Some (put jid job s, -1)
               | Some uid \<Rightarrow>
                   (case home_of e (cl_user c) of
                      None \<Rightarrow> Some (put jid (job\<lparr>start_time := cl_time c, owner := Some (cl_user c), user_id := uid,
                                 pstart := cl_pstart c, pinc := cl_pinc c\<rparr>) s, -1)
                    | Some home \<Rightarrow>
                        let job = recovered_job tp c uid home job in
                        (case jf_state f of
                           None \<Rightarrow> Some (put jid job s, -1)
                         | Some states \<Rightarrow> recover_states e f jid states (cl_time c) job s))) }) }"

section \<open>All jobs\<close>

text \<open>One entry of the directory: its name, whether it is a directory, and the files in it.\<close>

definition recover_entry ::
  "recover_env \<Rightarrow> dm_env \<Rightarrow> string \<times> bool \<times> job_files \<Rightarrow> gwd \<Rightarrow> gwd option" where
  "recover_entry e d x s =
     (case x of (name, is_dir, f) \<Rightarrow>
        if \<not> (is_dir \<and> name \<noteq> [] \<and> is_digit (hd name)) then Some s
        else
          let jid = atoi name in
          (case gw_job_pool_allocate_by_id (now d) jid (gd_jobs s) of
             (jp, rc) \<Rightarrow>
               if rc \<noteq> jid then Some (s\<lparr>gd_jobs := jp\<rparr>)
               else do {
                 (s, rc) \<leftarrow> gw_job_recover e f jid (s\<lparr>gd_jobs := jp\<rparr>);
                 (if rc \<noteq> 0 then Some (gw_job_pool_free d jid s)
                  else do {
                    job \<leftarrow> get_job s jid;
                    Some (case gw_job_pool_dep_cp (jt_job_deps (template job)) of
                            None \<Rightarrow> s
                          | Some ds \<Rightarrow>
                              if ds \<noteq> [] then s\<lparr>gd_deps := gw_job_pool_dep_set jid ds (gd_deps s)\<rparr> else s) }) }))"

fun recover_entries ::
  "recover_env \<Rightarrow> dm_env \<Rightarrow> (string \<times> bool \<times> job_files) list \<Rightarrow> gwd \<Rightarrow> gwd option" where
  "recover_entries e d [] s = Some s"
| "recover_entries e d (x # xs) s = do { s \<leftarrow> recover_entry e d x s; recover_entries e d xs s }"

definition gw_recover_state ::
  "recover_env \<Rightarrow> dm_env \<Rightarrow> (string \<times> bool \<times> job_files) list \<Rightarrow> gwd \<Rightarrow> gwd option" where
  "gw_recover_state e d xs s = do {
     s \<leftarrow> recover_entries e d xs s;
     Some (gw_job_pool_dep_consistency d s) }"

end
