(* ===== verification/RC_Account.thy ===== *)
theory RC_Account
  imports RC_Recover DM_Leaks
begin

text \<open>
  The recovery of a job and the accounting of \<open>DM_Account\<close>: the counters that the job takes back are
  exactly what its phase holds, so a recovered daemon starts in a state that satisfies the invariant.
\<close>

section \<open>The counters\<close>

definition resume_phase :: "gw_job_state \<Rightarrow> phase" where
  "resume_phase st =
     (if moves_host st then P_mig_move else if takes_slots st then P_run else P_end)"

lemma host_rjobs_nb:
  assumes "get_host s hid \<noteq> None"
  shows "rjobs (host_upd gw_host_inc_rjobs_nb hid s) k = rjobs s k + (if k = hid then 1 else 0)"
    "uslots (host_upd gw_host_inc_rjobs_nb hid s) k = uslots s k"
  using assms
  by (auto simp: rjobs_def uslots_def host_upd_get gw_host_inc_rjobs_nb_def Let_def split: option.splits if_splits)

text \<open>What taking the counters back leaves alone, and what it adds.\<close>

definition retaken :: "gw_job_state \<Rightarrow> gw_job \<Rightarrow> gwd \<Rightarrow> gwd \<Rightarrow> bool" where
  "retaken st j s s' \<longleftrightarrow>
     (\<forall>i. get_job s' i = get_job s i \<and> ctl_of s' i = ctl_of s i) \<and> no_finalize s' = no_finalize s \<and> same_pool s s' \<and>
     dm_am s' = dm_am s \<and> em_am s' = em_am s \<and> hosted s j 0 \<and> (moves_host st \<longrightarrow> hosted s j 1) \<and>
     (\<forall>h. rjobs s' h = rjobs s h + r_claim (resume_phase st) j h) \<and>
     (\<forall>h. uslots s' h = uslots s h + u_claim (resume_phase st) j h) \<and>
     (\<forall>w. get_user s w \<noteq> None \<longrightarrow> urun s' w = urun s w + (if w = user_id j then 1 else 0))"

lemma host_op_some:
  assumes "host_op f p s = Some s'"
  obtains hid where "p = Some hid" "get_host s hid \<noteq> None" "s' = host_upd f hid s"
  using assms by (auto simp: host_op_def host_upd_def bind_eq_Some_conv)

lemma no_finalize_user [simp]: "no_finalize (user_op f s) = no_finalize s"
  by (simp add: no_finalize_def)

lemma retake_counters_retaken:
  assumes "retake_counters st j s = Some s'"
  shows "retaken st j s s'"
proof -
  let ?u = "user_op (gw_user_pool_inc_running_jobs (user_id j) 1) s"
  let ?f = "if takes_slots st then gw_host_inc_slots_nb (np (template j)) else gw_host_inc_rjobs_nb"
  obtain h hs t where hist: "history j = h # hs" and t: "host_op ?f (h_host h) ?u = Some t"
    and rest: "(if moves_host st then do { h' \<leftarrow> hist_next j; host_op gw_host_inc_rjobs_nb (h_host h') t } else Some t) = Some s'"
    using assms by (cases "history j") (auto simp: retake_counters_def Let_def hist_top_def bind_eq_Some_conv)
  from t obtain hid where hid: "h_host h = Some hid" "get_host ?u hid \<noteq> None" "t = host_upd ?f hid ?u" by (rule host_op_some)
  have ho: "get_host s hid \<noteq> None" using hid(2) by (simp add: gw_frame)
  have mt: "moves_host st \<Longrightarrow> takes_slots st" by (auto simp: moves_host_def takes_slots_def)
  note v = view_host [OF hid(2)] host_upd_none [OF hid(2)] no_finalize_host [OF hid(2)] host_upd_other [OF hid(2)]
  have host_f: "rjobs (host_upd ?f hid ?u) x = rjobs ?u x + (if x = hid then 1 else 0)"
    "uslots (host_upd ?f hid ?u) x = uslots ?u x + (if takes_slots st \<and> x = hid then np (template j) else 0)" for x
    by (cases "takes_slots st"; simp add: host_counters [OF hid(2)] host_rjobs_nb [OF hid(2)])+
  have t_views: "get_job t i = get_job s i" "ctl_of t i = ctl_of s i" "no_finalize t = no_finalize s" "dm_am t = dm_am s"
    "em_am t = em_am s"
    "(get_host t x = None) = (get_host s x = None)" "(get_user t x = None) = (get_user s x = None)"
    "length (pool (gd_jobs t)) = length (pool (gd_jobs s))"
    "get_user s w \<noteq> None \<Longrightarrow> urun t w = urun s w + (if w = user_id j then 1 else 0)"
    "rjobs t x = rjobs s x + on_host j 0 x"
    "uslots t x = uslots s x + (if takes_slots st then np (template j) * on_host j 0 x else 0)" for i x w
    unfolding hid(3) using hist hid(1)
    by (simp_all add: v gw_frame host_f on_host_def host_of_def)
  show ?thesis
  proof (cases "moves_host st")
    case False
    then have "s' = t" using rest by simp
    then show ?thesis using t_views hist hid(1) ho False
      by (auto simp: retaken_def same_pool_def hosted_def host_of_def resume_phase_def)
  next
    case True
    then obtain h' hs' hid' where m: "hs = h' # hs'" "h_host h' = Some hid'" "get_host t hid' \<noteq> None"
      "s' = host_upd gw_host_inc_rjobs_nb hid' t"
      using rest hist by (auto simp: hist_next_def bind_eq_Some_conv split: list.splits elim!: host_op_some)
    note w = view_host [OF m(3)] host_upd_none [OF m(3)] no_finalize_host [OF m(3)] host_upd_other [OF m(3)]
    have "hosted s j 1" using m(1-3) hist t_views(6) by (auto simp: hosted_def host_of_def)
    then show ?thesis using t_views hist hid(1) ho True m(1,2) mt [OF True] unfolding m(4)
      by (auto simp: retaken_def same_pool_def hosted_def host_of_def resume_phase_def w host_rjobs_nb [OF m(3)] on_host_def)
  qed
qed

section \<open>The last state\<close>

text \<open>
  The pairs of last states from which the job can go on: the action that is triggered has to be one for the
  state the job is put in.
\<close>

definition resumable :: "gw_job_state \<Rightarrow> gw_job_state \<Rightarrow> bool" where
  "resumable prev st \<longleftrightarrow> idle_again st \<or> st = GW_JOB_STATE_WRAPPER \<or>
     (\<exists>a. resume_action st = Some a \<and>
        action_phase a (if stays_cancelled st then st else prev) = Some (resume_phase st))"

text \<open>The execution that the driver is asked to recover is under way again.\<close>

definition reopen :: "gw_job_state \<Rightarrow> int \<Rightarrow> gwd \<Rightarrow> gwd" where
  "reopen st i s = (if st = GW_JOB_STATE_WRAPPER then trigger_em EM_SUBMIT i s else s)"

text \<open>The job as the states have rebuilt it.\<close>

definition rebuilt :: "gwd \<Rightarrow> int \<Rightarrow> gw_job_state \<Rightarrow> gw_job \<Rightarrow> bool" where
  "rebuilt s i st j \<longleftrightarrow> job_id j = i \<and> template_ok (template j) \<and> 0 \<le> restarted j \<and>
     get_user s (user_id j) \<noteq> None \<and> (restarted j \<noteq> 0 \<longrightarrow> 2 \<le> length (history j)) \<and>
     (st \<in> {GW_JOB_STATE_FAILED, GW_JOB_STATE_STOPPED} \<longrightarrow> history j \<noteq> [])"

lemma claims_idle [simp]: "r_claim P_idle j h = 0" "u_claim P_idle j h = 0" "n_claim P_idle j w = 0"
  by (simp_all add: n_claim_def)

lemma claims_state [simp]:
  "r_claim p (set_state st j) h = r_claim p j h" "u_claim p (set_state st j) h = u_claim p j h"
  "n_claim p (set_state st j) w = n_claim p j w"
  by (cases p; simp add: on_host_def host_of_def n_claim_def)+

lemma view_mad [simp]:
  "get_job (to_mad m s) i = get_job s i" "ctl_of (to_mad m s) i = ctl_of s i" "no_finalize (to_mad m s) = no_finalize s"
  "same_pool t (to_mad m s) = same_pool t s" "rjobs (to_mad m s) h = rjobs s h" "uslots (to_mad m s) h = uslots s h"
  "urun (to_mad m s) w = urun s w"
  by (simp_all add: to_mad_def view_defs no_finalize_def same_pool_def)

lemma same_pool_refl [simp]: "same_pool s s"
  by (simp add: same_pool_def)

lemma retaken_state [simp]: "retaken st (set_state st' j) s s' = retaken st j s s'"
  by (simp add: retaken_def hosted_def host_of_def)

lemma resumed_settled:
  assumes h: "held s i P_idle j0" and c: "ctl_of s i = []" and b: "rebuilt s i st j" and t: "retaken st j s s1"
    and k: "k = set_state st' j" "st' \<notin> {GW_JOB_STATE_FAILED, GW_JOB_STATE_STOPPED}"
    and s': "\<And>x. get_job s' x = (if x = i then Some k else get_job s x)"
      "\<And>x. x \<noteq> i \<Longrightarrow> ctl_of s' x = ctl_of s x" "phase_of (ctl_of s' i) st' = Some (resume_phase st)"
      "\<And>x. rjobs s' x = rjobs s1 x" "\<And>x. uslots s' x = uslots s1 x" "\<And>w. urun s' w = urun s1 w"
      "no_finalize s'" "same_pool s1 s'"
  shows "moved s i P_idle j0 (Some s')"
proof -
  have p: "resume_phase st \<noteq> P_idle" "resume_phase st \<noteq> P_mig_run" "resume_phase st = P_mig_move \<longrightarrow> moves_host st"
    by (simp_all add: resume_phase_def)
  have sp: "same_pool s s'" using t s'(8) by (auto simp: retaken_def same_pool_def)
  have "hist_ok s (resume_phase st) k"
    using b t p k(2) unfolding k(1) by (auto simp: rebuilt_def retaken_def hist_ok_def hosted_def host_of_def)
  moreover have "same_elsewhere s s' i" using s'(1,2) by (simp add: same_elsewhere_def)
  moreover have "rjobs s' x - rjobs s x = r_claim (resume_phase st) k x - r_claim P_idle j0 x" for x
    using t s'(4) unfolding k(1) by (simp add: retaken_def)
  moreover have "uslots s' x - uslots s x = u_claim (resume_phase st) k x - u_claim P_idle j0 x" for x
    using t s'(5) unfolding k(1) by (simp add: retaken_def)
  moreover have "get_user s w \<noteq> None \<longrightarrow> urun s' w - urun s w = n_claim (resume_phase st) k w - n_claim P_idle j0 w" for w
    using t s'(6) p unfolding k(1) by (auto simp: retaken_def n_claim_def)
  ultimately have "settled s i P_idle j0 s' (resume_phase st) k"
    using h b sp s'(7) unfolding k(1) by (simp add: settled_def rebuilt_def held_def)
  then show ?thesis using s'(1,3) unfolding k(1) by (simp add: moved_def)
qed

lemma last_transition_inv:
  assumes inv: "gwd_inv s" and g: "get_job s i = Some j0" and c: "ctl_of s i = []" and b: "rebuilt s i st j"
    and ok: "resumable prev st" and contact: "st = GW_JOB_STATE_WRAPPER \<longrightarrow> gw_job_recover_get_contact file \<noteq> None"
    and r: "gw_job_recover_last_state_transition file st i (set_state prev j) s = Some (k, s1, rc)"
  shows "gwd_inv (reopen st i (put i k s1))"
proof -
  obtain p where h: "held s i p j0" using inv_held [OF inv g] .
  moreover from this have "p = P_idle" using c by (simp add: held_def)
  ultimately have h: "held s i P_idle j0" by simp
  have nf: "no_finalize s" using inv_no_finalize [OF inv] .
  have "moved s i P_idle j0 (Some (reopen st i (put i k s1)))"
  proof (cases "idle_again st")
    case True
    have k: "k = set_state st j" "s1 = s \<or> (\<exists>m. s1 = send m s)"
      using r True by (auto simp: gw_job_recover_last_state_transition_def set_state_def split: if_splits)
    have "reopen st i (put i k s1) = put i k s1" using True by (auto simp: reopen_def idle_again_def)
    moreover have "phase_of [] st = Some P_idle" using True by (auto simp: idle_again_def idle_state_def)
    moreover have "hist_ok s P_idle k" using b k(1) by (auto simp: hist_ok_def rebuilt_def)
    ultimately show ?thesis using b c g nf k held_simps(5) [OF h]
      by (auto simp: moved_def settled_def rebuilt_def same_pool_def same_elsewhere_def gw_frame set_state_def n_claim_def)
  next
    case False
    show ?thesis
    proof (cases "st = GW_JOB_STATE_WRAPPER")
      case True
      obtain x where x: "Option.bind file scan_word = Some x" using contact True by (auto simp: gw_job_recover_get_contact_def)
      obtain t m where t: "retake_counters st (set_state prev j) s = Some t" "k = set_state st j" "s1 = to_mad m t"
        using r False True x
        by (auto simp: gw_job_recover_last_state_transition_def gw_job_recover_job_contact_def Let_def set_state_def
            bind_eq_Some_conv split: prod.splits)
      have rt: "retaken st j s t" using retake_counters_retaken [OF t(1)] by simp
      then have g1: "get_job s1 i = Some j0" "ctl_of s1 i = []" "no_finalize s1" "same_pool t s1"
        using g c nf unfolding t(3) by (simp_all add: retaken_def)
      show ?thesis
      proof (rule resumed_settled [OF h c b rt t(2)])
        let ?s = "reopen st i (put i k s1)"
        have e: "?s = trigger_em EM_SUBMIT i (put i k s1)" using True by (simp add: reopen_def)
        show "get_job ?s x = (if x = i then Some k else get_job s x)" for x
          unfolding e using g1(1) rt by (simp add: gw_frame retaken_def t(3))
        show "ctl_of ?s x = ctl_of s x" if "x \<noteq> i" for x
          unfolding e using g1 rt that by (simp add: gw_frame retaken_def t(3))
        show "phase_of (ctl_of ?s i) st = Some (resume_phase st)"
          unfolding e using g1 True by (simp add: gw_frame resume_phase_def moves_host_def takes_slots_def exec_phase_def exec_state_def)
        show "rjobs ?s x = rjobs t x" "uslots ?s x = uslots t x" "urun ?s x = urun t x" for x
          unfolding e using g1 by (simp_all add: gw_frame t(3))
        show "no_finalize ?s" "same_pool t ?s"
          unfolding e using g1 by (simp_all add: gw_frame same_pool_def t(3))
      qed (simp add: True)
    next
      case nw: False
      have "resume_action st \<noteq> None" using ok False nw by (auto simp: resumable_def)
      then obtain a t where t: "resume_action st = Some a" "k = (if stays_cancelled st then set_state st j else set_state prev j)"
        "retake_counters st k s = Some t" "s1 = trigger_dm a (ARG_ID i) t"
        using r False nw by (auto simp: gw_job_recover_last_state_transition_def Let_def set_state_def bind_eq_Some_conv
            split: option.splits if_splits)
      have rt: "retaken st j s t" using retake_counters_retaken [OF t(3)] t(2) by (simp split: if_splits)
      let ?st = "if stays_cancelled st then st else prev"
      have k: "k = set_state ?st j" "?st \<notin> {GW_JOB_STATE_FAILED, GW_JOB_STATE_STOPPED}"
        using t(1,2) ok False nw
        by (auto simp: stays_cancelled_def resumable_def resume_action_def left_state_def exec_state_def split: if_splits gw_job_state.splits)
      have a: "action_phase a ?st = Some (resume_phase st)" "is_ctl a" "a \<noteq> DM_FINALIZE"
        using ok False nw t(1) by (auto simp: resumable_def resume_action_def is_ctl_def split: gw_job_state.splits)
      have g1: "get_job t i = Some j0" "ctl_of t i = []" "no_finalize t" using rt g c nf by (simp_all add: retaken_def)
      let ?s = "reopen st i (put i k s1)"
      have e: "?s = trigger_dm a (ARG_ID i) (put i k t)" using nw t(4) g1(3)
        by (auto simp: reopen_def trigger_dm_def put_def)
      have g2: "no_finalize (put i k t)" "ctl_of (put i k t) i = []" using g1 by (simp_all add: gw_frame)
      show ?thesis unfolding e
      proof (rule resumed_settled [OF h c b rt k])
        let ?s = "trigger_dm a (ARG_ID i) (put i k t)"
        show "get_job ?s x = (if x = i then Some k else get_job s x)" for x
          using g1(1) rt by (simp add: gw_frame retaken_def)
        show "ctl_of ?s x = ctl_of s x" if "x \<noteq> i" for x
          using ctl_hand_dm [OF g2(1) a(2) g2(2)] g1 rt that by (simp add: gw_frame retaken_def)
        show "phase_of (ctl_of ?s i) ?st = Some (resume_phase st)"
          using ctl_hand_dm [OF g2(1) a(2) g2(2)] a(1) by simp
        show "rjobs ?s x = rjobs t x" "uslots ?s x = uslots t x" "urun ?s x = urun t x" for x
          using g1 by (simp_all add: gw_frame)
        show "no_finalize ?s" "same_pool t ?s" using g2 a(3) by (simp_all add: gw_frame same_pool_def)
      qed
    qed
  qed
  then show ?thesis using inv_request [OF inv h] by simp
qed

section \<open>New hosts\<close>

definition hosts_grow :: "gwd \<Rightarrow> gwd \<Rightarrow> bool" where
  "hosts_grow s s' \<longleftrightarrow> gd_jobs s' = gd_jobs s \<and> gd_users s' = gd_users s \<and> dm_am s' = dm_am s \<and>
     tm_am s' = tm_am s \<and> em_am s' = em_am s \<and>
     (\<forall>h. get_host s h \<noteq> None \<longrightarrow> get_host s' h \<noteq> None \<and> rjobs s' h = rjobs s h \<and> uslots s' h = uslots s h) \<and>
     (\<forall>h. get_host s h = None \<longrightarrow> rjobs s' h = 0 \<and> uslots s' h = 0)"

lemma hosts_grow_refl [simp]: "hosts_grow s s"
  by (simp add: hosts_grow_def rjobs_def uslots_def)

lemma hosts_grow_trans:
  assumes "hosts_grow s1 s2" and "hosts_grow s2 s3"
  shows "hosts_grow s1 s3"
proof -
  have "rjobs s3 h = 0 \<and> uslots s3 h = 0" if "get_host s1 h = None" for h
    using assms that unfolding hosts_grow_def by (cases "get_host s2 h") simp_all
  then show ?thesis using assms by (auto simp: hosts_grow_def)
qed

lemma claim_unknown_host:
  assumes inv: "gwd_inv s" and h: "get_host s h = None"
  shows "claim r_claim s i h = 0" "claim u_claim s i h = 0"
proof -
  have "claim r_claim s i h = 0 \<and> claim u_claim s i h = 0"
  proof (cases "get_job s i")
    case (Some j)
    obtain p where p: "held s i p j" using inv_held [OF inv Some] .
    have jp: "job_phase s i j = p" using held_simps(2) [OF p] by (simp add: job_phase_def)
    have "p \<noteq> P_idle \<Longrightarrow> on_host j 0 h = 0" "p = P_mig_run \<or> p = P_mig_move \<Longrightarrow> on_host j 1 h = 0"
      using held_simps(3) [OF p] h by (auto simp: hist_ok_def hosted_def on_host_def)
    then show ?thesis using Some jp by (cases p) (auto simp: claim_def)
  qed (simp add: claim_def)
  then show "claim r_claim s i h = 0" "claim u_claim s i h = 0" by simp_all
qed

lemma inv_hosts_grow:
  assumes inv: "gwd_inv s" and g: "hosts_grow s s'"
  shows "gwd_inv s'"
proof -
  have v: "get_job s' i = get_job s i" "ctl_of s' i = ctl_of s i" "get_user s' w = get_user s w" "urun s' w = urun s w"
    "no_finalize s' = no_finalize s" for i w
    using g by (simp_all add: hosts_grow_def view_defs no_finalize_def)
  have ho: "hist_ok s p j \<Longrightarrow> hist_ok s' p j" for p j
    using g v(3) by (auto simp: hosts_grow_def hist_ok_def hosted_def)
  have "local_ok s' i" for i
  proof -
    have "local_ok s i" using inv by (simp add: gwd_inv_def)
    then show ?thesis using v ho by (cases "get_job s i") (auto simp: local_ok_def job_ok_def)
  qed
  moreover have tot: "total f s' x = total f s x" for f x
  proof -
    have jp: "job_phase s' i j = job_phase s i j" for i j by (simp add: job_phase_def v)
    have "claim f s' i x = claim f s i x" for i by (cases "get_job s i") (simp_all add: claim_def v jp)
    then show ?thesis using g by (simp add: total_def hosts_grow_def)
  qed
  moreover have "total r_claim s h = 0 \<and> total u_claim s h = 0" if "get_host s h = None" for h
    using claim_unknown_host [OF inv that] by (simp add: total_def)
  ultimately show ?thesis using inv g v
    unfolding gwd_inv_def balanced_def hosts_grow_def by (metis (no_types, lifting))
qed

text \<open>Registering a host, and setting its type.\<close>

lemma host_allocate_grows:
  assumes "gw_host_pool_host_allocate n pr em tm im (gd_hosts s) = Some (hp, hid)"
  shows "hosts_grow s (s\<lparr>gd_hosts := hp\<rparr>)"
proof (cases "hid = -1")
  case True
  then show ?thesis
    using assms by (auto simp: gw_host_pool_host_allocate_def bind_eq_Some_conv split: option.splits)
next
  case False
  then obtain i where i: "find_slot (last_host_id (gd_hosts s)) (hosts (gd_hosts s)) = Some (Some i)" "hid = int i"
    "hosts hp = (hosts (gd_hosts s))[i := Some (gw_host_init n (int i) pr em tm im)]"
    using assms by (auto simp: gw_host_pool_host_allocate_def bind_eq_Some_conv split: option.splits)
  have f: "i < length (hosts (gd_hosts s))" "hosts (gd_hosts s) ! i = None" using find_slot_Some [OF i(1)] by simp_all
  have g: "get_host (s\<lparr>gd_hosts := hp\<rparr>) h = (if h = int i then Some (gw_host_init n (int i) pr em tm im) else get_host s h)" for h
    using f i(3) by (auto simp: get_host_def gw_host_pool_get_host_def slot_get_def)
  have n: "get_host s (int i) = None" using f by (simp add: get_host_def gw_host_pool_get_host_def slot_get_def)
  show ?thesis using g n by (auto simp: hosts_grow_def rjobs_def uslots_def gw_host_init_def)
qed

lemma host_type_grows:
  assumes "get_host s hid = Some h"
  shows "hosts_grow s (s\<lparr>gd_hosts := (gd_hosts s)\<lparr>hosts := slot_put (hosts (gd_hosts s)) hid (Some (h\<lparr>lrms_type := x\<rparr>))\<rparr>\<rparr>)"
proof -
  let ?s = "s\<lparr>gd_hosts := (gd_hosts s)\<lparr>hosts := slot_put (hosts (gd_hosts s)) hid (Some (h\<lparr>lrms_type := x\<rparr>))\<rparr>\<rparr>"
  have g: "get_host ?s k = (if k = hid then Some (h\<lparr>lrms_type := x\<rparr>) else get_host s k)" for k
    using assms by (auto simp: get_host_def gw_host_pool_get_host_def)
  show ?thesis using g assms by (auto simp: hosts_grow_def rjobs_def uslots_def)
qed

section \<open>The states one after the other\<close>

text \<open>The job that is rebuilt: what the transitions keep, and how the restarts follow from the records.\<close>

definition rebuilds :: "gw_job \<Rightarrow> gw_job \<Rightarrow> bool" where
  "rebuilds j k \<longleftrightarrow> job_id k = job_id j \<and> template k = template j \<and> user_id k = user_id j \<and>
     restarted k = int (length (history k) - 1)"

lemma rebuilds_upd:
  assumes "rebuilds j k"
  shows "upd_top f k = Some l \<Longrightarrow> rebuilds j l \<and> history l \<noteq> []" "upd_next f k = Some l \<Longrightarrow> rebuilds j l \<and> history l \<noteq> []"
  using assms by (auto simp: rebuilds_def upd_top_def upd_next_def split: list.splits)

lemma rebuilds_exit [simp]: "rebuilds j (k\<lparr>exit_time := t\<rparr>) = rebuilds j k"
  by (simp add: rebuilds_def)

lemma leave_rebuilds: "rebuilds j k \<Longrightarrow> leave_state prev t k = Some l \<Longrightarrow> rebuilds j l"
  by (auto simp: leave_state_def dest: rebuilds_upd split: if_splits)

lemma enter_rebuilds:
  "rebuilds j k \<Longrightarrow> enter_state prev st t k = Some l \<Longrightarrow> rebuilds j l \<and>
     (st \<in> {GW_JOB_STATE_FAILED, GW_JOB_STATE_STOPPED} \<longrightarrow> history l \<noteq> [])"
  by (auto simp: enter_state_def dest: rebuilds_upd split: if_splits)

lemma history_add_cons:
  assumes "gw_job_history_add e up hist hid h rank queue ow jid uid recover = (hist', rc)" and "rc \<noteq> -1"
  shows "\<exists>r. hist' = r # hist"
  using assms by (auto simp: gw_job_history_add_def split: option.splits)

lemma record_rebuilds:
  assumes r: "gw_job_recover_history_record e (k, f, s) = Some ((l, f', s'), rc)" and k: "rebuilds j k" and rc: "rc \<noteq> -1"
  shows "rebuilds j l \<and> hosts_grow s s'"
proof (cases "Option.bind f scan_history")
  case (Some x)
  obtain a rest where x: "x = (a, rest)" by (cases x)
  let ?pr = "gw_sch_get_host_priority (rc_sched e) (hl_host a) (hl_im a)"
  let ?find = "case gw_host_pool_search (gd_hosts s) (hl_host a) of
        Some hid \<Rightarrow> Some (hid, s)
      | None \<Rightarrow> do {
          (hp, hid) \<leftarrow> gw_host_pool_host_allocate (hl_host a) ?pr (hl_em a) (hl_tm a) (hl_im a) (gd_hosts s);
          Some (hid, s\<lparr>gd_hosts := hp\<rparr>) }"
  let ?k = "if history k \<noteq> [] then k\<lparr>restarted := restarted k + 1\<rparr> else k"
  let ?type = "\<lambda>hid h s. s\<lparr>gd_hosts := (gd_hosts s)\<lparr>hosts :=
     slot_put (hosts (gd_hosts s)) hid (Some (h\<lparr>lrms_type := Some (hl_lrms_type a)\<rparr>))\<rparr>\<rparr>"
  let ?add = "\<lambda>hid h s. gw_job_history_add (rc_hist e) (gd_users s) (history ?k) hid
     (h\<lparr>lrms_type := Some (hl_lrms_type a), fork_name := Some (hl_fork a), lrms_name := Some (hl_lrms a)\<rparr>)
     (hl_rank a) (Some (hl_queue a)) (owner ?k) (job_id ?k) (user_id ?k) True"
  from r Some obtain hid s1 h where s1: "?find = Some (hid, s1)" and h: "get_host s1 hid = Some h"
    and eq: "(case ?add hid h (?type hid h s1) of (hist, rc) \<Rightarrow>
       Some ((?k\<lparr>history := hist\<rparr>, Some rest, ?type hid h s1), if rc = -1 then -1 else 0)) = Some ((l, f', s'), rc)"
    unfolding x gw_job_recover_history_record_def Let_def
    by (cases ?find) (auto simp: bind_eq_Some_conv simp del: gw_job.simps)
  obtain hist rc1 where add: "?add hid h (?type hid h s1) = (hist, rc1)" by (cases "?add hid h (?type hid h s1)")
  have s': "s' = ?type hid h s1" and l: "l = ?k\<lparr>history := hist\<rparr>" "rc = (if rc1 = -1 then -1 else 0)"
    using eq unfolding add by simp_all
  have "rc1 \<noteq> -1" using l(2) rc by auto
  from history_add_cons [OF add this] obtain h0 where h0: "hist = h0 # history ?k" ..
  have s1: "s1 = s \<or> (\<exists>hp. gw_host_pool_host_allocate (hl_host a) ?pr (hl_em a) (hl_tm a) (hl_im a) (gd_hosts s) = Some (hp, hid) \<and>
      s1 = s\<lparr>gd_hosts := hp\<rparr>)"
    using s1 by (auto simp: bind_eq_Some_conv split: option.splits)
  have "hosts_grow s s1" using s1 host_allocate_grows by auto
  moreover have "hosts_grow s1 s'" unfolding s' by (rule host_type_grows [OF h])
  moreover have "rebuilds j l" using k h0 l(1) by (cases "history k") (auto simp: rebuilds_def)
  ultimately show ?thesis using hosts_grow_trans by blast
qed (use assms in \<open>simp add: gw_job_recover_history_record_def\<close>)

lemma transition_rebuilds:
  assumes r: "gw_job_recover_state_transition e prev st t (k, f, s) = Some ((l, f', s'), rc)"
    and k: "rebuilds j k" and rc: "rc \<noteq> -1"
  shows "rebuilds j l \<and> hosts_grow s s' \<and> (st \<in> {GW_JOB_STATE_FAILED, GW_JOB_STATE_STOPPED} \<longrightarrow> history l \<noteq> []) \<and>
     st \<noteq> GW_JOB_STATE_LIMIT"
proof -
  have p: "prev \<noteq> GW_JOB_STATE_LIMIT" using r rc by (auto simp: gw_job_recover_state_transition_def)
  then obtain k1 where k1: "leave_state prev t k = Some k1"
    using r by (auto simp: gw_job_recover_state_transition_def bind_eq_Some_conv)
  note k1r = leave_rebuilds [OF k k1]
  consider "st = GW_JOB_STATE_PROLOG" | "st = GW_JOB_STATE_MIGR_CANCEL"
    | "st \<noteq> GW_JOB_STATE_PROLOG" "st \<noteq> GW_JOB_STATE_MIGR_CANCEL" by blast
  then show ?thesis
  proof cases
    case 1
    then obtain l1 rc1 where l1: "gw_job_recover_history_record e (k1, f, s) = Some ((l1, f', s'), rc1)"
      "rc1 = 0 \<and> upd_top (set_stat PROLOG_START_TIME t \<circ> set_stat START_TIME t) l1 = Some l \<or> rc1 \<noteq> 0 \<and> l = l1 \<and> rc = rc1"
      using r p k1 by (auto simp: gw_job_recover_state_transition_def bind_eq_Some_conv split: if_splits)
    then have "rebuilds j l1 \<and> hosts_grow s s'" using record_rebuilds [OF l1(1) k1r] rc by fastforce
    then show ?thesis using l1(2) rebuilds_upd(1) 1 by auto
  next
    case 2
    then have "gw_job_recover_history_record e (k1, f, s) = Some ((l, f', s'), rc)"
      using r p k1 by (simp add: gw_job_recover_state_transition_def)
    then show ?thesis using record_rebuilds [OF _ k1r rc] 2 by simp
  next
    case 3
    then show ?thesis using r p k1 rc enter_rebuilds [OF k1r]
      by (auto simp: gw_job_recover_state_transition_def bind_eq_Some_conv split: if_splits)
  qed
qed

text \<open>The last two states of the file.\<close>

fun last_states :: "(int \<times> string) list \<Rightarrow> gw_job_state \<times> gw_job_state \<Rightarrow> gw_job_state \<times> gw_job_state" where
  "last_states [] p = p"
| "last_states ((t, w) # xs) (prev, st) =
     last_states xs (if prev = GW_JOB_STATE_LIMIT then GW_JOB_STATE_INIT else st, gw_job_get_state_code w)"

lemma transitions_rebuild:
  assumes "recover_transitions e xs (prev, st, t) (k, f, s) = Some ((prev', st', t'), (l, f', s'), rc)"
    and "rebuilds j k" and "rc \<noteq> -1" and "st \<in> {GW_JOB_STATE_FAILED, GW_JOB_STATE_STOPPED} \<longrightarrow> history k \<noteq> []"
  shows "rebuilds j l \<and> hosts_grow s s' \<and> (st' \<in> {GW_JOB_STATE_FAILED, GW_JOB_STATE_STOPPED} \<longrightarrow> history l \<noteq> []) \<and>
     last_states xs (prev, st) = (prev', st')"
  using assms
proof (induction xs arbitrary: prev st t k f s)
  case (Cons x xs)
  obtain u w where x: "x = (u, w)" by (cases x)
  let ?p = "if prev = GW_JOB_STATE_LIMIT then GW_JOB_STATE_INIT else st"
  obtain k1 f1 s1 rc1 where k1: "gw_job_recover_state_transition e ?p (gw_job_get_state_code w) u (k, f, s) = Some ((k1, f1, s1), rc1)"
    "rc1 \<noteq> -1" "recover_transitions e xs (?p, gw_job_get_state_code w, u) (k1, f1, s1) = Some ((prev', st', t'), (l, f', s'), rc)"
    using Cons.prems(1,3) x by (auto simp: Let_def bind_eq_Some_conv split: if_splits)
  note t1 = transition_rebuilds [OF k1(1) Cons.prems(2) k1(2)]
  show ?case using Cons.IH [OF k1(3) _ Cons.prems(3)] t1 x hosts_grow_trans by auto
qed simp

end
