(* ===== verification/RC_Files.thy ===== *)
theory RC_Files
  imports RC_Recover SCH_Message
begin

text \<open>
  The files of a job: the lines that \<open>gw_job_set_state\<close> (\<open>job.state\<close>), \<open>gw_job_history_add\<close>
  (\<open>job.history\<close>) and \<open>gw_job_fill\<close> (\<open>job.conf\<close>) write, and that the recovery reads back what they say.
\<close>

section \<open>Writing\<close>

definition state_text :: "state_line \<Rightarrow> string" where
  "state_text l = dec (line_time l) @ '' '' @ gw_job_get_state_name (line_state l) @ [NL]"

text \<open>
  The state file after the lines \<open>ls\<close> were appended to it, from the moment \<open>gw_job_fill\<close> has made the directory
  of the job anew.
\<close>

definition state_file :: "state_line list \<Rightarrow> string" where
  "state_file ls = concat (map state_text ls)"

text \<open>\<open>%s\<close> of a null pointer.\<close>

definition fmt_str :: "string option \<Rightarrow> string" where
  "fmt_str p = (case p of None \<Rightarrow> ''(null)'' | Some w \<Rightarrow> w)"

definition history_text :: "gw_host \<Rightarrow> int \<Rightarrow> string option \<Rightarrow> string" where
  "history_text h rank queue =
     hostname h @ '' '' @ dec rank @ '' '' @ fmt_str queue @ '' '' @ fmt_str (fork_name h) @ '' '' @ fmt_str (lrms_name h)
     @ '' '' @ fmt_str (lrms_type h) @ '' '' @ host_em_mad h @ '' '' @ host_tm_mad h @ '' '' @ host_im_mad h @ [NL]"

definition conf_text :: "gw_job \<Rightarrow> string \<Rightarrow> int \<Rightarrow> int \<Rightarrow> string" where
  "conf_text j proxy start step =
     dec (start_time j) @ '' '' @ fmt_str (owner j) @ '' '' @ (if proxy = [] then ''-'' else proxy) @ '' '' @
     fmt_str (job_home (template j)) @ '' '' @ dec start @ '' '' @ dec step @ [NL]"

section \<open>Reading\<close>

lemma scan_word_first:
  assumes "is_word w" and "is_blank b"
  shows "scan_word (w @ b # s) = Some (w, b # s)"
  using assms word_split [OF assms] dropWhile_word [OF assms(1)] by (simp add: scan_word_def is_word_def)

lemma scan_skip:
  "is_blank b \<Longrightarrow> scan_word (b # s) = scan_word s" "is_blank b \<Longrightarrow> scan_long (b # s) = scan_long s"
  by (simp_all add: scan_word_def scan_long_def)

lemma digits_then_blank:
  assumes "\<And>c. c \<in> set ds \<Longrightarrow> is_digit c" and "is_blank b"
  shows "takeWhile is_digit (ds @ b # s) = ds" "dropWhile is_digit (ds @ b # s) = b # s"
  using assms digit_no_blank [of b] by (auto simp: takeWhile_append dropWhile_append)

lemma split_sign_dec: "split_sign (dec i @ s) = (i < 0, dec_nat (nat \<bar>i\<bar>) @ s)"
proof (cases "i < 0")
  case False
  obtain c cs where d: "dec_nat (nat i) = c # cs" by (cases "dec_nat (nat i)") auto
  then have "is_digit c" using dec_nat_digits [of c "nat i"] by simp
  then show ?thesis using False d digit_not_special [of c] by (simp add: dec_def split_sign_def)
qed (simp add: dec_def split_sign_def)

lemma scan_long_first:
  assumes "is_blank b"
  shows "scan_long (dec i @ b # s) = Some (i, b # s)"
proof -
  have d: "takeWhile is_digit (dec_nat n @ b # s) = dec_nat n" "dropWhile is_digit (dec_nat n @ b # s) = b # s" for n
    by (rule digits_then_blank [OF _ assms], erule dec_nat_digits)+
  show ?thesis by (simp add: scan_long_def dropWhile_word [OF dec_word] split_sign_dec atoi_digits_dec d Let_def)
qed

lemmas scan_first = scan_word_first scan_long_first scan_skip NL_blank

lemma state_name_word: "is_word (gw_job_get_state_name st)"
  by (cases st) (simp_all add: gw_job_get_state_name_def gw_job_state_names_def is_word_def is_blank_def)

lemma state_entry_text:
  "state_entry (state_text l @ s) = Inr ((line_time l, gw_job_get_state_name (line_state l)), NL # s)"
  using state_name_word [of "line_state l"] by (simp add: state_entry_def state_text_def scan_first)

lemma read_states_blank: "is_blank b \<Longrightarrow> read_states (b # s) = read_states s"
proof -
  assume "is_blank b"
  then have "state_entry (b # s) = state_entry s" by (simp add: state_entry_def scan_skip split: option.split)
  then show ?thesis by (simp add: read_states.simps [of "b # s"] read_states.simps [of s])
qed

lemma read_states_texts:
  "read_states (state_file ls) = (map (\<lambda>l. (line_time l, gw_job_get_state_name (line_state l))) ls, True)"
proof (induction ls)
  case Nil
  show ?case by (simp add: state_file_def read_states.simps [of "[]"] state_entry_def scan_long_def split_sign_def)
next
  case (Cons l ls)
  then show ?case
    by (simp add: state_file_def read_states.simps [of "state_text l @ s" for s] state_entry_text read_states_blank NL_blank)
qed

text \<open>A state that a job is set to: not the one it starts in, and not the bound of the enumeration.\<close>

definition named_state :: "gw_job_state \<Rightarrow> bool" where
  "named_state st \<longleftrightarrow> st \<noteq> GW_JOB_STATE_INIT \<and> st \<noteq> GW_JOB_STATE_LIMIT"

lemma named_state_code: "named_state st \<Longrightarrow> gw_job_get_state_code (gw_job_get_state_name st) = st"
  by (cases st) (simp_all add: named_state_def gw_job_get_state_name_def gw_job_state_names_def gw_job_get_state_code_def)

section \<open>What is read is what was written\<close>

definition host_words :: "gw_host \<Rightarrow> bool" where
  "host_words h \<longleftrightarrow> is_word (hostname h) \<and> is_word (host_em_mad h) \<and> is_word (host_tm_mad h) \<and> is_word (host_im_mad h) \<and>
     is_word (fmt_str (fork_name h)) \<and> is_word (fmt_str (lrms_name h)) \<and> is_word (fmt_str (lrms_type h))"

text \<open>The history record and the configuration of a job, when their strings are words.\<close>

lemma scan_history_text:
  assumes "host_words h" and "is_word (fmt_str q)"
  shows "scan_history (history_text h rank q @ s) =
    Some (\<lparr>hl_host = hostname h, hl_rank = rank, hl_queue = fmt_str q, hl_fork = fmt_str (fork_name h),
           hl_lrms = fmt_str (lrms_name h), hl_lrms_type = fmt_str (lrms_type h), hl_em = host_em_mad h,
           hl_tm = host_tm_mad h, hl_im = host_im_mad h\<rparr>, NL # s)"
  using assms by (simp add: scan_history_def history_text_def host_words_def scan_first)

lemma scan_conf_text:
  assumes "owner j = Some w" and "is_word w" and "job_home (template j) = Some d" and "is_word d"
    and "proxy = [] \<or> is_word proxy" and "proxy \<noteq> ''-''"
  shows "scan_conf (conf_text j proxy start step) =
    Some \<lparr>cl_time = start_time j, cl_user = w, cl_proxy = proxy, cl_home = d, cl_pstart = start, cl_pinc = step\<rparr>"
proof -
  have none: "scan_word (CHR ''-'' # CHR '' '' # r) = Some (''-'', CHR '' '' # r)" for r
    using scan_word_first [OF literal_words(1) NL_blank(2), of r] by simp
  show ?thesis using assms
    by (cases "proxy = []") (simp_all add: scan_conf_def conf_text_def fmt_str_def scan_first none)
qed

text \<open>
  A history line gives back the record it was written for: after reading it the job has on top of its history
  a record with the same host, rank, queue and contact strings as the one the daemon had added, provided that the
  names of the host are words and that its fork and batch job managers are known.
\<close>

lemma history_line_roundtrip:
  assumes h: "get_host s hid = Some h" "gw_host_pool_search (gd_hosts s) (hostname h) = Some hid" "host_words h"
    and q: "is_word q" and n: "fork_name h = Some f" "lrms_name h = Some l" "lrms_type h = Some ty"
    and tm: "gw_user_pool_get_tm_mad (gd_users s) (user_id j) (host_tm_mad h) = Some tm"
    and em: "gw_user_pool_get_em_mad (gd_users s) (user_id j) (host_em_mad h) = Some em"
  shows "gw_job_recover_history_record e (j, Some (history_text h rank (Some q) @ rest), s) =
    Some ((j\<lparr>restarted := restarted j + of_bool (history j \<noteq> []),
             history := history_record (rc_hist e) hid h rank (Some q) (owner j) (job_id j) tm em # history j\<rparr>,
           Some (NL # rest), s), 0)"
proof -
  have "is_word (fmt_str (Some q))" using q by (simp add: fmt_str_def)
  note sc = scan_history_text [OF h(3) this]
  have h': "h\<lparr>fork_name := Some f, lrms_name := Some l\<rparr> = h" "h\<lparr>lrms_type := Some ty\<rparr> = h"
    using n by simp_all
  have s': "s\<lparr>gd_hosts := (gd_hosts s)\<lparr>hosts := slot_put (hosts (gd_hosts s)) hid (Some h)\<rparr>\<rparr> = s"
  proof -
    have "slot_put (hosts (gd_hosts s)) hid (Some h) = hosts (gd_hosts s)"
      using h(1)
      by (simp add: get_host_def gw_host_pool_get_host_def slot_put_def slot_get_def list_update_same_conv nat_less_iff
          split: if_splits)
    then show ?thesis by simp
  qed
  show ?thesis
    using h n tm em by (simp add: gw_job_recover_history_record_def sc fmt_str_def h' s' gw_job_history_add_def)
qed

end
