(* ===== verification/RC_Results.thy ===== *)
theory RC_Results
  imports RC_Account RC_Files DM_Safety
begin

text \<open>
  What the recovery of a job does to the daemon as a whole: it keeps the accounting, it counts a user it meets for the
  first time twice, and the slots of a job whose contact is lost are never given back.
\<close>

section \<open>The accounting\<close>

lemma find_user_slot:
  "find_user us n p k = Some i \<Longrightarrow> \<exists>m u. i = int (k + m) \<and> m < length us \<and> us ! m = Some u"
proof (induction us n p k rule: find_user.induct)
  case (2 u us n p k)
  show ?case
  proof (cases "user_name u = n \<and> proxy_path u = p")
    case True
    then show ?thesis using 2(2) by (intro exI [of _ 0]) simp
  next
    case False
    then have "find_user us n p (Suc k) = Some i" using 2(2) by (simp only: find_user.simps if_False)
    from 2(1) [OF False this] obtain m v where "i = int (Suc k + m)" "m < length us" "us ! m = Some v" by blast
    then show ?thesis by (intro exI [of _ "Suc m"]) simp
  qed
next
  case (3 us n p k)
  then obtain m v where "i = int (Suc k + m)" "m < length us" "us ! m = Some v" by auto
  then show ?case by (intro exI [of _ "Suc m"]) simp
qed simp

lemma exists_user:
  assumes "gw_user_pool_exists up n p = (True, i)"
  shows "slot_get (users up) i \<noteq> None"
proof -
  have "find_user (users up) n p 0 = Some i"
    using assms by (simp add: gw_user_pool_exists_def split: option.splits)
  from find_user_slot [OF this] show ?thesis by (auto simp: slot_get_def)
qed

lemma recover_user_adds:
  assumes "recover_user e c s = Some (s', u)"
  shows "only_adds s s' \<and> gd_jobs s' = gd_jobs s \<and> (\<forall>uid. u = Some uid \<longrightarrow> get_user s' uid \<noteq> None)"
proof (cases "gw_user_pool_exists (gd_users s) (cl_user c) (cl_proxy c)")
  case (Pair b uid)
  show ?thesis
  proof (cases b)
    case True
    have "only_adds s s" by (auto simp: only_adds_def urun_def)
    moreover have "get_user s uid \<noteq> None"
      using Pair True exists_user [of "gd_users s"] by (simp add: get_user_def)
    moreover have "s' = s" "u = Some uid" using Pair True assms by (simp_all add: recover_user_def)
    ultimately show ?thesis by simp
  next
    case False
    then obtain up msgs rc uid' where
      al: "gw_user_pool_user_allocate (rc_users e) (cl_user c) (cl_proxy c) (gd_users s) = Some (up, msgs, rc, uid')"
      and s': "s' = sends msgs (s\<lparr>gd_users := up\<rparr>)" "u = (if rc \<noteq> 0 then None else Some uid')"
      using Pair assms by (auto simp: recover_user_def bind_eq_Some_conv)
    have v: "get_user s' w = slot_get (users up) w" for w by (simp add: s' get_user_def)
    have w: "get_user s' w = get_user s w
      \<or> get_user s w = None \<and> (\<exists>u. get_user s' w = Some u \<and> user_running_jobs u = 0)" for w
      unfolding v unfolding get_user_def by (rule user_allocate_adds [OF al])
    have "get_user s w \<noteq> None \<longrightarrow> get_user s' w \<noteq> None \<and> urun s' w = urun s w"
      "get_user s w = None \<longrightarrow> urun s' w = 0" for w
      using w [of w] by (auto simp: urun_def)
    then have "only_adds s s'" by (simp add: only_adds_def get_job_def s')
    moreover have "rc = 0 \<Longrightarrow> get_user s' uid' \<noteq> None"
      using al unfolding v by (auto simp: gw_user_pool_user_allocate_def Let_def slot_get_def split: if_splits prod.splits)
    ultimately show ?thesis using s' by (auto split: if_splits)
  qed
qed

text \<open>A template whose files have names (the parser of the template refuses one without).\<close>

definition named_files :: "gw_template \<Rightarrow> bool" where
  "named_files t \<longleftrightarrow> (\<forall>f\<in>set (ct_input_files t). fst f \<noteq> []) \<and>
     (\<forall>f\<in>set (ct_output_files t). fst f \<noteq> []) \<and> [] \<notin> set (ct_restart_files t)"

lemma named_template_ok: "named_files t \<Longrightarrow> template_ok (gw_job_template_init t)"
  by (auto simp: named_files_def template_ok_def gw_job_template_init_def set_pair_def gw_job_template_set_str_def)

lemma allocate_by_id_adds:
  assumes "gw_job_pool_allocate_by_id t i (gd_jobs s) = (jp, i)" and "i \<noteq> -1"
  shows "only_adds s (s\<lparr>gd_jobs := jp\<rparr>)" "get_job (s\<lparr>gd_jobs := jp\<rparr>) i = Some (gw_job_init t i)" "get_job s i = None"
proof -
  have i: "0 \<le> i" "i < int (length (pool (gd_jobs s)))" "pool (gd_jobs s) ! nat i = None"
    "jp = (gd_jobs s)\<lparr>pool := (pool (gd_jobs s))[nat i := Some (gw_job_init t i)],
             number_of_jobs := number_of_jobs (gd_jobs s) + 1\<rparr>"
    using assms by (auto simp: gw_job_pool_allocate_by_id_def split: if_splits)
  have n: "get_job s i = None" using i(1-3) by (simp add: get_job_def gw_job_pool_get_def slot_get_def)
  have g: "get_job (s\<lparr>gd_jobs := jp\<rparr>) k = (if k = i then Some (gw_job_init t i) else get_job s k)" for k
    using i by (auto simp: get_job_def gw_job_pool_get_def slot_get_def nth_list_update)
  show "only_adds s (s\<lparr>gd_jobs := jp\<rparr>)"
    using g n i(4) new_idle_init by (auto simp: only_adds_def get_user_def urun_def)
  show "get_job (s\<lparr>gd_jobs := jp\<rparr>) i = Some (gw_job_init t i)" "get_job s i = None" using g n by simp_all
qed

lemma inv_inc_jobs:
  assumes "gwd_inv (reopen st i s)"
  shows "gwd_inv (reopen st i (user_op (gw_user_pool_inc_jobs w n) s))"
proof (rule inv_quiet [OF assms])
  show "quiet (reopen st i s) (reopen st i (user_op (gw_user_pool_inc_jobs w n) s))"
    by (simp add: quiet_def reopen_def same_pool_def gw_frame)
      (simp add: ctl_of_def trigger_em_def user_op_def sends_def)
qed

lemma grow_views:
  assumes "hosts_grow s s'"
  shows "get_job s' i = get_job s i" "ctl_of s' i = ctl_of s i" "get_user s' w = get_user s w"
  using assms by (simp_all add: hosts_grow_def view_defs)

text \<open>The states of the file, read back in their order.\<close>

definition last_of_file :: "string \<Rightarrow> gw_job_state \<times> gw_job_state" where
  "last_of_file states = last_states (fst (read_states states)) (GW_JOB_STATE_LIMIT, GW_JOB_STATE_INIT)"

lemma last_states_texts:
  assumes "\<forall>l\<in>set ls. named_state (line_state l)" and "p \<noteq> GW_JOB_STATE_LIMIT" and "q \<noteq> GW_JOB_STATE_LIMIT"
  shows "last_states (map (\<lambda>l. (line_time l, gw_job_get_state_name (line_state l))) (ls @ [a, b])) (p, q) =
    (gw_job_get_state_code (gw_job_get_state_name (line_state a)), gw_job_get_state_code (gw_job_get_state_name (line_state b)))"
  using assms
proof (induction ls arbitrary: p q)
  case (Cons l ls)
  then have "gw_job_get_state_code (gw_job_get_state_name (line_state l)) = line_state l" "line_state l \<noteq> GW_JOB_STATE_LIMIT"
    by (simp_all add: named_state_code named_state_def)
  then show ?case using Cons.IH [of q "line_state l"] Cons.prems by simp
qed simp

lemma last_of_texts:
  assumes "\<forall>l\<in>set (ls @ [a, b]). named_state (line_state l)"
  shows "last_of_file (state_file (ls @ [a, b])) = (line_state a, line_state b)"
proof -
  have c: "gw_job_get_state_code (gw_job_get_state_name (line_state l)) = line_state l"
    "line_state l \<noteq> GW_JOB_STATE_LIMIT" if "l \<in> set (ls @ [a, b])" for l
  proof -
    have "named_state (line_state l)" using that assms by blast
    then show "gw_job_get_state_code (gw_job_get_state_name (line_state l)) = line_state l" "line_state l \<noteq> GW_JOB_STATE_LIMIT"
      by (simp_all add: named_state_code named_state_def)
  qed
  show ?thesis
  proof (cases ls)
    case Nil
    then show ?thesis using c by (simp add: last_of_file_def read_states_texts)
  next
    case (Cons l ks)
    then have "last_states (map (\<lambda>l. (line_time l, gw_job_get_state_name (line_state l))) (ks @ [a, b]))
        (GW_JOB_STATE_INIT, line_state l) = (line_state a, line_state b)"
      using last_states_texts [of ks GW_JOB_STATE_INIT "line_state l" a b] assms c by simp
    then show ?thesis using Cons c by (simp add: last_of_file_def read_states_texts)
  qed
qed

text \<open>
  C14: the state file of a job gives back the life of the job. Whatever named states the job was set to since its
  directory was made, the recovery reads from the file exactly these states, in their order and with their
  times, up to the end of the file, and goes on from the last two of them.
\<close>

theorem state_file_roundtrip:
  assumes "\<forall>l\<in>set ls. named_state (line_state l)"
  shows "\<exists>xs. read_states (state_file ls) = (xs, True) \<and>
     map (\<lambda>(t, w). (t, gw_job_get_state_code w)) xs = map (\<lambda>l. (line_time l, line_state l)) ls \<and>
     (\<forall>ks a b. ls = ks @ [a, b] \<longrightarrow> last_of_file (state_file ls) = (line_state a, line_state b))"
proof -
  have "map (\<lambda>(t, w). (t, gw_job_get_state_code w)) (map (\<lambda>l. (line_time l, gw_job_get_state_name (line_state l))) ls) =
      map (\<lambda>l. (line_time l, line_state l)) ls"
    using assms by (simp add: named_state_code)
  moreover have "last_of_file (state_file ls) = (line_state a, line_state b)" if "ls = ks @ [a, b]" for ks a b
    using last_of_texts [of ks a b] assms that by simp
  ultimately show ?thesis using read_states_texts [of ls] by blast
qed

definition demo_written :: "state_line list" where
  "demo_written = [\<lparr>line_time = 100, line_job = 7, line_state = GW_JOB_STATE_PENDING, line_exit_code = 0\<rparr>,
     \<lparr>line_time = 101, line_job = 7, line_state = GW_JOB_STATE_PROLOG, line_exit_code = 0\<rparr>]"

theorem state_file_roundtrip_witness:
  "\<exists>xs. read_states (state_file demo_written) = (xs, True) \<and>
     map (\<lambda>(t, w). (t, gw_job_get_state_code w)) xs = [(100, GW_JOB_STATE_PENDING), (101, GW_JOB_STATE_PROLOG)]"
proof -
  have "\<forall>l\<in>set demo_written. named_state (line_state l)"
    "map (\<lambda>l. (line_time l, line_state l)) demo_written = [(100, GW_JOB_STATE_PENDING), (101, GW_JOB_STATE_PROLOG)]"
    by (simp_all add: demo_written_def named_state_def)
  from state_file_roundtrip [OF this(1)] this(2) show ?thesis by auto
qed

lemma recover_states_ok:
  assumes r: "recover_states e f i states t0 j s = Some (s', 0)" and l: "last_of_file states = (prev, st)"
    and j: "restarted j = 0" "history j = []"
  obtains k s1 k2 s2 rc2 where "rebuilds j k" "hosts_grow s s1"
    "st \<in> {GW_JOB_STATE_FAILED, GW_JOB_STATE_STOPPED} \<longrightarrow> history k \<noteq> []"
    "gw_job_recover_last_state_transition (jf_contact f) st i (set_state prev k) s1 = Some (k2, s2, rc2)"
    "s' = user_op (gw_user_pool_inc_jobs (user_id k2) 1) (put i k2 s2)"
proof -
  obtain xs eof where xs: "read_states states = (xs, eof)" by (cases "read_states states")
  obtain prev1 st1 t1 k fl s1 rc where tr:
    "recover_transitions e xs (GW_JOB_STATE_LIMIT, GW_JOB_STATE_INIT, t0) (j, jf_history f, s) = Some ((prev1, st1, t1), (k, fl, s1), rc)"
    "rc \<noteq> -1"
    and rest: "do { (job, s, _) \<leftarrow> gw_job_recover_last_state_transition (jf_contact f) st1 i (set_state prev1 k) s1;
        Some (user_op (gw_user_pool_inc_jobs (user_id job) 1) (put i job s), 0) } = Some (s', 0)"
    using r by (auto simp: recover_states_def xs bind_eq_Some_conv split: if_splits)
  from rest obtain k2 s2 rc2 where la: "gw_job_recover_last_state_transition (jf_contact f) st1 i (set_state prev1 k) s1 = Some (k2, s2, rc2)"
    and s': "s' = user_op (gw_user_pool_inc_jobs (user_id k2) 1) (put i k2 s2)"
    by (auto simp: bind_eq_Some_conv)
  have re: "rebuilds j k \<and> hosts_grow s s1 \<and> (st1 \<in> {GW_JOB_STATE_FAILED, GW_JOB_STATE_STOPPED} \<longrightarrow> history k \<noteq> []) \<and>
      last_states xs (GW_JOB_STATE_LIMIT, GW_JOB_STATE_INIT) = (prev1, st1)"
    by (rule transitions_rebuild [OF tr(1) _ tr(2)]) (use j in \<open>simp_all add: rebuilds_def\<close>)
  then have "prev1 = prev" "st1 = st" using l by (simp_all add: last_of_file_def xs)
  then show thesis using that re la s' by blast
qed

lemma recover_states_inv:
  assumes r: "recover_states e f i states t0 j s = Some (s', 0)" and l: "last_of_file states = (prev, st)"
    and inv: "gwd_inv s" and g: "get_job s i = Some j0" "ctl_of s i = []"
    and j: "job_id j = i" "template_ok (template j)" "restarted j = 0" "history j = []" "get_user s (user_id j) \<noteq> None"
    and ok: "resumable prev st" "st = GW_JOB_STATE_WRAPPER \<longrightarrow> gw_job_recover_get_contact (jf_contact f) \<noteq> None"
  shows "gwd_inv (reopen st i s')"
proof -
  from recover_states_ok [OF r l j(3,4)] obtain k s1 k2 s2 rc2 where re: "rebuilds j k" and gr: "hosts_grow s s1"
    and hist: "st \<in> {GW_JOB_STATE_FAILED, GW_JOB_STATE_STOPPED} \<longrightarrow> history k \<noteq> []"
    and la: "gw_job_recover_last_state_transition (jf_contact f) st i (set_state prev k) s1 = Some (k2, s2, rc2)"
    and s': "s' = user_op (gw_user_pool_inc_jobs (user_id k2) 1) (put i k2 s2)" .
  have "rebuilt s1 i st k"
    using re j hist grow_views(3) [OF gr] by (auto simp: rebuilt_def rebuilds_def)
  then have "gwd_inv (reopen st i (put i k2 s2))"
    using last_transition_inv [OF inv_hosts_grow [OF inv gr] _ _ _ ok, where i = i and j = k and k = k2] g la
    by (simp add: grow_views [OF gr])
  then show ?thesis unfolding s' by (rule inv_inc_jobs)
qed

lemma recover_ok:
  assumes "gw_job_recover e f i s = Some (s', 0)" and "get_job s i = Some j" and "jf_template f = Some jt"
    and "jf_state f = Some states"
  obtains c s1 uid home where "Option.bind (jf_conf f) scan_conf = Some c" "recover_user e c s = Some (s1, Some uid)"
    "recover_states e f i states (cl_time c)
       (recovered_job (gw_job_template_init jt) c uid home (j\<lparr>template := gw_job_template_init jt\<rparr>)) s1 = Some (s', 0)"
proof -
  have d: "jf_directory f" by (rule ccontr) (use assms(1,2) in \<open>simp add: gw_job_recover_def\<close>)
  then obtain c where c: "Option.bind (jf_conf f) scan_conf = Some c"
    using assms by (auto simp: gw_job_recover_def Let_def split: option.splits)
  then obtain s1 u where u: "recover_user e c s = Some (s1, u)"
    using assms d by (auto simp: gw_job_recover_def Let_def bind_eq_Some_conv)
  then obtain uid where uid: "u = Some uid"
    using assms d c by (cases u) (auto simp: gw_job_recover_def Let_def)
  then obtain home where "home_of e (cl_user c) = Some home"
    using assms d c u by (cases "home_of e (cl_user c)") (auto simp: gw_job_recover_def Let_def)
  then show ?thesis using that [OF c u [unfolded uid], of home] assms d c u uid by (simp add: gw_job_recover_def Let_def)
qed

text \<open>
  The recovery keeps the invariant of \<open>DM_Account\<close>, when the job goes on from where it was: the last
  two states of its file are ones the daemon can resume from, and a job that was running has its contact, so that its
  execution counts as under way again.
\<close>

lemma recovery_keeps_accounting:
  assumes inv: "gwd_inv s" and a: "gw_job_pool_allocate_by_id t i (gd_jobs s) = (jp, i)" "i \<noteq> -1"
    and f: "jf_template f = Some jt" "named_files jt" "jf_state f = Some states"
    and ok: "last_of_file states = (prev, st)" "resumable prev st"
      "st = GW_JOB_STATE_WRAPPER \<longrightarrow> gw_job_recover_get_contact (jf_contact f) \<noteq> None"
    and r: "gw_job_recover e f i (s\<lparr>gd_jobs := jp\<rparr>) = Some (s', 0)"
  shows "gwd_inv (reopen st i s')"
proof -
  let ?s = "s\<lparr>gd_jobs := jp\<rparr>"
  let ?tp = "gw_job_template_init jt"
  note new = allocate_by_id_adds [OF a]
  have inv1: "gwd_inv ?s" using inv_only_adds [OF inv new(1)] .
  have c: "ctl_of ?s i = []" using inv_no_job [OF inv new(3)] by (simp add: view_defs)
  obtain c s1 uid home where cl: "Option.bind (jf_conf f) scan_conf = Some c" "recover_user e c ?s = Some (s1, Some uid)"
    and rs: "recover_states e f i states (cl_time c) (recovered_job ?tp c uid home ((gw_job_init t i)\<lparr>template := ?tp\<rparr>)) s1 = Some (s', 0)"
    by (rule recover_ok [OF r new(2) f(1,3)])
  note u = recover_user_adds [OF cl(2)]
  have inv2: "gwd_inv s1" using inv_only_adds [OF inv1] u by blast
  let ?j = "recovered_job ?tp c uid home ((gw_job_init t i)\<lparr>template := ?tp\<rparr>)"
  have j: "job_id ?j = i" "restarted ?j = 0" "history ?j = []" "user_id ?j = uid"
    by (simp_all add: recovered_job_def gw_job_init_def gw_job_history_init_def Let_def)
  have "template_ok (template ?j)"
    using named_template_ok [OF f(2)] by (simp add: recovered_job_def template_ok_def)
  moreover have "ctl_of s1 i = []" using c u by (simp add: only_adds_def ctl_of_def)
  moreover have "get_job s1 i = Some (gw_job_init t i)" using new(2) u by (simp add: get_job_def)
  moreover have "get_user s1 (user_id ?j) \<noteq> None" using u j(4) by simp
  ultimately show ?thesis by (intro recover_states_inv [OF rs ok(1) inv2 _ _ j(1) _ j(2,3) _ ok(2,3)])
qed

section \<open>What the job takes back\<close>

text \<open>What the job holds after its recovery, the state it is in, and the action that goes on with it.\<close>

definition recovered_phase :: "gw_job_state \<Rightarrow> phase" where
  "recovered_phase st =
     (if idle_again st \<or> (st \<noteq> GW_JOB_STATE_WRAPPER \<and> resume_action st = None) then P_idle else resume_phase st)"

definition recovered_state :: "gw_job_state \<Rightarrow> gw_job_state \<Rightarrow> string option \<Rightarrow> gw_job_state" where
  "recovered_state prev st contact =
     (if idle_again st \<or> stays_cancelled st then st
      else if st = GW_JOB_STATE_WRAPPER
      then (if gw_job_recover_get_contact contact = None then GW_JOB_STATE_PENDING else st)
      else prev)"

definition recovered_actions :: "gw_job_state \<Rightarrow> string option \<Rightarrow> dm_action list" where
  "recovered_actions st contact =
     (if idle_again st then []
      else if st = GW_JOB_STATE_WRAPPER
      then (if gw_job_recover_get_contact contact = None then [DM_STATE_PENDING] else [])
      else case resume_action st of None \<Rightarrow> [] | Some a \<Rightarrow> [a])"

text \<open>The recovered job, its counters and the pending actions, relative to the state before.\<close>

definition takes_back :: "gw_job_state \<Rightarrow> gw_job \<Rightarrow> gwd \<Rightarrow> gwd \<Rightarrow> bool" where
  "takes_back st k s s' \<longleftrightarrow>
     (\<forall>h. rjobs s' h = rjobs s h + r_claim (recovered_phase st) k h) \<and>
     (\<forall>h. uslots s' h = uslots s h + u_claim (recovered_phase st) k h) \<and>
     (\<forall>w. urun s' w = urun s w + n_claim (recovered_phase st) k w)"

lemma retaken_takes_back:
  assumes "retaken st j s s'" and "recovered_phase st = resume_phase st" and "get_user s (user_id j) \<noteq> None"
  shows "takes_back st j s s'"
proof -
  have "urun s' w = urun s w + n_claim (resume_phase st) j w" for w
  proof (cases "get_user s w")
    case None
    then have "get_user s' w = None" using assms(1) by (simp add: retaken_def same_pool_def)
    then show ?thesis using None assms(3) by (auto simp: urun_def n_claim_def)
  qed (use assms(1) in \<open>auto simp: retaken_def n_claim_def resume_phase_def\<close>)
  then show ?thesis using assms(1,2) by (simp add: takes_back_def retaken_def)
qed

lemma takes_back_same:
  "\<lbrakk>\<And>h. rjobs s1 h = rjobs s' h; \<And>h. uslots s1 h = uslots s' h; \<And>w. urun s1 w = urun s' w; takes_back st j s s'\<rbrakk> \<Longrightarrow> takes_back st j s s1"
  by (simp add: takes_back_def)

lemma takes_back_state [simp]: "takes_back st (set_state st' j) s s' = takes_back st j s s'"
  by (simp add: takes_back_def)

lemma takes_back_nothing: "recovered_phase st = P_idle \<Longrightarrow> takes_back st j s s"
  by (simp add: takes_back_def)

lemma trigger_no_finalize': "no_finalize s \<Longrightarrow> dm_am (trigger_dm a x s) = dm_am s @ [(a, x)]"
  by (auto simp: trigger_dm_def no_finalize_def image_iff neq_Nil_conv)

lemma grown_counters:
  assumes "hosts_grow s s'"
  shows "rjobs s' h = rjobs s h" "uslots s' h = uslots s h" "urun s' w = urun s w"
  using assms unfolding hosts_grow_def by (cases "get_host s h"; auto simp: rjobs_def uslots_def urun_def get_user_def)+

lemma only_adds_counters:
  assumes "only_adds s s'"
  shows "rjobs s' h = rjobs s h" "uslots s' h = uslots s h" "urun s' w = urun s w"
  using assms unfolding only_adds_def by (cases "get_user s w"; auto simp: rjobs_def uslots_def urun_def get_host_def)+

lemma allocate_by_id_get:
  assumes "gw_job_pool_allocate_by_id t i (gd_jobs s) = (jp, i)" and "i \<noteq> -1"
  shows "get_job (s\<lparr>gd_jobs := jp\<rparr>) k = (if k = i then Some (gw_job_init t i) else get_job s k)"
proof -
  have i: "0 \<le> i" "i < int (length (pool (gd_jobs s)))"
    "jp = (gd_jobs s)\<lparr>pool := (pool (gd_jobs s))[nat i := Some (gw_job_init t i)],
             number_of_jobs := number_of_jobs (gd_jobs s) + 1\<rparr>"
    using assms by (auto simp: gw_job_pool_allocate_by_id_def split: if_splits)
  then show ?thesis by (auto simp: get_job_def gw_job_pool_get_def slot_get_def nth_list_update)
qed

lemma last_transition_effect:
  assumes r: "gw_job_recover_last_state_transition file st i (set_state prev j) s = Some (k, s', rc)"
    and u: "get_user s (user_id j) \<noteq> None" and nf: "no_finalize s"
  shows "k = set_state (recovered_state prev st file) j \<and> takes_back st j s s' \<and>
    dm_am s' = dm_am s @ map (\<lambda>a. (a, ARG_ID i)) (recovered_actions st file) \<and> (\<forall>x. get_job s' x = get_job s x)"
proof (cases "idle_again st")
  case True
  then show ?thesis using r
    by (auto simp: gw_job_recover_last_state_transition_def recovered_state_def recovered_actions_def recovered_phase_def
        takes_back_def set_state_def gw_frame split: if_splits)
next
  case False
  show ?thesis
  proof (cases "st = GW_JOB_STATE_WRAPPER")
    case True
    obtain t where t: "retake_counters st (set_state prev j) s = Some t"
      using r False True by (auto simp: gw_job_recover_last_state_transition_def Let_def bind_eq_Some_conv)
    have rt: "retaken st j s t" using retake_counters_retaken [OF t] by simp
    have ph: "recovered_phase st = resume_phase st" using False True by (simp add: recovered_phase_def)
    note tb = retaken_takes_back [OF rt ph u]
    have tn: "no_finalize t" "dm_am t = dm_am s" "\<And>x. get_job t x = get_job s x" using rt nf by (simp_all add: retaken_def)
    show ?thesis
    proof (cases "Option.bind file scan_word")
      case None
      then have "k = set_state GW_JOB_STATE_PENDING j" "s' = trigger_dm DM_STATE_PENDING (ARG_ID i) t"
        using r False True t by (auto simp: gw_job_recover_last_state_transition_def gw_job_recover_job_contact_def Let_def set_state_def)
      then show ?thesis using None False True tn tb
        by (simp add: recovered_state_def recovered_actions_def stays_cancelled_def gw_job_recover_get_contact_def
            trigger_no_finalize' gw_frame takes_back_def)
    next
      case (Some x)
      then obtain m where "k = set_state st j" "s' = to_mad m t"
        using r False True t
        by (auto simp: gw_job_recover_last_state_transition_def gw_job_recover_job_contact_def Let_def set_state_def
            bind_eq_Some_conv split: prod.splits)
      then show ?thesis using Some False True tn tb
        by (simp add: recovered_state_def recovered_actions_def stays_cancelled_def gw_job_recover_get_contact_def takes_back_def)
          (simp add: to_mad_def)
    qed
  next
    case nw: False
    show ?thesis
    proof (cases "resume_action st")
      case None
      then have "stays_cancelled st \<Longrightarrow> False" by (auto simp: stays_cancelled_def resume_action_def)
      moreover have "k = set_state prev j" "s' = s"
        using r False nw None by (simp_all add: gw_job_recover_last_state_transition_def)
      ultimately show ?thesis using None False nw
        by (auto simp: recovered_state_def recovered_actions_def recovered_phase_def takes_back_def)
    next
      case (Some a)
      then obtain t where t: "k = (if stays_cancelled st then set_state st j else set_state prev j)"
        "retake_counters st k s = Some t" "s' = trigger_dm a (ARG_ID i) t"
        using r False nw by (auto simp: gw_job_recover_last_state_transition_def Let_def set_state_def bind_eq_Some_conv
            split: option.splits if_splits)
      have rt: "retaken st j s t" using retake_counters_retaken [OF t(2)] t(1) by (simp split: if_splits)
      have ph: "recovered_phase st = resume_phase st" using False Some by (simp add: recovered_phase_def)
      have tn: "no_finalize t" "dm_am t = dm_am s" "\<And>x. get_job t x = get_job s x" using rt nf by (simp_all add: retaken_def)
      show ?thesis using retaken_takes_back [OF rt ph u] tn t(1) False nw Some unfolding t(3)
        by (simp add: recovered_state_def recovered_actions_def trigger_no_finalize' gw_frame takes_back_def)
    qed
  qed
qed

text \<open>
  C13: the recovery of a job into a free entry takes back exactly what the job held. When it succeeds, whatever the last
  two states of the file are, the job is in the pool in the state \<open>recovered_state\<close>; the running jobs and the used slots of
  every host and the running jobs of every user grow by what the last state holds (the host of the newest record, of
  the two newest during a migration, the slots only up to the end of the execution; nothing for a job at rest); the
  one action that goes on with the job, and no other, is asked for; and the other jobs stay as they were.
\<close>

theorem recovery_takes_back:
  assumes a: "gw_job_pool_allocate_by_id t i (gd_jobs s) = (jp, i)" "i \<noteq> -1"
    and f: "jf_template f = Some jt" "jf_state f = Some states" and l: "last_of_file states = (prev, st)"
    and r: "gw_job_recover e f i (s\<lparr>gd_jobs := jp\<rparr>) = Some (s', 0)" and nf: "no_finalize s"
  shows "\<exists>k. get_job s' i = Some k \<and> job_state k = recovered_state prev st (jf_contact f) \<and>
     (\<forall>h. rjobs s' h = rjobs s h + r_claim (recovered_phase st) k h \<and> uslots s' h = uslots s h + u_claim (recovered_phase st) k h) \<and>
     (\<forall>w. urun s' w = urun s w + n_claim (recovered_phase st) k w) \<and>
     dm_am s' = dm_am s @ map (\<lambda>a. (a, ARG_ID i)) (recovered_actions st (jf_contact f)) \<and>
     (\<forall>x. x \<noteq> i \<longrightarrow> get_job s' x = get_job s x)"
proof -
  let ?s = "s\<lparr>gd_jobs := jp\<rparr>"
  let ?tp = "gw_job_template_init jt"
  note new = allocate_by_id_adds [OF a]
  obtain c s1 uid home where cl: "Option.bind (jf_conf f) scan_conf = Some c" "recover_user e c ?s = Some (s1, Some uid)"
    and rs: "recover_states e f i states (cl_time c) (recovered_job ?tp c uid home ((gw_job_init t i)\<lparr>template := ?tp\<rparr>)) s1 = Some (s', 0)"
    by (rule recover_ok [OF r new(2) f])
  note u = recover_user_adds [OF cl(2)]
  let ?j = "recovered_job ?tp c uid home ((gw_job_init t i)\<lparr>template := ?tp\<rparr>)"
  have j: "restarted ?j = 0" "history ?j = []" "user_id ?j = uid"
    by (simp_all add: recovered_job_def gw_job_init_def gw_job_history_init_def Let_def)
  from recover_states_ok [OF rs l j(1,2)] obtain k s2 k2 s3 rc2 where re: "rebuilds ?j k" and gr: "hosts_grow s1 s2"
    and la: "gw_job_recover_last_state_transition (jf_contact f) st i (set_state prev k) s2 = Some (k2, s3, rc2)"
    and s': "s' = user_op (gw_user_pool_inc_jobs (user_id k2) 1) (put i k2 s3)" by metis
  have us: "get_user s2 (user_id k) \<noteq> None"
    using u j(3) re grow_views(3) [OF gr] by (simp add: rebuilds_def)
  have grown: "rjobs s2 h = rjobs s h" "uslots s2 h = uslots s h" "urun s2 w = urun s w" for h w
    using grown_counters [OF gr] only_adds_counters [OF new(1)] only_adds_counters [OF conjunct1 [OF u]] by simp_all
  have am: "dm_am s2 = dm_am s" using gr u new(1) by (simp add: hosts_grow_def only_adds_def)
  then have nf2: "no_finalize s2" using nf by (simp add: no_finalize_def)
  note ef = last_transition_effect [OF la us nf2]
  have g: "get_job s2 x = (if x = i then Some (gw_job_init t i) else get_job s x)" for x
    using new allocate_by_id_get [OF a] grow_views(1) [OF gr] u by (simp add: get_job_def)
  have gp: "get_job (put i k2 s3) x = (if x = i then Some k2 else get_job s x)" for x
    using ef g by (simp add: gw_frame)
  have "takes_back st k s s'"
    using ef grown unfolding s' takes_back_def by (simp add: gw_frame)
  then have "takes_back st k2 s s'" using ef by simp
  moreover have "get_job s' i = Some k2" "\<And>x. x \<noteq> i \<Longrightarrow> get_job s' x = get_job s x" using gp unfolding s' by (simp_all add: gw_frame)
  moreover have "dm_am s' = dm_am s @ map (\<lambda>a. (a, ARG_ID i)) (recovered_actions st (jf_contact f))"
    using ef am unfolding s' by (simp add: gw_frame)
  moreover have "job_state k2 = recovered_state prev st (jf_contact f)" using ef by (simp add: set_state_def)
  ultimately show ?thesis by (auto simp: takes_back_def)
qed

section \<open>A contact that is lost\<close>

lemma user_op_host [simp]: "get_host (user_op f s) h = get_host s h"
  by (simp add: get_host_def)

lemma dm_step_only:
  assumes "dm_am s = []"
  shows "dm_step e (trigger_dm a arg s) = dm_handler e a arg s"
proof -
  have e: "s\<lparr>dm_am := []\<rparr> = s" using assms by (cases s) simp
  have "dm_step e (trigger_dm a arg s) = dm_handler e a arg (s\<lparr>dm_am := []\<rparr>)"
    using assms by (simp add: dm_step_def trigger_dm_def)
  then show ?thesis unfolding e .
qed

lemma put_trigger: "put i k (trigger_dm a x s) = trigger_dm a x (put i k s)"
  by (simp add: trigger_dm_def put_def)

lemma retake_wrapper:
  assumes "history j = h # hs" and "h_host h = Some hid" and "get_host s hid \<noteq> None"
  shows "retake_counters GW_JOB_STATE_WRAPPER j s =
    Some (host_upd (gw_host_inc_slots_nb (np (template j))) hid (user_op (gw_user_pool_inc_running_jobs (user_id j) 1) s))"
  using assms
  by (auto simp: retake_counters_def takes_slots_def moves_host_def hist_top_def host_op_upd Let_def)

text \<open>
  C15: a job that was running and whose contact is lost keeps its slots. The recovery takes a running job and the slots
  of the job on the host; the action it triggers then puts the job back to pending and gives back the running job,
  but not the slots. No pending action is left that could, and the job is scheduled anew.
\<close>

theorem lost_contact_leaks_slots:
  assumes h: "history j = h # hs" "h_host h = Some hid" "get_host s hid \<noteq> None"
    and g: "get_job s i = Some j0" and am: "dm_am s = []" "ctl_of s i = []"
    and lost: "gw_job_recover_get_contact contact = None"
  shows "\<exists>k s1 s2. gw_job_recover_last_state_transition contact GW_JOB_STATE_WRAPPER i j s = Some (k, s1, 0) \<and>
    dm_step e (put i k s1) = Some s2 \<and> ctl_of s2 i = [] \<and> rjobs s2 hid = rjobs s hid \<and>
    uslots s2 hid = uslots s hid + np (template j) \<and>
    (\<exists>l. get_job s2 i = Some l \<and> job_state l = GW_JOB_STATE_PENDING \<and> restarted l = restarted j + 1)"
proof -
  let ?u = "user_op (gw_user_pool_inc_running_jobs (user_id j) 1) s"
  let ?t = "host_upd (gw_host_inc_slots_nb (np (template j))) hid ?u"
  let ?k = "set_state GW_JOB_STATE_PENDING j"
  let ?s1 = "trigger_dm DM_STATE_PENDING (ARG_ID i) ?t"
  have u: "get_host ?u hid \<noteq> None" using h(3) by simp
  have b: "Option.bind contact scan_word = None" using lost by (simp add: gw_job_recover_get_contact_def)
  have t: "dm_am ?t = []" "get_host ?t hid \<noteq> None" "get_job ?t i = Some j0" "ctl_of ?t i = []"
    "rjobs ?t hid = rjobs s hid + 1" "uslots ?t hid = uslots s hid + np (template j)"
    using am g h(3) by (simp_all add: host_upd_none [OF u] host_upd_other [OF u] view_host [OF u] host_counters [OF u] gw_frame)
  have last: "gw_job_recover_last_state_transition contact GW_JOB_STATE_WRAPPER i j s = Some (?k, ?s1, 0)"
    using retake_wrapper [OF h] b
    by (simp add: gw_job_recover_last_state_transition_def idle_again_def gw_job_recover_job_contact_def set_state_def)
  let ?v = "put i ?k ?t"
  have v: "get_host ?v hid \<noteq> None" "get_job ?v i = Some ?k" "ctl_of ?v i = []"
    "rjobs ?v hid = rjobs s hid + 1" "uslots ?v hid = uslots s hid + np (template j)"
    using t by (simp_all add: gw_frame)
  have step: "dm_step e (put i ?k ?s1) = gw_dm_pending e (Some i) ?v"
    unfolding put_trigger using dm_step_only [of ?v e DM_STATE_PENDING "ARG_ID i"] t(1)
    by (simp add: dm_handler_def arg_id_def put_def)
  have "\<exists>s2. gw_dm_pending e (Some i) ?v = Some s2 \<and> ctl_of s2 i = [] \<and> rjobs s2 hid = rjobs s hid \<and>
    uslots s2 hid = uslots s hid + np (template j) \<and>
    (\<exists>l. get_job s2 i = Some l \<and> job_state l = GW_JOB_STATE_PENDING \<and> restarted l = restarted j + 1)"
    using v h(1,2) by (simp add: gw_dm_pending_def run_defs gw_frame host_upd_none report_failed_run)
  then show ?thesis using last step by metis
qed

section \<open>The user of a job\<close>

definition uactive :: "gwd \<Rightarrow> int \<Rightarrow> int option" where
  "uactive s w = map_option user_active_jobs (get_user s w)"

lemma uactive_frame [simp]:
  "uactive (user_op (gw_user_pool_inc_running_jobs i n) s) w = uactive s w"
  "uactive (put i j s) w = uactive s w" "uactive (trigger_dm a arg s) w = uactive s w" "uactive (to_mad m s) w = uactive s w"
  "uactive (send x s) w = uactive s w"
  by (auto simp: uactive_def gw_user_pool_inc_running_jobs_def view_defs user_op_update user_update_get put_def trigger_dm_def
      to_mad_def send_def option.map_comp comp_def)

lemma uactive_inc: "uactive (user_op (gw_user_pool_inc_jobs i n) s) i = map_option (\<lambda>m. m + n) (uactive s i)"
  by (simp add: uactive_def gw_user_pool_inc_jobs_def get_user_def user_op_update user_update_get option.map_comp comp_def)

lemma uactive_host: "host_op f p s = Some s' \<Longrightarrow> uactive s' w = uactive s w"
  by (auto simp: host_op_def bind_eq_Some_conv uactive_def get_user_def send_def)

lemma retake_uactive: "retake_counters st j s = Some s' \<Longrightarrow> uactive s' w = uactive s w"
  by (auto simp: retake_counters_def Let_def bind_eq_Some_conv uactive_host split: if_splits)

lemma last_uactive:
  assumes "gw_job_recover_last_state_transition file st i j s = Some (k, s', rc)"
  shows "uactive s' w = uactive s w" "user_id k = user_id j"
  using assms
  by (auto simp: gw_job_recover_last_state_transition_def gw_job_recover_job_contact_def Let_def bind_eq_Some_conv retake_uactive
      set_state_def split: if_splits option.splits prod.splits)

lemma new_user_active:
  assumes "recover_user e c s = Some (s', Some uid)" and "\<not> fst (gw_user_pool_exists (gd_users s) (cl_user c) (cl_proxy c))"
  shows "uactive s' uid = Some 1"
  using assms
  by (auto simp: recover_user_def bind_eq_Some_conv uactive_def get_user_def gw_user_pool_user_allocate_def Let_def slot_get_def
      split: prod.splits bool.splits if_splits)

text \<open>
  The recovery of the first job of a user counts it twice: the user is registered with one active job, as for
  a submission, and then one more is added. A submission adds one only to a user it has found registered.
\<close>

lemma new_user_counted_twice:
  assumes "get_job s i = Some (gw_job_init t i)" and "jf_template f = Some jt" and "jf_state f = Some states"
    and c: "Option.bind (jf_conf f) scan_conf = Some c"
      "\<not> fst (gw_user_pool_exists (gd_users s) (cl_user c) (cl_proxy c))"
    and r: "gw_job_recover e f i s = Some (s', 0)"
  shows "\<exists>uid u. get_user s' uid = Some u \<and> user_active_jobs u = 2"
proof -
  obtain c' s1 uid home where c': "Option.bind (jf_conf f) scan_conf = Some c'" and u: "recover_user e c' s = Some (s1, Some uid)"
    and rs: "recover_states e f i states (cl_time c')
       (recovered_job (gw_job_template_init jt) c' uid home ((gw_job_init t i)\<lparr>template := gw_job_template_init jt\<rparr>)) s1 = Some (s', 0)"
    by (rule recover_ok [OF r assms(1,2,3)])
  have "c' = c" using c(1) c' by simp
  note u = u [unfolded this] and rs = rs [unfolded this]
  let ?j = "recovered_job (gw_job_template_init jt) c uid home ((gw_job_init t i)\<lparr>template := gw_job_template_init jt\<rparr>)"
  have j: "restarted ?j = 0" "history ?j = []" "user_id ?j = uid"
    by (simp_all add: recovered_job_def gw_job_init_def gw_job_history_init_def Let_def)
  obtain prev st where l: "last_of_file states = (prev, st)" by (cases "last_of_file states")
  from recover_states_ok [OF rs l j(1,2)] obtain k s2 k2 s3 rc2 where re: "rebuilds ?j k" and gr: "hosts_grow s1 s2"
    and la: "gw_job_recover_last_state_transition (jf_contact f) st i (set_state prev k) s2 = Some (k2, s3, rc2)"
    and s': "s' = user_op (gw_user_pool_inc_jobs (user_id k2) 1) (put i k2 s3)" by metis
  have k2: "user_id k2 = uid" using last_uactive(2) [OF la] re j(3) by (simp add: rebuilds_def)
  have "uactive s3 uid = Some 1"
    using last_uactive(1) [OF la] new_user_active [OF u c(2)] grow_views(3) [OF gr] by (simp add: uactive_def)
  then have "uactive s' uid = Some 2" unfolding s' k2 uactive_inc by simp
  then show ?thesis by (auto simp: uactive_def)
qed

section \<open>A recovery\<close>

text \<open>
  The daemon of \<open>DM_Safety\<close> starts again and finds the directory of a job that was staging its files. The host
  is known, the user is not.
\<close>

definition demo_recover :: recover_env where
  "demo_recover = \<lparr>rc_users = env_user demo_env, rc_hist = env_hist demo_env,
     rc_sched = \<lparr>ufixed = [], gfixed = [], ufixed_default = 0, hfixed = [], ifixed = [], rfixed_default = 0\<rparr>,
     home_of = (\<lambda>_. Some ''/home/ann'')\<rparr>"

definition demo_conf :: conf_entry where
  "demo_conf = \<lparr>cl_time = 100, cl_user = ''ann'', cl_proxy = [], cl_home = ''/home/ann'', cl_pstart = 0, cl_pinc = 1\<rparr>"

definition demo_states :: string where
  "demo_states = ''100 PENDING'' @ [NL] @ ''101 PROLOG'' @ [NL]"

definition demo_files :: job_files where
  "demo_files = \<lparr>jf_directory = True, jf_template = Some demo_template,
     jf_conf = Some (''100 ann - /home/ann 0 1'' @ [NL]), jf_state = Some demo_states,
     jf_history = Some (''node 1 q fork pbs pbs em tm im'' @ [NL]), jf_contact = None\<rparr>"

definition demo_jobs :: job_pool where
  "demo_jobs = fst (gw_job_pool_allocate_by_id 9 0 (gd_jobs demo_start))"

definition demo_recovered :: gwd where
  "demo_recovered = fst (the (gw_job_recover demo_recover demo_files 0 (demo_start\<lparr>gd_jobs := demo_jobs\<rparr>)))"

lemma demo_recovery:
  "map_option snd (gw_job_recover demo_recover demo_files 0 (demo_start\<lparr>gd_jobs := demo_jobs\<rparr>)) = Some 0"
  "last_of_file demo_states = (GW_JOB_STATE_PENDING, GW_JOB_STATE_PROLOG)"
  "snd (gw_job_pool_allocate_by_id 9 0 (gd_jobs demo_start)) = 0"
  "Option.bind (jf_conf demo_files) scan_conf = Some demo_conf"
  "fst (gw_user_pool_exists (gd_users demo_start) (cl_user demo_conf) (cl_proxy demo_conf)) = False"
  by code_simp+

lemma demo_named: "named_files demo_template"
  by code_simp

lemma demo_recovered:
  "gw_job_recover demo_recover demo_files 0 (demo_start\<lparr>gd_jobs := demo_jobs\<rparr>) = Some (demo_recovered, 0)"
  "gw_job_pool_allocate_by_id 9 0 (gd_jobs demo_start) = (demo_jobs, 0)"
  using demo_recovery(1,3) by (auto simp: demo_recovered_def demo_jobs_def prod_eq_iff)

text \<open>The job of the example was staging its files: it takes a running job and two slots, and stages them again.\<close>

theorem recovery_takes_back_witness:
  "\<exists>k. get_job demo_recovered 0 = Some k \<and> job_state k = GW_JOB_STATE_PENDING \<and>
     uslots demo_recovered 0 = uslots demo_start 0 + u_claim P_run k 0 \<and>
     dm_am demo_recovered = dm_am demo_start @ [(DM_STATE_PROLOG, ARG_ID 0)]"
proof -
  have n: "no_finalize demo_start" by (simp add: no_finalize_def demo_start_def)
  have p: "recovered_phase GW_JOB_STATE_PROLOG = P_run" "\<not> idle_again GW_JOB_STATE_PROLOG"
    "recovered_actions GW_JOB_STATE_PROLOG None = [DM_STATE_PROLOG]"
    "recovered_state GW_JOB_STATE_PENDING GW_JOB_STATE_PROLOG None = GW_JOB_STATE_PENDING"
    by (simp_all add: recovered_phase_def recovered_actions_def recovered_state_def idle_again_def stays_cancelled_def resume_action_def
        resume_phase_def moves_host_def takes_slots_def)
  have f: "jf_template demo_files = Some demo_template" "jf_state demo_files = Some demo_states" "jf_contact demo_files = None"
    by (simp_all add: demo_files_def)
  show ?thesis
    using recovery_takes_back [OF demo_recovered(2) _ f(1,2) demo_recovery(2) demo_recovered(1) n] p f(3) by auto
qed

definition demo_ran :: gw_job where
  "demo_ran = (gw_job_init 9 0)\<lparr>template := gw_job_template_init demo_template,
     history := [history_record (env_hist demo_env) 0 (gw_host_init ''node'' 0 1 ''em'' ''tm'' ''im'') 1 None None 0 ''tm'' ''em'']\<rparr>"

theorem lost_contact_leaks_slots_witness:
  "\<exists>k s1 s2. gw_job_recover_last_state_transition None GW_JOB_STATE_WRAPPER 0 demo_ran (demo_start\<lparr>gd_jobs := demo_jobs\<rparr>) = Some (k, s1, 0) \<and>
    dm_step demo_env (put 0 k s1) = Some s2 \<and> ctl_of s2 0 = [] \<and> uslots s2 0 = uslots (demo_start\<lparr>gd_jobs := demo_jobs\<rparr>) 0 + 2"
proof -
  let ?s = "demo_start\<lparr>gd_jobs := demo_jobs\<rparr>"
  have g: "get_job ?s 0 = Some (gw_job_init 9 0)"
    by (rule allocate_by_id_adds(2) [OF demo_recovered(2)]) simp
  have h: "history demo_ran = [history_record (env_hist demo_env) 0 (gw_host_init ''node'' 0 1 ''em'' ''tm'' ''im'') 1 None None 0 ''tm'' ''em'']"
    "np (template demo_ran) = 2"
    by (simp_all add: demo_ran_def gw_job_template_init_def demo_template_def)
  have "get_host ?s 0 \<noteq> None" by (simp add: demo_start_def get_host_def gw_host_pool_get_host_def slot_get_def)
  then show ?thesis
    using lost_contact_leaks_slots [OF h(1) _ _ g, where hid = 0 and contact = None and e = demo_env] h(2)
    by (simp add: history_record_def demo_start_def ctl_of_def dm_ctl_def tm_ctl_def em_ctl_def gw_job_recover_get_contact_def) blast
qed

text \<open>The history line of that host, once its information is known.\<close>

definition demo_host :: gw_host where
  "demo_host = (gw_host_init ''node'' 0 1 ''em'' ''tm'' ''im'')
     \<lparr>fork_name := Some ''fork'', lrms_name := Some ''pbs'', lrms_type := Some ''pbs''\<rparr>"

definition demo_known :: gwd where
  "demo_known = demo_recovered\<lparr>gd_hosts := (gd_hosts demo_recovered)\<lparr>hosts := [Some demo_host]\<rparr>\<rparr>"

lemma demo_known_facts:
  "gw_host_pool_search (gd_hosts demo_known) (hostname demo_host) = Some 0"
  "gw_user_pool_get_tm_mad (gd_users demo_known) 0 (host_tm_mad demo_host) = Some ''tm''"
  "gw_user_pool_get_em_mad (gd_users demo_known) 0 (host_em_mad demo_host) = Some ''em''"
  by code_simp+

lemma history_line_example:
  "\<exists>k. gw_job_recover_history_record demo_recover
     ((gw_job_init 9 0)\<lparr>user_id := 0\<rparr>, Some (history_text demo_host 1 (Some ''q'') @ []), demo_known) = Some ((k, Some [NL], demo_known), 0)"
proof -
  have g: "get_host demo_known 0 = Some demo_host"
    by (simp add: demo_known_def get_host_def gw_host_pool_get_host_def slot_get_def)
  have w: "host_words demo_host"
    by (simp add: host_words_def demo_host_def gw_host_init_def fmt_str_def is_word_def is_blank_def)
  have f: "fork_name demo_host = Some ''fork''" "lrms_name demo_host = Some ''pbs''" "lrms_type demo_host = Some ''pbs''"
    by (simp_all add: demo_host_def)
  have q: "is_word ''q''" by (simp add: is_word_def is_blank_def)
  show ?thesis
    using history_line_roundtrip [OF g demo_known_facts(1) w q f, of "(gw_job_init 9 0)\<lparr>user_id := 0\<rparr>" "''tm''" "''em''" demo_recover 1 "[]"]
      demo_known_facts(2,3) by simp
qed

end
