(* ===== verification/HV_Vars.thy ===== *)
theory HV_Vars
  imports GW_Host GW_Text
begin

text \<open>
  The attributes of a host by name: \<open>src/host/gw_host_var.c\<close>. The setters return \<open>None\<close> where the code writes
  outside an array.
\<close>

section \<open>Names\<close>

datatype gw_host_var =
    HOSTNAME | ARCH | OS_NAME | OS_VERSION | CPU_MODEL | CPU_MHZ | CPU_FREE | CPU_SMP | NODECOUNT
  | SIZE_MEM_MB | FREE_MEM_MB | SIZE_DISK_MB | FREE_DISK_MB | FORK_NAME | LRMS_NAME | LRMS_TYPE
  | QUEUE_NAME | QUEUE_NODECOUNT | QUEUE_FREENODECOUNT | QUEUE_MAXTIME | QUEUE_MAXCPUTIME
  | QUEUE_MAXCOUNT | QUEUE_MAXRUNNINGJOBS | QUEUE_MAXJOBSINQUEUE | QUEUE_STATUS
  | QUEUE_DISPATCHTYPE | QUEUE_PRIORITY | GENERIC

definition gw_host_get_varname :: "gw_host_var \<Rightarrow> string" where
  "gw_host_get_varname v =
     (case v of
        HOSTNAME \<Rightarrow> ''HOSTNAME'' | ARCH \<Rightarrow> ''ARCH'' | OS_NAME \<Rightarrow> ''OS_NAME'' | OS_VERSION \<Rightarrow> ''OS_VERSION''
      | CPU_MODEL \<Rightarrow> ''CPU_MODEL'' | CPU_MHZ \<Rightarrow> ''CPU_MHZ'' | CPU_FREE \<Rightarrow> ''CPU_FREE'' | CPU_SMP \<Rightarrow> ''CPU_SMP''
      | NODECOUNT \<Rightarrow> ''NODECOUNT'' | SIZE_MEM_MB \<Rightarrow> ''SIZE_MEM_MB'' | FREE_MEM_MB \<Rightarrow> ''FREE_MEM_MB''
      | SIZE_DISK_MB \<Rightarrow> ''SIZE_DISK_MB'' | FREE_DISK_MB \<Rightarrow> ''FREE_DISK_MB'' | FORK_NAME \<Rightarrow> ''FORK_NAME''
      | LRMS_NAME \<Rightarrow> ''LRMS_NAME'' | LRMS_TYPE \<Rightarrow> ''LRMS_TYPE'' | QUEUE_NAME \<Rightarrow> ''QUEUE_NAME''
      | QUEUE_NODECOUNT \<Rightarrow> ''QUEUE_NODECOUNT'' | QUEUE_FREENODECOUNT \<Rightarrow> ''QUEUE_FREENODECOUNT''
      | QUEUE_MAXTIME \<Rightarrow> ''QUEUE_MAXTIME'' | QUEUE_MAXCPUTIME \<Rightarrow> ''QUEUE_MAXCPUTIME''
      | QUEUE_MAXCOUNT \<Rightarrow> ''QUEUE_MAXCOUNT'' | QUEUE_MAXRUNNINGJOBS \<Rightarrow> ''QUEUE_MAXRUNNINGJOBS''
      | QUEUE_MAXJOBSINQUEUE \<Rightarrow> ''QUEUE_MAXJOBSINQUEUE'' | QUEUE_STATUS \<Rightarrow> ''QUEUE_STATUS''
      | QUEUE_DISPATCHTYPE \<Rightarrow> ''QUEUE_DISPATCHTYPE'' | QUEUE_PRIORITY \<Rightarrow> ''QUEUE_PRIORITY'' | GENERIC \<Rightarrow> ''GENERIC'')"

text \<open>1 for an integer, 0 for a string, -1 for neither.\<close>

definition gw_host_is_var_int :: "gw_host_var \<Rightarrow> int" where
  "gw_host_is_var_int v =
     (if v \<in> {HOSTNAME, ARCH, OS_NAME, OS_VERSION, CPU_MODEL, FORK_NAME, LRMS_NAME, LRMS_TYPE, QUEUE_NAME,
              QUEUE_STATUS, QUEUE_DISPATCHTYPE, QUEUE_PRIORITY} then 0
      else if v = GENERIC then -1 else 1)"

section \<open>Setting\<close>

definition queue_upd :: "int \<Rightarrow> (gw_queue \<Rightarrow> gw_queue) \<Rightarrow> gw_host \<Rightarrow> gw_host option" where
  "queue_upd i f h =
     (if 0 \<le> i \<and> nat i < length (queues h)
      then Some (h\<lparr>queues := (queues h)[nat i := f (queues h ! nat i)]\<rparr>) else None)"

definition gw_host_set_var_int :: "gw_host_var \<Rightarrow> int \<Rightarrow> int \<Rightarrow> gw_host \<Rightarrow> gw_host option" where
  "gw_host_set_var_int v i x h =
     (if i \<ge> int GW_HOST_MAX_QUEUES then Some h
      else case v of
        CPU_MHZ \<Rightarrow> Some (h\<lparr>cpu_mhz := x\<rparr>)
      | CPU_FREE \<Rightarrow> Some (h\<lparr>cpu_free := x\<rparr>)
      | CPU_SMP \<Rightarrow> Some (h\<lparr>cpu_smp := x\<rparr>)
      | NODECOUNT \<Rightarrow> Some (h\<lparr>nodecount := x\<rparr>)
      | SIZE_MEM_MB \<Rightarrow> Some (h\<lparr>size_mem_mb := x\<rparr>)
      | FREE_MEM_MB \<Rightarrow> Some (h\<lparr>free_mem_mb := x\<rparr>)
      | SIZE_DISK_MB \<Rightarrow> Some (h\<lparr>size_disk_mb := x\<rparr>)
      | FREE_DISK_MB \<Rightarrow> Some (h\<lparr>free_disk_mb := x\<rparr>)
      | QUEUE_NODECOUNT \<Rightarrow> queue_upd i (queue_nodecount_update (\<lambda>_. x)) h
      | QUEUE_FREENODECOUNT \<Rightarrow> queue_upd i (queue_freenodecount_update (\<lambda>_. x)) h
      | QUEUE_MAXTIME \<Rightarrow> queue_upd i (queue_maxtime_update (\<lambda>_. x)) h
      | QUEUE_MAXCPUTIME \<Rightarrow> queue_upd i (queue_maxcputime_update (\<lambda>_. x)) h
      | QUEUE_MAXCOUNT \<Rightarrow> queue_upd i (queue_maxcount_update (\<lambda>_. x)) h
      | QUEUE_MAXRUNNINGJOBS \<Rightarrow> queue_upd i (queue_maxrunningjobs_update (\<lambda>_. x)) h
      | QUEUE_MAXJOBSINQUEUE \<Rightarrow> queue_upd i (queue_maxjobsinqueue_update (\<lambda>_. x)) h
      | _ \<Rightarrow> Some h)"

definition gw_host_set_var_str :: "gw_host_var \<Rightarrow> int \<Rightarrow> string option \<Rightarrow> gw_host \<Rightarrow> gw_host option" where
  "gw_host_set_var_str v i x h =
     (if i \<ge> int GW_HOST_MAX_QUEUES then Some h
      else case v of
        ARCH \<Rightarrow> Some (h\<lparr>arch := x\<rparr>)
      | OS_NAME \<Rightarrow> Some (h\<lparr>os_name := x\<rparr>)
      | OS_VERSION \<Rightarrow> Some (h\<lparr>os_version := x\<rparr>)
      | CPU_MODEL \<Rightarrow> Some (h\<lparr>cpu_model := x\<rparr>)
      | FORK_NAME \<Rightarrow> Some (h\<lparr>fork_name := x\<rparr>)
      | LRMS_NAME \<Rightarrow> Some (h\<lparr>lrms_name := x\<rparr>)
      | LRMS_TYPE \<Rightarrow> Some (h\<lparr>lrms_type := x\<rparr>)
      | QUEUE_NAME \<Rightarrow> queue_upd i (queue_name_update (\<lambda>_. x)) h
      | QUEUE_DISPATCHTYPE \<Rightarrow> queue_upd i (queue_dispatchtype_update (\<lambda>_. x)) h
      | QUEUE_PRIORITY \<Rightarrow> queue_upd i (queue_priority_update (\<lambda>_. x)) h
      | QUEUE_STATUS \<Rightarrow> queue_upd i (queue_status_update (\<lambda>_. x)) h
      | _ \<Rightarrow> Some h)"

definition gw_host_set_var_null :: "gw_host_var \<Rightarrow> int \<Rightarrow> gw_host \<Rightarrow> gw_host option" where
  "gw_host_set_var_null v i h =
     (if gw_host_is_var_int v = 1 then gw_host_set_var_int v i 0 h
      else if gw_host_is_var_int v = 0 then gw_host_set_var_str v i None h else Some h)"

section \<open>Generic variables\<close>

definition GW_MSG_STRING_LONG :: nat where
  "GW_MSG_STRING_LONG = 1024"

definition scalar_name :: "string \<Rightarrow> string" where
  "scalar_name var = take (GW_MSG_STRING_LONG - 1) var"

definition array_name :: "string \<Rightarrow> int \<Rightarrow> string" where
  "array_name var i = take (GW_MSG_STRING_LONG - 2) (var @ ''['' @ dec i @ '']'')"

definition genvar_name :: "string \<Rightarrow> int \<Rightarrow> string" where
  "genvar_name var i = (if i = -1 then scalar_name var else array_name var i)"

text \<open>The first entry that is free or has the name; the length of the table when there is none.\<close>

fun search_name :: "string option list \<Rightarrow> string \<Rightarrow> nat" where
  "search_name [] n = 0"
| "search_name (x # xs) n = (if x = None \<or> x = Some n then 0 else Suc (search_name xs n))"

definition gw_host_search_genvar_int :: "string \<Rightarrow> gw_host \<Rightarrow> nat" where
  "gw_host_search_genvar_int n h = search_name (map gi_name (genvar_int h)) n"

definition gw_host_search_genvar_str :: "string \<Rightarrow> gw_host \<Rightarrow> nat" where
  "gw_host_search_genvar_str n h = search_name (map gs_name (genvar_str h)) n"

definition gw_host_set_genvar_int :: "string \<Rightarrow> int \<Rightarrow> int \<Rightarrow> gw_host \<Rightarrow> gw_host option" where
  "gw_host_set_genvar_int var i x h =
     (if i \<ge> int GW_HOST_MAX_QUEUES then Some h
      else let n = genvar_name var i; p = gw_host_search_genvar_int n h in
        if p < length (genvar_int h)
        then Some (h\<lparr>genvar_int := (genvar_int h)[p := \<lparr>gi_name = Some n, gi_value = x\<rparr>]\<rparr>)
        else None)"

definition gw_host_set_genvar_str :: "string \<Rightarrow> int \<Rightarrow> string option \<Rightarrow> gw_host \<Rightarrow> gw_host option" where
  "gw_host_set_genvar_str var i x h =
     (if i \<ge> int GW_HOST_MAX_QUEUES then Some h
      else let n = genvar_name var i; p = gw_host_search_genvar_str n h in
        if p < length (genvar_str h)
        then Some (h\<lparr>genvar_str := (genvar_str h)[p := \<lparr>gs_name = Some n, gs_value = x\<rparr>]\<rparr>)
        else None)"

text \<open>The loop looks at both tables at once and stops at the first entry of either with the name.\<close>

definition gw_host_set_genvar_null :: "string \<Rightarrow> int \<Rightarrow> gw_host \<Rightarrow> gw_host" where
  "gw_host_set_genvar_null var i h =
     (if i \<ge> int GW_HOST_MAX_QUEUES then h
      else let n = genvar_name var i in
        case find (\<lambda>k. gi_name (genvar_int h ! k) = Some n \<or> gs_name (genvar_str h ! k) = Some n)
               [0..<GW_HOST_MAX_GENVARS] of
          None \<Rightarrow> h
        | Some k \<Rightarrow>
            (if gi_name (genvar_int h ! k) = Some n
             then h\<lparr>genvar_int := (genvar_int h)[k := (genvar_int h ! k)\<lparr>gi_value := 0\<rparr>]\<rparr>
             else h\<lparr>genvar_str := (genvar_str h)[k := (genvar_str h ! k)\<lparr>gs_value := None\<rparr>]\<rparr>))"

section \<open>Getting\<close>

definition queue_get :: "int \<Rightarrow> (gw_queue \<Rightarrow> 'a) \<Rightarrow> gw_host \<Rightarrow> 'a option" where
  "queue_get i f h = (if 0 \<le> i \<and> nat i < length (queues h) then Some (f (queues h ! nat i)) else None)"

definition gw_host_get_var_int :: "gw_host_var \<Rightarrow> int \<Rightarrow> gw_host \<Rightarrow> int option" where
  "gw_host_get_var_int v i h =
     (if i \<ge> int GW_HOST_MAX_QUEUES then Some 0
      else case v of
        CPU_MHZ \<Rightarrow> Some (cpu_mhz h)
      | CPU_FREE \<Rightarrow> Some (cpu_free h)
      | CPU_SMP \<Rightarrow> Some (cpu_smp h)
      | NODECOUNT \<Rightarrow> Some (nodecount h)
      | SIZE_MEM_MB \<Rightarrow> Some (size_mem_mb h)
      | FREE_MEM_MB \<Rightarrow> Some (free_mem_mb h)
      | SIZE_DISK_MB \<Rightarrow> Some (size_disk_mb h)
      | FREE_DISK_MB \<Rightarrow> Some (free_disk_mb h)
      | QUEUE_NODECOUNT \<Rightarrow> queue_get i queue_nodecount h
      | QUEUE_FREENODECOUNT \<Rightarrow> queue_get i queue_freenodecount h
      | QUEUE_MAXTIME \<Rightarrow> queue_get i queue_maxtime h
      | QUEUE_MAXCPUTIME \<Rightarrow> queue_get i queue_maxcputime h
      | QUEUE_MAXCOUNT \<Rightarrow> queue_get i queue_maxcount h
      | QUEUE_MAXRUNNINGJOBS \<Rightarrow> queue_get i queue_maxrunningjobs h
      | QUEUE_MAXJOBSINQUEUE \<Rightarrow> queue_get i queue_maxjobsinqueue h
      | _ \<Rightarrow> Some 0)"

definition gw_host_get_var_str :: "gw_host_var \<Rightarrow> int \<Rightarrow> gw_host \<Rightarrow> string option option" where
  "gw_host_get_var_str v i h =
     (if i \<ge> int GW_HOST_MAX_QUEUES then Some None
      else case v of
        HOSTNAME \<Rightarrow> Some (Some (hostname h))
      | ARCH \<Rightarrow> Some (arch h)
      | OS_NAME \<Rightarrow> Some (os_name h)
      | OS_VERSION \<Rightarrow> Some (os_version h)
      | CPU_MODEL \<Rightarrow> Some (cpu_model h)
      | FORK_NAME \<Rightarrow> Some (fork_name h)
      | LRMS_NAME \<Rightarrow> Some (lrms_name h)
      | LRMS_TYPE \<Rightarrow> Some (lrms_type h)
      | QUEUE_NAME \<Rightarrow> queue_get i queue_name h
      | QUEUE_DISPATCHTYPE \<Rightarrow> queue_get i queue_dispatchtype h
      | QUEUE_PRIORITY \<Rightarrow> queue_get i queue_priority h
      | QUEUE_STATUS \<Rightarrow> queue_get i queue_status h
      | _ \<Rightarrow> Some None)"

text \<open>A generic variable is looked for as a scalar first, and then as the element of an array.\<close>

definition found_int :: "gw_host \<Rightarrow> string \<Rightarrow> int option" where
  "found_int h n =
     (let p = gw_host_search_genvar_int n h in
      if p < length (genvar_int h) \<and> gi_name (genvar_int h ! p) \<noteq> None then Some (gi_value (genvar_int h ! p)) else None)"

definition found_str :: "gw_host \<Rightarrow> string \<Rightarrow> string option option" where
  "found_str h n =
     (let p = gw_host_search_genvar_str n h in
      if p < length (genvar_str h) \<and> gs_name (genvar_str h ! p) \<noteq> None then Some (gs_value (genvar_str h ! p)) else None)"

definition gw_host_get_genvar_int :: "string \<Rightarrow> int \<Rightarrow> gw_host \<Rightarrow> int" where
  "gw_host_get_genvar_int var i h =
     (if i \<ge> int GW_HOST_MAX_QUEUES then 0
      else case found_int h (scalar_name var) of
        Some x \<Rightarrow> x
      | None \<Rightarrow> (case found_int h (array_name var i) of Some x \<Rightarrow> x | None \<Rightarrow> 0))"

definition gw_host_get_genvar_str :: "string \<Rightarrow> int \<Rightarrow> gw_host \<Rightarrow> string option" where
  "gw_host_get_genvar_str var i h =
     (if i \<ge> int GW_HOST_MAX_QUEUES then None
      else case found_str h (scalar_name var) of
        Some x \<Rightarrow> x
      | None \<Rightarrow> (case found_str h (array_name var i) of Some x \<Rightarrow> x | None \<Rightarrow> None))"

end
