(* ===== verification/HV_Parse.thy ===== *)
theory HV_Parse
  imports HV_Vars GW_Int "HOL-Library.Signed_Division"
begin

text \<open>
  The expressions over the attributes of a host: the scanner \<open>src/host/gw_host_attr_parser.l\<close> and the
  grammars of the updates of an information driver, of requirements and of ranks
  (\<open>gw_host_update_syntax.y\<close>, \<open>gw_host_reqs_syntax.y\<close>, \<open>gw_host_rank_syntax.y\<close>), with the functions of the scanner file
  that run them. The parsers that bison generates evaluate while they read; they are written here as
  recursive functions over the tokens that make the same reductions in the same order under the declared
  precedences. An action that is undefined (a null string that is compared, a division by zero) makes the
  parser undefined, even when a syntax error follows; so does a result of an operation that does not fit an \<open>int\<close>. The limit of the stack of a generated parser is not modelled.
\<close>

section \<open>The scanner\<close>

datatype host_token =
    T_VAR gw_host_var | T_GEN string | T_INT int | T_STR "string option" | T_CHAR char

definition is_alpha :: "char \<Rightarrow> bool" where
  "is_alpha c \<longleftrightarrow> (65 \<le> (of_char c :: nat) \<and> (of_char c :: nat) \<le> 90) \<or>
     (97 \<le> (of_char c :: nat) \<and> (of_char c :: nat) \<le> 122)"

definition is_ident :: "char \<Rightarrow> bool" where
  "is_ident c \<longleftrightarrow> is_alpha c \<or> is_digit c \<or> c = CHR ''_''"

definition host_vars :: "gw_host_var list" where
  "host_vars = [HOSTNAME, ARCH, OS_NAME, OS_VERSION, CPU_MODEL, CPU_MHZ, CPU_FREE, CPU_SMP, NODECOUNT,
     SIZE_MEM_MB, FREE_MEM_MB, SIZE_DISK_MB, FREE_DISK_MB, FORK_NAME, LRMS_NAME, LRMS_TYPE, QUEUE_NAME,
     QUEUE_NODECOUNT, QUEUE_FREENODECOUNT, QUEUE_MAXTIME, QUEUE_MAXCPUTIME, QUEUE_MAXCOUNT,
     QUEUE_MAXRUNNINGJOBS, QUEUE_MAXJOBSINQUEUE, QUEUE_STATUS, QUEUE_DISPATCHTYPE, QUEUE_PRIORITY]"

definition ident_token :: "string \<Rightarrow> host_token" where
  "ident_token w =
     (case find (\<lambda>v. gw_host_get_varname v = w) host_vars of Some v \<Rightarrow> T_VAR v | None \<Rightarrow> T_GEN w)"

definition host_punctuation :: string where
  "host_punctuation = ''!&|=><();[]*+/^-''"

text \<open>One rule of the scanner: the longest match; what no rule wants is skipped.\<close>

definition lex_one :: "string \<Rightarrow> host_token option \<times> string" where
  "lex_one s =
     (case s of
        [] \<Rightarrow> (None, [])
      | c # cs \<Rightarrow>
          if is_alpha c then (Some (ident_token (takeWhile is_ident s)), dropWhile is_ident cs)
          else if is_digit c then (Some (T_INT (int_literal (atoi (takeWhile is_digit s)))), dropWhile is_digit cs)
          else if c = CHR ''-'' \<and> cs \<noteq> [] \<and> is_digit (hd cs)
          then (Some (T_INT (int_literal (- atoi (takeWhile is_digit cs)))), dropWhile is_digit cs)
          else if c = CHR 0x22 \<and> CHR 0x22 \<in> set cs
          then (let w = takeWhile (\<lambda>c. c \<noteq> CHR 0x22) cs in
                (Some (T_STR (if w = [] then None else Some w)), tl (dropWhile (\<lambda>c. c \<noteq> CHR 0x22) cs)))
          else if c \<in> set host_punctuation then (Some (T_CHAR c), cs)
          else (None, cs))"

lemma lex_one_shorter: "s \<noteq> [] \<Longrightarrow> length (snd (lex_one s)) < length s"
proof -
  assume "s \<noteq> []"
  then obtain c cs where s: "s = c # cs" by (cases s) auto
  have d: "length (dropWhile P cs) \<le> length cs" for P by (rule length_dropWhile_le)
  have "length (tl (dropWhile P cs)) \<le> length cs" for P using d [of P] by simp
  then show ?thesis using d unfolding s lex_one_def by (auto simp: Let_def le_imp_less_Suc)
qed

function host_attr_lex :: "string \<Rightarrow> host_token list" where
  "host_attr_lex s =
     (if s = [] then []
      else case lex_one s of
        (None, r) \<Rightarrow> host_attr_lex r
      | (Some t, r) \<Rightarrow> t # host_attr_lex r)"
  by pat_completeness auto

termination
proof (relation "measure length", goal_cases)
  case (2 s x r)
  then show ?case using lex_one_shorter [of s] by (metis in_measure snd_conv)
next
  case (3 s x r t)
  then show ?case using lex_one_shorter [of s] by (metis in_measure snd_conv)
qed simp

declare host_attr_lex.simps [simp del]

section \<open>Updates\<close>

text \<open>The left hand side of an assignment, and where its value begins.\<close>

definition asig_target :: "host_token list \<Rightarrow> ((host_token \<times> int) \<times> host_token list) option" where
  "asig_target ts =
     (case ts of
        x # T_CHAR c # ts' \<Rightarrow>
          if (case x of T_VAR _ \<Rightarrow> True | T_GEN _ \<Rightarrow> True | _ \<Rightarrow> False)
          then if c = CHR ''='' then Some ((x, -1), ts')
               else if c = CHR ''['' then
                 (case ts' of
                    T_INT i # T_CHAR d # T_CHAR e # ts'' \<Rightarrow>
                      if d = CHR '']'' \<and> e = CHR ''='' then Some ((x, i), ts'') else None
                  | _ \<Rightarrow> None)
               else None
          else None
      | _ \<Rightarrow> None)"

definition asig_int :: "host_token \<times> int \<Rightarrow> int \<Rightarrow> gw_host \<Rightarrow> gw_host option" where
  "asig_int l x h =
     (case l of (T_VAR v, i) \<Rightarrow> gw_host_set_var_int v i x h | (T_GEN n, i) \<Rightarrow> gw_host_set_genvar_int n i x h | _ \<Rightarrow> None)"

definition asig_str :: "host_token \<times> int \<Rightarrow> string option \<Rightarrow> gw_host \<Rightarrow> gw_host option" where
  "asig_str l x h =
     (case l of (T_VAR v, i) \<Rightarrow> gw_host_set_var_str v i x h | (T_GEN n, i) \<Rightarrow> gw_host_set_genvar_str n i x h | _ \<Rightarrow> None)"

definition asig_null :: "host_token \<times> int \<Rightarrow> gw_host \<Rightarrow> gw_host option" where
  "asig_null l h =
     (case l of (T_VAR v, i) \<Rightarrow> gw_host_set_var_null v i h | (T_GEN n, i) \<Rightarrow> Some (gw_host_set_genvar_null n i h) | _ \<Rightarrow> None)"

definition asig_value :: "host_token \<times> int \<Rightarrow> host_token list \<Rightarrow> gw_host \<Rightarrow> gw_host option \<times> host_token list" where
  "asig_value l ts h =
     (case ts of
        T_INT x # ts' \<Rightarrow> (asig_int l x h, ts')
      | T_STR x # ts' \<Rightarrow> (asig_str l x h, ts')
      | _ \<Rightarrow> (asig_null l h, ts))"

lemma asig_target_shorter: "asig_target ts = Some (l, ts') \<Longrightarrow> length ts' < length ts"
  by (auto simp: asig_target_def split: list.splits host_token.splits if_splits)

lemma asig_value_shorter: "length (snd (asig_value l ts h)) \<le> length ts"
  by (auto simp: asig_value_def split: list.splits host_token.splits)

text \<open>The assignments up to a syntax error; they take effect one by one.\<close>

function host_update_parse :: "host_token list \<Rightarrow> gw_host \<Rightarrow> (gw_host \<times> bool) option" where
  "host_update_parse ts h =
     (if ts = [] then Some (h, True)
      else case asig_target ts of
        None \<Rightarrow> Some (h, False)
      | Some (l, ts') \<Rightarrow>
          (case asig_value l ts' h of
             (None, _) \<Rightarrow> None
           | (Some h', ts'') \<Rightarrow> host_update_parse ts'' h'))"
  by pat_completeness auto

termination
proof (relation "measure (\<lambda>(ts, h). length ts)", goal_cases)
  case (2 ts h x l ts' y ts'' h')
  then have "length ts'' \<le> length ts'" using asig_value_shorter [of l ts' h] by (metis snd_conv)
  then show ?case using asig_target_shorter [of ts l ts'] 2 by simp
qed simp

declare host_update_parse.simps [simp del]

text \<open>The result of \<open>gw_host_update_attr\<close> is 0 or -1.\<close>

definition gw_host_update_attr :: "string \<Rightarrow> gw_host \<Rightarrow> (gw_host \<times> int) option" where
  "gw_host_update_attr attr h =
     map_option (\<lambda>(h', ok). (h', if ok then 0 else -1)) (host_update_parse (host_attr_lex attr) h)"

definition GW_HOST_CPU_FREE_LIMIT :: int where
  "GW_HOST_CPU_FREE_LIMIT = 50"

definition fork_nodes :: "int \<Rightarrow> int" where
  "fork_nodes free = free sdiv 100 + (if free smod 100 > GW_HOST_CPU_FREE_LIMIT then 1 else 0)"

definition gw_host_update :: "string \<Rightarrow> gw_host \<Rightarrow> (gw_host \<times> sched_msg list) option" where
  "gw_host_update attrs h = do {
     (h, rc) \<leftarrow> gw_host_update_attr attrs h;
     (if rc \<noteq> 0 then Some (h\<lparr>host_state := GW_HOST_STATE_UNKNOWN\<rparr>, [])
      else do {
        h \<leftarrow> (if lrms_type h = Some ''fork''
              then queue_upd 0 (queue_freenodecount_update (\<lambda>_. fork_nodes (cpu_free h))) h else Some h);
        let h = h\<lparr>host_state := GW_HOST_STATE_MONITORED\<rparr>;
        Some (h, [host_monitor_msg h]) }) }"

section \<open>Patterns\<close>

text \<open>
  \<open>fnmatch\<close> of the C library without flags, in the C locale: \<open>*\<close>, \<open>?\<close>, a quoted character and bracket expressions
  with ranges. Character classes and collating symbols inside brackets are not modelled.
\<close>

text \<open>The items of a bracket expression: whether it has the character, and what follows it.\<close>

fun bracket_items :: "bool \<Rightarrow> char \<Rightarrow> string \<Rightarrow> bool \<Rightarrow> (bool \<times> string) option" where
  "bracket_items first c [] found = None"
| "bracket_items first c (p # ps) found =
     (if p = CHR '']'' \<and> \<not> first then Some (found, ps)
      else if p = CHR 0x5C then
        (case ps of [] \<Rightarrow> None | q # qs \<Rightarrow> bracket_items False c qs (found \<or> c = q))
      else case ps of
        d # e # qs \<Rightarrow>
          (if d = CHR ''-'' \<and> e \<noteq> CHR '']''
           then bracket_items False c qs (found \<or> (of_char p :: nat) \<le> of_char c \<and> (of_char c :: nat) \<le> of_char e)
           else bracket_items False c ps (found \<or> c = p))
      | _ \<Rightarrow> bracket_items False c ps (found \<or> c = p))"

definition bracket :: "char \<Rightarrow> string \<Rightarrow> (bool \<times> string) option" where
  "bracket c ps =
     (case ps of
        [] \<Rightarrow> None
      | p # qs \<Rightarrow>
          (if p = CHR ''!'' \<or> p = CHR ''^''
           then map_option (\<lambda>(f, r). (\<not> f, r)) (bracket_items True c qs False)
           else bracket_items True c ps False))"

function fnmatch :: "string \<Rightarrow> string \<Rightarrow> bool" where
  "fnmatch [] s = (s = [])"
| "fnmatch (p # ps) s =
     (if p = CHR ''*'' then fnmatch ps s \<or> (case s of [] \<Rightarrow> False | c # cs \<Rightarrow> fnmatch (p # ps) cs)
      else case s of
        [] \<Rightarrow> False
      | c # cs \<Rightarrow>
          (if p = CHR ''?'' then fnmatch ps cs
           else if p = CHR 0x5C then (case ps of [] \<Rightarrow> False | q # qs \<Rightarrow> c = q \<and> fnmatch qs cs)
           else if p = CHR ''['' then
             (case bracket c ps of
                None \<Rightarrow> c = p \<and> fnmatch ps cs
              | Some (ok, qs) \<Rightarrow> ok \<and> fnmatch qs cs)
           else c = p \<and> fnmatch ps cs))"
  by pat_completeness auto

termination
  by (relation "measures [\<lambda>(ps, s). length s, \<lambda>(ps, s). length ps]") auto

declare fnmatch.simps(2) [simp del]

section \<open>Requirements\<close>

text \<open>A comparison with the value of the attribute; a null string in the requirement is followed.\<close>

definition match_str :: "string option \<Rightarrow> string option \<Rightarrow> bool option" where
  "match_str pat v =
     (case v of None \<Rightarrow> Some False | Some s \<Rightarrow> map_option (\<lambda>p. fnmatch p s) pat)"

definition differ_str :: "string option \<Rightarrow> string option \<Rightarrow> bool option" where
  "differ_str pat v =
     (case v of None \<Rightarrow> Some False | Some s \<Rightarrow> map_option (\<lambda>p. \<not> fnmatch p s) pat)"

definition match_gen :: "string option \<Rightarrow> string option \<Rightarrow> bool option" where
  "match_gen pat v =
     (case pat of
        None \<Rightarrow> None
      | Some p \<Rightarrow> Some (case v of Some s \<Rightarrow> fnmatch p s | None \<Rightarrow> p = []))"

definition differ_gen :: "string option \<Rightarrow> string option \<Rightarrow> bool option" where
  "differ_gen pat v =
     (case v of
        None \<Rightarrow> Some False
      | Some s \<Rightarrow> map_option (\<lambda>p. \<not> fnmatch p s \<or> p = []) pat)"

datatype host_cmp = C_EQ | C_NE | C_GT | C_LT

definition cmp_int :: "host_cmp \<Rightarrow> int \<Rightarrow> int \<Rightarrow> bool" where
  "cmp_int c x y = (case c of C_EQ \<Rightarrow> x = y | C_NE \<Rightarrow> x \<noteq> y | C_GT \<Rightarrow> x > y | C_LT \<Rightarrow> x < y)"

text \<open>The operator of a comparison.\<close>

definition cmp_token :: "host_token list \<Rightarrow> (host_cmp \<times> host_token list) option" where
  "cmp_token ts =
     (case ts of
        T_CHAR c # ts' \<Rightarrow>
          if c = CHR ''='' then Some (C_EQ, ts')
          else if c = CHR ''>'' then Some (C_GT, ts')
          else if c = CHR ''<'' then Some (C_LT, ts')
          else if c = CHR ''!'' then
            (case ts' of T_CHAR d # ts'' \<Rightarrow> if d = CHR ''='' then Some (C_NE, ts'') else None | _ \<Rightarrow> None)
          else None
      | _ \<Rightarrow> None)"

text \<open>
  The value of a comparison of the attribute \<open>x\<close>, and the tokens after it. \<open>Some None\<close> is a syntax error.
\<close>

definition comparison ::
  "gw_host \<Rightarrow> int \<Rightarrow> host_token \<Rightarrow> host_token list \<Rightarrow> (bool \<times> host_token list) option option" where
  "comparison h q x ts =
     (case cmp_token ts of
        None \<Rightarrow> Some None
      | Some (c, ts') \<Rightarrow>
          (case (x, ts') of
             (T_VAR v, T_INT y # r) \<Rightarrow> map_option (\<lambda>z. Some (cmp_int c z y, r)) (gw_host_get_var_int v q h)
           | (T_GEN n, T_INT y # r) \<Rightarrow> Some (Some (cmp_int c (gw_host_get_genvar_int n q h) y, r))
           | (T_VAR v, T_STR p # r) \<Rightarrow>
               (if c = C_EQ then map_option (\<lambda>b. Some (b, r)) (Option.bind (gw_host_get_var_str v q h) (match_str p))
                else if c = C_NE then map_option (\<lambda>b. Some (b, r)) (Option.bind (gw_host_get_var_str v q h) (differ_str p))
                else Some None)
           | (T_GEN n, T_STR p # r) \<Rightarrow>
               (if c = C_EQ then map_option (\<lambda>b. Some (b, r)) (match_gen p (gw_host_get_genvar_str n q h))
                else if c = C_NE then map_option (\<lambda>b. Some (b, r)) (differ_gen p (gw_host_get_genvar_str n q h))
                else Some None)
           | _ \<Rightarrow> Some None))"

lemma comparison_shorter: "comparison h q x ts = Some (Some (b, r)) \<Longrightarrow> length r < length ts"
  by (auto simp: comparison_def cmp_token_def split: list.splits host_token.splits if_splits option.splits)

text \<open>
  The parser: what is open to the left of the place that is read (a negation, a parenthesis, or a left operand), and
  the tokens. The operators have one precedence and associate to the left, so a value closes all that is open up to
  the next parenthesis.
\<close>

datatype req_frame = F_NOT | F_PAREN | F_AND bool | F_OR bool

fun req_reduce :: "bool \<Rightarrow> req_frame list \<Rightarrow> bool \<times> req_frame list" where
  "req_reduce v (F_NOT # fs) = req_reduce (\<not> v) fs"
| "req_reduce v (F_AND l # fs) = req_reduce (l \<and> v) fs"
| "req_reduce v (F_OR l # fs) = req_reduce (l \<or> v) fs"
| "req_reduce v fs = (v, fs)"

function req_operand :: "gw_host \<Rightarrow> int \<Rightarrow> req_frame list \<Rightarrow> host_token list \<Rightarrow> bool option option"
  and req_operator :: "gw_host \<Rightarrow> int \<Rightarrow> bool \<times> req_frame list \<Rightarrow> host_token list \<Rightarrow> bool option option" where
  "req_operand h q fs ts =
     (case ts of
        [] \<Rightarrow> Some None
      | t # ts' \<Rightarrow>
          if t = T_CHAR (CHR ''!'') then req_operand h q (F_NOT # fs) ts'
          else if t = T_CHAR (CHR ''('') then req_operand h q (F_PAREN # fs) ts'
          else case comparison h q t ts' of
            None \<Rightarrow> None
          | Some None \<Rightarrow> Some None
          | Some (Some (v, r)) \<Rightarrow> req_operator h q (req_reduce v fs) r)"
| "req_operator h q st ts =
     (case ts of
        [] \<Rightarrow> Some (if snd st = [] then Some (fst st) else None)
      | t # ts' \<Rightarrow>
          if t = T_CHAR (CHR ''&'') then req_operand h q (F_AND (fst st) # snd st) ts'
          else if t = T_CHAR (CHR ''|'') then req_operand h q (F_OR (fst st) # snd st) ts'
          else if t = T_CHAR (CHR '')'') then
            (case snd st of F_PAREN # fs \<Rightarrow> req_operator h q (req_reduce (fst st) fs) ts' | _ \<Rightarrow> Some None)
          else Some (if t = T_CHAR (CHR '';'') \<and> ts' = [] \<and> snd st = [] then Some (fst st) else None))"
  by pat_completeness auto

termination
  by (relation "measure (\<lambda>x. case x of Inl (h, q, fs, ts) \<Rightarrow> length ts | Inr (h, q, st, ts) \<Rightarrow> length ts)")
    (auto dest: comparison_shorter)

declare req_operand.simps [simp del] req_operator.simps [simp del]

text \<open>\<open>Some None\<close> is a syntax error.\<close>

definition host_reqs_parse :: "gw_host \<Rightarrow> int \<Rightarrow> host_token list \<Rightarrow> bool option option" where
  "host_reqs_parse h q ts =
     (if ts = [] \<or> ts = [T_CHAR (CHR '';'')] then Some (Some True) else req_operand h q [] ts)"

definition gw_host_check_reqs :: "gw_host option \<Rightarrow> int \<Rightarrow> string option \<Rightarrow> bool option" where
  "gw_host_check_reqs host q reqs =
     (case host of
        None \<Rightarrow> Some False
      | Some h \<Rightarrow>
          (case reqs of
             None \<Rightarrow> Some True
           | Some s \<Rightarrow> map_option (\<lambda>r. case r of None \<Rightarrow> False | Some b \<Rightarrow> b) (host_reqs_parse h q (host_attr_lex s))))"

section \<open>Ranks\<close>

datatype rank_op = O_ADD | O_SUB | O_MUL | O_DIV

definition rank_op_token :: "host_token \<Rightarrow> rank_op option" where
  "rank_op_token t =
     (if t = T_CHAR (CHR ''+'') then Some O_ADD else if t = T_CHAR (CHR ''-'') then Some O_SUB
      else if t = T_CHAR (CHR ''*'') then Some O_MUL else if t = T_CHAR (CHR ''/'') then Some O_DIV else None)"

definition binds :: "rank_op \<Rightarrow> bool" where
  "binds p = (p = O_MUL \<or> p = O_DIV)"

definition rank_result :: "rank_op \<Rightarrow> int \<Rightarrow> int \<Rightarrow> int" where
  "rank_result p x y = (case p of O_ADD \<Rightarrow> x + y | O_SUB \<Rightarrow> x - y | O_MUL \<Rightarrow> x * y | O_DIV \<Rightarrow> x sdiv y)"

text \<open>The operations of \<open>int\<close>: dividing by zero and leaving the range are undefined.\<close>

definition rank_apply :: "rank_op \<Rightarrow> int \<Rightarrow> int \<Rightarrow> int option" where
  "rank_apply p x y = (if p = O_DIV \<and> y = 0 then None else checked (rank_result p x y))"

datatype rank_frame = G_NEG | G_PAREN | G_BIN rank_op int

text \<open>
  A value closes the products on its left at once; everything up to the next parenthesis, sums and signs too, when no
  product follows. A sign has the precedence of a sum.
\<close>

fun rank_products :: "int \<Rightarrow> rank_frame list \<Rightarrow> (int \<times> rank_frame list) option" where
  "rank_products v (G_BIN p x # fs) =
     (if binds p then do { v \<leftarrow> rank_apply p x v; rank_products v fs } else Some (v, G_BIN p x # fs))"
| "rank_products v fs = Some (v, fs)"

fun rank_reduce :: "int \<Rightarrow> rank_frame list \<Rightarrow> (int \<times> rank_frame list) option" where
  "rank_reduce v (G_BIN p x # fs) = do { v \<leftarrow> rank_apply p x v; rank_reduce v fs }"
| "rank_reduce v (G_NEG # fs) = do { v \<leftarrow> checked (- v); rank_reduce v fs }"
| "rank_reduce v fs = Some (v, fs)"

definition rank_value :: "gw_host \<Rightarrow> int \<Rightarrow> host_token \<Rightarrow> int option option" where
  "rank_value h q t =
     (case t of
        T_INT i \<Rightarrow> Some (Some i)
      | T_VAR v \<Rightarrow> map_option Some (gw_host_get_var_int v q h)
      | T_GEN n \<Rightarrow> Some (Some (gw_host_get_genvar_int n q h))
      | _ \<Rightarrow> Some None)"

function rank_operand :: "gw_host \<Rightarrow> int \<Rightarrow> rank_frame list \<Rightarrow> host_token list \<Rightarrow> int option option"
  and rank_operator :: "gw_host \<Rightarrow> int \<Rightarrow> int \<Rightarrow> rank_frame list \<Rightarrow> host_token list \<Rightarrow> int option option" where
  "rank_operand h q fs ts =
     (case ts of
        [] \<Rightarrow> Some None
      | t # ts' \<Rightarrow>
          if t = T_CHAR (CHR ''-'') then rank_operand h q (G_NEG # fs) ts'
          else if t = T_CHAR (CHR ''('') then rank_operand h q (G_PAREN # fs) ts'
          else case rank_value h q t of
            None \<Rightarrow> None
          | Some None \<Rightarrow> Some None
          | Some (Some v) \<Rightarrow> rank_operator h q v fs ts')"
| "rank_operator h q v fs ts = do {
     (v, fs) \<leftarrow> rank_products v fs;
     (case ts of
        t # ts' \<Rightarrow>
          (case rank_op_token t of
             Some p \<Rightarrow> do {
               (v, fs) \<leftarrow> (if binds p then Some (v, fs) else rank_reduce v fs);
               rank_operand h q (G_BIN p v # fs) ts' }
           | None \<Rightarrow> do {
               (v, fs) \<leftarrow> rank_reduce v fs;
               (if t = T_CHAR (CHR '')'') then
                  (case fs of G_PAREN # fs' \<Rightarrow> rank_operator h q v fs' ts' | _ \<Rightarrow> Some None)
                else Some (if t = T_CHAR (CHR '';'') \<and> ts' = [] \<and> fs = [] then Some v else None)) })
      | [] \<Rightarrow> do {
          (v, fs) \<leftarrow> rank_reduce v fs;
          Some (if fs = [] then Some v else None) }) }"
  by pat_completeness auto

termination
  by (relation "measure (\<lambda>x. case x of Inl (h, q, fs, ts) \<Rightarrow> length ts | Inr (h, q, v, fs, ts) \<Rightarrow> length ts)") auto

declare rank_operand.simps [simp del] rank_operator.simps [simp del]

definition host_rank_parse :: "gw_host \<Rightarrow> int \<Rightarrow> host_token list \<Rightarrow> int option option" where
  "host_rank_parse h q ts =
     (if ts = [] \<or> ts = [T_CHAR (CHR '';'')] then Some (Some (host_fixed_priority h)) else rank_operand h q [] ts)"

definition gw_host_compute_rank :: "gw_host option \<Rightarrow> int \<Rightarrow> string option \<Rightarrow> int option" where
  "gw_host_compute_rank host q rank =
     (case (host, rank) of
        (Some h, Some s) \<Rightarrow> map_option (\<lambda>r. case r of None \<Rightarrow> 0 | Some v \<Rightarrow> v) (host_rank_parse h q (host_attr_lex s))
      | _ \<Rightarrow> Some 0)"

text \<open>The check that a client makes before it submits a template.\<close>

definition gw_host_client_check_syntax :: "gw_host option \<Rightarrow> string option \<Rightarrow> string option \<Rightarrow> int option" where
  "gw_host_client_check_syntax host reqs rank =
     (case (host, reqs, rank) of
        (Some h, Some r, Some k) \<Rightarrow> do {
          x \<leftarrow> host_reqs_parse h 0 (host_attr_lex r);
          (if x = None then Some (-1)
           else do { y \<leftarrow> host_rank_parse h 0 (host_attr_lex k); Some (if y = None then -1 else 0) }) }
      | _ \<Rightarrow> Some (-2))"

end
