(* ===== verification/HV_Text.thy ===== *)
theory HV_Text
  imports HV_Parse
begin

text \<open>
  What the scanner and the three parsers do with the text of an expression. Tokens that are printed with blanks between them are
  read back; a parenthesised requirement or rank is evaluated as the expression it is, and a list of
  assignments has the effect of the assignments one after the other.
\<close>

section \<open>Printing tokens\<close>

fun tok_text :: "host_token \<Rightarrow> string" where
  "tok_text (T_VAR v) = gw_host_get_varname v"
| "tok_text (T_GEN n) = n"
| "tok_text (T_INT i) = dec i"
| "tok_text (T_STR w) = CHR 0x22 # (case w of None \<Rightarrow> [] | Some w \<Rightarrow> w) @ [CHR 0x22]"
| "tok_text (T_CHAR c) = [c]"

definition is_name :: "string \<Rightarrow> bool" where
  "is_name n \<longleftrightarrow> n \<noteq> [] \<and> is_alpha (hd n) \<and> (\<forall>c\<in>set n. is_ident c)"

definition tok_ok :: "host_token \<Rightarrow> bool" where
  "tok_ok t =
     (case t of
        T_VAR v \<Rightarrow> v \<noteq> GENERIC
      | T_GEN n \<Rightarrow> is_name n \<and> n \<notin> gw_host_get_varname ` set host_vars
      | T_INT i \<Rightarrow> in_int i
      | T_STR w \<Rightarrow> (case w of None \<Rightarrow> True | Some w \<Rightarrow> w \<noteq> [] \<and> CHR 0x22 \<notin> set w)
      | T_CHAR c \<Rightarrow> c \<in> set host_punctuation)"

definition toks_text :: "host_token list \<Rightarrow> string" where
  "toks_text ts = concat (map (\<lambda>t. tok_text t @ '' '') ts)"

section \<open>The scanner reads them back\<close>

lemma blank_facts: "\<not> is_ident (CHR '' '')" "\<not> is_digit (CHR '' '')" "\<not> is_alpha (CHR '' '')"
  by (simp_all add: is_ident_def is_alpha_def is_digit_def)

lemma alpha_ident: "is_alpha c \<Longrightarrow> is_ident c"
  by (simp add: is_ident_def)

lemma digit_not_alpha: "is_digit c \<Longrightarrow> \<not> is_alpha c"
  by (auto simp: is_digit_def is_alpha_def)

lemma name_then:
  assumes "is_name n" and "\<not> is_ident c"
  shows "takeWhile is_ident (n @ c # s) = n" "dropWhile is_ident (tl n @ c # s) = c # s"
proof -
  have "\<forall>c\<in>set n. is_ident c" "\<forall>c\<in>set (tl n). is_ident c"
    using assms list.set_sel(2) [of n] by (auto simp: is_name_def)
  then show "takeWhile is_ident (n @ c # s) = n" "dropWhile is_ident (tl n @ c # s) = c # s"
    using assms(2) by (simp_all add: takeWhile_append2 dropWhile_append2)
qed

lemma lex_name:
  assumes "is_name n" and "\<not> is_ident c"
  shows "lex_one (n @ c # s) = (Some (ident_token n), c # s)"
proof -
  obtain d cs where n: "n = d # cs" using assms by (cases n) (auto simp: is_name_def)
  then show ?thesis using assms(1) name_then [OF assms, of s] by (simp add: lex_one_def is_name_def)
qed

lemma varname_name: "is_name (gw_host_get_varname v)"
  by (cases v) (simp_all add: gw_host_get_varname_def is_name_def is_ident_def is_alpha_def)

lemma varname_token: "v \<noteq> GENERIC \<Longrightarrow> ident_token (gw_host_get_varname v) = T_VAR v"
  by (cases v) (simp_all add: ident_token_def host_vars_def gw_host_get_varname_def)

lemma other_token: "n \<notin> gw_host_get_varname ` set host_vars \<Longrightarrow> ident_token n = T_GEN n"
proof -
  assume "n \<notin> gw_host_get_varname ` set host_vars"
  then have "find (\<lambda>v. gw_host_get_varname v = n) host_vars = None" by (auto simp: find_None_iff)
  then show ?thesis by (simp add: ident_token_def)
qed

lemma digits_blank:
  "takeWhile is_digit (dec_nat n @ CHR '' '' # s) = dec_nat n" "dropWhile is_digit (tl (dec_nat n) @ CHR '' '' # s) = CHR '' '' # s"
  "dropWhile is_digit (dec_nat n @ CHR '' '' # s) = CHR '' '' # s"
proof -
  have "\<forall>c\<in>set (dec_nat n). is_digit c" "\<forall>c\<in>set (tl (dec_nat n)). is_digit c"
    using dec_nat_digits list.set_sel(2) [of "dec_nat n"] by auto
  then show "takeWhile is_digit (dec_nat n @ CHR '' '' # s) = dec_nat n"
    "dropWhile is_digit (tl (dec_nat n) @ CHR '' '' # s) = CHR '' '' # s"
    "dropWhile is_digit (dec_nat n @ CHR '' '' # s) = CHR '' '' # s"
    by (simp_all add: blank_facts takeWhile_append2 dropWhile_append2)
qed

lemma lex_int:
  assumes "in_int i"
  shows "lex_one (dec i @ CHR '' '' # s) = (Some (T_INT i), CHR '' '' # s)"
proof (cases "i < 0")
  case True
  obtain c cs where d: "dec_nat (nat (- i)) = c # cs" by (cases "dec_nat (nat (- i))") auto
  have c: "is_digit c" using dec_nat_digits [of c "nat (- i)"] d by simp
  have m: "\<not> is_alpha (CHR ''-'')" "\<not> is_digit (CHR ''-'')" by (simp_all add: is_alpha_def is_digit_def)
  show ?thesis using True c m digits_blank [of "nat (- i)" s] atoi_dec_nat [of "nat (- i)"] int_literal_same [OF assms]
    by (simp add: dec_def lex_one_def d)
next
  case False
  obtain c cs where d: "dec_nat (nat i) = c # cs" by (cases "dec_nat (nat i)") auto
  have c: "is_digit c" using dec_nat_digits [of c "nat i"] d by simp
  show ?thesis using False c digit_not_alpha [OF c] digits_blank [of "nat i" s] atoi_dec_nat [of "nat i"] int_literal_same [OF assms]
    by (simp add: dec_def lex_one_def d)
qed

lemma lex_str:
  assumes "tok_ok (T_STR w)"
  shows "lex_one (tok_text (T_STR w) @ s) = (Some (T_STR w), s)"
proof -
  have q: "\<not> is_alpha (CHR 0x22)" "\<not> is_digit (CHR 0x22)" by (simp_all add: is_alpha_def is_digit_def)
  show ?thesis
  proof (cases w)
    case (Some v)
    then have "\<forall>c\<in>set v. c \<noteq> CHR 0x22" using assms by (auto simp: tok_ok_def)
    then have "takeWhile (\<lambda>c. c \<noteq> CHR 0x22) (v @ CHR 0x22 # s) = v" "dropWhile (\<lambda>c. c \<noteq> CHR 0x22) (v @ CHR 0x22 # s) = CHR 0x22 # s"
      by (simp_all add: takeWhile_append2 dropWhile_append2)
    then show ?thesis using assms Some q by (simp add: lex_one_def Let_def tok_ok_def)
  qed (simp add: lex_one_def q Let_def)
qed

lemma punctuation_facts: "list_all (\<lambda>c. \<not> is_alpha c \<and> \<not> is_digit c \<and> c \<noteq> CHR 0x22) host_punctuation"
  by code_simp

lemma lex_char:
  assumes "c \<in> set host_punctuation"
  shows "lex_one (c # CHR '' '' # s) = (Some (T_CHAR c), CHR '' '' # s)"
proof -
  have "\<not> is_alpha c" "\<not> is_digit c" "c \<noteq> CHR 0x22" using punctuation_facts assms by (auto simp: list_all_iff)
  then show ?thesis using assms by (simp add: lex_one_def blank_facts)
qed

lemma lex_tok:
  assumes "tok_ok t"
  shows "lex_one (tok_text t @ CHR '' '' # s) = (Some t, CHR '' '' # s)"
proof (cases t)
  case (T_VAR v)
  then show ?thesis using lex_name [OF varname_name blank_facts(1)] varname_token assms by (simp add: tok_ok_def)
next
  case (T_GEN n)
  then show ?thesis using lex_name [OF _ blank_facts(1)] other_token assms by (simp add: tok_ok_def)
qed (use assms lex_int lex_str lex_char in \<open>auto simp: tok_ok_def simp del: tok_text.simps(4)\<close>)

lemma tok_text_Cons: "tok_ok t \<Longrightarrow> tok_text t \<noteq> []"
  using varname_name by (cases t) (auto simp: tok_ok_def is_name_def dec_def)

lemma host_attr_lex_Nil [simp]: "host_attr_lex [] = []"
  by (simp add: host_attr_lex.simps)

lemma host_attr_lex_blank: "host_attr_lex (CHR '' '' # s) = host_attr_lex s"
  by (simp add: host_attr_lex.simps [of "CHR '' '' # s"] lex_one_def blank_facts host_punctuation_def)

lemma host_attr_lex_tok: "tok_ok t \<Longrightarrow> host_attr_lex (tok_text t @ CHR '' '' # s) = t # host_attr_lex s"
  using tok_text_Cons [of t]
  by (simp add: host_attr_lex.simps [of "tok_text t @ CHR '' '' # s"] lex_tok host_attr_lex_blank)

lemma lex_text: "\<forall>t\<in>set ts. tok_ok t \<Longrightarrow> host_attr_lex (toks_text ts) = ts"
proof (induction ts)
  case (Cons t ts)
  then have "host_attr_lex (tok_text t @ CHR '' '' # toks_text ts) = t # host_attr_lex (toks_text ts)"
    by (simp add: host_attr_lex_tok)
  then show ?case using Cons by (simp add: toks_text_def)
qed (simp add: toks_text_def)

end
