(* ===== verification/HV_Results.thy ===== *)
theory HV_Results
  imports HV_Text
begin

text \<open>The requirements and ranks of jobs and the attributes of hosts: what their texts mean.\<close>

section \<open>Requirements\<close>

datatype host_attr = A_VAR gw_host_var | A_GEN string

fun attr_token :: "host_attr \<Rightarrow> host_token" where
  "attr_token (A_VAR v) = T_VAR v"
| "attr_token (A_GEN n) = T_GEN n"

definition attr_int :: "gw_host \<Rightarrow> int \<Rightarrow> host_attr \<Rightarrow> int option" where
  "attr_int h q a = (case a of A_VAR v \<Rightarrow> gw_host_get_var_int v q h | A_GEN n \<Rightarrow> Some (gw_host_get_genvar_int n q h))"

definition attr_str :: "gw_host \<Rightarrow> int \<Rightarrow> host_attr \<Rightarrow> string option option" where
  "attr_str h q a = (case a of A_VAR v \<Rightarrow> gw_host_get_var_str v q h | A_GEN n \<Rightarrow> Some (gw_host_get_genvar_str n q h))"

text \<open>Comparisons of integers, matches of strings with a pattern that is not empty, and their combinations.\<close>

datatype requirement =
    R_INT host_attr host_cmp int
  | R_MATCH host_attr string
  | R_DIFFER host_attr string
  | R_NOT requirement
  | R_AND requirement requirement
  | R_OR requirement requirement

fun req_eval :: "gw_host \<Rightarrow> int \<Rightarrow> requirement \<Rightarrow> bool option" where
  "req_eval h q (R_INT a c x) = map_option (\<lambda>y. cmp_int c y x) (attr_int h q a)"
| "req_eval h q (R_MATCH a p) = map_option (\<lambda>v. case v of None \<Rightarrow> False | Some s \<Rightarrow> fnmatch p s) (attr_str h q a)"
| "req_eval h q (R_DIFFER a p) = map_option (\<lambda>v. case v of None \<Rightarrow> False | Some s \<Rightarrow> \<not> fnmatch p s) (attr_str h q a)"
| "req_eval h q (R_NOT e) = map_option Not (req_eval h q e)"
| "req_eval h q (R_AND d e) = do { x \<leftarrow> req_eval h q d; y \<leftarrow> req_eval h q e; Some (x \<and> y) }"
| "req_eval h q (R_OR d e) = do { x \<leftarrow> req_eval h q d; y \<leftarrow> req_eval h q e; Some (x \<or> y) }"

fun cmp_toks :: "host_cmp \<Rightarrow> host_token list" where
  "cmp_toks C_EQ = [T_CHAR (CHR ''='')]"
| "cmp_toks C_NE = [T_CHAR (CHR ''!''), T_CHAR (CHR ''='')]"
| "cmp_toks C_GT = [T_CHAR (CHR ''>'')]"
| "cmp_toks C_LT = [T_CHAR (CHR ''<'')]"

fun req_toks :: "requirement \<Rightarrow> host_token list" where
  "req_toks (R_INT a c x) = attr_token a # cmp_toks c @ [T_INT x]"
| "req_toks (R_MATCH a p) = [attr_token a, T_CHAR (CHR ''=''), T_STR (Some p)]"
| "req_toks (R_DIFFER a p) = [attr_token a, T_CHAR (CHR ''!''), T_CHAR (CHR ''=''), T_STR (Some p)]"
| "req_toks (R_NOT e) = T_CHAR (CHR ''!'') # req_toks e"
| "req_toks (R_AND d e) = T_CHAR (CHR ''('') # req_toks d @ T_CHAR (CHR ''&'') # req_toks e @ [T_CHAR (CHR '')'')]"
| "req_toks (R_OR d e) = T_CHAR (CHR ''('') # req_toks d @ T_CHAR (CHR ''|'') # req_toks e @ [T_CHAR (CHR '')'')]"

definition attr_ok :: "host_attr \<Rightarrow> bool" where
  "attr_ok a = tok_ok (attr_token a)"

fun req_ok :: "requirement \<Rightarrow> bool" where
  "req_ok (R_INT a c x) = (attr_ok a \<and> in_int x)"
| "req_ok (R_MATCH a p) = (attr_ok a \<and> p \<noteq> [] \<and> CHR 0x22 \<notin> set p)"
| "req_ok (R_DIFFER a p) = (attr_ok a \<and> p \<noteq> [] \<and> CHR 0x22 \<notin> set p)"
| "req_ok (R_NOT e) = req_ok e"
| "req_ok (R_AND d e) = (req_ok d \<and> req_ok e)"
| "req_ok (R_OR d e) = (req_ok d \<and> req_ok e)"

lemma attr_not_char [simp]: "attr_token a \<noteq> T_CHAR c"
  by (cases a) simp_all

lemma comparison_int:
  "comparison h q (attr_token a) (cmp_toks c @ T_INT x # ts) = map_option (\<lambda>y. Some (cmp_int c y x, ts)) (attr_int h q a)"
  by (cases a; cases c) (simp_all add: comparison_def cmp_token_def attr_int_def)

lemma comparison_match:
  assumes "p \<noteq> []"
  shows "comparison h q (attr_token a) (T_CHAR (CHR ''='') # T_STR (Some p) # ts) =
      map_option (\<lambda>v. Some (case v of None \<Rightarrow> False | Some s \<Rightarrow> fnmatch p s, ts)) (attr_str h q a)"
    "comparison h q (attr_token a) (T_CHAR (CHR ''!'') # T_CHAR (CHR ''='') # T_STR (Some p) # ts) =
      map_option (\<lambda>v. Some (case v of None \<Rightarrow> False | Some s \<Rightarrow> \<not> fnmatch p s, ts)) (attr_str h q a)"
  using assms
  by (cases a; auto simp: comparison_def cmp_token_def attr_str_def match_str_def differ_str_def match_gen_def differ_gen_def
      map_option_case split: option.split)+

text \<open>An operand is read as its value.\<close>

lemma req_operand_toks:
  "req_ok e \<Longrightarrow> req_operand h q fs (req_toks e @ ts) =
     Option.bind (req_eval h q e) (\<lambda>v. req_operator h q (req_reduce v fs) ts)"
proof (induction e arbitrary: fs ts)
  case (R_INT a c x)
  then show ?case
    by (cases "attr_int h q a") (simp_all add: req_operand.simps [of h q fs "attr_token a # r" for r] comparison_int)
next
  case (R_MATCH a p)
  then show ?case
    by (cases "attr_str h q a")
      (simp_all add: req_operand.simps [of h q fs "attr_token a # r" for r] comparison_match)
next
  case (R_DIFFER a p)
  then show ?case
    by (cases "attr_str h q a")
      (simp_all add: req_operand.simps [of h q fs "attr_token a # r" for r] comparison_match)
next
  case (R_NOT e)
  then show ?case
    by (cases "req_eval h q e") (simp_all add: req_operand.simps [of h q fs "T_CHAR c # r" for c r])
next
  case (R_AND d e)
  then show ?case
    by (cases "req_eval h q d"; cases "req_eval h q e")
      (simp_all add: req_operand.simps [of h q fs "T_CHAR c # r" for c r] req_operator.simps [of h q st "T_CHAR c # r" for st c r])
next
  case (R_OR d e)
  then show ?case
    by (cases "req_eval h q d"; cases "req_eval h q e")
      (simp_all add: req_operand.simps [of h q fs "T_CHAR c # r" for c r] req_operator.simps [of h q st "T_CHAR c # r" for st c r])
qed

lemma tok_ok_simps [simp]:
  "tok_ok (T_INT i) = in_int i" "tok_ok (T_CHAR c) = (c \<in> set host_punctuation)"
  "tok_ok (T_STR (Some w)) = (w \<noteq> [] \<and> CHR 0x22 \<notin> set w)" "tok_ok (T_STR None)"
  by (simp_all add: tok_ok_def)

lemma punctuation [simp]:
  "CHR ''!'' \<in> set host_punctuation" "CHR ''&'' \<in> set host_punctuation" "CHR ''|'' \<in> set host_punctuation"
  "CHR ''='' \<in> set host_punctuation" "CHR ''>'' \<in> set host_punctuation" "CHR ''<'' \<in> set host_punctuation"
  "CHR ''('' \<in> set host_punctuation" "CHR '')'' \<in> set host_punctuation" "CHR ''['' \<in> set host_punctuation"
  "CHR '']'' \<in> set host_punctuation" "CHR ''*'' \<in> set host_punctuation" "CHR ''+'' \<in> set host_punctuation"
  "CHR ''/'' \<in> set host_punctuation" "CHR ''-'' \<in> set host_punctuation"
  by (simp_all add: host_punctuation_def)

lemma cmp_toks_ok: "t \<in> set (cmp_toks c) \<Longrightarrow> tok_ok t"
  by (cases c) auto

lemma req_toks_ok: "req_ok e \<Longrightarrow> \<forall>t\<in>set (req_toks e). tok_ok t"
  by (induction e) (auto simp: attr_ok_def cmp_toks_ok)

lemma req_toks_start: "req_toks e \<noteq> [] \<and> req_toks e \<noteq> [T_CHAR (CHR '';'')]"
  by (cases e) (auto split: host_cmp.split)

text \<open>
  C21: the daemon evaluates the text of a requirement as the requirement it stands for: comparisons of integers (literals
  in the range of \<open>int\<close>), matches of patterns, which an attribute without a value never satisfies, and their combinations, when these are put in parentheses.
\<close>

theorem requirement_evaluated:
  assumes "req_ok e"
  shows "gw_host_check_reqs (Some h) q (Some (toks_text (req_toks e))) = req_eval h q e"
proof -
  have "req_operand h q [] (req_toks e @ []) = map_option Some (req_eval h q e)"
    unfolding req_operand_toks [OF assms]
    by (cases "req_eval h q e") (simp_all add: req_operator.simps)
  then have "host_reqs_parse h q (req_toks e) = map_option Some (req_eval h q e)"
    using req_toks_start [of e] by (simp add: host_reqs_parse_def)
  then show ?thesis
    by (simp add: gw_host_check_reqs_def lex_text [OF req_toks_ok [OF assms]] option.map_comp comp_def option.map_ident)
qed

text \<open>Without parentheses the combinations are evaluated from left to right: a conjunction does not bind closer.\<close>

lemma no_precedence:
  assumes "req_ok a" "req_ok b" "req_ok c"
  shows "req_operand h q [] (req_toks a @ T_CHAR (CHR ''|'') # req_toks b @ T_CHAR (CHR ''&'') # req_toks c) =
    map_option Some (req_eval h q (R_AND (R_OR a b) c))"
  using assms req_operand_toks [OF assms(3), of h q _ "[]"]
  by (cases "req_eval h q a"; cases "req_eval h q b"; cases "req_eval h q c")
    (simp_all add: req_operand_toks req_operator.simps [of h q st "T_CHAR c # r" for st c r] req_operator.simps [of h q st "[]" for st])

section \<open>Ranks\<close>

datatype rank_expr =
    K_INT int
  | K_ATTR host_attr
  | K_NEG rank_expr
  | K_BIN rank_op rank_expr rank_expr

fun rank_eval :: "gw_host \<Rightarrow> int \<Rightarrow> rank_expr \<Rightarrow> int option" where
  "rank_eval h q (K_INT i) = Some i"
| "rank_eval h q (K_ATTR a) = attr_int h q a"
| "rank_eval h q (K_NEG e) = do { x \<leftarrow> rank_eval h q e; checked (- x) }"
| "rank_eval h q (K_BIN p d e) = do { x \<leftarrow> rank_eval h q d; y \<leftarrow> rank_eval h q e; rank_apply p x y }"

definition rank_op_tok :: "rank_op \<Rightarrow> host_token" where
  "rank_op_tok p = T_CHAR (case p of O_ADD \<Rightarrow> CHR ''+'' | O_SUB \<Rightarrow> CHR ''-'' | O_MUL \<Rightarrow> CHR ''*'' | O_DIV \<Rightarrow> CHR ''/'')"

fun rank_toks :: "rank_expr \<Rightarrow> host_token list" where
  "rank_toks (K_INT i) = [T_INT i]"
| "rank_toks (K_ATTR a) = [attr_token a]"
| "rank_toks (K_NEG e) = T_CHAR (CHR ''('') # T_CHAR (CHR ''-'') # rank_toks e @ [T_CHAR (CHR '')'')]"
| "rank_toks (K_BIN p d e) = T_CHAR (CHR ''('') # rank_toks d @ rank_op_tok p # rank_toks e @ [T_CHAR (CHR '')'')]"

fun rank_ok :: "rank_expr \<Rightarrow> bool" where
  "rank_ok (K_INT i) = in_int i"
| "rank_ok (K_ATTR a) = attr_ok a"
| "rank_ok (K_NEG e) = rank_ok e"
| "rank_ok (K_BIN p d e) = (rank_ok d \<and> rank_ok e)"

lemma rank_value_attr: "rank_value h q (attr_token a) = map_option Some (attr_int h q a)"
  by (cases a) (simp_all add: rank_value_def attr_int_def)

lemma rank_op_token_tok: "rank_op_token (rank_op_tok p) = Some p"
  by (cases p) (simp_all add: rank_op_token_def rank_op_tok_def)

lemma rank_op_token_paren: "rank_op_token (T_CHAR (CHR '')'')) = None"
  by (simp add: rank_op_token_def)

lemma rank_close:
  "rank_operator h q v (G_NEG # G_PAREN # fs) (T_CHAR (CHR '')'') # ts) = Option.bind (checked (- v)) (\<lambda>v. rank_operator h q v fs ts)"
  "rank_operator h q y (G_BIN p x # G_PAREN # fs) (T_CHAR (CHR '')'') # ts) = Option.bind (rank_apply p x y) (\<lambda>v. rank_operator h q v fs ts)"
  by (simp_all add: rank_operator.simps [of h q _ _ "_ # _"] rank_op_token_paren Option.bind_assoc split: bind_split)

lemma rank_open:
  "rank_operator h q v (G_PAREN # fs) (rank_op_tok p # ts) = rank_operand h q (G_BIN p v # G_PAREN # fs) ts"
  by (simp add: rank_operator.simps [of h q _ _ "_ # _"] rank_op_token_tok)

lemma rank_operand_toks:
  "rank_ok e \<Longrightarrow> rank_operand h q fs (rank_toks e @ ts) = Option.bind (rank_eval h q e) (\<lambda>v. rank_operator h q v fs ts)"
proof (induction e arbitrary: fs ts)
  case (K_INT i)
  then show ?case by (simp add: rank_operand.simps [of h q fs "_ # _"] rank_value_def)
next
  case (K_ATTR a)
  then show ?case
    by (cases "attr_int h q a") (simp_all add: rank_operand.simps [of h q fs "_ # _"] rank_value_attr)
next
  case (K_NEG e)
  have "rank_operand h q fs (rank_toks (K_NEG e) @ ts) =
      rank_operand h q (G_NEG # G_PAREN # fs) (rank_toks e @ T_CHAR (CHR '')'') # ts)"
    by (simp add: rank_operand.simps [of h q _ "T_CHAR _ # _"])
  then show ?case using K_NEG by (cases "rank_eval h q e") (simp_all add: rank_close)
next
  case (K_BIN p d e)
  have "rank_operand h q fs (rank_toks (K_BIN p d e) @ ts) =
      rank_operand h q (G_PAREN # fs) (rank_toks d @ rank_op_tok p # rank_toks e @ T_CHAR (CHR '')'') # ts)"
    by (simp add: rank_operand.simps [of h q _ "T_CHAR _ # _"])
  then show ?case using K_BIN
    by (cases "rank_eval h q d"; cases "rank_eval h q e") (simp_all add: rank_close rank_open)
qed

lemma rank_toks_ok: "rank_ok e \<Longrightarrow> \<forall>t\<in>set (rank_toks e). tok_ok t"
  by (induction e) (auto simp: attr_ok_def rank_op_tok_def split: rank_op.splits)

lemma rank_toks_start: "rank_toks e \<noteq> [] \<and> rank_toks e \<noteq> [T_CHAR (CHR '';'')]"
  by (cases e) auto

lemma rank_text_value:
  assumes "rank_ok e"
  shows "gw_host_compute_rank (Some h) q (Some (toks_text (rank_toks e))) = rank_eval h q e"
proof -
  have "rank_operand h q [] (rank_toks e @ []) = map_option Some (rank_eval h q e)"
    unfolding rank_operand_toks [OF assms]
    by (cases "rank_eval h q e") (simp_all add: rank_operator.simps [of h q _ "[]" "[]"])
  then have "host_rank_parse h q (rank_toks e) = map_option Some (rank_eval h q e)"
    using rank_toks_start [of e] by (simp add: host_rank_parse_def)
  then show ?thesis
    by (simp add: gw_host_compute_rank_def lex_text [OF rank_toks_ok [OF assms]] option.map_comp comp_def option.map_ident)
qed

text \<open>Somewhere in the expression a division by zero is met, or a result that does not fit an \<open>int\<close>.\<close>

fun goes_wrong :: "gw_host \<Rightarrow> int \<Rightarrow> rank_expr \<Rightarrow> bool" where
  "goes_wrong h q (K_NEG e) = (goes_wrong h q e \<or> (case rank_eval h q e of Some x \<Rightarrow> \<not> in_int (- x) | None \<Rightarrow> False))"
| "goes_wrong h q (K_BIN p d e) =
     (goes_wrong h q d \<or> goes_wrong h q e \<or>
      (case (rank_eval h q d, rank_eval h q e) of
         (Some x, Some y) \<Rightarrow> (p = O_DIV \<and> y = 0) \<or> \<not> in_int (rank_result p x y)
       | _ \<Rightarrow> False))"
| "goes_wrong h q e = False"

lemma attr_int_defined:
  assumes "0 \<le> q" and "q < int (length (queues h))"
  shows "attr_int h q a \<noteq> None"
  using assms by (cases a) (auto simp: attr_int_def gw_host_get_var_int_def queue_get_def split: gw_host_var.split)

text \<open>
  C22: the daemon evaluates the text of a parenthesised rank as the arithmetic expression it stands for, for literals in the range of
  \<open>int\<close> and a queue of the host. The value is undefined exactly when a division by zero or a result outside the range of
  \<open>int\<close> is met on the way; the text is never a syntax error.
\<close>

theorem rank_evaluated:
  assumes "rank_ok e" and "0 \<le> q" and "q < int (length (queues h))"
  shows "gw_host_compute_rank (Some h) q (Some (toks_text (rank_toks e))) = rank_eval h q e \<and>
    (rank_eval h q e = None \<longleftrightarrow> goes_wrong h q e)"
proof -
  have "rank_eval h q e = None \<longleftrightarrow> goes_wrong h q e"
  proof (induction e)
    case (K_NEG e)
    then show ?case by (cases "rank_eval h q e") auto
  next
    case (K_BIN p d e)
    then show ?case
      by (cases "rank_eval h q d"; cases "rank_eval h q e") (auto simp: rank_apply_def)
  qed (use attr_int_defined [OF assms(2,3)] in auto)
  then show ?thesis using rank_text_value [OF assms(1)] by blast
qed

section \<open>Updates\<close>

text \<open>An assignment of a line of an information driver; the index is -1 for a scalar.\<close>

datatype attr_value = V_INT int | V_STR string | V_NULL

type_synonym assignment = "(host_attr \<times> int) \<times> attr_value"

fun value_toks :: "attr_value \<Rightarrow> host_token list" where
  "value_toks (V_INT x) = [T_INT x]"
| "value_toks (V_STR w) = [T_STR (if w = [] then None else Some w)]"
| "value_toks V_NULL = []"

definition asig_toks :: "assignment \<Rightarrow> host_token list" where
  "asig_toks x =
     (case x of ((a, i), y) \<Rightarrow>
        attr_token a # (if i = -1 then [] else [T_CHAR (CHR ''[''), T_INT i, T_CHAR (CHR '']'')])
        @ T_CHAR (CHR ''='') # value_toks y)"

definition assign :: "assignment \<Rightarrow> gw_host \<Rightarrow> gw_host option" where
  "assign x h =
     (case x of ((a, i), y) \<Rightarrow>
        (case (a, y) of
           (A_VAR v, V_INT z) \<Rightarrow> gw_host_set_var_int v i z h
         | (A_VAR v, V_STR w) \<Rightarrow> gw_host_set_var_str v i (if w = [] then None else Some w) h
         | (A_VAR v, V_NULL) \<Rightarrow> gw_host_set_var_null v i h
         | (A_GEN n, V_INT z) \<Rightarrow> gw_host_set_genvar_int n i z h
         | (A_GEN n, V_STR w) \<Rightarrow> gw_host_set_genvar_str n i (if w = [] then None else Some w) h
         | (A_GEN n, V_NULL) \<Rightarrow> Some (gw_host_set_genvar_null n i h)))"

fun assign_all :: "assignment list \<Rightarrow> gw_host \<Rightarrow> gw_host option" where
  "assign_all [] h = Some h"
| "assign_all (x # xs) h = Option.bind (assign x h) (assign_all xs)"

definition asig_ok :: "assignment \<Rightarrow> bool" where
  "asig_ok x = (case x of ((a, i), y) \<Rightarrow> attr_ok a \<and> in_int i \<and>
     (case y of V_INT z \<Rightarrow> in_int z | V_STR w \<Rightarrow> CHR 0x22 \<notin> set w | V_NULL \<Rightarrow> True))"

lemma asig_toks_ok: "asig_ok x \<Longrightarrow> t \<in> set (asig_toks x) \<Longrightarrow> tok_ok t"
  by (auto simp: asig_ok_def asig_toks_def attr_ok_def split: prod.splits attr_value.splits if_splits)

lemma asig_target_toks:
  "asig_target (asig_toks ((a, i), y) @ ts) = Some ((attr_token a, i), value_toks y @ ts)"
  by (cases a) (simp_all add: asig_target_def asig_toks_def)

text \<open>What follows an assignment begins with the name of an attribute or is nothing.\<close>

lemma asig_value_toks:
  assumes "ts = [] \<or> (\<exists>x us. ts = asig_toks x @ us)"
  shows "asig_value (attr_token a, i) (value_toks y @ ts) h = (assign ((a, i), y) h, ts)"
proof (cases y)
  case V_NULL
  from assms show ?thesis
  proof
    assume "ts = []"
    then show ?thesis using V_NULL by (cases a) (simp_all add: asig_value_def asig_null_def assign_def)
  next
    assume "\<exists>x us. ts = asig_toks x @ us"
    then obtain b us where "ts = attr_token b # us" by (auto simp: asig_toks_def split: prod.splits)
    then show ?thesis using V_NULL by (cases a; cases b) (simp_all add: asig_value_def asig_null_def assign_def)
  qed
qed (cases a; simp add: asig_value_def asig_int_def asig_str_def assign_def)+

lemma host_update_parse_toks:
  "host_update_parse (concat (map asig_toks xs)) h = map_option (\<lambda>h. (h, True)) (assign_all xs h)"
proof (induction xs arbitrary: h)
  case (Cons x xs)
  obtain a i y where x: "x = ((a, i), y)" by (cases x) auto
  let ?ts = "concat (map asig_toks xs)"
  have ne: "asig_toks x @ ?ts \<noteq> []" by (simp add: x asig_toks_def)
  have ts: "?ts = [] \<or> (\<exists>x us. ?ts = asig_toks x @ us)" by (cases xs) auto
  have "host_update_parse (asig_toks x @ ?ts) h =
      (case assign x h of None \<Rightarrow> None | Some h' \<Rightarrow> host_update_parse ?ts h')"
    using ne unfolding x
    by (subst host_update_parse.simps) (simp add: asig_target_toks asig_value_toks [OF ts] del: append_is_Nil_conv split: option.split)
  then show ?case using Cons.IH by (cases "assign x h") simp_all
qed (simp add: host_update_parse.simps)

lemma update_attr_text:
  assumes "\<forall>x\<in>set xs. asig_ok x"
  shows "gw_host_update_attr (toks_text (concat (map asig_toks xs))) h = map_option (\<lambda>h. (h, 0)) (assign_all xs h)"
proof -
  have "\<forall>t\<in>set (concat (map asig_toks xs)). tok_ok t" using assms asig_toks_ok by auto
  then show ?thesis
    by (simp add: gw_host_update_attr_def lex_text host_update_parse_toks option.map_comp comp_def)
qed

text \<open>
  C23: a line of an information driver, with numbers in the range of \<open>int\<close>, has the effect of its assignments one after the other; the host is then monitored, its free
  nodes follow from the free processors when its batch system is fork, and the scheduler is told.
\<close>

theorem update_line_applied:
  assumes "\<forall>x\<in>set xs. asig_ok x"
  shows "gw_host_update (toks_text (concat (map asig_toks xs))) h = do {
    h1 \<leftarrow> assign_all xs h;
    h2 \<leftarrow> (if lrms_type h1 = Some ''fork''
           then queue_upd 0 (queue_freenodecount_update (\<lambda>_. fork_nodes (cpu_free h1))) h1 else Some h1);
    Some (h2\<lparr>host_state := GW_HOST_STATE_MONITORED\<rparr>, [HOST_MONITOR (host_id h2) (used_slots h2) (running_jobs h2) (hostname h2)]) }"
  unfolding gw_host_update_def update_attr_text [OF assms]
  by (cases "assign_all xs h") (simp_all add: host_monitor_msg_def Let_def)

section \<open>Generic variables\<close>

lemma search_name_update:
  "search_name xs n < length xs \<Longrightarrow> search_name (xs[search_name xs n := Some n]) n = search_name xs n"
  by (induction xs n rule: search_name.induct) (auto split: if_splits)

text \<open>The names of a table fill it from the front. A new host has none, and entries are never freed.\<close>

fun packed_names :: "string option list \<Rightarrow> bool" where
  "packed_names [] = True"
| "packed_names (x # xs) = (case x of None \<Rightarrow> list_all (\<lambda>y. y = None) xs | Some n \<Rightarrow> packed_names xs)"

definition entry_of :: "gw_genvar_int list \<Rightarrow> string \<Rightarrow> int option" where
  "entry_of xs n =
     (let p = search_name (map gi_name xs) n in
      if p < length xs \<and> gi_name (xs ! p) \<noteq> None then Some (gi_value (xs ! p)) else None)"

lemma entry_of_Cons:
  "entry_of (x # xs) n =
     (if gi_name x = None then None else if gi_name x = Some n then Some (gi_value x) else entry_of xs n)"
  by (cases "gi_name x") (auto simp: entry_of_def Let_def)

lemma entry_of_none: "list_all (\<lambda>y. y = None) (map gi_name xs) \<Longrightarrow> entry_of xs n = None"
  by (cases xs) (simp_all add: entry_of_Cons, simp add: entry_of_def)

text \<open>Writing the entry of a name leaves the table packed and the entries of the other names as they were.\<close>

lemma entry_of_put:
  assumes "search_name (map gi_name xs) n < length xs" and "packed_names (map gi_name xs)" and "m \<noteq> n"
  shows "entry_of (xs[search_name (map gi_name xs) n := \<lparr>gi_name = Some n, gi_value = x\<rparr>]) m = entry_of xs m"
  using assms
proof (induction xs)
  case (Cons e es)
  then show ?case by (cases "gi_name e") (auto simp: entry_of_Cons entry_of_none)
qed simp

lemma packed_names_put:
  assumes "search_name xs n < length xs" and "packed_names xs"
  shows "packed_names (xs[search_name xs n := Some n])"
  using assms
proof (induction xs)
  case (Cons e es)
  have "list_all (\<lambda>y. y = None) es \<Longrightarrow> packed_names es" by (cases es) auto
  then show ?case using Cons by (cases e) auto
qed simp

text \<open>
  C24: a generic variable that was set is read back, the scalar for every queue and the element of an array for its
  queue unless a scalar of that name hides it. In a table that is packed, as the one of a new host is, nothing else changes: the
  table stays packed, every other name has the value it had, or none, and the other attributes of the host are untouched.
\<close>

theorem genvar_set_get:
  assumes "gw_host_set_genvar_int n i x h = Some h'" and "i < int GW_HOST_MAX_QUEUES" and "q < int GW_HOST_MAX_QUEUES"
    and "i = -1 \<or> q = i \<and> found_int h' (scalar_name n) = None" and "packed_names (map gi_name (genvar_int h))"
  shows "gw_host_get_genvar_int n q h' = x \<and> packed_names (map gi_name (genvar_int h')) \<and>
    (\<forall>m. m \<noteq> genvar_name n i \<longrightarrow> found_int h' m = found_int h m) \<and> h' = h\<lparr>genvar_int := genvar_int h'\<rparr>"
proof -
  let ?m = "genvar_name n i"
  let ?p = "gw_host_search_genvar_int ?m h"
  have p: "?p < length (genvar_int h)" "h' = h\<lparr>genvar_int := (genvar_int h)[?p := \<lparr>gi_name = Some ?m, gi_value = x\<rparr>]\<rparr>"
    using assms(1,2) by (auto simp: gw_host_set_genvar_int_def Let_def split: if_splits)
  then have "gw_host_search_genvar_int ?m h' = ?p"
    using search_name_update [of "map gi_name (genvar_int h)" ?m]
    by (simp add: gw_host_search_genvar_int_def map_update)
  then have f: "found_int h' ?m = Some x" using p by (simp add: found_int_def)
  have "gw_host_get_genvar_int n q h' = x"
    using f assms(3,4) by (cases "i = -1") (auto simp: gw_host_get_genvar_int_def genvar_name_def)
  moreover have "packed_names (map gi_name (genvar_int h'))"
    using packed_names_put [OF _ assms(5), of ?m] p by (simp add: gw_host_search_genvar_int_def map_update)
  moreover have "found_int h' m = found_int h m" if "m \<noteq> ?m" for m
  proof -
    have "found_int k m = entry_of (genvar_int k) m" for k
      by (simp add: found_int_def entry_of_def gw_host_search_genvar_int_def)
    then show ?thesis using entry_of_put [OF _ assms(5) that, of x] p by (simp add: gw_host_search_genvar_int_def)
  qed
  moreover have "h' = h\<lparr>genvar_int := genvar_int h'\<rparr>" unfolding p(2) by simp
  ultimately show ?thesis by blast
qed

text \<open>The table after distinct names were set in a new host.\<close>

lemma search_name_fresh:
  "n \<notin> set us \<Longrightarrow> search_name (map Some us @ replicate r None) n = length us"
proof (induction us)
  case Nil
  show ?case by (cases r) simp_all
qed auto

lemma assign_names:
  assumes "map gi_name (genvar_int h) = map Some us @ replicate r None" and "distinct (us @ ns)"
    and "\<forall>n\<in>set ns. length n < GW_MSG_STRING_LONG" and "r < length ns"
  shows "assign_all (map (\<lambda>n. ((A_GEN n, -1), V_INT 1)) ns) h = None"
  using assms
proof (induction ns arbitrary: h us r)
  case (Cons n ns)
  have "length n < GW_MSG_STRING_LONG" using Cons.prems(3) by simp
  then have "length n \<le> GW_MSG_STRING_LONG - 1" by linarith
  then have n: "genvar_name n (-1) = n" by (simp add: genvar_name_def scalar_name_def)
  have s: "gw_host_search_genvar_int n h = length us"
    using Cons.prems(1,2) search_name_fresh [of n us r] by (simp add: gw_host_search_genvar_int_def)
  have l: "length (genvar_int h) = length us + r" using arg_cong [OF Cons.prems(1), of length] by simp
  show ?case
  proof (cases r)
    case 0
    then show ?thesis using s l n by (simp add: assign_def gw_host_set_genvar_int_def Let_def GW_HOST_MAX_QUEUES_def)
  next
    case (Suc k)
    let ?h = "h\<lparr>genvar_int := (genvar_int h)[length us := \<lparr>gi_name = Some n, gi_value = 1\<rparr>]\<rparr>"
    have a: "assign ((A_GEN n, -1), V_INT 1) h = Some ?h"
      using s l n Suc by (simp add: assign_def gw_host_set_genvar_int_def Let_def GW_HOST_MAX_QUEUES_def)
    have "map gi_name (genvar_int ?h) = map Some (us @ [n]) @ replicate k None"
      using Cons.prems(1) Suc by (simp add: map_update list_update_append)
    then have "assign_all (map (\<lambda>n. ((A_GEN n, -1), V_INT 1)) ns) ?h = None"
      using Cons.IH [of ?h "us @ [n]" k] Cons.prems Suc by simp
    then show ?thesis using a by simp
  qed
qed simp

text \<open>
  A line that sets more different generic variables than the table has room for writes past the table.
\<close>

lemma genvar_table_overrun:
  assumes "distinct ns" and "length ns > GW_HOST_MAX_GENVARS" and "\<forall>n\<in>set ns. attr_ok (A_GEN n) \<and> length n < GW_MSG_STRING_LONG"
  shows "gw_host_update (toks_text (concat (map (\<lambda>n. asig_toks ((A_GEN n, -1), V_INT 1)) ns))) (gw_host_init hn hid pr em tm im) = None"
proof -
  let ?h = "gw_host_init hn hid pr em tm im"
  let ?xs = "map (\<lambda>n. ((A_GEN n, -1), V_INT 1)) ns"
  have "map gi_name (genvar_int ?h) = map Some [] @ replicate GW_HOST_MAX_GENVARS None" by (simp add: gw_host_init_def)
  from assign_names [OF this] have "assign_all ?xs ?h = None" using assms by simp
  moreover have "\<forall>x\<in>set ?xs. asig_ok x" using assms(3) by (auto simp: asig_ok_def in_int_def)
  from update_line_applied [OF this, of ?h]
  have "gw_host_update (toks_text (concat (map asig_toks ?xs))) ?h = None" using calculation by simp
  ultimately show ?thesis by (simp add: comp_def)
qed

section \<open>What goes wrong\<close>

text \<open>
  C25: a requirement that compares a generic variable with the empty string ends the daemon: the scanner gives a null pointer for
  the empty string, and the test that should find an attribute without a value takes its length, or matches it.
\<close>

theorem empty_string_crash:
  assumes "attr_ok (A_GEN n)"
  shows "gw_host_check_reqs (Some h) q (Some (n @ '' = '' @ [CHR 0x22, CHR 0x22])) = None"
proof -
  have "host_attr_lex (n @ CHR '' '' # CHR ''='' # CHR '' '' # [CHR 0x22, CHR 0x22]) = T_GEN n # T_CHAR (CHR ''='') # host_attr_lex [CHR 0x22, CHR 0x22]"
    using host_attr_lex_tok [of "T_GEN n"] host_attr_lex_tok [of "T_CHAR (CHR ''='')"] assms by (simp add: attr_ok_def)
  moreover have "host_attr_lex [CHR 0x22, CHR 0x22] = [T_STR None]"
    using lex_str [of None "[]"]
    by (simp add: host_attr_lex.simps [of "[CHR 0x22, CHR 0x22]"])
  ultimately have "host_attr_lex (n @ '' = '' @ [CHR 0x22, CHR 0x22]) = [T_GEN n, T_CHAR (CHR ''=''), T_STR None]" by simp
  then show ?thesis
    by (simp add: gw_host_check_reqs_def host_reqs_parse_def req_operand.simps comparison_def cmp_token_def match_gen_def)
qed

text \<open>
  C26: a number (up to 2147483648) that is subtracted without a blank before it is read as a negative number, so the rank is a syntax error and
  counts as zero on every host.
\<close>

theorem subtraction_misread:
  assumes "v \<noteq> GENERIC" and "0 \<le> q" and "q < int (length (queues h))" and "int n \<le> 2 ^ 31"
  shows "gw_host_compute_rank (Some h) q (Some (gw_host_get_varname v @ ''-'' @ dec_nat n)) = Some 0"
proof -
  have m: "\<not> is_ident (CHR ''-'')" "\<not> is_alpha (CHR ''-'')" "\<not> is_digit (CHR ''-'')"
    by (simp_all add: is_ident_def is_alpha_def is_digit_def)
  obtain c cs where d: "dec_nat n = c # cs" by (cases "dec_nat n") auto
  have digits: "\<forall>c\<in>set (dec_nat n). is_digit c" using dec_nat_digits by blast
  then have tw: "takeWhile is_digit cs = cs" "dropWhile is_digit cs = []"
    by (simp_all add: takeWhile_eq_all_conv dropWhile_eq_Nil_conv d)
  then have one: "lex_one (CHR ''-'' # dec_nat n) = (Some (T_INT (- int n)), [])"
    using m digits atoi_dec_nat [of n] int_literal_same [of "- int n"] assms(4) by (simp add: lex_one_def d tw in_int_def)
  have "host_attr_lex (gw_host_get_varname v @ CHR ''-'' # dec_nat n) = T_VAR v # host_attr_lex (CHR ''-'' # dec_nat n)"
    using varname_token [OF assms(1)] by (simp add: host_attr_lex.simps [of "_ @ _"] lex_name [OF varname_name m(1)])
  also have "host_attr_lex (CHR ''-'' # dec_nat n) = [T_INT (- int n)]"
    by (simp add: host_attr_lex.simps [of "_ # _"] one)
  finally have l: "host_attr_lex (gw_host_get_varname v @ ''-'' @ dec_nat n) = [T_VAR v, T_INT (- int n)]" by simp
  obtain x where "gw_host_get_var_int v q h = Some x"
    using attr_int_defined [OF assms(2,3), of "A_VAR v"] by (auto simp: attr_int_def)
  then have "host_rank_parse h q [T_VAR v, T_INT (- int n)] = Some None"
    by (simp add: host_rank_parse_def rank_operand.simps rank_value_def rank_operator.simps rank_op_token_def)
  then show ?thesis using l by (simp add: gw_host_compute_rank_def)
qed

text \<open>
  A line of an information driver that sets an attribute of a queue without an index writes before the array, whatever
  follows in the line.
\<close>

lemma queue_without_index:
  assumes "v \<in> {QUEUE_NAME, QUEUE_STATUS, QUEUE_DISPATCHTYPE, QUEUE_PRIORITY}" and "w \<noteq> []" and "CHR 0x22 \<notin> set w"
  shows "gw_host_update (gw_host_get_varname v @ '' = '' @ tok_text (T_STR (Some w)) @ r) h = None"
proof -
  have v: "v \<noteq> GENERIC" using assms(1) by auto
  have "tok_ok (T_VAR v)" "tok_ok (T_CHAR (CHR ''=''))" "tok_ok (T_STR (Some w))" using v assms(2,3) by (simp_all add: tok_ok_def)
  then have "host_attr_lex (gw_host_get_varname v @ CHR '' '' # CHR ''='' # CHR '' '' # tok_text (T_STR (Some w)) @ r) =
      [T_VAR v, T_CHAR (CHR ''='')] @ host_attr_lex (tok_text (T_STR (Some w)) @ r)"
    using host_attr_lex_tok [of "T_VAR v"] host_attr_lex_tok [of "T_CHAR (CHR ''='')"] by (simp del: tok_text.simps(4))
  moreover have "host_attr_lex (tok_text (T_STR (Some w)) @ r) = T_STR (Some w) # host_attr_lex r"
    using lex_str [of "Some w" r] assms(2,3)
    by (simp add: host_attr_lex.simps [of "tok_text (T_STR (Some w)) @ r"] del: tok_text.simps(4)) simp
  ultimately have l: "host_attr_lex (gw_host_get_varname v @ '' = '' @ tok_text (T_STR (Some w)) @ r) =
      T_VAR v # T_CHAR (CHR ''='') # T_STR (Some w) # host_attr_lex r" by simp
  have "gw_host_set_var_str v (-1) (Some w) h = None"
    using assms(1) by (auto simp: gw_host_set_var_str_def queue_upd_def)
  then have "host_update_parse (T_VAR v # T_CHAR (CHR ''='') # T_STR (Some w) # host_attr_lex r) h = None"
    by (simp add: host_update_parse.simps [of "_ # _"] asig_target_def asig_value_def asig_str_def)
  then show ?thesis unfolding gw_host_update_def gw_host_update_attr_def l by simp
qed

section \<open>Examples\<close>

definition demo_node :: gw_host where
  "demo_node = (gw_host_init ''node'' 0 1 ''em'' ''tm'' ''im'')\<lparr>cpu_mhz := 2400, arch := Some ''x86_64''\<rparr>"

lemma demo_node_queues: "length (queues demo_node) = 67"
  by (simp add: demo_node_def gw_host_init_def GW_HOST_MAX_QUEUES_def)

theorem requirement_evaluated_witness:
  "gw_host_check_reqs (Some demo_node) 0
     (Some (toks_text (req_toks (R_AND (R_MATCH (A_VAR ARCH) ''x86*'') (R_NOT (R_INT (A_VAR CPU_MHZ) C_LT 1000)))))) = Some True"
proof -
  let ?e = "R_AND (R_MATCH (A_VAR ARCH) ''x86*'') (R_NOT (R_INT (A_VAR CPU_MHZ) C_LT 1000))"
  have ok: "req_ok ?e" by (simp add: attr_ok_def tok_ok_def in_int_def)
  have "req_eval demo_node 0 ?e = Some True" by code_simp
  then show ?thesis unfolding requirement_evaluated [OF ok] .
qed

theorem rank_evaluated_witness:
  "gw_host_compute_rank (Some demo_node) 0
     (Some (toks_text (rank_toks (K_BIN O_SUB (K_BIN O_MUL (K_INT 2) (K_ATTR (A_VAR CPU_MHZ))) (K_INT 800))))) = Some 4000 \<and>
   gw_host_compute_rank (Some demo_node) 0
     (Some (toks_text (rank_toks (K_BIN O_DIV (K_INT 100) (K_ATTR (A_VAR CPU_FREE)))))) = None"
proof -
  let ?e = "K_BIN O_SUB (K_BIN O_MUL (K_INT 2) (K_ATTR (A_VAR CPU_MHZ))) (K_INT 800)"
  let ?f = "K_BIN O_DIV (K_INT 100) (K_ATTR (A_VAR CPU_FREE))"
  have "rank_ok ?e" "rank_ok ?f" by (simp_all add: attr_ok_def tok_ok_def in_int_def)
  moreover have "rank_eval demo_node 0 ?e = Some 4000" "rank_eval demo_node 0 ?f = None" by code_simp+
  ultimately show ?thesis using rank_evaluated [of ?e 0 demo_node] rank_evaluated [of ?f 0 demo_node] demo_node_queues by auto
qed

theorem empty_string_crash_witness:
  "gw_host_check_reqs (Some demo_node) 0 (Some (''SE_HOSTNAME'' @ '' = '' @ [CHR 0x22, CHR 0x22])) = None"
proof -
  have "attr_ok (A_GEN ''SE_HOSTNAME'')" by code_simp
  then show ?thesis by (rule empty_string_crash)
qed

theorem subtraction_misread_witness:
  "gw_host_compute_rank (Some demo_node) 0 (Some (gw_host_get_varname CPU_MHZ @ ''-'' @ dec_nat 400)) = Some 0"
  by (rule subtraction_misread) (simp_all add: demo_node_queues)

theorem update_line_applied_witness:
  "map_option (\<lambda>r. (cpu_free (fst r), host_state (fst r), length (snd r)))
     (gw_host_update (toks_text (concat (map asig_toks [((A_VAR CPU_FREE, -1), V_INT 70), ((A_VAR LRMS_TYPE, -1), V_STR ''fork'')]))) demo_node)
   = Some (70, GW_HOST_STATE_MONITORED, 1)"
proof -
  let ?xs = "[((A_VAR CPU_FREE, -1), V_INT 70), ((A_VAR LRMS_TYPE, -1), V_STR ''fork'')]"
  have "\<forall>x\<in>set ?xs. asig_ok x" by code_simp
  from update_line_applied [OF this, of demo_node] show ?thesis
    using demo_node_queues
    by (simp add: assign_def gw_host_set_var_int_def gw_host_set_var_str_def queue_upd_def GW_HOST_MAX_QUEUES_def)
qed

text \<open>One variable after the other: the second does not disturb the first.\<close>

theorem genvar_set_get_witness:
  "\<exists>h1 h2. gw_host_set_genvar_int ''SLOTS'' (-1) 8 demo_node = Some h1 \<and> gw_host_set_genvar_int ''USED'' (-1) 5 h1 = Some h2 \<and>
     gw_host_get_genvar_int ''USED'' 3 h2 = 5 \<and> found_int h2 ''SLOTS'' = found_int h1 ''SLOTS''"
proof -
  have "\<not> Option.is_none (gw_host_set_genvar_int ''SLOTS'' (-1) 8 demo_node)" by code_simp
  then obtain h1 where h1: "gw_host_set_genvar_int ''SLOTS'' (-1) 8 demo_node = Some h1" by (auto simp: Option.is_none_def)
  have "\<not> Option.is_none (gw_host_set_genvar_int ''USED'' (-1) 5 (the (gw_host_set_genvar_int ''SLOTS'' (-1) 8 demo_node)))" by code_simp
  then obtain h2 where h2: "gw_host_set_genvar_int ''USED'' (-1) 5 h1 = Some h2" unfolding h1 by (auto simp: Option.is_none_def)
  have q: "3 < int GW_HOST_MAX_QUEUES" "-1 < int GW_HOST_MAX_QUEUES" by (simp_all add: GW_HOST_MAX_QUEUES_def)
  have n: "genvar_name ''USED'' (-1) = ''USED''" by code_simp
  have "packed_names (map gi_name (genvar_int demo_node))" by code_simp
  then have "packed_names (map gi_name (genvar_int h1))" using genvar_set_get [OF h1 q(2,1)] by blast
  then show ?thesis using genvar_set_get [OF h2 q(2,1)] h1 h2 n by auto
qed

definition demo_names :: "string list" where
  "demo_names = map (\<lambda>k. CHR ''V'' # dec_nat k) [0..<135]"

end
