(* ===== verification/IM_Frame.thy ===== *)
theory IM_Frame
  imports EM_Results
begin

text \<open>
  What the rest of the daemon leaves alone of the work of the information manager: the dispatch, execution, transfer
  managers and the scheduler change hosts only by their counters.
\<close>

section \<open>The frame\<close>

text \<open>What the information manager looks at in a host, and in the pool.\<close>

definition host_view :: "gw_host \<Rightarrow> int \<times> string \<times> string \<times> gw_host_state \<times> int" where
  "host_view h = (host_id h, hostname h, host_im_mad h, host_state h, last_monitoring_time h)"

definition pool_view ::
  "host_pool \<Rightarrow> int \<times> int \<times> (int \<times> string \<times> string \<times> gw_host_state \<times> int) option list" where
  "pool_view hp = (number_of_hosts hp, last_host_id hp, map (map_option host_view) (hosts hp))"

definition hv :: "gwd \<Rightarrow> int \<times> int \<times> (int \<times> string \<times> string \<times> gw_host_state \<times> int) option list" where
  "hv s = pool_view (gd_hosts s)"

definition counters_only :: "(gw_host \<Rightarrow> gw_host \<times> sched_msg) \<Rightarrow> bool" where
  "counters_only f \<longleftrightarrow> (\<forall>h. host_view (fst (f h)) = host_view h)"

lemma counters_only_ops [simp]:
  "counters_only gw_host_dec_rjobs" "counters_only gw_host_inc_rjobs" "counters_only gw_host_inc_rjobs_nb"
  "counters_only (gw_host_dec_slots n)" "counters_only (gw_host_inc_slots n)" "counters_only (gw_host_inc_slots_nb n)"
  "counters_only (gw_host_dec_uslots n)" "counters_only (gw_host_inc_uslots n)"
  by (simp_all add: counters_only_def host_view_def gw_defs)

lemma hv_same: "gd_hosts s' = gd_hosts s \<Longrightarrow> hv s' = hv s"
  by (simp add: hv_def)

lemma hv_host_op:
  assumes "counters_only f" and "host_op f p s = Some s'"
  shows "hv s' = hv s"
proof -
  obtain hid h where h: "get_host s hid = Some h" and s': "gd_hosts s' =
      (gd_hosts s)\<lparr>hosts := slot_put (hosts (gd_hosts s)) hid (Some (fst (f h)))\<rparr>"
    using assms(2) by (auto simp: host_op_def send_def bind_eq_Some_conv)
  have "0 \<le> hid" "nat hid < length (hosts (gd_hosts s))" "hosts (gd_hosts s) ! nat hid = Some h"
    using h by (auto simp: get_host_def gw_host_pool_get_host_def slot_get_def split: if_splits)
  moreover have "host_view (fst (f h)) = host_view h" using assms(1) by (simp add: counters_only_def)
  ultimately have "map (map_option host_view) (slot_put (hosts (gd_hosts s)) hid (Some (fst (f h)))) =
      map (map_option host_view) (hosts (gd_hosts s))"
    by (auto simp: slot_put_def map_update intro!: nth_equalityI simp: nth_list_update)
  then show ?thesis by (simp add: hv_def pool_view_def s')
qed

lemma hv_wrap [simp]:
  "hv (trigger_dm a x s) = hv s" "hv (trigger_em d i s) = hv s" "hv (trigger_rm b x s) = hv s" "hv (trigger_tm c i s) = hv s"
  "hv (send m s) = hv s" "hv (sends ms s) = hv s" "hv (log_state e j s) = hv s" "hv (user_op f s) = hv s"
  "hv (drop_task aid tid s) = hv s" "hv (put i k s) = hv s" "hv (to_mad r s) = hv s" "hv (epilog_signal i k xf s) = hv s"
  by (simp_all add: hv_def trigger_dm_def trigger_em_def trigger_rm_def trigger_tm_def send_def sends_def log_state_def user_op_def
      drop_task_def put_def to_mad_def epilog_signal_def Let_def split: option.split prod.split)

section \<open>The handlers of one job\<close>

definition hkeeps :: "gwd \<Rightarrow> gwd option \<Rightarrow> bool" where
  "hkeeps s r \<longleftrightarrow> (\<forall>s'. r = Some s' \<longrightarrow> hv s' = hv s)"

lemma hkeeps_simps [simp]: "hkeeps s None" "hkeeps s (Some s') = (hv s' = hv s)"
  by (simp_all add: hkeeps_def)

lemma hkeepsD: "hkeeps s r \<Longrightarrow> r = Some s' \<Longrightarrow> hv s' = hv s"
  by (simp add: hkeeps_def)

lemma hkeeps_with_job:
  assumes "\<And>i. hv (missing i s) = hv s" and "\<And>i j. get_job s i = Some j \<Longrightarrow> hkeeps s (body i j s)"
  shows "hkeeps s (with_job missing body a s)"
  using assms by (auto simp: with_job_def split: option.splits)

lemma hv_missing [simp]: "hv (no_job i s) = hv s" "hv (refuse a i s) = hv s"
  by (simp_all add: no_job_def refuse_def)

lemma hkeeps_host:
  "counters_only f \<Longrightarrow> (\<And>s2. hv s2 = hv s1 \<Longrightarrow> hkeeps s (g s2)) \<Longrightarrow> hkeeps s (host_op f p s1 \<bind> g)"
  by (cases "host_op f p s1") (auto dest: hv_host_op)

lemma hkeeps_host_last: "counters_only f \<Longrightarrow> hv s1 = hv s \<Longrightarrow> hkeeps s (host_op f p s1)"
  unfolding hkeeps_def using hv_host_op by metis

lemma hkeeps_bind: "(\<And>x. hkeeps s (g x)) \<Longrightarrow> hkeeps s (m \<bind> g)"
  by (cases m) auto

lemma hkeeps_cases:
  "(b \<Longrightarrow> hkeeps s x) \<Longrightarrow> (\<not> b \<Longrightarrow> hkeeps s y) \<Longrightarrow> hkeeps s (if b then x else y)"
  "hkeeps s x \<Longrightarrow> (\<And>v. hkeeps s (g v)) \<Longrightarrow> hkeeps s (case v of None \<Rightarrow> x | Some v \<Rightarrow> g v)"
  "(\<And>x y. q = (x, y) \<Longrightarrow> hkeeps s (h x y)) \<Longrightarrow> hkeeps s (case q of (x, y) \<Rightarrow> h x y)"
  "hkeeps s x \<Longrightarrow> (\<And>v vs. hkeeps s (l v vs)) \<Longrightarrow> hkeeps s (case w of [] \<Rightarrow> x | v # vs \<Rightarrow> l v vs)"
  by (auto split: option.split prod.split list.split)

lemma hkeeps_state:
  assumes "hkeeps s f1" and "hkeeps s f2" and "hkeeps s f3" and "hkeeps s f4" and "hkeeps s f5" and "hkeeps s f6"
    and "hkeeps s f7" and "hkeeps s f8" and "hkeeps s f9" and "hkeeps s f10" and "hkeeps s f11" and "hkeeps s f12"
    and "hkeeps s f13" and "hkeeps s f14" and "hkeeps s f15" and "hkeeps s f16" and "hkeeps s f17" and "hkeeps s f18"
    and "hkeeps s f19" and "hkeeps s f20" and "hkeeps s f21"
  shows "hkeeps s (case_gw_job_state f1 f2 f3 f4 f5 f6 f7 f8 f9 f10 f11 f12 f13 f14 f15 f16 f17 f18 f19 f20 f21 st)"
  using assms by (cases st) simp_all

lemma hkeeps_enter:
  "(\<And>k s2. hv s2 = hv s1 \<Longrightarrow> hkeeps s (g (k, s2))) \<Longrightarrow> hkeeps s (enter_epilog e st j s1 \<bind> g)"
  by (auto simp: enter_epilog_def gw_job_set_state_def upd_top_def split: list.splits)

lemma hv_free [simp]: "hv (gw_job_pool_free e i s) = hv s"
  by (rule hv_same) (auto simp: gw_job_pool_free_def Let_def split: option.split)

lemma hv_dep_release [simp]: "hv (dep_release e i s) = hv s"
  by (auto simp: dep_release_def gw_job_set_state_def Let_def split: option.split)

lemma hv_dep_row: "hv (dep_check_row e i n s) = hv s"
proof -
  have d: "hv (s\<lparr>gd_deps := d\<rparr>) = hv s" for d by (simp add: hv_def)
  show ?thesis
    by (cases "gd_deps s ! n") (simp_all add: dep_check_row_def Let_def d split: prod.split)
qed

lemma hv_dep_check [simp]: "hv (gw_job_pool_dep_check e i s) = hv s"
proof -
  have "hv (fold (dep_check_row e i) xs s) = hv s" for xs by (induction xs arbitrary: s) (simp_all add: hv_dep_row)
  then show ?thesis by (simp add: gw_job_pool_dep_check_def)
qed

lemma hv_if [simp]: "hv (if b then s else s') = (if b then hv s else hv s')"
  by simp

lemma hkeeps_Some: "hv s' = hv s \<Longrightarrow> hkeeps s (Some s')"
  by simp

lemmas hkeeps_rules = hkeeps_cases hkeeps_state hkeeps_host hkeeps_host_last hkeeps_enter hkeeps_bind hkeeps_Some

lemma hkeeps_start:
  "hkeeps s (gw_dm_prolog e a s)" "hkeeps s (gw_dm_migr_prolog e a s)" "hkeeps s (gw_dm_prolog_done_cb e a s)"
  "hkeeps s (gw_dm_prolog_failed_cb e a s)" "hkeeps s (gw_dm_pre_wrapper e a s)" "hkeeps s (gw_dm_wrapper e a s)"
  "hkeeps s (gw_dm_wrapper_done_cb e a s)" "hkeeps s (gw_dm_wrapper_failed_cb e a s)" "hkeeps s (gw_dm_migr_cancel e a s)"
  unfolding gw_dm_prolog_def gw_dm_migr_prolog_def gw_dm_prolog_done_cb_def gw_dm_prolog_failed_cb_def
    gw_dm_pre_wrapper_def gw_dm_wrapper_def gw_dm_wrapper_done_cb_def gw_dm_wrapper_failed_cb_def
    gw_dm_migr_cancel_def body_unfolds
  by (rule hkeeps_with_job, simp, (simp only: body_simps Option.bind_assoc Option.bind.bind_lunit prod.case)?,
      (intro hkeeps_rules; (simp split: option.split prod.split gw_job_state.split; fail)?))+

lemma hkeeps_epilogs:
  "hkeeps s (gw_dm_epilog_std e a s)" "hkeeps s (gw_dm_migr_epilog e a s)" "hkeeps s (gw_dm_stop_epilog e a s)"
  "hkeeps s (gw_dm_kill_epilog e a s)" "hkeeps s (gw_dm_epilog_fail e a s)" "hkeeps s (gw_dm_epilog e a s)"
  "hkeeps s (gw_dm_epilog_restart e a s)" "hkeeps s (gw_dm_epilog_done_cb e a s)" "hkeeps s (gw_dm_epilog_failed_cb e a s)"
  unfolding gw_dm_epilog_std_def gw_dm_migr_epilog_def gw_dm_stop_epilog_def gw_dm_kill_epilog_def
    gw_dm_epilog_fail_def gw_dm_epilog_def gw_dm_epilog_restart_def gw_dm_epilog_done_cb_def
    gw_dm_epilog_failed_cb_def body_unfolds
  by (rule hkeeps_with_job, simp, (simp only: body_simps Option.bind_assoc Option.bind.bind_lunit prod.case)?,
      (intro hkeeps_rules; (simp split: option.split prod.split gw_job_state.split; fail)?))+

lemma hkeeps_ends:
  "hkeeps s (gw_dm_failed e a s)" "hkeeps s (gw_dm_pending e a s)" "hkeeps s (gw_dm_stopped e a s)"
  "hkeeps s (gw_dm_zombie e a s)" "hkeeps s (gw_dm_kill e a s)"
  unfolding gw_dm_failed_def gw_dm_pending_def gw_dm_stopped_def gw_dm_zombie_def
    gw_dm_kill_def body_unfolds
  by (rule hkeeps_with_job, simp, (simp only: body_simps Option.bind_assoc Option.bind.bind_lunit prod.case)?,
      (intro hkeeps_rules; (simp split: option.split prod.split gw_job_state.split; fail)?))+

lemma hkeeps_requests:
  "hkeeps s (gw_dm_hold e a s)" "hkeeps s (gw_dm_release e a s)" "hkeeps s (gw_dm_stop e a s)"
  "hkeeps s (gw_dm_resume e a s)" "hkeeps s (gw_dm_reschedule e a s)" "hkeeps s (gw_dm_wait e a s)"
  unfolding gw_dm_hold_def gw_dm_release_def gw_dm_stop_def gw_dm_resume_def
    gw_dm_reschedule_def gw_dm_wait_def body_unfolds
  by (rule hkeeps_with_job, simp, (simp only: body_simps Option.bind_assoc Option.bind.bind_lunit prod.case)?,
      (intro hkeeps_rules; (simp split: option.split prod.split gw_job_state.split; fail)?))+

lemma hkeeps_reports:
  "hkeeps s (gw_em_pending e a s)" "hkeeps s (gw_em_active e a s)" "hkeeps s (gw_em_suspended e a s)"
  "hkeeps s (gw_em_done e a s)" "hkeeps s (gw_em_failed e a s)"
  unfolding gw_em_pending_def gw_em_active_def gw_em_suspended_def gw_em_done_def
    gw_em_failed_def body_unfolds
  by (rule hkeeps_with_job, simp, (simp only: body_simps Option.bind_assoc Option.bind.bind_lunit prod.case)?,
      (intro hkeeps_rules; (simp split: option.split prod.split gw_job_state.split; fail)?))+

section \<open>Submissions, the periodic check and the scheduler\<close>

lemma hv_fields [simp]: "hv (s\<lparr>gd_jobs := jp\<rparr>) = hv s" "hv (s\<lparr>gd_arrays := ap\<rparr>) = hv s" "hv (s\<lparr>gd_deps := d\<rparr>) = hv s"
  "hv (s\<lparr>gd_users := u\<rparr>) = hv s" "hv (s\<lparr>mark := m\<rparr>) = hv s" "hv (s\<lparr>scheduling := b\<rparr>) = hv s"
  "hv (s\<lparr>em_am := em\<rparr>) = hv s" "hv (s\<lparr>tm_am := tm\<rparr>) = hv s" "hv (s\<lparr>dm_am := dm\<rparr>) = hv s"
  "hv (s\<lparr>rm_am := r, sched_out := q, mad_out := mo\<rparr>) = hv s"
  "hv (s\<lparr>gd_arrays := ap, gd_jobs := jp\<rparr>) = hv s" "hv (s\<lparr>mark := m, scheduling := b\<rparr>) = hv s"
  by (simp_all add: hv_def)

lemma hv_submit [simp]: "hv (answer_submit m rc s) = hv s" "hv (submit_deps m i s) = hv s"
  by (simp_all add: answer_submit_def submit_deps_def)

definition hv_result :: "gwd \<Rightarrow> (gwd + gwd \<times> bool \<times> int) \<Rightarrow> bool" where
  "hv_result s u \<longleftrightarrow> (case u of Inl s1 \<Rightarrow> hv s1 = hv s | Inr (s1, _) \<Rightarrow> hv s1 = hv s)"

lemma hv_user: "submit_user e m s = Some u \<Longrightarrow> hv_result s u"
  unfolding submit_user_def hv_result_def
  by (cases "gw_user_pool_exists (gd_users s) (sm_owner m) (sm_proxy_path m)"; cases "fst (gw_user_pool_exists (gd_users s) (sm_owner m) (sm_proxy_path m))")
    (auto simp: bind_eq_Some_conv Let_def split: if_splits)

lemma hkeeps_user:
  assumes "\<And>s1. hv s1 = hv s \<Longrightarrow> hkeeps s (f s1)" and "\<And>s1 b i. hv s1 = hv s \<Longrightarrow> hkeeps s (g s1 b i)"
  shows "hkeeps s (submit_user e m s \<bind> (\<lambda>u. case u of Inl s1 \<Rightarrow> f s1 | Inr (s1, b, i) \<Rightarrow> g s1 b i))"
  using assms hv_user [of e m s] by (cases "submit_user e m s") (auto simp: hv_result_def split: sum.splits)

lemma hkeeps_jalloc: "hkeeps s (gw_dm_jalloc e m s)"
  unfolding gw_dm_jalloc_def gw_job_set_state_def Let_def
  by (rule hkeeps_user, simp, intro hkeeps_rules) simp_all

lemma hv_aalloc_tasks: "aalloc_tasks e m aid uid ids s = Some s' \<Longrightarrow> hv s' = hv s"
proof (induction ids arbitrary: s)
  case (Cons i ids)
  then obtain s1 where "aalloc_tasks e m aid uid ids s1 = Some s'" "hv s1 = hv s"
    by (auto simp: bind_eq_Some_conv gw_job_set_state_def Let_def split: prod.splits)
  then show ?case using Cons.IH by simp
qed simp

lemma hkeeps_tasks:
  "(\<And>s2. hv s2 = hv s1 \<Longrightarrow> hkeeps s (g s2)) \<Longrightarrow> hkeeps s (aalloc_tasks e m aid uid ids s1 \<bind> g)"
  by (cases "aalloc_tasks e m aid uid ids s1") (auto dest: hv_aalloc_tasks)

lemma hkeeps_aalloc: "hkeeps s (gw_dm_aalloc e m s)"
  unfolding gw_dm_aalloc_def Let_def
  by (rule hkeeps_user, simp, intro hkeeps_tasks hkeeps_rules) simp_all

definition hv_pair :: "gwd \<Rightarrow> (gw_job \<times> gwd) option \<Rightarrow> bool" where
  "hv_pair s r \<longleftrightarrow> (\<forall>k s'. r = Some (k, s') \<longrightarrow> hv s' = hv s)"

lemma hv_suspension: "hv_pair s (gw_dm_check_job_suspension e j s)"
  by (cases "history j")
     (auto simp: hv_pair_def gw_dm_check_job_suspension_def bind_eq_Some_conv hist_top_def upd_top_def split: if_splits)

lemma hv_rescheduling: "hv_pair s (gw_dm_check_job_rescheduling e j s)"
  by (cases "history j")
     (auto simp: hv_pair_def gw_dm_check_job_rescheduling_def bind_eq_Some_conv upd_top_def split: if_splits)

lemma hv_check_job: "gw_dm_check_job e j s = Some (k, s') \<Longrightarrow> hv s' = hv s"
proof -
  have "hv_pair s (m \<bind> (\<lambda>(j, s). gw_dm_check_job_rescheduling e j s))" if "hv_pair s m" for m
    using that hv_rescheduling by (cases m) (auto simp: hv_pair_def)
  from this [OF hv_suspension] have "hv_pair s (gw_dm_check_job e j s)" by (simp add: gw_dm_check_job_def Let_def hv_pair_def)
  then show "gw_dm_check_job e j s = Some (k, s') \<Longrightarrow> hv s' = hv s" by (simp add: hv_pair_def)
qed

lemma hv_check_jobs: "check_jobs e is s = Some s' \<Longrightarrow> hv s' = hv s"
  by (induction "is" arbitrary: s) (auto simp: bind_eq_Some_conv dest!: hv_check_job split: option.splits)

lemma hkeeps_schedule: "hkeeps s (gw_dm_schedule e s)"
  unfolding hkeeps_def gw_dm_schedule_def Let_def
  by (auto simp: bind_eq_Some_conv dest!: hv_check_jobs split: if_splits)

lemma hv_uncheck [simp]: "hv (gw_dm_uncheck_job i s) = hv s"
  by (auto simp: gw_dm_uncheck_job_def split: option.split)

lemma hv_dispatch: "gw_dm_dispatch_job e i hid q r s = Some (s', rc) \<Longrightarrow> hv s' = hv s"
  by (auto simp: gw_dm_dispatch_job_def dispatch_history_def host_inc_slots_def bind_eq_Some_conv Let_def
      dest!: hv_host_op [rotated] split: option.splits if_splits prod.splits)

lemma hv_listener: "gw_dm_listener_line e l s = Some s' \<Longrightarrow> hv s' = hv s"
  by (auto simp: gw_dm_listener_line_def dest: hv_dispatch split: sched_line.splits if_splits option.splits prod.splits)

section \<open>All steps\<close>

lemma hkeeps_handler: "a \<noteq> DM_KILL_HARD \<Longrightarrow> hkeeps s (dm_handler e a arg s)"
  using hkeeps_start hkeeps_epilogs hkeeps_ends hkeeps_requests hkeeps_schedule hkeeps_jalloc hkeeps_aalloc
  by (cases a) (auto simp: dm_handler_def split: am_arg.split)

lemma hkeeps_callback: "hkeeps s (em_callback r e a s)"
  by (cases r) (simp_all add: em_callback_def hkeeps_reports)

lemma hv_release [simp]: "hv (em_release i s) = hv s"
  by (simp add: em_release_def)

lemma hv_core: "gw_core s s' \<Longrightarrow> hv s' = hv s"
proof (erule gw_coreE, goal_cases)
  case (1 a arg rest e)
  then have "a \<noteq> DM_KILL_HARD" by (auto simp: action_ok_def)
  then show ?case using 1 hkeepsD [OF hkeeps_handler [of a _ e arg]] by (simp add: dm_step_def)
next
  case (3 i r e)
  then show ?case using hkeepsD [OF hkeeps_callback] by blast
next
  case (4 i e)
  then show ?case using hkeepsD [OF hkeeps_reports(4)] by fastforce
next
  case (5 i j e)
  then show ?case using hkeepsD [OF hkeeps_reports(5)] by blast
next
  case (6 i j e)
  then show ?case using hkeepsD [OF hkeeps_reports(5)] by fastforce
qed (auto simp: hv_listener)

lemma hv_step: "gw_step s s' \<Longrightarrow> hv s' = hv s"
  by (erule gw_stepE) (simp_all add: hv_core)

lemma hv_steps: "gw_step\<^sup>*\<^sup>* s s' \<Longrightarrow> hv s' = hv s"
  by (induction rule: rtranclp_induct) (auto dest: hv_step)

end
