(* ===== verification/IM_Manager.thy ===== *)
theory IM_Manager
  imports HV_Parse SCH_Lines
begin

text \<open>
  The information manager \<open>src/im\<close>: the information drivers and their registration (\<open>gw_im.c\<close>, \<open>gw_im_mad.c\<close>),
  discoveries, the monitoring of hosts and the timer (\<open>gw_im_actions.c\<close>, \<open>gw_host_pool_monitor_hosts\<close> of
  \<open>src/host/gw_host_pool.c\<close>), and the lines of a driver (\<open>gw_im_listener.c\<close>). The lines that are written are kept with
  the name of the driver. Starting a process is an outcome that is passed in; \<open>None\<close> is undefined behaviour.
\<close>

section \<open>Drivers\<close>

definition GW_IM_MAX_ACTION :: nat where
  "GW_IM_MAX_ACTION = 20"

definition GW_IM_MAX_INFO :: nat where
  "GW_IM_MAX_INFO = 65536"

definition GW_IM_MAX_RESULT :: nat where
  "GW_IM_MAX_RESULT = 10"

definition GW_IM_MAX_HOST_ID :: nat where
  "GW_IM_MAX_HOST_ID = 5"

datatype gw_im_mad_state = GW_IM_MAD_STATE_IDLE | GW_IM_MAD_STATE_DISCOVERING | GW_IM_MAD_STATE_LIMIT

record gw_im_mad =
  im_name :: string
  im_executable :: string
  im_argument :: "string option"
  im_em_mad_name :: string
  im_tm_mad_name :: string
  mad_im_pipe :: int
  im_mad_pipe :: int
  im_mad_state :: gw_im_mad_state

text \<open>
  A line of the configuration, and the configuration. The table ends at the first entry without a name, so the names of
  the entries that are there are no null pointers.
\<close>

record im_mad_conf =
  ic_name :: string
  ic_path :: "string option"
  ic_args :: "string option"
  ic_tm :: "string option"
  ic_em :: "string option"

record im_conf =
  conf_im_mads :: "im_mad_conf list"
  discovery_interval :: int
  monitoring_interval :: int
  max_active_im_queries :: int
  conf_prio :: gw_sch_prio

datatype im_request = IM_DISCOVER string | IM_MONITOR string int string

text \<open>The line that is written, and the driver it is for.\<close>

definition im_request_line :: "im_request \<Rightarrow> string" where
  "im_request_line r =
     (case r of
        IM_DISCOVER n \<Rightarrow> ''DISCOVER - - -'' @ [NL]
      | IM_MONITOR n hid host \<Rightarrow> ''MONITOR '' @ dec hid @ '' '' @ host @ '' -'' @ [NL])"

text \<open>
  The state, with the static variables of \<open>gw_im_timer\<close> and \<open>gw_host_pool_monitor_hosts\<close>; the array of drivers up to
  \<open>registered_mads\<close> is a list.
\<close>

record gw_im =
  im_mads :: "gw_im_mad list"
  active_queries :: int
  last_discovery_time :: int
  im_mark :: int
  last_checked :: int
  im_listening :: bool
  im_out :: "im_request list"

definition gw_im_init :: gw_im where
  "gw_im_init = \<lparr>im_mads = [], active_queries = 0, last_discovery_time = 0, im_mark = 0, last_checked = 0,
     im_listening = True, im_out = []\<rparr>"

text \<open>What comes of a start: no process, a process that does not answer, or one that answers the first line.\<close>

datatype mad_start = NO_PROCESS | NO_ANSWER int int | ANSWER int int string string

definition gw_im_mad_start :: "mad_start \<Rightarrow> gw_im_mad \<Rightarrow> gw_im_mad \<times> int" where
  "gw_im_mad_start st m =
     (case st of
        NO_PROCESS \<Rightarrow> (m, -1)
      | NO_ANSWER w r \<Rightarrow> (m\<lparr>im_mad_pipe := w, mad_im_pipe := r\<rparr>, -1)
      | ANSWER w r action res \<Rightarrow>
          (m\<lparr>im_mad_pipe := w, mad_im_pipe := r\<rparr>, if action = ''INIT'' \<and> res \<noteq> ''FAILURE'' then 0 else -1))"

text \<open>A driver that does not start is finalised again; the place in the array is not taken then.\<close>

definition gw_im_mad_init ::
  "mad_start \<Rightarrow> string option \<Rightarrow> string \<Rightarrow> string option \<Rightarrow> string option \<Rightarrow> string option \<Rightarrow> gw_im_mad option" where
  "gw_im_mad_init st exe name args em tm =
     (case (exe, em, tm) of
        (Some x, Some e, Some t) \<Rightarrow>
          (case gw_im_mad_start st
              \<lparr>im_name = name, im_executable = x, im_argument = args, im_em_mad_name = e, im_tm_mad_name = t,
               mad_im_pipe = 0, im_mad_pipe = 0, im_mad_state = GW_IM_MAD_STATE_IDLE\<rparr> of
             (m, rc) \<Rightarrow> if rc = -1 then None else Some m)
      | _ \<Rightarrow> None)"

text \<open>The names of the other drivers are those of the line of the configuration with the number of the new driver.\<close>

definition gw_im_register_mad ::
  "im_conf \<Rightarrow> mad_start \<Rightarrow> string option \<Rightarrow> string \<Rightarrow> string option \<Rightarrow> gw_im \<Rightarrow> gw_im \<times> int" where
  "gw_im_register_mad conf st exe name arg im =
     (let n = length (im_mads im) in
      if n = GW_MAX_MADS then (im, -1)
      else if name \<in> im_name ` set (im_mads im) then (im, 0)
      else let c = conf_im_mads conf;
               em = (if n < length c then ic_em (c ! n) else None);
               tm = (if n < length c then ic_tm (c ! n) else None) in
        (case gw_im_mad_init st exe name arg em tm of
           None \<Rightarrow> (im, -1)
         | Some m \<Rightarrow> (im\<lparr>im_mads := im_mads im @ [m]\<rparr>, 0)))"

text \<open>The start of the daemon registers the lines of the configuration and exits (\<open>None\<close>) when one of them fails.\<close>

fun gw_register_mads :: "im_conf \<Rightarrow> (im_mad_conf \<times> mad_start) list \<Rightarrow> gw_im \<Rightarrow> gw_im option" where
  "gw_register_mads conf [] im = Some im"
| "gw_register_mads conf ((c, st) # cs) im =
     (case gw_im_register_mad conf st (ic_path c) (ic_name c) (ic_args c) im of
        (im', rc) \<Rightarrow> if rc \<noteq> 0 then None else gw_register_mads conf cs im')"

fun find_mad :: "(gw_im_mad \<Rightarrow> bool) \<Rightarrow> gw_im_mad list \<Rightarrow> nat option" where
  "find_mad P [] = None"
| "find_mad P (m # ms) = (if P m then Some 0 else map_option Suc (find_mad P ms))"

definition gw_im_get_mad_by_name :: "string \<Rightarrow> gw_im \<Rightarrow> nat option" where
  "gw_im_get_mad_by_name n im = find_mad (\<lambda>m. im_name m = n) (im_mads im)"

definition gw_im_get_mad_by_fd :: "int \<Rightarrow> gw_im \<Rightarrow> nat option" where
  "gw_im_get_mad_by_fd fd im = find_mad (\<lambda>m. mad_im_pipe m = fd) (im_mads im)"

text \<open>The pipes that are listened to, the greatest of them, and the number of drivers.\<close>

definition gw_im_set_pipes :: "gw_im \<Rightarrow> int set \<times> int \<times> nat" where
  "gw_im_set_pipes im =
     (let fds = filter (\<lambda>fd. fd \<noteq> -1) (map mad_im_pipe (im_mads im)) in
      (set fds, fold max fds 0, length (im_mads im)))"

section \<open>Actions\<close>

definition gw_im_discover :: "string option \<Rightarrow> gw_im \<Rightarrow> gw_im" where
  "gw_im_discover name im =
     (case name of
        None \<Rightarrow> im
      | Some n \<Rightarrow>
          (case gw_im_get_mad_by_name n im of
             None \<Rightarrow> im
           | Some i \<Rightarrow>
               if im_mad_state (im_mads im ! i) \<noteq> GW_IM_MAD_STATE_IDLE then im
               else im\<lparr>im_mads := (im_mads im)[i := (im_mads im ! i)\<lparr>im_mad_state := GW_IM_MAD_STATE_DISCOVERING\<rparr>],
                       active_queries := active_queries im + 1,
                       im_out := im_out im @ [IM_DISCOVER n]\<rparr>))"

definition gw_im_monitor :: "gw_host \<Rightarrow> gw_im \<Rightarrow> gw_host \<times> gw_im" where
  "gw_im_monitor h im =
     (if host_state h \<noteq> GW_HOST_STATE_DISCOVERED \<and> host_state h \<noteq> GW_HOST_STATE_MONITORED then (h, im)
      else case gw_im_get_mad_by_name (host_im_mad h) im of
        None \<Rightarrow> (h, im)
      | Some i \<Rightarrow>
          (h\<lparr>host_state := GW_HOST_STATE_MONITORING\<rparr>,
           im\<lparr>active_queries := active_queries im + 1,
              im_out := im_out im @ [IM_MONITOR (host_im_mad h) (host_id h) (hostname h)]\<rparr>))"

definition monitoring_due :: "im_conf \<Rightarrow> int \<Rightarrow> gw_host \<Rightarrow> bool" where
  "monitoring_due conf t h \<longleftrightarrow> last_monitoring_time h = 0 \<or> t - last_monitoring_time h \<ge> monitoring_interval conf"

text \<open>The loop over the hosts: \<open>k\<close> of \<open>n\<close> are left, \<open>hid\<close> is the next.\<close>

fun monitor_loop :: "im_conf \<Rightarrow> int \<Rightarrow> nat \<Rightarrow> nat \<Rightarrow> nat \<Rightarrow> gw_im \<Rightarrow> gw_host slots \<Rightarrow> (gw_im \<times> gw_host slots) option" where
  "monitor_loop conf t n 0 hid im hs = Some (im, hs)"
| "monitor_loop conf t n (Suc k) hid im hs =
     (if \<not> active_queries im < max_active_im_queries conf then Some (im, hs)
      else if hid < length hs then
        (case hs ! hid of
           None \<Rightarrow> monitor_loop conf t n k (Suc hid mod n) im hs
         | Some h \<Rightarrow>
             (if monitoring_due conf t h
              then case gw_im_monitor (h\<lparr>last_monitoring_time := t\<rparr>) (im\<lparr>last_checked := int hid\<rparr>) of
                (h', im') \<Rightarrow> monitor_loop conf t n k (Suc hid mod n) im' (hs[hid := Some h'])
              else monitor_loop conf t n k (Suc hid mod n) im hs))
      else None)"

definition gw_host_pool_monitor_hosts :: "im_conf \<Rightarrow> int \<Rightarrow> gw_im \<Rightarrow> host_pool \<Rightarrow> (gw_im \<times> host_pool) option" where
  "gw_host_pool_monitor_hosts conf t im hp =
     (if number_of_hosts hp = 0 then Some (im, hp)
      else map_option (\<lambda>(im', hs). (im', hp\<lparr>hosts := hs\<rparr>))
        (monitor_loop conf t (nat (number_of_hosts hp)) (nat (number_of_hosts hp))
           (nat ((last_checked im + 1) mod number_of_hosts hp)) im (hosts hp)))"

definition gw_im_timer :: "im_conf \<Rightarrow> int \<Rightarrow> gw_im \<Rightarrow> host_pool \<Rightarrow> (gw_im \<times> host_pool) option" where
  "gw_im_timer conf t im hp =
     (let im = im\<lparr>im_mark := (if im_mark im + 5 \<ge> 300 then 0 else im_mark im + 5)\<rparr>;
          im = (if t - last_discovery_time im \<ge> discovery_interval conf
                then fold (\<lambda>c. gw_im_discover (Some (ic_name c))) (take GW_MAX_MADS (conf_im_mads conf))
                       (im\<lparr>last_discovery_time := t\<rparr>)
                else im)
      in gw_host_pool_monitor_hosts conf t im hp)"

section \<open>The lines of a driver\<close>

text \<open>
  The fields of a line; nothing is done with a line of less than three (\<open>Some None\<close>), and a field that fills its
  buffer is undefined.
\<close>

definition im_scan :: "string \<Rightarrow> (string \<times> string \<times> string \<times> string) option option" where
  "im_scan str = do {
     (a, s1) \<leftarrow> scan_field GW_IM_MAX_ACTION str;
     (i, s2) \<leftarrow> scan_field GW_IM_MAX_HOST_ID s1;
     (r, s3) \<leftarrow> scan_field GW_IM_MAX_RESULT s2;
     (if r = [] then Some None
      else map_option (\<lambda>info. Some (a, i, r, info)) (scan_rest GW_IM_MAX_INFO s3)) }"

definition host_put :: "int \<Rightarrow> gw_host \<Rightarrow> gwd \<Rightarrow> gwd" where
  "host_put hid h s = s\<lparr>gd_hosts := (gd_hosts s)\<lparr>hosts := slot_put (hosts (gd_hosts s)) hid (Some h)\<rparr>\<rparr>"

definition im_discovered :: "im_conf \<Rightarrow> gw_im_mad \<Rightarrow> string \<Rightarrow> string \<Rightarrow> gwd \<Rightarrow> gwd option" where
  "im_discovered conf m res info s =
     (if res = ''SUCCESS'' \<and> info \<noteq> []
      then map_option (\<lambda>hp. s\<lparr>gd_hosts := hp\<rparr>)
        (gw_host_pool_update (conf_prio conf) info (im_em_mad_name m) (im_tm_mad_name m) (im_name m) (gd_hosts s))
      else Some s)"

definition im_monitored :: "int \<Rightarrow> string \<Rightarrow> string \<Rightarrow> gwd \<Rightarrow> gwd option" where
  "im_monitored hid res info s =
     (case get_host s hid of
        None \<Rightarrow> Some s
      | Some h \<Rightarrow>
          (if res = ''SUCCESS'' then map_option (\<lambda>(h', ms). sends ms (host_put hid h' s)) (gw_host_update info h)
           else case gw_host_clear_dynamic_info h of (h', m) \<Rightarrow> Some (send m (host_put hid h' s))))"

text \<open>A message for a host that does not exist is logged with a format that takes its number for a string.\<close>

definition gw_im_listener_line :: "im_conf \<Rightarrow> nat \<Rightarrow> string \<Rightarrow> gw_im \<times> gwd \<Rightarrow> (gw_im \<times> gwd) option" where
  "gw_im_listener_line conf i str x =
     (case x of (im, s) \<Rightarrow>
      case im_scan str of
        None \<Rightarrow> None
      | Some None \<Rightarrow> Some (im, s)
      | Some (Some (action, s_host_id, res, info)) \<Rightarrow>
          let hid = (if hd s_host_id \<noteq> CHR ''-'' then atoi s_host_id else -1) in
          if hd s_host_id \<noteq> CHR ''-'' \<and> get_host s hid = None then None
          else if action = ''DISCOVER'' then do {
            let im = im\<lparr>active_queries := active_queries im - 1\<rparr>;
            s \<leftarrow> im_discovered conf (im_mads im ! i) res info s;
            Some (im\<lparr>im_mads := (im_mads im)[i := (im_mads im ! i)\<lparr>im_mad_state := GW_IM_MAD_STATE_IDLE\<rparr>]\<rparr>, s) }
          else if action = ''MONITOR'' then do {
            let im = im\<lparr>active_queries := active_queries im - 1\<rparr>;
            s \<leftarrow> im_monitored hid res info s;
            Some (im, s) }
          else Some (im, s))"

text \<open>A driver whose pipe is closed is started again; what it was asked is not asked again.\<close>

definition gw_im_mad_reload :: "mad_start \<Rightarrow> gw_im_mad \<Rightarrow> gw_im_mad \<times> int" where
  "gw_im_mad_reload st m = gw_im_mad_start st m"

definition gw_im_listener_eof :: "mad_start \<Rightarrow> nat \<Rightarrow> gw_im \<Rightarrow> gw_im" where
  "gw_im_listener_eof st i im =
     (case gw_im_mad_reload st (im_mads im ! i) of (m, rc) \<Rightarrow>
        if rc = 0 then im\<lparr>im_mads := (im_mads im)[i := m]\<rparr>
        else im\<lparr>im_mads := (im_mads im)[i := m\<lparr>mad_im_pipe := -1\<rparr>],
                im_listening := (im_listening im \<and> length (im_mads im) \<noteq> 1)\<rparr>)"

end
