(* ===== verification/IM_System.thy ===== *)
theory IM_System
  imports IM_Frame IM_Manager RC_Account
begin

text \<open>
  The whole daemon with its information manager: the discovery drivers, the timer and the answers of the drivers are
  composed with the steps of the other managers (\<open>sys_step\<close>). The state has, beside the information manager and the
  daemon, the queries that a driver still has to answer.
\<close>

section \<open>What the operations on a host keep\<close>

definition host_core :: "gw_host \<Rightarrow> int \<times> string \<times> string \<times> int \<times> int" where
  "host_core h = (host_id h, hostname h, host_im_mad h, used_slots h, running_jobs h)"

lemma queue_upd_core: "queue_upd i f h = Some h' \<Longrightarrow> host_core h' = host_core h"
  by (auto simp: queue_upd_def host_core_def split: if_splits)

lemma set_var_int_core: "gw_host_set_var_int v i x h = Some h' \<Longrightarrow> host_core h' = host_core h"
  by (cases v) (auto simp: gw_host_set_var_int_def host_core_def split: if_splits dest!: queue_upd_core)

lemma set_var_str_core: "gw_host_set_var_str v i x h = Some h' \<Longrightarrow> host_core h' = host_core h"
  by (cases v) (auto simp: gw_host_set_var_str_def host_core_def split: if_splits dest!: queue_upd_core)

lemma set_var_null_core: "gw_host_set_var_null v i h = Some h' \<Longrightarrow> host_core h' = host_core h"
  using set_var_int_core set_var_str_core by (auto simp: gw_host_set_var_null_def split: if_splits)

lemma set_genvar_core:
  "gw_host_set_genvar_int n i x h = Some h' \<Longrightarrow> host_core h' = host_core h"
  "gw_host_set_genvar_str n i y h = Some h' \<Longrightarrow> host_core h' = host_core h"
  "host_core (gw_host_set_genvar_null n i h) = host_core h"
  by (auto simp: gw_host_set_genvar_int_def gw_host_set_genvar_str_def gw_host_set_genvar_null_def host_core_def Let_def
      split: if_splits option.splits)

lemma asig_value_core: "asig_value l ts h = (Some h', r) \<Longrightarrow> host_core h' = host_core h"
  by (auto simp: asig_value_def asig_int_def asig_str_def asig_null_def
      dest: set_var_int_core set_var_str_core set_var_null_core set_genvar_core(1,2)
      simp: set_genvar_core(3) split: list.splits host_token.splits prod.splits)

lemma update_parse_core: "host_update_parse ts h = Some (h', ok) \<Longrightarrow> host_core h' = host_core h"
proof (induction ts h rule: host_update_parse.induct)
  case (1 ts h)
  show ?case
  proof (cases "ts = [] \<or> asig_target ts = None")
    case True
    then show ?thesis using 1(2) by (auto simp: host_update_parse.simps [of ts] split: if_splits)
  next
    case False
    then obtain l ts' where t: "ts \<noteq> []" "asig_target ts = Some (l, ts')" by auto
    obtain x r where v: "asig_value l ts' h = (x, r)" by fastforce
    then obtain k where k: "x = Some k" using 1(2) t v by (cases x) (auto simp: host_update_parse.simps [of ts])
    then have "host_update_parse r k = Some (h', ok)" using 1(2) t v by (simp add: host_update_parse.simps [of ts])
    then have "host_core h' = host_core k" using 1(1) [OF t refl v [symmetric] k] by simp
    then show ?thesis using asig_value_core v k by simp
  qed
qed

lemma host_core_state [simp]: "host_core (h\<lparr>host_state := st\<rparr>) = host_core h" "host_core (h\<lparr>last_monitoring_time := t\<rparr>) = host_core h"
  by (simp_all add: host_core_def)

lemma host_update_core:
  assumes "gw_host_update info h = Some (h', ms)"
  shows "host_core h' = host_core h" "host_state h' \<noteq> GW_HOST_STATE_MONITORING"
proof -
  obtain k rc where k: "gw_host_update_attr info h = Some (k, rc)"
    using assms by (auto simp: gw_host_update_def bind_eq_Some_conv)
  then have "host_core k = host_core h"
    using update_parse_core by (auto simp: gw_host_update_attr_def)
  then show "host_core h' = host_core h" "host_state h' \<noteq> GW_HOST_STATE_MONITORING"
    using assms k by (auto simp: gw_host_update_def bind_eq_Some_conv Let_def dest!: queue_upd_core split: if_splits)
qed

section \<open>The pool\<close>

text \<open>Hosts are never freed: they fill the pool from its beginning, and each has its place as its identifier.\<close>

definition packed :: "host_pool \<Rightarrow> bool" where
  "packed hp \<longleftrightarrow> 0 \<le> number_of_hosts hp \<and> number_of_hosts hp \<le> int (length (hosts hp)) \<and>
     last_host_id hp = number_of_hosts hp - 1 \<and> (\<forall>i. i < length (hosts hp) \<longrightarrow> (hosts hp ! i \<noteq> None) = (int i < number_of_hosts hp)) \<and>
     (\<forall>hid h. slot_get (hosts hp) hid = Some h \<longrightarrow> host_id h = hid)"

definition monitoring :: "host_pool \<Rightarrow> int set" where
  "monitoring hp = {hid. \<exists>h. slot_get (hosts hp) hid = Some h \<and> host_state h = GW_HOST_STATE_MONITORING}"

text \<open>The hosts stay, those that come are not monitored, and the state of monitoring stays.\<close>

definition slot_grows :: "gw_host option \<Rightarrow> gw_host option \<Rightarrow> bool" where
  "slot_grows x y \<longleftrightarrow>
     (case y of
        None \<Rightarrow> x = None
      | Some h' \<Rightarrow>
          (case x of
             None \<Rightarrow> host_state h' \<noteq> GW_HOST_STATE_MONITORING \<and> used_slots h' = 0 \<and> running_jobs h' = 0
           | Some h \<Rightarrow> host_core h' = host_core h \<and>
               (host_state h' = GW_HOST_STATE_MONITORING) = (host_state h = GW_HOST_STATE_MONITORING)))"

definition pool_grows :: "host_pool \<Rightarrow> host_pool \<Rightarrow> bool" where
  "pool_grows hp hp' \<longleftrightarrow> (\<forall>hid. slot_grows (slot_get (hosts hp) hid) (slot_get (hosts hp') hid))"

lemma slot_grows_refl [simp]: "slot_grows x x"
  by (simp add: slot_grows_def split: option.split)

lemma slot_grows_trans: "slot_grows x y \<Longrightarrow> slot_grows y z \<Longrightarrow> slot_grows x z"
  by (cases x; cases y; cases z) (simp_all add: slot_grows_def host_core_def)

lemma pool_grows_refl [simp]: "pool_grows hp hp"
  by (simp add: pool_grows_def)

lemma pool_grows_trans: "pool_grows p q \<Longrightarrow> pool_grows q r \<Longrightarrow> pool_grows p r"
  unfolding pool_grows_def using slot_grows_trans by blast

lemma pool_grows_monitoring:
  assumes "pool_grows hp hp'"
  shows "monitoring hp' = monitoring hp"
proof (rule set_eqI)
  fix x
  have "slot_grows (slot_get (hosts hp) x) (slot_get (hosts hp') x)" using assms by (simp add: pool_grows_def)
  then show "x \<in> monitoring hp' \<longleftrightarrow> x \<in> monitoring hp"
    by (auto simp: monitoring_def slot_grows_def split: option.splits)
qed

lemma pool_put_grows:
  assumes "slot_get (hosts hp) hid = Some h" and "host_core h' = host_core h"
    and "(host_state h' = GW_HOST_STATE_MONITORING) = (host_state h = GW_HOST_STATE_MONITORING)"
  shows "pool_grows hp (hp\<lparr>hosts := slot_put (hosts hp) hid (Some h')\<rparr>)"
  using assms by (simp add: pool_grows_def slot_grows_def split: option.split)

lemma packed_put:
  assumes p: "packed hp" and g: "slot_get (hosts hp) hid = Some h" and i: "host_id h' = host_id h"
  shows "packed (hp\<lparr>hosts := slot_put (hosts hp) hid (Some h')\<rparr>)"
proof -
  have "0 \<le> hid" "nat hid < length (hosts hp)" "hosts hp ! nat hid = Some h"
    using g by (auto simp: slot_get_def split: if_splits)
  moreover have "host_id h = hid" using p g by (simp add: packed_def)
  ultimately show ?thesis using p i g
    by (auto simp: packed_def slot_put_def nth_list_update) (metis slot_get_put_Some slot_put_def option.inject)+
qed

lemma init_fields: "host_state (gw_host_init n hid pr em tm im) = GW_HOST_STATE_DISCOVERED"
  "used_slots (gw_host_init n hid pr em tm im) = 0" "running_jobs (gw_host_init n hid pr em tm im) = 0"
  "host_id (gw_host_init n hid pr em tm im) = hid"
  by (simp_all add: gw_host_init_def)

lemma packed_allocate:
  assumes p: "packed hp" and r: "gw_host_pool_host_allocate n pr em tm im hp = Some (hp', hid)"
  shows "packed hp' \<and> pool_grows hp hp'"
proof (cases "None \<in> set (hosts hp)")
  case False
  then have "hosts hp \<noteq> []" using r host_allocate_empty by auto
  then have "hp' = hp" using host_allocate_cases [of hp n pr em tm im] False r by (auto simp: in_set_conv_nth)
  then show ?thesis using p by simp
next
  case True
  let ?k = "nat (number_of_hosts hp)"
  have l: "?k < length (hosts hp)" "0 \<le> number_of_hosts hp" "last_host_id hp = number_of_hosts hp - 1"
    using p True by (auto simp: packed_def in_set_conv_nth)
  have "(hosts hp ! ?k \<noteq> None) = (int ?k < number_of_hosts hp)" using p l(1) unfolding packed_def by blast
  then have free: "hosts hp ! ?k = None" using l(2) by simp
  have "find_slot (last_host_id hp) (hosts hp) = Some (scan_free (length (hosts hp)) (hosts hp) ?k)"
    using l True by (simp add: find_slot_def zmod_trivial_iff) (auto simp: mod_pos_pos_trivial nat_less_iff)
  also have "scan_free (length (hosts hp)) (hosts hp) ?k = Some ?k"
    using l(1) free by (cases "length (hosts hp)") auto
  finally have hp': "hp' = hp\<lparr>hosts := (hosts hp)[?k := Some (gw_host_init n (int ?k) pr em tm im)],
      last_host_id := int ?k, number_of_hosts := number_of_hosts hp + 1\<rparr>"
    using r l(2) by (auto simp: gw_host_pool_host_allocate_def)
  have g: "slot_get (hosts hp') x = (if x = int ?k then Some (gw_host_init n x pr em tm im) else slot_get (hosts hp) x)" for x
    using l by (auto simp: hp' slot_get_def nth_list_update nat_eq_iff)
  have n: "slot_get (hosts hp) (int ?k) = None" using free l by (simp add: slot_get_def)
  have "slot_grows (slot_get (hosts hp) x) (slot_get (hosts hp') x)" for x
    using n by (cases "x = int ?k") (simp_all add: g slot_grows_def init_fields split: option.split)
  then have "pool_grows hp hp'" by (simp add: pool_grows_def)
  moreover have "packed hp'"
    using p l g unfolding packed_def
    by (auto simp: hp' nth_list_update init_fields split: if_splits)
  ultimately show ?thesis by simp
qed

lemma update_one_grows:
  assumes "packed hp" and r: "host_pool_update_one conf em tm im n hp = Some hp'"
  shows "packed hp' \<and> pool_grows hp hp'"
proof (cases "gw_host_pool_search hp n")
  case None
  then obtain p hid where a: "gw_host_pool_host_allocate n (gw_sch_get_host_priority conf n im) em tm im hp = Some (p, hid)"
    and b: "(case gw_host_pool_get_host p hid of None \<Rightarrow> Some p
        | Some h \<Rightarrow> Some (p\<lparr>hosts := slot_put (hosts p) hid (Some (h\<lparr>last_monitoring_time := 0\<rparr>))\<rparr>)) = Some hp'"
    using r by (auto simp: host_pool_update_one_def bind_eq_Some_conv)
  have g: "packed p" "pool_grows hp p" using packed_allocate [OF assms(1) a] by simp_all
  show ?thesis
  proof (cases "gw_host_pool_get_host p hid")
    case (Some h)
    then have s: "slot_get (hosts p) hid = Some h" by (simp add: gw_host_pool_get_host_def)
    have "pool_grows p (p\<lparr>hosts := slot_put (hosts p) hid (Some (h\<lparr>last_monitoring_time := 0\<rparr>))\<rparr>)"
      by (rule pool_put_grows [OF s]) simp_all
    moreover have "packed (p\<lparr>hosts := slot_put (hosts p) hid (Some (h\<lparr>last_monitoring_time := 0\<rparr>))\<rparr>)"
      by (rule packed_put [OF g(1) s]) simp
    ultimately show ?thesis using b Some pool_grows_trans [OF g(2)] by auto
  qed (use b g in auto)
next
  case (Some hid)
  then obtain h where h: "slot_get (hosts hp) hid = Some h" and c: "hp' = hp \<or>
      host_state h = GW_HOST_STATE_UNKNOWN \<and> hp' = hp\<lparr>hosts := slot_put (hosts hp) hid (Some (h\<lparr>host_state := GW_HOST_STATE_DISCOVERED\<rparr>))\<rparr>"
    using r by (auto simp: host_pool_update_one_def gw_host_pool_get_host_def split: option.splits if_splits)
  from c show ?thesis
  proof
    assume "host_state h = GW_HOST_STATE_UNKNOWN \<and>
      hp' = hp\<lparr>hosts := slot_put (hosts hp) hid (Some (h\<lparr>host_state := GW_HOST_STATE_DISCOVERED\<rparr>))\<rparr>"
    then show ?thesis using pool_put_grows [OF h] packed_put [OF assms(1) h] by simp
  qed (simp add: assms(1))
qed

lemma update_list_grows:
  "host_pool_update_list conf em tm im ns hp = Some hp' \<Longrightarrow> packed hp \<Longrightarrow> packed hp' \<and> pool_grows hp hp'"
proof (induction ns arbitrary: hp)
  case (Cons n ns)
  then obtain p where "host_pool_update_one conf em tm im n hp = Some p" "host_pool_update_list conf em tm im ns p = Some hp'"
    by (auto simp: bind_eq_Some_conv)
  then show ?case using update_one_grows [OF Cons.prems(2)] Cons.IH pool_grows_trans by blast
qed simp

text \<open>What the rest of the daemon sees of the hosts, which the information manager does not change.\<close>

definition core_grows :: "gw_host option \<Rightarrow> gw_host option \<Rightarrow> bool" where
  "core_grows x y \<longleftrightarrow>
     (case y of
        None \<Rightarrow> x = None
      | Some h' \<Rightarrow>
          (case x of None \<Rightarrow> used_slots h' = 0 \<and> running_jobs h' = 0 | Some h \<Rightarrow> host_core h' = host_core h))"

definition pool_core :: "host_pool \<Rightarrow> host_pool \<Rightarrow> bool" where
  "pool_core hp hp' \<longleftrightarrow> (\<forall>hid. core_grows (slot_get (hosts hp) hid) (slot_get (hosts hp') hid))"

lemma core_grows_refl [simp]: "core_grows x x"
  by (simp add: core_grows_def split: option.split)

lemma pool_core_refl [simp]: "pool_core hp hp"
  by (simp add: pool_core_def)

lemma pool_core_trans: "pool_core p q \<Longrightarrow> pool_core q r \<Longrightarrow> pool_core p r"
proof -
  have "core_grows x y \<Longrightarrow> core_grows y z \<Longrightarrow> core_grows x z" for x y z
    by (cases x; cases y; cases z) (simp_all add: core_grows_def host_core_def)
  then show "pool_core p q \<Longrightarrow> pool_core q r \<Longrightarrow> pool_core p r" unfolding pool_core_def by blast
qed

lemma pool_grows_core: "pool_grows hp hp' \<Longrightarrow> pool_core hp hp'"
  by (force simp: pool_grows_def pool_core_def slot_grows_def core_grows_def split: option.splits)

lemma pool_core_put:
  assumes "slot_get (hosts hp) hid = Some h" and "host_core h' = host_core h"
  shows "pool_core hp (hp\<lparr>hosts := slot_put (hosts hp) hid (Some h')\<rparr>)"
  using assms by (simp add: pool_core_def core_grows_def split: option.split)

lemma pool_core_hosts: "pool_core (gd_hosts s) hp \<Longrightarrow> hosts_grow s (s\<lparr>gd_hosts := hp\<rparr>)"
  unfolding hosts_grow_def
proof (intro conjI allI impI)
  fix h
  assume c: "pool_core (gd_hosts s) hp"
  have g: "core_grows (get_host s h) (get_host (s\<lparr>gd_hosts := hp\<rparr>) h)"
    using c by (simp add: pool_core_def get_host_def gw_host_pool_get_host_def)
  { assume "get_host s h \<noteq> None"
    then show "get_host (s\<lparr>gd_hosts := hp\<rparr>) h \<noteq> None" "rjobs (s\<lparr>gd_hosts := hp\<rparr>) h = rjobs s h"
      "uslots (s\<lparr>gd_hosts := hp\<rparr>) h = uslots s h"
      using g by (auto simp: core_grows_def rjobs_def uslots_def host_core_def split: option.splits) }
  { assume "get_host s h = None"
    then show "rjobs (s\<lparr>gd_hosts := hp\<rparr>) h = 0" "uslots (s\<lparr>gd_hosts := hp\<rparr>) h = 0"
      using g by (auto simp: core_grows_def rjobs_def uslots_def split: option.splits) }
qed simp_all

section \<open>The invariant\<close>

definition discovering :: "gw_im \<Rightarrow> nat set" where
  "discovering im = {i. i < length (im_mads im) \<and> im_mad_state (im_mads im ! i) = GW_IM_MAD_STATE_DISCOVERING}"

fun query_driver :: "im_request \<Rightarrow> string" where
  "query_driver (IM_DISCOVER n) = n"
| "query_driver (IM_MONITOR n hid host) = n"

definition query_ok :: "gw_im \<Rightarrow> host_pool \<Rightarrow> im_request \<Rightarrow> bool" where
  "query_ok im hp r =
     (case r of
        IM_DISCOVER n \<Rightarrow> \<exists>i\<in>discovering im. im_name (im_mads im ! i) = n
      | IM_MONITOR n hid host \<Rightarrow> \<exists>h. slot_get (hosts hp) hid = Some h \<and> host_state h = GW_HOST_STATE_MONITORING \<and>
          host_im_mad h = n \<and> hostname h = host)"

text \<open>The queries in the list \<open>q\<close> are those that a driver will answer.\<close>

definition im_inv :: "im_conf \<Rightarrow> gw_im \<Rightarrow> host_pool \<Rightarrow> im_request list \<Rightarrow> bool" where
  "im_inv conf im hp q \<longleftrightarrow> distinct (map im_name (im_mads im)) \<and> packed hp \<and>
     active_queries im = int (card (discovering im)) + int (card (monitoring hp)) \<and>
     int (card (monitoring hp)) \<le> max 0 (max_active_im_queries conf) \<and>
     distinct q \<and> (\<forall>r\<in>set q. query_ok im hp r)"

lemma find_mad_Some: "find_mad P ms = Some i \<Longrightarrow> i < length ms \<and> P (ms ! i)"
  by (induction ms arbitrary: i) (auto split: if_splits)

lemma find_mad_None: "find_mad P ms = None \<longleftrightarrow> (\<forall>m\<in>set ms. \<not> P m)"
  by (induction ms) auto

lemma finite_queries [simp]: "finite (discovering im)" "finite (monitoring hp)"
proof -
  show "finite (discovering im)" by (simp add: discovering_def)
  have "monitoring hp \<subseteq> {0..<int (length (hosts hp))}"
    by (auto simp: monitoring_def slot_get_def split: if_splits)
  then show "finite (monitoring hp)" using finite_subset by blast
qed

text \<open>Setting the state of a driver.\<close>

definition set_mad :: "nat \<Rightarrow> gw_im_mad_state \<Rightarrow> gw_im \<Rightarrow> gw_im" where
  "set_mad i st im = im\<lparr>im_mads := (im_mads im)[i := (im_mads im ! i)\<lparr>im_mad_state := st\<rparr>]\<rparr>"

lemma set_mad_facts:
  assumes "i < length (im_mads im)"
  shows "map im_name (im_mads (set_mad i st im)) = map im_name (im_mads im)"
    "im_name (im_mads (set_mad i st im) ! k) = im_name (im_mads im ! k)"
    "discovering (set_mad i st im) =
       (if st = GW_IM_MAD_STATE_DISCOVERING then insert i (discovering im) else discovering im - {i})"
    "active_queries (set_mad i st im) = active_queries im" "im_out (set_mad i st im) = im_out im"
    "length (im_mads (set_mad i st im)) = length (im_mads im)"
  using assms by (auto simp: set_mad_def discovering_def nth_list_update map_update intro: nth_equalityI)

lemma query_ok_fields [simp]:
  "query_ok (im\<lparr>active_queries := a\<rparr>) hp r = query_ok im hp r" "query_ok (im\<lparr>im_out := x\<rparr>) hp r = query_ok im hp r"
  "query_ok (im\<lparr>last_checked := c\<rparr>) hp r = query_ok im hp r"
  "discovering (im\<lparr>active_queries := a\<rparr>) = discovering im" "discovering (im\<lparr>im_out := x\<rparr>) = discovering im"
  "discovering (im\<lparr>last_checked := c\<rparr>) = discovering im"
  by (simp_all add: query_ok_def discovering_def split: im_request.split)

section \<open>Discoveries\<close>

lemma discover_eq:
  "gw_im_discover name im =
     (case name of None \<Rightarrow> im
      | Some n \<Rightarrow> (case gw_im_get_mad_by_name n im of None \<Rightarrow> im
          | Some i \<Rightarrow> if im_mad_state (im_mads im ! i) \<noteq> GW_IM_MAD_STATE_IDLE then im
              else (set_mad i GW_IM_MAD_STATE_DISCOVERING im)
                \<lparr>active_queries := active_queries im + 1, im_out := im_out im @ [IM_DISCOVER n]\<rparr>))"
  by (simp add: gw_im_discover_def set_mad_def split: option.split)

lemma discover_inv:
  assumes inv: "im_inv conf im hp q"
  shows "\<exists>new. im_out (gw_im_discover name im) = im_out im @ new \<and> im_inv conf (gw_im_discover name im) hp (q @ new)"
proof (cases "gw_im_discover name im = im")
  case True
  then show ?thesis using inv by (intro exI [of _ "[]"]) simp
next
  case False
  then obtain n i where n: "name = Some n" and f: "gw_im_get_mad_by_name n im = Some i"
      and idle: "im_mad_state (im_mads im ! i) = GW_IM_MAD_STATE_IDLE"
    by (auto simp: discover_eq split: option.splits if_splits)
  let ?im = "set_mad i GW_IM_MAD_STATE_DISCOVERING im"
  have e: "gw_im_discover name im = ?im\<lparr>active_queries := active_queries im + 1, im_out := im_out im @ [IM_DISCOVER n]\<rparr>"
    by (simp add: discover_eq n f idle)
  have i: "i < length (im_mads im)" "im_name (im_mads im ! i) = n"
    using find_mad_Some f by (auto simp: gw_im_get_mad_by_name_def)
  have notin: "i \<notin> discovering im" using idle by (simp add: discovering_def)
  have d: "distinct (map im_name (im_mads im))" using inv by (simp add: im_inv_def)
  have "\<not> query_ok im hp (IM_DISCOVER n)"
  proof
    assume "query_ok im hp (IM_DISCOVER n)"
    then obtain k where k: "k \<in> discovering im" "im_name (im_mads im ! k) = n" by (auto simp: query_ok_def)
    then have "k = i" using d i by (auto simp: discovering_def distinct_conv_nth)
    then show False using k notin by simp
  qed
  then have new: "IM_DISCOVER n \<notin> set q" using inv by (auto simp: im_inv_def)
  have "query_ok ?im hp r" if "query_ok im hp r" for r
    using that by (auto simp: query_ok_def set_mad_facts [OF i(1)] split: im_request.splits)
  moreover have "query_ok ?im hp (IM_DISCOVER n)"
    by (auto simp: query_ok_def set_mad_facts [OF i(1)] i)
  ultimately have "im_inv conf (gw_im_discover name im) hp (q @ [IM_DISCOVER n])"
    using inv new notin unfolding im_inv_def e by (simp add: set_mad_facts [OF i(1)])
  then show ?thesis by (intro exI [of _ "[IM_DISCOVER n]"]) (simp add: e)
qed

lemma discover_all_inv:
  "im_inv conf im hp q \<Longrightarrow>
     \<exists>new. im_out (fold (\<lambda>c. gw_im_discover (Some (f c))) cs im) = im_out im @ new \<and>
       im_inv conf (fold (\<lambda>c. gw_im_discover (Some (f c))) cs im) hp (q @ new)"
proof (induction cs arbitrary: im q)
  case (Cons c cs)
  obtain new where n: "im_out (gw_im_discover (Some (f c)) im) = im_out im @ new"
      "im_inv conf (gw_im_discover (Some (f c)) im) hp (q @ new)"
    using discover_inv [OF Cons.prems] by blast
  then show ?case using Cons.IH [OF n(2)] by auto
qed (auto intro: exI [of _ "[]"])

section \<open>Monitoring\<close>

lemma monitor_core: "host_core (fst (gw_im_monitor h im)) = host_core h"
  by (simp add: gw_im_monitor_def split: option.split)

lemma monitor_cases:
  assumes "gw_im_monitor h im = (h', im')"
  shows "h' = h \<and> im' = im \<or> host_state h \<noteq> GW_HOST_STATE_MONITORING \<and> h' = h\<lparr>host_state := GW_HOST_STATE_MONITORING\<rparr> \<and>
    im' = im\<lparr>active_queries := active_queries im + 1,
      im_out := im_out im @ [IM_MONITOR (host_im_mad h) (host_id h) (hostname h)]\<rparr>"
proof (cases "host_state h \<noteq> GW_HOST_STATE_DISCOVERED \<and> host_state h \<noteq> GW_HOST_STATE_MONITORED")
  case False
  then show ?thesis using assms by (cases "gw_im_get_mad_by_name (host_im_mad h) im") (auto simp: gw_im_monitor_def)
qed (use assms in \<open>simp add: gw_im_monitor_def\<close>)

lemma monitoring_put:
  assumes "slot_get (hosts hp) hid = Some h"
  shows "monitoring (hp\<lparr>hosts := slot_put (hosts hp) hid (Some h')\<rparr>) =
    (if host_state h' = GW_HOST_STATE_MONITORING then insert hid (monitoring hp) else monitoring hp - {hid})"
  using assms by (auto simp: monitoring_def split: if_splits)

lemma query_ok_put:
  assumes "slot_get (hosts hp) hid = Some h" and "host_core h' = host_core h"
    and "host_state h = GW_HOST_STATE_MONITORING \<longrightarrow> host_state h' = GW_HOST_STATE_MONITORING"
    and "query_ok im hp r"
  shows "query_ok im (hp\<lparr>hosts := slot_put (hosts hp) hid (Some h')\<rparr>) r"
  using assms by (cases r) (auto simp: query_ok_def host_core_def)

text \<open>One host is looked at.\<close>

lemma monitor_inv:
  assumes inv: "im_inv conf im hp q" and room: "active_queries im < max_active_im_queries conf"
    and g: "slot_get (hosts hp) hid = Some h"
    and m: "gw_im_monitor (h\<lparr>last_monitoring_time := t\<rparr>) (im\<lparr>last_checked := c\<rparr>) = (h', im')"
  shows "\<exists>new. im_out im' = im_out im @ new \<and> im_inv conf im' (hp\<lparr>hosts := slot_put (hosts hp) hid (Some h')\<rparr>) (q @ new)"
proof -
  let ?hp = "hp\<lparr>hosts := slot_put (hosts hp) hid (Some h')\<rparr>"
  have c: "host_core h' = host_core h" using monitor_core [of "h\<lparr>last_monitoring_time := t\<rparr>" "im\<lparr>last_checked := c\<rparr>"] m by simp
  have pk: "packed ?hp" using inv packed_put [OF _ g, of h'] c by (simp add: im_inv_def host_core_def)
  consider (same) "h' = h\<lparr>last_monitoring_time := t\<rparr>" "im' = im\<lparr>last_checked := c\<rparr>"
    | (asked) "host_state h \<noteq> GW_HOST_STATE_MONITORING" "host_state h' = GW_HOST_STATE_MONITORING"
        "im' = im\<lparr>last_checked := c, active_queries := active_queries im + 1,
           im_out := im_out im @ [IM_MONITOR (host_im_mad h) (host_id h) (hostname h)]\<rparr>"
  proof -
    from monitor_cases [OF m] show thesis
    proof (elim disjE conjE)
      assume "h' = h\<lparr>last_monitoring_time := t\<rparr>" and "im' = im\<lparr>last_checked := c\<rparr>"
      then show thesis by (rule same)
    next
      assume a: "host_state (h\<lparr>last_monitoring_time := t\<rparr>) \<noteq> GW_HOST_STATE_MONITORING"
        "h' = h\<lparr>last_monitoring_time := t\<rparr>\<lparr>host_state := GW_HOST_STATE_MONITORING\<rparr>"
        "im' = im\<lparr>last_checked := c\<rparr>\<lparr>active_queries := active_queries (im\<lparr>last_checked := c\<rparr>) + 1,
          im_out := im_out (im\<lparr>last_checked := c\<rparr>) @ [IM_MONITOR (host_im_mad (h\<lparr>last_monitoring_time := t\<rparr>))
            (host_id (h\<lparr>last_monitoring_time := t\<rparr>)) (hostname (h\<lparr>last_monitoring_time := t\<rparr>))]\<rparr>"
      have "host_state h \<noteq> GW_HOST_STATE_MONITORING" using a(1) by simp
      moreover have "host_state h' = GW_HOST_STATE_MONITORING" by (simp add: a(2))
      ultimately show thesis by (rule asked) (simp add: a(3))
    qed
  qed
  then show ?thesis
  proof cases
    case same
    have "monitoring ?hp = monitoring hp" using g by (auto simp: monitoring_put [OF g] same(1)) (auto simp: monitoring_def)
    moreover have "query_ok im ?hp r" if "query_ok im hp r" for r
      by (rule query_ok_put [OF g c _ that]) (simp add: same(1))
    ultimately show ?thesis using inv pk
      by (intro exI [of _ "[]"]) (simp add: im_inv_def same(2))
  next
    case asked
    let ?r = "IM_MONITOR (host_im_mad h) (host_id h) (hostname h)"
    have hid: "host_id h = hid" using inv g by (simp add: im_inv_def packed_def)
    have ns: "hid \<notin> monitoring hp" using g asked(1) by (simp add: monitoring_def)
    then have mon: "int (card (monitoring ?hp)) = int (card (monitoring hp)) + 1"
      by (simp add: monitoring_put [OF g] asked(2))
    have le: "int (card (monitoring hp)) \<le> active_queries im" using inv by (simp add: im_inv_def)
    have "\<not> query_ok im hp ?r" using g asked(1) hid by (simp add: query_ok_def)
    then have new: "?r \<notin> set q" using inv by (auto simp: im_inv_def)
    have "query_ok im ?hp r" if "query_ok im hp r" for r
      by (rule query_ok_put [OF g c _ that]) (simp add: asked(2))
    moreover have "query_ok im ?hp ?r" using g c asked(2) hid by (simp add: query_ok_def host_core_def)
    ultimately have "im_inv conf im' ?hp (q @ [?r])"
      using inv pk mon new room le by (simp add: im_inv_def asked(3) max_def split: if_splits)
    then show ?thesis by (intro exI [of _ "[?r]"]) (simp add: asked(3))
  qed
qed

lemma slot_put_nat: "slot_put p (int i) x = p[i := x]"
  by (simp add: slot_put_def)

lemma slot_get_nat: "i < length p \<Longrightarrow> slot_get p (int i) = p ! i"
  by (simp add: slot_get_def)

lemma loop_inv:
  assumes "im_inv conf im hp q" and "n = nat (number_of_hosts hp)" and "hid < n"
  shows "\<exists>im' hs new. monitor_loop conf t n k hid im (hosts hp) = Some (im', hs) \<and> im_out im' = im_out im @ new \<and>
    im_inv conf im' (hp\<lparr>hosts := hs\<rparr>) (q @ new) \<and> pool_core hp (hp\<lparr>hosts := hs\<rparr>)"
  using assms
proof (induction k arbitrary: hid im hp q)
  case 0
  then show ?case by (auto intro!: exI [of _ "[]"])
next
  case (Suc k)
  have next_hid: "Suc hid mod n < n" using Suc.prems(3) by simp
  have "number_of_hosts hp \<le> int (length (hosts hp))" using Suc.prems(1) by (simp add: im_inv_def packed_def)
  then have hid: "hid < length (hosts hp)" using Suc.prems(2,3) by linarith
  show ?case
  proof (cases "active_queries im < max_active_im_queries conf")
    case False
    then show ?thesis using Suc.prems by (auto intro!: exI [of _ "[]"])
  next
    case room: True
    show ?thesis
    proof (cases "\<exists>h. hosts hp ! hid = Some h \<and> monitoring_due conf t h")
      case False
      then have e: "monitor_loop conf t n (Suc k) hid im (hosts hp) = monitor_loop conf t n k (Suc hid mod n) im (hosts hp)"
        using room hid by (auto split: option.split)
      show ?thesis unfolding e by (rule Suc.IH [OF Suc.prems(1,2) next_hid])
    next
      case True
      then obtain h where h: "hosts hp ! hid = Some h" "monitoring_due conf t h" by auto
      obtain h' im' where m: "gw_im_monitor (h\<lparr>last_monitoring_time := t\<rparr>) (im\<lparr>last_checked := int hid\<rparr>) = (h', im')"
        by fastforce
      have g: "slot_get (hosts hp) (int hid) = Some h" using h(1) hid by (simp add: slot_get_nat)
      let ?hp = "hp\<lparr>hosts := (hosts hp)[hid := Some h']\<rparr>"
      obtain new where new: "im_out im' = im_out im @ new" "im_inv conf im' ?hp (q @ new)"
        using monitor_inv [OF Suc.prems(1) room g m] by (auto simp: slot_put_nat)
      have c: "host_core h' = host_core h" using monitor_core [of "h\<lparr>last_monitoring_time := t\<rparr>" "im\<lparr>last_checked := int hid\<rparr>"] m by simp
      have pc: "pool_core hp ?hp" using pool_core_put [OF g c] by (simp add: slot_put_nat)
      have e: "monitor_loop conf t n (Suc k) hid im (hosts hp) =
          monitor_loop conf t n k (Suc hid mod n) im' (hosts ?hp)"
        using room hid h m by simp
      obtain im2 hs new2 where r: "monitor_loop conf t n k (Suc hid mod n) im' (hosts ?hp) = Some (im2, hs)"
          "im_out im2 = im_out im' @ new2" "im_inv conf im2 (?hp\<lparr>hosts := hs\<rparr>) ((q @ new) @ new2)"
          "pool_core ?hp (?hp\<lparr>hosts := hs\<rparr>)"
        using Suc.IH [OF new(2) _ next_hid] Suc.prems(2) by auto
      show ?thesis unfolding e
        using r new(1) pool_core_trans [OF pc r(4)] by auto
    qed
  qed
qed

lemma monitor_hosts_inv:
  assumes "im_inv conf im hp q"
  shows "\<exists>im' hp' new. gw_host_pool_monitor_hosts conf t im hp = Some (im', hp') \<and> im_out im' = im_out im @ new \<and>
    im_inv conf im' hp' (q @ new) \<and> pool_core hp hp'"
proof (cases "number_of_hosts hp = 0")
  case True
  then show ?thesis using assms by (auto simp: gw_host_pool_monitor_hosts_def intro!: exI [of _ "[]"])
next
  case False
  then have p: "0 < number_of_hosts hp" using assms by (simp add: im_inv_def packed_def)
  then have "nat ((last_checked im + 1) mod number_of_hosts hp) < nat (number_of_hosts hp)" by (simp add: nat_less_iff)
  from loop_inv [OF assms refl this, of t "nat (number_of_hosts hp)"] show ?thesis using False
    by (auto simp: gw_host_pool_monitor_hosts_def)
qed

lemma im_inv_times [simp]:
  "im_inv conf (im\<lparr>im_mark := m\<rparr>) hp q = im_inv conf im hp q"
  "im_inv conf (im\<lparr>last_discovery_time := t\<rparr>) hp q = im_inv conf im hp q"
  "im_inv conf (im\<lparr>im_mark := m, last_discovery_time := t\<rparr>) hp q = im_inv conf im hp q"
  by (simp_all add: im_inv_def discovering_def query_ok_def cong: im_request.case_cong)

lemma timer_inv:
  assumes "im_inv conf im hp q"
  shows "\<exists>im' hp' new. gw_im_timer conf t im hp = Some (im', hp') \<and> im_out im' = im_out im @ new \<and>
    im_inv conf im' hp' (q @ new) \<and> pool_core hp hp'"
proof -
  let ?im = "im\<lparr>im_mark := (if im_mark im + 5 \<ge> 300 then 0 else im_mark im + 5)\<rparr>"
  have i: "im_inv conf ?im hp q" using assms by simp
  obtain im1 new1 where 1: "gw_im_timer conf t im hp = gw_host_pool_monitor_hosts conf t im1 hp"
      "im_out im1 = im_out im @ new1" "im_inv conf im1 hp (q @ new1)"
  proof (cases "t - last_discovery_time ?im \<ge> discovery_interval conf")
    case True
    have "im_inv conf (?im\<lparr>last_discovery_time := t\<rparr>) hp q" using assms by simp
    from discover_all_inv [OF this, of ic_name "take GW_MAX_MADS (conf_im_mads conf)"] obtain new
      where "im_out (fold (\<lambda>c. gw_im_discover (Some (ic_name c))) (take GW_MAX_MADS (conf_im_mads conf)) (?im\<lparr>last_discovery_time := t\<rparr>)) = im_out im @ new"
        "im_inv conf (fold (\<lambda>c. gw_im_discover (Some (ic_name c))) (take GW_MAX_MADS (conf_im_mads conf)) (?im\<lparr>last_discovery_time := t\<rparr>)) hp (q @ new)"
      by auto
    then show ?thesis using that True unfolding gw_im_timer_def Let_def by auto
  next
    case False
    then show ?thesis using that [of ?im "[]"] i unfolding gw_im_timer_def Let_def by auto
  qed
  from monitor_hosts_inv [OF 1(3), of t] show ?thesis using 1 by auto
qed

end
