(* ===== verification/IM_Run.thy ===== *)
theory IM_Run
  imports IM_System
begin

text \<open>
  The answers of the information drivers, and the runs of the whole daemon: steps of the other managers, the timer, answers to
  queries that were sent, and drivers that end and are started again.
\<close>

section \<open>Answers\<close>

text \<open>A line that answers a query: of a discovery for no host, of a monitoring for the host that was asked for.\<close>

definition answers :: "im_request \<Rightarrow> string \<Rightarrow> bool" where
  "answers r line =
     (case im_scan line of
        None \<Rightarrow> False
      | Some None \<Rightarrow> False
      | Some (Some (a, w, res, info)) \<Rightarrow>
          (case r of
             IM_DISCOVER n \<Rightarrow> a = ''DISCOVER'' \<and> w = ''-''
           | IM_MONITOR n hid host \<Rightarrow> a = ''MONITOR'' \<and> hd w \<noteq> CHR ''-'' \<and> atoi w = hid))"

lemma clear_facts:
  "gw_host_clear_dynamic_info h = (h', m) \<Longrightarrow> host_core h' = host_core h \<and> host_state h' \<noteq> GW_HOST_STATE_MONITORING"
  by (auto simp: gw_host_clear_dynamic_info_def host_core_def Let_def)

text \<open>The answer to a monitoring changes the host and ends its state.\<close>

lemma monitored_host:
  assumes "im_monitored hid res info s = Some s'" and "get_host s hid = Some h"
  shows "\<exists>h'. gd_hosts s' = gd_hosts (host_put hid h' s) \<and> (\<exists>ms. s' = sends ms (host_put hid h' s)) \<and>
    host_core h' = host_core h \<and> host_state h' \<noteq> GW_HOST_STATE_MONITORING"
proof (cases "res = ''SUCCESS''")
  case True
  then obtain h' ms where u: "gw_host_update info h = Some (h', ms)" "s' = sends ms (host_put hid h' s)"
    using assms by (auto simp: im_monitored_def)
  then show ?thesis using host_update_core [OF u(1)] by (auto simp: sends_def)
next
  case False
  obtain h' m where c: "gw_host_clear_dynamic_info h = (h', m)" by fastforce
  then have "s' = sends [m] (host_put hid h' s)" using assms False by (simp add: im_monitored_def send_def sends_def)
  then show ?thesis using clear_facts [OF c] by (auto simp: sends_def)
qed

lemma discovered_grows:
  assumes "im_discovered conf m res info s = Some s'" and "packed (gd_hosts s)"
  shows "packed (gd_hosts s')" "pool_grows (gd_hosts s) (gd_hosts s')" "s' = s\<lparr>gd_hosts := gd_hosts s'\<rparr>"
proof -
  have "s' = s \<or> (\<exists>hp. s' = s\<lparr>gd_hosts := hp\<rparr> \<and> gw_host_pool_update (conf_prio conf) info (im_em_mad_name m)
      (im_tm_mad_name m) (im_name m) (gd_hosts s) = Some hp)"
    using assms(1) by (auto simp: im_discovered_def split: if_splits)
  then show "packed (gd_hosts s')" "pool_grows (gd_hosts s) (gd_hosts s')" "s' = s\<lparr>gd_hosts := gd_hosts s'\<rparr>"
    using update_list_grows [OF _ assms(2)] assms(2) by (auto simp: gw_host_pool_update_def)
qed

lemma query_ok_grows: "pool_grows hp hp' \<Longrightarrow> query_ok im hp r \<Longrightarrow> query_ok im hp' r"
proof (cases r)
  case (IM_MONITOR n hid host)
  assume g: "pool_grows hp hp'" and ok: "query_ok im hp r"
  obtain h where h: "slot_get (hosts hp) hid = Some h" "host_state h = GW_HOST_STATE_MONITORING" "host_im_mad h = n" "hostname h = host"
    using ok IM_MONITOR by (auto simp: query_ok_def)
  have "slot_grows (slot_get (hosts hp) hid) (slot_get (hosts hp') hid)" using g by (simp add: pool_grows_def)
  then show ?thesis using h IM_MONITOR by (auto simp: query_ok_def slot_grows_def host_core_def split: option.splits)
qed (auto simp: query_ok_def)

definition sys_ok :: "gwd \<Rightarrow> bool" where
  "sys_ok s \<longleftrightarrow> gwd_inv s \<and> tm_backed s"

lemma sys_ok_hosts: "sys_ok s \<Longrightarrow> pool_core (gd_hosts s) hp \<Longrightarrow> sys_ok (s\<lparr>gd_hosts := hp\<rparr>)"
  unfolding sys_ok_def using inv_hosts_grow [OF _ pool_core_hosts] by (auto simp: tm_backed_def backed_def get_job_def)

lemma sys_ok_sends: "sys_ok (sends ms s) = sys_ok s"
proof -
  have "hosts_grow s (sends ms s)" "hosts_grow (sends ms s) s"
    by (simp_all add: hosts_grow_def sends_def rjobs_def uslots_def get_host_def)
  then have "gwd_inv (sends ms s) = gwd_inv s" using inv_hosts_grow by blast
  then show ?thesis by (simp add: sys_ok_def tm_backed_def backed_def get_job_def sends_def)
qed

lemma driver_unique:
  assumes "distinct (map im_name (im_mads im))" and "i < length (im_mads im)" and "k \<in> discovering im"
    and "im_name (im_mads im ! k) = im_name (im_mads im ! i)"
  shows "k = i"
  using assms by (auto simp: discovering_def distinct_conv_nth)

lemma line_discover:
  "im_scan line = Some (Some (''DISCOVER'', ''-'', res, info)) \<Longrightarrow> gw_im_listener_line conf i line (im, s) =
     map_option (\<lambda>s'. ((set_mad i GW_IM_MAD_STATE_IDLE im)\<lparr>active_queries := active_queries im - 1\<rparr>, s'))
       (im_discovered conf (im_mads im ! i) res info s)"
  by (cases "im_discovered conf (im_mads im ! i) res info s") (simp_all add: gw_im_listener_line_def set_mad_def Let_def)

lemma line_monitor:
  "im_scan line = Some (Some (''MONITOR'', w, res, info)) \<Longrightarrow> hd w \<noteq> CHR ''-'' \<Longrightarrow> get_host s (atoi w) \<noteq> None \<Longrightarrow>
     gw_im_listener_line conf i line (im, s) =
     map_option (\<lambda>s'. (im\<lparr>active_queries := active_queries im - 1\<rparr>, s')) (im_monitored (atoi w) res info s)"
  by (cases "im_monitored (atoi w) res info s") (simp_all add: gw_im_listener_line_def Let_def)

text \<open>The answer of a discovery.\<close>

lemma discover_answer:
  assumes inv: "im_inv conf im (gd_hosts s) q" and ok: "sys_ok s" and r: "IM_DISCOVER n \<in> set q"
    and i: "i < length (im_mads im)" "im_name (im_mads im ! i) = n" and a: "answers (IM_DISCOVER n) line"
    and l: "gw_im_listener_line conf i line (im, s) = Some (im', s')"
  shows "im_inv conf im' (gd_hosts s') (remove1 (IM_DISCOVER n) q) \<and> sys_ok s' \<and> im_out im' = im_out im"
proof -
  obtain res info where sc: "im_scan line = Some (Some (''DISCOVER'', ''-'', res, info))"
    using a by (auto simp: answers_def split: option.splits prod.splits)
  then obtain d: "im_discovered conf (im_mads im ! i) res info s = Some s'"
    and im': "im' = (set_mad i GW_IM_MAD_STATE_IDLE im)\<lparr>active_queries := active_queries im - 1\<rparr>"
    using l by (auto simp: line_discover)
  have pk: "packed (gd_hosts s)" using inv by (simp add: im_inv_def)
  note g = discovered_grows [OF d pk]
  have di: "distinct (map im_name (im_mads im))" using inv by (simp add: im_inv_def)
  have "query_ok im (gd_hosts s) (IM_DISCOVER n)" using inv r by (simp add: im_inv_def)
  then obtain k where "k \<in> discovering im" "im_name (im_mads im ! k) = n" by (auto simp: query_ok_def)
  then have in_d: "i \<in> discovering im" using driver_unique [OF di i(1)] i(2) by auto
  have "query_ok im' (gd_hosts s') x" if x: "x \<in> set q" "x \<noteq> IM_DISCOVER n" for x
  proof -
    have "query_ok im (gd_hosts s') x" using inv x query_ok_grows [OF g(2)] by (simp add: im_inv_def)
    then show ?thesis using x(2) i(2)
      by (cases x) (auto simp: query_ok_def im' set_mad_facts [OF i(1)])
  qed
  moreover have "card (discovering im) = Suc (card (discovering im - {i}))" by (rule card_Suc_Diff1 [OF finite_queries(1) in_d, symmetric])
  ultimately have "im_inv conf im' (gd_hosts s') (remove1 (IM_DISCOVER n) q)"
    using inv g pool_grows_monitoring [OF g(2)] unfolding im_inv_def
    by (simp add: im' set_mad_facts [OF i(1)])
  moreover have "sys_ok s'" using sys_ok_hosts [OF ok pool_grows_core [OF g(2)]] g(3) by simp
  ultimately show ?thesis by (simp add: im' set_mad_facts [OF i(1)])
qed

text \<open>The answer of a monitoring.\<close>

lemma monitor_answer:
  assumes inv: "im_inv conf im (gd_hosts s) q" and ok: "sys_ok s" and r: "IM_MONITOR n hid hn \<in> set q"
    and a: "answers (IM_MONITOR n hid hn) line"
    and l: "gw_im_listener_line conf i line (im, s) = Some (im', s')"
  shows "im_inv conf im' (gd_hosts s') (remove1 (IM_MONITOR n hid hn) q) \<and> sys_ok s' \<and> im_out im' = im_out im"
proof -
  have "query_ok im (gd_hosts s) (IM_MONITOR n hid hn)" using inv r by (simp add: im_inv_def)
  then obtain h where h: "slot_get (hosts (gd_hosts s)) hid = Some h" "host_state h = GW_HOST_STATE_MONITORING"
      "host_im_mad h = n" "hostname h = hn"
    by (auto simp: query_ok_def)
  obtain w res info where sc: "im_scan line = Some (Some (''MONITOR'', w, res, info))" "hd w \<noteq> CHR ''-''" "atoi w = hid"
    using a by (auto simp: answers_def split: option.splits prod.splits)
  have gh: "get_host s hid = Some h" using h(1) by (simp add: get_host_def gw_host_pool_get_host_def)
  have m: "im_monitored hid res info s = Some s'" and im': "im' = im\<lparr>active_queries := active_queries im - 1\<rparr>"
    using l sc(3) gh by (auto simp: line_monitor [OF sc(1,2)])
  obtain h' ms where u: "s' = sends ms (host_put hid h' s)" "host_core h' = host_core h" "host_state h' \<noteq> GW_HOST_STATE_MONITORING"
    using monitored_host [OF m gh] by blast
  let ?hp = "(gd_hosts s)\<lparr>hosts := slot_put (hosts (gd_hosts s)) hid (Some h')\<rparr>"
  have hp: "gd_hosts s' = ?hp" by (simp add: u(1) sends_def host_put_def)
  have pk: "packed ?hp" using inv packed_put [OF _ h(1), of h'] u(2) by (simp add: im_inv_def host_core_def)
  have mon: "monitoring ?hp = monitoring (gd_hosts s) - {hid}" "hid \<in> monitoring (gd_hosts s)"
    using u(3) h by (simp_all add: monitoring_put [OF h(1)]) (simp add: monitoring_def)
  have "card (monitoring (gd_hosts s)) = Suc (card (monitoring ?hp))"
    unfolding mon(1) by (rule card_Suc_Diff1 [OF finite_queries(2) mon(2), symmetric])
  moreover have "query_ok im' ?hp x" if x: "x \<in> set q" "x \<noteq> IM_MONITOR n hid hn" for x
  proof -
    have "query_ok im (gd_hosts s) x" using inv x by (simp add: im_inv_def)
    then show ?thesis using x(2) h by (cases x) (auto simp: query_ok_def im')
  qed
  ultimately have "im_inv conf im' (gd_hosts s') (remove1 (IM_MONITOR n hid hn) q)"
    using inv pk unfolding im_inv_def hp by (simp add: im')
  moreover have "sys_ok s'" unfolding u(1) sys_ok_sends host_put_def
    by (rule sys_ok_hosts [OF ok pool_core_put [OF h(1) u(2)]])
  ultimately show ?thesis by (simp add: im')
qed

section \<open>The runs\<close>

type_synonym im_run = "gw_im \<times> gwd \<times> im_request list"

inductive im_step :: "im_conf \<Rightarrow> im_run \<Rightarrow> im_run \<Rightarrow> bool" for conf where
  daemon: "sys_step s s' \<Longrightarrow> im_step conf (im, s, q) (im, s', q)"
| timer: "gw_im_timer conf t im (gd_hosts s) = Some (im', hp) \<Longrightarrow>
    im_step conf (im, s, q) (im', s\<lparr>gd_hosts := hp\<rparr>, q @ drop (length (im_out im)) (im_out im'))"
| answer: "r \<in> set q \<Longrightarrow> i < length (im_mads im) \<Longrightarrow> im_name (im_mads im ! i) = query_driver r \<Longrightarrow> answers r line \<Longrightarrow>
    gw_im_listener_line conf i line (im, s) = Some (im', s') \<Longrightarrow>
    im_step conf (im, s, q) (im', s', remove1 r q)"
| reload: "i < length (im_mads im) \<Longrightarrow>
    im_step conf (im, s, q) (gw_im_listener_eof st i im, s, filter (\<lambda>r. query_driver r \<noteq> im_name (im_mads im ! i)) q)"

text \<open>A daemon starts with the drivers that its configuration registers and an empty host pool.\<close>

definition im_start :: "im_conf \<Rightarrow> nat \<Rightarrow> im_run \<Rightarrow> bool" where
  "im_start conf n x \<longleftrightarrow> (case x of (im, s, q) \<Rightarrow>
     (\<exists>cs. gw_register_mads conf cs gw_im_init = Some im) \<and> gwd_start s \<and> gd_hosts s = gw_host_pool_init n \<and> q = [])"

definition im_reachable :: "im_conf \<Rightarrow> im_run \<Rightarrow> bool" where
  "im_reachable conf x \<longleftrightarrow> (\<exists>n x0. im_start conf n x0 \<and> (im_step conf)\<^sup>*\<^sup>* x0 x)"

definition run_inv :: "im_conf \<Rightarrow> im_run \<Rightarrow> bool" where
  "run_inv conf x \<longleftrightarrow> (case x of (im, s, q) \<Rightarrow> im_inv conf im (gd_hosts s) q \<and> sys_ok s)"

lemma im_inv_view:
  assumes "pool_view hp' = pool_view hp" and inv: "im_inv conf im hp q"
  shows "im_inv conf im hp' q"
proof -
  have n: "number_of_hosts hp' = number_of_hosts hp" "last_host_id hp' = last_host_id hp" "length (hosts hp') = length (hosts hp)"
    using assms(1) by (auto simp: pool_view_def dest: map_eq_imp_length_eq)
  have v: "map_option host_view (hosts hp' ! i) = map_option host_view (hosts hp ! i)" if "i < length (hosts hp)" for i
    using assms(1) n(3) that by (auto simp: pool_view_def) (metis nth_map)
  have g: "map_option host_view (slot_get (hosts hp') x) = map_option host_view (slot_get (hosts hp) x)" for x
    using v n(3) by (auto simp: slot_get_def nat_less_iff)
  have some: "(\<exists>h. slot_get (hosts hp') x = Some h \<and> P (host_view h)) = (\<exists>h. slot_get (hosts hp) x = Some h \<and> P (host_view h))" for x P
    using g [of x] by (cases "slot_get (hosts hp') x"; cases "slot_get (hosts hp) x") auto
  have "monitoring hp' = monitoring hp"
    using some [of _ "\<lambda>v. fst (snd (snd (snd v))) = GW_HOST_STATE_MONITORING"] by (simp add: monitoring_def host_view_def)
  moreover have "query_ok im hp' r = query_ok im hp r" for r
    using some [of _ "\<lambda>v. fst (snd (snd (snd v))) = GW_HOST_STATE_MONITORING \<and> fst (snd (snd v)) = n \<and> fst (snd v) = hn" for n hn]
    by (cases r) (simp_all add: query_ok_def host_view_def)
  moreover have "packed hp'"
  proof -
    have "hosts hp' ! i \<noteq> None \<longleftrightarrow> hosts hp ! i \<noteq> None" if "i < length (hosts hp)" for i
      using v [OF that] by (cases "hosts hp' ! i"; cases "hosts hp ! i") auto
    moreover have "host_id h = x" if hx: "slot_get (hosts hp') x = Some h" for x h
    proof -
      obtain k where "slot_get (hosts hp) x = Some k" "host_view h = host_view k"
        using g [of x] hx by (cases "slot_get (hosts hp) x") auto
      then show ?thesis using inv by (simp add: im_inv_def packed_def host_view_def)
    qed
    ultimately show ?thesis using inv n by (simp add: im_inv_def packed_def)
  qed
  ultimately show ?thesis using inv by (simp add: im_inv_def)
qed

lemma daemon_inv:
  assumes st: "sys_step s s'" and ok: "sys_ok s"
  shows "sys_ok s'" "hv s' = hv s"
proof -
  have r: "gw_step\<^sup>*\<^sup>* s s'" "tm_backed s'" using sys_step_refines [OF _ _ st] ok by (auto simp: sys_ok_def)
  then show "sys_ok s'" using steps_inv ok by (auto simp: sys_ok_def)
  show "hv s' = hv s" using hv_steps r(1) .
qed

lemma eof_facts:
  assumes "i < length (im_mads im)"
  shows "map im_name (im_mads (gw_im_listener_eof st i im)) = map im_name (im_mads im)"
    "im_name (im_mads (gw_im_listener_eof st i im) ! k) = im_name (im_mads im ! k)"
    "im_mad_state (im_mads (gw_im_listener_eof st i im) ! k) = im_mad_state (im_mads im ! k)"
    "length (im_mads (gw_im_listener_eof st i im)) = length (im_mads im)"
    "discovering (gw_im_listener_eof st i im) = discovering im"
    "active_queries (gw_im_listener_eof st i im) = active_queries im"
    "im_out (gw_im_listener_eof st i im) = im_out im"
proof -
  obtain m rc where m: "gw_im_mad_reload st (im_mads im ! i) = (m, rc)" by fastforce
  have same: "im_name m = im_name (im_mads im ! i)" "im_mad_state m = im_mad_state (im_mads im ! i)"
    using m by (auto simp: gw_im_mad_reload_def gw_im_mad_start_def split: mad_start.splits)
  show "map im_name (im_mads (gw_im_listener_eof st i im)) = map im_name (im_mads im)"
    using assms same by (auto simp: gw_im_listener_eof_def m nth_list_update intro!: nth_equalityI)
  show n: "im_name (im_mads (gw_im_listener_eof st i im) ! k) = im_name (im_mads im ! k)"
    and s: "im_mad_state (im_mads (gw_im_listener_eof st i im) ! k) = im_mad_state (im_mads im ! k)" for k
    using assms same by (auto simp: gw_im_listener_eof_def m nth_list_update)
  show l: "length (im_mads (gw_im_listener_eof st i im)) = length (im_mads im)" by (simp add: gw_im_listener_eof_def m)
  show "discovering (gw_im_listener_eof st i im) = discovering im" by (simp add: discovering_def l s)
  show "active_queries (gw_im_listener_eof st i im) = active_queries im" "im_out (gw_im_listener_eof st i im) = im_out im"
    by (simp_all add: gw_im_listener_eof_def m)
qed

lemma run_inv_step: "im_step conf x y \<Longrightarrow> run_inv conf x \<Longrightarrow> run_inv conf y"
proof (induction rule: im_step.induct)
  case (daemon s s' im q)
  then show ?case using daemon_inv [OF daemon(1)] im_inv_view [of "gd_hosts s'" "gd_hosts s"] by (simp add: run_inv_def hv_def)
next
  case (timer t im s im' hp q)
  then have inv: "im_inv conf im (gd_hosts s) q" and ok: "sys_ok s" by (simp_all add: run_inv_def)
  obtain new where "im_out im' = im_out im @ new" "im_inv conf im' hp (q @ new)" "pool_core (gd_hosts s) hp"
    using timer_inv [OF inv, of t] timer(1) by auto
  then show ?case using sys_ok_hosts [OF ok] by (simp add: run_inv_def)
next
  case (answer r q i im line s im' s')
  then have inv: "im_inv conf im (gd_hosts s) q" and ok: "sys_ok s" by (simp_all add: run_inv_def)
  show ?case
  proof (cases r)
    case (IM_DISCOVER n)
    then show ?thesis using discover_answer [OF inv ok _ answer(2)] answer by (simp add: run_inv_def)
  next
    case (IM_MONITOR n hid hn)
    then show ?thesis using monitor_answer [OF inv ok] answer by (simp add: run_inv_def)
  qed
next
  case (reload i im s q st)
  have "query_ok (gw_im_listener_eof st i im) (gd_hosts s) r = query_ok im (gd_hosts s) r" for r
    by (simp add: query_ok_def eof_facts [OF reload(1)] split: im_request.split)
  then show ?case using reload by (simp add: run_inv_def im_inv_def eof_facts)
qed

lemma register_facts:
  assumes "gw_register_mads conf cs im = Some im'" and "distinct (map im_name (im_mads im))" and "discovering im = {}"
  shows "distinct (map im_name (im_mads im'))" "discovering im' = {}" "active_queries im' = active_queries im"
proof -
  have init: "gw_im_mad_init st x n a em tm = Some m \<Longrightarrow> im_name m = n \<and> im_mad_state m = GW_IM_MAD_STATE_IDLE" for st x n a em tm m
    by (auto simp: gw_im_mad_init_def gw_im_mad_start_def split: option.splits prod.splits mad_start.splits if_splits)
  have one: "distinct (map im_name (im_mads im1)) \<and> discovering im1 = {} \<and> active_queries im1 = active_queries im0"
    if r: "gw_im_register_mad conf st x n a im0 = (im1, rc)" and d: "distinct (map im_name (im_mads im0))" "discovering im0 = {}"
    for conf st x n a im0 im1 rc
  proof (cases "im1 = im0")
    case False
    then obtain m em tm where m: "gw_im_mad_init st x n a em tm = Some m" "im1 = im0\<lparr>im_mads := im_mads im0 @ [m]\<rparr>"
        "n \<notin> im_name ` set (im_mads im0)"
      using r by (auto simp: gw_im_register_mad_def Let_def split: if_splits option.splits)
    then show ?thesis using d init [OF m(1)] by (auto simp: discovering_def nth_append less_Suc_eq)
  qed (use d in simp)
  have "distinct (map im_name (im_mads im')) \<and> discovering im' = {} \<and> active_queries im' = active_queries im"
    using assms
  proof (induction conf cs im rule: gw_register_mads.induct)
    case (2 conf c st cs im)
    obtain im1 rc where r: "gw_im_register_mad conf st (ic_path c) (ic_name c) (ic_args c) im = (im1, rc)" by fastforce
    then have "rc = 0" "gw_register_mads conf cs im1 = Some im'" using 2(2) by (auto split: if_splits)
    then show ?case using 2(1) [OF r [symmetric]] one [OF r 2(3,4)] by simp
  qed simp
  then show "distinct (map im_name (im_mads im'))" "discovering im' = {}" "active_queries im' = active_queries im" by simp_all
qed

lemma run_inv_start:
  assumes "im_start conf n x"
  shows "run_inv conf x"
proof -
  obtain im s where x: "x = (im, s, [])" and s: "gwd_start s" "gd_hosts s = gw_host_pool_init n"
      and im: "\<exists>cs. gw_register_mads conf cs gw_im_init = Some im"
    using assms by (auto simp: im_start_def)
  have none: "slot_get (hosts (gw_host_pool_init n)) h = None" for h by (auto simp: gw_host_pool_init_def slot_get_def)
  have "distinct (map im_name (im_mads im))" "discovering im = {}" "active_queries im = 0"
    using im register_facts [of conf _ gw_im_init im] by (auto simp: gw_im_init_def discovering_def)
  moreover have "packed (gw_host_pool_init n)" "monitoring (gw_host_pool_init n) = {}"
    using none by (simp_all add: packed_def monitoring_def) (simp_all add: gw_host_pool_init_def)
  ultimately have "im_inv conf im (gd_hosts s) []" by (simp add: im_inv_def s(2))
  moreover have "sys_ok s"
  proof -
    have "gw_reachable s" using s(1) by (auto simp: gw_reachable_def)
    moreover have "tm_backed s" using s(1) by (simp add: gwd_start_def tm_backed_def)
    ultimately show ?thesis using inv_reachable by (simp add: sys_ok_def)
  qed
  ultimately show ?thesis by (simp add: x run_inv_def)
qed

lemma run_inv_reachable: "im_reachable conf x \<Longrightarrow> run_inv conf x"
proof -
  assume "im_reachable conf x"
  then obtain n x0 where s: "im_start conf n x0" and r: "(im_step conf)\<^sup>*\<^sup>* x0 x" by (auto simp: im_reachable_def)
  from r show ?thesis
    by (induction rule: rtranclp_induct) (use run_inv_start [OF s] run_inv_step in blast)+
qed

lemma im_reachable_step: "im_reachable conf x \<Longrightarrow> im_step conf x y \<Longrightarrow> im_reachable conf y"
  unfolding im_reachable_def by (meson rtranclp.rtrancl_into_rtrancl)

end
