(* ===== verification/IM_Results.thy ===== *)
theory IM_Results
  imports IM_Run
begin

text \<open>The properties of the information manager and of the daemon with it.\<close>

section \<open>Queries\<close>

lemma discovering_le: "card (discovering im) \<le> length (im_mads im)"
proof -
  have "discovering im \<subseteq> {0..<length (im_mads im)}" by (auto simp: discovering_def)
  then have "card (discovering im) \<le> card {0..<length (im_mads im)}" by (rule card_mono [rotated]) simp
  then show ?thesis by simp
qed

text \<open>
  C16: in every run of the daemon, with drivers that end and are started again, the counter of active queries is the number of
  drivers that discover plus the number of hosts that are monitored; the hosts never exceed the configured limit, and every
  query that a driver will still answer is asked once and belongs to such a driver or host.
\<close>

theorem queries_exact:
  assumes "im_reachable conf (im, s, q)"
  shows "active_queries im = int (card (discovering im)) + int (card (monitoring (gd_hosts s))) \<and>
    int (card (monitoring (gd_hosts s))) \<le> max 0 (max_active_im_queries conf) \<and>
    active_queries im \<le> max 0 (max_active_im_queries conf) + int (length (im_mads im)) \<and>
    distinct q \<and> (\<forall>r\<in>set q. query_ok im (gd_hosts s) r)"
proof -
  have "im_inv conf im (gd_hosts s) q" using run_inv_reachable [OF assms] by (simp add: run_inv_def)
  then show ?thesis using discovering_le [of im] by (simp add: im_inv_def)
qed

text \<open>
  C17: the accounting of the daemon stays exact when discoveries add hosts and the drivers change their attributes while jobs
  run: the running jobs and used slots of every host are what the jobs hold.
\<close>

theorem accounting_with_drivers:
  assumes "im_reachable conf (im, s, q)"
  shows "(\<forall>h ho. get_host s h = Some ho \<longrightarrow>
      host_id ho = h \<and> running_jobs ho = total r_claim s h \<and> used_slots ho = total u_claim s h) \<and>
    (\<forall>w u. get_user s w = Some u \<longrightarrow> user_running_jobs u = total n_claim s w)"
proof -
  have r: "im_inv conf im (gd_hosts s) q" "gwd_inv s"
    using run_inv_reachable [OF assms] by (simp_all add: run_inv_def sys_ok_def)
  have "get_host s h = Some ho \<Longrightarrow> host_id ho = h" for h ho
    using r(1) by (simp add: im_inv_def packed_def get_host_def gw_host_pool_get_host_def)
  then show ?thesis using balanced_host [OF r(2)] balanced_user [OF r(2)] by auto
qed

section \<open>Monitoring rounds\<close>

definition registered :: "gw_im \<Rightarrow> string \<Rightarrow> bool" where
  "registered im n \<longleftrightarrow> gw_im_get_mad_by_name n im \<noteq> None"

text \<open>What a round makes of a host when there is room for its query.\<close>

definition round_host :: "im_conf \<Rightarrow> int \<Rightarrow> gw_im \<Rightarrow> gw_host \<Rightarrow> gw_host" where
  "round_host conf t im h =
     (if monitoring_due conf t h
      then if (host_state h = GW_HOST_STATE_DISCOVERED \<or> host_state h = GW_HOST_STATE_MONITORED) \<and> registered im (host_im_mad h)
           then h\<lparr>last_monitoring_time := t, host_state := GW_HOST_STATE_MONITORING\<rparr> else h\<lparr>last_monitoring_time := t\<rparr>
      else h)"

lemma monitor_round_host:
  assumes "monitoring_due conf t h" and "gw_im_monitor (h\<lparr>last_monitoring_time := t\<rparr>) im = (h', im')"
  shows "h' = round_host conf t im h" "im_mads im' = im_mads im" "active_queries im' \<le> active_queries im + 1"
  using assms by (auto simp: gw_im_monitor_def round_host_def registered_def split: if_splits option.splits)

lemma round_host_same: "im_mads im' = im_mads im \<Longrightarrow> round_host conf t im' h = round_host conf t im h"
  by (simp add: round_host_def registered_def gw_im_get_mad_by_name_def)

text \<open>The places that the loop visits are the next \<open>k\<close> ones in turn.\<close>

fun visits :: "nat \<Rightarrow> nat \<Rightarrow> nat \<Rightarrow> nat set" where
  "visits n 0 hid = {}"
| "visits n (Suc k) hid = insert hid (visits n k (Suc hid mod n))"

lemma visits_eq: "hid < n \<Longrightarrow> visits n k hid = (\<lambda>j. (hid + j) mod n) ` {0..<k}"
proof (induction k arbitrary: hid)
  case (Suc k)
  have "visits n k (Suc hid mod n) = (\<lambda>j. (Suc hid mod n + j) mod n) ` {0..<k}" by (rule Suc.IH) (use Suc.prems in simp)
  also have "\<dots> = (\<lambda>j. (hid + j) mod n) ` (Suc ` {0..<k})"
    by (simp add: image_image mod_add_left_eq del: image_Suc_atLeastLessThan)
  finally have "visits n (Suc k) hid = (\<lambda>j. (hid + j) mod n) ` insert 0 (Suc ` {0..<k})" using Suc.prems by simp
  then show ?case by (simp only: atLeast0_lessThan_Suc_eq_insert_0)
qed simp

lemma visits_all:
  assumes "hid < n" and "x < n"
  shows "x \<in> visits n n hid"
proof -
  have "(hid + (x + n - hid) mod n) mod n = x" using assms by (simp add: mod_add_right_eq)
  moreover have "(x + n - hid) mod n < n" using assms by simp
  ultimately show ?thesis unfolding visits_eq [OF assms(1)] by (metis atLeast0LessThan imageI lessThan_iff)
qed

lemma visits_fresh:
  assumes "hid < n" and "k < n"
  shows "hid \<notin> visits n k (Suc hid mod n)"
proof
  assume "hid \<in> visits n k (Suc hid mod n)"
  then obtain j where j: "j < k" "(Suc hid mod n + j) mod n = hid" using assms by (auto simp: visits_eq)
  then have e: "(hid + Suc j) mod n = hid" by (simp add: mod_add_left_eq)
  show False
  proof (cases "hid + Suc j < n")
    case False
    then have "(hid + Suc j) mod n = hid + Suc j - n" using assms j(1) by (simp add: mod_if)
    then show False using e False j(1) assms(2) by linarith
  qed (use e in simp)
qed

lemma loop_round:
  assumes "hid < n" and "n \<le> length hs" and "k \<le> n" and "active_queries im + int k \<le> max_active_im_queries conf"
  shows "\<exists>im' hs'. monitor_loop conf t n k hid im hs = Some (im', hs') \<and> length hs' = length hs \<and>
    (\<forall>x<length hs. hs' ! x = (if x \<in> visits n k hid then map_option (round_host conf t im) (hs ! x) else hs ! x))"
  using assms
proof (induction k arbitrary: hid im hs)
  case (Suc k)
  have nx: "Suc hid mod n < n" using Suc.prems by simp
  have fresh: "hid \<notin> visits n k (Suc hid mod n)" using visits_fresh Suc.prems by simp
  have room: "active_queries im < max_active_im_queries conf" "hid < length hs" using Suc.prems by simp_all
  show ?case
  proof (cases "\<exists>h. hs ! hid = Some h \<and> monitoring_due conf t h")
    case False
    then have e: "monitor_loop conf t n (Suc k) hid im hs = monitor_loop conf t n k (Suc hid mod n) im hs"
      using room by (auto split: option.split)
    have same: "map_option (round_host conf t im) (hs ! hid) = hs ! hid"
      using False by (cases "hs ! hid") (auto simp: round_host_def)
    obtain im' hs' where "monitor_loop conf t n k (Suc hid mod n) im hs = Some (im', hs')" "length hs' = length hs"
        "\<forall>x<length hs. hs' ! x = (if x \<in> visits n k (Suc hid mod n) then map_option (round_host conf t im) (hs ! x) else hs ! x)"
      using Suc.IH [OF nx, of hs im] Suc.prems by auto
    then show ?thesis using e same by auto
  next
    case True
    then obtain h where h: "hs ! hid = Some h" "monitoring_due conf t h" by auto
    obtain h' im1 where m: "gw_im_monitor (h\<lparr>last_monitoring_time := t\<rparr>) (im\<lparr>last_checked := int hid\<rparr>) = (h', im1)"
      by fastforce
    note r = monitor_round_host [OF h(2) m]
    have "im_mads im1 = im_mads im" using r(2) by simp
    moreover from this have "round_host conf t im1 = round_host conf t im" by (intro ext round_host_same)
    moreover have "h' = round_host conf t im h" unfolding r(1) by (rule round_host_same) simp
    ultimately have same: "im_mads im1 = im_mads im" "round_host conf t im1 = round_host conf t im"
      "h' = round_host conf t im h" by simp_all
    have e: "monitor_loop conf t n (Suc k) hid im hs = monitor_loop conf t n k (Suc hid mod n) im1 (hs[hid := Some h'])"
      using room h m by simp
    obtain im' hs' where l: "monitor_loop conf t n k (Suc hid mod n) im1 (hs[hid := Some h']) = Some (im', hs')"
        "length hs' = length hs"
        "\<forall>x<length hs. hs' ! x = (if x \<in> visits n k (Suc hid mod n)
           then map_option (round_host conf t im) (hs[hid := Some h'] ! x) else hs[hid := Some h'] ! x)"
      using Suc.IH [OF nx, of "hs[hid := Some h']" im1] Suc.prems r(3) same by auto
    have "\<forall>x<length hs. hs' ! x = (if x \<in> visits n (Suc k) hid then map_option (round_host conf t im) (hs ! x) else hs ! x)"
    proof (intro allI impI)
      fix x assume "x < length hs"
      then show "hs' ! x = (if x \<in> visits n (Suc k) hid then map_option (round_host conf t im) (hs ! x) else hs ! x)"
        using l(3) fresh h same by (cases "x = hid") simp_all
    qed
    then show ?thesis unfolding e l(1) using l(2) by blast
  qed
qed simp

text \<open>The hosts that a round asks, and the query for one.\<close>

definition asks :: "im_conf \<Rightarrow> int \<Rightarrow> gw_im \<Rightarrow> gw_host \<Rightarrow> bool" where
  "asks conf t im h \<longleftrightarrow> monitoring_due conf t h \<and>
     (host_state h = GW_HOST_STATE_DISCOVERED \<or> host_state h = GW_HOST_STATE_MONITORED) \<and> registered im (host_im_mad h)"

definition query_of :: "gw_host \<Rightarrow> im_request" where
  "query_of h = IM_MONITOR (host_im_mad h) (host_id h) (hostname h)"

lemma monitor_asks:
  assumes "monitoring_due conf t h" and "gw_im_monitor (h\<lparr>last_monitoring_time := t\<rparr>) im = (h', im')"
  shows "im_out im' = im_out im @ (if asks conf t im h then [query_of h] else [])" "host_id h' = host_id h"
  using assms by (auto simp: gw_im_monitor_def asks_def registered_def query_of_def split: if_splits option.splits)

lemma asks_same: "im_mads im' = im_mads im \<Longrightarrow> asks conf t im' h = asks conf t im h"
  by (simp add: asks_def registered_def gw_im_get_mad_by_name_def)

definition asked_at :: "im_conf \<Rightarrow> int \<Rightarrow> gw_im \<Rightarrow> gw_host slots \<Rightarrow> nat set \<Rightarrow> im_request set" where
  "asked_at conf t im hs X = {query_of h |x h. x \<in> X \<and> hs ! x = Some h \<and> asks conf t im h}"

lemma asked_at_insert:
  "asked_at conf t im hs (insert x X) =
     (case hs ! x of None \<Rightarrow> {} | Some h \<Rightarrow> if asks conf t im h then {query_of h} else {}) \<union> asked_at conf t im hs X"
  by (auto simp: asked_at_def split: option.splits)

lemma asked_at_update: "x \<notin> X \<Longrightarrow> asked_at conf t im (hs[x := v]) X = asked_at conf t im hs X"
proof -
  assume "x \<notin> X"
  then have "y \<in> X \<Longrightarrow> hs[x := v] ! y = hs ! y" for y by (cases "x = y") auto
  then show ?thesis unfolding asked_at_def by fastforce
qed

definition own_ids :: "gw_host slots \<Rightarrow> bool" where
  "own_ids hs \<longleftrightarrow> (\<forall>x h. x < length hs \<longrightarrow> hs ! x = Some h \<longrightarrow> host_id h = int x)"

lemma visits_le: "hid < n \<Longrightarrow> x \<in> visits n k hid \<Longrightarrow> x < n"
  by (auto simp: visits_eq)

text \<open>A round with room for all queries writes one for each host that it asks, and no other.\<close>

lemma loop_asks:
  assumes "hid < n" and "n \<le> length hs" and "k \<le> n" and "active_queries im + int k \<le> max_active_im_queries conf"
    and "own_ids hs" and "monitor_loop conf t n k hid im hs = Some (im', hs')"
  shows "\<exists>qs. im_out im' = im_out im @ qs \<and> distinct qs \<and> set qs = asked_at conf t im hs (visits n k hid)"
  using assms
proof (induction k arbitrary: hid im hs)
  case (Suc k)
  have nx: "Suc hid mod n < n" using Suc.prems by simp
  let ?X = "visits n k (Suc hid mod n)"
  have fresh: "hid \<notin> ?X" using visits_fresh Suc.prems by simp
  have room: "active_queries im < max_active_im_queries conf" "hid < length hs" using Suc.prems by simp_all
  show ?case
  proof (cases "\<exists>h. hs ! hid = Some h \<and> monitoring_due conf t h")
    case False
    then have "monitor_loop conf t n k (Suc hid mod n) im hs = Some (im', hs')"
      using room Suc.prems(6) by (auto split: option.splits)
    moreover have "asked_at conf t im hs (insert hid ?X) = asked_at conf t im hs ?X"
      using False by (auto simp: asked_at_insert asks_def split: option.split)
    ultimately show ?thesis using Suc.IH [OF nx, of hs im] Suc.prems by simp
  next
    case True
    then obtain h where h: "hs ! hid = Some h" "monitoring_due conf t h" by auto
    obtain h' im1 where m: "gw_im_monitor (h\<lparr>last_monitoring_time := t\<rparr>) (im\<lparr>last_checked := int hid\<rparr>) = (h', im1)"
      by fastforce
    note r = monitor_round_host [OF h(2) m] and a = monitor_asks [OF h(2) m]
    have same: "im_mads im1 = im_mads im" "\<And>g. asks conf t im1 g = asks conf t im g"
      "asks conf t (im\<lparr>last_checked := int hid\<rparr>) h = asks conf t im h"
      using r(2) by (simp_all add: asks_def registered_def gw_im_get_mad_by_name_def)
    have hid: "host_id h = int hid" using Suc.prems(5) h(1) room(2) by (simp add: own_ids_def)
    have l: "monitor_loop conf t n k (Suc hid mod n) im1 (hs[hid := Some h']) = Some (im', hs')"
      using room h m Suc.prems(6) by simp
    have ids: "own_ids (hs[hid := Some h'])"
      unfolding own_ids_def
    proof (intro allI impI)
      fix x g
      assume "x < length (hs[hid := Some h'])" and "hs[hid := Some h'] ! x = Some g"
      then show "host_id g = int x"
        using Suc.prems(5) a(2) hid by (cases "x = hid") (auto simp: own_ids_def)
    qed
    have am: "asked_at conf t im1 ys X = asked_at conf t im ys X" for ys X using same by (simp add: asked_at_def)
    obtain qs where qs: "im_out im' = im_out im1 @ qs" "distinct qs" "set qs = asked_at conf t im hs ?X"
      using Suc.IH [OF nx, of "hs[hid := Some h']" im1] Suc.prems r(3) ids l fresh by (auto simp: am asked_at_update)
    have "query_of h \<notin> set qs"
    proof
      assume "query_of h \<in> set qs"
      then obtain x g where x: "x \<in> ?X" "hs ! x = Some g" "query_of h = query_of g" unfolding qs(3) asked_at_def by blast
      have "host_id g = int x"
        using x(1,2) Suc.prems(2,5) visits_le [OF nx, of x k] by (simp add: own_ids_def)
      then have "x = hid" using x(3) hid by (simp add: query_of_def)
      then show False using x(1) fresh by simp
    qed
    then have "im_out im' = im_out im @ ((if asks conf t im h then [query_of h] else []) @ qs)"
      "distinct ((if asks conf t im h then [query_of h] else []) @ qs)"
      "set ((if asks conf t im h then [query_of h] else []) @ qs) = asked_at conf t im hs (visits n (Suc k) hid)"
      using qs a(1) same h(1) by (simp_all add: asked_at_insert)
    then show ?thesis by blast
  qed
qed (simp add: asked_at_def)

text \<open>The state of the drivers after the discoveries of a timer.\<close>

lemma discover_cases:
  "gw_im_discover name im = im \<or>
    (\<exists>n i. name = Some n \<and> gw_im_get_mad_by_name n im = Some i \<and> im_mad_state (im_mads im ! i) = GW_IM_MAD_STATE_IDLE \<and>
      gw_im_discover name im = (set_mad i GW_IM_MAD_STATE_DISCOVERING im)
        \<lparr>active_queries := active_queries im + 1, im_out := im_out im @ [IM_DISCOVER n]\<rparr>)"
proof (cases name)
  case (Some n)
  show ?thesis
  proof (cases "gw_im_get_mad_by_name n im")
    case f: (Some i)
    show ?thesis
    proof (cases "im_mad_state (im_mads im ! i) = GW_IM_MAD_STATE_IDLE")
      case True
      then have "gw_im_discover name im = (set_mad i GW_IM_MAD_STATE_DISCOVERING im)
          \<lparr>active_queries := active_queries im + 1, im_out := im_out im @ [IM_DISCOVER n]\<rparr>"
        by (simp add: discover_eq Some f)
      then show ?thesis using Some f True by blast
    qed (simp add: discover_eq Some f)
  qed (simp add: discover_eq Some)
qed (simp add: discover_eq)

lemma discover_names: "map im_name (im_mads (gw_im_discover n im)) = map im_name (im_mads im)"
  using discover_cases [of n im]
proof (elim disjE exE conjE)
  fix m i
  assume f: "gw_im_get_mad_by_name m im = Some i"
    and e: "gw_im_discover n im = (set_mad i GW_IM_MAD_STATE_DISCOVERING im)
      \<lparr>active_queries := active_queries im + 1, im_out := im_out im @ [IM_DISCOVER m]\<rparr>"
  have "i < length (im_mads im)" using find_mad_Some f by (auto simp: gw_im_get_mad_by_name_def)
  then show ?thesis by (simp add: e set_mad_facts)
qed simp

text \<open>Whether a driver is registered depends on the names only.\<close>

lemma registered_iff: "registered im n = (n \<in> set (map im_name (im_mads im)))"
proof -
  have "(gw_im_get_mad_by_name n im = None) = (\<forall>m\<in>set (im_mads im). im_name m \<noteq> n)"
    by (simp add: gw_im_get_mad_by_name_def find_mad_None)
  then show ?thesis by (auto simp: registered_def)
qed

lemma round_host_names:
  "map im_name (im_mads im') = map im_name (im_mads im) \<Longrightarrow> round_host conf t im' h = round_host conf t im h"
  unfolding round_host_def registered_iff by presburger

definition timer_drivers :: "im_conf \<Rightarrow> int \<Rightarrow> gw_im \<Rightarrow> gw_im" where
  "timer_drivers conf t im =
     (let im = im\<lparr>im_mark := (if im_mark im + 5 \<ge> 300 then 0 else im_mark im + 5)\<rparr> in
      if t - last_discovery_time im \<ge> discovery_interval conf
      then fold (\<lambda>c. gw_im_discover (Some (ic_name c))) (take GW_MAX_MADS (conf_im_mads conf)) (im\<lparr>last_discovery_time := t\<rparr>)
      else im)"

lemma timer_eq: "gw_im_timer conf t im hp = gw_host_pool_monitor_hosts conf t (timer_drivers conf t im) hp"
  by (simp add: gw_im_timer_def timer_drivers_def Let_def)

lemma discover_fold:
  "map im_name (im_mads (fold (\<lambda>c. gw_im_discover (Some (f c))) cs im)) = map im_name (im_mads im)"
  by (induction cs arbitrary: im) (simp_all add: discover_names)

lemma discover_asked: "\<exists>ns. im_out (fold (\<lambda>c. gw_im_discover (Some (f c))) cs im) = im_out im @ map IM_DISCOVER ns"
proof (induction cs arbitrary: im)
  case (Cons c cs)
  have "\<exists>ns. im_out (gw_im_discover (Some (f c)) im) = im_out im @ map IM_DISCOVER ns"
  proof -
    consider "gw_im_discover (Some (f c)) im = im"
      | n where "im_out (gw_im_discover (Some (f c)) im) = im_out im @ map IM_DISCOVER [n]"
      using discover_cases [of "Some (f c)" im] by auto
    then show ?thesis
    proof cases
      case 1
      then show ?thesis by (intro exI [of _ "[]"]) simp
    qed blast
  qed
  moreover obtain ms where "im_out (fold (\<lambda>c. gw_im_discover (Some (f c))) cs (gw_im_discover (Some (f c)) im)) =
      im_out (gw_im_discover (Some (f c)) im) @ map IM_DISCOVER ms" using Cons.IH by blast
  ultimately show ?case by (metis append.assoc fold_simps(2) map_append)
qed (auto intro: exI [of _ "[]"])

lemma timer_drivers_asked: "\<exists>ns. im_out (timer_drivers conf t im) = im_out im @ map IM_DISCOVER ns"
proof (cases "t - last_discovery_time im \<ge> discovery_interval conf")
  case True
  then show ?thesis
    using discover_asked [of ic_name "take GW_MAX_MADS (conf_im_mads conf)"
        "im\<lparr>im_mark := (if im_mark im + 5 \<ge> 300 then 0 else im_mark im + 5), last_discovery_time := t\<rparr>"]
    by (simp add: timer_drivers_def Let_def)
next
  case False
  then show ?thesis by (intro exI [of _ "[]"]) (simp add: timer_drivers_def Let_def)
qed

lemma timer_drivers_names: "map im_name (im_mads (timer_drivers conf t im)) = map im_name (im_mads im)"
  by (simp add: timer_drivers_def Let_def discover_fold)

lemma timer_drivers_inv:
  assumes "im_inv conf im hp q"
  shows "\<exists>new. im_inv conf (timer_drivers conf t im) hp (q @ new)"
proof -
  have i: "im_inv conf (im\<lparr>im_mark := m\<rparr>) hp q" "im_inv conf (im\<lparr>im_mark := m, last_discovery_time := t\<rparr>) hp q" for m
    using assms by simp_all
  show ?thesis unfolding timer_drivers_def Let_def
    using discover_all_inv [OF i(2), of ic_name] i(1) by (auto intro: exI [of _ "[]"])
qed

text \<open>
  C18: when the limit leaves room for all drivers and hosts, every tick of the timer is carried out. After the discoveries it
  writes exactly one query for every host whose time has come, which was discovered or monitored before and whose driver is
  registered, and none for any other; and every host of the pool gets the state and the time that follow from that.
\<close>

theorem timer_asks_all:
  assumes r: "im_reachable conf (im, s, q)"
    and room: "int (length (im_mads im)) + 2 * number_of_hosts (gd_hosts s) \<le> max_active_im_queries conf"
  shows "\<exists>im' hp' ns qs. gw_im_timer conf t im (gd_hosts s) = Some (im', hp') \<and>
    im_out im' = im_out im @ map IM_DISCOVER ns @ qs \<and> distinct qs \<and>
    set qs = {query_of h |hid h. slot_get (hosts (gd_hosts s)) hid = Some h \<and> asks conf t im h} \<and>
    (\<forall>hid. slot_get (hosts hp') hid = map_option (round_host conf t im) (slot_get (hosts (gd_hosts s)) hid))"
proof -
  let ?hp = "gd_hosts s"
  let ?n = "nat (number_of_hosts ?hp)"
  let ?im = "timer_drivers conf t im"
  have inv: "im_inv conf im ?hp q" using run_inv_reachable [OF r] by (simp add: run_inv_def)
  then have pk: "packed ?hp" by (simp add: im_inv_def)
  then have le: "0 \<le> number_of_hosts ?hp" "?n \<le> length (hosts ?hp)" by (auto simp: packed_def)
  obtain new where i: "im_inv conf ?im ?hp (q @ new)" using timer_drivers_inv [OF inv] by blast
  have same: "round_host conf t ?im = round_host conf t im"
    using round_host_names [OF timer_drivers_names] by (simp add: fun_eq_iff)
  have empty: "hosts ?hp ! x = None" if "?n \<le> x" "x < length (hosts ?hp)" for x
    using pk that unfolding packed_def by (metis linorder_not_less nat_less_iff of_nat_0_le_iff zless_nat_eq_int_zless)
  obtain ns where ns: "im_out ?im = im_out im @ map IM_DISCOVER ns" using timer_drivers_asked by blast
  have asks: "asks conf t ?im h = asks conf t im h" for h
    unfolding asks_def registered_iff timer_drivers_names ..
  show ?thesis
  proof (cases "number_of_hosts ?hp = 0")
    case True
    then have "slot_get (hosts ?hp) hid = None" for hid using empty by (auto simp: slot_get_def nat_less_iff)
    then show ?thesis using True ns by (auto simp: timer_eq gw_host_pool_monitor_hosts_def)
  next
    case False
    let ?h = "nat ((last_checked ?im + 1) mod number_of_hosts ?hp)"
    have h: "?h < ?n" using False le(1) by (simp add: nat_less_iff)
    have "card (monitoring ?hp) \<le> ?n"
    proof -
      have "monitoring ?hp \<subseteq> int ` {0..<?n}"
      proof
        fix x assume "x \<in> monitoring ?hp"
        then have "0 \<le> x" "nat x < length (hosts ?hp)" "hosts ?hp ! nat x \<noteq> None"
          by (auto simp: monitoring_def slot_get_def split: if_splits)
        then have "x = int (nat x) \<and> nat x < ?n" using empty [of "nat x"] by (metis int_nat_eq linorder_not_less)
        then show "x \<in> int ` {0..<?n}" by (metis atLeastLessThan_iff imageI zero_le)
      qed
      then have "card (monitoring ?hp) \<le> card (int ` {0..<?n})" by (rule card_mono [rotated]) simp
      also have "\<dots> = ?n" by (simp add: card_image)
      finally show ?thesis .
    qed
    moreover have "length (im_mads ?im) = length (im_mads im)" using timer_drivers_names by (metis length_map)
    ultimately have room': "active_queries ?im + int ?n \<le> max_active_im_queries conf"
      using i room le(1) discovering_le [of ?im] by (simp add: im_inv_def)
    then obtain im' hs' where l: "monitor_loop conf t ?n ?n ?h ?im (hosts ?hp) = Some (im', hs')" "length hs' = length (hosts ?hp)"
        "\<forall>x<length (hosts ?hp). hs' ! x =
          (if x \<in> visits ?n ?n ?h then map_option (round_host conf t ?im) (hosts ?hp ! x) else hosts ?hp ! x)"
      using loop_round [OF h le(2) order_refl] by blast
    have "hs' ! x = map_option (round_host conf t im) (hosts ?hp ! x)" if "x < length (hosts ?hp)" for x
      using l(3) that visits_all [OF h, of x] empty [of x] same by (cases "x < ?n") auto
    then have "slot_get hs' hid = map_option (round_host conf t im) (slot_get (hosts ?hp) hid)" for hid
      using l(2) by (auto simp: slot_get_def nat_less_iff)
    moreover have "gw_im_timer conf t im ?hp = Some (im', ?hp\<lparr>hosts := hs'\<rparr>)"
      using l(1) False by (simp add: timer_eq gw_host_pool_monitor_hosts_def)
    moreover have "own_ids (hosts ?hp)" using pk by (auto simp: own_ids_def packed_def slot_get_def)
    from loop_asks [OF h le(2) order_refl room' this l(1)]
    obtain qs where qs: "im_out im' = im_out ?im @ qs" "distinct qs" "set qs = asked_at conf t ?im (hosts ?hp) (visits ?n ?n ?h)"
      by blast
    have "set qs = {query_of h |hid h. slot_get (hosts ?hp) hid = Some h \<and> asks conf t im h}"
    proof -
      have "x \<in> visits ?n ?n ?h \<and> hosts ?hp ! x = Some g \<longleftrightarrow> slot_get (hosts ?hp) (int x) = Some g" for x g
        using visits_all [OF h, of x] visits_le [OF h, of x ?n] le(2) empty [of x] by (cases "x < ?n") (auto simp: slot_get_def)
      moreover have "slot_get (hosts ?hp) hid = Some g \<Longrightarrow> hid = int (nat hid)" for hid g
        by (auto simp: slot_get_def split: if_splits)
      ultimately show ?thesis unfolding qs(3) asked_at_def asks by (smt (verit) Collect_cong)
    qed
    ultimately show ?thesis using qs(1,2) ns by auto
  qed
qed

section \<open>Lost queries\<close>

text \<open>A property of the information manager that discoveries and queries of hosts keep is kept by the timer.\<close>

lemma loop_keeps:
  assumes "\<And>h im h' im'. P im \<Longrightarrow> gw_im_monitor h im = (h', im') \<Longrightarrow> P im'" and "\<And>im c. P im \<Longrightarrow> P (im\<lparr>last_checked := c\<rparr>)"
  shows "monitor_loop conf t n k hid im hs = Some (im', hs') \<Longrightarrow> P im \<Longrightarrow> P im'"
proof (induction k arbitrary: hid im hs)
  case (Suc k)
  show ?case
  proof (cases "\<exists>h. hs ! hid = Some h \<and> monitoring_due conf t h")
    case False
    then have "monitor_loop conf t n (Suc k) hid im hs =
        (if \<not> active_queries im < max_active_im_queries conf then Some (im, hs)
         else if hid < length hs then monitor_loop conf t n k (Suc hid mod n) im hs else None)"
      by (auto split: option.split)
    then show ?thesis using Suc by (auto split: if_splits)
  next
    case True
    then obtain h where h: "hs ! hid = Some h" "monitoring_due conf t h" by auto
    obtain h' im1 where m: "gw_im_monitor (h\<lparr>last_monitoring_time := t\<rparr>) (im\<lparr>last_checked := int hid\<rparr>) = (h', im1)" by fastforce
    have p: "P im1" using assms(1) [OF _ m] assms(2) Suc.prems(2) by blast
    have "monitor_loop conf t n (Suc k) hid im hs =
        (if \<not> active_queries im < max_active_im_queries conf then Some (im, hs)
         else if hid < length hs then monitor_loop conf t n k (Suc hid mod n) im1 (hs[hid := Some h']) else None)"
      using h m by simp
    then show ?thesis using Suc p by (auto split: if_splits)
  qed
qed simp

lemma timer_keeps:
  assumes "\<And>h im h' im'. P im \<Longrightarrow> gw_im_monitor h im = (h', im') \<Longrightarrow> P im'" and "\<And>im n. P im \<Longrightarrow> P (gw_im_discover n im)"
    and "\<And>im c. P im \<Longrightarrow> P (im\<lparr>last_checked := c\<rparr>)" and "\<And>im m. P im \<Longrightarrow> P (im\<lparr>im_mark := m\<rparr>)"
    and "\<And>im u. P im \<Longrightarrow> P (im\<lparr>last_discovery_time := u\<rparr>)"
    and r: "gw_im_timer conf t im hp = Some (im', hp')" and p: "P im"
  shows "P im'"
proof -
  have "P (fold (\<lambda>c. gw_im_discover (Some (ic_name c))) cs im)" if "P im" for im and cs :: "im_mad_conf list"
    using that assms(2) by (induction cs arbitrary: im) simp_all
  moreover have "P (im\<lparr>im_mark := m\<rparr>)" "P (im\<lparr>im_mark := m\<rparr>\<lparr>last_discovery_time := u\<rparr>)" for m u
    using assms(4,5) p by blast+
  ultimately have "P (timer_drivers conf t im)" unfolding timer_drivers_def Let_def by simp
  then show ?thesis
    using r loop_keeps [of P, OF assms(1,3)] unfolding timer_eq gw_host_pool_monitor_hosts_def
    by (auto split: if_splits)
qed

text \<open>The discovery of the driver with the number \<open>i\<close> is counted, but no answer will come.\<close>

definition asked :: "im_request \<Rightarrow> gw_im \<Rightarrow> nat" where
  "asked r im = length (filter (\<lambda>x. x = r) (im_out im))"

definition stuck :: "nat \<Rightarrow> string \<Rightarrow> nat \<Rightarrow> gw_im \<Rightarrow> bool" where
  "stuck i n c im \<longleftrightarrow> distinct (map im_name (im_mads im)) \<and> i \<in> discovering im \<and> im_name (im_mads im ! i) = n \<and>
     asked (IM_DISCOVER n) im = c"

lemma stuck_fields [simp]:
  "stuck i n c (im\<lparr>last_checked := x\<rparr>) = stuck i n c im" "stuck i n c (im\<lparr>im_mark := m\<rparr>) = stuck i n c im"
  "stuck i n c (im\<lparr>last_discovery_time := u\<rparr>) = stuck i n c im" "stuck i n c (im\<lparr>active_queries := a\<rparr>) = stuck i n c im"
  by (simp_all add: stuck_def discovering_def asked_def)

lemma stuck_monitor:
  assumes "gw_im_monitor h im = (h', im')"
  shows "stuck i n c im \<Longrightarrow> stuck i n c im'"
  using monitor_cases [OF assms] by (elim disjE conjE) (simp_all add: stuck_def discovering_def asked_def)

lemma stuck_discover: "stuck i n c im \<Longrightarrow> stuck i n c (gw_im_discover name im)"
  using discover_cases [of name im]
proof (elim disjE exE conjE)
  fix m k
  assume s: "stuck i n c im" and f: "gw_im_get_mad_by_name m im = Some k"
    and idle: "im_mad_state (im_mads im ! k) = GW_IM_MAD_STATE_IDLE"
    and e: "gw_im_discover name im = (set_mad k GW_IM_MAD_STATE_DISCOVERING im)
      \<lparr>active_queries := active_queries im + 1, im_out := im_out im @ [IM_DISCOVER m]\<rparr>"
  have k: "k < length (im_mads im)" "im_name (im_mads im ! k) = m" using find_mad_Some f by (auto simp: gw_im_get_mad_by_name_def)
  have "k \<noteq> i" using s idle by (auto simp: stuck_def discovering_def)
  then have "m \<noteq> n" using driver_unique [OF _ k(1), of i] s k(2) by (auto simp: stuck_def)
  then show ?thesis using s set_mad_facts [OF k(1)] unfolding e stuck_def
    by (simp add: asked_def)
qed simp

definition lost_discovery :: "nat \<Rightarrow> string \<Rightarrow> nat \<Rightarrow> im_run \<Rightarrow> bool" where
  "lost_discovery i n c x \<longleftrightarrow> (case x of (im, s, q) \<Rightarrow> stuck i n c im \<and> IM_DISCOVER n \<notin> set q)"

lemma stuck_timer: "gw_im_timer conf t im hp = Some (im', hp') \<Longrightarrow> stuck i n c im \<Longrightarrow> stuck i n c im'"
  by (rule timer_keeps [where P = "stuck i n c"]) (auto intro: stuck_monitor stuck_discover)

lemma timer_out:
  assumes "im_inv conf im hp q" and "gw_im_timer conf t im hp = Some (im', hp')"
  obtains new where "im_out im' = im_out im @ new"
  using timer_inv [OF assms(1), of t] assms(2) by auto

lemma lost_step:
  assumes "im_step conf x y" and "run_inv conf x" and "lost_discovery i n c x"
  shows "lost_discovery i n c y"
  using assms
proof (induction rule: im_step.induct)
  case (timer t im s im' hp q)
  have st: "stuck i n c im" "stuck i n c im'"
    using timer stuck_timer [OF timer(1)] by (simp_all add: lost_discovery_def)
  obtain new where new: "im_out im' = im_out im @ new"
    using timer timer_out [OF _ timer(1)] by (auto simp: run_inv_def)
  then have "length (filter (\<lambda>x. x = IM_DISCOVER n) new) = 0" using st by (simp add: stuck_def asked_def)
  then have "IM_DISCOVER n \<notin> set new" by (auto simp: filter_empty_conv)
  then show ?case using timer(3) st(2) new by (simp add: lost_discovery_def)
next
  case (answer r q k im line s im' s')
  have st: "stuck i n c im" "IM_DISCOVER n \<notin> set q" using answer(7) by (simp_all add: lost_discovery_def)
  have inv: "im_inv conf im (gd_hosts s) q" using answer(6) by (simp add: run_inv_def)
  have "stuck i n c im'"
  proof (cases r)
    case (IM_DISCOVER m)
    have ne: "m \<noteq> n" using IM_DISCOVER answer(1) st(2) by auto
    obtain res info where "im_scan line = Some (Some (''DISCOVER'', ''-'', res, info))"
      using answer(4) IM_DISCOVER by (auto simp: answers_def split: option.splits prod.splits)
    then have im': "im' = (set_mad k GW_IM_MAD_STATE_IDLE im)\<lparr>active_queries := active_queries im - 1\<rparr>"
      using answer(5) by (auto simp: line_discover)
    have "k \<noteq> i" using st(1) answer(3) IM_DISCOVER ne by (auto simp: stuck_def)
    then show ?thesis using st(1) set_mad_facts [OF answer(2)] unfolding im' stuck_fields
      by (simp add: stuck_def asked_def)
  next
    case (IM_MONITOR m hid hn)
    obtain w res info where sc: "im_scan line = Some (Some (''MONITOR'', w, res, info))" "hd w \<noteq> CHR ''-''" "atoi w = hid"
      using answer(4) IM_MONITOR by (auto simp: answers_def split: option.splits prod.splits)
    have "query_ok im (gd_hosts s) r" using inv answer(1) by (simp add: im_inv_def)
    then have "get_host s hid \<noteq> None" by (auto simp: IM_MONITOR query_ok_def get_host_def gw_host_pool_get_host_def)
    then have "im' = im\<lparr>active_queries := active_queries im - 1\<rparr>"
      using answer(5) sc(3) by (auto simp: line_monitor [OF sc(1,2)])
    then show ?thesis using st(1) by simp
  qed
  then show ?case using st(2) notin_set_remove1 [of "IM_DISCOVER n" q r] by (simp add: lost_discovery_def)
next
  case (reload k im s q st)
  then show ?case by (simp add: lost_discovery_def stuck_def asked_def eof_facts)
qed (simp add: lost_discovery_def)

text \<open>
  C19: a driver that ends while it discovers hosts is started again but never asked to discover again: its query stays
  counted as active and its state says that it discovers, whatever the daemon does afterwards.
\<close>

theorem discovery_lost_for_ever:
  assumes r: "im_reachable conf (im, s, q)" and i: "i \<in> discovering im" and n: "im_name (im_mads im ! i) = n"
    and st: "(im_step conf)\<^sup>*\<^sup>* (gw_im_listener_eof start i im, s, filter (\<lambda>r. query_driver r \<noteq> n) q) (im', s', q')"
  shows "i \<in> discovering im' \<and> IM_DISCOVER n \<notin> set q' \<and> asked (IM_DISCOVER n) im' = asked (IM_DISCOVER n) im \<and>
    active_queries im' \<ge> 1"
proof -
  have len: "i < length (im_mads im)" using i by (simp add: discovering_def)
  let ?x = "(gw_im_listener_eof start i im, s, filter (\<lambda>r. query_driver r \<noteq> n) q)"
  have x: "im_reachable conf ?x" using im_reachable_step [OF r reload [OF len]] n by simp
  have inv: "im_inv conf im (gd_hosts s) q" using run_inv_reachable [OF r] by (simp add: run_inv_def)
  have l0: "lost_discovery i n (asked (IM_DISCOVER n) im) ?x"
    using inv i n by (simp add: lost_discovery_def stuck_def asked_def eof_facts [OF len] im_inv_def)
  have "run_inv conf (im', s', q') \<and> lost_discovery i n (asked (IM_DISCOVER n) im) (im', s', q')"
    using st
  proof (induction rule: rtranclp_induct)
    case base
    then show ?case using run_inv_reachable [OF x] l0 by simp
  next
    case (step y z)
    then show ?case using run_inv_step lost_step by blast
  qed
  then have inv': "im_inv conf im' (gd_hosts s') q'" and l: "i \<in> discovering im'" "IM_DISCOVER n \<notin> set q'"
      "asked (IM_DISCOVER n) im' = asked (IM_DISCOVER n) im"
    by (simp_all add: run_inv_def lost_discovery_def stuck_def)
  have "card (discovering im') \<ge> 1" using l(1) card_gt_0_iff [of "discovering im'"] by (auto simp: Suc_le_eq)
  then show ?thesis using l inv' by (simp add: im_inv_def)
qed

section \<open>The names of the drivers\<close>

text \<open>The lines of the configuration without those that repeat a name.\<close>

fun first_lines :: "string set \<Rightarrow> im_mad_conf list \<Rightarrow> im_mad_conf list" where
  "first_lines seen [] = []"
| "first_lines seen (c # cs) =
     (if ic_name c \<in> seen then first_lines seen cs else c # first_lines (insert (ic_name c) seen) cs)"

definition line_starts :: "im_mad_conf \<times> mad_start \<Rightarrow> bool" where
  "line_starts x \<longleftrightarrow> ic_path (fst x) \<noteq> None \<and> ic_em (fst x) \<noteq> None \<and> ic_tm (fst x) \<noteq> None \<and>
     (case snd x of ANSWER w r a res \<Rightarrow> a = ''INIT'' \<and> res \<noteq> ''FAILURE'' | _ \<Rightarrow> False)"

lemma first_lines_length: "length (first_lines seen cs) \<le> length cs"
  by (induction cs arbitrary: seen) (simp_all add: le_SucI)

lemma register_lines:
  assumes "conf_im_mads conf = ds @ map fst cs" and "length (im_mads im) \<le> length ds" and "\<forall>x\<in>set cs. line_starts x"
    and "\<forall>c\<in>set (conf_im_mads conf). ic_em c \<noteq> None \<and> ic_tm c \<noteq> None"
    and "length ds + length cs \<le> GW_MAX_MADS"
  shows "\<exists>im'. gw_register_mads conf cs im = Some im' \<and>
    (let f = first_lines (im_name ` set (im_mads im)) (map fst cs);
         g = take (length f) (drop (length (im_mads im)) (conf_im_mads conf)) in
     map im_name (im_mads im') = map im_name (im_mads im) @ map ic_name f \<and>
     map im_executable (im_mads im') = map im_executable (im_mads im) @ map (\<lambda>c. the (ic_path c)) f \<and>
     map im_em_mad_name (im_mads im') = map im_em_mad_name (im_mads im) @ map (\<lambda>c. the (ic_em c)) g \<and>
     map im_tm_mad_name (im_mads im') = map im_tm_mad_name (im_mads im) @ map (\<lambda>c. the (ic_tm c)) g)"
  using assms
proof (induction cs arbitrary: ds im)
  case (Cons x cs)
  obtain c st where x: "x = (c, st)" by (cases x)
  let ?n = "length (im_mads im)"
  have lines: "conf_im_mads conf = (ds @ [c]) @ map fst cs" using Cons.prems(1) by (simp add: x)
  show ?case
  proof (cases "ic_name c \<in> im_name ` set (im_mads im)")
    case True
    then have "gw_im_register_mad conf st (ic_path c) (ic_name c) (ic_args c) im = (im, 0)"
      using Cons.prems(2,5) by (simp add: gw_im_register_mad_def Let_def)
    then show ?thesis using Cons.IH [OF lines, of im] Cons.prems True by (simp add: x)
  next
    case False
    let ?d = "conf_im_mads conf ! ?n"
    have n: "?n < length (conf_im_mads conf)" "?n \<noteq> GW_MAX_MADS" using Cons.prems(1,2,5) by simp_all
    then have "?d \<in> set (conf_im_mads conf)" by simp
    then obtain e t where et: "ic_em ?d = Some e" "ic_tm ?d = Some t" using Cons.prems(4) by auto
    have "line_starts (c, st)" using Cons.prems(3) by (simp add: x)
    then obtain p w r res where p: "ic_path c = Some p" "st = ANSWER w r ''INIT'' res" "res \<noteq> ''FAILURE''"
      by (auto simp: line_starts_def split: mad_start.splits)
    let ?m = "\<lparr>im_name = ic_name c, im_executable = p, im_argument = ic_args c, im_em_mad_name = e, im_tm_mad_name = t,
      mad_im_pipe = r, im_mad_pipe = w, im_mad_state = GW_IM_MAD_STATE_IDLE\<rparr>"
    let ?im = "im\<lparr>im_mads := im_mads im @ [?m]\<rparr>"
    have reg: "gw_im_register_mad conf st (ic_path c) (ic_name c) (ic_args c) im = (?im, 0)"
      using n False et p by (simp add: gw_im_register_mad_def gw_im_mad_init_def gw_im_mad_start_def Let_def)
    have seen: "im_name ` set (im_mads ?im) = insert (ic_name c) (im_name ` set (im_mads im))" by simp
    have rest: "drop ?n (conf_im_mads conf) = ?d # drop (Suc ?n) (conf_im_mads conf)" using n(1) by (rule Cons_nth_drop_Suc [symmetric])
    obtain im' where "gw_register_mads conf cs ?im = Some im'" and
      "let f = first_lines (im_name ` set (im_mads ?im)) (map fst cs);
         g = take (length f) (drop (length (im_mads ?im)) (conf_im_mads conf)) in
       map im_name (im_mads im') = map im_name (im_mads ?im) @ map ic_name f \<and>
       map im_executable (im_mads im') = map im_executable (im_mads ?im) @ map (\<lambda>c. the (ic_path c)) f \<and>
       map im_em_mad_name (im_mads im') = map im_em_mad_name (im_mads ?im) @ map (\<lambda>c. the (ic_em c)) g \<and>
       map im_tm_mad_name (im_mads im') = map im_tm_mad_name (im_mads ?im) @ map (\<lambda>c. the (ic_tm c)) g"
      using Cons.IH [OF lines, of ?im] Cons.prems by auto
    then show ?thesis unfolding seen
      by (intro exI [of _ im']) (simp add: x reg [unfolded p(1)] False rest et p(1) Let_def)
  qed
qed simp

text \<open>
  C20: when every driver starts, the start of the daemon registers one driver for each name of the configuration, with the program
  of the first line that has the name; but the execution and transfer drivers of the number \<open>k\<close> are those of line \<open>k\<close>,
  so that after a line with a repeated name every driver has those of another.
\<close>

theorem drivers_registered:
  assumes "conf_im_mads conf = map fst cs" and "length cs \<le> GW_MAX_MADS" and "\<forall>x\<in>set cs. line_starts x"
  shows "\<exists>im. gw_register_mads conf cs gw_im_init = Some im \<and>
    (let f = first_lines {} (conf_im_mads conf); g = take (length f) (conf_im_mads conf) in
     map im_name (im_mads im) = map ic_name f \<and> map im_executable (im_mads im) = map (\<lambda>c. the (ic_path c)) f \<and>
     map im_em_mad_name (im_mads im) = map (\<lambda>c. the (ic_em c)) g \<and> map im_tm_mad_name (im_mads im) = map (\<lambda>c. the (ic_tm c)) g)"
proof -
  have "\<forall>c\<in>set (conf_im_mads conf). ic_em c \<noteq> None \<and> ic_tm c \<noteq> None"
    using assms(1,3) by (auto simp: line_starts_def)
  from register_lines [of conf "[]" cs gw_im_init, OF _ _ assms(3) this] assms(1,2) show ?thesis
    by (simp add: gw_im_init_def)
qed

section \<open>Examples\<close>

definition demo_lines :: "im_mad_conf list" where
  "demo_lines =
     [\<lparr>ic_name = ''mds2'', ic_path = Some ''gw_im_mds2'', ic_args = None, ic_tm = Some ''gridftp'', ic_em = Some ''gram2''\<rparr>,
      \<lparr>ic_name = ''mds2'', ic_path = Some ''gw_im_mds2_old'', ic_args = None, ic_tm = Some ''dummy'', ic_em = Some ''fork''\<rparr>,
      \<lparr>ic_name = ''mds4'', ic_path = Some ''gw_im_mds4'', ic_args = None, ic_tm = Some ''gridftp'', ic_em = Some ''gram4''\<rparr>]"

definition demo_im_conf :: "im_mad_conf list \<Rightarrow> im_conf" where
  "demo_im_conf lines = \<lparr>conf_im_mads = lines, discovery_interval = 300, monitoring_interval = 30, max_active_im_queries = 8,
     conf_prio = \<lparr>ufixed = [], gfixed = [], ufixed_default = 1, hfixed = [], ifixed = [], rfixed_default = 1\<rparr>\<rparr>"

definition demo_answer :: mad_start where
  "demo_answer = ANSWER 3 4 ''INIT'' ''SUCCESS''"

theorem drivers_registered_witness:
  "\<exists>im. gw_register_mads (demo_im_conf demo_lines) (map (\<lambda>c. (c, demo_answer)) demo_lines) gw_im_init = Some im \<and>
     map im_name (im_mads im) = [''mds2'', ''mds4''] \<and> map im_executable (im_mads im) = [''gw_im_mds2'', ''gw_im_mds4''] \<and>
     map im_em_mad_name (im_mads im) = [''gram2'', ''fork''] \<and> map im_tm_mad_name (im_mads im) = [''gridftp'', ''dummy'']"
  using drivers_registered [of "demo_im_conf demo_lines" "map (\<lambda>c. (c, demo_answer)) demo_lines"]
  by (simp add: demo_im_conf_def demo_lines_def demo_answer_def line_starts_def GW_MAX_MADS_def)

text \<open>A run: a discovery that finds two nodes, and the next tick.\<close>

definition demo_run_conf :: im_conf where
  "demo_run_conf = demo_im_conf (take 1 demo_lines)"

definition demo_driver :: "gw_im_mad_state \<Rightarrow> gw_im_mad" where
  "demo_driver st = \<lparr>im_name = ''mds2'', im_executable = ''gw_im_mds2'', im_argument = None, im_em_mad_name = ''gram2'',
     im_tm_mad_name = ''gridftp'', mad_im_pipe = 4, im_mad_pipe = 3, im_mad_state = st\<rparr>"

definition demo_im :: "gw_im_mad_state \<Rightarrow> int \<Rightarrow> int \<Rightarrow> int \<Rightarrow> im_request list \<Rightarrow> gw_im" where
  "demo_im st n t m xs = \<lparr>im_mads = [demo_driver st], active_queries = n, last_discovery_time = t, im_mark = m,
     last_checked = 0, im_listening = True, im_out = xs\<rparr>"

definition demo_s0 :: gwd where
  "demo_s0 = demo_start\<lparr>gd_hosts := gw_host_pool_init 3\<rparr>"

definition demo_hosts :: host_pool where
  "demo_hosts = \<lparr>hosts = [Some (gw_host_init ''n1'' 0 1 ''gram2'' ''gridftp'' ''mds2''),
     Some (gw_host_init ''n2'' 1 1 ''gram2'' ''gridftp'' ''mds2''), None], number_of_hosts = 2, last_host_id = 1\<rparr>"

definition demo_found_line :: string where
  "demo_found_line = ''DISCOVER - SUCCESS n1 n2'' @ [NL]"

lemma demo_registers:
  "gw_register_mads demo_run_conf [(hd demo_lines, demo_answer)] gw_im_init = Some (demo_im GW_IM_MAD_STATE_IDLE 0 0 0 [])"
  by (simp add: demo_run_conf_def demo_im_conf_def demo_lines_def demo_answer_def gw_im_init_def demo_im_def demo_driver_def
      gw_im_register_mad_def gw_im_mad_init_def gw_im_mad_start_def GW_MAX_MADS_def)

lemma demo_ticks:
  "gw_im_timer demo_run_conf 1000 (demo_im GW_IM_MAD_STATE_IDLE 0 0 0 []) (gd_hosts demo_s0) =
     Some (demo_im GW_IM_MAD_STATE_DISCOVERING 1 1000 5 [IM_DISCOVER ''mds2''], gd_hosts demo_s0)"
  by (simp add: gw_im_timer_def demo_run_conf_def demo_im_conf_def demo_lines_def demo_im_def demo_driver_def GW_MAX_MADS_def
      gw_im_discover_def gw_im_get_mad_by_name_def gw_host_pool_monitor_hosts_def demo_s0_def gw_host_pool_init_def)

lemma demo_scan: "im_scan demo_found_line = Some (Some (''DISCOVER'', ''-'', ''SUCCESS'', ''n1 n2''))"
  by (simp add: im_scan_def scan_field_def scan_rest_def demo_found_line_def is_blank_def NL_def GW_IM_MAX_ACTION_def GW_IM_MAX_HOST_ID_def
      GW_IM_MAX_RESULT_def GW_IM_MAX_INFO_def Let_def)

lemma demo_update:
  "gw_host_pool_update (conf_prio demo_run_conf) ''n1 n2'' ''gram2'' ''gridftp'' ''mds2'' (gw_host_pool_init 3) = Some demo_hosts"
proof -
  have l: "(gw_host_init n i p e t m)\<lparr>last_monitoring_time := 0\<rparr> = gw_host_init n i p e t m" for n i p e t m
    by (simp add: gw_host_init_def)
  have n: "hostname (gw_host_init n i p e t m) = n" for n i p e t m by (simp add: gw_host_init_def)
  show ?thesis
    by (simp add: gw_host_pool_update_def host_pool_update_one_def gw_host_pool_search_def gw_host_pool_host_allocate_def
        gw_host_pool_init_def find_slot_def gw_host_pool_get_host_def slot_get_def slot_put_def demo_hosts_def l n
        demo_run_conf_def demo_im_conf_def gw_sch_get_host_priority_def eval_nat_numeral)
qed

lemma demo_answered:
  "gw_im_listener_line demo_run_conf 0 demo_found_line (demo_im GW_IM_MAD_STATE_DISCOVERING 1 1000 5 [IM_DISCOVER ''mds2''], demo_s0) =
     Some (demo_im GW_IM_MAD_STATE_IDLE 0 1000 5 [IM_DISCOVER ''mds2''], demo_s0\<lparr>gd_hosts := demo_hosts\<rparr>)"
  using demo_update
  by (simp add: line_discover [OF demo_scan] im_discovered_def demo_im_def demo_driver_def set_mad_def demo_s0_def)

lemma demo_reached:
  "im_reachable demo_run_conf (demo_im GW_IM_MAD_STATE_DISCOVERING 1 1000 5 [IM_DISCOVER ''mds2''], demo_s0, [IM_DISCOVER ''mds2''])"
  "im_reachable demo_run_conf (demo_im GW_IM_MAD_STATE_IDLE 0 1000 5 [IM_DISCOVER ''mds2''], demo_s0\<lparr>gd_hosts := demo_hosts\<rparr>, [])"
proof -
  have "get_host demo_s0 h = None" for h
    by (auto simp: demo_s0_def get_host_def gw_host_pool_get_host_def gw_host_pool_init_def slot_get_def nat_less_iff)
  then have s: "gwd_start demo_s0"
    using demo_start_ok by (simp add: gwd_start_def rjobs_def uslots_def) (simp add: demo_s0_def get_job_def get_user_def)
  have "im_start demo_run_conf 3 (demo_im GW_IM_MAD_STATE_IDLE 0 0 0 [], demo_s0, [])"
  proof -
    have "\<exists>cs. gw_register_mads demo_run_conf cs gw_im_init = Some (demo_im GW_IM_MAD_STATE_IDLE 0 0 0 [])"
      using demo_registers by blast
    then show ?thesis using s by (simp add: im_start_def demo_s0_def)
  qed
  then have 0: "im_reachable demo_run_conf (demo_im GW_IM_MAD_STATE_IDLE 0 0 0 [], demo_s0, [])"
    unfolding im_reachable_def by blast
  have "demo_s0\<lparr>gd_hosts := gd_hosts demo_s0\<rparr> = demo_s0" by simp
  then show 1: "im_reachable demo_run_conf
      (demo_im GW_IM_MAD_STATE_DISCOVERING 1 1000 5 [IM_DISCOVER ''mds2''], demo_s0, [IM_DISCOVER ''mds2''])"
    using im_reachable_step [OF 0 timer [OF demo_ticks]] by (simp add: demo_im_def)
  have "answers (IM_DISCOVER ''mds2'') demo_found_line" by (simp add: answers_def demo_scan)
  from im_reachable_step [OF 1 answer [OF _ _ _ this demo_answered]]
  show "im_reachable demo_run_conf (demo_im GW_IM_MAD_STATE_IDLE 0 1000 5 [IM_DISCOVER ''mds2''], demo_s0\<lparr>gd_hosts := demo_hosts\<rparr>, [])"
    by (simp add: demo_im_def demo_driver_def)
qed

theorem queries_exact_witness:
  "1 = int (card (discovering (demo_im GW_IM_MAD_STATE_DISCOVERING 1 1000 5 [IM_DISCOVER ''mds2''])))
      + int (card (monitoring (gd_hosts demo_s0)))"
  using queries_exact [OF demo_reached(1)] by (simp add: demo_im_def)

theorem accounting_with_drivers_witness:
  "0 = total r_claim (demo_s0\<lparr>gd_hosts := demo_hosts\<rparr>) 1 \<and> 0 = total u_claim (demo_s0\<lparr>gd_hosts := demo_hosts\<rparr>) 1"
proof -
  have "get_host (demo_s0\<lparr>gd_hosts := demo_hosts\<rparr>) 1 = Some (gw_host_init ''n2'' 1 1 ''gram2'' ''gridftp'' ''mds2'')"
    by (simp add: get_host_def gw_host_pool_get_host_def slot_get_def demo_hosts_def)
  then have "running_jobs (gw_host_init ''n2'' 1 1 ''gram2'' ''gridftp'' ''mds2'') = total r_claim (demo_s0\<lparr>gd_hosts := demo_hosts\<rparr>) 1 \<and>
      used_slots (gw_host_init ''n2'' 1 1 ''gram2'' ''gridftp'' ''mds2'') = total u_claim (demo_s0\<lparr>gd_hosts := demo_hosts\<rparr>) 1"
    using accounting_with_drivers [OF demo_reached(2)] by blast
  then show ?thesis by (simp only: init_fields)
qed

theorem timer_asks_all_witness:
  "\<exists>im' hp' h. gw_im_timer demo_run_conf 1005 (demo_im GW_IM_MAD_STATE_IDLE 0 1000 5 [IM_DISCOVER ''mds2'']) demo_hosts = Some (im', hp') \<and>
     slot_get (hosts hp') 1 = Some h \<and> host_state h = GW_HOST_STATE_MONITORING \<and> IM_MONITOR ''mds2'' 1 ''n2'' \<in> set (im_out im')"
proof -
  let ?im = "demo_im GW_IM_MAD_STATE_IDLE 0 1000 5 [IM_DISCOVER ''mds2'']"
  have g: "slot_get (hosts demo_hosts) 1 = Some (gw_host_init ''n2'' 1 1 ''gram2'' ''gridftp'' ''mds2'')"
    by (simp add: slot_get_def demo_hosts_def)
  have "host_state (round_host demo_run_conf 1005 ?im (gw_host_init ''n2'' 1 1 ''gram2'' ''gridftp'' ''mds2'')) = GW_HOST_STATE_MONITORING"
    by (simp add: round_host_def monitoring_due_def registered_iff demo_im_def demo_driver_def gw_host_init_def)
  moreover have "int (length (im_mads ?im)) + 2 * number_of_hosts demo_hosts \<le> max_active_im_queries demo_run_conf"
    by (simp add: demo_im_def demo_hosts_def demo_run_conf_def demo_im_conf_def)
  moreover from this obtain im' hp' ns qs where r: "gw_im_timer demo_run_conf 1005 ?im demo_hosts = Some (im', hp')"
      "im_out im' = im_out ?im @ map IM_DISCOVER ns @ qs"
      "set qs = {query_of h |hid h. slot_get (hosts demo_hosts) hid = Some h \<and> asks demo_run_conf 1005 ?im h}"
      "\<forall>hid. slot_get (hosts hp') hid = map_option (round_host demo_run_conf 1005 ?im) (slot_get (hosts demo_hosts) hid)"
    using timer_asks_all [OF demo_reached(2), of 1005] by auto
  moreover have "asks demo_run_conf 1005 ?im (gw_host_init ''n2'' 1 1 ''gram2'' ''gridftp'' ''mds2'')"
    by (simp add: asks_def monitoring_due_def registered_iff demo_im_def demo_driver_def gw_host_init_def)
  then have "query_of (gw_host_init ''n2'' 1 1 ''gram2'' ''gridftp'' ''mds2'') \<in> set qs" using r(3) g by blast
  then have "IM_MONITOR ''mds2'' 1 ''n2'' \<in> set qs" by (simp add: query_of_def gw_host_init_def)
  ultimately show ?thesis using g by auto
qed

text \<open>The driver ends while it discovers; at the next tick nothing happens.\<close>

theorem discovery_lost_for_ever_witness:
  "0 \<in> discovering (gw_im_listener_eof demo_answer 0 (demo_im GW_IM_MAD_STATE_DISCOVERING 1 1000 5 [IM_DISCOVER ''mds2''])) \<and>
    asked (IM_DISCOVER ''mds2'') (gw_im_listener_eof demo_answer 0 (demo_im GW_IM_MAD_STATE_DISCOVERING 1 1000 5 [IM_DISCOVER ''mds2''])) = 1"
proof -
  let ?im = "demo_im GW_IM_MAD_STATE_DISCOVERING 1 1000 5 [IM_DISCOVER ''mds2'']"
  have "0 \<in> discovering ?im" "im_name (im_mads ?im ! 0) = ''mds2''" "asked (IM_DISCOVER ''mds2'') ?im = 1"
    by (simp_all add: discovering_def demo_im_def demo_driver_def asked_def)
  then show ?thesis
    using discovery_lost_for_ever [OF demo_reached(1), of 0 "''mds2''" demo_answer] by auto
qed

end
