(* ===== verification/Spec2Isabelle.thy ===== *)
theory Spec2Isabelle
  imports DM_Init DM_Files SCH_Results SCH_Lines TM_Transfer EM_Results RC_Results HV_Results IM_Results
begin

text \<open>
  A verification development for the GridWay metascheduler: the daemon \<open>gwd\<close> (\<open>src/gwd\<close>) accepts
  jobs from clients, asks the process \<open>gw_sched\<close> (\<open>src/scheduler\<close>) for hosts, stages files with
  transfer drivers and runs a wrapper script on the hosts with execution drivers.

  \<^bold>\<open>Parts of the program and their theories.\<close>

  \<^item> \<open>GW_Prelude\<close>: hint collections, pools as lists of optional entries, the round-robin search for a
    free entry, and the locale \<open>slot_pool\<close> that the host and job pools interpret.
  \<^item> \<open>GW_Types\<close>: the enumerations of \<open>include/gw_job.h\<close> and \<open>include/gw_history.h\<close>, and the names of the
    job states in \<open>src/job/gw_job.c\<close>.
  \<^item> \<open>GW_Action\<close>: the action manager \<open>src/common/gw_action.c\<close> on which all managers of the daemon run.
  \<^item> \<open>GW_Text\<close>: decimal numbers, \<open>strcasecmp\<close> and \<open>src/common/gw_file_parser.c\<close>.
  \<^item> \<open>GW_Int\<close>: the range of \<open>int\<close>, arithmetic whose overflow is undefined, and the reading of a number.
  \<^item> \<open>GW_Sched_Msg\<close>, \<open>GW_Host\<close>, \<open>GW_User\<close>: the messages to the scheduler (\<open>src/dm/gw_dm_mad.c\<close>), hosts and
    their pool (\<open>src/host\<close>), users and their pool (\<open>src/um\<close>).
  \<^item> \<open>HV_Vars\<close>, \<open>HV_Parse\<close>: the attributes of a host by name (\<open>src/host/gw_host_var.c\<close>), and the expressions over
    them: the scanner \<open>src/host/gw_host_attr_parser.l\<close>, the grammars of updates, requirements and ranks
    (\<open>gw_host_update_syntax.y\<close>, \<open>gw_host_reqs_syntax.y\<close>, \<open>gw_host_rank_syntax.y\<close>) and \<open>gw_host_update\<close>.
  \<^item> \<open>GW_Template\<close>, \<open>GW_History\<close>, \<open>GW_Job\<close>, \<open>GW_Array\<close>: job templates, transfer lists and execution records,
    jobs with their pool and dependency matrix (\<open>src/job\<close>), arrays (\<open>src/array\<close>).
  \<^item> \<open>GW_Sys\<close>: the record \<open>gwd\<close>, the state of the daemon that the dispatch manager works on.
  \<^item> \<open>DM_Prolog\<close>, \<open>DM_Wrapper\<close>, \<open>DM_Epilog\<close>, \<open>DM_States\<close>, \<open>DM_Actions\<close>, \<open>DM_Schedule\<close>, \<open>DM_Init\<close>: the dispatch
    manager \<open>src/dm\<close>, every handler of its action table: the states of a job from the prolog to
    the end states, the requests of clients, the periodic check, the dispatch and the lines of
    the scheduler, and the table itself.
  \<^item> \<open>TM_Url\<close>, \<open>TM_Manager\<close>: the transfer manager \<open>src/tm\<close>: the variables and the URLs of the files, the
    actions that the dispatch manager triggers on it, the copies of a prolog, an epilog or a checkpoint
    with their retries, and the answers of a transfer driver.
  \<^item> \<open>EM_State\<close>, \<open>EM_Manager\<close>: the execution manager \<open>src/em\<close>: the callbacks that change a job
    (\<open>gw_em_state.c\<close>), the submission, the cancellation and the timer (\<open>gw_em_actions.c\<close>) and the lines of an
    execution driver (\<open>gw_em_listener.c\<close>).
  \<^item> \<open>IM_Manager\<close>: the information manager \<open>src/im\<close>: the drivers and their registration, the timer with its
    discoveries and the monitoring of the hosts (\<open>gw_host_pool_monitor_hosts\<close>), the lines of a driver, and its reload.
  \<^item> \<open>RC_Recover\<close>: the recovery of the jobs of a former run (\<open>gw_recover_state\<close> of \<open>src/gwd/gwd.c\<close>,
    \<open>src/job/gw_job_recover.c\<close>): the files of a job, its transitions one after the other, and what takes
    it up again. \<open>RC_Files\<close> has the lines that the daemon writes into these files.
  \<^item> \<open>SCH_Float\<close>, \<open>SCH_Conf\<close>: the floating point types, and the configuration of the scheduler
    (\<open>src/gwd/gw_sch_conf.c\<close>).
  \<^item> \<open>SCH_State\<close>, \<open>SCH_Jobs\<close>, \<open>SCH_Match\<close>, \<open>SCH_Policy\<close>, \<open>SCH_Dispatch\<close>, \<open>SCH_Loop\<close>: the scheduler process
    \<open>src/scheduler\<close>, in the order of the code: tables of hosts, users and jobs, bans after failures,
    match-making, priorities of queues and jobs, the built-in and the flood scheduler, and the
    loop that reads the lines of the daemon.

  \<^bold>\<open>How state and operations correspond.\<close> A C structure is a record with the same field names, a
  pool is a list of optional entries, a list of history records is an Isabelle list whose head is
  \<open>job->history\<close> and whose second entry is \<open>job->history->next\<close>. The action managers of the other
  threads appear in \<open>gwd\<close> as the lists of actions triggered on them and not yet run (\<open>tm_am\<close>, \<open>em_am\<close>,
  \<open>rm_am\<close>), the pipe to the scheduler as the list \<open>sched_out\<close>. A handler \<open>gw_dm_x\<close> is a function
  \<open>env => int option => gwd => gwd option\<close>: the environment holds what the handler reads from outside
  (the clock, whether files open, the output of the wrapper), and \<open>None\<close> is an
  undefined read or write of the C code: a NULL history or host that is followed, an index outside
  an array. In the scheduler process the arrays grown with \<open>realloc\<close> are lists, the environment
  \<open>sch_env\<close> holds the clock, the rounding of the two floating point types, \<open>exp\<close>, the accounting data
  base and the answers of the daemon to the client library, and \<open>None\<close> is also a division by
  zero of integers or a conversion of a value that is not finite.

  \<^bold>\<open>What the lemmas show.\<close>

  \<^item> Each component theory: what its operations return and keep, on every branch; well-formedness of
    the pools; round trips of names, numbers and lines.
  \<^item> \<open>DM_Account\<close> states the abstract specification of the accounting: every job has at most one
    control item (a pending action of the dispatch manager, a transfer, or a submission), from item and
    state follows its phase, and from the phase what it holds of the counters of hosts and user.
  \<^item> \<open>DM_Prims\<close>, \<open>DM_Moves\<close>, \<open>DM_Requests\<close>, \<open>DM_Release\<close>, \<open>DM_Submit\<close>, \<open>DM_Dispatch\<close>: one lemma per operation of
    the daemon that it is defined and moves the job from phase to phase with the right counters.
  \<^item> \<open>DM_Flow\<close> composes them: the step relation \<open>gw_step\<close>, where the loop of the dispatch manager,
    clients, transfer and execution managers and the scheduler act in any order, and the
    invariant of all states reachable from an empty daemon.
  \<^item> \<open>DM_Safety\<close> draws the conclusions; \<open>DM_Leaks\<close> proves what goes wrong in situations that
    \<open>gw_step\<close> leaves out; \<open>DM_Effects\<close> states what single operations do, \<open>DM_Files\<close> which files each epilog fetches.
  \<^item> \<open>TM_Transfer\<close>: the copies of a prolog as a relation over the answers of the driver, with the tries
    that are left as its measure; a buffer of the substitution that is too short.
  \<^item> \<open>TM_Frame\<close>: no step of the other parts of the daemon takes back a request to the transfer manager or changes
    the transfer state of a job. \<open>TM_System\<close>: the daemon with the real transfer manager and
    any drivers (\<open>tm_step\<close>), each step of which is steps of \<open>gw_step\<close>.
  \<^item> \<open>EM_System\<close>: what every operation of the execution manager does to a job, and the whole daemon with both
    managers and any drivers (\<open>sys_step\<close>), which refines \<open>gw_step\<close>; \<open>EM_Results\<close>: the properties of the composed
    system, the end of failing polls and cancellations, and two defects of the execution manager.
  \<^item> \<open>IM_Frame\<close>: the other managers change hosts only by their counters. \<open>IM_System\<close>: the invariant of the
    information manager and that its actions keep it; \<open>IM_Run\<close>: the whole daemon with its information drivers, which may
    end and be started again (\<open>im_step\<close>); \<open>IM_Results\<close>: the queries that are counted, the rounds of the timer,
    lost queries and the registration of the drivers.
  \<^item> \<open>RC_Files\<close>: what is read from the files of a job is what was written. \<open>RC_Account\<close>: the counters that a recovered
    job takes back are what its phase holds; \<open>RC_Results\<close>: what a recovery does to the pool, the counters and the pending
    actions, that it keeps the invariant of the daemon, and two situations in which the counters end up wrong.
  \<^item> \<open>HV_Text\<close> prints the tokens of an expression, which the scanner reads back. \<open>HV_Results\<close>: requirements and ranks as
    trees with their values, which the parsers compute from the printed text; lines of assignments; generic
    variables; and texts on which the daemon fails.
  \<^item> \<open>SCH_Inv\<close>, \<open>SCH_Safe\<close>, \<open>SCH_Steps\<close>, \<open>SCH_Run\<close>: the invariant of the tables of the scheduler, that every
    operation is defined and keeps it, the locale \<open>scheduler_module\<close> (what the loop relies on in the
    function plugged into it) with both schedulers as interpretations, and the runs of the process.
  \<^item> \<open>SCH_Limits\<close>: dispatching under a guard as a step relation, which both schedulers refine;
    \<open>SCH_Choice\<close>, \<open>SCH_Order\<close>: choice of queues, order of jobs, range of the shares.
  \<^item> \<open>SCH_Message\<close>, \<open>SCH_Lines\<close>: the lines on the pipes between daemon and scheduler, in both directions.
  \<^item> \<open>SCH_Results\<close> states the properties of the scheduler.

  \<^bold>\<open>Assumptions.\<close> A handler runs atomically (the code holds the mutex of the job) and reads the clock
  once. The state files of a job open. Identifiers and counters are unbounded integers: they are far below the width of
  \<open>int\<close>. Where a client, a driver or a configuration chooses the number, the range of \<open>int\<close> is modelled (\<open>GW_Int\<close>: literals and
  arithmetic of requirements and ranks, the size of an array; the past jobs of a user). The guards of \<open>gw_step\<close> exclude a finalisation, a hard kill
  (\<open>kill_hard_keeps_running\<close>), a kill of a job whose prolog is already asked for
  (\<open>kill_before_prolog_leaks\<close>), a migration of a job whose execution has ended and a
  failure of an execution that is being cancelled for a migration (\<open>failed_migration_leaks\<close>), and a
  line of the scheduler that dispatches a job that is not waiting for a host.

  In \<open>tm_step\<close> the list \<open>tm_am\<close> holds the requests that were not answered, and the transfer manager runs the action of a
  request before the transfer it asks for is answered; transfer drivers are not reloaded. In \<open>sys_step\<close> the submissions of \<open>em_am\<close>
  are the executions that are not over; the submission of any job may run at any time, and an action that ends
  an execution (\<open>ends_execution\<close>) is admitted for one of these (\<open>em_admitted\<close>; \<open>failure_reported_twice\<close> shows what happens otherwise).

  In \<open>im_step\<close> a driver answers only what it was asked, a monitoring with the number of that host, and with a line that the
  daemon can act on.

  A job is recovered into a free entry of its own. That the recovered daemon satisfies the invariant again
  (\<open>recovery_keeps_accounting\<close>) needs last two states from which the code resumes (\<open>resumable\<close>), and the contact of a job
  that was running (\<open>lost_contact_leaks_slots\<close> shows what happens otherwise).

  For the scheduler: rounding is monotone and exact on the powers of two up to \<open>2^100\<close> (\<open>ieee\<close>), \<open>exp\<close> maps
  what is not above zero into the unit interval (\<open>exp_ok\<close>), the daemon offers hosts with queues and answers
  with at least one history record (\<open>client_ok\<close>), the configuration has a window depth between 1 and 10
  and no share of zero (\<open>conf_ok\<close>), and the values of the tables are in the ranges of their C types
  (\<open>in_range\<close>). The removal of a user is left out of the runs (\<open>del_user_shifts_jobs\<close>).

  \<^bold>\<open>Not modelled.\<close> Sockets and client connections (\<open>src/rm\<close>), the driver processes and their pipes, configuration files and process start, the tables of the
  generated scanners and parsers and the limit of their stacks, character classes in the brackets of a pattern, the
  DRMAA libraries and the printing of messages to the log.
\<close>

end
